(* ===== verification/Prelude.thy ===== *)
theory Prelude
  imports
    Main
    "HOL-Library.Word"
    "HOL-Library.FSet"
    "HOL-Library.Finite_Map"
    "HOL-Library.List_Lexorder"
    "HOL-Library.Product_Lexorder"
    "HOL-Library.Char_ord"
    "HOL-Library.Multiset"
begin

text \<open>
  Shared vocabulary of the development: Rust results and loops with early returns, the
  checked and saturating operations of the unsigned integer types, UTF-8 strings, and
  lemmas on ordered lists. Nothing here models a component of GaugeMesh; every component
  theory imports this one.

  A Rust \<open>String\<close> is its list of UTF-8 bytes (\<open>string\<close>, one \<open>char\<close> per byte), so
  \<open>len()\<close> is \<open>length\<close> and the derived \<open>Ord\<close> is the lexicographic order on bytes that
  \<open>HOL-Library.List_Lexorder\<close> and \<open>HOL-Library.Char_ord\<close> give. A \<open>BTreeSet\<close> is an
  \<open>fset\<close>, a \<open>BTreeMap\<close> an \<open>fmap\<close>; where the code iterates over one, the iteration
  is the sorted list of its elements or keys.
\<close>

named_theorems rust_defs \<open>definitions of the Rust standard library operations\<close>
named_theorems guard_simps \<open>when a chain of guards returns a value\<close>

section \<open>Results and early returns\<close>

type_synonym ('e, 'a) res = "'e + 'a"

definition rbind :: "('e, 'a) res \<Rightarrow> ('a \<Rightarrow> ('e, 'b) res) \<Rightarrow> ('e, 'b) res" where
  "rbind r k = (case r of Inl e \<Rightarrow> Inl e | Inr x \<Rightarrow> k x)"

definition ensure :: "bool \<Rightarrow> 'e \<Rightarrow> ('e, unit) res" where
  "ensure b e = (if b then Inr () else Inl e)"

definition ok_or :: "'a option \<Rightarrow> 'e \<Rightarrow> ('e, 'a) res" where
  "ok_or x e = (case x of None \<Rightarrow> Inl e | Some v \<Rightarrow> Inr v)"

definition map_err :: "('e \<Rightarrow> 'f) \<Rightarrow> ('e, 'a) res \<Rightarrow> ('f, 'a) res" where
  "map_err f r = (case r of Inl e \<Rightarrow> Inl (f e) | Inr x \<Rightarrow> Inr x)"

lemma rbind_simps [simp]:
  "rbind (Inl e) k = Inl e"
  "rbind (Inr x) k = k x"
  by (simp_all add: rbind_def)

lemma rbind_Inr [guard_simps]:
  "rbind r k = Inr y \<longleftrightarrow> (\<exists>x. r = Inr x \<and> k x = Inr y)"
  by (cases r) auto

lemma rbind_Inl:
  "rbind r k = Inl e \<longleftrightarrow> r = Inl e \<or> (\<exists>x. r = Inr x \<and> k x = Inl e)"
  by (cases r) auto

lemma ensure_simps [simp]:
  "ensure True e = Inr ()"
  "ensure False e = Inl e"
  by (simp_all add: ensure_def)

lemma ensure_Inr [guard_simps]: "ensure b e = Inr u \<longleftrightarrow> b"
  by (simp add: ensure_def)

lemma ensure_Inl: "ensure b e = Inl e' \<longleftrightarrow> \<not> b \<and> e' = e"
  by (auto simp: ensure_def)

lemma ok_or_simps [simp]:
  "ok_or None e = Inl e"
  "ok_or (Some x) e = Inr x"
  by (simp_all add: ok_or_def)

lemma ok_or_Inr [guard_simps]: "ok_or x e = Inr y \<longleftrightarrow> x = Some y"
  by (cases x) auto

lemma map_err_simps [simp]:
  "map_err f (Inl e) = Inl (f e)"
  "map_err f (Inr x) = Inr x"
  by (simp_all add: map_err_def)

lemma map_err_Inr [guard_simps]: "map_err f r = Inr y \<longleftrightarrow> r = Inr y"
  by (cases r) auto

text \<open>A \<open>for\<close> loop whose body may return an error: the first error ends it.\<close>

fun try_each :: "('a \<Rightarrow> ('e, unit) res) \<Rightarrow> 'a list \<Rightarrow> ('e, unit) res" where
  "try_each f [] = Inr ()"
| "try_each f (x # xs) = rbind (f x) (\<lambda>_. try_each f xs)"

lemma try_each_Inr [guard_simps]:
  "try_each f xs = Inr u \<longleftrightarrow> (\<forall>x \<in> set xs. f x = Inr ())"
  by (induction xs) (auto simp: rbind_Inr)

lemma try_each_Inl:
  "try_each f xs = Inl e \<Longrightarrow> \<exists>x \<in> set xs. f x = Inl e"
  by (induction xs) (auto simp: rbind_Inl)

text \<open>A loop that collects one result per element.\<close>

fun try_map :: "('a \<Rightarrow> ('e, 'b) res) \<Rightarrow> 'a list \<Rightarrow> ('e, 'b list) res" where
  "try_map f [] = Inr []"
| "try_map f (x # xs) = rbind (f x) (\<lambda>y. rbind (try_map f xs) (\<lambda>ys. Inr (y # ys)))"

lemma try_map_Inr [guard_simps]:
  "try_map f xs = Inr ys \<longleftrightarrow> list_all2 (\<lambda>x y. f x = Inr y) xs ys"
proof (induction xs arbitrary: ys)
  case Nil
  then show ?case by auto
next
  case (Cons x xs)
  then show ?case by (cases ys) (auto simp: rbind_Inr)
qed

lemma try_map_total:
  "(\<And>x. x \<in> set xs \<Longrightarrow> f x = Inr (g x)) \<Longrightarrow> try_map f xs = Inr (map g xs)"
  by (induction xs) auto

lemma try_map_Inr_ex: "(\<exists>ys. try_map f xs = Inr ys) \<longleftrightarrow> (\<forall>x \<in> set xs. \<exists>y. f x = Inr y)"
  by (induction xs) (auto simp: rbind_Inr)

lemma try_map_Inl: "try_map f xs = Inl e \<Longrightarrow> \<exists>x \<in> set xs. f x = Inl e"
  by (induction xs) (auto simp: rbind_Inl)

lemma rbind_cong [fundef_cong]:
  "r = r' \<Longrightarrow> (\<And>x. r' = Inr x \<Longrightarrow> k x = k' x) \<Longrightarrow> rbind r k = rbind r' k'"
  by (cases r') auto

lemma try_each_cong [fundef_cong]:
  "xs = ys \<Longrightarrow> (\<And>x. x \<in> set ys \<Longrightarrow> f x = g x) \<Longrightarrow> try_each f xs = try_each g ys"
proof (induction ys arbitrary: xs)
  case (Cons y ys)
  then show ?case by (auto intro: rbind_cong)
qed simp

lemma try_map_cong [fundef_cong]:
  "xs = ys \<Longrightarrow> (\<And>x. x \<in> set ys \<Longrightarrow> f x = g x) \<Longrightarrow> try_map f xs = try_map g ys"
proof (induction ys arbitrary: xs)
  case (Cons y ys)
  then show ?case by (auto intro!: rbind_cong)
qed simp

section \<open>Unsigned integers\<close>

type_synonym u8 = "8 word"
type_synonym u16 = "16 word"
type_synonym u32 = "32 word"
type_synonym u64 = "64 word"

definition checked_add :: "'a::len word \<Rightarrow> 'a word \<Rightarrow> 'a word option" where
  [rust_defs]: "checked_add a b = (if unat a + unat b < 2 ^ LENGTH('a) then Some (a + b) else None)"

definition checked_sub :: "'a::len word \<Rightarrow> 'a word \<Rightarrow> 'a word option" where
  [rust_defs]: "checked_sub a b = (if b \<le> a then Some (a - b) else None)"

definition saturating_add :: "'a::len word \<Rightarrow> 'a word \<Rightarrow> 'a word" where
  [rust_defs]: "saturating_add a b = (if unat a + unat b < 2 ^ LENGTH('a) then a + b else - 1)"

definition saturating_sub :: "'a::len word \<Rightarrow> 'a word \<Rightarrow> 'a word" where
  [rust_defs]: "saturating_sub a b = (if b \<le> a then a - b else 0)"

definition saturating_mul :: "'a::len word \<Rightarrow> 'a word \<Rightarrow> 'a word" where
  [rust_defs]: "saturating_mul a b = (if unat a * unat b < 2 ^ LENGTH('a) then a * b else - 1)"

lemma unat_bound: "unat (a :: 'a::len word) < 2 ^ LENGTH('a)"
  by (rule unsigned_less)

lemma unat_max_word: "unat (- 1 :: 'a::len word) = 2 ^ LENGTH('a) - 1"
  by (simp add: unsigned_minus_1_eq_mask mask_eq_exp_minus_1)

lemma checked_add_SomeD:
  "checked_add a b = Some c \<Longrightarrow> unat c = unat a + unat b"
  by (auto simp: checked_add_def unat_word_ariths split: if_splits)

lemma checked_add_Some:
  fixes a b :: "'a::len word"
  shows "checked_add a b = Some c \<longleftrightarrow> unat c = unat a + unat b"
proof
  assume "unat c = unat a + unat b"
  with unat_bound [of c] show "checked_add a b = Some c"
    by (auto simp: checked_add_def word_unat_eq_iff unat_word_ariths)
qed (rule checked_add_SomeD)

lemma checked_add_le:
  assumes "checked_add a b = Some c"
  shows "a \<le> c" "b \<le> c"
  using checked_add_SomeD [OF assms] by (simp_all add: word_le_nat_alt)

lemma checked_sub_SomeD:
  "checked_sub a b = Some c \<Longrightarrow> c \<le> a \<and> unat c + unat b = unat a"
  by (auto simp: checked_sub_def unat_sub word_le_nat_alt split: if_splits)

lemma checked_sub_None: "checked_sub a b = None \<longleftrightarrow> a < b"
  by (auto simp: checked_sub_def)

lemma unat_saturating_add:
  fixes a b :: "'a::len word"
  shows "unat (saturating_add a b) = min (unat a + unat b) (2 ^ LENGTH('a) - 1)"
  by (auto simp: saturating_add_def unat_word_ariths unat_max_word)

lemma unat_saturating_sub: "unat (saturating_sub a b) = unat a - unat b"
  by (auto simp: saturating_sub_def unat_sub word_le_nat_alt)

lemma unat_saturating_mul:
  fixes a b :: "'a::len word"
  shows "unat (saturating_mul a b) = min (unat a * unat b) (2 ^ LENGTH('a) - 1)"
  by (auto simp: saturating_mul_def unat_word_ariths unat_max_word)

text \<open>\<open>u64::from\<close> on a narrower integer.\<close>

lemma unat_widen:
  fixes a :: "'a::len word"
  assumes "LENGTH('a) \<le> LENGTH('b)"
  shows "unat (ucast a :: 'b::len word) = unat a"
proof -
  have "unat a < 2 ^ LENGTH('a)" by (rule unsigned_less)
  also have "\<dots> \<le> 2 ^ LENGTH('b)" using assms by simp
  finally show ?thesis by (simp add: unsigned_ucast_eq take_bit_nat_eq_self)
qed

section \<open>UTF-8 strings\<close>

type_synonym bytes = string

text \<open>\<open>str::chars\<close>: the code points of a UTF-8 byte sequence.\<close>

fun utf8_chars :: "string \<Rightarrow> nat list" where
  "utf8_chars [] = []"
| "utf8_chars (c # cs) =
     (let b = of_char c in
      if b < 128 then b # utf8_chars cs
      else if b < 224 then
        (case cs of
           c1 # cs' \<Rightarrow> ((b mod 32) * 64 + of_char c1 mod 64) # utf8_chars cs'
         | _ \<Rightarrow> [])
      else if b < 240 then
        (case cs of
           c1 # c2 # cs' \<Rightarrow>
             ((b mod 16) * 4096 + (of_char c1 mod 64) * 64 + of_char c2 mod 64) # utf8_chars cs'
         | _ \<Rightarrow> [])
      else
        (case cs of
           c1 # c2 # c3 # cs' \<Rightarrow>
             ((b mod 8) * 262144 + (of_char c1 mod 64) * 4096
              + (of_char c2 mod 64) * 64 + of_char c3 mod 64) # utf8_chars cs'
         | _ \<Rightarrow> []))"

text \<open>\<open>char::is_control\<close> (category Cc) and \<open>char::is_whitespace\<close> (\<open>White_Space\<close>).\<close>

definition char_is_control :: "nat \<Rightarrow> bool" where
  "char_is_control c \<longleftrightarrow> c < 32 \<or> 127 \<le> c \<and> c < 160"

definition char_is_whitespace :: "nat \<Rightarrow> bool" where
  "char_is_whitespace c \<longleftrightarrow>
     9 \<le> c \<and> c \<le> 13 \<or> c = 32 \<or> c = 133 \<or> c = 160 \<or> c = 5760 \<or>
     8192 \<le> c \<and> c \<le> 8202 \<or> c = 8232 \<or> c = 8233 \<or> c = 8239 \<or> c = 8287 \<or> c = 12288"

definition is_ascii_alphanumeric :: "nat \<Rightarrow> bool" where
  "is_ascii_alphanumeric c \<longleftrightarrow>
     48 \<le> c \<and> c \<le> 57 \<or> 65 \<le> c \<and> c \<le> 90 \<or> 97 \<le> c \<and> c \<le> 122"

text \<open>An ASCII letter or digit, or one of the other characters listed.\<close>

definition ascii_in :: "string \<Rightarrow> char \<Rightarrow> bool" where
  "ascii_in extra c \<longleftrightarrow> is_ascii_alphanumeric (of_char c) \<or> c \<in> set extra"

definition has_control :: "string \<Rightarrow> bool" where
  "has_control s \<longleftrightarrow> (\<exists>c \<in> set (utf8_chars s). char_is_control c)"

text \<open>\<open>s.trim().is_empty()\<close>: every character is white space.\<close>

definition blank :: "string \<Rightarrow> bool" where
  "blank s \<longleftrightarrow> (\<forall>c \<in> set (utf8_chars s). char_is_whitespace c)"

definition strip_prefix :: "string \<Rightarrow> string \<Rightarrow> string option" where
  "strip_prefix p s = (if take (length p) s = p then Some (drop (length p) s) else None)"

lemma strip_prefix_append [simp]: "strip_prefix p (p @ s) = Some s"
  by (simp add: strip_prefix_def)

lemma strip_prefix_SomeD: "strip_prefix p s = Some r \<Longrightarrow> s = p @ r"
  by (metis append_take_drop_id option.discI option.inject strip_prefix_def)

section \<open>Ordered lists\<close>

text \<open>\<open>v.sort(); v.dedup()\<close>\<close>

definition sort_dedup :: "'a::linorder list \<Rightarrow> 'a list" where
  "sort_dedup xs = remdups_adj (sort xs)"

lemma set_sort_dedup [simp]: "set (sort_dedup xs) = set xs"
  by (simp add: sort_dedup_def)

lemma sorted_remdups_adj_strict:
  "sorted (xs :: 'a::linorder list) \<Longrightarrow> sorted_wrt (<) (remdups_adj xs)"
  by (induction xs rule: remdups_adj.induct) (auto simp: order_le_less)

lemma sort_dedup_strict: "sorted_wrt (<) (sort_dedup xs)"
  by (simp add: sort_dedup_def sorted_remdups_adj_strict)

lemma sort_dedup_Nil [simp]: "sort_dedup xs = [] \<longleftrightarrow> xs = []"
  by (metis set_empty set_sort_dedup)

text \<open>\<open>v.windows(2).any(..)\<close> on neighbours.\<close>

fun any_adjacent :: "('a \<Rightarrow> 'a \<Rightarrow> bool) \<Rightarrow> 'a list \<Rightarrow> bool" where
  "any_adjacent p (x # y # zs) = (p x y \<or> any_adjacent p (y # zs))"
| "any_adjacent p _ = False"

lemma any_adjacent_ge:
  "\<not> any_adjacent (\<lambda>x y. f x \<ge> f y) xs \<longleftrightarrow> sorted_wrt (\<lambda>x y. f x < (f y :: 'b::linorder)) xs"
proof (induction xs rule: induct_list012)
  case (3 x y zs)
  have "(\<forall>z \<in> set zs. f x < f z)" if "f x < f y" "\<forall>z \<in> set zs. f y < f z"
    using that by (auto intro: less_trans)
  with 3 show ?case by (auto simp: not_le)
qed auto

lemma any_adjacent_eq:
  assumes "sorted (map f xs)"
  shows "any_adjacent (\<lambda>x y. f x = (f y :: 'b::linorder)) xs \<longleftrightarrow> \<not> distinct (map f xs)"
  using assms
proof (induction xs rule: induct_list012)
  case (3 x y zs)
  have "f x \<notin> f ` set zs" if "f x \<noteq> f y"
    using 3(3) that by force
  with 3 show ?case by auto
qed auto

lemma sort_first:
  assumes "sort xs = y # ys"
  shows "y \<in> set xs" "x \<in> set xs \<Longrightarrow> y \<le> x"
proof -
  have s: "set xs = insert y (set ys)" using assms by (metis list.simps(15) set_sort)
  then show "y \<in> set xs" by simp
  have "sorted (y # ys)" using assms by (metis sorted_sort)
  then show "x \<in> set xs \<Longrightarrow> y \<le> x" using s by auto
qed

lemma sort_min:
  assumes "y \<in> set xs" "\<And>x. x \<in> set xs \<Longrightarrow> y \<le> x"
  obtains ys where "sort xs = y # ys"
proof (cases "sort xs")
  case Nil
  then have "xs = []" by (metis set_empty set_sort)
  with assms(1) show ?thesis by simp
next
  case (Cons z zs)
  from sort_first [OF this] assms have "z = y" by (metis order_antisym)
  with Cons that show ?thesis by simp
qed

text \<open>Two orderings of the same distinct keys sort to the same list.\<close>

lemma sort_key_permute:
  assumes "mset xs = mset ys" "distinct (map f xs)"
  shows "sort_key f xs = sort_key f ys"
  using assms by (intro sort_key_inj_key_eq) (simp_all add: distinct_map)

text \<open>Association lists and finite maps.\<close>

lemma map_of_snoc:
  assumes "k \<notin> fst ` set xs"
  shows "map_of (xs @ [(k, v)]) = (map_of xs)(k \<mapsto> v)"
proof -
  have "map_of xs k = None" using assms by (simp only: map_of_eq_None_iff not_False_eq_True)
  then show ?thesis by (intro ext) (simp add: map_add_def split: option.split)
qed

lemma fmlookup_fun_simps [simp]:
  "fmlookup fmempty = Map.empty"
  "fmlookup (fmupd k v m) = (fmlookup m)(k \<mapsto> v)"
  by (rule ext, simp)+

lemma fmdom_lookup: "k |\<in>| fmdom m \<longleftrightarrow> fmlookup m k \<noteq> None"
  by (auto simp: fmlookup_dom_iff)

lemma find_Some_first:
  "find q xs = Some x \<Longrightarrow> x \<in> set xs \<and> q x"
  by (auto simp: find_Some_iff)

lemma find_key:
  "distinct (map f xs) \<Longrightarrow> x \<in> set xs \<Longrightarrow> find (\<lambda>y. f y = f x) xs = Some x"
  by (induction xs) (auto simp: image_iff)

lemma sorted_wrt_key:
  fixes f :: "'a \<Rightarrow> 'b::linorder"
  assumes "sorted (map f xs)" "distinct (map f xs)"
  shows "sorted_wrt Q xs \<longleftrightarrow> (\<forall>a \<in> set xs. \<forall>b \<in> set xs. f a < f b \<longrightarrow> Q a b)"
  using assms
proof (induction xs)
  case (Cons x xs)
  then have "\<forall>y \<in> set xs. f x < f y" by (auto simp: image_iff order_le_less)
  with Cons show ?case by (auto simp: order.asym)
qed simp

lemma sorted_list_of_fset_empty [simp]: "sorted_list_of_fset {||} = []"
  by (simp add: sorted_list_of_fset_def)

section \<open>Counting\<close>

definition tally :: "('a \<Rightarrow> bool) \<Rightarrow> 'a list \<Rightarrow> nat" where
  "tally q xs = length (filter q xs)"

lemma tally_simps [simp]:
  "tally q [] = 0"
  "tally q (x # xs) = of_bool (q x) + tally q xs"
  "tally q (xs @ ys) = tally q xs + tally q ys"
  by (simp_all add: tally_def)

lemma tally_update:
  "i < length xs \<Longrightarrow> tally q (xs[i := x]) + of_bool (q (xs ! i)) = tally q xs + of_bool (q x)"
proof (induction xs arbitrary: i)
  case (Cons y xs)
  then show ?case
  proof (cases i)
    case (Suc j)
    with Cons.IH [of j] Cons.prems show ?thesis by simp
  qed simp
qed simp

lemma tally_pos: "i < length xs \<Longrightarrow> q (xs ! i) \<Longrightarrow> 0 < tally q xs"
  using nth_mem [of i xs] by (auto simp: tally_def filter_empty_conv)

lemma tally_0: "tally q xs = 0 \<longleftrightarrow> \<not> list_ex q xs"
  by (auto simp: tally_def filter_empty_conv list_ex_iff)

lemma tally_mono: "list_all (\<lambda>x. q x \<longrightarrow> r x) xs \<Longrightarrow> tally q xs \<le> tally r xs"
  by (induction xs) auto

lemma Suc_of_bool [simp]: "Suc m = of_bool b \<longleftrightarrow> m = 0 \<and> b"
  by (cases b) auto

end
