(* ===== verification/Strings.thy ===== *)
theory Strings
  imports Prelude
begin

text \<open>
  The operations of Rust's \<open>str\<close> on UTF-8 bytes that several components use. A search for an ASCII
  character or text in the bytes finds what a search in the characters finds.
\<close>

section \<open>Searching\<close>

definition starts_with :: "string \<Rightarrow> string \<Rightarrow> bool" where
  "starts_with p s \<longleftrightarrow> take (length p) s = p"

definition ends_with :: "string \<Rightarrow> string \<Rightarrow> bool" where
  "ends_with p s \<longleftrightarrow> starts_with (rev p) (rev s)"

fun contains_text :: "string \<Rightarrow> string \<Rightarrow> bool" where
  "contains_text pat [] = (pat = [])"
| "contains_text pat (c # cs) = (take (length pat) (c # cs) = pat \<or> contains_text pat cs)"

section \<open>Splitting\<close>

text \<open>\<open>str::split\<close> on one character.\<close>

fun split_on :: "char \<Rightarrow> string \<Rightarrow> string list" where
  "split_on d [] = [[]]"
| "split_on d (c # cs) =
     (if c = d then [] # split_on d cs
      else (case split_on d cs of s # ss \<Rightarrow> (c # s) # ss | [] \<Rightarrow> [[c]]))"

text \<open>\<open>split_once\<close>\<close>

fun split_once :: "char \<Rightarrow> string \<Rightarrow> (string \<times> string) option" where
  "split_once d [] = None"
| "split_once d (c # cs) =
     (if c = d then Some ([], cs) else map_option (\<lambda>(a, b). (c # a, b)) (split_once d cs))"

text \<open>\<open>rsplit_once\<close>: at the last occurrence.\<close>

definition rsplit_once :: "char \<Rightarrow> string \<Rightarrow> (string \<times> string) option" where
  "rsplit_once d s = map_option (\<lambda>(a, b). (rev b, rev a)) (split_once d (rev s))"

lemma split_once_append: "d \<notin> set a \<Longrightarrow> split_once d (a @ d # b) = Some (a, b)"
  by (induction a) auto

lemma split_once_Some: "split_once d s = Some (a, b) \<longleftrightarrow> s = a @ d # b \<and> d \<notin> set a"
proof
  assume "split_once d s = Some (a, b)"
  then show "s = a @ d # b \<and> d \<notin> set a"
    by (induction s arbitrary: a) (auto split: if_splits)
qed (auto simp: split_once_append)

text \<open>\<open>split_ascii_whitespace\<close>: the words between spaces, tabs, line feeds, form feeds and returns.\<close>

definition ascii_whitespace :: "char \<Rightarrow> bool" where
  "ascii_whitespace c \<longleftrightarrow> of_char c \<in> {9 :: nat, 10, 12, 13, 32}"

fun split_where :: "(char \<Rightarrow> bool) \<Rightarrow> string \<Rightarrow> string list" where
  "split_where q [] = [[]]"
| "split_where q (c # cs) =
     (if q c then [] # split_where q cs
      else (case split_where q cs of s # ss \<Rightarrow> (c # s) # ss | [] \<Rightarrow> [[c]]))"

definition ascii_words :: "string \<Rightarrow> string list" where
  "ascii_words s = filter (\<lambda>w. w \<noteq> []) (split_where ascii_whitespace s)"

section \<open>Trimming\<close>

text \<open>The characters of a text, each as its bytes.\<close>

definition utf8_width :: "char \<Rightarrow> nat" where
  "utf8_width c = (let b = of_char c :: nat in if b < 128 then 1 else if b < 224 then 2 else if b < 240 then 3 else 4)"

fun utf8_pieces :: "string \<Rightarrow> string list" where
  "utf8_pieces [] = []"
| "utf8_pieces (c # cs) =
     (c # take (utf8_width c - 1) cs) # utf8_pieces (drop (utf8_width c - 1) cs)"

definition blank_piece :: "string \<Rightarrow> bool" where
  "blank_piece p \<longleftrightarrow> list_all char_is_whitespace (utf8_chars p)"

text \<open>\<open>str::trim\<close>\<close>

definition str_trim :: "string \<Rightarrow> string" where
  "str_trim s = concat (rev (dropWhile blank_piece (rev (dropWhile blank_piece (utf8_pieces s)))))"

section \<open>Letter case\<close>

fun ascii_lower :: "char \<Rightarrow> char" where
  "ascii_lower c = (let n = of_char c :: nat in if 65 \<le> n \<and> n \<le> 90 then char_of (n + 32) else c)"

definition eq_ignore_ascii_case :: "string \<Rightarrow> string \<Rightarrow> bool" where
  "eq_ignore_ascii_case s t \<longleftrightarrow> map ascii_lower s = map ascii_lower t"

lemma eq_ignore_refl [simp]: "eq_ignore_ascii_case s s"
  by (simp add: eq_ignore_ascii_case_def)

section \<open>Numbers\<close>

text \<open>\<open>str::parse\<close> for an unsigned integer: decimal digits after an optional plus sign.\<close>

definition digit_value :: "char \<Rightarrow> nat option" where
  "digit_value c = (let n = of_char c in if 48 \<le> n \<and> n \<le> 57 then Some (n - 48) else None)"

fun digits_value :: "nat \<Rightarrow> string \<Rightarrow> nat option" where
  "digits_value acc [] = Some acc"
| "digits_value acc (c # cs) = Option.bind (digit_value c) (\<lambda>d. digits_value (10 * acc + d) cs)"

definition parse_unsigned :: "string \<Rightarrow> nat option" where
  "parse_unsigned s =
     (let t = (if starts_with ''+'' s then drop 1 s else s) in if t = [] then None else digits_value 0 t)"

definition parse_u64 :: "string \<Rightarrow> u64 option" where
  "parse_u64 s =
     (case parse_unsigned s of None \<Rightarrow> None | Some n \<Rightarrow> if n < 2 ^ 64 then Some (of_nat n) else None)"

definition parse_u8 :: "string \<Rightarrow> u8 option" where
  "parse_u8 s =
     (case parse_unsigned s of None \<Rightarrow> None | Some n \<Rightarrow> if n < 2 ^ 8 then Some (of_nat n) else None)"

text \<open>\<open>to_string\<close> of an unsigned integer, which \<open>parse\<close> reads back.\<close>

fun nat_text :: "nat \<Rightarrow> string" where
  "nat_text n = (if n < 10 then [char_of (48 + n)] else nat_text (n div 10) @ [char_of (48 + n mod 10)])"

declare nat_text.simps [simp del]

lemma digit_value_digit: "d < 10 \<Longrightarrow> digit_value (char_of (48 + d)) = Some d"
  by (simp add: digit_value_def)

lemma digits_value_append:
  "digits_value a (s @ t) = Option.bind (digits_value a s) (\<lambda>b. digits_value b t)"
proof (induction s arbitrary: a)
  case (Cons c s)
  then show ?case by (cases "digit_value c") auto
qed simp

lemma digits_value_nat_text: "digits_value 0 (nat_text n) = Some n"
proof (induction n rule: nat_text.induct)
  case (1 n)
  show ?case
  proof (cases "n < 10")
    case True
    then show ?thesis by (simp add: nat_text.simps [of n] digit_value_digit)
  next
    case False
    with 1 show ?thesis by (subst nat_text.simps) (simp add: digits_value_append digit_value_digit)
  qed
qed

lemma nat_text_digits: "nat_text n = c # cs \<Longrightarrow> digit_value c \<noteq> None"
proof (induction n arbitrary: cs rule: nat_text.induct)
  case (1 n)
  show ?case
  proof (cases "n < 10")
    case True
    with "1.prems" have "c = char_of (48 + n)" by (simp add: nat_text.simps [of n])
    with True show ?thesis by (simp only: digit_value_digit) simp
  next
    case False
    with "1.prems" have "nat_text (n div 10) @ [char_of (48 + n mod 10)] = c # cs" by (subst (asm) nat_text.simps) simp
    moreover have "nat_text (n div 10) \<noteq> []" by (subst nat_text.simps) simp
    ultimately obtain ds where "nat_text (n div 10) = c # ds" by (cases "nat_text (n div 10)") auto
    with "1.IH" False show ?thesis by blast
  qed
qed

lemma parse_nat_text: "parse_unsigned (nat_text n) = Some n"
proof -
  have "nat_text n \<noteq> []" by (subst nat_text.simps) simp
  then obtain c cs where c: "nat_text n = c # cs" by (cases "nat_text n") auto
  have "digit_value c \<noteq> None" by (rule nat_text_digits [OF c])
  then have "c \<noteq> CHR ''+''" by (auto simp: digit_value_def Let_def split: if_splits)
  then show ?thesis using digits_value_nat_text [of n] c by (simp add: parse_unsigned_def starts_with_def)
qed

end
