(* ===== verification/Digest.thy ===== *)
theory Digest
  imports Strings
begin

text \<open>
  Models \<open>crates/gaugemesh-core/src/digest.rs\<close>: JSON values, the canonical form with
  ordered object keys, SHA-256 digests of bytes and of canonical JSON, and the textual
  form \<open>sha256:<hex>\<close>.

  The hash function, \<open>serde_json::to_vec\<close>, the hex codec and Unicode normalisation are
  crates outside the repository. They are the fields of the record \<open>platform\<close>, which
  every definition that digests something takes as its first argument. No theorem
  assumes the hash to be injective: where the code relies on collision resistance, the
  theorem names the two documents that would collide (\<open>doc_collision\<close>).
\<close>

section \<open>Crates the code calls\<close>

datatype json_number = PosInt u64 | NegInt int | Float u64

datatype json =
    JNull
  | JBool bool
  | JNum json_number
  | JStr string
  | JArr "json list"
  | JObj "(string \<times> json) list"

record platform =
  sha256 :: "bytes \<Rightarrow> bytes"
  json_to_vec :: "json \<Rightarrow> bytes"
  hex_encode :: "bytes \<Rightarrow> string"
  hex_decode :: "string \<Rightarrow> bytes option"
  nfc :: "string \<Rightarrow> string"

definition hex_roundtrip :: "platform \<Rightarrow> bool" where
  "hex_roundtrip P \<longleftrightarrow> (\<forall>b. hex_decode P (hex_encode P b) = Some b)"

section \<open>Canonical JSON\<close>

text \<open>
  Collecting entries into a \<open>BTreeMap\<close>: each insertion keeps the keys ordered and
  replaces the value of an equal key.
\<close>

fun btree_insert :: "'k::linorder \<Rightarrow> 'v \<Rightarrow> ('k \<times> 'v) list \<Rightarrow> ('k \<times> 'v) list" where
  "btree_insert k v [] = [(k, v)]"
| "btree_insert k v (e # es) =
     (if fst e < k then e # btree_insert k v es
      else if fst e = k then (k, v) # es
      else (k, v) # e # es)"

definition btree_collect :: "('k::linorder \<times> 'v) list \<Rightarrow> ('k \<times> 'v) list" where
  "btree_collect es = fold (\<lambda>(k, v). btree_insert k v) es []"

primrec canonical_json :: "json \<Rightarrow> json" where
  "canonical_json JNull = JNull"
| "canonical_json (JBool b) = JBool b"
| "canonical_json (JNum n) = JNum n"
| "canonical_json (JStr s) = JStr s"
| "canonical_json (JArr vs) = JArr (map canonical_json vs)"
| "canonical_json (JObj es) = JObj (btree_collect (map (map_prod id canonical_json) es))"

text \<open>\<open>Value::get\<close> with a key, and indexing, which gives \<open>Null\<close> for what is absent.\<close>

fun json_get :: "string \<Rightarrow> json \<Rightarrow> json option" where
  "json_get k (JObj es) = map_of es k"
| "json_get k _ = None"

definition json_index :: "json \<Rightarrow> string \<Rightarrow> json" where
  "json_index v k = (case json_get k v of Some x \<Rightarrow> x | None \<Rightarrow> JNull)"

fun is_object :: "json \<Rightarrow> bool" where
  "is_object (JObj es) = True"
| "is_object _ = False"

fun json_str :: "json \<Rightarrow> string option" where
  "json_str (JStr s) = Some s"
| "json_str _ = None"

fun json_u64 :: "json \<Rightarrow> u64 option" where
  "json_u64 (JNum (PosInt n)) = Some n"
| "json_u64 _ = None"

fun json_entries :: "json \<Rightarrow> (string \<times> json) list option" where
  "json_entries (JObj es) = Some es"
| "json_entries _ = None"

fun json_items :: "json \<Rightarrow> json list option" where
  "json_items (JArr vs) = Some vs"
| "json_items _ = None"

lemma json_str_Some: "json_str v = Some s \<longleftrightarrow> v = JStr s"
  by (cases v) auto

lemma json_entries_Some: "json_entries v = Some es \<longleftrightarrow> v = JObj es"
  by (cases v) auto

lemma json_items_Some: "json_items v = Some vs \<longleftrightarrow> v = JArr vs"
  by (cases v) auto

definition contains_key :: "(string \<times> json) list \<Rightarrow> string \<Rightarrow> bool" where
  "contains_key es k \<longleftrightarrow> map_of es k \<noteq> None"

text \<open>\<open>Value::pointer\<close> with its tokens: a path of keys through objects.\<close>

fun json_pointer :: "string list \<Rightarrow> json \<Rightarrow> json option" where
  "json_pointer [] v = Some v"
| "json_pointer (k # ks) v = Option.bind (json_get k v) (json_pointer ks)"

text \<open>\<open>Value::pointer\<close> with a pointer text. First \<open>str::replace\<close> of a two character text by one character.\<close>

fun replace_pair :: "char \<Rightarrow> char \<Rightarrow> char \<Rightarrow> string \<Rightarrow> string" where
  "replace_pair a b c (x # y # zs) =
     (if x = a \<and> y = b then c # replace_pair a b c zs else x # replace_pair a b c (y # zs))"
| "replace_pair a b c xs = xs"

definition unescape_token :: "string \<Rightarrow> string" where
  "unescape_token t = replace_pair (CHR ''~'') (CHR ''0'') (CHR ''~'') (replace_pair (CHR ''~'') (CHR ''1'') (CHR ''/'') t)"

definition array_index :: "string \<Rightarrow> nat option" where
  "array_index t =
     (if t = [] \<or> starts_with ''+'' t \<or> starts_with ''0'' t \<and> length t \<noteq> 1 then None
      else case digits_value 0 t of Some n \<Rightarrow> if n < 2 ^ 64 then Some n else None | None \<Rightarrow> None)"

fun pointer_step :: "string \<Rightarrow> json \<Rightarrow> json option" where
  "pointer_step t (JObj es) = map_of es t"
| "pointer_step t (JArr vs) =
     (case array_index t of Some n \<Rightarrow> if n < length vs then Some (vs ! n) else None | None \<Rightarrow> None)"
| "pointer_step t _ = None"

definition value_pointer :: "string \<Rightarrow> json \<Rightarrow> json option" where
  "value_pointer p v =
     (if p = [] then Some v
      else if \<not> starts_with ''/'' p then None
      else fold (\<lambda>t x. Option.bind x (pointer_step (unescape_token t))) (drop 1 (split_on (CHR ''/'') p)) (Some v))"

text \<open>\<open>json!\<close>: objects are ordered maps.\<close>

definition json_object :: "(string \<times> json) list \<Rightarrow> json" where
  "json_object es = JObj (btree_collect es)"

section \<open>Digests\<close>

datatype sha256_digest = Sha256Digest (as_bytes: bytes)

instantiation sha256_digest :: linorder
begin

definition less_eq_sha256_digest :: "sha256_digest \<Rightarrow> sha256_digest \<Rightarrow> bool" where
  "less_eq_sha256_digest a b \<longleftrightarrow> as_bytes a \<le> as_bytes b"

definition less_sha256_digest :: "sha256_digest \<Rightarrow> sha256_digest \<Rightarrow> bool" where
  "less_sha256_digest a b \<longleftrightarrow> as_bytes a < as_bytes b"

instance
  by standard
     (auto simp: less_eq_sha256_digest_def less_sha256_digest_def sha256_digest.expand)

end

definition default_digest :: sha256_digest where
  "default_digest = Sha256Digest (replicate 32 (CHR 0x00))"

definition of_bytes :: "platform \<Rightarrow> bytes \<Rightarrow> sha256_digest" where
  "of_bytes P v = Sha256Digest (sha256 P v)"

definition of_json :: "platform \<Rightarrow> json \<Rightarrow> sha256_digest" where
  "of_json P v = of_bytes P (json_to_vec P (canonical_json v))"

definition digest_to_string :: "platform \<Rightarrow> sha256_digest \<Rightarrow> string" where
  "digest_to_string P d = ''sha256:'' @ hex_encode P (as_bytes d)"

datatype digest_error = MissingPrefix | InvalidHex | InvalidLength

definition digest_from_str :: "platform \<Rightarrow> string \<Rightarrow> (digest_error, sha256_digest) res" where
  "digest_from_str P value =
     rbind (ok_or (strip_prefix ''sha256:'' value) MissingPrefix) (\<lambda>raw.
     rbind (ok_or (hex_decode P raw) InvalidHex) (\<lambda>bs.
     if length bs = 32 then Inr (Sha256Digest bs) else Inl InvalidLength))"

definition digest_json :: "platform \<Rightarrow> sha256_digest \<Rightarrow> json" where
  "digest_json P d = JStr (digest_to_string P d)"

definition doc_collision :: "platform \<Rightarrow> json \<Rightarrow> json \<Rightarrow> bool" where
  "doc_collision P a b \<longleftrightarrow> canonical_json a \<noteq> canonical_json b \<and> of_json P a = of_json P b"

section \<open>Ordered maps as entry lists\<close>

text \<open>
  The interface the canonical form relies on: what a lookup returns after an insertion,
  and that insertion keeps the keys ordered. Two stores with equal lookups are equal.
\<close>

locale ordered_entries =
  fixes ins :: "'k::linorder \<Rightarrow> 'v \<Rightarrow> 'm \<Rightarrow> 'm"
    and get :: "'m \<Rightarrow> 'k \<Rightarrow> 'v option"
    and ordered :: "'m \<Rightarrow> bool"
  assumes get_ins: "ordered m \<Longrightarrow> get (ins k v m) = (get m)(k \<mapsto> v)"
    and ordered_ins: "ordered m \<Longrightarrow> ordered (ins k v m)"
    and ordered_ext: "ordered m \<Longrightarrow> ordered n \<Longrightarrow> get m = get n \<Longrightarrow> m = n"
begin

lemma ordered_fold:
  "ordered m \<Longrightarrow> ordered (fold (\<lambda>(k, v). ins k v) es m)"
  by (induction es arbitrary: m) (auto simp: ordered_ins)

lemma get_fold:
  "ordered m \<Longrightarrow> get (fold (\<lambda>(k, v). ins k v) es m) = get m ++ map_of (rev es)"
  by (induction es arbitrary: m) (auto simp: ordered_ins get_ins)

lemma fold_permute:
  assumes "ordered m" "mset es = mset fs" "distinct (map fst es)"
  shows "fold (\<lambda>(k, v). ins k v) es m = fold (\<lambda>(k, v). ins k v) fs m"
proof (rule ordered_ext)
  have "mset (map fst es) = mset (map fst fs)"
    using arg_cong [OF assms(2), of "image_mset fst"] by simp
  with assms(3) have "distinct (map fst fs)"
    using mset_eq_imp_distinct_iff by blast
  moreover have "set es = set fs" using assms(2) by (rule mset_eq_setD)
  ultimately have "map_of (rev es) = map_of (rev fs)"
    using assms(3) by (intro map_of_inject_set [THEN iffD2]) (auto simp: rev_map [symmetric])
  then show "get (fold (\<lambda>(k, v). ins k v) es m) = get (fold (\<lambda>(k, v). ins k v) fs m)"
    by (simp add: get_fold assms(1))
qed (simp_all add: ordered_fold assms(1))

end

definition entries_ordered :: "('k::linorder \<times> 'v) list \<Rightarrow> bool" where
  "entries_ordered es \<longleftrightarrow> sorted_wrt (<) (map fst es)"

lemma set_btree_insert: "fst ` set (btree_insert k v es) = insert k (fst ` set es)"
  by (induction es) auto

lemma entries_ordered_insert:
  "entries_ordered es \<Longrightarrow> entries_ordered (btree_insert k v es)"
proof (induction es)
  case (Cons e es)
  have "\<forall>k' \<in> fst ` set (btree_insert k v es). fst e < k'" if "fst e < k"
    using Cons.prems that unfolding set_btree_insert by (auto simp: entries_ordered_def)
  with Cons show ?case
    by (auto simp: entries_ordered_def intro: less_trans)
qed (simp add: entries_ordered_def)

lemma map_of_btree_insert:
  "entries_ordered es \<Longrightarrow> map_of (btree_insert k v es) = (map_of es)(k \<mapsto> v)"
  by (induction es) (auto simp: entries_ordered_def fun_eq_iff)

lemma entries_ordered_ext:
  assumes "entries_ordered es" "entries_ordered fs" "map_of es = map_of fs"
  shows "es = fs"
proof -
  have "distinct (map fst es)" "distinct (map fst fs)"
    using assms(1,2) by (simp_all add: entries_ordered_def strict_sorted_iff)
  then have "set es = set fs" using assms(3) by (simp add: map_of_inject_set)
  moreover have "sorted (map fst es)" "sorted (map fst fs)"
    using assms(1,2) by (simp_all add: entries_ordered_def strict_sorted_iff)
  ultimately show ?thesis
    using \<open>distinct (map fst es)\<close> \<open>distinct (map fst fs)\<close>
    by (metis map_sorted_distinct_set_unique distinct_map inj_on_Un_image_eq_iff sup.idem)
qed

interpretation btree: ordered_entries btree_insert map_of entries_ordered
  by unfold_locales
     (simp_all add: map_of_btree_insert entries_ordered_insert entries_ordered_ext)

lemma entries_ordered_collect [simp]: "entries_ordered (btree_collect es)"
  unfolding btree_collect_def by (rule btree.ordered_fold) (simp add: entries_ordered_def)

lemma map_of_btree_collect: "map_of (btree_collect es) = map_of (rev es)"
  unfolding btree_collect_def
  by (subst btree.get_fold) (simp_all add: entries_ordered_def)

lemma btree_collect_ordered: "entries_ordered es \<Longrightarrow> btree_collect es = es"
proof (rule entries_ordered_ext)
  assume es: "entries_ordered es"
  then have "distinct (map fst es)" by (simp add: entries_ordered_def strict_sorted_iff)
  then show "map_of (btree_collect es) = map_of es"
    by (simp add: map_of_btree_collect map_of_inject_set rev_map [symmetric])
qed simp_all

lemma set_btree_insert_values:
  "snd ` set (btree_insert k v es) \<subseteq> insert v (snd ` set es)"
  by (induction es) auto

lemma btree_collect_values: "snd ` set (btree_collect es) \<subseteq> snd ` set es"
proof -
  have "snd ` set (fold (\<lambda>(k, v). btree_insert k v) es m) \<subseteq> snd ` set es \<union> snd ` set m" for m
  proof (induction es arbitrary: m)
    case (Cons e es)
    have "snd ` set (btree_insert (fst e) (snd e) m) \<subseteq> insert (snd e) (snd ` set m)"
      by (rule set_btree_insert_values)
    with Cons [of "btree_insert (fst e) (snd e) m"] show ?case
      by (simp add: split_def) blast
  qed simp
  from this [of "[]"] show ?thesis by (simp add: btree_collect_def)
qed

lemma canonical_json_idem [simp]: "canonical_json (canonical_json v) = canonical_json v"
proof (induction v)
  case (JObj es)
  have "canonical_json w = w" if "w \<in> snd ` set (btree_collect (map (map_prod id canonical_json) es))" for w
  proof -
    from that have "w \<in> snd ` set (map (map_prod id canonical_json) es)"
      by (rule subsetD [OF btree_collect_values])
    then obtain e where "e \<in> set es" and w: "w = canonical_json (snd e)" by force
    from \<open>e \<in> set es\<close> have "canonical_json (canonical_json (snd e)) = canonical_json (snd e)"
      by (rule JObj) (rule snds.intros)
    then show ?thesis unfolding w .
  qed
  then have "map (map_prod id canonical_json) (btree_collect (map (map_prod id canonical_json) es))
      = btree_collect (map (map_prod id canonical_json) es)"
    by (intro map_idI) force
  then show ?case by (simp add: btree_collect_ordered)
qed auto

text \<open>Two documents that differ only in the order of object keys, at any depth.\<close>

inductive json_reordered :: "json \<Rightarrow> json \<Rightarrow> bool" where
  reordered_same: "json_reordered v v"
| reordered_arr: "list_all2 json_reordered vs ws \<Longrightarrow> json_reordered (JArr vs) (JArr ws)"
| reordered_obj:
    "distinct (map fst es) \<Longrightarrow> mset es = mset fs \<Longrightarrow>
     list_all2 (\<lambda>f g. fst f = fst g \<and> json_reordered (snd f) (snd g)) fs gs \<Longrightarrow>
     json_reordered (JObj es) (JObj gs)"

inductive_simps json_reordered_prim [simp]:
  "json_reordered JNull w"
  "json_reordered (JBool b) w"
  "json_reordered (JNum n) w"
  "json_reordered (JStr t) w"

lemma btree_collect_permute:
  "mset es = mset fs \<Longrightarrow> distinct (map fst es) \<Longrightarrow> btree_collect es = btree_collect fs"
  unfolding btree_collect_def by (rule btree.fold_permute) (simp_all add: entries_ordered_def)

lemma json_reordered_canonical: "json_reordered v w \<Longrightarrow> canonical_json v = canonical_json w"
proof (induction rule: json_reordered.induct)
  case (reordered_arr vs ws)
  then show ?case by (auto simp: list_all2_conv_all_nth intro: nth_equalityI)
next
  case (reordered_obj es fs gs)
  let ?c = "map (map_prod id canonical_json)"
  have "?c fs = ?c gs"
    using reordered_obj(3) by (auto simp: list_all2_conv_all_nth map_prod_def split_def intro: nth_equalityI)
  moreover have "btree_collect (?c es) = btree_collect (?c fs)"
    using reordered_obj(1,2)
    by (intro btree_collect_permute) (simp_all add: comp_def)
  ultimately show ?case by simp
qed simp

lemma of_json_eq: "of_json P a = of_json P b \<Longrightarrow> canonical_json a = canonical_json b \<or> doc_collision P a b"
  by (auto simp: doc_collision_def)

lemma of_json_cong: "canonical_json a = canonical_json b \<Longrightarrow> of_json P a = of_json P b"
  by (simp add: of_json_def)

lemma digest_to_string_inject:
  assumes "hex_roundtrip P" "digest_to_string P d = digest_to_string P e"
  shows "d = e"
proof -
  have "hex_encode P (as_bytes d) = hex_encode P (as_bytes e)"
    using assms(2) by (simp add: digest_to_string_def)
  then have "hex_decode P (hex_encode P (as_bytes d)) = hex_decode P (hex_encode P (as_bytes e))"
    by (rule arg_cong)
  with assms(1) show ?thesis by (simp add: hex_roundtrip_def sha256_digest.expand)
qed

section \<open>A concrete platform for the witnesses\<close>

definition nibble :: "nat \<Rightarrow> char" where
  "nibble n = char_of (if n < 10 then 48 + n else 87 + n)"

definition nibble_value :: "char \<Rightarrow> nat option" where
  "nibble_value c =
     (let b = of_char c in
      if 48 \<le> b \<and> b < 58 then Some (b - 48)
      else if 97 \<le> b \<and> b < 103 then Some (b - 87) else None)"

fun hex_text :: "bytes \<Rightarrow> string" where
  "hex_text [] = []"
| "hex_text (c # cs) = nibble (of_char c div 16) # nibble (of_char c mod 16) # hex_text cs"

fun hex_bytes :: "string \<Rightarrow> bytes option" where
  "hex_bytes [] = Some []"
| "hex_bytes [c] = None"
| "hex_bytes (a # b # cs) =
     (case (nibble_value a, nibble_value b, hex_bytes cs) of
        (Some h, Some l, Some bs) \<Rightarrow> Some (char_of (h * 16 + l) # bs)
      | _ \<Rightarrow> None)"

lemma nibble_value_nibble [simp]: "n < 16 \<Longrightarrow> nibble_value (nibble n) = Some n"
  by (auto simp: nibble_value_def nibble_def of_char_of)

lemma hex_bytes_text: "hex_bytes (hex_text bs) = Some bs"
proof (induction bs)
  case (Cons c cs)
  have "of_char c < (256 :: nat)" by (fact nat_of_char_less_256)
  then have "of_char c div 16 < (16 :: nat)" by (rule less_mult_imp_div_less [of _ 16 16, simplified])
  with Cons show ?case by simp
qed simp

fun json_text :: "json \<Rightarrow> bytes" where
  "json_text JNull = ''null''"
| "json_text (JBool b) = (if b then ''true'' else ''false'')"
| "json_text (JNum n) = ''0''"
| "json_text (JStr s) = CHR 0x22 # s @ [CHR 0x22]"
| "json_text (JArr vs) = ''['' @ concat (map (\<lambda>v. json_text v @ '','') vs) @ '']''"
| "json_text (JObj es) = ''{'' @ concat (map (\<lambda>e. fst e @ '':'' @ json_text (snd e) @ '','') es) @ ''}''"

definition sample_platform :: platform where
  "sample_platform =
     \<lparr>sha256 = (\<lambda>b. take 32 (b @ replicate 32 (CHR 0x00))), json_to_vec = json_text,
      hex_encode = hex_text, hex_decode = hex_bytes, nfc = id\<rparr>"

lemma sample_hex_roundtrip [simp]: "hex_roundtrip sample_platform"
  by (simp add: hex_roundtrip_def sample_platform_def hex_bytes_text)

section \<open>Properties\<close>

text \<open>
  Reordering the keys of a JSON document, at any depth of nesting, does not change
  its digest.
\<close>

theorem digest_ignores_key_order:
  assumes "json_reordered v w"
  shows "of_json P v = of_json P w"
  using json_reordered_canonical [OF assms] by (rule of_json_cong)

theorem digest_ignores_key_order_witness:
  "of_json sample_platform (JObj [(''b'', JNull), (''a'', JBool True)])
   = of_json sample_platform (JObj [(''a'', JBool True), (''b'', JNull)])"
proof (rule digest_ignores_key_order)
  show "json_reordered (JObj [(''b'', JNull), (''a'', JBool True)])
    (JObj [(''a'', JBool True), (''b'', JNull)])"
    by (rule reordered_obj [of _ "[(''a'', JBool True), (''b'', JNull)]"])
       (simp_all add: json_reordered.intros)
qed

text \<open>
  A digest of 32 bytes survives its textual form: \<open>Display\<close> followed by \<open>FromStr\<close>
  returns it, whenever the hex codec decodes what it encodes.
\<close>

theorem digest_string_roundtrip:
  assumes "hex_roundtrip P" "length (as_bytes d) = 32"
  shows "digest_from_str P (digest_to_string P d) = Inr d"
proof -
  have "hex_decode P (hex_encode P (as_bytes d)) = Some (as_bytes d)"
    using assms(1) by (simp add: hex_roundtrip_def)
  with assms(2) show ?thesis
    by (simp add: digest_from_str_def digest_to_string_def strip_prefix_def)
qed

theorem digest_string_roundtrip_witness:
  "digest_from_str sample_platform (digest_to_string sample_platform default_digest)
   = Inr default_digest"
  by (rule digest_string_roundtrip) (simp_all add: default_digest_def)

end
