(* ===== verification/Protocol.thy ===== *)
theory Protocol
  imports Prelude
begin

text \<open>
  Models \<open>crates/gaugemesh-core/src/protocol.rs\<close>: the two MCP revisions the mesh speaks
  and the agreement of the revision named in a request's header with the one in its body.
\<close>

definition MCP_2025_11_25 :: string where "MCP_2025_11_25 = ''2025-11-25''"

definition MCP_2026_07_28 :: string where "MCP_2026_07_28 = ''2026-07-28''"

datatype mcp_revision = V2025_11_25 | V2026_07_28

datatype revision_error = Unsupported | HeaderBodyDisagreement

definition revision_parse :: "string \<Rightarrow> (revision_error, mcp_revision) res" where
  "revision_parse value =
     (if value = MCP_2025_11_25 then Inr V2025_11_25
      else if value = MCP_2026_07_28 then Inr V2026_07_28
      else Inl Unsupported)"

fun revision_as_str :: "mcp_revision \<Rightarrow> string" where
  "revision_as_str V2025_11_25 = MCP_2025_11_25"
| "revision_as_str V2026_07_28 = MCP_2026_07_28"

text \<open>\<open>header.map(Self::parse).transpose()?\<close>\<close>

definition parse_optional :: "string option \<Rightarrow> (revision_error, mcp_revision option) res" where
  "parse_optional v =
     (case v of None \<Rightarrow> Inr None | Some s \<Rightarrow> rbind (revision_parse s) (\<lambda>r. Inr (Some r)))"

definition validate_request ::
  "string option \<Rightarrow> string option \<Rightarrow> (revision_error, mcp_revision) res" where
  "validate_request header body =
     rbind (parse_optional header) (\<lambda>h.
     rbind (parse_optional body) (\<lambda>b.
     case (h, b) of
       (Some hr, Some br) \<Rightarrow> if hr \<noteq> br then Inl HeaderBodyDisagreement else Inr hr
     | (Some r, None) \<Rightarrow> Inr r
     | (None, Some r) \<Rightarrow> Inr r
     | (None, None) \<Rightarrow> Inl Unsupported))"

lemmas revision_consts = MCP_2025_11_25_def MCP_2026_07_28_def

lemma parse_as_str [simp]: "revision_parse (revision_as_str r) = Inr r"
  by (cases r) (simp_all add: revision_parse_def revision_consts)

lemma revision_parse_Inr [guard_simps]: "revision_parse s = Inr r \<longleftrightarrow> s = revision_as_str r"
  by (cases r) (auto simp: revision_parse_def revision_consts split: if_splits)

lemma revision_as_str_inject: "revision_as_str a = revision_as_str b \<longleftrightarrow> a = b"
  by (cases a; cases b) (simp_all add: revision_consts)

lemma pair_eq_singleton: "{v. a = v \<or> b = v} = {x} \<longleftrightarrow> a = x \<and> b = x"
  by auto

text \<open>
  A request is accepted with revision \<open>r\<close> exactly when at least one of header and
  body names a revision and every one of them that is present names \<open>r\<close>: there is no
  default, and a disagreement or an unknown revision never passes.
\<close>

theorem validate_request_exact:
  "validate_request header body = Inr r \<longleftrightarrow>
     {v. header = Some v \<or> body = Some v} = {revision_as_str r}"
  by (cases header; cases body)
     (auto simp: validate_request_def parse_optional_def guard_simps revision_as_str_inject
                 pair_eq_singleton split: if_splits)

end
