(* ===== verification/Capability.thy ===== *)
theory Capability
  imports Digest
begin

text \<open>
  Models \<open>crates/gaugemesh-core/src/capability.rs\<close>: the authorization identity of a
  capability, its digest and the readable alias. The transparent newtypes \<open>SourceId\<close>
  and \<open>CapabilityRevision\<close> are their strings.
\<close>

type_synonym source_id = string
type_synonym capability_revision = string

datatype capability_kind = Tool | Resource | ResourceTemplate | Prompt | Model

fun kind_rank :: "capability_kind \<Rightarrow> nat" where
  "kind_rank Tool = 0"
| "kind_rank Resource = 1"
| "kind_rank ResourceTemplate = 2"
| "kind_rank Prompt = 3"
| "kind_rank Model = 4"

lemma kind_rank_inject: "kind_rank a = kind_rank b \<longleftrightarrow> a = b"
  by (cases a; cases b) simp_all

instantiation capability_kind :: linorder
begin

definition less_eq_capability_kind :: "capability_kind \<Rightarrow> capability_kind \<Rightarrow> bool" where
  "less_eq_capability_kind a b \<longleftrightarrow> kind_rank a \<le> kind_rank b"

definition less_capability_kind :: "capability_kind \<Rightarrow> capability_kind \<Rightarrow> bool" where
  "less_capability_kind a b \<longleftrightarrow> kind_rank a < kind_rank b"

instance
  by standard
     (auto simp: less_eq_capability_kind_def less_capability_kind_def kind_rank_inject)

end

fun kind_name :: "capability_kind \<Rightarrow> string" where
  "kind_name Tool = ''tool''"
| "kind_name Resource = ''resource''"
| "kind_name ResourceTemplate = ''resource_template''"
| "kind_name Prompt = ''prompt''"
| "kind_name Model = ''model''"

record capability_id =
  cap_source :: source_id
  cap_kind :: capability_kind
  native_identity_digest :: sha256_digest
  cap_schema_digest :: sha256_digest
  cap_revision :: capability_revision
  source_configuration_digest :: sha256_digest

text \<open>The derived \<open>Ord\<close> compares the fields in their order.\<close>

definition capability_key ::
  "capability_id \<Rightarrow> source_id \<times> capability_kind \<times> sha256_digest \<times> sha256_digest \<times> string \<times> sha256_digest" where
  "capability_key c =
     (cap_source c, cap_kind c, native_identity_digest c, cap_schema_digest c, cap_revision c,
      source_configuration_digest c)"

definition capability_new ::
  "platform \<Rightarrow> source_id \<Rightarrow> capability_kind \<Rightarrow> string \<Rightarrow> sha256_digest \<Rightarrow> capability_revision
   \<Rightarrow> sha256_digest \<Rightarrow> capability_id" where
  "capability_new P src kind native_identity schema revision config =
     \<lparr>cap_source = src, cap_kind = kind,
      native_identity_digest = of_bytes P (nfc P native_identity),
      cap_schema_digest = schema, cap_revision = revision, source_configuration_digest = config\<rparr>"

definition capability_json :: "platform \<Rightarrow> capability_id \<Rightarrow> json" where
  "capability_json P c =
     JObj [(''source'', JStr (cap_source c)),
           (''kind'', JStr (kind_name (cap_kind c))),
           (''native_identity_digest'', digest_json P (native_identity_digest c)),
           (''schema_digest'', digest_json P (cap_schema_digest c)),
           (''revision'', JStr (cap_revision c)),
           (''source_configuration_digest'', digest_json P (source_configuration_digest c))]"

definition capability_digest :: "platform \<Rightarrow> capability_id \<Rightarrow> sha256_digest" where
  "capability_digest P c = of_json P (capability_json P c)"

definition safe_char :: "nat \<Rightarrow> char" where
  "safe_char c = (if is_ascii_alphanumeric c \<or> c = 95 \<or> c = 45 then char_of c else CHR ''_'')"

definition readable_alias :: "capability_id \<Rightarrow> string \<Rightarrow> string" where
  "readable_alias c native_name = cap_source c @ ''__'' @ map safe_char (utf8_chars native_name)"

lemma capability_key_inject: "capability_key c = capability_key d \<longleftrightarrow> c = d"
  by (cases c; cases d) (auto simp: capability_key_def)

lemma inj_capability_key [simp]: "inj_on capability_key S"
  by (rule inj_onI) (simp add: capability_key_inject)

lemma canonical_capability_json:
  "canonical_json (capability_json P c) =
     JObj [(''kind'', JStr (kind_name (cap_kind c))),
           (''native_identity_digest'', digest_json P (native_identity_digest c)),
           (''revision'', JStr (cap_revision c)),
           (''schema_digest'', digest_json P (cap_schema_digest c)),
           (''source'', JStr (cap_source c)),
           (''source_configuration_digest'', digest_json P (source_configuration_digest c))]"
  by (simp add: capability_json_def btree_collect_def digest_json_def less_char_def)

lemma kind_name_inject: "kind_name a = kind_name b \<longleftrightarrow> a = b"
  by (cases a; cases b) simp_all

lemma capability_json_inject:
  assumes "hex_roundtrip P"
    and "canonical_json (capability_json P c) = canonical_json (capability_json P d)"
  shows "c = d"
  using assms(2) digest_to_string_inject [OF assms(1)]
  by (auto simp: canonical_capability_json kind_name_inject digest_json_def
           intro!: capability_id.equality)

text \<open>
  The digest of a capability is bound to every field of its identity: two capability
  identities with the same digest are equal, unless their two JSON documents are an
  explicit hash collision.
\<close>

theorem capability_digest_binds_identity:
  assumes "hex_roundtrip P" "capability_digest P c = capability_digest P d"
  shows "c = d \<or> doc_collision P (capability_json P c) (capability_json P d)"
  using of_json_eq [OF assms(2) [unfolded capability_digest_def]] capability_json_inject [OF assms(1)]
  by blast

definition sample_capability :: "string \<Rightarrow> string \<Rightarrow> capability_id" where
  "sample_capability src name =
     capability_new sample_platform src Tool name default_digest ''2026-07-28'' default_digest"

theorem capability_digest_binds_identity_witness:
  "sample_capability ''docs-a'' ''search'' = sample_capability ''docs-a'' ''search'' \<or>
   doc_collision sample_platform
     (capability_json sample_platform (sample_capability ''docs-a'' ''search''))
     (capability_json sample_platform (sample_capability ''docs-a'' ''search''))"
  by (rule capability_digest_binds_identity) simp_all

text \<open>
  Two sources that expose the same native name get distinct aliases.
\<close>

theorem alias_isolates_sources:
  assumes "cap_source c \<noteq> cap_source d"
  shows "readable_alias c native_name \<noteq> readable_alias d native_name"
  using assms by (simp add: readable_alias_def)

theorem alias_isolates_sources_witness:
  "readable_alias (sample_capability ''docs-a'' ''search'') ''search''
   \<noteq> readable_alias (sample_capability ''docs-b'' ''search'') ''search''"
  by (rule alias_isolates_sources) (simp add: sample_capability_def capability_new_def)

end
