(* ===== verification/Context.thy ===== *)
theory Context
  imports Capability
begin

text \<open>
  Models \<open>crates/gaugemesh-core/src/context.rs\<close>: the identifiers, budgets and contracts a
  request carries through the mesh, the request context itself, its serialized form and
  the local fixture. The transparent newtypes around strings and integers are their
  contents.
\<close>

type_synonym principal_id = string
type_synonym tenant_id = string
type_synonym request_id = string
type_synonym causal_id = string
type_synonym idempotency_identity = string
type_synonym capability_scope = "string fset"

datatype id_error = IdLength | IdControl

text \<open>The constructor every \<open>string_id!\<close> type gets.\<close>

definition string_id_new :: "string \<Rightarrow> (id_error, string) res" where
  "string_id_new value =
     (if value = [] \<or> length value > 128 then Inl IdLength
      else if has_control value then Inl IdControl
      else Inr value)"

record principal =
  principal_id :: principal_id
  groups :: "string fset"

record delegation_link =
  link_from :: principal_id
  link_to :: principal_id
  link_scope :: capability_scope
  proof_digest :: sha256_digest

type_synonym delegation_chain = "delegation_link list"

definition is_subset_of :: "capability_scope \<Rightarrow> capability_scope \<Rightarrow> bool" where
  "is_subset_of a b \<longleftrightarrow> a |\<subseteq>| b"

datatype data_classification = Public | Internal | Confidential | Restricted

fun classification_rank :: "data_classification \<Rightarrow> nat" where
  "classification_rank Public = 0"
| "classification_rank Internal = 1"
| "classification_rank Confidential = 2"
| "classification_rank Restricted = 3"

lemma classification_rank_inject: "classification_rank a = classification_rank b \<longleftrightarrow> a = b"
  by (cases a; cases b) simp_all

instantiation data_classification :: linorder
begin

definition less_eq_data_classification :: "data_classification \<Rightarrow> data_classification \<Rightarrow> bool" where
  "less_eq_data_classification a b \<longleftrightarrow> classification_rank a \<le> classification_rank b"

definition less_data_classification :: "data_classification \<Rightarrow> data_classification \<Rightarrow> bool" where
  "less_data_classification a b \<longleftrightarrow> classification_rank a < classification_rank b"

instance
  by standard
     (auto simp: less_eq_data_classification_def less_data_classification_def
                 classification_rank_inject)

end

datatype side_effect_class = ReadOnly | IdempotentWrite | NonIdempotentWrite

fun side_effect_rank :: "side_effect_class \<Rightarrow> nat" where
  "side_effect_rank ReadOnly = 0"
| "side_effect_rank IdempotentWrite = 1"
| "side_effect_rank NonIdempotentWrite = 2"

lemma side_effect_rank_inject: "side_effect_rank a = side_effect_rank b \<longleftrightarrow> a = b"
  by (cases a; cases b) simp_all

instantiation side_effect_class :: linorder
begin

definition less_eq_side_effect_class :: "side_effect_class \<Rightarrow> side_effect_class \<Rightarrow> bool" where
  "less_eq_side_effect_class a b \<longleftrightarrow> side_effect_rank a \<le> side_effect_rank b"

definition less_side_effect_class :: "side_effect_class \<Rightarrow> side_effect_class \<Rightarrow> bool" where
  "less_side_effect_class a b \<longleftrightarrow> side_effect_rank a < side_effect_rank b"

instance
  by standard
     (auto simp: less_eq_side_effect_class_def less_side_effect_class_def side_effect_rank_inject)

end

record side_effect_contract =
  effect_class :: side_effect_class
  idempotency_identity :: "idempotency_identity option"
  compensation_allowed :: bool

datatype protocol_revision = Mcp2025_11_25 | Mcp2026_07_28 | OpenAiCompatibleV1 | InternalV1

record protocol_identity =
  protocol_revision :: protocol_revision
  peer_digest :: sha256_digest

record request_context =
  request_id :: request_id
  principal :: principal
  delegation :: delegation_chain
  tenant :: tenant_id
  scope :: capability_scope
  data_classification :: data_classification
  deadline :: u64
  monetary_budget :: u64
  token_budget :: u64
  retry_budget :: u16
  side_effect :: side_effect_contract
  causal_root :: causal_id
  causal_parent :: "causal_id option"
  trace_parent :: string
  protocol :: protocol_identity
  capability :: "capability_id option"
  schema_digest :: sha256_digest
  route_policy_digest :: sha256_digest
  data_provenance_digest :: sha256_digest
  causal_observations :: "sha256_digest list"
  route_decisions :: "sha256_digest list"
  policy_decisions :: "sha256_digest list"
  retry_attempts :: "sha256_digest list"
  budget_debits :: "sha256_digest list"

section \<open>Serialized forms\<close>

definition u64_json :: "u64 \<Rightarrow> json" where
  "u64_json n = JNum (PosInt n)"

definition u16_json :: "u16 \<Rightarrow> json" where
  "u16_json n = JNum (PosInt (ucast n))"

definition opt_json :: "('a \<Rightarrow> json) \<Rightarrow> 'a option \<Rightarrow> json" where
  "opt_json f v = (case v of None \<Rightarrow> JNull | Some x \<Rightarrow> f x)"

definition string_set_json :: "string fset \<Rightarrow> json" where
  "string_set_json s = JArr (map JStr (sorted_list_of_fset s))"

definition digests_json :: "platform \<Rightarrow> sha256_digest list \<Rightarrow> json" where
  "digests_json P ds = JArr (map (digest_json P) ds)"

definition principal_json :: "principal \<Rightarrow> json" where
  "principal_json p =
     JObj [(''id'', JStr (principal_id p)), (''groups'', string_set_json (groups p))]"

definition link_json :: "platform \<Rightarrow> delegation_link \<Rightarrow> json" where
  "link_json P l =
     JObj [(''from'', JStr (link_from l)), (''to'', JStr (link_to l)),
           (''scope'', string_set_json (link_scope l)),
           (''proof_digest'', digest_json P (proof_digest l))]"

fun classification_name :: "data_classification \<Rightarrow> string" where
  "classification_name Public = ''public''"
| "classification_name Internal = ''internal''"
| "classification_name Confidential = ''confidential''"
| "classification_name Restricted = ''restricted''"

fun side_effect_name :: "side_effect_class \<Rightarrow> string" where
  "side_effect_name ReadOnly = ''read_only''"
| "side_effect_name IdempotentWrite = ''idempotent_write''"
| "side_effect_name NonIdempotentWrite = ''non_idempotent_write''"

definition contract_json :: "side_effect_contract \<Rightarrow> json" where
  "contract_json c =
     JObj [(''class'', JStr (side_effect_name (effect_class c))),
           (''idempotency_identity'', opt_json JStr (idempotency_identity c)),
           (''compensation_allowed'', JBool (compensation_allowed c))]"

fun protocol_revision_name :: "protocol_revision \<Rightarrow> string" where
  "protocol_revision_name Mcp2025_11_25 = ''mcp2025_11_25''"
| "protocol_revision_name Mcp2026_07_28 = ''mcp2026_07_28''"
| "protocol_revision_name OpenAiCompatibleV1 = ''open_ai_compatible_v1''"
| "protocol_revision_name InternalV1 = ''internal_v1''"

definition protocol_json :: "platform \<Rightarrow> protocol_identity \<Rightarrow> json" where
  "protocol_json P p =
     JObj [(''revision'', JStr (protocol_revision_name (protocol_revision p))),
           (''peer_digest'', digest_json P (peer_digest p))]"

definition context_json :: "platform \<Rightarrow> request_context \<Rightarrow> json" where
  "context_json P c =
     JObj [(''request_id'', JStr (request_id c)),
           (''principal'', principal_json (principal c)),
           (''delegation'', JArr (map (link_json P) (delegation c))),
           (''tenant'', JStr (tenant c)),
           (''scope'', string_set_json (scope c)),
           (''data_classification'', JStr (classification_name (data_classification c))),
           (''deadline'', u64_json (deadline c)),
           (''monetary_budget'', u64_json (monetary_budget c)),
           (''token_budget'', u64_json (token_budget c)),
           (''retry_budget'', u16_json (retry_budget c)),
           (''side_effect'', contract_json (side_effect c)),
           (''causal_root'', JStr (causal_root c)),
           (''causal_parent'', opt_json JStr (causal_parent c)),
           (''trace_parent'', JStr (trace_parent c)),
           (''protocol'', protocol_json P (protocol c)),
           (''capability'', opt_json (capability_json P) (capability c)),
           (''schema_digest'', digest_json P (schema_digest c)),
           (''route_policy_digest'', digest_json P (route_policy_digest c)),
           (''data_provenance_digest'', digest_json P (data_provenance_digest c)),
           (''causal_observations'', digests_json P (causal_observations c)),
           (''route_decisions'', digests_json P (route_decisions c)),
           (''policy_decisions'', digests_json P (policy_decisions c)),
           (''retry_attempts'', digests_json P (retry_attempts c)),
           (''budget_debits'', digests_json P (budget_debits c))]"

text \<open>The fixture; its two random identifiers are arguments.\<close>

definition local_fixture :: "platform \<Rightarrow> string \<Rightarrow> string \<Rightarrow> request_context" where
  "local_fixture P uuid1 uuid2 =
     (let zero = of_bytes P [] in
     \<lparr>request_id = uuid1,
      principal = \<lparr>principal_id = ''local-demo'', groups = {|''local''|}\<rparr>,
      delegation = [],
      tenant = ''local'',
      scope = {|''capability:invoke''|},
      data_classification = Public,
      deadline = 30000,
      monetary_budget = 0,
      token_budget = 4096,
      retry_budget = 1,
      side_effect = \<lparr>effect_class = ReadOnly, idempotency_identity = None,
                     compensation_allowed = False\<rparr>,
      causal_root = uuid2,
      causal_parent = None,
      trace_parent = ''00-00000000000000000000000000000001-0000000000000001-01'',
      protocol = \<lparr>protocol_revision = InternalV1, peer_digest = zero\<rparr>,
      capability = None,
      schema_digest = zero,
      route_policy_digest = zero,
      data_provenance_digest = zero,
      causal_observations = [],
      route_decisions = [],
      policy_decisions = [],
      retry_attempts = [],
      budget_debits = []\<rparr>)"

lemma string_id_new_Inr [guard_simps]:
  "string_id_new v = Inr w \<longleftrightarrow> w = v \<and> v \<noteq> [] \<and> length v \<le> 128 \<and> \<not> has_control v"
  by (auto simp: string_id_new_def)

lemma is_subset_of_trans: "is_subset_of a b \<Longrightarrow> is_subset_of b c \<Longrightarrow> is_subset_of a c"
  by (auto simp: is_subset_of_def)

lemma is_subset_of_refl [simp]: "is_subset_of a a"
  by (simp add: is_subset_of_def)

lemma side_effect_name_inject: "side_effect_name a = side_effect_name b \<longleftrightarrow> a = b"
  by (cases a; cases b) simp_all

lemma u64_json_inject [simp]: "u64_json a = u64_json b \<longleftrightarrow> a = b"
  by (simp add: u64_json_def)

lemma u16_json_inject [simp]: "u16_json a = u16_json b \<longleftrightarrow> a = b"
proof
  assume "u16_json a = u16_json b"
  then have "unat (ucast a :: u64) = unat (ucast b :: u64)" by (simp add: u16_json_def)
  then show "a = b" by (simp add: unat_widen word_unat_eq_iff)
qed simp

lemma string_set_json_inject [simp]: "string_set_json a = string_set_json b \<longleftrightarrow> a = b"
proof
  assume "string_set_json a = string_set_json b"
  then have "sorted_list_of_fset a = sorted_list_of_fset b"
    by (simp add: string_set_json_def inj_map_eq_map inj_def)
  then show "a = b" by (metis sorted_list_of_fset_simps(2))
qed simp

text \<open>Values that are already canonical.\<close>

lemma canonical_atoms [simp]:
  "canonical_json (u64_json n) = u64_json n"
  "canonical_json (u16_json k) = u16_json k"
  "canonical_json (string_set_json s) = string_set_json s"
  "canonical_json (digest_json P d) = digest_json P d"
  "canonical_json (opt_json JStr v) = opt_json JStr v"
  by (simp_all add: u64_json_def u16_json_def string_set_json_def digest_json_def opt_json_def
        comp_def split: option.splits)

end
