(* ===== verification/Invariant.thy ===== *)
theory Invariant
  imports Context "HOL-Library.Sublist"
begin

text \<open>
  Models \<open>crates/gaugemesh-core/src/invariant.rs\<close>: the conservation check an adapter runs
  between the request context it received and the one it emits. \<open>conserve_steps\<close> lists the
  checks in the order of the code, each pushing an invariant to one of the three vectors
  of the report. \<open>conserves\<close> is the specification: what must hold between the two
  contexts, with a delegation described as a path from one principal to another.
\<close>

datatype conservation_rule =
  Equal | Subset | NonIncreasing | NonDecreasing | AppendOnly | ExplicitDelegation

datatype invariant_id =
    Request | Principal | Tenant | Scope | Deadline | MonetaryBudget | TokenBudget
  | RetryBudget | DataClassification | CausalRoot | CausalParent | Capability | SideEffect
  | Schema | TraceParent | DataProvenance | RoutePolicy | Delegation | CausalObservations
  | RouteDecisions | PolicyDecisions | RetryAttempts | BudgetDebits

text \<open>The names \<open>{:?}\<close> prints.\<close>

fun invariant_debug :: "invariant_id \<Rightarrow> string" where
  "invariant_debug Request = ''Request''"
| "invariant_debug Principal = ''Principal''"
| "invariant_debug Tenant = ''Tenant''"
| "invariant_debug Scope = ''Scope''"
| "invariant_debug Deadline = ''Deadline''"
| "invariant_debug MonetaryBudget = ''MonetaryBudget''"
| "invariant_debug TokenBudget = ''TokenBudget''"
| "invariant_debug RetryBudget = ''RetryBudget''"
| "invariant_debug DataClassification = ''DataClassification''"
| "invariant_debug CausalRoot = ''CausalRoot''"
| "invariant_debug CausalParent = ''CausalParent''"
| "invariant_debug Capability = ''Capability''"
| "invariant_debug SideEffect = ''SideEffect''"
| "invariant_debug Schema = ''Schema''"
| "invariant_debug TraceParent = ''TraceParent''"
| "invariant_debug DataProvenance = ''DataProvenance''"
| "invariant_debug RoutePolicy = ''RoutePolicy''"
| "invariant_debug Delegation = ''Delegation''"
| "invariant_debug CausalObservations = ''CausalObservations''"
| "invariant_debug RouteDecisions = ''RouteDecisions''"
| "invariant_debug PolicyDecisions = ''PolicyDecisions''"
| "invariant_debug RetryAttempts = ''RetryAttempts''"
| "invariant_debug BudgetDebits = ''BudgetDebits''"

datatype invariant_error_code =
    PrincipalLost | TenantChanged | ScopeExpanded | DeadlineExtended | BudgetIncreased
  | RetryAmplified | DataDowngraded | CausalityBroken | SchemaUnbound | TranslationLossExceeded

record semantic_loss =
  loss_field :: string
  reason :: string
  weight :: u32

record invariant_violation =
  violated :: invariant_id
  code :: invariant_error_code
  detail :: string

record conservation_report =
  preserved :: "invariant_id list"
  strengthened :: "invariant_id list"
  optional_losses :: "semantic_loss list"
  semantic_loss_score :: u64
  violations :: "invariant_violation list"
  source_digest :: sha256_digest
  target_digest :: "sha256_digest option"

definition passed :: "conservation_report \<Rightarrow> bool" where
  "passed r \<longleftrightarrow> violations r = []"

section \<open>Delegation\<close>

text \<open>
  The loop of \<open>valid_delegation_extension\<close>: the current principal, the scope it holds and
  the principals already seen; \<open>None\<close> is the early \<open>return false\<close>.
\<close>

fun follow_links ::
  "principal_id \<Rightarrow> capability_scope \<Rightarrow> principal_id fset \<Rightarrow> delegation_link list
   \<Rightarrow> (principal_id \<times> capability_scope) option" where
  "follow_links current sc seen [] = Some (current, sc)"
| "follow_links current sc seen (l # ls) =
     (if link_from l \<noteq> current \<or> \<not> is_subset_of (link_scope l) sc \<or> link_to l |\<in>| seen
      then None
      else follow_links (link_to l) (link_scope l) (finsert (link_to l) seen) ls)"

definition link_principals :: "delegation_chain \<Rightarrow> principal_id fset" where
  "link_principals ls = fset_of_list (concat (map (\<lambda>l. [link_from l, link_to l]) ls))"

definition valid_delegation_extension :: "request_context \<Rightarrow> request_context \<Rightarrow> bool" where
  "valid_delegation_extension source target =
     (if \<not> prefix (delegation source) (delegation target) then False
      else
        let current = principal_id (principal source);
            seen = finsert current (link_principals (delegation source));
            extension = drop (length (delegation source)) (delegation target)
        in if extension = [] then False
           else (case follow_links current (scope source) seen extension of
                   None \<Rightarrow> False
                 | Some (last_principal, sc) \<Rightarrow>
                     last_principal = principal_id (principal target)
                     \<and> is_subset_of (scope target) sc))"

section \<open>The checks\<close>

record tally =
  tpreserved :: "invariant_id list"
  tstrengthened :: "invariant_id list"
  tviolations :: "invariant_violation list"

definition push_violation ::
  "invariant_id \<Rightarrow> invariant_error_code \<Rightarrow> string \<Rightarrow> tally \<Rightarrow> tally" where
  "push_violation i c d t =
     t\<lparr>tviolations := tviolations t @ [\<lparr>violated = i, code = c, detail = d\<rparr>]\<rparr>"

definition push_preserved :: "invariant_id \<Rightarrow> tally \<Rightarrow> tally" where
  "push_preserved i t = t\<lparr>tpreserved := tpreserved t @ [i]\<rparr>"

definition push_strengthened :: "invariant_id \<Rightarrow> tally \<Rightarrow> tally" where
  "push_strengthened i t = t\<lparr>tstrengthened := tstrengthened t @ [i]\<rparr>"

text \<open>The macro \<open>equal!\<close>, with the field's name as the detail.\<close>

definition equal_check ::
  "bool \<Rightarrow> invariant_id \<Rightarrow> invariant_error_code \<Rightarrow> string \<Rightarrow> tally \<Rightarrow> tally" where
  "equal_check eq i c d = (if eq then push_preserved i else push_violation i c d)"

definition append_only ::
  "'a list \<Rightarrow> 'a list \<Rightarrow> invariant_id \<Rightarrow> invariant_error_code \<Rightarrow> tally \<Rightarrow> tally" where
  "append_only source target i c =
     (if target = source then push_preserved i
      else if prefix source target then push_strengthened i
      else push_violation i c (invariant_debug i @ '' is not append-only''))"

definition monotone ::
  "bool \<Rightarrow> bool \<Rightarrow> invariant_id \<Rightarrow> invariant_error_code \<Rightarrow> tally \<Rightarrow> tally" where
  "monotone valid eq i c =
     (if eq then push_preserved i
      else if valid then push_strengthened i
      else push_violation i c (invariant_debug i @ '' monotonicity violated''))"

definition principal_check :: "request_context \<Rightarrow> request_context \<Rightarrow> tally \<Rightarrow> tally" where
  "principal_check source target =
     (if principal source = principal target then push_preserved Principal
      else if valid_delegation_extension source target then push_strengthened Principal
      else push_violation Principal PrincipalLost
             ''principal changed without an explicit bounded delegation proof'')"

definition delegation_check :: "request_context \<Rightarrow> request_context \<Rightarrow> tally \<Rightarrow> tally" where
  "delegation_check source target =
     (if length (delegation target) > length (delegation source)
         \<and> \<not> valid_delegation_extension source target
      then push_violation Delegation PrincipalLost
             ''delegation extension is disconnected, cyclic, or expands scope''
      else id)"

definition acyclic_check :: "request_context \<Rightarrow> tally \<Rightarrow> tally" where
  "acyclic_check target =
     (if \<not> (distinct (causal_observations target)
            \<and> causal_parent target \<noteq> Some (causal_root target))
      then push_violation CausalObservations CausalityBroken
             ''causal path contains a self-edge or repeated observation''
      else id)"

definition conserve_steps :: "request_context \<Rightarrow> request_context \<Rightarrow> (tally \<Rightarrow> tally) list" where
  "conserve_steps source target =
    [principal_check source target,
     equal_check (request_id source = request_id target) Request CausalityBroken ''request_id'',
     equal_check (tenant source = tenant target) Tenant TenantChanged ''tenant'',
     equal_check (causal_root source = causal_root target) CausalRoot CausalityBroken ''causal_root'',
     equal_check (causal_parent source = causal_parent target) CausalParent CausalityBroken
       ''causal_parent'',
     equal_check (side_effect source = side_effect target) SideEffect CausalityBroken ''side_effect'',
     equal_check (schema_digest source = schema_digest target) Schema SchemaUnbound ''schema_digest'',
     equal_check (trace_parent source = trace_parent target) TraceParent CausalityBroken
       ''trace_parent'',
     equal_check (data_provenance_digest source = data_provenance_digest target) DataProvenance
       CausalityBroken ''data_provenance_digest'',
     equal_check (route_policy_digest source = route_policy_digest target) RoutePolicy
       CausalityBroken ''route_policy_digest'',
     equal_check (capability source = capability target) Capability SchemaUnbound
       ''capability identity changed across the adapter boundary'',
     append_only (delegation source) (delegation target) Delegation CausalityBroken,
     delegation_check source target,
     acyclic_check target,
     append_only (causal_observations source) (causal_observations target) CausalObservations
       CausalityBroken,
     append_only (route_decisions source) (route_decisions target) RouteDecisions CausalityBroken,
     append_only (policy_decisions source) (policy_decisions target) PolicyDecisions CausalityBroken,
     append_only (retry_attempts source) (retry_attempts target) RetryAttempts RetryAmplified,
     append_only (budget_debits source) (budget_debits target) BudgetDebits BudgetIncreased,
     monotone (is_subset_of (scope target) (scope source)) (scope target = scope source)
       Scope ScopeExpanded,
     monotone (deadline target \<le> deadline source) (deadline target = deadline source)
       Deadline DeadlineExtended,
     monotone (monetary_budget target \<le> monetary_budget source)
       (monetary_budget target = monetary_budget source) MonetaryBudget BudgetIncreased,
     monotone (token_budget target \<le> token_budget source)
       (token_budget target = token_budget source) TokenBudget BudgetIncreased,
     monotone (retry_budget target \<le> retry_budget source)
       (retry_budget target = retry_budget source) RetryBudget RetryAmplified,
     monotone (data_classification target \<ge> data_classification source)
       (data_classification target = data_classification source) DataClassification DataDowngraded]"

definition empty_tally :: tally where
  "empty_tally = \<lparr>tpreserved = [], tstrengthened = [], tviolations = []\<rparr>"

definition run_checks :: "(tally \<Rightarrow> tally) list \<Rightarrow> tally" where
  "run_checks steps = fold (\<lambda>step t. step t) steps empty_tally"

definition conserve :: "platform \<Rightarrow> request_context \<Rightarrow> request_context \<Rightarrow> conservation_report" where
  "conserve P source target =
     (let t = run_checks (conserve_steps source target) in
      \<lparr>preserved = tpreserved t, strengthened = tstrengthened t, optional_losses = [],
       semantic_loss_score = 0, violations = tviolations t,
       source_digest = of_json P (context_json P source),
       target_digest = Some (of_json P (context_json P target))\<rparr>)"

section \<open>Specification\<close>

text \<open>
  A delegation path from principal \<open>p\<close> holding scope \<open>sc\<close> to \<open>q\<close> holding \<open>sc'\<close>: every
  link starts where the one before it ended, scopes only shrink, and no principal on the
  way was seen before.
\<close>

definition delegation_path ::
  "principal_id \<Rightarrow> capability_scope \<Rightarrow> principal_id fset \<Rightarrow> delegation_link list
   \<Rightarrow> principal_id \<Rightarrow> capability_scope \<Rightarrow> bool" where
  "delegation_path p sc seen ls q sc' \<longleftrightarrow>
     map link_from ls = butlast (p # map link_to ls) \<and> q = last (p # map link_to ls)
     \<and> successively (\<lambda>a b. b |\<subseteq>| a) (sc # map link_scope ls)
     \<and> sc' = last (sc # map link_scope ls)
     \<and> distinct (map link_to ls) \<and> fset seen \<inter> set (map link_to ls) = {}"

definition delegated :: "request_context \<Rightarrow> request_context \<Rightarrow> bool" where
  "delegated s t \<longleftrightarrow>
     (\<exists>ext sc. ext \<noteq> [] \<and> delegation t = delegation s @ ext
        \<and> delegation_path (principal_id (principal s)) (scope s)
            (finsert (principal_id (principal s)) (link_principals (delegation s)))
            ext (principal_id (principal t)) sc
        \<and> scope t |\<subseteq>| sc)"

definition well_formed_context :: "request_context \<Rightarrow> bool" where
  "well_formed_context c \<longleftrightarrow>
     distinct (causal_observations c) \<and> causal_parent c \<noteq> Some (causal_root c)"

definition conserves :: "request_context \<Rightarrow> request_context \<Rightarrow> bool" where
  "conserves s t \<longleftrightarrow>
     (principal t = principal s \<or> delegated s t)
     \<and> (delegation t = delegation s \<or> delegated s t)
     \<and> request_id t = request_id s \<and> tenant t = tenant s
     \<and> causal_root t = causal_root s \<and> causal_parent t = causal_parent s
     \<and> side_effect t = side_effect s \<and> schema_digest t = schema_digest s
     \<and> trace_parent t = trace_parent s
     \<and> data_provenance_digest t = data_provenance_digest s
     \<and> route_policy_digest t = route_policy_digest s \<and> capability t = capability s
     \<and> prefix (causal_observations s) (causal_observations t)
     \<and> prefix (route_decisions s) (route_decisions t)
     \<and> prefix (policy_decisions s) (policy_decisions t)
     \<and> prefix (retry_attempts s) (retry_attempts t)
     \<and> prefix (budget_debits s) (budget_debits t)
     \<and> scope t |\<subseteq>| scope s \<and> deadline t \<le> deadline s
     \<and> monetary_budget t \<le> monetary_budget s \<and> token_budget t \<le> token_budget s
     \<and> retry_budget t \<le> retry_budget s \<and> data_classification s \<le> data_classification t
     \<and> well_formed_context t"

section \<open>The delegation loop\<close>

lemma delegation_path_Nil: "delegation_path p sc seen [] q sc' \<longleftrightarrow> q = p \<and> sc' = sc"
  by (simp add: delegation_path_def)

lemma delegation_path_Cons:
  "delegation_path p sc seen (l # ls) q sc' \<longleftrightarrow>
     link_from l = p \<and> link_scope l |\<subseteq>| sc \<and> link_to l |\<notin>| seen
     \<and> delegation_path (link_to l) (link_scope l) (finsert (link_to l) seen) ls q sc'"
  unfolding delegation_path_def by (simp del: butlast.simps last.simps add: butlast.simps(2) last.simps) blast

lemma follow_links_path:
  "follow_links p sc seen ls = Some (q, sc') \<longleftrightarrow> delegation_path p sc seen ls q sc'"
  by (induction ls arbitrary: p sc seen)
     (auto simp: delegation_path_Nil delegation_path_Cons is_subset_of_def)

lemma delegation_path_fresh:
  assumes "delegation_path p sc seen ls q sc'" "ls \<noteq> []"
  shows "q |\<notin>| seen"
proof -
  have "q = last (map link_to ls)"
    using assms by (simp add: delegation_path_def)
  then have "q \<in> set (map link_to ls)"
    using assms(2) by (metis last_in_set map_is_Nil_conv)
  with assms(1) show ?thesis unfolding delegation_path_def by blast
qed

lemma follow_links_append:
  "follow_links p sc seen (xs @ ys) =
     (case follow_links p sc seen xs of
        None \<Rightarrow> None
      | Some (m, scm) \<Rightarrow> follow_links m scm (seen |\<union>| fset_of_list (map link_to xs)) ys)"
  by (induction xs arbitrary: p sc seen)
     (auto simp: funion_finsert_right split: option.splits prod.splits)

lemma follow_links_weaken:
  assumes "follow_links p sc seen ls = Some (q, sc')" "ls \<noteq> []"
    and "sc |\<subseteq>| big" "small |\<subseteq>| seen"
  shows "follow_links p big small ls = Some (q, sc')"
  using assms by (simp add: follow_links_path delegation_path_def) (cases ls; auto)

lemma valid_extension_iff: "valid_delegation_extension s t \<longleftrightarrow> delegated s t"
proof
  assume v: "valid_delegation_extension s t"
  then obtain ext where t: "delegation t = delegation s @ ext"
    by (auto simp: valid_delegation_extension_def prefix_def split: if_splits)
  with v show "delegated s t"
    by (auto simp: valid_delegation_extension_def delegated_def Let_def follow_links_path
                   is_subset_of_def split: if_splits option.splits)
next
  assume "delegated s t"
  then show "valid_delegation_extension s t"
    by (auto simp: valid_delegation_extension_def delegated_def Let_def is_subset_of_def
                   follow_links_path [symmetric])
qed

lemma link_principals_append:
  "link_principals (xs @ ys) = link_principals xs |\<union>| link_principals ys"
  by (simp add: link_principals_def)

lemma delegated_trans:
  assumes "delegated a b" "delegated b c"
  shows "delegated a c"
proof -
  obtain e1 sc1 where e1: "e1 \<noteq> []" "delegation b = delegation a @ e1" "scope b |\<subseteq>| sc1"
    and p1: "follow_links (principal_id (principal a)) (scope a)
        (finsert (principal_id (principal a)) (link_principals (delegation a))) e1
        = Some (principal_id (principal b), sc1)"
    using assms(1) by (auto simp: delegated_def follow_links_path)
  obtain e2 sc2 where e2: "e2 \<noteq> []" "delegation c = delegation b @ e2" "scope c |\<subseteq>| sc2"
    and p2: "follow_links (principal_id (principal b)) (scope b)
        (finsert (principal_id (principal b)) (link_principals (delegation b))) e2
        = Some (principal_id (principal c), sc2)"
    using assms(2) by (auto simp: delegated_def follow_links_path)
  from e1(1) obtain l ls where "e1 = l # ls" by (cases e1) auto
  with p1 have "link_from l = principal_id (principal a)"
    by (simp only: follow_links_path delegation_path_Cons)
  then have "principal_id (principal a) |\<in>| link_principals e1"
    by (simp add: \<open>e1 = l # ls\<close> link_principals_def)
  moreover have "fset_of_list (map link_to e1) |\<subseteq>| link_principals e1"
    by (auto simp: link_principals_def fset_of_list.rep_eq less_eq_fset.rep_eq)
  ultimately have "finsert (principal_id (principal a)) (link_principals (delegation a))
      |\<union>| fset_of_list (map link_to e1)
      |\<subseteq>| finsert (principal_id (principal b)) (link_principals (delegation b))"
    by (auto simp: e1(2) link_principals_append)
  from follow_links_weaken [OF p2 e2(1) e1(3) this]
  have "follow_links (principal_id (principal a)) (scope a)
      (finsert (principal_id (principal a)) (link_principals (delegation a))) (e1 @ e2)
      = Some (principal_id (principal c), sc2)"
    by (simp add: follow_links_append p1)
  then show ?thesis
    using e1 e2 by (auto simp: delegated_def follow_links_path)
qed

lemma delegated_narrow:
  assumes "delegated a b" "principal c = principal b" "delegation c = delegation b"
    and "scope c |\<subseteq>| scope b"
  shows "delegated a c"
  using assms by (auto simp: delegated_def)

lemma delegated_widen:
  assumes "delegated b c" "principal b = principal a" "delegation b = delegation a"
    and "scope b |\<subseteq>| scope a"
  shows "delegated a c"
proof -
  have "follow_links p (scope a) seen ext = Some (q, sc)"
    if "follow_links p (scope b) seen ext = Some (q, sc)" "ext \<noteq> []" for p seen ext q sc
    using follow_links_weaken [OF that assms(4)] by simp
  then show ?thesis using assms(1-3) by (auto simp: delegated_def follow_links_path [symmetric])
qed

lemma delegated_longer: "delegated s t \<Longrightarrow> delegation t \<noteq> delegation s"
  by (auto simp: delegated_def)

lemma delegated_other_principal: "delegated s t \<Longrightarrow> principal t \<noteq> principal s"
  using delegation_path_fresh by (fastforce simp: delegated_def)

section \<open>What a check contributes\<close>

text \<open>
  A check that pushes a violation exactly when its condition fails, and that accounts for
  the invariants \<open>ids\<close> when it holds.
\<close>

definition checks_for :: "(tally \<Rightarrow> tally) \<Rightarrow> bool \<times> invariant_id list \<Rightarrow> bool" where
  "checks_for step spec \<longleftrightarrow>
     (\<forall>t. (tviolations (step t) = [] \<longleftrightarrow> tviolations t = [] \<and> fst spec)
        \<and> (fst spec \<longrightarrow> mset (tpreserved (step t) @ tstrengthened (step t))
                          = mset (tpreserved t @ tstrengthened t) + mset (snd spec)))"

lemmas push_defs = push_violation_def push_preserved_def push_strengthened_def

lemma checks_for_equal: "checks_for (equal_check eq i c d) (eq, [i])"
  by (simp add: checks_for_def equal_check_def push_defs)

lemma checks_for_append_only: "checks_for (append_only xs ys i c) (prefix xs ys, [i])"
  by (auto simp: checks_for_def append_only_def push_defs)

lemma checks_for_monotone:
  "(eq \<Longrightarrow> valid) \<Longrightarrow> checks_for (monotone valid eq i c) (valid, [i])"
  by (auto simp: checks_for_def monotone_def push_defs)

lemma checks_for_principal:
  "checks_for (principal_check s t) (principal t = principal s \<or> delegated s t, [Principal])"
  by (auto simp: checks_for_def principal_check_def push_defs valid_extension_iff)

lemma checks_for_delegation:
  "checks_for (delegation_check s t)
     (length (delegation t) \<le> length (delegation s) \<or> delegated s t, [])"
  by (auto simp: checks_for_def delegation_check_def push_defs valid_extension_iff not_less)

lemma checks_for_acyclic: "checks_for (acyclic_check t) (well_formed_context t, [])"
  by (auto simp: checks_for_def acyclic_check_def push_defs well_formed_context_def)

lemma fold_checks:
  assumes "list_all2 checks_for steps specs"
  shows "(tviolations (fold (\<lambda>step t. step t) steps t) = []
            \<longleftrightarrow> tviolations t = [] \<and> (\<forall>spec \<in> set specs. fst spec))
         \<and> ((\<forall>spec \<in> set specs. fst spec) \<longrightarrow>
             mset (tpreserved (fold (\<lambda>step t. step t) steps t)
                   @ tstrengthened (fold (\<lambda>step t. step t) steps t))
             = mset (tpreserved t @ tstrengthened t) + mset (concat (map snd specs)))"
  using assms
proof (induction arbitrary: t rule: list_all2_induct)
  case (Cons step steps spec specs)
  have "(tviolations (step t) = [] \<longleftrightarrow> tviolations t = [] \<and> fst spec)"
    and acc: "fst spec \<longrightarrow> mset (tpreserved (step t) @ tstrengthened (step t))
                = mset (tpreserved t @ tstrengthened t) + mset (snd spec)"
    using Cons(1) by (auto simp: checks_for_def)
  then show ?case using Cons(3) [of "step t"] by auto
qed simp

text \<open>The conditions of \<open>conserve_steps\<close> and the invariants each accounts for, in order.\<close>

definition conserve_specs :: "request_context \<Rightarrow> request_context \<Rightarrow> (bool \<times> invariant_id list) list" where
  "conserve_specs source target =
    [(principal target = principal source \<or> delegated source target, [Principal]),
     (request_id source = request_id target, [Request]),
     (tenant source = tenant target, [Tenant]),
     (causal_root source = causal_root target, [CausalRoot]),
     (causal_parent source = causal_parent target, [CausalParent]),
     (side_effect source = side_effect target, [SideEffect]),
     (schema_digest source = schema_digest target, [Schema]),
     (trace_parent source = trace_parent target, [TraceParent]),
     (data_provenance_digest source = data_provenance_digest target, [DataProvenance]),
     (route_policy_digest source = route_policy_digest target, [RoutePolicy]),
     (capability source = capability target, [Capability]),
     (prefix (delegation source) (delegation target), [Delegation]),
     (length (delegation target) \<le> length (delegation source) \<or> delegated source target, []),
     (well_formed_context target, []),
     (prefix (causal_observations source) (causal_observations target), [CausalObservations]),
     (prefix (route_decisions source) (route_decisions target), [RouteDecisions]),
     (prefix (policy_decisions source) (policy_decisions target), [PolicyDecisions]),
     (prefix (retry_attempts source) (retry_attempts target), [RetryAttempts]),
     (prefix (budget_debits source) (budget_debits target), [BudgetDebits]),
     (is_subset_of (scope target) (scope source), [Scope]),
     (deadline target \<le> deadline source, [Deadline]),
     (monetary_budget target \<le> monetary_budget source, [MonetaryBudget]),
     (token_budget target \<le> token_budget source, [TokenBudget]),
     (retry_budget target \<le> retry_budget source, [RetryBudget]),
     (data_classification target \<ge> data_classification source, [DataClassification])]"

lemma conserve_steps_specs: "list_all2 checks_for (conserve_steps s t) (conserve_specs s t)"
  unfolding conserve_steps_def conserve_specs_def
  by (intro list.rel_intros checks_for_equal checks_for_append_only checks_for_monotone
        checks_for_principal checks_for_delegation checks_for_acyclic) simp_all

lemma delegation_kept_or_delegated:
  "prefix (delegation s) (delegation t)
     \<and> (length (delegation t) \<le> length (delegation s) \<or> delegated s t)
   \<longleftrightarrow> delegation t = delegation s \<or> delegated s t"
  by (auto simp: delegated_def prefix_def)

lemma conserve_specs_conserves:
  "(\<forall>spec \<in> set (conserve_specs s t). fst spec) \<longleftrightarrow> conserves s t"
  unfolding conserves_def conserve_specs_def delegation_kept_or_delegated [symmetric]
  by (auto simp: is_subset_of_def)

lemma conserve_fields [simp]:
  "violations (conserve P s t) = tviolations (run_checks (conserve_steps s t))"
  "preserved (conserve P s t) = tpreserved (run_checks (conserve_steps s t))"
  "strengthened (conserve P s t) = tstrengthened (run_checks (conserve_steps s t))"
  by (simp_all add: conserve_def Let_def)

lemma passed_conserve: "passed (conserve P s t) \<longleftrightarrow> conserves s t"
  using fold_checks [OF conserve_steps_specs, of s t empty_tally]
  by (simp add: passed_def run_checks_def conserve_specs_conserves empty_tally_def)

definition all_invariants :: "invariant_id list" where
  "all_invariants =
    [Request, Principal, Tenant, Scope, Deadline, MonetaryBudget, TokenBudget, RetryBudget,
     DataClassification, CausalRoot, CausalParent, Capability, SideEffect, Schema, TraceParent,
     DataProvenance, RoutePolicy, Delegation, CausalObservations, RouteDecisions,
     PolicyDecisions, RetryAttempts, BudgetDebits]"

lemma all_invariants_complete: "i \<in> set all_invariants"
  by (cases i) (simp_all add: all_invariants_def)

lemma distinct_all_invariants: "distinct all_invariants"
  by (simp add: all_invariants_def)

lemma conserve_accounts:
  assumes "conserves s t"
  shows "mset (preserved (conserve P s t) @ strengthened (conserve P s t)) = mset all_invariants"
  using fold_checks [OF conserve_steps_specs, of s t empty_tally] assms
  by (simp add: run_checks_def conserve_specs_conserves empty_tally_def)
     (simp add: conserve_specs_def all_invariants_def)

section \<open>Hops compose\<close>

lemma conserves_refl: "well_formed_context s \<Longrightarrow> conserves s s"
  by (simp add: conserves_def)

lemma prefix_chain: "prefix xs ys \<Longrightarrow> prefix ys zs \<Longrightarrow> prefix xs zs"
  by (rule prefix_order.trans)

lemma delegated_step:
  assumes "conserves a b" "conserves b c"
  shows "(principal c = principal a \<or> delegated a c) \<and> (delegation c = delegation a \<or> delegated a c)"
proof -
  have sc: "scope b |\<subseteq>| scope a" "scope c |\<subseteq>| scope b"
    using assms by (auto simp: conserves_def)
  have same: "principal y = principal x \<and> delegation y = delegation x \<or> delegated x y"
    if "conserves x y" for x y
    using that delegated_longer delegated_other_principal by (fastforce simp: conserves_def)
  show ?thesis
    using same [OF assms(1)] same [OF assms(2)] sc
      delegated_trans delegated_narrow delegated_widen by (metis (no_types))
qed

lemma conserves_trans:
  assumes "conserves a b" "conserves b c"
  shows "conserves a c"
  unfolding conserves_def
  using delegated_step [OF assms] assms [unfolded conserves_def]
  by (elim conjE, intro conjI) (assumption | (erule prefix_order.trans order.trans, assumption) | simp)+

lemma conserves_well_formed: "conserves a b \<Longrightarrow> well_formed_context b"
  by (simp add: conserves_def)

text \<open>
  What a chain of adapters relies on: an acceptance test between contexts that composes
  and only accepts targets that are themselves valid sources.
\<close>

locale boundary_check =
  fixes accepts :: "'c \<Rightarrow> 'c \<Rightarrow> bool" and valid :: "'c \<Rightarrow> bool"
  assumes accepts_trans: "accepts a b \<Longrightarrow> accepts b c \<Longrightarrow> accepts a c"
    and accepts_refl: "valid a \<Longrightarrow> accepts a a"
    and accepts_valid: "accepts a b \<Longrightarrow> valid b"
begin

lemma chain:
  assumes "successively accepts (c # cs)" "cs \<noteq> []"
  shows "accepts c (last cs)"
  using assms
proof (induction cs arbitrary: c)
  case (Cons d ds)
  then show ?case by (cases ds) (auto intro: accepts_trans)
qed simp

lemma chain_valid:
  assumes "successively accepts (c # cs)" "d \<in> set cs"
  shows "valid d \<and> accepts c d"
  using assms
proof (induction cs arbitrary: c)
  case (Cons e es)
  then show ?case
    by (cases es) (auto intro: accepts_trans accepts_valid)
qed simp

end

interpretation conserve_boundary:
  boundary_check "\<lambda>s t. passed (conserve P s t)" well_formed_context for P
  by unfold_locales
     (simp_all only: passed_conserve conserves_refl conserves_trans conserves_well_formed)

text \<open>
  C2: The report of \<open>conserve\<close> passes exactly when the target keeps every identity field of
  the source, changes principal only along an acyclic delegation path whose scopes shrink,
  only appends to the causal lists, narrows scope, deadline and budgets and never lowers the
  data classification.
\<close>

theorem conserve_passed_iff: "passed (conserve P s t) = conserves s t"
  by (rule passed_conserve)

text \<open>
  A passing report accounts for each of the twenty-three invariants exactly once, as
  either preserved or strengthened.
\<close>

theorem conserve_accounts_for_all:
  assumes "passed (conserve P s t)"
  shows "mset (preserved (conserve P s t) @ strengthened (conserve P s t)) = mset all_invariants"
  by (rule conserve_accounts) (use assms in \<open>simp only: passed_conserve\<close>)

text \<open>
  C1: Conservation composes: when every hop of a chain of adapters passes the check, each
  context on the way, the last one included, passes the check directly against the first.
\<close>

theorem conserve_chain:
  assumes "successively (\<lambda>a b. passed (conserve P a b)) (c # cs)" "d \<in> set cs"
  shows "passed (conserve P c d) \<and> well_formed_context d"
  using conserve_boundary.chain_valid [OF assms] by simp

definition sample_context :: request_context where
  "sample_context = local_fixture sample_platform ''req'' ''root''"

lemma sample_context_fields [simp]:
  "causal_observations sample_context = []" "causal_parent sample_context = None"
  "causal_root sample_context = ''root''" "delegation sample_context = []"
  "token_budget sample_context = 4096" "principal_id (principal sample_context) = ''local-demo''"
  "scope sample_context = {|''capability:invoke''|}"
  by (simp_all add: sample_context_def local_fixture_def Let_def)

text \<open>One hop that delegates to another principal and spends part of the token budget.\<close>

definition sample_hop :: request_context where
  "sample_hop = sample_context
     \<lparr>principal := \<lparr>principal_id = ''agent'', groups = {||}\<rparr>,
      delegation := [\<lparr>link_from = ''local-demo'', link_to = ''agent'',
                      link_scope = {|''capability:invoke''|}, proof_digest = default_digest\<rparr>],
      token_budget := 4000\<rparr>"

lemma sample_hop_delegated: "delegated sample_context sample_hop"
  unfolding delegated_def
  by (rule exI [of _ "delegation sample_hop"], rule exI [of _ "{|''capability:invoke''|}"])
     (simp add: sample_hop_def delegation_path_def link_principals_def)

lemma sample_hop_conserves: "conserves sample_context sample_hop"
  using sample_hop_delegated
  by (simp add: conserves_def well_formed_context_def)
     (simp add: sample_hop_def)

theorem conserve_accounts_for_all_witness:
  "mset (preserved (conserve sample_platform sample_context sample_hop)
         @ strengthened (conserve sample_platform sample_context sample_hop)) = mset all_invariants"
  by (rule conserve_accounts_for_all) (simp only: passed_conserve sample_hop_conserves)

theorem conserve_chain_witness:
  "passed (conserve sample_platform sample_context sample_hop) \<and> well_formed_context sample_hop"
  by (rule conserve_chain [where cs = "[sample_hop, sample_hop]"])
     (use conserves_refl [of sample_hop] sample_hop_conserves in
       \<open>simp_all add: passed_conserve conserves_def\<close>)

end
