(* ===== verification/Budget.thy ===== *)
theory Budget
  imports Invariant
begin

text \<open>
  Models \<open>crates/gaugemesh-core/src/budget.rs\<close>: debiting the budgets of a request context.
  A debit either fails with the first exhausted budget, in the order money, tokens,
  retries, deadline, or returns a context that records it.
\<close>

record budget_debit =
  money_micros :: u64
  tokens :: u64
  retries :: u16
  elapsed_ms :: u64

datatype budget_error = MoneyExhausted | TokensExhausted | RetriesExhausted | DeadlineExceeded

definition debit_digest :: "platform \<Rightarrow> budget_debit \<Rightarrow> nat \<Rightarrow> sha256_digest" where
  "debit_digest P d ordinal =
     of_json P (JObj [(''moneyMicros'', u64_json (money_micros d)),
                      (''tokens'', u64_json (tokens d)),
                      (''retries'', u16_json (retries d)),
                      (''elapsedMs'', u64_json (elapsed_ms d)),
                      (''ordinal'', u64_json (of_nat ordinal))])"

definition retry_digest :: "platform \<Rightarrow> sha256_digest \<Rightarrow> u16 \<Rightarrow> sha256_digest" where
  "retry_digest P d retry = of_json P (JObj [(''debit'', digest_json P d), (''retry'', u16_json retry)])"

definition debit ::
  "platform \<Rightarrow> request_context \<Rightarrow> budget_debit \<Rightarrow> (budget_error, request_context) res" where
  "debit P c d =
     rbind (ok_or (checked_sub (monetary_budget c) (money_micros d)) MoneyExhausted) (\<lambda>money.
     rbind (ok_or (checked_sub (token_budget c) (tokens d)) TokensExhausted) (\<lambda>toks.
     rbind (ok_or (checked_sub (retry_budget c) (retries d)) RetriesExhausted) (\<lambda>rts.
     rbind (ok_or (checked_sub (deadline c) (elapsed_ms d)) DeadlineExceeded) (\<lambda>dl.
       let digest = debit_digest P d (length (budget_debits c)) in
       Inr (c\<lparr>monetary_budget := money, token_budget := toks, retry_budget := rts, deadline := dl,
              budget_debits := budget_debits c @ [digest],
              retry_attempts := retry_attempts c
                @ map (\<lambda>n. retry_digest P digest (word_of_nat n)) [0..<unat (retries d)]\<rparr>)))))"

text \<open>The debits of a request, one after the other.\<close>

primrec debit_all ::
  "platform \<Rightarrow> request_context \<Rightarrow> budget_debit list \<Rightarrow> (budget_error, request_context) res" where
  "debit_all P c [] = Inr c"
| "debit_all P c (d # ds) = rbind (debit P c d) (\<lambda>c'. debit_all P c' ds)"

lemma debit_conserves:
  "debit P c d = Inr c' \<Longrightarrow> well_formed_context c \<Longrightarrow> conserves c c'"
  by (auto simp: debit_def Let_def guard_simps conserves_def well_formed_context_def
           dest!: checked_sub_SomeD)

lemma debit_amounts:
  assumes "debit P c d = Inr c'"
  shows "unat (monetary_budget c') + unat (money_micros d) = unat (monetary_budget c)"
    and "unat (token_budget c') + unat (tokens d) = unat (token_budget c)"
    and "unat (retry_budget c') + unat (retries d) = unat (retry_budget c)"
    and "unat (deadline c') + unat (elapsed_ms d) = unat (deadline c)"
    and "length (budget_debits c') = Suc (length (budget_debits c))"
    and "length (retry_attempts c') = length (retry_attempts c) + unat (retries d)"
  using assms by (auto simp: debit_def Let_def guard_simps dest!: checked_sub_SomeD)

lemma debit_all_conserves:
  "debit_all P c ds = Inr c' \<Longrightarrow> well_formed_context c \<Longrightarrow> conserves c c'"
proof (induction ds arbitrary: c)
  case Nil
  then show ?case by (simp add: conserves_refl)
next
  case (Cons d ds)
  then obtain m where "debit P c d = Inr m" "debit_all P m ds = Inr c'"
    by (auto simp: guard_simps)
  then show ?case
    using Cons debit_conserves conserves_well_formed conserves_trans by metis
qed

lemma debit_all_amounts:
  "debit_all P c ds = Inr c' \<Longrightarrow>
     unat (monetary_budget c') + (\<Sum>d\<leftarrow>ds. unat (money_micros d)) = unat (monetary_budget c)
   \<and> unat (token_budget c') + (\<Sum>d\<leftarrow>ds. unat (tokens d)) = unat (token_budget c)
   \<and> unat (retry_budget c') + (\<Sum>d\<leftarrow>ds. unat (retries d)) = unat (retry_budget c)
   \<and> unat (deadline c') + (\<Sum>d\<leftarrow>ds. unat (elapsed_ms d)) = unat (deadline c)
   \<and> length (budget_debits c') = length (budget_debits c) + length ds
   \<and> length (retry_attempts c') = length (retry_attempts c) + (\<Sum>d\<leftarrow>ds. unat (retries d))"
proof (induction ds arbitrary: c)
  case (Cons d ds)
  then obtain m where "debit P c d = Inr m" "debit_all P m ds = Inr c'"
    by (auto simp: guard_simps)
  with Cons.IH [of m] debit_amounts [of P c d m] show ?case by simp
qed simp

lemma debit_all_keeps:
  "debit_all P c ds = Inr c' \<Longrightarrow> scope c' = scope c \<and> principal c' = principal c"
  by (induction ds arbitrary: c) (auto simp: debit_def Let_def guard_simps)

text \<open>
  A debit fails exactly when a budget is exhausted, and reports the first one in the
  order money, tokens, retries, deadline.
\<close>

theorem debit_result:
  "case debit P c d of
     Inl e \<Rightarrow>
       (if monetary_budget c < money_micros d then e = MoneyExhausted
        else if token_budget c < tokens d then e = TokensExhausted
        else if retry_budget c < retries d then e = RetriesExhausted
        else e = DeadlineExceeded \<and> deadline c < elapsed_ms d)
   | Inr c' \<Rightarrow> money_micros d \<le> monetary_budget c \<and> tokens d \<le> token_budget c
       \<and> retries d \<le> retry_budget c \<and> elapsed_ms d \<le> deadline c"
  by (auto simp: debit_def Let_def checked_sub_def)

text \<open>
  C4: Over any sequence of successful debits, what was spent and what is left add up to the
  initial budget in all four currencies, without wrap-around; one digest per debit and one
  per retry is recorded; and the resulting context passes the conservation check against the
  first one.
\<close>

theorem debits_account_exactly:
  assumes "debit_all P c ds = Inr c'" "well_formed_context c"
  shows "unat (monetary_budget c') + (\<Sum>d\<leftarrow>ds. unat (money_micros d)) = unat (monetary_budget c)
       \<and> unat (token_budget c') + (\<Sum>d\<leftarrow>ds. unat (tokens d)) = unat (token_budget c)
       \<and> unat (retry_budget c') + (\<Sum>d\<leftarrow>ds. unat (retries d)) = unat (retry_budget c)
       \<and> unat (deadline c') + (\<Sum>d\<leftarrow>ds. unat (elapsed_ms d)) = unat (deadline c)
       \<and> length (budget_debits c') = length (budget_debits c) + length ds
       \<and> length (retry_attempts c') = length (retry_attempts c) + (\<Sum>d\<leftarrow>ds. unat (retries d))
       \<and> passed (conserve P c c')"
  using debit_all_amounts [OF assms(1)] debit_all_conserves [OF assms]
  by (simp add: passed_conserve)

definition sample_debit :: budget_debit where
  "sample_debit = \<lparr>money_micros = 0, tokens = 100, retries = 1, elapsed_ms = 50\<rparr>"

lemma sample_debit_ok: "debit P sample_context sample_debit = Inr c' \<longleftrightarrow>
  c' = (let digest = debit_digest P sample_debit 0 in
        sample_context\<lparr>token_budget := 3996, retry_budget := 0, deadline := 29950,
          budget_debits := [digest], retry_attempts := [retry_digest P digest 0]\<rparr>)"
  by (auto simp: debit_def sample_debit_def sample_context_def local_fixture_def Let_def checked_sub_def)

theorem debits_account_exactly_witness:
  "\<exists>c'. debit_all sample_platform sample_context [sample_debit] = Inr c'
      \<and> unat (token_budget c') + 100 = 4096 \<and> length (retry_attempts c') = 1
      \<and> passed (conserve sample_platform sample_context c')"
proof -
  define c' where "c' = (let digest = debit_digest sample_platform sample_debit 0 in
        sample_context\<lparr>token_budget := 3996, retry_budget := 0, deadline := 29950,
          budget_debits := [digest], retry_attempts := [retry_digest sample_platform digest 0]\<rparr>)"
  have "debit_all sample_platform sample_context [sample_debit] = Inr c'"
    by (simp add: c'_def rbind_Inr sample_debit_ok)
  moreover have "well_formed_context sample_context"
    by (simp add: well_formed_context_def)
  ultimately show ?thesis
    using debits_account_exactly [of sample_platform sample_context "[sample_debit]" c']
    by (auto simp: sample_debit_def c'_def Let_def sample_context_def local_fixture_def)
qed

end
