(* ===== verification/Translation.thy ===== *)
theory Translation
  imports Invariant
begin

text \<open>
  Models \<open>crates/gaugemesh-core/src/translation.rs\<close>: the report of a protocol translation.
  The adapter's input and output are their serialized JSON documents. The score is the
  \<open>u64\<close> sum of the \<open>u32\<close> weights; it wraps in a release build.
\<close>

datatype translation_error =
    TranslationInvariant invariant_error_code
  | LossExceeded u64 u64
  | RequiredField string

definition require_representable :: "string \<Rightarrow> bool \<Rightarrow> (translation_error, unit) res" where
  "require_representable field representable =
     (if representable then Inr () else Inl (RequiredField field))"

definition loss_score :: "semantic_loss list \<Rightarrow> u64" where
  "loss_score losses = fold (\<lambda>l acc. acc + ucast (weight l)) losses 0"

definition report_translation ::
  "platform \<Rightarrow> json \<Rightarrow> json \<Rightarrow> request_context \<Rightarrow> request_context \<Rightarrow> semantic_loss list \<Rightarrow> u64
   \<Rightarrow> (translation_error, conservation_report) res" where
  "report_translation P input output source target losses max_loss =
     (let report = conserve P source target in
      case violations report of
        v # _ \<Rightarrow> Inl (TranslationInvariant (code v))
      | [] \<Rightarrow>
          let score = loss_score losses in
          if score > max_loss then Inl (LossExceeded score max_loss)
          else Inr (report\<lparr>optional_losses := losses, semantic_loss_score := score,
                           source_digest := of_json P input,
                           target_digest := Some (of_json P output)\<rparr>))"

lemma loss_score_exact:
  assumes "length losses < 2 ^ 32"
  shows "unat (loss_score losses) = (\<Sum>l\<leftarrow>losses. unat (weight l))"
proof -
  have bound: "unat a + (\<Sum>l\<leftarrow>ls. unat (weight l)) < 2 ^ 64 \<Longrightarrow>
      unat (fold (\<lambda>l acc. acc + ucast (weight l)) ls a) = unat a + (\<Sum>l\<leftarrow>ls. unat (weight l))"
    for a :: u64 and ls
  proof (induction ls arbitrary: a)
    case (Cons l ls)
    have "unat (a + ucast (weight l)) = unat a + unat (weight l)"
      using Cons.prems by (simp add: unat_word_ariths unat_widen)
    with Cons show ?case by (simp add: add.assoc)
  qed simp
  have "(\<Sum>l\<leftarrow>losses. unat (weight l)) \<le> length losses * (2 ^ 32 - 1)"
  proof (induction losses)
    case (Cons l ls)
    moreover have "unat (weight l) \<le> 2 ^ 32 - 1"
      using unat_bound [of "weight l"] by simp
    ultimately show ?case by simp
  qed simp
  also have "\<dots> < 2 ^ 64" using assms by simp
  finally show ?thesis using bound [of 0 losses] by (simp add: loss_score_def)
qed

lemma report_translation_cases:
  "(\<exists>r. report_translation P i t source target losses m = Inr r)
     \<longleftrightarrow> passed (conserve P source target) \<and> loss_score losses \<le> m"
  by (auto simp: report_translation_def Let_def passed_def split: list.split)

text \<open>
  A translation is reported as successful exactly when the target context conserves the
  source and the total weight of the declared losses, computed without wrap-around for any
  list shorter than \<open>2 ^ 32\<close>, stays within the limit.
\<close>

theorem report_translation_ok_iff:
  assumes "length losses < 2 ^ 32"
  shows "(\<exists>r. report_translation P i t source target losses m = Inr r)
         = (conserves source target \<and> (\<Sum>l\<leftarrow>losses. unat (weight l)) \<le> unat m)"
  unfolding report_translation_cases passed_conserve word_le_nat_alt loss_score_exact [OF assms] ..

theorem report_translation_ok_iff_witness:
  "(\<exists>r. report_translation sample_platform JNull JNull sample_context sample_hop
          [\<lparr>loss_field = ''annotations'', reason = ''unsupported'', weight = 2\<rparr>] 5 = Inr r)
   = (conserves sample_context sample_hop
      \<and> (\<Sum>l\<leftarrow>[\<lparr>loss_field = ''annotations'', reason = ''unsupported'', weight = (2::u32)\<rparr>].
           unat (weight l)) \<le> unat (5 :: u64))"
  by (rule report_translation_ok_iff) simp

end
