(* ===== verification/Causal.thy ===== *)
theory Causal
  imports Context
begin

text \<open>
  Models \<open>crates/gaugemesh-core/src/causal.rs\<close>: the append-only graph of causal
  observations. The loop that follows the parents terminates because every step adds a
  node of the parent map to the seen set or leaves the map. \<open>causal_reachable\<close> is the set of
  graphs the operations build from the empty one.
\<close>

record causal_observation =
  obs_id :: causal_id
  obs_parent :: "causal_id option"
  obs_kind :: string
  evidence_digest :: sha256_digest

record causal_graph =
  parents :: "(causal_id, causal_id option) fmap"
  observations :: "causal_observation list"

definition causal_default :: causal_graph where
  "causal_default = \<lparr>parents = fmempty, observations = []\<rparr>"

datatype causal_error = CausalDuplicate | CausalMissingParent | CausalCycle

text \<open>\<open>self.parents.get(&node).cloned().flatten()\<close>\<close>

definition parent_of :: "(causal_id, causal_id option) fmap \<Rightarrow> causal_id \<Rightarrow> causal_id option" where
  "parent_of ps node = (case fmlookup ps node of None \<Rightarrow> None | Some p \<Rightarrow> p)"

lemma parent_of_fmdom: "parent_of ps node = Some p \<Longrightarrow> node |\<in>| fmdom ps"
  by (auto simp: parent_of_def fmlookup_dom_iff split: option.splits)

text \<open>The \<open>while let\<close> loop; the result says whether it returns the cycle error.\<close>

function finds_cycle ::
  "(causal_id, causal_id option) fmap \<Rightarrow> causal_id \<Rightarrow> causal_id option \<Rightarrow> causal_id fset \<Rightarrow> bool" where
  "finds_cycle ps new None seen = False"
| "finds_cycle ps new (Some node) seen =
     (if node = new \<or> node |\<in>| seen then True
      else finds_cycle ps new (parent_of ps node) (finsert node seen))"
  by pat_completeness auto

termination
proof (relation "measure (\<lambda>(ps, new, cursor, seen).
         case cursor of None \<Rightarrow> 0 | Some _ \<Rightarrow> Suc (fcard (fmdom ps |-| seen)))")
  show "((ps, new, parent_of ps node, finsert node seen), ps, new, Some node, seen)
        \<in> measure (\<lambda>(ps, new, cursor, seen).
            case cursor of None \<Rightarrow> 0 | Some _ \<Rightarrow> Suc (fcard (fmdom ps |-| seen)))"
    if "\<not> (node = new \<or> node |\<in>| seen)"
    for ps :: "(causal_id, causal_id option) fmap" and new node seen
  proof (cases "parent_of ps node")
    case (Some p)
    then have "node |\<in>| fmdom ps |-| seen" using that parent_of_fmdom by simp
    moreover have "fmdom ps |-| finsert node seen = (fmdom ps |-| seen) |-| {|node|}" by auto
    ultimately show ?thesis using Some fcard_fminus1_less [of node "fmdom ps |-| seen"]
      by simp
  qed simp
qed simp

declare finds_cycle.simps(2) [simp del]

definition causal_append ::
  "causal_observation \<Rightarrow> causal_graph \<Rightarrow> (causal_error, causal_graph) res" where
  "causal_append obs g =
     (let accepted = Inr (g\<lparr>parents := fmupd (obs_id obs) (obs_parent obs) (parents g),
                            observations := observations g @ [obs]\<rparr>)
      in
      if obs_id obs |\<in>| fmdom (parents g) then Inl CausalDuplicate
      else case obs_parent obs of
             None \<Rightarrow> accepted
           | Some parent \<Rightarrow>
               if parent = obs_id obs then Inl CausalCycle
               else if parent |\<notin>| fmdom (parents g) then Inl CausalMissingParent
               else if finds_cycle (parents g) (obs_id obs) (Some parent) {||} then Inl CausalCycle
               else accepted)"

inductive causal_reachable :: "causal_graph \<Rightarrow> bool" where
  causal_empty: "causal_reachable causal_default"
| causal_step: "causal_reachable g \<Longrightarrow> causal_append obs g = Inr g' \<Longrightarrow> causal_reachable g'"

section \<open>The invariant\<close>

text \<open>Every parent occurs earlier in the log than the observation that names it.\<close>

definition parents_earlier :: "causal_observation list \<Rightarrow> bool" where
  "parents_earlier log \<longleftrightarrow>
     (\<forall>i < length log. \<forall>p. obs_parent (log ! i) = Some p \<longrightarrow> (\<exists>j < i. obs_id (log ! j) = p))"

definition causal_inv :: "causal_graph \<Rightarrow> bool" where
  "causal_inv g \<longleftrightarrow>
     fmlookup (parents g) = map_of (map (\<lambda>ob. (obs_id ob, obs_parent ob)) (observations g))
     \<and> distinct (map obs_id (observations g)) \<and> parents_earlier (observations g)"

lemma parents_earlier_snoc:
  "parents_earlier (log @ [ob]) \<longleftrightarrow>
     parents_earlier log \<and> (\<forall>p. obs_parent ob = Some p \<longrightarrow> p \<in> obs_id ` set log)"
  (is "?l \<longleftrightarrow> ?r")
proof
  assume l: ?l
  have "\<exists>j < i. obs_id (log ! j) = p" if "i < length log" "obs_parent (log ! i) = Some p" for i p
    using l [unfolded parents_earlier_def, rule_format, of i p] that
    by (auto simp: nth_append split: if_splits)
  moreover have "p \<in> obs_id ` set log" if "obs_parent ob = Some p" for p
    using l [unfolded parents_earlier_def, rule_format, of "length log" p] that
    by (auto simp: nth_append)
  ultimately show ?r by (auto simp: parents_earlier_def)
next
  assume ?r
  then show ?l
    by (auto simp: parents_earlier_def nth_append less_Suc_eq in_set_conv_nth image_iff)
       (metis order.strict_trans)+
qed

lemma causal_inv_dom:
  assumes "causal_inv g"
  shows "x |\<in>| fmdom (parents g) \<longleftrightarrow> x \<in> obs_id ` set (observations g)"
  using assms by (simp add: causal_inv_def fmdom_lookup map_of_eq_None_iff image_image)

lemma causal_inv_parent:
  assumes "causal_inv g" "i < length (observations g)"
  shows "parent_of (parents g) (obs_id (observations g ! i)) = obs_parent (observations g ! i)"
proof -
  have "map_of (map (\<lambda>ob. (obs_id ob, obs_parent ob)) (observations g)) (obs_id (observations g ! i))
        = Some (obs_parent (observations g ! i))"
    using assms by (intro map_of_is_SomeI) (auto simp: causal_inv_def comp_def)
  with assms(1) show ?thesis by (simp add: parent_of_def causal_inv_def)
qed

text \<open>Following parents walks back in the log, so it never returns to a seen node.\<close>

lemma finds_cycle_no:
  assumes "causal_inv g" "new |\<notin>| fmdom (parents g)"
    and "i < length (observations g)"
    and "\<forall>j \<le> i. obs_id (observations g ! j) |\<notin>| seen"
  shows "\<not> finds_cycle (parents g) new (Some (obs_id (observations g ! i))) seen"
  using assms
proof (induction i arbitrary: seen rule: less_induct)
  case (less i)
  let ?ob = "observations g ! i"
  have "obs_id ?ob \<noteq> new"
    using less.prems(1-3) by (force simp: causal_inv_dom)
  moreover have "\<not> finds_cycle (parents g) new (obs_parent ?ob) (finsert (obs_id ?ob) seen)"
  proof (cases "obs_parent ?ob")
    case (Some p)
    then obtain j where j: "j < i" "obs_id (observations g ! j) = p"
      using less.prems(1,3) by (auto simp: causal_inv_def parents_earlier_def)
    have "obs_id (observations g ! k) |\<notin>| finsert (obs_id ?ob) seen" if "k \<le> j" for k
      using less.prems j that nth_eq_iff_index_eq [of "map obs_id (observations g)" k i]
      by (auto simp: causal_inv_def)
    with less.IH [OF j(1) less.prems(1,2)] less.prems(3) j Some show ?thesis by auto
  qed simp
  ultimately show ?case
    using less.prems by (simp add: causal_inv_parent finds_cycle.simps(2))
qed

lemma finds_cycle_never:
  assumes "causal_inv g" "new |\<notin>| fmdom (parents g)" "p |\<in>| fmdom (parents g)"
  shows "\<not> finds_cycle (parents g) new (Some p) {||}"
proof -
  obtain i where "i < length (observations g)" "p = obs_id (observations g ! i)"
    using assms(1,3) by (auto simp: causal_inv_dom in_set_conv_nth)
  with finds_cycle_no [OF assms(1,2)] show ?thesis by simp
qed

lemma causal_append_result:
  assumes "causal_inv g"
  shows "causal_append obs g =
     (if obs_id obs |\<in>| fmdom (parents g) then Inl CausalDuplicate
      else if obs_parent obs = Some (obs_id obs) then Inl CausalCycle
      else if \<exists>p. obs_parent obs = Some p \<and> p |\<notin>| fmdom (parents g) then Inl CausalMissingParent
      else Inr (g\<lparr>parents := fmupd (obs_id obs) (obs_parent obs) (parents g),
                  observations := observations g @ [obs]\<rparr>))"
  using finds_cycle_never [OF assms]
  by (auto simp: causal_append_def Let_def split: option.splits)

lemma causal_append_inv:
  assumes "causal_inv g" "causal_append obs g = Inr g'"
  shows "causal_inv g'"
proof -
  have new: "obs_id obs \<notin> obs_id ` set (observations g)"
    and par: "\<And>p. obs_parent obs = Some p \<Longrightarrow> p \<in> obs_id ` set (observations g)"
    and g': "g' = g\<lparr>parents := fmupd (obs_id obs) (obs_parent obs) (parents g),
                    observations := observations g @ [obs]\<rparr>"
    using assms by (auto simp: causal_append_result causal_inv_dom split: if_splits)
  have "obs_id obs \<notin> fst ` set (map (\<lambda>ob. (obs_id ob, obs_parent ob)) (observations g))"
    using new by auto
  from map_of_snoc [OF this] show ?thesis
    using assms(1) new par by (simp add: g' causal_inv_def parents_earlier_snoc)
qed

lemma causal_reachable_inv: "causal_reachable g \<Longrightarrow> causal_inv g"
  by (induction rule: causal_reachable.induct)
     (auto intro: causal_append_inv, simp add: causal_default_def causal_inv_def parents_earlier_def)

text \<open>
  C7: In every graph the operations can build, an observation is rejected exactly when its
  identifier is taken, when it names itself as parent or when its parent is unknown: the
  ancestor walk terminates and never reports a cycle of its own.
\<close>

theorem causal_append_exact:
  assumes "causal_reachable g"
  shows "causal_append obs g =
     (if obs_id obs |\<in>| fmdom (parents g) then Inl CausalDuplicate
      else if obs_parent obs = Some (obs_id obs) then Inl CausalCycle
      else if \<exists>p. obs_parent obs = Some p \<and> p |\<notin>| fmdom (parents g) then Inl CausalMissingParent
      else Inr (g\<lparr>parents := fmupd (obs_id obs) (obs_parent obs) (parents g),
                  observations := observations g @ [obs]\<rparr>))"
  using causal_append_result [OF causal_reachable_inv [OF assms]] .

text \<open>
  In every graph the operations can build, identifiers are unique, the parent map agrees
  with the log and each parent is recorded before its child, so the causal order is acyclic.
\<close>

theorem causal_log_ordered:
  assumes "causal_reachable g"
  shows "distinct (map obs_id (observations g)) \<and> parents_earlier (observations g)
       \<and> fset (fmdom (parents g)) = obs_id ` set (observations g)"
  using causal_reachable_inv [OF assms] causal_inv_dom [of g] by (auto simp: causal_inv_def)

definition sample_obs :: "string \<Rightarrow> string option \<Rightarrow> causal_observation" where
  "sample_obs i p = \<lparr>obs_id = i, obs_parent = p, obs_kind = ''call'', evidence_digest = default_digest\<rparr>"

definition sample_graph :: causal_graph where
  "sample_graph = \<lparr>parents = fmupd ''b'' (Some ''a'') (fmupd ''a'' None fmempty),
                   observations = [sample_obs ''a'' None, sample_obs ''b'' (Some ''a'')]\<rparr>"

lemma sample_graph_reachable: "causal_reachable sample_graph"
proof -
  have "causal_append (sample_obs ''a'' None) causal_default
        = Inr \<lparr>parents = fmupd ''a'' None fmempty, observations = [sample_obs ''a'' None]\<rparr>"
    by (simp add: causal_append_def causal_default_def sample_obs_def)
  moreover have "causal_append (sample_obs ''b'' (Some ''a''))
        \<lparr>parents = fmupd ''a'' None fmempty, observations = [sample_obs ''a'' None]\<rparr>
        = Inr sample_graph"
    by (simp add: causal_append_def sample_graph_def sample_obs_def parent_of_def finds_cycle.simps(2))
  ultimately show ?thesis by (metis causal_empty causal_step)
qed

theorem causal_append_exact_witness:
  "causal_append (sample_obs ''c'' (Some ''x'')) sample_graph = Inl CausalMissingParent"
  by (subst causal_append_exact [OF sample_graph_reachable])
     (simp add: sample_obs_def sample_graph_def)

theorem causal_log_ordered_witness: "parents_earlier (observations sample_graph)"
  using causal_log_ordered [OF sample_graph_reachable] by simp

end
