(* ===== verification/Lease.thy ===== *)
theory Lease
  imports Context
begin

text \<open>
  Models \<open>crates/gaugemesh-core/src/lease.rs\<close>: capability leases, issued with a digest of
  all their terms and checked on every use. The random identifier of a new lease is an
  argument of \<open>lease_issue\<close>.
\<close>

record capability_lease =
  lease_id :: string
  lease_principal :: principal_id
  lease_tenant :: tenant_id
  request_identity :: string
  capabilities :: "capability_id list"
  lease_scope :: capability_scope
  expires_at :: u64
  lease_money :: u64
  lease_tokens :: u64
  lease_retries :: u16
  side_effects :: "side_effect_class fset"
  manifest :: sha256_digest

datatype lease_error =
    LeaseExpired | LeasePrincipal | LeaseTenant | LeaseCapability | LeaseStaleSchema | LeaseManifest

fun lease_error_code :: "lease_error \<Rightarrow> string" where
  "lease_error_code LeaseExpired = ''GM_LEASE_EXPIRED''"
| "lease_error_code LeasePrincipal = ''GM_LEASE_PRINCIPAL_MISMATCH''"
| "lease_error_code LeaseTenant = ''GM_LEASE_TENANT_MISMATCH''"
| "lease_error_code LeaseCapability = ''GM_LEASE_CAPABILITY_OUTSIDE_CONE''"
| "lease_error_code LeaseStaleSchema = ''GM_LEASE_STALE_SCHEMA''"
| "lease_error_code LeaseManifest = ''GM_LEASE_MANIFEST_TAMPERED''"

definition manifest_json :: "platform \<Rightarrow> capability_lease \<Rightarrow> json" where
  "manifest_json P l =
     JObj [(''principal'', JStr (lease_principal l)),
           (''tenant'', JStr (lease_tenant l)),
           (''requestIdentity'', JStr (request_identity l)),
           (''capabilities'', JArr (map (capability_json P) (capabilities l))),
           (''scope'', string_set_json (lease_scope l)),
           (''expiresAtUnixMs'', u64_json (expires_at l)),
           (''monetaryBudget'', u64_json (lease_money l)),
           (''tokenBudget'', u64_json (lease_tokens l)),
           (''retryBudget'', u16_json (lease_retries l)),
           (''sideEffects'', JArr (map (\<lambda>s. JStr (side_effect_name s))
                                     (sorted_list_of_fset (side_effects l))))]"

definition manifest_digest :: "platform \<Rightarrow> capability_lease \<Rightarrow> sha256_digest" where
  "manifest_digest P l = of_json P (manifest_json P l)"

text \<open>\<open>capabilities.sort(); capabilities.dedup()\<close>\<close>

definition sort_capabilities :: "capability_id list \<Rightarrow> capability_id list" where
  "sort_capabilities cs = remdups_adj (sort_key capability_key cs)"

text \<open>The terms of the lease are given as a record whose digest is still to be filled in.\<close>

definition issue_with_side_effects :: "platform \<Rightarrow> capability_lease \<Rightarrow> capability_lease" where
  "issue_with_side_effects P terms =
     (let l = terms\<lparr>capabilities := sort_capabilities (capabilities terms)\<rparr>
      in l\<lparr>manifest := manifest_digest P l\<rparr>)"

definition issue :: "platform \<Rightarrow> capability_lease \<Rightarrow> capability_lease" where
  "issue P terms = issue_with_side_effects P (terms\<lparr>side_effects := {|ReadOnly|}\<rparr>)"

definition same_native :: "capability_id \<Rightarrow> capability_id \<Rightarrow> bool" where
  "same_native a b \<longleftrightarrow>
     cap_source a = cap_source b \<and> cap_kind a = cap_kind b
     \<and> native_identity_digest a = native_identity_digest b"

definition authorize ::
  "platform \<Rightarrow> capability_lease \<Rightarrow> principal_id \<Rightarrow> tenant_id \<Rightarrow> capability_id \<Rightarrow> u64
   \<Rightarrow> (lease_error, unit) res" where
  "authorize P l p t cap now =
     (if now \<ge> expires_at l then Inl LeaseExpired
      else if p \<noteq> lease_principal l then Inl LeasePrincipal
      else if t \<noteq> lease_tenant l then Inl LeaseTenant
      else if manifest_digest P l \<noteq> manifest l then Inl LeaseManifest
      else case find (\<lambda>candidate. same_native candidate cap) (capabilities l) of
             None \<Rightarrow> Inl LeaseCapability
           | Some stored \<Rightarrow>
               if cap_schema_digest stored \<noteq> cap_schema_digest cap then Inl LeaseStaleSchema
               else if stored \<noteq> cap then Inl LeaseCapability
               else Inr ())"

definition authorize_invocation ::
  "platform \<Rightarrow> capability_lease \<Rightarrow> principal_id \<Rightarrow> tenant_id \<Rightarrow> capability_id
   \<Rightarrow> side_effect_class \<Rightarrow> u64 \<Rightarrow> (lease_error, unit) res" where
  "authorize_invocation P l p t cap effect now =
     rbind (authorize P l p t cap now) (\<lambda>_.
       if effect |\<in>| side_effects l then Inr () else Inl LeaseCapability)"

section \<open>The manifest\<close>

lemma canonical_manifest_json:
  "canonical_json (manifest_json P l) =
     JObj [(''capabilities'', JArr (map (\<lambda>c. canonical_json (capability_json P c)) (capabilities l))),
           (''expiresAtUnixMs'', u64_json (expires_at l)),
           (''monetaryBudget'', u64_json (lease_money l)),
           (''principal'', JStr (lease_principal l)),
           (''requestIdentity'', JStr (request_identity l)),
           (''retryBudget'', u16_json (lease_retries l)),
           (''scope'', string_set_json (lease_scope l)),
           (''sideEffects'', JArr (map (\<lambda>s. JStr (side_effect_name s))
                                     (sorted_list_of_fset (side_effects l)))),
           (''tenant'', JStr (lease_tenant l)),
           (''tokenBudget'', u64_json (lease_tokens l))]"
  by (simp add: manifest_json_def btree_collect_def less_char_def comp_def)

lemma capability_docs_inject:
  assumes "hex_roundtrip P"
    and "map (\<lambda>c. canonical_json (capability_json P c)) cs
       = map (\<lambda>c. canonical_json (capability_json P c)) ds"
  shows "cs = ds"
  using assms(2) by (rule map_injective) (simp add: inj_def capability_json_inject [OF assms(1)])

lemma effect_docs_inject:
  assumes "map (\<lambda>s. JStr (side_effect_name s)) (sorted_list_of_fset a)
         = map (\<lambda>s. JStr (side_effect_name s)) (sorted_list_of_fset b)"
  shows "a = b"
proof -
  have "sorted_list_of_fset a = sorted_list_of_fset b"
    using assms by (rule map_injective) (simp add: inj_def side_effect_name_inject)
  then show ?thesis by (metis sorted_list_of_fset_simps(2))
qed

text \<open>Equal in every term the manifest covers, that is in all but the identifier.\<close>

definition same_terms :: "capability_lease \<Rightarrow> capability_lease \<Rightarrow> bool" where
  "same_terms a b \<longleftrightarrow> a\<lparr>lease_id := [], manifest := default_digest\<rparr>
                     = b\<lparr>lease_id := [], manifest := default_digest\<rparr>"

lemma manifest_json_inject:
  assumes "hex_roundtrip P"
    and "canonical_json (manifest_json P a) = canonical_json (manifest_json P b)"
  shows "same_terms a b"
  using assms(2) capability_docs_inject [OF assms(1)] effect_docs_inject
  by (cases a; cases b) (auto simp: canonical_manifest_json same_terms_def)

lemma manifest_json_cong [simp]:
  "manifest_json P (l\<lparr>manifest := d\<rparr>) = manifest_json P l"
  "manifest_json P (l\<lparr>lease_id := i\<rparr>) = manifest_json P l"
  by (simp_all add: manifest_json_def)

lemma manifest_digest_cong [simp]: "manifest_digest P (l\<lparr>manifest := d\<rparr>) = manifest_digest P l"
  by (simp add: manifest_digest_def)

lemma issued_manifest: "manifest (issue_with_side_effects P t) = manifest_digest P (issue_with_side_effects P t)"
  by (simp add: issue_with_side_effects_def Let_def)

lemma issued_terms [simp]:
  "expires_at (issue_with_side_effects P t) = expires_at t"
  "lease_principal (issue_with_side_effects P t) = lease_principal t"
  "lease_tenant (issue_with_side_effects P t) = lease_tenant t"
  "side_effects (issue_with_side_effects P t) = side_effects t"
  "capabilities (issue_with_side_effects P t) = sort_capabilities (capabilities t)"
  by (simp_all add: issue_with_side_effects_def Let_def)

lemma set_sort_capabilities [simp]: "set (sort_capabilities cs) = set cs"
  by (simp add: sort_capabilities_def)

section \<open>Authorization\<close>

lemma authorize_Inr [guard_simps]:
  "authorize P l p t cap now = Inr u \<longleftrightarrow>
     now < expires_at l \<and> p = lease_principal l \<and> t = lease_tenant l
     \<and> manifest_digest P l = manifest l
     \<and> find (\<lambda>c. same_native c cap) (capabilities l) = Some cap"
  by (auto simp: authorize_def not_le split: option.splits)

text \<open>A lease whose capabilities are pairwise different native capabilities.\<close>

definition native_distinct :: "capability_lease \<Rightarrow> bool" where
  "native_distinct l \<longleftrightarrow>
     (\<forall>a \<in> set (capabilities l). \<forall>b \<in> set (capabilities l). same_native a b \<longrightarrow> a = b)"

lemma find_native:
  assumes "native_distinct l" "cap \<in> set (capabilities l)"
  shows "find (\<lambda>c. same_native c cap) (capabilities l) = Some cap"
proof -
  have "same_native cap cap" by (simp add: same_native_def)
  then obtain c where c: "find (\<lambda>c. same_native c cap) (capabilities l) = Some c"
    using assms(2) by (metis find_None_iff not_None_eq)
  from find_Some_first [OF this] have "c = cap"
    using assms by (auto simp: native_distinct_def)
  with c show ?thesis by simp
qed

lemma authorize_issued:
  assumes "native_distinct (issue_with_side_effects P t)"
  shows "authorize_invocation P (issue_with_side_effects P t) p te cap effect now = Inr ()
     \<longleftrightarrow> now < expires_at t \<and> p = lease_principal t \<and> te = lease_tenant t
       \<and> cap \<in> set (capabilities t) \<and> effect |\<in>| side_effects t"
  using find_native [OF assms, of cap]
  by (auto simp: authorize_invocation_def guard_simps issued_manifest [symmetric]
           dest: find_Some_first)

text \<open>
  C6: A lease authorizes an invocation exactly for its own principal and tenant, before its
  expiry, for a capability it lists and a side effect it allows, provided it does not list
  two versions of one native capability.
\<close>

theorem lease_authorizes_exactly:
  assumes "native_distinct (issue_with_side_effects P terms)"
  shows "(authorize_invocation P (issue_with_side_effects P terms) p te cap effect now = Inr ())
     = (now < expires_at terms \<and> p = lease_principal terms \<and> te = lease_tenant terms
        \<and> cap \<in> set (capabilities terms) \<and> effect |\<in>| side_effects terms)"
  using assms by (rule authorize_issued)

text \<open>
  C5: A lease that carries the manifest digest of an issued lease and is still accepted has
  exactly the terms that were issued, unless the two manifests are an explicit hash collision:
  no tampering with any field but the identifier goes unnoticed.
\<close>

theorem tampered_lease_rejected:
  assumes "hex_roundtrip P"
    and "manifest l' = manifest (issue_with_side_effects P terms)"
    and "authorize P l' p te cap now = Inr ()"
  shows "same_terms l' (issue_with_side_effects P terms)
     \<or> doc_collision P (manifest_json P l') (manifest_json P (issue_with_side_effects P terms))"
proof -
  have "of_json P (manifest_json P l')
      = of_json P (manifest_json P (issue_with_side_effects P terms))"
    using assms(2,3) by (simp add: guard_simps issued_manifest manifest_digest_def)
  from of_json_eq [OF this] show ?thesis
    using manifest_json_inject [OF assms(1)] by blast
qed

definition sample_lease_terms :: capability_lease where
  "sample_lease_terms =
     \<lparr>lease_id = ''l1'', lease_principal = ''alice'', lease_tenant = ''acme'',
      request_identity = ''r1'', capabilities = [sample_capability ''docs-a'' ''search''],
      lease_scope = {||}, expires_at = 1000, lease_money = 5, lease_tokens = 7, lease_retries = 1,
      side_effects = {|ReadOnly|}, manifest = default_digest\<rparr>"

lemma sample_lease_distinct: "native_distinct (issue_with_side_effects P sample_lease_terms)"
  by (simp add: native_distinct_def sample_lease_terms_def sort_capabilities_def)

theorem lease_authorizes_exactly_witness:
  "authorize_invocation sample_platform (issue_with_side_effects sample_platform sample_lease_terms)
     ''alice'' ''acme'' (sample_capability ''docs-a'' ''search'') ReadOnly 999 = Inr ()"
  by (subst lease_authorizes_exactly [OF sample_lease_distinct]) (simp add: sample_lease_terms_def)

theorem tampered_lease_rejected_witness:
  "same_terms (issue_with_side_effects sample_platform sample_lease_terms)
     (issue_with_side_effects sample_platform sample_lease_terms)
   \<or> doc_collision sample_platform
       (manifest_json sample_platform (issue_with_side_effects sample_platform sample_lease_terms))
       (manifest_json sample_platform (issue_with_side_effects sample_platform sample_lease_terms))"
  by (rule tampered_lease_rejected [where p = "''alice''" and te = "''acme''" and now = 1
        and cap = "sample_capability ''docs-a'' ''search''"])
     (simp_all add: guard_simps issued_manifest [symmetric] find_native sample_lease_distinct,
      simp_all add: sample_lease_terms_def sort_capabilities_def same_native_def)

end
