(* ===== verification/Model_Cost.thy ===== *)
theory Model_Cost
  imports Digest
begin

text \<open>
  Models \<open>crates/gaugemesh-core/src/model.rs\<close>: the identity, cost table and budget of a
  model route, the cost estimate in saturating \<open>u64\<close> arithmetic and the budget check.
\<close>

record model_identity =
  provider :: string
  endpoint_identity :: sha256_digest
  provider_model_id :: string
  capability_set :: "string list"
  context_limit :: u64
  tool_call_support :: bool
  structured_output_support :: bool
  streaming_support :: bool
  cost_table_version :: string
  policy_digest :: sha256_digest

definition model_identity_json :: "platform \<Rightarrow> model_identity \<Rightarrow> json" where
  "model_identity_json P m =
     JObj [(''provider'', JStr (provider m)),
           (''endpoint_identity'', digest_json P (endpoint_identity m)),
           (''provider_model_id'', JStr (provider_model_id m)),
           (''capability_set'', JArr (map JStr (capability_set m))),
           (''context_limit'', JNum (PosInt (context_limit m))),
           (''tool_call_support'', JBool (tool_call_support m)),
           (''structured_output_support'', JBool (structured_output_support m)),
           (''streaming_support'', JBool (streaming_support m)),
           (''cost_table_version'', JStr (cost_table_version m)),
           (''policy_digest'', digest_json P (policy_digest m))]"

definition model_identity_digest :: "platform \<Rightarrow> model_identity \<Rightarrow> sha256_digest" where
  "model_identity_digest P m = of_json P (model_identity_json P m)"

record cost_table =
  cost_version :: string
  input_micros_per_million_tokens :: u64
  output_micros_per_million_tokens :: u64

record model_budget =
  max_input_tokens :: u64
  max_output_tokens :: u64
  model_money_micros :: u64
  deadline_remaining_ms :: u64
  tool_loop_limit :: u16
  retry_limit :: u16
  provider_allowlist :: "string list"
  model_allowlist :: "string list"

datatype tool_mode = ToolOff | ToolTransparent | ToolLease

datatype approval_mode = ApprovalDeny | StaticPolicy | LocalCli | SignedWebhook

definition tool_mode_default :: tool_mode where
  "tool_mode_default = ToolOff"

definition approval_mode_default :: approval_mode where
  "approval_mode_default = ApprovalDeny"

datatype model_route_error =
    ModelNotAllowed | ProviderNotAllowed | InputTokens | OutputTokens | ModelMoney
  | ModelDeadline | ToolLoop

definition estimate_cost_micros :: "u64 \<Rightarrow> u64 \<Rightarrow> cost_table \<Rightarrow> u64" where
  "estimate_cost_micros input output table =
     saturating_add
       (saturating_add (saturating_mul input (input_micros_per_million_tokens table))
                       (saturating_mul output (output_micros_per_million_tokens table)))
       999999 div 1000000"

definition enforce_budget ::
  "model_identity \<Rightarrow> cost_table \<Rightarrow> model_budget \<Rightarrow> u64 \<Rightarrow> u64 \<Rightarrow> tool_mode
   \<Rightarrow> (model_route_error, u64) res" where
  "enforce_budget m table b estimated_input requested_output mode =
     (if provider_allowlist b \<noteq> [] \<and> provider m \<notin> set (provider_allowlist b)
      then Inl ProviderNotAllowed
      else if model_allowlist b \<noteq> [] \<and> provider_model_id m \<notin> set (model_allowlist b)
      then Inl ModelNotAllowed
      else if estimated_input > max_input_tokens b \<or> estimated_input > context_limit m
      then Inl InputTokens
      else if requested_output > max_output_tokens b then Inl OutputTokens
      else if deadline_remaining_ms b = 0 then Inl ModelDeadline
      else if mode \<noteq> ToolOff \<and> tool_loop_limit b = 0 then Inl ToolLoop
      else let estimated = estimate_cost_micros estimated_input requested_output table in
        if estimated > model_money_micros b then Inl ModelMoney else Inr estimated)"

text \<open>The price in micros before rounding to whole micros, in millionths.\<close>

definition exact_price :: "u64 \<Rightarrow> u64 \<Rightarrow> cost_table \<Rightarrow> nat" where
  "exact_price input output table =
     unat input * unat (input_micros_per_million_tokens table)
     + unat output * unat (output_micros_per_million_tokens table)"

lemma unat_estimate:
  "unat (estimate_cost_micros i out table)
     = min (min (min (unat i * unat (input_micros_per_million_tokens table)) (2 ^ 64 - 1)
              + min (unat out * unat (output_micros_per_million_tokens table)) (2 ^ 64 - 1)) (2 ^ 64 - 1)
            + 999999) (2 ^ 64 - 1) div 1000000"
  by (simp add: estimate_cost_micros_def unat_div unat_saturating_add unat_saturating_mul)

lemma estimate_exact:
  assumes "exact_price i out table + 999999 < 2 ^ 64"
  shows "unat (estimate_cost_micros i out table) = (exact_price i out table + 999999) div 1000000"
  using assms unfolding unat_estimate exact_price_def by (simp add: min_def)

lemma estimate_saturated:
  assumes "exact_price i out table + 999999 \<ge> 2 ^ 64"
  shows "unat (estimate_cost_micros i out table) = 18446744073709"
  using assms unfolding unat_estimate exact_price_def by (auto simp: min_def)

text \<open>
  The cost estimate is the exact price rounded up to whole micros while that price fits in
  64 bits, and the constant 18446744073709, not more, for every larger price.
\<close>

theorem estimate_cost_exact_or_saturated:
  "unat (estimate_cost_micros input output table) =
     (if exact_price input output table + 999999 < 2 ^ 64
      then (exact_price input output table + 999999) div 1000000
      else 18446744073709)"
  using estimate_exact estimate_saturated by (simp add: not_less)

text \<open>
  A model call the budget check admits is on both allowlists, within both token limits and
  the context limit, before the deadline, and its exact price in millionths is covered by the
  money budget as long as that budget is below the saturation point of the estimate.
\<close>

theorem enforce_budget_sound:
  assumes "enforce_budget m table b input output mode = Inr estimated"
    and "unat (model_money_micros b) < 18446744073709"
  shows "exact_price input output table \<le> unat (model_money_micros b) * 1000000
     \<and> unat estimated = (exact_price input output table + 999999) div 1000000
     \<and> input \<le> max_input_tokens b \<and> input \<le> context_limit m \<and> output \<le> max_output_tokens b
     \<and> 0 < deadline_remaining_ms b \<and> (mode = ToolOff \<or> 0 < tool_loop_limit b)
     \<and> (provider_allowlist b = [] \<or> provider m \<in> set (provider_allowlist b))
     \<and> (model_allowlist b = [] \<or> provider_model_id m \<in> set (model_allowlist b))"
proof -
  have est: "estimated = estimate_cost_micros input output table"
    and le: "unat estimated \<le> unat (model_money_micros b)"
    using assms(1) by (auto simp: enforce_budget_def Let_def not_less word_le_nat_alt split: if_splits)
  have "exact_price input output table + 999999 < 2 ^ 64"
  proof (rule ccontr)
    assume "\<not> exact_price input output table + 999999 < 2 ^ 64"
    then have "unat (estimate_cost_micros input output table) = 18446744073709"
      by (intro estimate_saturated) simp
    with est le assms(2) show False by simp
  qed
  from estimate_exact [OF this] est
  have eq: "unat estimated = (exact_price input output table + 999999) div 1000000" by simp
  then have "exact_price input output table \<le> unat (model_money_micros b) * 1000000"
    using le by linarith
  with eq assms(1) show ?thesis
    by (auto simp: enforce_budget_def Let_def not_less word_neq_0_conv split: if_splits)
qed

definition sample_model :: model_identity where
  "sample_model = \<lparr>provider = ''local'', endpoint_identity = default_digest,
     provider_model_id = ''m'', capability_set = [], context_limit = 8192,
     tool_call_support = True, structured_output_support = False, streaming_support = False,
     cost_table_version = ''v1'', policy_digest = default_digest\<rparr>"

theorem enforce_budget_sound_witness:
  "exact_price 1000 500 \<lparr>cost_version = ''v1'', input_micros_per_million_tokens = 3000000,
     output_micros_per_million_tokens = 15000000\<rparr> \<le> unat (20000 :: u64) * 1000000"
  using enforce_budget_sound [of sample_model "\<lparr>cost_version = ''v1'',
      input_micros_per_million_tokens = 3000000, output_micros_per_million_tokens = 15000000\<rparr>"
      "\<lparr>max_input_tokens = 4096, max_output_tokens = 1024, model_money_micros = 20000,
        deadline_remaining_ms = 1, tool_loop_limit = 1, retry_limit = 0,
        provider_allowlist = [], model_allowlist = [''m'']\<rparr>" 1000 500 ToolLease 10500]
  by (simp add: enforce_budget_def sample_model_def estimate_cost_micros_def saturating_add_def
      saturating_mul_def)

end
