(* ===== verification/Route.thy ===== *)
theory Route
  imports Context
begin

text \<open>
  Models \<open>crates/gaugemesh-core/src/route.rs\<close>: scoring of route candidates, the decision with
  its explanation and digests, and the verification of a decision's integrity. Scores are
  \<open>u64\<close> sums of products of \<open>u32\<close> values; the checks on the inputs keep them below
  \<open>MAX_ACTION_SCORE\<close>, so the unchecked products of the code never wrap.
\<close>

definition MAX_SCORE_TERM :: u64 where
  "MAX_SCORE_TERM = 100000000"

definition MAX_ACTION_SCORE :: u64 where
  "MAX_ACTION_SCORE = 7 * MAX_SCORE_TERM"

type_synonym route_id = string

record constraint_result =
  allowed :: bool
  rejections :: "string list"

record route_metrics =
  m_latency :: u32
  m_cost :: u32
  m_failure :: u32
  m_pressure :: u32
  m_exposure :: u32
  m_switching :: u32

datatype route_error =
    NoEligibleCandidate | MetricOutOfRange | DuplicateRouteId | InvalidRouteId
  | RejectionRequired | DecisionDigestMismatch | DecisionContractInvalid
  | DecisionScoreOutOfRange | UnsupportedDecisionSchema

definition metrics_in_range :: "route_metrics \<Rightarrow> bool" where
  "metrics_in_range m \<longleftrightarrow>
     list_all (\<lambda>x. x \<le> 10000)
       [m_latency m, m_cost m, m_failure m, m_pressure m, m_exposure m, m_switching m]"

definition metrics_validate :: "route_metrics \<Rightarrow> (route_error, route_metrics) res" where
  "metrics_validate m = (if metrics_in_range m then Inr m else Inl MetricOutOfRange)"

record route_weights =
  w_latency :: u32
  w_cost :: u32
  w_failure :: u32
  w_semantic_loss :: u32
  w_pressure :: u32
  w_exposure :: u32
  w_switching :: u32

record route_candidate =
  route_id :: route_id
  endpoint_id :: string
  hard_constraints :: constraint_result
  metrics :: route_metrics
  semantic_loss :: u32

record score_terms =
  t_latency :: u64
  t_cost :: u64
  t_failure :: u64
  t_semantic_loss :: u64
  t_pressure :: u64
  t_exposure :: u64
  t_switching :: u64

definition term_list :: "score_terms \<Rightarrow> u64 list" where
  "term_list t = [t_latency t, t_cost t, t_failure t, t_semantic_loss t, t_pressure t,
                  t_exposure t, t_switching t]"

text \<open>\<open>try_fold(0, u64::checked_add)\<close>\<close>

fun checked_sum :: "u64 \<Rightarrow> u64 list \<Rightarrow> u64 option" where
  "checked_sum acc [] = Some acc"
| "checked_sum acc (x # xs) = Option.bind (checked_add acc x) (\<lambda>s. checked_sum s xs)"

definition score_total :: "score_terms \<Rightarrow> (route_error, u64) res" where
  "score_total t =
     (if list_ex (\<lambda>x. x > MAX_SCORE_TERM) (term_list t) then Inl DecisionScoreOutOfRange
      else ok_or (checked_sum 0 (term_list t)) DecisionScoreOutOfRange)"

record candidate_explanation =
  expl_route :: route_id
  expl_allowed :: bool
  expl_rejections :: "string list"
  expl_terms :: "score_terms option"

record route_explanation =
  expl_candidates :: "candidate_explanation list"
  expl_selected :: route_id
  tie_breaker :: string

record route_plan =
  selected :: route_id
  action_score :: u64
  explanation :: route_explanation
  snapshot_digest :: sha256_digest
  plan_policy_digest :: sha256_digest
  metric_snapshot_digest :: sha256_digest

datatype route_denial_code = DenialNoEligibleCandidate

record route_denial =
  denial_code :: route_denial_code
  denial_candidates :: "candidate_explanation list"
  denial_snapshot_digest :: sha256_digest
  denial_policy_digest :: sha256_digest
  denial_metric_digest :: sha256_digest

datatype route_decision =
    Selected u16 sha256_digest route_plan
  | Denied u16 sha256_digest route_denial

fun decision_digest :: "route_decision \<Rightarrow> sha256_digest" where
  "decision_digest (Selected _ d _) = d"
| "decision_digest (Denied _ d _) = d"

section \<open>Serialized forms\<close>

definition u32_json :: "u32 \<Rightarrow> json" where
  "u32_json n = JNum (PosInt (ucast n))"

definition constraint_json :: "constraint_result \<Rightarrow> json" where
  "constraint_json c =
     JObj [(''allowed'', JBool (allowed c)), (''rejections'', JArr (map JStr (rejections c)))]"

definition metrics_json :: "route_metrics \<Rightarrow> json" where
  "metrics_json m =
     JObj [(''latency'', u32_json (m_latency m)), (''cost'', u32_json (m_cost m)),
           (''failure'', u32_json (m_failure m)), (''pressure'', u32_json (m_pressure m)),
           (''exposure'', u32_json (m_exposure m)), (''switching'', u32_json (m_switching m))]"

definition weights_json :: "route_weights \<Rightarrow> json" where
  "weights_json w =
     JObj [(''latency'', u32_json (w_latency w)), (''cost'', u32_json (w_cost w)),
           (''failure'', u32_json (w_failure w)), (''semantic_loss'', u32_json (w_semantic_loss w)),
           (''pressure'', u32_json (w_pressure w)), (''exposure'', u32_json (w_exposure w)),
           (''switching'', u32_json (w_switching w))]"

definition candidate_json :: "route_candidate \<Rightarrow> json" where
  "candidate_json c =
     JObj [(''route_id'', JStr (route_id c)), (''endpoint_id'', JStr (endpoint_id c)),
           (''hard_constraints'', constraint_json (hard_constraints c)),
           (''metrics'', metrics_json (metrics c)), (''semantic_loss'', u32_json (semantic_loss c))]"

definition terms_json :: "score_terms \<Rightarrow> json" where
  "terms_json t =
     JObj [(''latency'', u64_json (t_latency t)), (''cost'', u64_json (t_cost t)),
           (''failure'', u64_json (t_failure t)), (''semantic_loss'', u64_json (t_semantic_loss t)),
           (''pressure'', u64_json (t_pressure t)), (''exposure'', u64_json (t_exposure t)),
           (''switching'', u64_json (t_switching t))]"

definition explanation_json :: "candidate_explanation \<Rightarrow> json" where
  "explanation_json e =
     JObj [(''route_id'', JStr (expl_route e)), (''allowed'', JBool (expl_allowed e)),
           (''rejections'', JArr (map JStr (expl_rejections e))),
           (''terms'', opt_json terms_json (expl_terms e))]"

definition plan_json :: "platform \<Rightarrow> route_plan \<Rightarrow> json" where
  "plan_json P p =
     JObj [(''selected'', JStr (selected p)), (''action_score'', u64_json (action_score p)),
           (''explanation'',
             JObj [(''candidates'', JArr (map explanation_json (expl_candidates (explanation p)))),
                   (''selected'', JStr (expl_selected (explanation p))),
                   (''tie_breaker'', JStr (tie_breaker (explanation p)))]),
           (''snapshot_digest'', digest_json P (snapshot_digest p)),
           (''route_policy_digest'', digest_json P (plan_policy_digest p)),
           (''metric_snapshot_digest'', digest_json P (metric_snapshot_digest p))]"

definition denial_json :: "platform \<Rightarrow> route_denial \<Rightarrow> json" where
  "denial_json P d =
     JObj [(''code'', JStr ''GM_ROUTE_NO_ELIGIBLE_CANDIDATE''),
           (''candidates'', JArr (map explanation_json (denial_candidates d))),
           (''snapshot_digest'', digest_json P (denial_snapshot_digest d)),
           (''route_policy_digest'', digest_json P (denial_policy_digest d)),
           (''metric_snapshot_digest'', digest_json P (denial_metric_digest d))]"

definition selected_doc :: "platform \<Rightarrow> u16 \<Rightarrow> route_plan \<Rightarrow> json" where
  "selected_doc P v p =
     JObj [(''status'', JStr ''selected''), (''schema_version'', u16_json v), (''plan'', plan_json P p)]"

definition denied_doc :: "platform \<Rightarrow> u16 \<Rightarrow> route_denial \<Rightarrow> json" where
  "denied_doc P v d =
     JObj [(''status'', JStr ''denied''), (''schema_version'', u16_json v), (''denial'', denial_json P d)]"

definition selected_digest :: "platform \<Rightarrow> u16 \<Rightarrow> route_plan \<Rightarrow> sha256_digest" where
  "selected_digest P v p = of_json P (selected_doc P v p)"

definition denied_digest :: "platform \<Rightarrow> u16 \<Rightarrow> route_denial \<Rightarrow> sha256_digest" where
  "denied_digest P v d = of_json P (denied_doc P v d)"

section \<open>Deciding\<close>

definition weight_list :: "route_weights \<Rightarrow> u32 list" where
  "weight_list w = [w_latency w, w_cost w, w_failure w, w_semantic_loss w, w_pressure w,
                    w_exposure w, w_switching w]"

definition widen :: "u32 \<Rightarrow> u64" where
  "widen = ucast"

definition score_terms_of :: "route_weights \<Rightarrow> route_candidate \<Rightarrow> score_terms" where
  "score_terms_of w c =
     (let m = metrics c in
      \<lparr>t_latency = widen (w_latency w) * widen (m_latency m),
       t_cost = widen (w_cost w) * widen (m_cost m),
       t_failure = widen (w_failure w) * widen (m_failure m),
       t_semantic_loss = widen (w_semantic_loss w) * widen (semantic_loss c),
       t_pressure = widen (w_pressure w) * widen (m_pressure m),
       t_exposure = widen (w_exposure w) * widen (m_exposure m),
       t_switching = widen (w_switching w) * widen (m_switching m)\<rparr>)"

text \<open>The loop that sorts and deduplicates the rejections of denied candidates.\<close>

definition normalize_candidate :: "route_candidate \<Rightarrow> (route_error, route_candidate) res" where
  "normalize_candidate c =
     (if allowed (hard_constraints c) then Inr c
      else if rejections (hard_constraints c) = [] \<or> list_ex blank (rejections (hard_constraints c))
      then Inl RejectionRequired
      else Inr (c\<lparr>hard_constraints := (hard_constraints c)
                    \<lparr>rejections := sort_dedup (rejections (hard_constraints c))\<rparr>\<rparr>))"

text \<open>The body of the scoring loop: the explanation and, for an allowed candidate, its rank.\<close>

definition explain_candidate ::
  "route_weights \<Rightarrow> route_candidate
   \<Rightarrow> (route_error, candidate_explanation \<times> (u64 \<times> route_id) option) res" where
  "explain_candidate w c =
     (if \<not> allowed (hard_constraints c)
      then Inr (\<lparr>expl_route = route_id c, expl_allowed = False,
                 expl_rejections = rejections (hard_constraints c), expl_terms = None\<rparr>, None)
      else rbind (metrics_validate (metrics c)) (\<lambda>_.
           let terms = score_terms_of w c in
           rbind (score_total terms) (\<lambda>total.
             Inr (\<lparr>expl_route = route_id c, expl_allowed = True, expl_rejections = [],
                   expl_terms = Some terms\<rparr>, Some (total, route_id c)))))"

definition snapshot_doc :: "route_candidate list \<Rightarrow> route_weights \<Rightarrow> json" where
  "snapshot_doc cs w = JArr [JArr (map candidate_json cs), weights_json w]"

definition metric_snapshot_doc :: "route_candidate list \<Rightarrow> json" where
  "metric_snapshot_doc cs =
     JArr (map (\<lambda>c. JArr [JStr (route_id c), JStr (endpoint_id c), metrics_json (metrics c),
                          u32_json (semantic_loss c)]) cs)"

definition tie_breaker_text :: string where
  "tie_breaker_text = ''lexicographically smallest stable route_id''"

text \<open>The part of \<open>decide\<close> after the checks, on the sorted and normalized candidates.\<close>

definition decide_sorted ::
  "platform \<Rightarrow> route_candidate list \<Rightarrow> route_weights \<Rightarrow> (route_error, route_decision) res" where
  "decide_sorted P cs w =
     (let snapshot = of_json P (snapshot_doc cs w);
          policy = of_json P (weights_json w);
          metric = of_json P (metric_snapshot_doc cs) in
      rbind (try_map (explain_candidate w) cs) (\<lambda>rows.
        case sort (List.map_filter snd rows) of
          [] \<Rightarrow>
            let denial = \<lparr>denial_code = DenialNoEligibleCandidate, denial_candidates = map fst rows,
                          denial_snapshot_digest = snapshot, denial_policy_digest = policy,
                          denial_metric_digest = metric\<rparr>
            in Inr (Denied 1 (denied_digest P 1 denial) denial)
        | (score, best) # _ \<Rightarrow>
            let p = \<lparr>selected = best, action_score = score,
                     explanation = \<lparr>expl_candidates = map fst rows, expl_selected = best,
                                    tie_breaker = tie_breaker_text\<rparr>,
                     snapshot_digest = snapshot, plan_policy_digest = policy,
                     metric_snapshot_digest = metric\<rparr>
            in Inr (Selected 1 (selected_digest P 1 p) p)))"

definition decide ::
  "platform \<Rightarrow> route_candidate list \<Rightarrow> route_weights \<Rightarrow> (route_error, route_decision) res" where
  "decide P candidates w =
     (if list_ex (\<lambda>x. x > 10000) (weight_list w)
         \<or> list_ex (\<lambda>c. semantic_loss c > 10000) candidates
      then Inl MetricOutOfRange
      else if list_ex (\<lambda>c. route_id c = []) candidates then Inl InvalidRouteId
      else
        let cs = sort_key route_id candidates in
        if any_adjacent (\<lambda>a b. route_id a = route_id b) cs then Inl DuplicateRouteId
        else rbind (try_map normalize_candidate cs) (\<lambda>ns. decide_sorted P ns w))"

definition plan ::
  "platform \<Rightarrow> route_candidate list \<Rightarrow> route_weights \<Rightarrow> (route_error, route_plan) res" where
  "plan P cs w =
     rbind (decide P cs w) (\<lambda>d.
       case d of Selected _ _ p \<Rightarrow> Inr p | Denied _ _ _ \<Rightarrow> Inl NoEligibleCandidate)"

section \<open>Verifying a decision\<close>

definition validate_explanation :: "bool \<Rightarrow> candidate_explanation \<Rightarrow> (route_error, unit) res" where
  "validate_explanation require_all_denied e =
     (if expl_route e = [] then Inl DecisionContractInvalid
      else if expl_allowed e then
        (if require_all_denied then Inl DecisionContractInvalid
         else if expl_rejections e \<noteq> [] then Inl DecisionContractInvalid
         else if expl_terms e = None then Inl DecisionContractInvalid
         else Inr ())
      else if expl_terms e \<noteq> None then Inl DecisionContractInvalid
      else if expl_rejections e = [] then Inl DecisionContractInvalid
      else if list_ex blank (expl_rejections e) then Inl DecisionContractInvalid
      else if any_adjacent (\<lambda>a b. a \<ge> b) (expl_rejections e) then Inl DecisionContractInvalid
      else Inr ())"

definition validate_explanations ::
  "candidate_explanation list \<Rightarrow> bool \<Rightarrow> (route_error, unit) res" where
  "validate_explanations es require_all_denied =
     (if any_adjacent (\<lambda>a b. expl_route a \<ge> expl_route b) es then Inl DecisionContractInvalid
      else try_each (validate_explanation require_all_denied) es)"

text \<open>The scores of the candidates that carry terms.\<close>

fun rank_explanations :: "candidate_explanation list \<Rightarrow> (route_error, (u64 \<times> route_id) list) res" where
  "rank_explanations [] = Inr []"
| "rank_explanations (e # es) =
     (case expl_terms e of
        None \<Rightarrow> rank_explanations es
      | Some t \<Rightarrow>
          rbind (score_total t) (\<lambda>s.
          rbind (rank_explanations es) (\<lambda>rs. Inr ((s, expl_route e) # rs))))"

definition verify_plan :: "route_plan \<Rightarrow> (route_error, unit) res" where
  "verify_plan p =
     rbind (ensure (\<not> action_score p > MAX_ACTION_SCORE) DecisionScoreOutOfRange) (\<lambda>_.
     rbind (ensure (selected p = expl_selected (explanation p)) DecisionContractInvalid) (\<lambda>_.
     rbind (ensure (tie_breaker (explanation p) = tie_breaker_text) DecisionContractInvalid) (\<lambda>_.
     rbind (ok_or (find (\<lambda>e. expl_route e = selected p) (expl_candidates (explanation p)))
              DecisionContractInvalid) (\<lambda>sel.
     rbind (ok_or (expl_terms sel) DecisionContractInvalid) (\<lambda>terms.
     rbind (score_total terms) (\<lambda>selected_score.
     rbind (ensure (expl_allowed sel) DecisionContractInvalid) (\<lambda>_.
     rbind (ensure (expl_rejections sel = []) DecisionContractInvalid) (\<lambda>_.
     rbind (ensure (selected_score = action_score p) DecisionContractInvalid) (\<lambda>_.
     rbind (rank_explanations (expl_candidates (explanation p))) (\<lambda>ranked.
       ensure (case sort ranked of [] \<Rightarrow> False | r # _ \<Rightarrow> r = (action_score p, selected p))
         DecisionContractInvalid))))))))))"

definition verify_integrity :: "platform \<Rightarrow> route_decision \<Rightarrow> (route_error, unit) res" where
  "verify_integrity P d =
     (case d of
        Selected v digest p \<Rightarrow>
          rbind (ensure (digest = selected_digest P v p) DecisionDigestMismatch) (\<lambda>_.
          rbind (verify_plan p) (\<lambda>_.
          rbind (ensure (v = 1) UnsupportedDecisionSchema) (\<lambda>_.
            validate_explanations (expl_candidates (explanation p)) False)))
      | Denied v digest den \<Rightarrow>
          rbind (ensure (digest = denied_digest P v den) DecisionDigestMismatch) (\<lambda>_.
          rbind (ensure (v = 1) UnsupportedDecisionSchema) (\<lambda>_.
            validate_explanations (denial_candidates den) True)))"

section \<open>Scores do not wrap\<close>

definition exact_score :: "route_weights \<Rightarrow> route_candidate \<Rightarrow> nat" where
  "exact_score w c =
     (let m = metrics c in
      unat (w_latency w) * unat (m_latency m) + unat (w_cost w) * unat (m_cost m)
      + unat (w_failure w) * unat (m_failure m) + unat (w_semantic_loss w) * unat (semantic_loss c)
      + unat (w_pressure w) * unat (m_pressure m) + unat (w_exposure w) * unat (m_exposure m)
      + unat (w_switching w) * unat (m_switching m))"

lemma unat_term:
  fixes a b :: u32
  assumes "a \<le> 10000" "b \<le> 10000"
  shows "unat (widen a * widen b) = unat a * unat b" "unat a * unat b \<le> 100000000"
proof -
  have "unat a \<le> 10000" "unat b \<le> 10000" using assms by (simp_all add: word_le_nat_alt)
  then have "unat a * unat b \<le> 10000 * 10000" by (rule mult_le_mono)
  then show "unat a * unat b \<le> 100000000" by simp
  then show "unat (widen a * widen b) = unat a * unat b"
    by (simp add: widen_def unat_word_ariths unat_widen)
qed

lemma checked_sum_exact:
  "checked_sum acc xs = Some s \<longleftrightarrow>
     unat acc + (\<Sum>x\<leftarrow>xs. unat x) < 2 ^ 64 \<and> unat s = unat acc + (\<Sum>x\<leftarrow>xs. unat x)"
proof (induction xs arbitrary: acc)
  case Nil
  then show ?case using unat_bound [of acc] by (auto simp: word_unat_eq_iff)
next
  case (Cons x xs)
  show ?case
  proof (cases "checked_add acc x")
    case None
    then show ?thesis by (auto simp: checked_add_def split: if_splits)
  next
    case (Some t)
    with checked_add_SomeD [OF Some] Cons.IH [of t] show ?thesis by (simp add: add.assoc)
  qed
qed

definition weights_in_range :: "route_weights \<Rightarrow> bool" where
  "weights_in_range w \<longleftrightarrow> list_all (\<lambda>x. x \<le> 10000) (weight_list w)"

lemma score_in_range:
  assumes "weights_in_range w" "metrics_in_range (metrics c)" "semantic_loss c \<le> 10000"
  obtains s where "score_total (score_terms_of w c) = Inr s" "unat s = exact_score w c"
    "exact_score w c \<le> 700000000" "list_all (\<lambda>x. x \<le> MAX_SCORE_TERM) (term_list (score_terms_of w c))"
proof -
  note r = assms [unfolded weights_in_range_def weight_list_def metrics_in_range_def, simplified]
  note t = unat_term [of "w_latency w" "m_latency (metrics c)"]
    unat_term [of "w_cost w" "m_cost (metrics c)"]
    unat_term [of "w_failure w" "m_failure (metrics c)"]
    unat_term [of "w_semantic_loss w" "semantic_loss c"]
    unat_term [of "w_pressure w" "m_pressure (metrics c)"]
    unat_term [of "w_exposure w" "m_exposure (metrics c)"]
    unat_term [of "w_switching w" "m_switching (metrics c)"]
  have sum: "(\<Sum>x\<leftarrow>term_list (score_terms_of w c). unat x) = exact_score w c"
    using r t by (simp add: term_list_def score_terms_of_def exact_score_def Let_def)
  have le: "exact_score w c \<le> 700000000"
    using r t by (simp add: exact_score_def Let_def)
  have small: "list_all (\<lambda>x. x \<le> MAX_SCORE_TERM) (term_list (score_terms_of w c))"
    using r t by (simp add: term_list_def score_terms_of_def Let_def MAX_SCORE_TERM_def word_le_nat_alt)
  have "unat (word_of_nat (exact_score w c) :: u64) = exact_score w c"
    using le by (simp add: unat_of_nat)
  with sum le have "checked_sum 0 (term_list (score_terms_of w c)) = Some (word_of_nat (exact_score w c))"
    by (simp add: checked_sum_exact)
  with small have "score_total (score_terms_of w c) = Inr (word_of_nat (exact_score w c))"
    by (auto simp: score_total_def list_ex_iff list_all_iff not_less)
  with le small \<open>unat _ = _\<close> that show ?thesis by blast
qed

section \<open>What a decision is\<close>

definition candidate_valid :: "route_candidate \<Rightarrow> bool" where
  "candidate_valid c \<longleftrightarrow>
     semantic_loss c \<le> 10000 \<and> route_id c \<noteq> []
     \<and> (if allowed (hard_constraints c) then metrics_in_range (metrics c)
        else rejections (hard_constraints c) \<noteq> []
             \<and> \<not> list_ex blank (rejections (hard_constraints c)))"

definition valid_input :: "route_candidate list \<Rightarrow> route_weights \<Rightarrow> bool" where
  "valid_input cs w \<longleftrightarrow>
     weights_in_range w \<and> (\<forall>c \<in> set cs. candidate_valid c) \<and> distinct (map route_id cs)"

definition normalized :: "route_candidate \<Rightarrow> route_candidate" where
  "normalized c =
     (if allowed (hard_constraints c) then c
      else c\<lparr>hard_constraints := (hard_constraints c)
               \<lparr>rejections := sort_dedup (rejections (hard_constraints c))\<rparr>\<rparr>)"

lemma normalized_fields [simp]:
  "route_id (normalized c) = route_id c"
  "semantic_loss (normalized c) = semantic_loss c"
  "metrics (normalized c) = metrics c"
  "allowed (hard_constraints (normalized c)) = allowed (hard_constraints c)"
  "score_terms_of w (normalized c) = score_terms_of w c"
  by (simp_all add: normalized_def score_terms_of_def)

lemma normalize_candidate_Inr:
  "normalize_candidate c = Inr d \<longleftrightarrow>
     d = normalized c \<and> (allowed (hard_constraints c)
        \<or> rejections (hard_constraints c) \<noteq> [] \<and> \<not> list_ex blank (rejections (hard_constraints c)))"
  by (auto simp: normalize_candidate_def normalized_def)

definition explained :: "route_weights \<Rightarrow> route_candidate \<Rightarrow> candidate_explanation" where
  "explained w c =
     (if allowed (hard_constraints c)
      then \<lparr>expl_route = route_id c, expl_allowed = True, expl_rejections = [],
            expl_terms = Some (score_terms_of w c)\<rparr>
      else \<lparr>expl_route = route_id c, expl_allowed = False,
            expl_rejections = sort_dedup (rejections (hard_constraints c)), expl_terms = None\<rparr>)"

definition rank_of :: "route_weights \<Rightarrow> route_candidate \<Rightarrow> u64 \<times> route_id" where
  "rank_of w c = (word_of_nat (exact_score w c), route_id c)"

lemma score_total_valid:
  assumes "weights_in_range w" "candidate_valid c" "allowed (hard_constraints c)"
  shows "score_total (score_terms_of w c) = Inr (word_of_nat (exact_score w c))"
    and "exact_score w c \<le> 700000000"
proof -
  obtain s where s: "score_total (score_terms_of w c) = Inr s" "unat s = exact_score w c"
    and le: "exact_score w c \<le> 700000000"
    using assms score_in_range [of w c] by (auto simp: candidate_valid_def)
  have "s = word_of_nat (unat s)" by simp
  with s show "score_total (score_terms_of w c) = Inr (word_of_nat (exact_score w c))" by simp
  show "exact_score w c \<le> 700000000" by (rule le)
qed

lemma explain_valid:
  assumes "weights_in_range w" "candidate_valid c"
  shows "explain_candidate w (normalized c)
    = Inr (explained w c, if allowed (hard_constraints c) then Some (rank_of w c) else None)"
  using assms score_total_valid [OF assms]
  by (auto simp: explain_candidate_def explained_def rank_of_def metrics_validate_def
                 candidate_valid_def normalized_def Let_def)

lemma filter_ranks:
  "List.map_filter snd (map (\<lambda>c. (explained w c,
       if allowed (hard_constraints c) then Some (rank_of w c) else None)) cs)
   = map (rank_of w) (filter (\<lambda>c. allowed (hard_constraints c)) cs)"
  by (induction cs) (simp_all add: List.map_filter_def)

definition eligible_ranks :: "route_weights \<Rightarrow> route_candidate list \<Rightarrow> (u64 \<times> route_id) list" where
  "eligible_ranks w cs = sort (map (rank_of w) (filter (\<lambda>c. allowed (hard_constraints c)) cs))"

text \<open>The decision on valid input, in terms of the sorted candidates.\<close>

lemma decide_guards:
  "(\<exists>d. decide P cs w = Inr d) \<Longrightarrow> valid_input cs w"
proof -
  assume "\<exists>d. decide P cs w = Inr d"
  then obtain d where d: "decide P cs w = Inr d" ..
  have w: "weights_in_range w" and sem: "\<forall>c \<in> set cs. semantic_loss c \<le> 10000"
    and ids: "\<forall>c \<in> set cs. route_id c \<noteq> []"
    and adj: "\<not> any_adjacent (\<lambda>a b. route_id a = route_id b) (sort_key route_id cs)"
    using d by (auto simp: decide_def weights_in_range_def list_ex_iff list_all_iff not_less
        Let_def split: if_splits)
  obtain ns where ns: "try_map normalize_candidate (sort_key route_id cs) = Inr ns"
    and ds: "decide_sorted P ns w = Inr d"
    using d by (auto simp: decide_def Let_def guard_simps split: if_splits)
  have norm: "\<forall>c \<in> set cs. \<exists>y. normalize_candidate c = Inr y"
    using ns try_map_Inr_ex [of normalize_candidate "sort_key route_id cs"] by auto
  then have "try_map normalize_candidate (sort_key route_id cs) = Inr (map normalized (sort_key route_id cs))"
    by (intro try_map_total) (auto simp: normalize_candidate_Inr)
  with ns have "ns = map normalized (sort_key route_id cs)" by simp
  moreover have "\<exists>rows. try_map (explain_candidate w) ns = Inr rows"
    using ds by (auto simp: decide_sorted_def Let_def guard_simps)
  ultimately have "\<forall>c \<in> set cs. \<exists>y. explain_candidate w (normalized c) = Inr y"
    by (simp add: try_map_Inr_ex)
  then have "\<forall>c \<in> set cs. allowed (hard_constraints c) \<longrightarrow> metrics_in_range (metrics c)"
    by (fastforce simp: explain_candidate_def guard_simps metrics_validate_def split: if_splits)
  moreover have "distinct (map route_id (sort_key route_id cs))"
    using adj any_adjacent_eq [of route_id "sort_key route_id cs"] by simp
  then have "distinct (map route_id cs)"
    by (metis distinct_map distinct_sort set_sort)
  ultimately show "valid_input cs w"
    using w sem ids norm by (auto simp: valid_input_def candidate_valid_def normalize_candidate_Inr)
qed

definition denial_of ::
  "platform \<Rightarrow> route_candidate list \<Rightarrow> route_weights \<Rightarrow> route_denial" where
  "denial_of P cs w =
     \<lparr>denial_code = DenialNoEligibleCandidate, denial_candidates = map (explained w) cs,
      denial_snapshot_digest = of_json P (snapshot_doc (map normalized cs) w),
      denial_policy_digest = of_json P (weights_json w),
      denial_metric_digest = of_json P (metric_snapshot_doc (map normalized cs))\<rparr>"

definition plan_of ::
  "platform \<Rightarrow> route_candidate list \<Rightarrow> route_weights \<Rightarrow> u64 \<times> route_id \<Rightarrow> route_plan" where
  "plan_of P cs w best =
     \<lparr>selected = snd best, action_score = fst best,
      explanation = \<lparr>expl_candidates = map (explained w) cs, expl_selected = snd best,
                     tie_breaker = tie_breaker_text\<rparr>,
      snapshot_digest = of_json P (snapshot_doc (map normalized cs) w),
      plan_policy_digest = of_json P (weights_json w),
      metric_snapshot_digest = of_json P (metric_snapshot_doc (map normalized cs))\<rparr>"

lemma decide_valid:
  assumes "valid_input cs w"
  defines "ss \<equiv> sort_key route_id cs"
  shows "decide P cs w = Inr (case eligible_ranks w ss of
           [] \<Rightarrow> Denied 1 (denied_digest P 1 (denial_of P ss w)) (denial_of P ss w)
         | best # _ \<Rightarrow> Selected 1 (selected_digest P 1 (plan_of P ss w best)) (plan_of P ss w best))"
proof -
  have v: "weights_in_range w" "\<forall>c \<in> set ss. candidate_valid c" "distinct (map route_id ss)"
    using assms by (auto simp: valid_input_def ss_def distinct_map)
  then have norm: "try_map normalize_candidate ss = Inr (map normalized ss)"
    by (intro try_map_total) (auto simp: normalize_candidate_Inr candidate_valid_def split: if_splits)
  have rows: "try_map (explain_candidate w) (map normalized ss)
      = Inr (map (\<lambda>c. (explained w c, if allowed (hard_constraints c) then Some (rank_of w c) else None)) ss)"
    using v(1,2) by (induction ss) (simp_all add: explain_valid)
  have adj: "\<not> any_adjacent (\<lambda>a b. route_id a = route_id b) ss"
    using v(3) any_adjacent_eq [of route_id ss] by (simp add: ss_def)
  have guards: "\<not> list_ex (\<lambda>x. x > 10000) (weight_list w)" "\<not> list_ex (\<lambda>c. semantic_loss c > 10000) cs"
    "\<not> list_ex (\<lambda>c. route_id c = []) cs"
    using v(1,2) by (auto simp: weights_in_range_def list_ex_iff list_all_iff candidate_valid_def
        not_less ss_def)
  have "decide P cs w = decide_sorted P (map normalized ss) w"
    using guards adj norm by (simp add: decide_def Let_def ss_def)
  then show ?thesis
    by (simp add: decide_sorted_def Let_def rows filter_ranks eligible_ranks_def denial_of_def
        plan_of_def comp_def split: list.split prod.split)
qed

section \<open>Decision documents\<close>

lemma canonical_opt_json: "canonical_json (opt_json f v) = opt_json (\<lambda>x. canonical_json (f x)) v"
  by (simp add: opt_json_def split: option.split)

lemma canonical_terms_json:
  "canonical_json (terms_json t) =
     JObj [(''cost'', u64_json (t_cost t)), (''exposure'', u64_json (t_exposure t)),
           (''failure'', u64_json (t_failure t)), (''latency'', u64_json (t_latency t)),
           (''pressure'', u64_json (t_pressure t)), (''semantic_loss'', u64_json (t_semantic_loss t)),
           (''switching'', u64_json (t_switching t))]"
  by (simp add: terms_json_def btree_collect_def less_char_def)

lemma canonical_terms_inject [simp]:
  "canonical_json (terms_json a) = canonical_json (terms_json b) \<longleftrightarrow> a = b"
  by (cases a; cases b) (auto simp: canonical_terms_json)

lemma canonical_opt_terms_inject:
  "opt_json (\<lambda>x. canonical_json (terms_json x)) a = opt_json (\<lambda>x. canonical_json (terms_json x)) b
   \<longleftrightarrow> a = b"
  by (cases a; cases b) (simp_all add: opt_json_def, simp_all add: canonical_terms_json)

lemma canonical_explanation_json:
  "canonical_json (explanation_json e) =
     JObj [(''allowed'', JBool (expl_allowed e)),
           (''rejections'', JArr (map JStr (expl_rejections e))),
           (''route_id'', JStr (expl_route e)),
           (''terms'', opt_json (\<lambda>x. canonical_json (terms_json x)) (expl_terms e))]"
  by (simp add: explanation_json_def btree_collect_def less_char_def canonical_opt_json comp_def)

lemma canonical_explanation_inject:
  "canonical_json (explanation_json a) = canonical_json (explanation_json b) \<longleftrightarrow> a = b"
  by (cases a; cases b)
     (auto simp: canonical_explanation_json canonical_opt_terms_inject inj_map_eq_map inj_def)

lemma explanations_inject:
  "map (\<lambda>e. canonical_json (explanation_json e)) as = map (\<lambda>e. canonical_json (explanation_json e)) bs
   \<longleftrightarrow> as = bs"
  by (rule inj_map_eq_map) (simp add: inj_def canonical_explanation_inject)

lemma canonical_plan_json:
  "canonical_json (plan_json P p) =
     JObj [(''action_score'', u64_json (action_score p)),
           (''explanation'',
             JObj [(''candidates'', JArr (map (\<lambda>e. canonical_json (explanation_json e))
                                           (expl_candidates (explanation p)))),
                   (''selected'', JStr (expl_selected (explanation p))),
                   (''tie_breaker'', JStr (tie_breaker (explanation p)))]),
           (''metric_snapshot_digest'', digest_json P (metric_snapshot_digest p)),
           (''route_policy_digest'', digest_json P (plan_policy_digest p)),
           (''selected'', JStr (selected p)),
           (''snapshot_digest'', digest_json P (snapshot_digest p))]"
  by (simp add: plan_json_def btree_collect_def less_char_def comp_def)

lemma canonical_denial_json:
  "canonical_json (denial_json P d) =
     JObj [(''candidates'', JArr (map (\<lambda>e. canonical_json (explanation_json e)) (denial_candidates d))),
           (''code'', JStr ''GM_ROUTE_NO_ELIGIBLE_CANDIDATE''),
           (''metric_snapshot_digest'', digest_json P (denial_metric_digest d)),
           (''route_policy_digest'', digest_json P (denial_policy_digest d)),
           (''snapshot_digest'', digest_json P (denial_snapshot_digest d))]"
  by (simp add: denial_json_def btree_collect_def less_char_def comp_def)

lemma plan_json_inject:
  assumes "hex_roundtrip P" "canonical_json (plan_json P a) = canonical_json (plan_json P b)"
  shows "a = b"
proof -
  have d: "digest_json P x = digest_json P y \<Longrightarrow> x = y" for x y
    using digest_to_string_inject [OF assms(1)] by (auto simp: digest_json_def)
  have "explanation a = explanation b"
    using assms(2) by (intro route_explanation.equality) (simp_all add: canonical_plan_json explanations_inject)
  with assms(2) d show ?thesis
    by (intro route_plan.equality) (simp_all add: canonical_plan_json)
qed

lemma denial_json_inject:
  assumes "hex_roundtrip P" "canonical_json (denial_json P a) = canonical_json (denial_json P b)"
  shows "a = b"
proof -
  have d: "digest_json P x = digest_json P y \<Longrightarrow> x = y" for x y
    using digest_to_string_inject [OF assms(1)] by (auto simp: digest_json_def)
  have "denial_code a = denial_code b" by (cases "denial_code a"; cases "denial_code b") simp
  with assms(2) d show ?thesis
    by (intro route_denial.equality) (simp_all add: canonical_denial_json explanations_inject)
qed

fun decision_doc :: "platform \<Rightarrow> route_decision \<Rightarrow> json" where
  "decision_doc P (Selected v _ p) = selected_doc P v p"
| "decision_doc P (Denied v _ d) = denied_doc P v d"

lemma canonical_decision_doc:
  "canonical_json (selected_doc P v p) =
     JObj [(''plan'', canonical_json (plan_json P p)), (''schema_version'', u16_json v),
           (''status'', JStr ''selected'')]"
  "canonical_json (denied_doc P v d) =
     JObj [(''denial'', canonical_json (denial_json P d)), (''schema_version'', u16_json v),
           (''status'', JStr ''denied'')]"
  by (simp_all add: selected_doc_def denied_doc_def btree_collect_def less_char_def)

lemma verified_digest:
  "verify_integrity P d = Inr () \<Longrightarrow> decision_digest d = of_json P (decision_doc P d)"
  by (cases d) (auto simp: verify_integrity_def guard_simps selected_digest_def denied_digest_def)

lemma decision_doc_inject:
  assumes "hex_roundtrip P" "decision_digest a = decision_digest b"
    and "canonical_json (decision_doc P a) = canonical_json (decision_doc P b)"
  shows "a = b"
  using assms(2,3) plan_json_inject [OF assms(1)] denial_json_inject [OF assms(1)]
  by (cases a; cases b) (auto simp: canonical_decision_doc)

section \<open>Decisions verify\<close>

lemma explained_valid:
  assumes "candidate_valid c"
  shows "validate_explanation False (explained w c) = Inr ()"
    and "\<not> allowed (hard_constraints c) \<Longrightarrow> validate_explanation True (explained w c) = Inr ()"
proof -
  have "\<not> any_adjacent (\<lambda>a b. a \<ge> b) (sort_dedup (rejections (hard_constraints c)))"
    using any_adjacent_ge [of "\<lambda>x. x" "sort_dedup (rejections (hard_constraints c))"] sort_dedup_strict
    by simp
  then show "validate_explanation False (explained w c) = Inr ()"
    "\<not> allowed (hard_constraints c) \<Longrightarrow> validate_explanation True (explained w c) = Inr ()"
    using assms by (auto simp: validate_explanation_def explained_def candidate_valid_def list_ex_iff
      split: if_splits)
qed

lemma explained_route [simp]: "expl_route (explained w c) = route_id c"
  by (simp add: explained_def)

lemma explained_sorted:
  assumes "distinct (map route_id cs)"
  shows "\<not> any_adjacent (\<lambda>a b. expl_route a \<ge> expl_route b) (map (explained w) (sort_key route_id cs))"
proof -
  have "sorted (map route_id (sort_key route_id cs))" "distinct (map route_id (sort_key route_id cs))"
    using assms by (simp_all add: distinct_map)
  then have "sorted_wrt (<) (map route_id (sort_key route_id cs))"
    by (simp add: strict_sorted_iff)
  then show ?thesis by (simp add: any_adjacent_ge sorted_wrt_map)
qed

lemma rank_explanations_explained:
  assumes "weights_in_range w" "\<forall>c \<in> set cs. candidate_valid c"
  shows "rank_explanations (map (explained w) cs)
       = Inr (map (rank_of w) (filter (\<lambda>c. allowed (hard_constraints c)) cs))"
  using assms(2) score_total_valid [OF assms(1)]
  by (induction cs) (auto simp: explained_def rank_of_def)

lemma eligible_Nil:
  "eligible_ranks w cs = [] \<longleftrightarrow> (\<forall>c \<in> set cs. \<not> allowed (hard_constraints c))"
proof -
  have "sort xs = [] \<longleftrightarrow> xs = []" for xs :: "(u64 \<times> route_id) list"
    by (metis set_empty set_sort)
  then show ?thesis by (auto simp: eligible_ranks_def filter_empty_conv)
qed

lemma eligible_Cons:
  assumes "eligible_ranks w cs = r # rs"
  obtains c where "c \<in> set cs" "allowed (hard_constraints c)" "r = rank_of w c"
    "\<And>d. d \<in> set cs \<Longrightarrow> allowed (hard_constraints d) \<Longrightarrow> r \<le> rank_of w d"
proof -
  note m = sort_first [OF assms [unfolded eligible_ranks_def]]
  from m(1) obtain c where c: "c \<in> set cs" "allowed (hard_constraints c)" "r = rank_of w c"
    by auto
  moreover have "r \<le> rank_of w d" if "d \<in> set cs" "allowed (hard_constraints d)" for d
    using m(2) [of "rank_of w d"] that by simp
  ultimately show ?thesis using that by blast
qed

lemma plan_of_verifies:
  assumes "weights_in_range w" "\<forall>c \<in> set cs. candidate_valid c" "distinct (map route_id cs)"
    and r: "eligible_ranks w cs = r # rs"
  shows "verify_plan (plan_of P cs w r) = Inr ()"
proof -
  obtain c where c: "c \<in> set cs" "allowed (hard_constraints c)" "r = rank_of w c"
    by (rule eligible_Cons [OF r])
  have "find (\<lambda>e. expl_route e = route_id c) (map (explained w) cs) = Some (explained w c)"
    using find_key [of expl_route "map (explained w) cs" "explained w c"] assms(3) c(1)
    by (simp add: comp_def)
  moreover note score_total_valid [OF assms(1), of c] assms(2) c
  moreover have "word_of_nat (exact_score w c) \<le> MAX_ACTION_SCORE"
    using score_total_valid(2) [OF assms(1), of c] assms(2) c
    by (simp add: MAX_ACTION_SCORE_def MAX_SCORE_TERM_def word_le_nat_alt unat_of_nat)
  moreover have "rank_explanations (map (explained w) cs)
      = Inr (map (rank_of w) (filter (\<lambda>c. allowed (hard_constraints c)) cs))"
    by (rule rank_explanations_explained [OF assms(1,2)])
  moreover have "explained w c = \<lparr>expl_route = route_id c, expl_allowed = True, expl_rejections = [],
      expl_terms = Some (score_terms_of w c)\<rparr>"
    using c by (simp add: explained_def)
  ultimately show ?thesis
    using r c(3) by (simp add: verify_plan_def plan_of_def not_less eligible_ranks_def)
       (simp add: rank_of_def)
qed

lemma sorted_valid:
  assumes "valid_input cs w"
  shows "weights_in_range w" "\<forall>c \<in> set (sort_key route_id cs). candidate_valid c"
    "distinct (map route_id (sort_key route_id cs))" "distinct (map route_id cs)"
  using assms by (simp_all add: valid_input_def distinct_map)

lemma decide_verifies:
  assumes "decide P cs w = Inr d"
  shows "verify_integrity P d = Inr ()"
proof -
  have v: "valid_input cs w" using assms decide_guards by blast
  note sv = sorted_valid [OF v]
  let ?ss = "sort_key route_id cs"
  have expl: "\<not> any_adjacent (\<lambda>a b. expl_route a \<ge> expl_route b) (map (explained w) ?ss)"
    using sv(4) by (rule explained_sorted)
  show ?thesis
  proof (cases "eligible_ranks w ?ss")
    case Nil
    with assms have "d = Denied 1 (denied_digest P 1 (denial_of P ?ss w)) (denial_of P ?ss w)"
      by (simp add: decide_valid [OF v])
    then show ?thesis using expl sv(2) Nil
      by (simp add: verify_integrity_def denial_of_def validate_explanations_def try_each_Inr
          explained_valid eligible_Nil)
  next
    case (Cons r rs)
    with assms have "d = Selected 1 (selected_digest P 1 (plan_of P ?ss w r)) (plan_of P ?ss w r)"
      by (simp add: decide_valid [OF v])
    then show ?thesis using expl sv(2) plan_of_verifies [OF sv(1-3) Cons]
      by (simp add: verify_integrity_def validate_explanations_def try_each_Inr explained_valid)
         (simp add: plan_of_def explained_valid try_each_Inr)
  qed
qed

lemma rank_of_le:
  assumes "weights_in_range w" "candidate_valid c" "allowed (hard_constraints c)"
    and "candidate_valid d" "allowed (hard_constraints d)"
  shows "rank_of w c \<le> rank_of w d \<longleftrightarrow> (exact_score w c, route_id c) \<le> (exact_score w d, route_id d)"
  using score_total_valid(2) [OF assms(1-3)] score_total_valid(2) [OF assms(1,4,5)]
  by (simp add: rank_of_def less_eq_prod_def word_le_nat_alt word_less_nat_alt unat_of_nat word_unat_eq_iff)

lemma selected_least:
  assumes "decide P cs w = Inr (Selected v g p)"
  shows "\<exists>c \<in> set cs. allowed (hard_constraints c) \<and> route_id c = selected p
             \<and> unat (action_score p) = exact_score w c
             \<and> (\<forall>e \<in> set cs. allowed (hard_constraints e) \<longrightarrow>
                  (exact_score w c, route_id c) \<le> (exact_score w e, route_id e))"
proof -
  have v: "valid_input cs w" using assms decide_guards by blast
  note sv = sorted_valid [OF v]
  obtain r rs where r: "eligible_ranks w (sort_key route_id cs) = r # rs"
    and p: "p = plan_of P (sort_key route_id cs) w r"
    using assms by (auto simp: decide_valid [OF v] split: list.splits)
  from r obtain c where c: "c \<in> set cs" "allowed (hard_constraints c)" "r = rank_of w c"
    and least: "\<And>e. e \<in> set cs \<Longrightarrow> allowed (hard_constraints e) \<Longrightarrow> r \<le> rank_of w e"
    by (auto elim: eligible_Cons)
  have "unat (word_of_nat (exact_score w c) :: u64) = exact_score w c"
    using score_total_valid(2) [OF sv(1), of c] sv(2) c by (simp add: unat_of_nat)
  moreover have "\<forall>e \<in> set cs. allowed (hard_constraints e) \<longrightarrow>
      (exact_score w c, route_id c) \<le> (exact_score w e, route_id e)"
    using least rank_of_le [OF sv(1), of c] sv(2) c by (metis set_sort)
  ultimately show ?thesis using c by (intro bexI [of _ c]) (simp_all add: plan_of_def rank_of_def p)
qed

lemma denied_none:
  assumes "decide P cs w = Inr (Denied v g d)"
  shows "\<forall>c \<in> set cs. \<not> allowed (hard_constraints c)"
proof -
  have v: "valid_input cs w" using assms decide_guards by blast
  have "eligible_ranks w (sort_key route_id cs) = []"
    using assms by (simp add: decide_valid [OF v] split: list.splits)
  then show ?thesis using eligible_Nil [of w "sort_key route_id cs"] by simp
qed

text \<open>
  The router decides exactly on valid input (weights, losses and metrics of allowed
  candidates at most 10000, distinct non-empty route ids, a non-blank reason on every denied
  candidate) and reports an error on any other; no input makes a score overflow.
\<close>

theorem decide_ok_iff: "(\<exists>d. decide P cs w = Inr d) = valid_input cs w"
  using decide_guards [of P cs w] decide_valid [of cs w P] by blast

text \<open>
  C3: A selected route is an allowed candidate whose exact weighted score, computed without
  wrap-around, is the smallest of all allowed candidates, ties broken by the smaller route id;
  a denial means that no candidate is allowed.
\<close>

theorem decide_selects_minimum:
  assumes "decide P cs w = Inr d"
  shows "case d of
           Selected _ _ p \<Rightarrow> \<exists>c \<in> set cs. allowed (hard_constraints c) \<and> route_id c = selected p
             \<and> unat (action_score p) = exact_score w c
             \<and> (\<forall>e \<in> set cs. allowed (hard_constraints e) \<longrightarrow>
                  (exact_score w c, route_id c) \<le> (exact_score w e, route_id e))
         | Denied _ _ _ \<Rightarrow> \<forall>c \<in> set cs. \<not> allowed (hard_constraints c)"
  using selected_least [of P cs w] denied_none [of P cs w] assms by (simp split: route_decision.split)

text \<open>
  Every decision the router makes passes its own integrity verification.
\<close>

theorem decision_verifies:
  assumes "decide P cs w = Inr d"
  shows "verify_integrity P d = Inr ()"
  using assms by (rule decide_verifies)

text \<open>
  The order in which candidates are listed does not influence the decision, its digests or
  the reported error.
\<close>

theorem decide_order_independent:
  assumes "mset cs = mset ds" "distinct (map route_id cs)"
  shows "decide P cs w = decide P ds w"
proof -
  have "set cs = set ds" using assms(1) by (rule mset_eq_setD)
  moreover have "sort_key route_id cs = sort_key route_id ds" using assms by (rule sort_key_permute)
  ultimately show ?thesis by (simp add: decide_def list_ex_iff Let_def)
qed

text \<open>
  Two verified decisions with the same decision digest are the same decision, down to every
  candidate's score terms and rejections, unless their documents are an explicit hash collision.
\<close>

theorem decision_digest_binds:
  assumes "hex_roundtrip P" "verify_integrity P a = Inr ()" "verify_integrity P b = Inr ()"
    and "decision_digest a = decision_digest b"
  shows "a = b \<or> doc_collision P (decision_doc P a) (decision_doc P b)"
proof -
  have "of_json P (decision_doc P a) = of_json P (decision_doc P b)"
    using assms(2-4) by (simp add: verified_digest)
  from of_json_eq [OF this] show ?thesis
    using decision_doc_inject [OF assms(1,4)] by blast
qed

lemma rank_explanations_member:
  "rank_explanations es = Inr rs \<Longrightarrow> e \<in> set es \<Longrightarrow> expl_terms e = Some t
   \<Longrightarrow> \<exists>s. score_total t = Inr s \<and> (s, expl_route e) \<in> set rs"
  by (induction es arbitrary: rs) (auto simp: guard_simps split: option.splits)

text \<open>
  A decision that passes verification, from whatever source, names an allowed candidate of
  its own explanation that carries the plan's score, and no other allowed candidate in the
  explanation has a smaller score or, at the same score, a smaller route id.
\<close>

theorem verified_selection_is_minimal:
  assumes "verify_integrity P (Selected v g p) = Inr ()"
  shows "\<exists>e \<in> set (expl_candidates (explanation p)). expl_route e = selected p \<and> expl_allowed e
         \<and> (\<exists>t. expl_terms e = Some t \<and> score_total t = Inr (action_score p))
         \<and> (\<forall>f \<in> set (expl_candidates (explanation p)). expl_allowed f \<longrightarrow>
              (\<exists>t s. expl_terms f = Some t \<and> score_total t = Inr s
                   \<and> (action_score p, selected p) \<le> (s, expl_route f)))"
proof -
  from assms have vp: "verify_plan p = Inr ()"
    and ve: "validate_explanations (expl_candidates (explanation p)) False = Inr ()"
    by (auto simp: verify_integrity_def guard_simps)
  from vp obtain e t ranked where e: "e \<in> set (expl_candidates (explanation p))"
      "expl_route e = selected p" "expl_allowed e" "expl_terms e = Some t"
      "score_total t = Inr (action_score p)"
    and ranked: "rank_explanations (expl_candidates (explanation p)) = Inr ranked"
    and hd: "case sort ranked of [] \<Rightarrow> False | r # _ \<Rightarrow> r = (action_score p, selected p)"
    by (auto simp: verify_plan_def guard_simps dest!: find_Some_first)
  from hd have least: "x \<in> set ranked \<Longrightarrow> (action_score p, selected p) \<le> x" for x
    using sort_first(2) [of ranked] by (auto split: list.splits)
  have "\<exists>t s. expl_terms f = Some t \<and> score_total t = Inr s
             \<and> (action_score p, selected p) \<le> (s, expl_route f)"
    if f: "f \<in> set (expl_candidates (explanation p))" "expl_allowed f" for f
  proof -
    have "validate_explanation False f = Inr ()"
      using ve f by (auto simp: validate_explanations_def guard_simps split: if_splits)
    then obtain u where "expl_terms f = Some u" using f by (auto simp: validate_explanation_def split: if_splits)
    with rank_explanations_member [OF ranked f(1) this] least show ?thesis by blast
  qed
  with e show ?thesis by blast
qed

section \<open>A concrete decision\<close>

definition sample_candidate :: "string \<Rightarrow> u32 \<Rightarrow> route_candidate" where
  "sample_candidate i latency =
     \<lparr>route_id = i, endpoint_id = i, hard_constraints = \<lparr>allowed = True, rejections = []\<rparr>,
      metrics = \<lparr>m_latency = latency, m_cost = 1, m_failure = 1, m_pressure = 1, m_exposure = 1,
                 m_switching = 1\<rparr>, semantic_loss = 0\<rparr>"

definition sample_weights :: route_weights where
  "sample_weights = \<lparr>w_latency = 10000, w_cost = 1, w_failure = 1, w_semantic_loss = 1,
     w_pressure = 1, w_exposure = 1, w_switching = 1\<rparr>"

definition sample_candidates :: "route_candidate list" where
  "sample_candidates = [sample_candidate ''b'' 10000, sample_candidate ''a'' 9]"

lemma sample_valid: "valid_input sample_candidates sample_weights"
  by (simp add: valid_input_def sample_candidates_def sample_weights_def sample_candidate_def
      weights_in_range_def weight_list_def candidate_valid_def metrics_in_range_def)

definition sample_decision :: route_decision where
  "sample_decision = projr (decide sample_platform sample_candidates sample_weights)"

lemma sample_decision: "decide sample_platform sample_candidates sample_weights = Inr sample_decision"
  by (simp add: sample_decision_def decide_valid [OF sample_valid])

lemma sample_decision_selected: "\<exists>g p. sample_decision = Selected 1 g p"
proof -
  have "eligible_ranks sample_weights (sort_key route_id sample_candidates) \<noteq> []"
    using eligible_Nil [of sample_weights "sort_key route_id sample_candidates"]
    by (simp add: sample_candidates_def sample_candidate_def)
  then show ?thesis
    by (auto simp: sample_decision_def decide_valid [OF sample_valid] split: list.split)
qed

theorem decide_selects_minimum_witness:
  "case sample_decision of
     Selected _ _ p \<Rightarrow> \<exists>c \<in> set sample_candidates. allowed (hard_constraints c) \<and> route_id c = selected p
       \<and> unat (action_score p) = exact_score sample_weights c
       \<and> (\<forall>e \<in> set sample_candidates. allowed (hard_constraints e) \<longrightarrow>
            (exact_score sample_weights c, route_id c) \<le> (exact_score sample_weights e, route_id e))
   | Denied _ _ _ \<Rightarrow> \<forall>c \<in> set sample_candidates. \<not> allowed (hard_constraints c)"
  by (rule decide_selects_minimum [OF sample_decision])

theorem decision_verifies_witness: "verify_integrity sample_platform sample_decision = Inr ()"
  by (rule decision_verifies [OF sample_decision])

theorem decide_order_independent_witness:
  "decide sample_platform sample_candidates sample_weights
   = decide sample_platform (rev sample_candidates) sample_weights"
  by (rule decide_order_independent) (simp_all add: sample_candidates_def sample_candidate_def)

theorem decision_digest_binds_witness:
  "sample_decision = sample_decision
   \<or> doc_collision sample_platform (decision_doc sample_platform sample_decision)
       (decision_doc sample_platform sample_decision)"
  by (rule decision_digest_binds) (simp_all add: decide_verifies [OF sample_decision])

theorem verified_selection_is_minimal_witness:
  "\<exists>g p e. sample_decision = Selected 1 g p \<and> e \<in> set (expl_candidates (explanation p))
     \<and> expl_route e = selected p \<and> expl_allowed e"
proof -
  obtain g p where d: "sample_decision = Selected 1 g p" using sample_decision_selected by blast
  have "verify_integrity sample_platform (Selected 1 g p) = Inr ()"
    using decide_verifies [OF sample_decision] d by simp
  from verified_selection_is_minimal [OF this] d show ?thesis by blast
qed

end
