(* ===== verification/Policy.thy ===== *)
theory Policy
  imports Prelude
begin

text \<open>
  Models \<open>crates/gaugemesh-core/src/policy.rs\<close>: the compiler that checks a policy document
  and the evaluation of a compiled policy, and the gate of
  \<open>crates/gaugemesh/src/policy_gate.rs\<close> that evaluates it on each remote request.
\<close>

datatype policy_phase =
    Discovery | RequestMetadata | RequestBody | ResponseMetadata | ResponseBody
  | PostEffect | Cleanup

fun phase_rank :: "policy_phase \<Rightarrow> nat" where
  "phase_rank Discovery = 0"
| "phase_rank RequestMetadata = 1"
| "phase_rank RequestBody = 2"
| "phase_rank ResponseMetadata = 3"
| "phase_rank ResponseBody = 4"
| "phase_rank PostEffect = 5"
| "phase_rank Cleanup = 6"

lemma phase_rank_inject: "phase_rank a = phase_rank b \<longleftrightarrow> a = b"
  by (cases a; cases b) simp_all

instantiation policy_phase :: linorder
begin

definition less_eq_policy_phase :: "policy_phase \<Rightarrow> policy_phase \<Rightarrow> bool" where
  "less_eq_policy_phase a b \<longleftrightarrow> phase_rank a \<le> phase_rank b"

definition less_policy_phase :: "policy_phase \<Rightarrow> policy_phase \<Rightarrow> bool" where
  "less_policy_phase a b \<longleftrightarrow> phase_rank a < phase_rank b"

instance
  by standard
     (auto simp: less_eq_policy_phase_def less_policy_phase_def phase_rank_inject)

end

datatype policy_effect = Allow | Deny

record policy_condition =
  cond_field :: string
  cond_equals :: string

record policy_rule =
  rule_id :: string
  rule_phase :: policy_phase
  rule_priority :: u32
  rule_effect :: policy_effect
  rule_all :: "policy_condition list"

record policy_document =
  policy_default :: policy_effect
  policy_rules :: "policy_rule list"

datatype policy_compile_error =
    UnknownField string
  | FieldUnavailable string policy_phase
  | AmbiguousPriority u32
  | DuplicateRule string
  | ContradictoryRule string
  | UnreachableRule string

definition field_availability :: "(string \<times> policy_phase) list" where
  "field_availability =
    [(''principal.id'', Discovery),
     (''principal.group'', Discovery),
     (''tenant.id'', Discovery),
     (''capability.source'', Discovery),
     (''capability.kind'', Discovery),
     (''request.protocol'', RequestMetadata),
     (''request.data_classification'', RequestMetadata),
     (''request.argument'', RequestBody),
     (''response.status'', ResponseMetadata),
     (''response.body_classification'', ResponseBody),
     (''effect.observed'', PostEffect),
     (''cleanup.result'', Cleanup)]"

section \<open>Evaluation\<close>

definition rule_matches :: "(string, string) fmap \<Rightarrow> policy_rule \<Rightarrow> bool" where
  "rule_matches fs r \<longleftrightarrow>
     list_all (\<lambda>c. fmlookup fs (cond_field c) = Some (cond_equals c)) (rule_all r)"

text \<open>\<open>min_by_key\<close>: the first of the elements with the least key.\<close>

fun min_by_key :: "('a \<Rightarrow> 'b::linorder) \<Rightarrow> 'a list \<Rightarrow> 'a option" where
  "min_by_key k [] = None"
| "min_by_key k (x # xs) =
     (case min_by_key k xs of None \<Rightarrow> Some x | Some y \<Rightarrow> Some (if k x \<le> k y then x else y))"

definition evaluate ::
  "policy_document \<Rightarrow> policy_phase \<Rightarrow> (string, string) fmap \<Rightarrow> policy_effect" where
  "evaluate policy phase fs =
     (case min_by_key rule_priority
             (filter (rule_matches fs) (filter (\<lambda>r. rule_phase r = phase) (policy_rules policy)))
      of None \<Rightarrow> policy_default policy | Some r \<Rightarrow> rule_effect r)"

section \<open>Compilation\<close>

definition check_condition ::
  "policy_phase \<Rightarrow> policy_condition \<Rightarrow> (policy_compile_error, unit) res" where
  "check_condition phase c =
     rbind (ok_or (map_of field_availability (cond_field c)) (UnknownField (cond_field c)))
       (\<lambda>available.
          if phase < available then Inl (FieldUnavailable (cond_field c) phase) else Inr ())"

text \<open>The loop over the conditions with the map of the equalities seen so far.\<close>

fun contradicts :: "(string, string) fmap \<Rightarrow> policy_condition list \<Rightarrow> bool" where
  "contradicts seen [] = False"
| "contradicts seen (c # cs) =
     ((case fmlookup seen (cond_field c) of None \<Rightarrow> False | Some v \<Rightarrow> v \<noteq> cond_equals c)
      \<or> contradicts (fmupd (cond_field c) (cond_equals c) seen) cs)"

fun check_rules ::
  "string fset \<Rightarrow> (policy_phase \<times> u32) fset \<Rightarrow> policy_rule list
   \<Rightarrow> (policy_compile_error, unit) res" where
  "check_rules ids priorities [] = Inr ()"
| "check_rules ids priorities (r # rs) =
     (if rule_id r |\<in>| ids then Inl (DuplicateRule (rule_id r))
      else if (rule_phase r, rule_priority r) |\<in>| priorities
      then Inl (AmbiguousPriority (rule_priority r))
      else rbind (try_each (check_condition (rule_phase r)) (rule_all r)) (\<lambda>_.
           if contradicts fmempty (rule_all r) then Inl (ContradictoryRule (rule_id r))
           else check_rules (finsert (rule_id r) ids)
                  (finsert (rule_phase r, rule_priority r) priorities) rs))"

definition rule_order :: "policy_rule \<Rightarrow> policy_phase \<times> u32 \<times> string" where
  "rule_order r = (rule_phase r, rule_priority r, rule_id r)"

fun check_reachable ::
  "policy_phase fset \<Rightarrow> policy_rule list \<Rightarrow> (policy_compile_error, unit) res" where
  "check_reachable terminal [] = Inr ()"
| "check_reachable terminal (r # rs) =
     (if rule_phase r |\<in>| terminal then Inl (UnreachableRule (rule_id r))
      else check_reachable
             (if rule_all r = [] then finsert (rule_phase r) terminal else terminal) rs)"

definition compile ::
  "policy_document \<Rightarrow> (policy_compile_error, policy_document) res" where
  "compile d =
     rbind (check_rules {||} {||} (policy_rules d)) (\<lambda>_.
       let sorted_rules = sort_key rule_order (policy_rules d) in
       rbind (check_reachable {||} sorted_rules) (\<lambda>_. Inr (d\<lparr>policy_rules := sorted_rules\<rparr>)))"

section \<open>The gate\<close>

definition gate_protocol :: "string \<Rightarrow> string" where
  "gate_protocol path =
     (if path = ''/mcp'' then ''mcp''
      else if path = ''/v1'' \<or> strip_prefix ''/v1/'' path \<noteq> None then ''openai''
      else ''unknown'')"

definition gate_fields :: "string \<Rightarrow> string \<Rightarrow> string \<Rightarrow> (string, string) fmap" where
  "gate_fields pr te path =
     fmap_of_list [(''principal.id'', pr), (''tenant.id'', te),
                   (''request.protocol'', gate_protocol path),
                   (''request.data_classification'', ''public'')]"

text \<open>Whether the request is handed to the next handler; otherwise it is answered 403.\<close>

definition gate_authorize :: "policy_document \<Rightarrow> string \<Rightarrow> string \<Rightarrow> string \<Rightarrow> bool" where
  "gate_authorize policy pr te path \<longleftrightarrow>
     evaluate policy RequestMetadata (gate_fields pr te path) = Allow"

section \<open>What compilation checks\<close>

definition condition_available :: "policy_phase \<Rightarrow> policy_condition \<Rightarrow> bool" where
  "condition_available phase c \<longleftrightarrow>
     (\<exists>p. map_of field_availability (cond_field c) = Some p \<and> p \<le> phase)"

definition satisfiable_conditions :: "policy_condition list \<Rightarrow> bool" where
  "satisfiable_conditions cs \<longleftrightarrow>
     (\<forall>c \<in> set cs. \<forall>d \<in> set cs. cond_field c = cond_field d \<longrightarrow> cond_equals c = cond_equals d)"

lemma check_condition_Inr [guard_simps]:
  "check_condition ph c = Inr u \<longleftrightarrow> condition_available ph c"
  by (auto simp: check_condition_def condition_available_def guard_simps not_less split: if_splits)

lemma satisfiable_Cons:
  "satisfiable_conditions (c # cs) \<longleftrightarrow>
     satisfiable_conditions cs
     \<and> (\<forall>d \<in> set cs. cond_field d = cond_field c \<longrightarrow> cond_equals d = cond_equals c)"
  (is "?l \<longleftrightarrow> ?r")
proof
  assume ?l
  then show ?r unfolding satisfiable_conditions_def by (meson list.set_intros)
next
  assume r: ?r
  show ?l
    unfolding satisfiable_conditions_def
  proof (intro ballI impI)
    fix x y assume "x \<in> set (c # cs)" "y \<in> set (c # cs)" "cond_field x = cond_field y"
    with r show "cond_equals x = cond_equals y"
      unfolding satisfiable_conditions_def set_simps insert_iff by metis
  qed
qed

definition agrees :: "(string, string) fmap \<Rightarrow> policy_condition \<Rightarrow> bool" where
  "agrees seen c \<longleftrightarrow> (\<forall>v. fmlookup seen (cond_field c) = Some v \<longrightarrow> v = cond_equals c)"

lemma agrees_upd:
  "agrees (fmupd (cond_field c) (cond_equals c) seen) d \<longleftrightarrow>
     (if cond_field d = cond_field c then cond_equals d = cond_equals c else agrees seen d)"
  by (auto simp: agrees_def)

lemma agrees_step:
  assumes "agrees seen c"
  shows "(if cond_field d = cond_field c then cond_equals d = cond_equals c else agrees seen d)
     \<longleftrightarrow> (cond_field d = cond_field c \<longrightarrow> cond_equals d = cond_equals c) \<and> agrees seen d"
proof (cases "cond_field d = cond_field c")
  case True
  with assms have "cond_equals d = cond_equals c \<longrightarrow> agrees seen d" by (simp add: agrees_def)
  with True show ?thesis by auto
qed simp

lemma Ball_insert_iff: "Ball (insert c S) q \<longleftrightarrow> q c \<and> Ball S q"
  by simp

lemma contradicts_iff:
  "\<not> contradicts seen cs \<longleftrightarrow> satisfiable_conditions cs \<and> (\<forall>c \<in> set cs. agrees seen c)"
proof (induction cs arbitrary: seen)
  case (Cons c cs)
  have "\<not> contradicts seen (c # cs) \<longleftrightarrow>
      agrees seen c \<and> satisfiable_conditions cs
      \<and> (\<forall>d \<in> set cs. if cond_field d = cond_field c then cond_equals d = cond_equals c
                      else agrees seen d)"
    unfolding contradicts.simps de_Morgan_disj Cons.IH agrees_upd
    by (simp add: agrees_def split: option.split)
  then show ?case
    by (cases "agrees seen c") (simp_all only: satisfiable_Cons agrees_step list.set Ball_insert_iff
        ball_conj_distrib simp_thms conj_assoc if_True if_False)
qed (simp add: satisfiable_conditions_def)

lemma contradicts_empty: "contradicts fmempty cs \<longleftrightarrow> \<not> satisfiable_conditions cs"
  using contradicts_iff [of fmempty cs] by (auto simp: agrees_def)

definition rule_ok :: "policy_rule \<Rightarrow> bool" where
  "rule_ok r \<longleftrightarrow>
     (\<forall>c \<in> set (rule_all r). condition_available (rule_phase r) c)
     \<and> satisfiable_conditions (rule_all r)"

lemma check_rules_Inr:
  "check_rules ids ps rs = Inr u \<longleftrightarrow>
     distinct (map rule_id rs) \<and> (\<forall>r \<in> set rs. rule_id r |\<notin>| ids)
     \<and> distinct (map (\<lambda>r. (rule_phase r, rule_priority r)) rs)
     \<and> (\<forall>r \<in> set rs. (rule_phase r, rule_priority r) |\<notin>| ps) \<and> (\<forall>r \<in> set rs. rule_ok r)"
  by (induction rs arbitrary: ids ps)
     (auto simp: guard_simps contradicts_empty rule_ok_def image_iff)

text \<open>No rule stands after an unconditional rule of its phase.\<close>

definition no_rule_after_catch_all :: "policy_rule list \<Rightarrow> bool" where
  "no_rule_after_catch_all rs \<longleftrightarrow>
     sorted_wrt (\<lambda>a b. rule_all a = [] \<longrightarrow> rule_phase a \<noteq> rule_phase b) rs"

lemma check_reachable_Inr:
  "check_reachable ts rs = Inr u \<longleftrightarrow>
     no_rule_after_catch_all rs \<and> (\<forall>r \<in> set rs. rule_phase r |\<notin>| ts)"
  by (induction rs arbitrary: ts) (auto simp: no_rule_after_catch_all_def)

definition policy_valid :: "policy_document \<Rightarrow> bool" where
  "policy_valid d \<longleftrightarrow>
     distinct (map rule_id (policy_rules d))
     \<and> distinct (map (\<lambda>r. (rule_phase r, rule_priority r)) (policy_rules d))
     \<and> (\<forall>r \<in> set (policy_rules d). rule_ok r)
     \<and> (\<forall>a \<in> set (policy_rules d). \<forall>b \<in> set (policy_rules d).
          rule_all a = [] \<and> rule_phase a = rule_phase b \<longrightarrow> rule_priority b \<le> rule_priority a)"

lemma rule_order_less:
  "rule_order a < rule_order b \<longleftrightarrow>
     rule_phase a < rule_phase b
     \<or> rule_phase a = rule_phase b
       \<and> (rule_priority a < rule_priority b \<or> rule_priority a = rule_priority b \<and> rule_id a < rule_id b)"
  by (auto simp: rule_order_def less_prod_def order_less_le)

lemma distinct_rule_order:
  assumes "distinct (map (\<lambda>r. (rule_phase r, rule_priority r)) rs)"
  shows "distinct (map rule_order rs)"
  using assms by (auto simp: distinct_map inj_on_def rule_order_def)

lemma no_rule_after_sorted:
  assumes d: "distinct (map (\<lambda>r. (rule_phase r, rule_priority r)) rs)"
  shows "no_rule_after_catch_all (sort_key rule_order rs) \<longleftrightarrow>
    (\<forall>a \<in> set rs. \<forall>b \<in> set rs. rule_all a = [] \<and> rule_phase a = rule_phase b \<longrightarrow>
       rule_priority b \<le> rule_priority a)"
proof -
  have inj: "a = b" if "a \<in> set rs" "b \<in> set rs" "rule_phase a = rule_phase b"
    "rule_priority a = rule_priority b" for a b
    using d that by (auto simp: distinct_map inj_on_def)
  have "distinct (map rule_order (sort_key rule_order rs))"
    using distinct_rule_order [OF d] by (simp add: distinct_map)
  from sorted_wrt_key [OF sorted_sort_key this] show ?thesis
    unfolding no_rule_after_catch_all_def rule_order_less
    by (simp add: not_le [symmetric]) (metis inj not_le order_less_irrefl)
qed

lemma compile_result:
  "compile d = Inr c \<longleftrightarrow>
     policy_valid d \<and> c = d\<lparr>policy_rules := sort_key rule_order (policy_rules d)\<rparr>"
  by (auto simp: compile_def Let_def guard_simps check_rules_Inr check_reachable_Inr policy_valid_def
           no_rule_after_sorted)

section \<open>Evaluating a compiled policy\<close>

lemma min_by_key_None: "min_by_key k xs = None \<longleftrightarrow> xs = []"
  by (cases xs) (auto split: option.splits)

lemma min_by_key_Some:
  "min_by_key k xs = Some x \<Longrightarrow> x \<in> set xs \<and> (\<forall>y \<in> set xs. k x \<le> k y)"
proof (induction xs arbitrary: x)
  case (Cons z zs)
  show ?case
  proof (cases "min_by_key k zs")
    case None
    with Cons.prems show ?thesis by (simp add: min_by_key_None)
  next
    case (Some y)
    with Cons.IH [OF Some] Cons.prems show ?thesis
      by (auto split: if_splits intro: order.trans)
  qed
qed simp

text \<open>The rules of a phase that match, without any order.\<close>

definition matching_rules ::
  "policy_document \<Rightarrow> policy_phase \<Rightarrow> (string, string) fmap \<Rightarrow> policy_rule set" where
  "matching_rules d phase fs = {r \<in> set (policy_rules d). rule_phase r = phase \<and> rule_matches fs r}"

lemma evaluate_cases:
  "(matching_rules d phase fs = {} \<and> evaluate d phase fs = policy_default d)
   \<or> (\<exists>r \<in> matching_rules d phase fs.
        (\<forall>s \<in> matching_rules d phase fs. rule_priority r \<le> rule_priority s)
        \<and> evaluate d phase fs = rule_effect r)"
proof (cases "min_by_key rule_priority
    (filter (rule_matches fs) (filter (\<lambda>r. rule_phase r = phase) (policy_rules d)))")
  case None
  then show ?thesis
    by (auto simp: evaluate_def matching_rules_def min_by_key_None filter_empty_conv)
next
  case (Some r)
  from min_by_key_Some [OF this] Some show ?thesis
    by (auto simp: evaluate_def matching_rules_def)
qed

lemma matching_compiled:
  "compile d = Inr c \<Longrightarrow> matching_rules c phase fs = matching_rules d phase fs"
  by (auto simp: compile_result matching_rules_def)

lemma matching_unique_priority:
  assumes "policy_valid d" "r \<in> matching_rules d ph fs" "s \<in> matching_rules d ph fs"
    and "rule_priority r = rule_priority s"
  shows "r = s"
  using assms by (auto simp: policy_valid_def matching_rules_def distinct_map inj_on_def)

text \<open>
  A policy document compiles exactly when its rule ids and its priorities within a phase
  are unique, every condition names a known field that is available in the rule's phase, no rule
  demands two values of one field, and no rule has a larger priority number than an unconditional
  rule of its phase; the result is the same document with its rules sorted.
\<close>

theorem compile_exact:
  "(compile d = Inr c) =
     (policy_valid d \<and> c = d\<lparr>policy_rules := sort_key rule_order (policy_rules d)\<rparr>)"
  by (rule compile_result)

text \<open>
  C8: A compiled policy answers with the effect of the one matching rule of the phase with the
  least priority number, and with its default when no rule matches: the order in which the
  document lists its rules plays no role.
\<close>

theorem evaluate_compiled:
  assumes "compile d = Inr c"
  shows "if matching_rules d phase fs = {} then evaluate c phase fs = policy_default d
         else \<exists>r \<in> matching_rules d phase fs. evaluate c phase fs = rule_effect r
                \<and> (\<forall>s \<in> matching_rules d phase fs. s \<noteq> r \<longrightarrow> rule_priority r < rule_priority s)"
proof -
  have v: "policy_valid d" and def: "policy_default c = policy_default d"
    using assms by (auto simp: compile_result)
  show ?thesis
    using evaluate_cases [of c phase fs] matching_unique_priority [OF v]
    unfolding matching_compiled [OF assms] def
    by (auto simp: order_less_le)
qed

text \<open>
  With a default of deny, the gate lets a remote request through only because of an allow
  rule for request metadata whose every condition holds of the authenticated principal, the
  tenant, the protocol of the path or the public classification, and that every matching deny
  rule is lower ranked.
\<close>

theorem gate_requires_allow_rule:
  assumes "compile d = Inr c" "policy_default d = Deny" "gate_authorize c pr te path"
  shows "\<exists>r \<in> set (policy_rules d). rule_effect r = Allow \<and> rule_phase r = RequestMetadata
     \<and> (\<forall>q \<in> set (rule_all r).
          (cond_field q, cond_equals q) \<in> {(''principal.id'', pr), (''tenant.id'', te),
             (''request.protocol'', gate_protocol path), (''request.data_classification'', ''public'')})
     \<and> (\<forall>s \<in> matching_rules d RequestMetadata (gate_fields pr te path).
          rule_effect s = Deny \<longrightarrow> rule_priority r < rule_priority s)"
proof -
  let ?fs = "gate_fields pr te path"
  obtain r where r: "r \<in> matching_rules d RequestMetadata ?fs" "rule_effect r = Allow"
    and least: "\<And>s. s \<in> matching_rules d RequestMetadata ?fs \<Longrightarrow> rule_priority r \<le> rule_priority s"
    using evaluate_cases [of c RequestMetadata ?fs] assms
    unfolding matching_compiled [OF assms(1)] gate_authorize_def by (auto simp: compile_result)
  have "rule_priority r < rule_priority s"
    if "s \<in> matching_rules d RequestMetadata ?fs" "rule_effect s = Deny" for s
    using least [OF that(1)] matching_unique_priority [of d r RequestMetadata ?fs s] r that assms(1)
    by (auto simp: order_less_le compile_result)
  moreover have "(cond_field q, cond_equals q) \<in> {(''principal.id'', pr), (''tenant.id'', te),
      (''request.protocol'', gate_protocol path), (''request.data_classification'', ''public'')}"
    if "q \<in> set (rule_all r)" for q
  proof -
    have "fmlookup ?fs (cond_field q) = Some (cond_equals q)"
      using r(1) that by (auto simp: matching_rules_def rule_matches_def list_all_iff)
    then show ?thesis
      by (auto simp: gate_fields_def split: if_splits)
  qed
  ultimately show ?thesis using r by (intro bexI [of _ r]) (auto simp: matching_rules_def)
qed

definition sample_rule :: policy_rule where
  "sample_rule = \<lparr>rule_id = ''allow-mcp'', rule_phase = RequestMetadata, rule_priority = 1,
     rule_effect = Allow, rule_all = [\<lparr>cond_field = ''request.protocol'', cond_equals = ''mcp''\<rparr>]\<rparr>"

definition sample_policy :: policy_document where
  "sample_policy = \<lparr>policy_default = Deny, policy_rules = [sample_rule]\<rparr>"

lemma sample_policy_compiles: "compile sample_policy = Inr sample_policy"
  by (simp add: compile_result policy_valid_def sample_policy_def rule_ok_def sample_rule_def
      condition_available_def field_availability_def satisfiable_conditions_def less_eq_policy_phase_def)

lemma sample_match:
  "matching_rules sample_policy RequestMetadata (gate_fields ''alice'' ''acme'' ''/mcp'') = {sample_rule}"
  by (auto simp: matching_rules_def sample_policy_def rule_matches_def gate_fields_def gate_protocol_def
      sample_rule_def)

theorem evaluate_compiled_witness:
  "evaluate sample_policy RequestMetadata (gate_fields ''alice'' ''acme'' ''/mcp'') = Allow"
  using evaluate_compiled [OF sample_policy_compiles, of RequestMetadata "gate_fields ''alice'' ''acme'' ''/mcp''"]
  unfolding sample_match by (simp add: sample_rule_def)

theorem gate_requires_allow_rule_witness:
  "gate_authorize sample_policy ''alice'' ''acme'' ''/mcp''
   \<and> (\<exists>r \<in> set (policy_rules sample_policy). rule_effect r = Allow)"
proof -
  have "gate_authorize sample_policy ''alice'' ''acme'' ''/mcp''"
    by (simp add: gate_authorize_def evaluate_def sample_policy_def sample_rule_def rule_matches_def
        gate_fields_def gate_protocol_def fmlookup_of_list)
  with gate_requires_allow_rule [OF sample_policy_compiles _ this] show ?thesis
    by (auto simp: sample_policy_def)
qed

end
