(* ===== verification/Runtime.thy ===== *)
theory Runtime
  imports Prelude
begin

text \<open>
  Models \<open>crates/gaugemesh-core/src/runtime.rs\<close>: the deficit round robin queue of the
  admission control and the circuit breaker. Lengths, costs and deficits are \<open>usize\<close> in the
  code and \<open>nat\<close> here: the invariant keeps every deficit below the cost of the front item,
  hence below 10000, so the saturating addition never saturates.
\<close>

datatype overload = Overloaded u64

record 'a tenant_queue =
  q_tenant :: string
  deficit :: nat
  quantum :: nat
  q_items :: "(nat \<times> 'a) list"

record 'a drr =
  tenants :: "'a tenant_queue list"
  max_per_tenant :: nat
  max_tenants :: nat
  total_items :: nat

text \<open>\<open>assert!(max_per_tenant > 0 && max_tenants > 0)\<close>: \<open>None\<close> is the panic.\<close>

definition with_limits :: "nat \<Rightarrow> nat \<Rightarrow> 'a drr option" where
  "with_limits per_tenant limit =
     (if per_tenant > 0 \<and> limit > 0
      then Some \<lparr>tenants = [], max_per_tenant = per_tenant, max_tenants = limit, total_items = 0\<rparr>
      else None)"

definition drr_new :: "nat \<Rightarrow> 'a drr option" where
  "drr_new per_tenant = with_limits per_tenant 1024"

definition known_tenant :: "'a drr \<Rightarrow> string \<Rightarrow> bool" where
  "known_tenant d t \<longleftrightarrow> list_ex (\<lambda>q. q_tenant q = t) (tenants d)"

text \<open>Appends to the first queue of the tenant.\<close>

fun push_item :: "string \<Rightarrow> nat \<times> 'a \<Rightarrow> 'a tenant_queue list \<Rightarrow> 'a tenant_queue list" where
  "push_item t item [] = []"
| "push_item t item (q # qs) =
     (if q_tenant q = t then q\<lparr>q_items := q_items q @ [item]\<rparr> # qs else q # push_item t item qs)"

text \<open>The queues \<open>push\<close> appends to: a new tenant gets an empty one first.\<close>

definition with_tenant :: "string \<Rightarrow> 'a drr \<Rightarrow> 'a tenant_queue list" where
  "with_tenant t d =
     (if known_tenant d t then tenants d
      else tenants d @ [\<lparr>q_tenant = t, deficit = 0, quantum = 1, q_items = []\<rparr>])"

definition push :: "string \<Rightarrow> nat \<Rightarrow> 'a \<Rightarrow> 'a drr \<Rightarrow> (overload, unit) res \<times> 'a drr" where
  "push t cost v d =
     (if t = [] \<or> cost > 10000 \<or> \<not> known_tenant d t \<and> length (tenants d) \<ge> max_tenants d
      then (Inl (Overloaded 100), d)
      else
        let d = d\<lparr>tenants := with_tenant t d\<rparr>
        in case find (\<lambda>q. q_tenant q = t) (tenants d) of
             None \<Rightarrow> (Inl (Overloaded 100), d)
           | Some q \<Rightarrow>
               if length (q_items q) \<ge> max_per_tenant d then (Inl (Overloaded 100), d)
               else (Inr (), d\<lparr>tenants := push_item t (max cost 1, v) (tenants d),
                               total_items := total_items d + 1\<rparr>))"

text \<open>The \<open>for\<close> loop of \<open>pop\<close>: at most \<open>n\<close> queues are taken from the front.\<close>

fun pop_loop :: "nat \<Rightarrow> 'a tenant_queue list \<Rightarrow> 'a option \<times> 'a tenant_queue list" where
  "pop_loop 0 qs = (None, qs)"
| "pop_loop (Suc n) [] = (None, [])"
| "pop_loop (Suc n) (q # qs) =
     (let q = q\<lparr>deficit := deficit q + quantum q\<rparr> in
      case q_items q of
        (cost, v) # rest \<Rightarrow>
          if cost \<le> deficit q
          then (Some v, if rest = [] then qs
                        else qs @ [q\<lparr>deficit := deficit q - cost, q_items := rest\<rparr>])
          else pop_loop n (qs @ [q])
      | [] \<Rightarrow> pop_loop n (qs @ [q]))"

definition pop :: "'a drr \<Rightarrow> 'a option \<times> 'a drr" where
  "pop d =
     (let (r, qs) = pop_loop (length (tenants d)) (tenants d) in
      (r, d\<lparr>tenants := qs,
            total_items := (case r of None \<Rightarrow> total_items d | Some _ \<Rightarrow> total_items d - 1)\<rparr>))"

definition drr_len :: "'a drr \<Rightarrow> nat" where
  "drr_len d = total_items d"

definition drr_is_empty :: "'a drr \<Rightarrow> bool" where
  "drr_is_empty d \<longleftrightarrow> total_items d = 0"

section \<open>Circuit breaker\<close>

datatype breaker_state = Closed | Open | HalfOpen

record circuit_breaker =
  br_state :: breaker_state
  failures :: u16
  successes :: u16
  opened_at_ms :: "u64 option"
  open_threshold :: u16
  recovery_threshold :: u16
  open_interval_ms :: nat

definition breaker_new :: "u16 \<Rightarrow> u16 \<Rightarrow> nat \<Rightarrow> circuit_breaker option" where
  "breaker_new open_at recover_at interval =
     (if open_at > recover_at \<and> recover_at > 0
      then Some \<lparr>br_state = Closed, failures = 0, successes = 0, opened_at_ms = None,
                 open_threshold = open_at, recovery_threshold = recover_at,
                 open_interval_ms = interval\<rparr>
      else None)"

definition breaker_query :: "u64 \<Rightarrow> circuit_breaker \<Rightarrow> circuit_breaker" where
  "breaker_query now b =
     (if br_state b = Open
         \<and> (case opened_at_ms b of None \<Rightarrow> False
            | Some opened \<Rightarrow> saturating_sub now opened \<ge> word_of_nat (open_interval_ms b))
      then b\<lparr>br_state := HalfOpen, successes := 0\<rparr> else b)"

definition record_failure :: "u64 \<Rightarrow> circuit_breaker \<Rightarrow> circuit_breaker" where
  "record_failure now b =
     (let b = b\<lparr>failures := saturating_add (failures b) 1, successes := 0\<rparr> in
      if failures b \<ge> open_threshold b then b\<lparr>br_state := Open, opened_at_ms := Some now\<rparr> else b)"

definition record_success :: "circuit_breaker \<Rightarrow> circuit_breaker" where
  "record_success b =
     (let b = b\<lparr>failures := 0\<rparr> in
      if br_state b = HalfOpen
      then let b = b\<lparr>successes := saturating_add (successes b) 1\<rparr> in
           if successes b \<ge> recovery_threshold b
           then b\<lparr>br_state := Closed, opened_at_ms := None\<rparr> else b
      else b)"

section \<open>The queue invariant\<close>

definition front_cost :: "'a tenant_queue \<Rightarrow> nat" where
  "front_cost q = fst (hd (q_items q))"

definition queue_ok :: "nat \<Rightarrow> 'a tenant_queue \<Rightarrow> bool" where
  "queue_ok limit q \<longleftrightarrow>
     q_tenant q \<noteq> [] \<and> quantum q = 1 \<and> q_items q \<noteq> [] \<and> length (q_items q) \<le> limit
     \<and> (\<forall>(c, v) \<in> set (q_items q). 1 \<le> c \<and> c \<le> 10000) \<and> deficit q < front_cost q"

definition item_count :: "'a tenant_queue list \<Rightarrow> nat" where
  "item_count qs = (\<Sum>q\<leftarrow>qs. length (q_items q))"

definition drr_inv :: "'a drr \<Rightarrow> bool" where
  "drr_inv d \<longleftrightarrow>
     0 < max_per_tenant d \<and> 0 < max_tenants d
     \<and> distinct (map q_tenant (tenants d)) \<and> length (tenants d) \<le> max_tenants d
     \<and> (\<forall>q \<in> set (tenants d). queue_ok (max_per_tenant d) q)
     \<and> total_items d = item_count (tenants d)"

text \<open>What is queued for a tenant, oldest first.\<close>

definition items_of :: "'a tenant_queue list \<Rightarrow> string \<Rightarrow> (nat \<times> 'a) list" where
  "items_of qs t = concat (map q_items (filter (\<lambda>q. q_tenant q = t) qs))"

definition queued :: "'a drr \<Rightarrow> string \<Rightarrow> (nat \<times> 'a) list" where
  "queued d = items_of (tenants d)"

lemma items_of_append [simp]: "items_of (xs @ ys) t = items_of xs t @ items_of ys t"
  by (simp add: items_of_def)

lemma items_of_Cons [simp]:
  "items_of (q # qs) t = (if q_tenant q = t then q_items q @ items_of qs t else items_of qs t)"
  by (simp add: items_of_def)

lemma items_of_Nil [simp]: "items_of [] t = []"
  by (simp add: items_of_def)

lemma items_of_unknown: "t \<notin> q_tenant ` set qs \<Longrightarrow> items_of qs t = []"
  by (induction qs) auto

lemma item_count_simps [simp]:
  "item_count [] = 0" "item_count (q # qs) = length (q_items q) + item_count qs"
  "item_count (xs @ ys) = item_count xs + item_count ys"
  by (simp_all add: item_count_def)

subsection \<open>Pop\<close>

text \<open>One more quantum for a queue whose front item is not yet affordable.\<close>

definition bump :: "'a tenant_queue \<Rightarrow> 'a tenant_queue" where
  "bump q = q\<lparr>deficit := deficit q + quantum q\<rparr>"

lemma bump_fields [simp]:
  "q_tenant (bump q) = q_tenant q" "q_items (bump q) = q_items q" "quantum (bump q) = quantum q"
  "deficit (bump q) = deficit q + quantum q" "front_cost (bump q) = front_cost q"
  by (simp_all add: bump_def front_cost_def)

definition waits :: "'a tenant_queue \<Rightarrow> bool" where
  "waits q \<longleftrightarrow> q_items q \<noteq> [] \<and> deficit q + quantum q < front_cost q"

lemma pop_loop_waits:
  assumes "\<forall>q \<in> set qs. waits q"
  shows "pop_loop (length qs + n) (qs @ rs) = pop_loop n (rs @ map bump qs)"
  using assms
proof (induction qs arbitrary: rs)
  case (Cons q qs)
  obtain c v rest where "q_items q = (c, v) # rest"
    using Cons.prems by (cases "q_items q") (auto simp: waits_def)
  moreover have "\<not> c \<le> deficit q + quantum q"
    using Cons.prems calculation by (simp add: waits_def front_cost_def)
  ultimately show ?case
    using Cons.IH [of "rs @ [bump q]"] Cons.prems by (simp add: bump_def)
qed simp

definition served :: "'a tenant_queue \<Rightarrow> 'a tenant_queue list" where
  "served q =
     (if tl (q_items q) = [] then []
      else [q\<lparr>deficit := deficit q + quantum q - front_cost q, q_items := tl (q_items q)\<rparr>])"

lemma pop_loop_serves:
  assumes "\<forall>q \<in> set as. waits q" "q_items q \<noteq> []" "front_cost q \<le> deficit q + quantum q"
  shows "pop_loop (Suc (length as + n)) (as @ q # bs)
       = (Some (snd (hd (q_items q))), bs @ map bump as @ served q)"
proof -
  obtain c v rest where "q_items q = (c, v) # rest"
    using assms(2) by (cases "q_items q") auto
  with assms(3) show ?thesis
    using pop_loop_waits [OF assms(1), of "Suc n" "q # bs"]
    by (simp add: front_cost_def served_def)
qed

lemma pop_cases:
  assumes "drr_inv d"
  obtains (waiting) "\<forall>q \<in> set (tenants d). waits q"
      "pop d = (None, d\<lparr>tenants := map bump (tenants d)\<rparr>)"
    | (serving) as q bs where "tenants d = as @ q # bs" "\<forall>x \<in> set as. waits x"
        "deficit q + 1 = front_cost q"
        "pop d = (Some (snd (hd (q_items q))),
                  d\<lparr>tenants := bs @ map bump as @ served q, total_items := total_items d - 1\<rparr>)"
proof (cases "\<forall>q \<in> set (tenants d). waits q")
  case True
  then show ?thesis
    using waiting pop_loop_waits [OF True, of 0 "[]"] by (simp add: pop_def)
next
  case False
  then obtain as q bs where s: "tenants d = as @ q # bs" "\<not> waits q" "\<forall>x \<in> set as. waits x"
    using split_list_first_prop [of "tenants d" "\<lambda>q. \<not> waits q"] by auto
  have q: "queue_ok (max_per_tenant d) q" using assms s(1) by (simp add: drr_inv_def)
  then have front: "deficit q + 1 = front_cost q"
    using s(2) by (auto simp: queue_ok_def waits_def)
  have "pop_loop (length (tenants d)) (tenants d)
      = (Some (snd (hd (q_items q))), bs @ map bump as @ served q)"
    using pop_loop_serves [OF s(3), of q "length bs" bs] q front s(1) by (simp add: queue_ok_def)
  with s front serving show ?thesis by (simp add: pop_def)
qed

lemma waits_bump: "queue_ok n q \<Longrightarrow> waits q \<Longrightarrow> queue_ok n (bump q)"
  by (simp add: queue_ok_def waits_def)

lemma served_ok:
  assumes "queue_ok n q" "deficit q + 1 = front_cost q" "x \<in> set (served q)"
  shows "queue_ok n x \<and> q_tenant x = q_tenant q \<and> q_items x = tl (q_items q)"
proof (cases "q_items q")
  case (Cons i rest)
  with assms show ?thesis
    by (cases rest) (auto simp: served_def queue_ok_def front_cost_def split: if_splits)
qed (use assms in \<open>simp add: queue_ok_def\<close>)

lemma pop_inv:
  assumes "drr_inv d"
  shows "drr_inv (snd (pop d))"
  using assms
proof (cases rule: pop_cases)
  case waiting
  then show ?thesis
    using assms by (auto simp: drr_inv_def waits_bump comp_def item_count_def)
next
  case (serving as q bs)
  have q: "queue_ok (max_per_tenant d) q" using assms serving(1) by (simp add: drr_inv_def)
  have names: "map q_tenant (served q) = (if tl (q_items q) = [] then [] else [q_tenant q])"
    by (simp add: served_def)
  have len: "length (served q) \<le> 1" by (simp add: served_def)
  have count: "item_count (served q) + 1 = length (q_items q)"
    using q by (cases "q_items q") (auto simp: served_def queue_ok_def)
  have "item_count (map bump as) = item_count as" by (simp add: item_count_def comp_def)
  with assms serving(1-3) count len show ?thesis
    unfolding serving(4) using waits_bump served_ok [OF q serving(3)]
    by (auto simp: drr_inv_def names comp_def split: if_splits)
qed

lemma pop_serves_queued:
  assumes "drr_inv d" "fst (pop d) = Some v"
  shows "\<exists>t c rest. queued d t = (c, v) # rest \<and> queued (snd (pop d)) = (queued d)(t := rest)"
  using assms(1)
proof (cases rule: pop_cases)
  case waiting
  with assms(2) show ?thesis by simp
next
  case (serving as q bs)
  have q: "queue_ok (max_per_tenant d) q"
    and names: "distinct (map q_tenant (as @ q # bs))"
    using assms(1) serving(1) by (simp_all add: drr_inv_def)
  obtain c rest where items: "q_items q = (c, v) # rest"
    using q assms(2) serving(4) by (cases "q_items q") (auto simp: queue_ok_def)
  have sv: "items_of (served q) t = (if q_tenant q = t then rest else [])" for t
    using items by (simp add: served_def)
  have bumped: "items_of (map bump as) t = items_of as t" for t
    by (induction as) auto
  have mine: "items_of as (q_tenant q) = []" "items_of bs (q_tenant q) = []"
    using names by (auto intro!: items_of_unknown)
  have "items_of as t = [] \<or> items_of bs t = []" for t
    using names items_of_unknown [of t as] items_of_unknown [of t bs] by fastforce
  then have "items_of bs t @ items_of as t = items_of as t @ items_of bs t" for t
    by (metis append_Nil append_Nil2)
  then have "queued (snd (pop d)) = (queued d)(q_tenant q := rest)"
    using serving(1) mine by (intro ext) (simp add: serving(4) queued_def sv bumped)
  moreover have "queued d (q_tenant q) = (c, v) # rest"
    using serving(1) mine items by (simp add: queued_def)
  ultimately show ?thesis by blast
qed

lemma pop_none:
  assumes "drr_inv d" "fst (pop d) = None"
  shows "snd (pop d) = d\<lparr>tenants := map bump (tenants d)\<rparr> \<and> (\<forall>q \<in> set (tenants d). waits q)"
  using assms(1) by (cases rule: pop_cases) (use assms(2) in auto)

lemma item_count_0: "\<forall>q \<in> set qs. q_items q \<noteq> [] \<Longrightarrow> item_count qs = 0 \<longleftrightarrow> qs = []"
  by (cases qs) auto

text \<open>A queue waits for as many calls as its front item lacks quanta.\<close>

fun pops :: "nat \<Rightarrow> 'a drr \<Rightarrow> 'a drr" where
  "pops 0 d = d"
| "pops (Suc n) d = pops n (snd (pop d))"

lemma pop_eventually:
  assumes "drr_inv d" "tenants d = q # qs" "front_cost q - deficit q \<le> Suc n"
  shows "\<exists>k \<le> n. fst (pop (pops k d)) \<noteq> None"
  using assms
proof (induction n arbitrary: d q qs)
  case 0
  then have "\<not> waits q" by (auto simp: waits_def drr_inv_def queue_ok_def)
  then have "fst (pop d) \<noteq> None" using pop_none [OF 0(1)] 0(2) by auto
  then show ?case by simp
next
  case (Suc n)
  show ?case
  proof (cases "fst (pop d)")
    case None
    from pop_none [OF Suc.prems(1) this] Suc.prems(2)
    have t: "tenants (snd (pop d)) = bump q # map bump qs" by simp
    have "quantum q = 1" using Suc.prems(1,2) by (simp add: drr_inv_def queue_ok_def)
    then have "front_cost (bump q) - deficit (bump q) \<le> Suc n" using Suc.prems(3) by simp
    from Suc.IH [OF pop_inv [OF Suc.prems(1)] t this] show ?thesis
      by (metis Suc_le_mono pops.simps(2))
  next
    case (Some v)
    then show ?thesis by (intro exI [of _ 0]) simp
  qed
qed

subsection \<open>Push\<close>

lemma push_item_names: "map q_tenant (push_item t i qs) = map q_tenant qs"
  by (induction qs) auto

lemma push_item_items:
  assumes "distinct (map q_tenant qs)"
  shows "items_of (push_item t i qs)
       = (if t \<in> q_tenant ` set qs then (items_of qs)(t := items_of qs t @ [i]) else items_of qs)"
  using assms
proof (induction qs)
  case (Cons q qs)
  then show ?case by (auto simp: items_of_unknown fun_eq_iff)
qed auto

lemma find_queue:
  assumes "distinct (map q_tenant qs)" "q \<in> set qs"
  shows "find (\<lambda>x. q_tenant x = q_tenant q) qs = Some q"
  using assms by (rule find_key)

lemma items_of_known:
  assumes "distinct (map q_tenant qs)" "q \<in> set qs"
  shows "items_of qs (q_tenant q) = q_items q"
  using assms by (induction qs) (auto simp: items_of_unknown)

lemma known_tenant_iff: "known_tenant d t \<longleftrightarrow> t \<in> q_tenant ` set (tenants d)"
  by (auto simp: known_tenant_def list_ex_iff)

lemma push_item_count:
  "t \<in> q_tenant ` set qs \<Longrightarrow> item_count (push_item t i qs) = item_count qs + 1"
  by (induction qs) auto

text \<open>A queue that still satisfies the invariant when an item is added for tenant \<open>t\<close>.\<close>

definition can_take :: "string \<Rightarrow> nat \<Rightarrow> 'a tenant_queue \<Rightarrow> bool" where
  "can_take t n q \<longleftrightarrow>
     (if q_tenant q = t
             then quantum q = 1 \<and> t \<noteq> [] \<and> length (q_items q) < n
                  \<and> (\<forall>(c, v) \<in> set (q_items q). 1 \<le> c \<and> c \<le> 10000)
                  \<and> (if q_items q = [] then deficit q = 0 else deficit q < front_cost q)
             else queue_ok n q)"

lemma push_item_ok:
  assumes "\<forall>q \<in> set qs. can_take t n q"
    and "1 \<le> c" "c \<le> 10000" "distinct (map q_tenant qs)"
  shows "\<forall>q \<in> set (push_item t (c, v) qs). queue_ok n q"
  using assms
proof (induction qs)
  case (Cons q qs)
  show ?case
  proof (cases "q_tenant q = t")
    case True
    have "queue_ok n (q\<lparr>q_items := q_items q @ [(c, v)]\<rparr>)"
      using True Cons.prems(1-3)
      by (cases "q_items q") (auto simp: can_take_def queue_ok_def front_cost_def)
    moreover have "\<forall>x \<in> set qs. queue_ok n x"
      using True Cons.prems(1,4) by (auto simp: image_iff can_take_def)
    ultimately show ?thesis using True by simp
  next
    case False
    have "\<forall>x \<in> set (push_item t (c, v) qs). queue_ok n x"
      using Cons.prems by (intro Cons.IH) simp_all
    moreover have "queue_ok n q" using False Cons.prems(1) by (simp add: can_take_def)
    ultimately show ?thesis using False by simp
  qed
qed simp

lemma with_tenant_facts:
  assumes "drr_inv d"
  shows "distinct (map q_tenant (with_tenant t d))" "t \<in> q_tenant ` set (with_tenant t d)"
    "items_of (with_tenant t d) = queued d" "item_count (with_tenant t d) = total_items d"
    "length (with_tenant t d) = (if known_tenant d t then length (tenants d) else Suc (length (tenants d)))"
  using assms
  by (auto simp: with_tenant_def drr_inv_def known_tenant_iff queued_def fun_eq_iff)

lemma push_result:
  assumes "drr_inv d"
  shows "push t cost v d =
     (if t = [] \<or> cost > 10000 \<or> \<not> known_tenant d t \<and> length (tenants d) \<ge> max_tenants d
         \<or> length (queued d t) \<ge> max_per_tenant d
      then (Inl (Overloaded 100), d)
      else (Inr (), d\<lparr>tenants := push_item t (max cost 1, v) (with_tenant t d),
                      total_items := total_items d + 1\<rparr>))"
proof -
  note w = with_tenant_facts [OF assms, of t]
  obtain q where q: "q \<in> set (with_tenant t d)" "q_tenant q = t" using w(2) by auto
  have f: "find (\<lambda>x. q_tenant x = t) (with_tenant t d) = Some q" and l: "q_items q = queued d t"
    using find_queue [OF w(1) q(1)] items_of_known [OF w(1) q(1)] q(2) w(3) by simp_all
  have "with_tenant t d = tenants d" if "length (queued d t) \<ge> max_per_tenant d"
  proof -
    have "queued d t \<noteq> []" using that assms by (auto simp: drr_inv_def)
    then have "known_tenant d t"
      using items_of_unknown [of t "tenants d"] by (auto simp: known_tenant_iff queued_def)
    then show ?thesis by (simp add: with_tenant_def)
  qed
  then show ?thesis
    using f l by (cases "length (queued d t) \<ge> max_per_tenant d") (simp_all add: push_def Let_def)
qed

lemma push_inv:
  assumes "drr_inv d"
  shows "drr_inv (snd (push t cost v d))"
proof (cases "fst (push t cost v d)")
  case (Inl e)
  then have "snd (push t cost v d) = d" by (auto simp: push_result [OF assms] split: if_splits)
  with assms show ?thesis by simp
next
  case (Inr u)
  note w = with_tenant_facts [OF assms, of t]
  from Inr have g: "t \<noteq> []" "cost \<le> 10000" "length (queued d t) < max_per_tenant d"
      "known_tenant d t \<or> length (tenants d) < max_tenants d"
    and r: "snd (push t cost v d) = d\<lparr>tenants := push_item t (max cost 1, v) (with_tenant t d),
                                     total_items := total_items d + 1\<rparr>"
    by (auto simp: push_result [OF assms] split: if_splits)
  have old: "queue_ok (max_per_tenant d) q" if "q \<in> set (tenants d)" for q
    using assms that by (simp add: drr_inv_def)
  have "\<forall>q \<in> set (push_item t (max cost 1, v) (with_tenant t d)). queue_ok (max_per_tenant d) q"
  proof (rule push_item_ok)
    show "\<forall>q \<in> set (with_tenant t d). can_take t (max_per_tenant d) q"
    proof
      fix q assume q: "q \<in> set (with_tenant t d)"
      have "q_tenant q = t \<Longrightarrow> length (q_items q) < max_per_tenant d"
        using items_of_known [OF w(1) q] w(3) g(3) by simp
      with q old [of q] g(1) show "can_take t (max_per_tenant d) q"
        by (auto simp: can_take_def with_tenant_def queue_ok_def split: if_splits)
    qed
  qed (use g w in auto)
  moreover have "length (push_item t (max cost 1, v) (with_tenant t d)) = length (with_tenant t d)"
    by (metis length_map push_item_names)
  ultimately show ?thesis
    using assms g(4) w push_item_count [OF w(2)] unfolding r
    by (auto simp: drr_inv_def push_item_names)
qed

section \<open>Every reachable queue\<close>

text \<open>The queues that pushes and pops build from an empty one.\<close>

inductive drr_reachable :: "'a drr \<Rightarrow> bool" where
  drr_start: "with_limits per_tenant limit = Some d \<Longrightarrow> drr_reachable d"
| drr_push: "drr_reachable d \<Longrightarrow> drr_reachable (snd (push t cost v d))"
| drr_pop: "drr_reachable d \<Longrightarrow> drr_reachable (snd (pop d))"

lemma drr_reachable_inv: "drr_reachable d \<Longrightarrow> drr_inv d"
  by (induction rule: drr_reachable.induct)
     (auto simp: with_limits_def drr_inv_def [of "\<lparr>tenants = [], max_per_tenant = _, max_tenants = _,
        total_items = _\<rparr>"] push_inv pop_inv split: if_splits)

lemma pops_inv: "drr_inv d \<Longrightarrow> drr_inv (pops n d)"
  by (induction n arbitrary: d) (auto intro: pop_inv)

text \<open>
  In every reachable queue an item is accepted exactly when its tenant is named, its cost is
  at most 10000, the tenant is known or there is room for another one, and the tenant has fewer
  than its maximum of items waiting; it then goes to the end of that tenant's items, and a
  rejected push changes nothing.
\<close>

theorem push_appends:
  assumes "drr_reachable d"
  shows "if t \<noteq> [] \<and> cost \<le> 10000 \<and> (known_tenant d t \<or> length (tenants d) < max_tenants d)
            \<and> length (queued d t) < max_per_tenant d
         then fst (push t cost v d) = Inr ()
            \<and> queued (snd (push t cost v d)) = (queued d)(t := queued d t @ [(max cost 1, v)])
            \<and> drr_len (snd (push t cost v d)) = drr_len d + 1
         else push t cost v d = (Inl (Overloaded 100), d)"
  using with_tenant_facts [OF drr_reachable_inv [OF assms], of t]
  by (auto simp: push_result [OF drr_reachable_inv [OF assms]] queued_def push_item_items drr_len_def
      not_le not_less)

text \<open>
  In every reachable queue a popped value is the oldest item of some tenant and is removed
  from that tenant's items, while no other tenant's items change; \<open>len\<close> counts the items.
\<close>

theorem pop_takes_oldest:
  assumes "drr_reachable d"
  shows "drr_len d = item_count (tenants d)
     \<and> (case fst (pop d) of
          None \<Rightarrow> queued (snd (pop d)) = queued d
        | Some v \<Rightarrow> \<exists>t c rest. queued d t = (c, v) # rest \<and> queued (snd (pop d)) = (queued d)(t := rest))"
proof -
  note inv = drr_reachable_inv [OF assms]
  have "items_of (map bump qs) = items_of qs" for qs :: "'a tenant_queue list"
    by (induction qs) auto
  then show ?thesis
    using pop_serves_queued [OF inv] pop_none [OF inv] inv
    by (auto simp: drr_len_def drr_inv_def queued_def split: option.split)
qed

text \<open>
  A reachable queue that holds an item returns one after fewer than 10000 further calls of
  \<open>pop\<close> that return nothing, whatever the costs: no tenant starves the queue.
\<close>

theorem pop_progress:
  assumes "drr_reachable d" "\<not> drr_is_empty d"
  shows "\<exists>k < 10000. fst (pop (pops k d)) \<noteq> None"
proof -
  note inv = drr_reachable_inv [OF assms(1)]
  from assms(2) inv obtain q qs where q: "tenants d = q # qs"
    by (cases "tenants d") (auto simp: drr_is_empty_def drr_inv_def)
  then have "queue_ok (max_per_tenant d) q" using inv by (simp add: drr_inv_def)
  then have "front_cost q \<le> 10000"
    by (cases "q_items q") (auto simp: queue_ok_def front_cost_def)
  then have "front_cost q - deficit q \<le> Suc 9999" by simp
  from pop_eventually [OF inv q this] obtain k where "k \<le> 9999" "fst (pop (pops k d)) \<noteq> None"
    by blast
  then show ?thesis by (intro exI [of _ k]) simp
qed

definition sample_drr :: "nat drr" where
  "sample_drr = snd (push ''a'' 3 7 \<lparr>tenants = [], max_per_tenant = 2, max_tenants = 2, total_items = 0\<rparr>)"

lemma sample_drr_reachable: "drr_reachable sample_drr"
  unfolding sample_drr_def by (rule drr_push, rule drr_start [of 2 2]) (simp add: with_limits_def)

lemma sample_drr_value:
  "sample_drr = \<lparr>tenants = [\<lparr>q_tenant = ''a'', deficit = 0, quantum = 1, q_items = [(3, 7)]\<rparr>],
     max_per_tenant = 2, max_tenants = 2, total_items = 1\<rparr>"
  by (simp add: sample_drr_def push_def with_tenant_def known_tenant_def)

theorem push_appends_witness:
  "fst (push ''b'' 1 9 sample_drr) = Inr () \<and> queued (snd (push ''b'' 1 9 sample_drr)) ''b'' = [(1, 9)]"
  using push_appends [OF sample_drr_reachable, of "''b''" 1 9]
  by (simp add: sample_drr_value queued_def)

theorem pop_takes_oldest_witness: "drr_len sample_drr = 1"
  using pop_takes_oldest [OF sample_drr_reachable] by (simp add: sample_drr_value)

theorem pop_progress_witness: "\<exists>k < 10000. fst (pop (pops k sample_drr)) \<noteq> None"
  by (rule pop_progress [OF sample_drr_reachable]) (simp add: sample_drr_value drr_is_empty_def)

section \<open>Reachable breakers\<close>

datatype breaker_event = Query u64 | Failure u64 | Success

fun breaker_step :: "breaker_event \<Rightarrow> circuit_breaker \<Rightarrow> circuit_breaker" where
  "breaker_step (Query now) b = breaker_query now b"
| "breaker_step (Failure now) b = record_failure now b"
| "breaker_step Success b = record_success b"

inductive breaker_reachable :: "circuit_breaker \<Rightarrow> bool" where
  breaker_start: "breaker_new open_at recover_at interval = Some b \<Longrightarrow> breaker_reachable b"
| breaker_event: "breaker_reachable b \<Longrightarrow> breaker_reachable (breaker_step e b)"

definition breaker_inv :: "circuit_breaker \<Rightarrow> bool" where
  "breaker_inv b \<longleftrightarrow>
     0 < recovery_threshold b \<and> recovery_threshold b < open_threshold b
     \<and> (case br_state b of
          Closed \<Rightarrow> failures b < open_threshold b \<and> opened_at_ms b = None
        | Open \<Rightarrow> opened_at_ms b \<noteq> None
        | HalfOpen \<Rightarrow> opened_at_ms b \<noteq> None \<and> successes b < recovery_threshold b)"

lemma breaker_step_inv: "breaker_inv b \<Longrightarrow> breaker_inv (breaker_step e b)"
  by (cases e; cases "br_state b")
     (auto simp: breaker_inv_def breaker_query_def record_failure_def record_success_def Let_def
        not_le split: option.splits)

lemma breaker_reachable_inv: "breaker_reachable b \<Longrightarrow> breaker_inv b"
  by (induction rule: breaker_reachable.induct)
     (auto simp: breaker_new_def breaker_inv_def [of "\<lparr>br_state = Closed, failures = _, successes = _,
        opened_at_ms = _, open_threshold = _, recovery_threshold = _, open_interval_ms = _\<rparr>"]
        breaker_step_inv split: if_splits)

text \<open>
  A reachable breaker is closed only with fewer consecutive failures than the threshold;
  one event moves it from closed only to open, on the failure that reaches the threshold; from
  open only to half open, on a query at least the interval after the opening; and from half open
  to closed only on a success that reaches the recovery threshold.
\<close>

theorem breaker_transitions:
  assumes "breaker_reachable b" "br_state (breaker_step e b) \<noteq> br_state b"
  shows "(br_state b, br_state (breaker_step e b)) \<in> {(Closed, Open), (Open, HalfOpen), (HalfOpen, Open), (HalfOpen, Closed)}
     \<and> (br_state b = Closed \<longrightarrow> failures b < open_threshold b)
     \<and> (br_state (breaker_step e b) = Open \<longrightarrow> (\<exists>now. e = Failure now
          \<and> opened_at_ms (breaker_step e b) = Some now
          \<and> open_threshold b \<le> saturating_add (failures b) 1))
     \<and> (br_state (breaker_step e b) = HalfOpen \<longrightarrow> (\<exists>now opened. e = Query now
          \<and> opened_at_ms b = Some opened
          \<and> word_of_nat (open_interval_ms b) \<le> saturating_sub now opened))
     \<and> (br_state (breaker_step e b) = Closed \<longrightarrow>
          e = Success \<and> recovery_threshold b \<le> saturating_add (successes b) 1)"
  using breaker_reachable_inv [OF assms(1)] assms(2)
  by (cases e; cases "br_state b")
     (auto simp: breaker_inv_def breaker_query_def record_failure_def record_success_def Let_def
        split: option.splits if_splits)

definition sample_breaker :: circuit_breaker where
  "sample_breaker = \<lparr>br_state = Closed, failures = 0, successes = 0, opened_at_ms = None,
     open_threshold = 2, recovery_threshold = 1, open_interval_ms = 1000\<rparr>"

lemma sample_breaker_reachable: "breaker_reachable sample_breaker"
  by (rule breaker_start [of 2 1 1000]) (simp add: breaker_new_def sample_breaker_def)

theorem breaker_transitions_witness:
  "open_threshold sample_breaker
     \<le> saturating_add (failures (breaker_step (Failure 5) sample_breaker)) 1"
  using breaker_transitions [OF breaker_event [OF sample_breaker_reachable, of "Failure 5"], of "Failure 6"]
  by (simp add: sample_breaker_def record_failure_def saturating_add_def Let_def)

end
