(* ===== verification/Task.thy ===== *)
theory Task
  imports Context
begin

text \<open>
  Models \<open>crates/gaugemesh-core/src/task.rs\<close>: the durable record that routes a task to its
  upstream, its shape checks, its integrity digest and its transitions. JSON values that the
  code serializes always serialize, so the error branches of \<open>to_vec\<close> are absent.
\<close>

definition TASK_ROUTE_SCHEMA_VERSION :: u16 where "TASK_ROUTE_SCHEMA_VERSION = 1"
definition MAX_SUBMISSION_BINDING_BYTES :: nat where "MAX_SUBMISSION_BINDING_BYTES = 16 * 1024"
definition MAX_CACHED_TERMINAL_STATE_BYTES :: nat where "MAX_CACHED_TERMINAL_STATE_BYTES = 64 * 1024"
definition MAX_IDENTIFIER_BYTES :: nat where "MAX_IDENTIFIER_BYTES = 128"
definition MAX_UPSTREAM_TASK_ID_BYTES :: nat where "MAX_UPSTREAM_TASK_ID_BYTES = 1024"
definition MAX_SQLITE_INTEGER :: u64 where "MAX_SQLITE_INTEGER = 9223372036854775807"

type_synonym public_task_id = string
type_synonym upstream_task_id = string
type_synonym idempotency_key = string

record task_caller =
  caller_principal :: principal_id
  caller_tenant :: tenant_id

datatype task_phase =
  Prepared | Dispatching | Routed | Terminal | ReconciliationRequired | CancelRequested

record task_route =
  tr_schema_version :: u16
  tr_public_id :: public_task_id
  tr_caller :: task_caller
  tr_idempotency_key :: "idempotency_key option"
  tr_request_digest :: sha256_digest
  tr_binding :: json
  tr_capability :: capability_id
  tr_source :: source_id
  tr_session :: string
  tr_upstream :: "upstream_task_id option"
  tr_owner :: "string option"
  tr_phase :: task_phase
  tr_created :: u64
  tr_updated :: u64
  tr_ttl :: u64
  tr_expires :: u64
  tr_version :: u64
  tr_cached :: "json option"
  tr_integrity :: sha256_digest

record task_update =
  up_phase :: task_phase
  up_upstream :: "upstream_task_id option"
  up_owner :: "string option"
  up_updated :: u64
  up_cached :: "json option"

definition update_dispatching :: "string \<Rightarrow> u64 \<Rightarrow> task_update" where
  "update_dispatching owner now = \<lparr>up_phase = Dispatching, up_upstream = None,
     up_owner = Some owner, up_updated = now, up_cached = None\<rparr>"

definition update_routed :: "upstream_task_id \<Rightarrow> u64 \<Rightarrow> task_update" where
  "update_routed i now = \<lparr>up_phase = Routed, up_upstream = Some i, up_owner = None,
     up_updated = now, up_cached = None\<rparr>"

definition update_terminal :: "u64 \<Rightarrow> json \<Rightarrow> task_update" where
  "update_terminal now v = \<lparr>up_phase = Terminal, up_upstream = None, up_owner = None,
     up_updated = now, up_cached = Some v\<rparr>"

definition update_reconciliation_required :: "u64 \<Rightarrow> task_update" where
  "update_reconciliation_required now = \<lparr>up_phase = ReconciliationRequired, up_upstream = None,
     up_owner = None, up_updated = now, up_cached = None\<rparr>"

definition update_cancel_requested :: "u64 \<Rightarrow> task_update" where
  "update_cancel_requested now = \<lparr>up_phase = CancelRequested, up_upstream = None,
     up_owner = None, up_updated = now, up_cached = None\<rparr>"

definition update_cancel_requested_with_upstream :: "upstream_task_id \<Rightarrow> u64 \<Rightarrow> task_update" where
  "update_cancel_requested_with_upstream i now = \<lparr>up_phase = CancelRequested,
     up_upstream = Some i, up_owner = None, up_updated = now, up_cached = None\<rparr>"

datatype task_error =
    InvalidIdentifier string
  | InvalidTtl
  | InvalidTimestamp
  | NumericRange
  | CapabilitySourceMismatch
  | RequestDigestMismatch
  | SubmissionBindingTooLarge nat nat
  | TerminalStateTooLarge nat nat
  | TerminalStateOutsideTerminalPhase
  | TerminalStateMissing
  | PreparedHasUpstreamTask
  | RoutedWithoutUpstreamTask
  | NotPreparedForBegin
  | UpstreamTaskChanged
  | UpstreamTaskAssignedOutsideRoutedTransition
  | InvalidTransition task_phase task_phase
  | IntegrityMismatch

section \<open>Identifiers\<close>

definition identifier_ok :: "string \<Rightarrow> nat \<Rightarrow> bool" where
  "identifier_ok s limit \<longleftrightarrow> s \<noteq> [] \<and> length s \<le> limit \<and> \<not> has_control s"

definition validate_identifier :: "string \<Rightarrow> nat \<Rightarrow> string \<Rightarrow> (task_error, unit) res" where
  "validate_identifier s limit name = ensure (identifier_ok s limit) (InvalidIdentifier name)"

definition public_task_id_new :: "string \<Rightarrow> (task_error, public_task_id) res" where
  "public_task_id_new s =
     rbind (validate_identifier s MAX_IDENTIFIER_BYTES ''public task ID'') (\<lambda>_. Inr s)"

definition idempotency_key_new :: "string \<Rightarrow> (task_error, idempotency_key) res" where
  "idempotency_key_new s =
     rbind (validate_identifier s MAX_IDENTIFIER_BYTES ''idempotency key'') (\<lambda>_. Inr s)"

definition upstream_task_id_new :: "string \<Rightarrow> (task_error, upstream_task_id) res" where
  "upstream_task_id_new s =
     rbind (validate_identifier s MAX_UPSTREAM_TASK_ID_BYTES ''upstream task ID'') (\<lambda>_. Inr s)"

definition task_caller_new :: "principal_id \<Rightarrow> tenant_id \<Rightarrow> (task_error, task_caller) res" where
  "task_caller_new p t =
     rbind (validate_identifier p MAX_IDENTIFIER_BYTES ''principal ID'') (\<lambda>_.
     rbind (validate_identifier t MAX_IDENTIFIER_BYTES ''tenant ID'') (\<lambda>_.
       Inr \<lparr>caller_principal = p, caller_tenant = t\<rparr>))"

section \<open>Integrity\<close>

fun phase_name :: "task_phase \<Rightarrow> string" where
  "phase_name Prepared = ''prepared''"
| "phase_name Dispatching = ''dispatching''"
| "phase_name Routed = ''routed''"
| "phase_name Terminal = ''terminal''"
| "phase_name ReconciliationRequired = ''reconciliation_required''"
| "phase_name CancelRequested = ''cancel_requested''"

definition caller_json :: "task_caller \<Rightarrow> json" where
  "caller_json c =
     JObj [(''principal'', JStr (caller_principal c)), (''tenant'', JStr (caller_tenant c))]"

definition task_json :: "platform \<Rightarrow> task_route \<Rightarrow> json" where
  "task_json P r =
     JObj [(''schema_version'', u16_json (tr_schema_version r)),
           (''public_task_id'', JStr (tr_public_id r)),
           (''caller'', caller_json (tr_caller r)),
           (''idempotency_key'', opt_json JStr (tr_idempotency_key r)),
           (''request_digest'', digest_json P (tr_request_digest r)),
           (''submission_binding'', tr_binding r),
           (''capability'', capability_json P (tr_capability r)),
           (''capability_source'', JStr (tr_source r)),
           (''upstream_session_id'', JStr (tr_session r)),
           (''upstream_task_id'', opt_json JStr (tr_upstream r)),
           (''dispatch_owner_id'', opt_json JStr (tr_owner r)),
           (''phase'', JStr (phase_name (tr_phase r))),
           (''created_at_unix_ms'', u64_json (tr_created r)),
           (''updated_at_unix_ms'', u64_json (tr_updated r)),
           (''ttl_ms'', u64_json (tr_ttl r)),
           (''expires_at_unix_ms'', u64_json (tr_expires r)),
           (''transition_version'', u64_json (tr_version r)),
           (''cached_terminal_state'', opt_json (\<lambda>v. v) (tr_cached r))]"

definition expected_integrity :: "platform \<Rightarrow> task_route \<Rightarrow> sha256_digest" where
  "expected_integrity P r = of_json P (task_json P r)"

definition validate_optional ::
  "string option \<Rightarrow> nat \<Rightarrow> string \<Rightarrow> (task_error, unit) res" where
  "validate_optional v limit name =
     (case v of None \<Rightarrow> Inr () | Some s \<Rightarrow> validate_identifier s limit name)"

definition canonical_bytes :: "platform \<Rightarrow> json \<Rightarrow> nat" where
  "canonical_bytes P v = length (json_to_vec P (canonical_json v))"

definition validate_shape :: "platform \<Rightarrow> task_route \<Rightarrow> (task_error, unit) res" where
  "validate_shape P r =
     rbind (ensure (tr_schema_version r = TASK_ROUTE_SCHEMA_VERSION) IntegrityMismatch) (\<lambda>_.
     rbind (validate_identifier (tr_public_id r) MAX_IDENTIFIER_BYTES ''public task ID'') (\<lambda>_.
     rbind (validate_identifier (caller_principal (tr_caller r)) MAX_IDENTIFIER_BYTES ''principal ID'') (\<lambda>_.
     rbind (validate_identifier (caller_tenant (tr_caller r)) MAX_IDENTIFIER_BYTES ''tenant ID'') (\<lambda>_.
     rbind (validate_optional (tr_idempotency_key r) MAX_IDENTIFIER_BYTES ''idempotency key'') (\<lambda>_.
     rbind (validate_identifier (tr_source r) MAX_IDENTIFIER_BYTES ''capability source'') (\<lambda>_.
     rbind (ensure (cap_source (tr_capability r) = tr_source r) CapabilitySourceMismatch) (\<lambda>_.
     rbind (validate_identifier (tr_session r) MAX_IDENTIFIER_BYTES ''upstream session ID'') (\<lambda>_.
     rbind (validate_optional (tr_upstream r) MAX_UPSTREAM_TASK_ID_BYTES ''upstream task ID'') (\<lambda>_.
     rbind (ensure (canonical_bytes P (tr_binding r) \<le> MAX_SUBMISSION_BINDING_BYTES)
              (SubmissionBindingTooLarge (canonical_bytes P (tr_binding r))
                 MAX_SUBMISSION_BINDING_BYTES)) (\<lambda>_.
     rbind (ensure (tr_request_digest r = of_json P (tr_binding r)) RequestDigestMismatch) (\<lambda>_.
     rbind (ensure (tr_ttl r \<noteq> 0) InvalidTtl) (\<lambda>_.
     rbind (ok_or (checked_add (tr_created r) (tr_ttl r)) NumericRange) (\<lambda>expected_expiry.
     rbind (ensure (expected_expiry = tr_expires r) InvalidTtl) (\<lambda>_.
     rbind (ensure (\<not> list_ex (\<lambda>v. v > MAX_SQLITE_INTEGER)
                       [tr_created r, tr_updated r, tr_ttl r, tr_expires r, tr_version r])
              NumericRange) (\<lambda>_.
     rbind (ensure (\<not> tr_updated r < tr_created r) InvalidTimestamp) (\<lambda>_.
     rbind (ensure (\<not> (tr_phase r \<in> {Prepared, Dispatching} \<and> tr_upstream r \<noteq> None))
              PreparedHasUpstreamTask) (\<lambda>_.
     rbind (ensure (\<not> (tr_phase r = Routed \<and> tr_upstream r = None)) RoutedWithoutUpstreamTask) (\<lambda>_.
     rbind (ensure ((tr_phase r = Dispatching) = (tr_owner r \<noteq> None))
              (InvalidIdentifier ''dispatch owner ID'')) (\<lambda>_.
     rbind (validate_optional (tr_owner r) MAX_IDENTIFIER_BYTES ''dispatch owner ID'') (\<lambda>_.
     rbind (ensure (\<not> (tr_phase r \<noteq> Terminal \<and> tr_cached r \<noteq> None))
              TerminalStateOutsideTerminalPhase) (\<lambda>_.
     rbind (ensure (\<not> (tr_phase r = Terminal \<and> tr_cached r = None)) TerminalStateMissing) (\<lambda>_.
     (case tr_cached r of
        None \<Rightarrow> Inr ()
      | Some v \<Rightarrow> ensure (canonical_bytes P v \<le> MAX_CACHED_TERMINAL_STATE_BYTES)
                   (TerminalStateTooLarge (canonical_bytes P v)
                      MAX_CACHED_TERMINAL_STATE_BYTES))))))))))))))))))))))))"

definition task_verify_integrity :: "platform \<Rightarrow> task_route \<Rightarrow> (task_error, unit) res" where
  "task_verify_integrity P r =
     rbind (validate_shape P r) (\<lambda>_.
       if tr_integrity r \<noteq> expected_integrity P r then Inl IntegrityMismatch else Inr ())"

definition verify_prepared_for_begin :: "platform \<Rightarrow> task_route \<Rightarrow> (task_error, unit) res" where
  "verify_prepared_for_begin P r =
     rbind (task_verify_integrity P r) (\<lambda>_.
       if tr_phase r \<noteq> Prepared \<or> tr_version r \<noteq> 0 \<or> tr_upstream r \<noteq> None \<or> tr_cached r \<noteq> None
          \<or> tr_updated r \<noteq> tr_created r
       then Inl NotPreparedForBegin else Inr ())"

section \<open>Preparing and transitions\<close>

definition prepared_route ::
  "public_task_id \<Rightarrow> task_caller \<Rightarrow> idempotency_key option \<Rightarrow> sha256_digest \<Rightarrow> json
   \<Rightarrow> capability_id \<Rightarrow> string \<Rightarrow> u64 \<Rightarrow> u64 \<Rightarrow> u64 \<Rightarrow> task_route" where
  "prepared_route public_id caller key digest binding cap session created ttl expires =
     \<lparr>tr_schema_version = TASK_ROUTE_SCHEMA_VERSION, tr_public_id = public_id,
      tr_caller = caller, tr_idempotency_key = key, tr_request_digest = digest,
      tr_binding = binding, tr_capability = cap, tr_source = cap_source cap,
      tr_session = session, tr_upstream = None, tr_owner = None, tr_phase = Prepared,
      tr_created = created, tr_updated = created, tr_ttl = ttl, tr_expires = expires,
      tr_version = 0, tr_cached = None, tr_integrity = default_digest\<rparr>"

text \<open>\<open>prepare_with_id\<close>; \<open>prepare\<close> passes a fresh random public identifier.\<close>

definition prepare_with_id ::
  "platform \<Rightarrow> public_task_id \<Rightarrow> task_caller \<Rightarrow> idempotency_key option \<Rightarrow> sha256_digest \<Rightarrow> json
   \<Rightarrow> capability_id \<Rightarrow> string \<Rightarrow> u64 \<Rightarrow> u64 \<Rightarrow> (task_error, task_route) res" where
  "prepare_with_id P public_id caller key digest binding cap session created ttl =
     rbind (ok_or (checked_add created ttl) NumericRange) (\<lambda>expires.
     let r = prepared_route public_id caller key digest binding cap session created ttl expires in
     rbind (validate_shape P r) (\<lambda>_. Inr (r\<lparr>tr_integrity := expected_integrity P r\<rparr>)))"

fun can_transition :: "task_phase \<Rightarrow> task_phase \<Rightarrow> bool" where
  "can_transition Prepared to =
     (to \<in> {Dispatching, Terminal, ReconciliationRequired, CancelRequested})"
| "can_transition Dispatching to =
     (to \<in> {Routed, Terminal, ReconciliationRequired, CancelRequested})"
| "can_transition Routed to = (to \<in> {Terminal, ReconciliationRequired, CancelRequested})"
| "can_transition ReconciliationRequired to = (to \<in> {Routed, Terminal, CancelRequested})"
| "can_transition CancelRequested to = (to \<in> {CancelRequested, Terminal})"
| "can_transition Terminal to = False"

definition next_version :: "u64 \<Rightarrow> u64 option" where
  "next_version v =
     (case checked_add v 1 of
        None \<Rightarrow> None | Some n \<Rightarrow> if n \<le> MAX_SQLITE_INTEGER then Some n else None)"

definition transition ::
  "platform \<Rightarrow> task_route \<Rightarrow> task_update \<Rightarrow> (task_error, task_route) res" where
  "transition P r u =
     rbind (task_verify_integrity P r) (\<lambda>_.
     if \<not> can_transition (tr_phase r) (up_phase u)
     then Inl (InvalidTransition (tr_phase r) (up_phase u))
     else if up_updated u < tr_updated r then Inl InvalidTimestamp
     else if tr_upstream r = None \<and> up_upstream u \<noteq> None
             \<and> up_phase u \<notin> {Routed, CancelRequested}
     then Inl UpstreamTaskAssignedOutsideRoutedTransition
     else
       rbind (case (tr_upstream r, up_upstream u) of
                (Some current, Some nxt) \<Rightarrow>
                  if current \<noteq> nxt then Inl UpstreamTaskChanged else Inr (Some current)
              | (Some current, None) \<Rightarrow> Inr (Some current)
              | (None, nxt) \<Rightarrow> Inr nxt) (\<lambda>upstream.
       rbind (ok_or (next_version (tr_version r)) NumericRange) (\<lambda>version.
       let nxt = r\<lparr>tr_upstream := upstream, tr_owner := up_owner u, tr_phase := up_phase u,
                   tr_updated := up_updated u, tr_version := version, tr_cached := up_cached u,
                   tr_integrity := default_digest\<rparr> in
       rbind (validate_shape P nxt) (\<lambda>_.
         Inr (nxt\<lparr>tr_integrity := expected_integrity P nxt\<rparr>)))))"

definition is_expired :: "task_route \<Rightarrow> u64 \<Rightarrow> bool" where
  "is_expired r now \<longleftrightarrow> now \<ge> tr_expires r"

section \<open>Shape\<close>

definition shape_ok :: "platform \<Rightarrow> task_route \<Rightarrow> bool" where
  "shape_ok P r \<longleftrightarrow>
     tr_schema_version r = 1
     \<and> identifier_ok (tr_public_id r) 128
     \<and> identifier_ok (caller_principal (tr_caller r)) 128
     \<and> identifier_ok (caller_tenant (tr_caller r)) 128
     \<and> (\<forall>k. tr_idempotency_key r = Some k \<longrightarrow> identifier_ok k 128)
     \<and> identifier_ok (tr_source r) 128 \<and> cap_source (tr_capability r) = tr_source r
     \<and> identifier_ok (tr_session r) 128
     \<and> (\<forall>i. tr_upstream r = Some i \<longrightarrow> identifier_ok i 1024)
     \<and> canonical_bytes P (tr_binding r) \<le> 16384
     \<and> tr_request_digest r = of_json P (tr_binding r)
     \<and> tr_ttl r \<noteq> 0 \<and> unat (tr_expires r) = unat (tr_created r) + unat (tr_ttl r)
     \<and> tr_created r \<le> MAX_SQLITE_INTEGER \<and> tr_updated r \<le> MAX_SQLITE_INTEGER
     \<and> tr_ttl r \<le> MAX_SQLITE_INTEGER \<and> tr_expires r \<le> MAX_SQLITE_INTEGER
     \<and> tr_version r \<le> MAX_SQLITE_INTEGER \<and> tr_created r \<le> tr_updated r
     \<and> (tr_phase r \<noteq> Prepared \<and> tr_phase r \<noteq> Dispatching \<or> tr_upstream r = None)
     \<and> (tr_phase r = Routed \<longrightarrow> tr_upstream r \<noteq> None)
     \<and> (tr_phase r = Dispatching) = (tr_owner r \<noteq> None)
     \<and> (\<forall>s. tr_owner r = Some s \<longrightarrow> identifier_ok s 128)
     \<and> (tr_phase r = Terminal \<or> tr_cached r = None)
     \<and> (tr_phase r = Terminal \<longrightarrow> tr_cached r \<noteq> None)
     \<and> (\<forall>v. tr_cached r = Some v \<longrightarrow> canonical_bytes P v \<le> 65536)"

lemmas task_limits =
  TASK_ROUTE_SCHEMA_VERSION_def MAX_SUBMISSION_BINDING_BYTES_def
  MAX_CACHED_TERMINAL_STATE_BYTES_def MAX_IDENTIFIER_BYTES_def MAX_UPSTREAM_TASK_ID_BYTES_def

lemma validate_identifier_Inr [guard_simps]:
  "validate_identifier s n name = Inr u \<longleftrightarrow> identifier_ok s n"
  by (simp add: validate_identifier_def guard_simps)

lemma validate_optional_Inr [guard_simps]:
  "validate_optional v n name = Inr u \<longleftrightarrow> (\<forall>s. v = Some s \<longrightarrow> identifier_ok s n)"
  by (auto simp: validate_optional_def guard_simps split: option.split)

lemma ensure_optional:
  "(case v of None \<Rightarrow> Inr () | Some x \<Rightarrow> ensure (q x) (e x)) = Inr u \<longleftrightarrow> (\<forall>x. v = Some x \<longrightarrow> q x)"
  by (cases v) (simp_all add: guard_simps)

lemma checked_expiry:
  "checked_add a b = Some c \<and> Q \<longleftrightarrow> unat c = unat a + unat b \<and> Q"
  by (simp add: checked_add_Some)

lemma validate_shape_Inr [guard_simps]: "validate_shape P r = Inr u \<longleftrightarrow> shape_ok P r"
  unfolding validate_shape_def shape_ok_def
  by (simp add: guard_simps task_limits not_less ensure_optional checked_expiry del: not_None_eq)

lemma task_verify_Inr [guard_simps]:
  "task_verify_integrity P r = Inr u \<longleftrightarrow> shape_ok P r \<and> tr_integrity r = expected_integrity P r"
  by (auto simp: task_verify_integrity_def guard_simps)

lemma shape_ok_integrity [simp]: "shape_ok P (r\<lparr>tr_integrity := d\<rparr>) = shape_ok P r"
  by (simp add: shape_ok_def)

lemma expected_integrity_cong [simp]:
  "expected_integrity P (r\<lparr>tr_integrity := d\<rparr>) = expected_integrity P r"
  by (simp add: expected_integrity_def task_json_def)

text \<open>The record \<open>transition\<close> builds before its digest is filled in.\<close>

definition updated_route :: "task_route \<Rightarrow> task_update \<Rightarrow> task_route" where
  "updated_route r u =
     r\<lparr>tr_upstream := (if tr_upstream r = None then up_upstream u else tr_upstream r),
       tr_owner := up_owner u, tr_phase := up_phase u, tr_updated := up_updated u,
       tr_version := tr_version r + 1, tr_cached := up_cached u, tr_integrity := default_digest\<rparr>"

lemma next_version_Some:
  "next_version v = Some w \<longleftrightarrow> w = v + 1 \<and> v < MAX_SQLITE_INTEGER"
proof -
  have "next_version v = Some w \<longleftrightarrow> checked_add v 1 = Some w \<and> w \<le> MAX_SQLITE_INTEGER"
    by (auto simp: next_version_def split: option.splits if_splits)
  also have "\<dots> \<longleftrightarrow> w = v + 1 \<and> v < MAX_SQLITE_INTEGER"
  proof
    assume "checked_add v 1 = Some w \<and> w \<le> MAX_SQLITE_INTEGER"
    then have "unat w = unat v + 1" "unat w \<le> unat MAX_SQLITE_INTEGER"
      by (simp_all add: checked_add_Some word_le_nat_alt)
    then show "w = v + 1 \<and> v < MAX_SQLITE_INTEGER"
      using unat_bound [of w] by (simp add: word_unat_eq_iff unat_word_ariths word_less_nat_alt)
  next
    assume "w = v + 1 \<and> v < MAX_SQLITE_INTEGER"
    then show "checked_add v 1 = Some w \<and> w \<le> MAX_SQLITE_INTEGER"
      by (simp add: checked_add_Some MAX_SQLITE_INTEGER_def word_less_nat_alt word_le_nat_alt
          unat_word_ariths)
  qed
  finally show ?thesis .
qed

definition transition_allowed :: "task_route \<Rightarrow> task_update \<Rightarrow> bool" where
  "transition_allowed r u \<longleftrightarrow>
     can_transition (tr_phase r) (up_phase u) \<and> tr_updated r \<le> up_updated u
     \<and> (up_upstream u \<noteq> None \<longrightarrow>
          (if tr_upstream r = None then up_phase u \<in> {Routed, CancelRequested}
           else up_upstream u = tr_upstream r))
     \<and> tr_version r < MAX_SQLITE_INTEGER"

lemma transition_Inr [guard_simps]:
  "transition P r u = Inr r' \<longleftrightarrow>
     task_verify_integrity P r = Inr () \<and> transition_allowed r u \<and> shape_ok P (updated_route r u)
     \<and> r' = (updated_route r u)\<lparr>tr_integrity := expected_integrity P (updated_route r u)\<rparr>"
proof (cases "tr_upstream r"; cases "up_upstream u")
qed (auto simp: transition_def guard_simps Let_def transition_allowed_def updated_route_def
       next_version_Some not_less split: if_splits)

lemma prepare_Inr:
  "prepare_with_id P i caller key digest binding cap session created ttl = Inr r \<Longrightarrow>
     shape_ok P r \<and> tr_integrity r = expected_integrity P r \<and> tr_phase r = Prepared
     \<and> tr_version r = 0 \<and> tr_upstream r = None \<and> tr_cached r = None \<and> tr_updated r = tr_created r
     \<and> tr_public_id r = i \<and> tr_caller r = caller \<and> tr_idempotency_key r = key
     \<and> tr_binding r = binding \<and> tr_capability r = cap"
proof -
  assume "prepare_with_id P i caller key digest binding cap session created ttl = Inr r"
  then obtain e where
    ok: "shape_ok P (prepared_route i caller key digest binding cap session created ttl e)"
    and r: "r = (prepared_route i caller key digest binding cap session created ttl e)
      \<lparr>tr_integrity := expected_integrity P (prepared_route i caller key digest binding cap session created ttl e)\<rparr>"
    unfolding prepare_with_id_def Let_def guard_simps by blast
  have "shape_ok P r" "tr_integrity r = expected_integrity P r"
    using ok by (simp_all add: r)
  then show ?thesis by (simp add: r prepared_route_def)
qed

section \<open>The integrity digest\<close>

lemma phase_name_inject: "phase_name a = phase_name b \<longleftrightarrow> a = b"
  by (cases a; cases b) simp_all

lemma opt_str_json_inject [simp]: "opt_json JStr a = opt_json JStr b \<longleftrightarrow> a = b"
  by (cases a; cases b) (simp_all add: opt_json_def)

lemma canonical_caller_json [simp]: "canonical_json (caller_json c) = caller_json c"
  by (simp add: caller_json_def btree_collect_def less_char_def)

lemma caller_json_inject [simp]: "caller_json a = caller_json b \<longleftrightarrow> a = b"
  by (cases a; cases b) (auto simp: caller_json_def)

lemma canonical_task_json:
  "canonical_json (task_json P r) =
     JObj [(''cached_terminal_state'', canonical_json (opt_json (\<lambda>v. v) (tr_cached r))),
           (''caller'', caller_json (tr_caller r)),
           (''capability'', canonical_json (capability_json P (tr_capability r))),
           (''capability_source'', JStr (tr_source r)),
           (''created_at_unix_ms'', u64_json (tr_created r)),
           (''dispatch_owner_id'', opt_json JStr (tr_owner r)),
           (''expires_at_unix_ms'', u64_json (tr_expires r)),
           (''idempotency_key'', opt_json JStr (tr_idempotency_key r)),
           (''phase'', JStr (phase_name (tr_phase r))),
           (''public_task_id'', JStr (tr_public_id r)),
           (''request_digest'', digest_json P (tr_request_digest r)),
           (''schema_version'', u16_json (tr_schema_version r)),
           (''submission_binding'', canonical_json (tr_binding r)),
           (''transition_version'', u64_json (tr_version r)),
           (''ttl_ms'', u64_json (tr_ttl r)),
           (''updated_at_unix_ms'', u64_json (tr_updated r)),
           (''upstream_session_id'', JStr (tr_session r)),
           (''upstream_task_id'', opt_json JStr (tr_upstream r))]"
  by (simp add: task_json_def btree_collect_def less_char_def)

text \<open>Equal records up to the key order inside the two embedded documents.\<close>

definition canonical_route :: "task_route \<Rightarrow> task_route" where
  "canonical_route r =
     r\<lparr>tr_binding := canonical_json (tr_binding r), tr_cached := map_option canonical_json (tr_cached r)\<rparr>"

lemma shape_cached: "shape_ok P r \<Longrightarrow> tr_cached r = None \<longleftrightarrow> tr_phase r \<noteq> Terminal"
  unfolding shape_ok_def by blast

lemma task_json_inject:
  assumes "hex_roundtrip P" "shape_ok P a" "shape_ok P b" "tr_integrity a = tr_integrity b"
    and eq: "canonical_json (task_json P a) = canonical_json (task_json P b)"
  shows "canonical_route a = canonical_route b"
proof -
  note f = eq [unfolded canonical_task_json, simplified, simplified phase_name_inject]
  have "digest_json P x = digest_json P y \<Longrightarrow> x = y" for x y
    using digest_to_string_inject [OF assms(1)] by (auto simp: digest_json_def)
  moreover have "tr_capability a = tr_capability b"
    using f by (intro capability_json_inject [OF assms(1)]) simp
  moreover have "tr_phase a = tr_phase b" using f by simp
  with shape_cached [OF assms(2)] shape_cached [OF assms(3)]
  have "tr_cached a = None \<longleftrightarrow> tr_cached b = None" by simp
  then have "map_option canonical_json (tr_cached a) = map_option canonical_json (tr_cached b)"
    using f by (cases "tr_cached a"; cases "tr_cached b") (auto simp: opt_json_def)
  ultimately show ?thesis
    using f assms(4) by (simp add: canonical_route_def)
qed

section \<open>Histories of a task\<close>

text \<open>The records of one task: a prepared one, then one per accepted transition.\<close>

inductive task_history :: "platform \<Rightarrow> task_route list \<Rightarrow> bool" for P where
  history_start:
    "prepare_with_id P i caller key digest binding cap session created ttl = Inr r
     \<Longrightarrow> task_history P [r]"
| history_step:
    "task_history P rs \<Longrightarrow> transition P (last rs) u = Inr r \<Longrightarrow> task_history P (rs @ [r])"

text \<open>What holds between a record of a task and any later one.\<close>

definition follows :: "task_route \<Rightarrow> task_route \<Rightarrow> bool" where
  "follows a b \<longleftrightarrow>
     (tr_public_id b = tr_public_id a \<and> tr_caller b = tr_caller a
      \<and> tr_idempotency_key b = tr_idempotency_key a \<and> tr_request_digest b = tr_request_digest a
      \<and> tr_binding b = tr_binding a \<and> tr_capability b = tr_capability a
      \<and> tr_source b = tr_source a \<and> tr_session b = tr_session a \<and> tr_created b = tr_created a
      \<and> tr_ttl b = tr_ttl a \<and> tr_expires b = tr_expires a)
     \<and> tr_updated a \<le> tr_updated b \<and> tr_version a < tr_version b
     \<and> (tr_upstream a \<noteq> None \<longrightarrow> tr_upstream b = tr_upstream a)
     \<and> tr_phase a \<noteq> Terminal \<and> tr_phase b \<noteq> Prepared
     \<and> (tr_phase b = Dispatching \<longrightarrow> tr_phase a = Prepared)
     \<and> (tr_phase a = CancelRequested \<longrightarrow> tr_phase b \<in> {CancelRequested, Terminal})"

lemma follows_trans: "follows a b \<Longrightarrow> follows b c \<Longrightarrow> follows a c"
  unfolding follows_def by (intro conjI impI) (simp | blast | (metis insertE singletonD) | force)+

lemma can_transition_phases:
  assumes "can_transition a b"
  shows "a \<noteq> Terminal" "b \<noteq> Prepared" "b = Dispatching \<Longrightarrow> a = Prepared"
    "a = CancelRequested \<Longrightarrow> b \<in> {CancelRequested, Terminal}"
proof -
  have "a \<noteq> Terminal \<and> b \<noteq> Prepared \<and> (b = Dispatching \<longrightarrow> a = Prepared)
      \<and> (a = CancelRequested \<longrightarrow> b \<in> {CancelRequested, Terminal})"
    using assms by (cases a) auto
  then show "a \<noteq> Terminal" "b \<noteq> Prepared" "b = Dispatching \<Longrightarrow> a = Prepared"
      "a = CancelRequested \<Longrightarrow> b \<in> {CancelRequested, Terminal}" by blast+
qed

lemma version_step:
  assumes "tr_version r < MAX_SQLITE_INTEGER"
  shows "unat (tr_version r + 1) = unat (tr_version r) + 1"
  using assms by (simp add: MAX_SQLITE_INTEGER_def word_less_nat_alt unat_word_ariths)

lemma transition_follows:
  assumes "transition P r u = Inr r'"
  shows "follows r r'" "unat (tr_version r') = unat (tr_version r) + 1"
    "task_verify_integrity P r' = Inr ()"
proof -
  from assms have a: "transition_allowed r u" and s: "shape_ok P (updated_route r u)"
    and r': "r' = (updated_route r u)\<lparr>tr_integrity := expected_integrity P (updated_route r u)\<rparr>"
    by (simp_all add: transition_Inr)
  have ver: "unat (tr_version r + 1) = unat (tr_version r) + 1"
    using a by (simp add: transition_allowed_def version_step)
  then have lt: "tr_version r < tr_version r + 1" by (simp add: word_less_nat_alt)
  from a have "can_transition (tr_phase r) (up_phase u)" by (simp add: transition_allowed_def)
  note ph = can_transition_phases [OF this]
  show "follows r r'"
    unfolding follows_def r' using ph lt a
    by (simp add: updated_route_def transition_allowed_def)
  show "unat (tr_version r') = unat (tr_version r) + 1"
    using ver by (simp add: r' updated_route_def)
  show "task_verify_integrity P r' = Inr ()"
    using s by (simp add: guard_simps r')
qed

lemma history_nonempty: "task_history P rs \<Longrightarrow> rs \<noteq> []"
  by (cases rule: task_history.cases) auto

lemma sorted_wrt_snoc_trans:
  assumes "sorted_wrt R xs" "xs \<noteq> []" "R (last xs) y" "\<And>a b c. R a b \<Longrightarrow> R b c \<Longrightarrow> R a c"
  shows "sorted_wrt R (xs @ [y])"
proof -
  obtain ys z where xs: "xs = ys @ [z]" using assms(2) by (metis rev_exhaust)
  have "R x y" if "x \<in> set xs" for x
    using assms(1,3) that assms(4) [of x z y] by (auto simp: xs sorted_wrt_append)
  with assms(1) show ?thesis by (simp add: sorted_wrt_append)
qed

lemma history_facts:
  "task_history P rs \<Longrightarrow>
     sorted_wrt follows rs
     \<and> (\<forall>i < length rs. unat (tr_version (rs ! i)) = i \<and> task_verify_integrity P (rs ! i) = Inr ())
     \<and> tr_phase (hd rs) = Prepared"
proof (induction rule: task_history.induct)
  case (history_start i caller key digest binding cap session created ttl r)
  from prepare_Inr [OF this] show ?case by (simp add: guard_simps)
next
  case (history_step rs u r)
  have ne: "rs \<noteq> []" by (rule history_nonempty [OF history_step.hyps(1)])
  note t = transition_follows [OF history_step.hyps(2)]
  have "unat (tr_version (last rs)) = length rs - 1"
    using history_step.IH ne by (simp add: last_conv_nth)
  with t ne have "unat (tr_version r) = length rs" by (cases rs) auto
  moreover have "sorted_wrt follows (rs @ [r])"
    using history_step.IH ne t(1) follows_trans by (intro sorted_wrt_snoc_trans) auto
  ultimately show ?case
    using history_step.IH ne t(3) by (auto simp: nth_append less_Suc_eq)
qed

lemma sorted_wrt_at_most_one:
  assumes "sorted_wrt R xs" "\<And>a b. R a b \<Longrightarrow> q a \<Longrightarrow> \<not> q b"
  shows "length (filter q xs) \<le> 1"
  using assms(1)
proof (induction xs)
  case (Cons x xs)
  show ?case
  proof (cases "q x")
    case True
    then have "filter q xs = []" using Cons.prems assms(2) by (auto simp: filter_empty_conv)
    then show ?thesis by simp
  qed (use Cons in simp)
qed simp

text \<open>
  In every history of a task each record passes its integrity check and carries the number
  of transitions before it; from one record to any later one the identity of the task never
  changes, time never runs backwards, an upstream task id once set stays the same, and a
  cancellation can only be followed by another or by the terminal record.
\<close>

theorem task_history_ordered:
  assumes "task_history P rs"
  shows "sorted_wrt follows rs
     \<and> (\<forall>i < length rs. unat (tr_version (rs ! i)) = i \<and> task_verify_integrity P (rs ! i) = Inr ())"
  using history_facts [OF assms] by blast

text \<open>
  C9: A task is dispatched at most once in its history and has at most one terminal record, which
  is the last: no sequence of transitions leads back to dispatching.
\<close>

theorem task_dispatched_at_most_once:
  assumes "task_history P rs"
  shows "length (filter (\<lambda>r. tr_phase r = Dispatching) rs) \<le> 1
     \<and> (\<forall>r \<in> set (butlast rs). tr_phase r \<noteq> Terminal)"
proof
  have s: "sorted_wrt follows rs" using history_facts [OF assms] by blast
  show "length (filter (\<lambda>r. tr_phase r = Dispatching) rs) \<le> 1"
    using s by (rule sorted_wrt_at_most_one) (simp add: follows_def)
  obtain ys z where rs: "rs = ys @ [z]" using history_nonempty [OF assms] by (metis rev_exhaust)
  show "\<forall>r \<in> set (butlast rs). tr_phase r \<noteq> Terminal"
    using s by (simp add: rs sorted_wrt_append follows_def)
qed

text \<open>
  A transition succeeds exactly on an intact record, along an edge of the phase diagram, not
  before the last update, without replacing an upstream id or setting one outside routing and
  cancellation, below the version limit, and when the new record has a valid shape; the result is
  the updated record with its digest recomputed.
\<close>

theorem transition_exact:
  "(transition P r u = Inr r') =
     (task_verify_integrity P r = Inr () \<and> transition_allowed r u \<and> shape_ok P (updated_route r u)
      \<and> r' = (updated_route r u)\<lparr>tr_integrity := expected_integrity P (updated_route r u)\<rparr>)"
  by (rule transition_Inr)

text \<open>
  Two intact task records with the same integrity digest agree in every field, up to the key
  order inside the submission binding and the cached result, unless their documents are an
  explicit hash collision.
\<close>

theorem task_digest_binds_record:
  assumes "hex_roundtrip P" "task_verify_integrity P a = Inr ()" "task_verify_integrity P b = Inr ()"
    and "tr_integrity a = tr_integrity b"
  shows "canonical_route a = canonical_route b \<or> doc_collision P (task_json P a) (task_json P b)"
proof -
  have sa: "shape_ok P a" and sb: "shape_ok P b"
    and "of_json P (task_json P a) = of_json P (task_json P b)"
    using assms(2-4) by (simp_all add: guard_simps expected_integrity_def)
  from of_json_eq [OF this(3)] show ?thesis
    using task_json_inject [OF assms(1) sa sb assms(4)] by blast
qed

definition sample_task :: task_route where
  "sample_task = projr (prepare_with_id sample_platform ''gmt_1''
     \<lparr>caller_principal = ''alice'', caller_tenant = ''acme''\<rparr> (Some ''k1'')
     (of_json sample_platform JNull) JNull (sample_capability ''docs'' ''search'') ''s1'' 1000 500)"

lemma sample_identifiers:
  "identifier_ok ''gmt_1'' 128" "identifier_ok ''alice'' 128" "identifier_ok ''acme'' 128"
  "identifier_ok ''docs'' 128" "identifier_ok ''s1'' 128" "identifier_ok ''k1'' 128"
  by (simp_all add: identifier_ok_def has_control_def char_is_control_def)

lemma sample_prepared_shape:
  "shape_ok sample_platform (prepared_route ''gmt_1''
     \<lparr>caller_principal = ''alice'', caller_tenant = ''acme''\<rparr> (Some ''k1'')
     (of_json sample_platform JNull) JNull (sample_capability ''docs'' ''search'') ''s1'' 1000 500 1500)"
  by (simp add: shape_ok_def prepared_route_def sample_identifiers TASK_ROUTE_SCHEMA_VERSION_def
      sample_capability_def capability_new_def canonical_bytes_def sample_platform_def
      MAX_SQLITE_INTEGER_def)

lemma sample_prepare:
  "prepare_with_id sample_platform ''gmt_1''
     \<lparr>caller_principal = ''alice'', caller_tenant = ''acme''\<rparr> (Some ''k1'')
     (of_json sample_platform JNull) JNull (sample_capability ''docs'' ''search'') ''s1'' 1000 500
   = Inr sample_task"
proof -
  have "checked_add (1000 :: u64) 500 = Some 1500" by (simp add: checked_add_def)
  moreover have "validate_shape sample_platform (prepared_route ''gmt_1''
     \<lparr>caller_principal = ''alice'', caller_tenant = ''acme''\<rparr> (Some ''k1'')
     (of_json sample_platform JNull) JNull (sample_capability ''docs'' ''search'') ''s1'' 1000 500 1500)
     = Inr ()"
    using sample_prepared_shape by (simp add: validate_shape_Inr)
  ultimately show ?thesis by (simp add: sample_task_def prepare_with_id_def Let_def)
qed

lemmas sample_task_facts = prepare_Inr [OF sample_prepare]

lemma sample_task_eq: "sample_task = (prepared_route ''gmt_1''
     \<lparr>caller_principal = ''alice'', caller_tenant = ''acme''\<rparr> (Some ''k1'')
     (of_json sample_platform JNull) JNull (sample_capability ''docs'' ''search'') ''s1'' 1000 500 1500)
     \<lparr>tr_integrity := expected_integrity sample_platform (prepared_route ''gmt_1''
     \<lparr>caller_principal = ''alice'', caller_tenant = ''acme''\<rparr> (Some ''k1'')
     (of_json sample_platform JNull) JNull (sample_capability ''docs'' ''search'') ''s1'' 1000 500 1500)\<rparr>"
  using sample_prepare sample_prepared_shape
  by (simp add: prepare_with_id_def Let_def guard_simps checked_add_def)

lemma sample_task_times: "tr_created sample_task = 1000" "tr_expires sample_task = 1500"
  by (subst sample_task_eq, simp add: prepared_route_def)+

definition sample_dispatched :: task_route where
  "sample_dispatched = projr (transition sample_platform sample_task (update_dispatching ''o1'' 1001))"

lemma sample_transition:
  "transition sample_platform sample_task (update_dispatching ''o1'' 1001) = Inr sample_dispatched"
proof -
  note t = sample_task_eq
  have "identifier_ok ''o1'' 128"
    by (simp add: identifier_ok_def has_control_def char_is_control_def)
  then have "shape_ok sample_platform (updated_route sample_task (update_dispatching ''o1'' 1001))"
    using sample_prepared_shape
    by (subst t) (simp add: shape_ok_def prepared_route_def updated_route_def update_dispatching_def
        MAX_SQLITE_INTEGER_def)
  moreover have "transition_allowed sample_task (update_dispatching ''o1'' 1001)"
    by (subst t) (simp add: transition_allowed_def prepared_route_def update_dispatching_def
        MAX_SQLITE_INTEGER_def)
  moreover have "task_verify_integrity sample_platform sample_task = Inr ()"
    using sample_task_facts by (simp add: guard_simps)
  ultimately have "\<exists>r. transition sample_platform sample_task (update_dispatching ''o1'' 1001) = Inr r"
    by (auto simp: transition_Inr)
  then show ?thesis by (auto simp: sample_dispatched_def)
qed

lemma sample_history: "task_history sample_platform [sample_task, sample_dispatched]"
  using history_step [OF history_start [OF sample_prepare], of "update_dispatching ''o1'' 1001"]
  by (simp add: sample_transition)

theorem task_history_ordered_witness:
  "follows sample_task sample_dispatched
   \<and> task_verify_integrity sample_platform sample_dispatched = Inr ()"
  using task_history_ordered [OF sample_history] by (auto simp: less_Suc_eq)

theorem task_dispatched_at_most_once_witness:
  "length (filter (\<lambda>r. tr_phase r = Dispatching) [sample_task, sample_dispatched]) \<le> 1"
  using task_dispatched_at_most_once [OF sample_history] by simp

theorem task_digest_binds_record_witness:
  "canonical_route sample_task = canonical_route sample_task
   \<or> doc_collision sample_platform (task_json sample_platform sample_task)
       (task_json sample_platform sample_task)"
  using sample_task_facts by (intro task_digest_binds_record) (simp_all add: guard_simps)

end
