(* ===== verification/Storage.thy ===== *)
theory Storage
  imports Task Lease
begin

text \<open>
  Models the in-memory half of \<open>crates/gaugemesh-core/src/storage.rs\<close>: leases by id, and task
  routes by id with an index on the caller's idempotency key and one on the expiry. Each
  operation runs under one lock, so it is one step from state to state; the poisoned-lock
  errors, which follow a panic, are not modelled. The contract of the storage traits is
  stated as locales over an abstract map of task routes.
\<close>

definition MAX_TASK_ROUTE_PURGE_RECORDS_PER_CALL :: nat where
  "MAX_TASK_ROUTE_PURGE_RECORDS_PER_CALL = 10000"
definition MAX_STORED_TASK_ROUTES :: nat where "MAX_STORED_TASK_ROUTES = 4096"
definition MAX_ACTIVE_TASK_ROUTES_PER_CALLER :: nat where "MAX_ACTIVE_TASK_ROUTES_PER_CALLER = 256"

datatype task_storage_error =
    StorageSqlite | StorageJson
  | StorageTaskRoute task_error
  | TaskRouteIntegrity | IdempotencyConflict | PublicTaskIdCollision | TaskRouteCapacity
  | StaleTransition

datatype begin_result = Inserted task_route | Existing task_route

fun begin_record :: "begin_result \<Rightarrow> task_route" where
  "begin_record (Inserted r) = r"
| "begin_record (Existing r) = r"

fun was_inserted :: "begin_result \<Rightarrow> bool" where
  "was_inserted (Inserted r) = True"
| "was_inserted (Existing r) = False"

section \<open>Leases\<close>

type_synonym lease_table = "(string, capability_lease) fmap"

definition mem_lease_put :: "capability_lease \<Rightarrow> lease_table \<Rightarrow> lease_table" where
  "mem_lease_put l t = fmupd (lease_id l) l t"

definition mem_lease_get :: "string \<Rightarrow> lease_table \<Rightarrow> capability_lease option" where
  "mem_lease_get i t = fmlookup t i"

definition mem_lease_remove :: "string \<Rightarrow> lease_table \<Rightarrow> lease_table" where
  "mem_lease_remove i t = fmdrop i t"

section \<open>Task routes in memory\<close>

type_synonym idempotency_scope = "task_caller \<times> idempotency_key"

record memory_routes =
  by_id :: "(public_task_id, task_route) fmap"
  by_idempotency :: "(idempotency_scope, public_task_id) fmap"
  by_expiry :: "(u64 \<times> public_task_id) fset"

definition memory_default :: memory_routes where
  "memory_default = \<lparr>by_id = fmempty, by_idempotency = fmempty, by_expiry = {||}\<rparr>"

abbreviation verified :: "platform \<Rightarrow> task_route \<Rightarrow> (task_storage_error, unit) res" where
  "verified P r \<equiv> map_err StorageTaskRoute (task_verify_integrity P r)"

definition mem_find ::
  "platform \<Rightarrow> task_caller \<Rightarrow> idempotency_key \<Rightarrow> memory_routes
   \<Rightarrow> (task_storage_error, task_route option) res" where
  "mem_find P caller key s =
     (case Option.bind (fmlookup (by_idempotency s) (caller, key)) (fmlookup (by_id s)) of
        None \<Rightarrow> Inr None
      | Some r \<Rightarrow> rbind (verified P r) (\<lambda>_. Inr (Some r)))"

text \<open>What the idempotency index says of a new record: nothing, an expired binding that is to
  be replaced, or a live one that is returned.\<close>

datatype key_lookup = NoBinding | ExpiredBinding idempotency_scope public_task_id | LiveBinding task_route

definition lookup_key ::
  "platform \<Rightarrow> task_route \<Rightarrow> memory_routes \<Rightarrow> (task_storage_error, key_lookup) res" where
  "lookup_key P r s =
     (case tr_idempotency_key r of
        None \<Rightarrow> Inr NoBinding
      | Some key \<Rightarrow>
          (case fmlookup (by_idempotency s) (tr_caller r, key) of
             None \<Rightarrow> Inr NoBinding
           | Some existing_id \<Rightarrow>
               rbind (ok_or (fmlookup (by_id s) existing_id) TaskRouteIntegrity) (\<lambda>existing.
               rbind (verified P existing) (\<lambda>_.
               if is_expired existing (tr_created r)
               then Inr (ExpiredBinding (tr_caller r, key) existing_id)
               else if tr_request_digest existing \<noteq> tr_request_digest r
               then Inl IdempotencyConflict
               else Inr (LiveBinding existing)))))"

definition fm_values :: "('k::linorder, 'v) fmap \<Rightarrow> 'v list" where
  "fm_values m = map (\<lambda>k. the (fmlookup m k)) (sorted_list_of_fset (fmdom m))"

definition active_for ::
  "task_caller \<Rightarrow> u64 \<Rightarrow> (public_task_id, task_route) fmap \<Rightarrow> nat" where
  "active_for caller now m =
     length (filter (\<lambda>e. tr_caller e = caller \<and> \<not> is_expired e now) (fm_values m))"

definition forget_binding :: "idempotency_scope \<Rightarrow> public_task_id \<Rightarrow> memory_routes \<Rightarrow> memory_routes" where
  "forget_binding sc i s =
     (let s' = (case fmlookup (by_id s) i of
                  None \<Rightarrow> s
                | Some e \<Rightarrow> s\<lparr>by_id := fmdrop i (by_id s),
                              by_expiry := by_expiry s |-| {|(tr_expires e, tr_public_id e)|}\<rparr>)
      in s'\<lparr>by_idempotency := fmdrop sc (by_idempotency s')\<rparr>)"

definition insert_route :: "task_route \<Rightarrow> memory_routes \<Rightarrow> memory_routes" where
  "insert_route r s =
     s\<lparr>by_idempotency := (case tr_idempotency_key r of
                            None \<Rightarrow> by_idempotency s
                          | Some key \<Rightarrow> fmupd (tr_caller r, key) (tr_public_id r) (by_idempotency s)),
       by_id := fmupd (tr_public_id r) r (by_id s),
       by_expiry := finsert (tr_expires r, tr_public_id r) (by_expiry s)\<rparr>"

definition mem_begin ::
  "platform \<Rightarrow> task_route \<Rightarrow> memory_routes
   \<Rightarrow> (task_storage_error, begin_result) res \<times> memory_routes" where
  "mem_begin P r s =
     (case rbind (map_err StorageTaskRoute (verify_prepared_for_begin P r)) (\<lambda>_. lookup_key P r s) of
        Inl e \<Rightarrow> (Inl e, s)
      | Inr (LiveBinding existing) \<Rightarrow> (Inr (Existing existing), s)
      | Inr binding \<Rightarrow>
          let replaced = (case binding of ExpiredBinding _ i \<Rightarrow> Some i | _ \<Rightarrow> None) in
          if tr_public_id r |\<in>| fmdom (by_id s) \<and> replaced \<noteq> Some (tr_public_id r)
          then (Inl PublicTaskIdCollision, s)
          else if fcard (fmdom (by_id s)) - (if replaced = None then 0 else 1) \<ge> MAX_STORED_TASK_ROUTES
               \<or> active_for (tr_caller r) (tr_created r) (by_id s) \<ge> MAX_ACTIVE_TASK_ROUTES_PER_CALLER
          then (Inl TaskRouteCapacity, s)
          else
            let s' = (case binding of ExpiredBinding sc i \<Rightarrow> forget_binding sc i s | _ \<Rightarrow> s)
            in (Inr (Inserted r), insert_route r s'))"

definition mem_get ::
  "platform \<Rightarrow> task_caller \<Rightarrow> public_task_id \<Rightarrow> memory_routes
   \<Rightarrow> (task_storage_error, task_route option) res" where
  "mem_get P caller i s =
     (case fmlookup (by_id s) i of
        None \<Rightarrow> Inr None
      | Some r \<Rightarrow>
          if tr_caller r \<noteq> caller then Inr None
          else rbind (verified P r) (\<lambda>_. Inr (Some r)))"

definition mem_cas ::
  "platform \<Rightarrow> task_caller \<Rightarrow> public_task_id \<Rightarrow> u64 \<Rightarrow> task_update \<Rightarrow> memory_routes
   \<Rightarrow> (task_storage_error, task_route option) res \<times> memory_routes" where
  "mem_cas P caller i version u s =
     (case fmlookup (by_id s) i of
        None \<Rightarrow> (Inr None, s)
      | Some current \<Rightarrow>
          if tr_caller current \<noteq> caller then (Inr None, s)
          else
            case rbind (verified P current) (\<lambda>_.
                 if tr_version current \<noteq> version then Inl StaleTransition
                 else map_err StorageTaskRoute (transition P current u)) of
              Inl e \<Rightarrow> (Inl e, s)
            | Inr nxt \<Rightarrow> (Inr (Some nxt), s\<lparr>by_id := fmupd i nxt (by_id s)\<rparr>))"

definition purge_limit :: "nat \<Rightarrow> nat" where
  "purge_limit max_records = min max_records MAX_TASK_ROUTE_PURGE_RECORDS_PER_CALL"

definition purge_one :: "u64 \<times> public_task_id \<Rightarrow> memory_routes \<Rightarrow> memory_routes" where
  "purge_one e s =
     (let s' = (case fmlookup (by_id s) (snd e) of
                  None \<Rightarrow> s
                | Some r \<Rightarrow>
                    (let s1 = s\<lparr>by_id := fmdrop (snd e) (by_id s)\<rparr> in
                     case tr_idempotency_key r of
                       None \<Rightarrow> s1
                     | Some key \<Rightarrow> s1\<lparr>by_idempotency := fmdrop (tr_caller r, key) (by_idempotency s1)\<rparr>))
      in s'\<lparr>by_expiry := by_expiry s' |-| {|e|}\<rparr>)"

definition mem_purge :: "u64 \<Rightarrow> nat \<Rightarrow> memory_routes \<Rightarrow> nat \<times> memory_routes" where
  "mem_purge now max_records s =
     (let limit = purge_limit max_records in
      if limit = 0 then (0, s)
      else
        let expired = take limit (takeWhile (\<lambda>e. fst e \<le> now) (sorted_list_of_fset (by_expiry s)))
        in (length expired, fold purge_one expired s))"

section \<open>The invariant\<close>

text \<open>What is stored, by public id.\<close>

definition contents :: "memory_routes \<Rightarrow> public_task_id \<Rightarrow> task_route option" where
  "contents s = fmlookup (by_id s)"

definition mem_inv :: "platform \<Rightarrow> memory_routes \<Rightarrow> bool" where
  "mem_inv P s \<longleftrightarrow>
     (\<forall>i r. contents s i = Some r \<longrightarrow> tr_public_id r = i \<and> task_verify_integrity P r = Inr ())
     \<and> (\<forall>c k i. fmlookup (by_idempotency s) (c, k) = Some i \<longleftrightarrow>
          (\<exists>r. contents s i = Some r \<and> tr_caller r = c \<and> tr_idempotency_key r = Some k))
     \<and> (\<forall>t i. (t, i) |\<in>| by_expiry s \<longleftrightarrow> (\<exists>r. contents s i = Some r \<and> tr_expires r = t))"

lemma mem_inv_id: "mem_inv P s \<Longrightarrow> contents s i = Some r \<Longrightarrow> tr_public_id r = i"
  unfolding mem_inv_def by blast

lemma mem_inv_verified: "mem_inv P s \<Longrightarrow> contents s i = Some r \<Longrightarrow> task_verify_integrity P r = Inr ()"
  unfolding mem_inv_def by blast

lemma mem_inv_key:
  "mem_inv P s \<Longrightarrow> fmlookup (by_idempotency s) (c, k) = Some i \<longleftrightarrow>
     (\<exists>r. contents s i = Some r \<and> tr_caller r = c \<and> tr_idempotency_key r = Some k)"
  unfolding mem_inv_def by blast

lemma mem_inv_expiry:
  "mem_inv P s \<Longrightarrow> (t, i) |\<in>| by_expiry s \<longleftrightarrow> (\<exists>r. contents s i = Some r \<and> tr_expires r = t)"
  unfolding mem_inv_def by blast

text \<open>Two stored routes of one caller never share an idempotency key.\<close>

lemma mem_inv_key_unique:
  assumes "mem_inv P s" "contents s i = Some a" "contents s j = Some b"
    and "tr_caller a = tr_caller b" "tr_idempotency_key a = Some k" "tr_idempotency_key b = Some k"
  shows "i = j"
proof -
  have "fmlookup (by_idempotency s) (tr_caller a, k) = Some i"
    "fmlookup (by_idempotency s) (tr_caller a, k) = Some j"
    using assms mem_inv_key [OF assms(1)] by (metis)+
  then show ?thesis by simp
qed

lemma mem_inv_default: "mem_inv P memory_default"
  by (simp add: mem_inv_def memory_default_def contents_def)

subsection \<open>Removing a route\<close>

text \<open>Both ways of removing a stored route, with its index entries.\<close>

definition without :: "public_task_id \<Rightarrow> task_route \<Rightarrow> memory_routes \<Rightarrow> memory_routes" where
  "without i r s =
     s\<lparr>by_id := fmdrop i (by_id s),
       by_idempotency := (case tr_idempotency_key r of
                            None \<Rightarrow> by_idempotency s
                          | Some key \<Rightarrow> fmdrop (tr_caller r, key) (by_idempotency s)),
       by_expiry := by_expiry s |-| {|(tr_expires r, i)|}\<rparr>"

lemma contents_without [simp]: "contents (without i r s) = (contents s)(i := None)"
  by (intro ext) (simp add: contents_def without_def)

lemma without_inv:
  assumes inv: "mem_inv P s" and r: "contents s i = Some r"
  shows "mem_inv P (without i r s)"
proof -
  have key: "fmlookup (by_idempotency (without i r s)) (c, k) = Some j \<longleftrightarrow>
      fmlookup (by_idempotency s) (c, k) = Some j \<and> j \<noteq> i" for c k j
  proof -
    have "fmlookup (by_idempotency s) (c, k) = Some i \<longleftrightarrow>
        tr_caller r = c \<and> tr_idempotency_key r = Some k"
      using mem_inv_key [OF inv] r by simp
    then show ?thesis by (auto simp: without_def split: option.splits)
  qed
  have exp: "(t, j) |\<in>| by_expiry (without i r s) \<longleftrightarrow> (t, j) |\<in>| by_expiry s \<and> j \<noteq> i" for t j
    using mem_inv_expiry [OF inv, of t i] r by (auto simp: without_def)
  show ?thesis
    unfolding mem_inv_def key exp
    using mem_inv_id [OF inv] mem_inv_verified [OF inv] mem_inv_key [OF inv] mem_inv_expiry [OF inv]
    by auto
qed

lemma forget_binding_without:
  assumes "mem_inv P s" "contents s i = Some r" "tr_caller r = c" "tr_idempotency_key r = Some k"
  shows "forget_binding (c, k) i s = without i r s"
  using assms mem_inv_id [OF assms(1,2)]
  by (simp add: forget_binding_def without_def contents_def)

lemma purge_one_without:
  assumes "mem_inv P s" "contents s i = Some r"
  shows "purge_one (tr_expires r, i) s = without i r s"
  using assms by (simp add: purge_one_def without_def contents_def split: option.split)

subsection \<open>Inserting a route\<close>

lemma contents_insert [simp]: "contents (insert_route r s) = (contents s)(tr_public_id r \<mapsto> r)"
  by (simp add: contents_def insert_route_def)

lemma insert_inv:
  assumes inv: "mem_inv P s" and new: "contents s (tr_public_id r) = None"
    and ok: "task_verify_integrity P r = Inr ()"
    and free: "\<And>k. tr_idempotency_key r = Some k \<Longrightarrow> fmlookup (by_idempotency s) (tr_caller r, k) = None"
  shows "mem_inv P (insert_route r s)"
proof -
  have key: "fmlookup (by_idempotency (insert_route r s)) (c, k) = Some j \<longleftrightarrow>
      (\<exists>x. contents (insert_route r s) j = Some x \<and> tr_caller x = c \<and> tr_idempotency_key x = Some k)"
    for c k j
  proof (cases "tr_idempotency_key r = Some k \<and> tr_caller r = c")
    case True
    then have "fmlookup (by_idempotency s) (c, k) = None" using free by simp
    then have "\<not> (\<exists>x. contents s j = Some x \<and> tr_caller x = c \<and> tr_idempotency_key x = Some k)"
      using mem_inv_key [OF inv, of c k j] by simp
    with True show ?thesis by (auto simp: insert_route_def contents_def)
  next
    case False
    then have "fmlookup (by_idempotency (insert_route r s)) (c, k) = fmlookup (by_idempotency s) (c, k)"
      by (auto simp: insert_route_def split: option.split)
    with False new show ?thesis using mem_inv_key [OF inv, of c k j] by auto
  qed
  have exp: "(t, j) |\<in>| by_expiry (insert_route r s) \<longleftrightarrow>
      (\<exists>x. contents (insert_route r s) j = Some x \<and> tr_expires x = t)" for t j
    using mem_inv_expiry [OF inv, of t j] new by (auto simp: insert_route_def contents_def)
  show ?thesis
    unfolding mem_inv_def
    using key exp mem_inv_id [OF inv] mem_inv_verified [OF inv] ok by auto
qed

section \<open>Operations against the stored map\<close>

subsection \<open>Beginning a route\<close>

text \<open>The stored route that holds the idempotency key of a new record.\<close>

definition holds_key :: "(public_task_id \<Rightarrow> task_route option) \<Rightarrow> task_route \<Rightarrow> public_task_id \<Rightarrow> task_route \<Rightarrow> bool" where
  "holds_key m r i e \<longleftrightarrow>
     m i = Some e \<and> tr_caller e = tr_caller r \<and> tr_idempotency_key r \<noteq> None
     \<and> tr_idempotency_key e = tr_idempotency_key r"

lemma holds_key_unique:
  "mem_inv P s \<Longrightarrow> holds_key (contents s) r i e \<Longrightarrow> holds_key (contents s) r j f \<Longrightarrow> i = j \<and> e = f"
  using mem_inv_key_unique [of P s i e j f] by (fastforce simp: holds_key_def)

lemma lookup_key_result:
  assumes inv: "mem_inv P s"
  shows "(\<forall>i e. \<not> holds_key (contents s) r i e) \<and> lookup_key P r s = Inr NoBinding
     \<or> (\<exists>i e k. holds_key (contents s) r i e \<and> tr_idempotency_key r = Some k \<and> lookup_key P r s =
          (if is_expired e (tr_created r) then Inr (ExpiredBinding (tr_caller r, k) i)
           else if tr_request_digest e \<noteq> tr_request_digest r then Inl IdempotencyConflict
           else Inr (LiveBinding e)))"
proof (cases "tr_idempotency_key r")
  case None
  then show ?thesis by (simp add: lookup_key_def holds_key_def)
next
  case (Some k)
  show ?thesis
  proof (cases "fmlookup (by_idempotency s) (tr_caller r, k)")
    case None
    then have "\<not> holds_key (contents s) r i e" for i e
      using mem_inv_key [OF inv, of "tr_caller r" k i] Some by (auto simp: holds_key_def)
    with None Some show ?thesis by (simp add: lookup_key_def)
  next
    case (Some i)
    then obtain e where e: "contents s i = Some e" "tr_caller e = tr_caller r" "tr_idempotency_key e = Some k"
      using mem_inv_key [OF inv] by blast
    with mem_inv_verified [OF inv e(1)] Some \<open>tr_idempotency_key r = Some k\<close> show ?thesis
      by (intro disjI2 exI [of _ i] exI [of _ e] exI [of _ k])
         (simp add: lookup_key_def holds_key_def contents_def)
  qed
qed

text \<open>
  What \<open>begin_or_existing\<close> promises, between the stored maps before and after.
\<close>

definition begin_contract ::
  "platform \<Rightarrow> task_route \<Rightarrow> (public_task_id \<Rightarrow> task_route option)
   \<Rightarrow> (task_storage_error, begin_result) res \<Rightarrow> (public_task_id \<Rightarrow> task_route option) \<Rightarrow> bool" where
  "begin_contract P r m res m' \<longleftrightarrow>
     (case res of
        Inr (Inserted x) \<Rightarrow>
          x = r \<and> verify_prepared_for_begin P r = Inr ()
          \<and> (\<exists>m0. m' = m0(tr_public_id r \<mapsto> r) \<and> m0 (tr_public_id r) = None
               \<and> (m0 = m \<and> (\<forall>i e. \<not> holds_key m r i e)
                  \<or> (\<exists>i e. holds_key m r i e \<and> is_expired e (tr_created r) \<and> m0 = m(i := None))))
      | Inr (Existing x) \<Rightarrow>
          m' = m \<and> (\<exists>i. holds_key m r i x) \<and> \<not> is_expired x (tr_created r)
          \<and> tr_request_digest x = tr_request_digest r
      | Inl e \<Rightarrow>
          m' = m \<and>
          (case e of
             StorageTaskRoute te \<Rightarrow> verify_prepared_for_begin P r = Inl te
           | IdempotencyConflict \<Rightarrow>
               \<exists>i x. holds_key m r i x \<and> \<not> is_expired x (tr_created r)
                 \<and> tr_request_digest x \<noteq> tr_request_digest r
           | PublicTaskIdCollision \<Rightarrow>
               (\<exists>x. m (tr_public_id r) = Some x \<and> \<not> holds_key m r (tr_public_id r) x)
               \<and> (\<forall>i x. holds_key m r i x \<longrightarrow> is_expired x (tr_created r))
           | TaskRouteCapacity \<Rightarrow> \<forall>i x. holds_key m r i x \<longrightarrow> is_expired x (tr_created r)
           | _ \<Rightarrow> False))"

lemma prepared_verified:
  "verify_prepared_for_begin P r = Inr u \<Longrightarrow> task_verify_integrity P r = Inr ()"
  by (auto simp: verify_prepared_for_begin_def rbind_Inr)

lemma fmdom_contents: "i |\<in>| fmdom (by_id s) \<longleftrightarrow> contents s i \<noteq> None"
  by (simp add: contents_def fmdom_lookup)

lemma mem_begin_contract:
  assumes inv: "mem_inv P s"
  shows "begin_contract P r (contents s) (fst (mem_begin P r s)) (contents (snd (mem_begin P r s)))
       \<and> mem_inv P (snd (mem_begin P r s))"
proof (cases "verify_prepared_for_begin P r")
  case (Inl te)
  then show ?thesis using inv by (simp add: mem_begin_def begin_contract_def)
next
  case (Inr u)
  note v = prepared_verified [OF Inr]
  from lookup_key_result [OF inv, of r] show ?thesis
  proof (elim disjE exE conjE)
    assume none: "\<forall>i e. \<not> holds_key (contents s) r i e" and l: "lookup_key P r s = Inr NoBinding"
    have free: "fmlookup (by_idempotency s) (tr_caller r, k) = None" if k: "tr_idempotency_key r = Some k" for k
    proof (rule ccontr)
      assume "fmlookup (by_idempotency s) (tr_caller r, k) \<noteq> None"
      then obtain i where "fmlookup (by_idempotency s) (tr_caller r, k) = Some i" by blast
      then obtain e where "holds_key (contents s) r i e"
        using mem_inv_key [OF inv] k by (auto simp: holds_key_def)
      with none show False by blast
    qed
    show ?thesis
      using Inr l none inv insert_inv [OF inv _ v free]
      by (auto simp: mem_begin_def begin_contract_def Let_def fmdom_contents)
  next
    fix i e k
    assume h: "holds_key (contents s) r i e" and k: "tr_idempotency_key r = Some k"
      and l: "lookup_key P r s =
          (if is_expired e (tr_created r) then Inr (ExpiredBinding (tr_caller r, k) i)
           else if tr_request_digest e \<noteq> tr_request_digest r then Inl IdempotencyConflict
           else Inr (LiveBinding e))"
    from h k have e: "contents s i = Some e" "tr_caller e = tr_caller r" "tr_idempotency_key e = Some k"
      by (simp_all add: holds_key_def)
    note only = holds_key_unique [OF inv h]
    show ?thesis
    proof (cases "is_expired e (tr_created r)")
      case False
      show ?thesis
      proof (cases "tr_request_digest e = tr_request_digest r")
        case True
        then have "mem_begin P r s = (Inr (Existing e), s)"
          using Inr l False by (simp add: mem_begin_def)
        with True False h inv show ?thesis by (auto simp: begin_contract_def)
      next
        case differs: False
        then have "mem_begin P r s = (Inl IdempotencyConflict, s)"
          using Inr l False by (simp add: mem_begin_def)
        with differs False h inv show ?thesis by (auto simp: begin_contract_def)
      qed
    next
      case True
      note fb = forget_binding_without [OF inv e]
      have inv': "mem_inv P (without i e s)" by (rule without_inv [OF inv e(1)])
      have free: "fmlookup (by_idempotency (without i e s)) (tr_caller r, k') = None"
        if "tr_idempotency_key r = Some k'" for k'
        using that k e by (simp add: without_def)
      have other: "\<not> holds_key (contents s) r (tr_public_id r) x" if "i \<noteq> tr_public_id r" for x
        using only that by blast
      have expired: "\<forall>j x. holds_key (contents s) r j x \<longrightarrow> is_expired x (tr_created r)"
        using only True by blast
      have "mem_begin P r s = (Inl PublicTaskIdCollision, s) \<and> i \<noteq> tr_public_id r
              \<and> contents s (tr_public_id r) \<noteq> None
          \<or> mem_begin P r s = (Inl TaskRouteCapacity, s)
          \<or> mem_begin P r s = (Inr (Inserted r), insert_route r (without i e s))
            \<and> ((contents s)(i := None)) (tr_public_id r) = None"
        using Inr l True by (auto simp: mem_begin_def Let_def fmdom_contents fb)
      then show ?thesis
      proof (elim disjE conjE)
        assume "mem_begin P r s = (Inl PublicTaskIdCollision, s)" "i \<noteq> tr_public_id r"
          "contents s (tr_public_id r) \<noteq> None"
        with other expired inv show ?thesis by (auto simp: begin_contract_def)
      next
        assume "mem_begin P r s = (Inl TaskRouteCapacity, s)"
        with expired inv show ?thesis by (simp add: begin_contract_def)
      next
        assume ins: "mem_begin P r s = (Inr (Inserted r), insert_route r (without i e s))"
          and new: "((contents s)(i := None)) (tr_public_id r) = None"
        have "mem_inv P (insert_route r (without i e s))"
          using insert_inv [OF inv' _ v free] new by simp
        moreover have "begin_contract P r (contents s) (Inr (Inserted r))
            (((contents s)(i := None))(tr_public_id r \<mapsto> r))"
          unfolding begin_contract_def sum.case begin_result.case
          using Inr new h True
          by (intro conjI exI [of _ "(contents s)(i := None)"] disjI2 exI [of _ i] exI [of _ e]) simp_all
        ultimately show ?thesis by (simp add: ins)
      qed
    qed
  qed
qed

subsection \<open>Reading and updating\<close>

lemma mem_get_result:
  assumes "mem_inv P s"
  shows "mem_get P c i s =
     Inr (case contents s i of Some r \<Rightarrow> if tr_caller r = c then Some r else None | None \<Rightarrow> None)"
  using mem_inv_verified [OF assms, of i]
  by (auto simp: mem_get_def contents_def split: option.split)

lemma mem_find_result:
  assumes inv: "mem_inv P s"
  shows "(\<exists>r. mem_find P c k s = Inr (Some r) \<and> (\<exists>i. contents s i = Some r)
            \<and> tr_caller r = c \<and> tr_idempotency_key r = Some k)
       \<or> mem_find P c k s = Inr None
         \<and> (\<forall>i r. contents s i = Some r \<longrightarrow> \<not> (tr_caller r = c \<and> tr_idempotency_key r = Some k))"
proof (cases "fmlookup (by_idempotency s) (c, k)")
  case None
  then show ?thesis using mem_inv_key [OF inv, of c k] by (auto simp: mem_find_def)
next
  case (Some i)
  then obtain r where r: "contents s i = Some r" "tr_caller r = c" "tr_idempotency_key r = Some k"
    using mem_inv_key [OF inv] by blast
  with Some mem_inv_verified [OF inv r(1)] show ?thesis
    by (auto simp: mem_find_def contents_def)
qed

lemma mem_cas_cases:
  assumes inv: "mem_inv P s"
  shows "mem_cas P c i v u s =
     (case contents s i of
        None \<Rightarrow> (Inr None, s)
      | Some r \<Rightarrow>
          if tr_caller r \<noteq> c then (Inr None, s)
          else if tr_version r \<noteq> v then (Inl StaleTransition, s)
          else case transition P r u of
                 Inl e \<Rightarrow> (Inl (StorageTaskRoute e), s)
               | Inr n \<Rightarrow> (Inr (Some n), s\<lparr>by_id := fmupd i n (by_id s)\<rparr>))"
  using mem_inv_verified [OF inv, of i]
  by (auto simp: mem_cas_def contents_def split: option.split sum.split)

lemma update_inv:
  assumes inv: "mem_inv P s" and r: "contents s i = Some r" and t: "transition P r u = Inr n"
  shows "mem_inv P (s\<lparr>by_id := fmupd i n (by_id s)\<rparr>)"
proof -
  note f = transition_follows(1) [OF t, unfolded follows_def]
  have same: "tr_public_id n = i" "tr_caller n = tr_caller r" "tr_idempotency_key n = tr_idempotency_key r"
    "tr_expires n = tr_expires r"
    using f mem_inv_id [OF inv r] by simp_all
  have c: "contents (s\<lparr>by_id := fmupd i n (by_id s)\<rparr>) = (contents s)(i \<mapsto> n)"
    by (simp add: contents_def)
  have "(\<exists>x. ((contents s)(i \<mapsto> n)) j = Some x \<and> tr_caller x = d \<and> tr_idempotency_key x = Some k)
      \<longleftrightarrow> (\<exists>x. contents s j = Some x \<and> tr_caller x = d \<and> tr_idempotency_key x = Some k)" for d k j
    using same r by auto
  moreover have "(\<exists>x. ((contents s)(i \<mapsto> n)) j = Some x \<and> tr_expires x = e)
      \<longleftrightarrow> (\<exists>x. contents s j = Some x \<and> tr_expires x = e)" for e j
    using same r by auto
  ultimately show ?thesis
    unfolding mem_inv_def c
    using mem_inv_key [OF inv] mem_inv_expiry [OF inv] mem_inv_id [OF inv] mem_inv_verified [OF inv]
      transition_follows(3) [OF t] same(1) by auto
qed

lemma mem_cas_inv:
  assumes inv: "mem_inv P s"
  shows "mem_inv P (snd (mem_cas P c i v u s))"
  using inv update_inv [OF inv, of i]
  by (auto simp: mem_cas_cases [OF inv] split: option.split sum.split)

subsection \<open>Purging\<close>

definition expired_entries :: "u64 \<Rightarrow> nat \<Rightarrow> memory_routes \<Rightarrow> (u64 \<times> public_task_id) list" where
  "expired_entries now limit s =
     take limit (takeWhile (\<lambda>e. fst e \<le> now) (sorted_list_of_fset (by_expiry s)))"

lemma mem_purge_entries:
  "mem_purge now n s = (length (expired_entries now (purge_limit n) s),
                        fold purge_one (expired_entries now (purge_limit n) s) s)"
  by (simp add: mem_purge_def expired_entries_def Let_def)

lemma fold_purge:
  assumes "mem_inv P s" "distinct (map snd es)"
    and "\<forall>e \<in> set es. \<exists>r. contents s (snd e) = Some r \<and> tr_expires r = fst e"
  shows "mem_inv P (fold purge_one es s)
       \<and> contents (fold purge_one es s) = (\<lambda>i. if i \<in> snd ` set es then None else contents s i)"
  using assms
proof (induction es arbitrary: s)
  case (Cons e es)
  obtain r where r: "contents s (snd e) = Some r" "tr_expires r = fst e" using Cons.prems(3) by auto
  have one: "purge_one e s = without (snd e) r s"
    using purge_one_without [OF Cons.prems(1) r(1)] r(2) by simp
  have "mem_inv P (without (snd e) r s)" by (rule without_inv [OF Cons.prems(1) r(1)])
  moreover have "\<forall>x \<in> set es. \<exists>q. contents (without (snd e) r s) (snd x) = Some q \<and> tr_expires q = fst x"
    using Cons.prems(2,3) by (auto simp: image_iff)
  ultimately have ih: "mem_inv P (fold purge_one es (without (snd e) r s))
      \<and> contents (fold purge_one es (without (snd e) r s))
        = (\<lambda>i. if i \<in> snd ` set es then None else contents (without (snd e) r s) i)"
    using Cons.prems(2) by (intro Cons.IH) simp_all
  then show ?case by (simp add: one) (auto simp: fun_eq_iff)
qed simp

lemma set_takeWhile_sorted:
  assumes "sorted (map f xs)"
  shows "set (takeWhile (\<lambda>x. f x \<le> b) xs) = {x \<in> set xs. f x \<le> b}"
  using assms by (induction xs) (auto intro: order.trans)

lemma sorted_fst: "sorted xs \<Longrightarrow> sorted (map fst (xs :: ('a::linorder \<times> 'b::linorder) list))"
  by (induction xs) (auto simp: less_eq_prod_def intro: less_imp_le)

lemma expired_entries_facts:
  assumes inv: "mem_inv P s"
  shows "distinct (map snd (expired_entries now n s))"
    and "\<forall>e \<in> set (expired_entries now n s). fst e \<le> now \<and> (\<exists>r. contents s (snd e) = Some r \<and> tr_expires r = fst e)"
    and "sorted (expired_entries now n s)"
    and "e \<in> set (expired_entries now n s) \<Longrightarrow> contents s j = Some q \<Longrightarrow> tr_expires q \<le> now
         \<Longrightarrow> (tr_expires q, j) < e \<Longrightarrow> (tr_expires q, j) \<in> set (expired_entries now n s)"
    and "length (expired_entries now n s) < n \<Longrightarrow> contents s j = Some q \<Longrightarrow> tr_expires q \<le> now
         \<Longrightarrow> (tr_expires q, j) \<in> set (expired_entries now n s)"
proof -
  define es where "es = takeWhile (\<lambda>e. fst e \<le> now) (sorted_list_of_fset (by_expiry s))"
  have ex: "expired_entries now n s = take n es" by (simp add: expired_entries_def es_def)
  have srt: "sorted (sorted_list_of_fset (by_expiry s))" "distinct (sorted_list_of_fset (by_expiry s))"
    by (simp_all add: sorted_list_of_fset_def)
  have set: "set es = {e. e |\<in>| by_expiry s \<and> fst e \<le> now}"
    unfolding es_def set_takeWhile_sorted [OF sorted_fst [OF srt(1)]] by simp
  have entry: "e |\<in>| by_expiry s \<longleftrightarrow> (\<exists>r. contents s (snd e) = Some r \<and> tr_expires r = fst e)" for e
    using mem_inv_expiry [OF inv, of "fst e" "snd e"] by simp
  have dist: "distinct es" and sorted_es: "sorted es"
    using srt by (simp_all add: es_def sorted_takeWhile)
  have "inj_on snd (set es)"
    using entry by (auto simp: inj_on_def set)
  then have "distinct (map snd es)" using dist by (simp add: distinct_map)
  then show "distinct (map snd (expired_entries now n s))"
    by (simp add: ex take_map [symmetric])
  show "\<forall>e \<in> set (expired_entries now n s). fst e \<le> now \<and> (\<exists>r. contents s (snd e) = Some r \<and> tr_expires r = fst e)"
    using set_take_subset [of n es] set entry by (auto simp: ex)
  show "sorted (expired_entries now n s)" using sorted_es by (simp add: ex sorted_wrt_take)
  have mem: "(tr_expires q, j) \<in> set es" if "contents s j = Some q" "tr_expires q \<le> now" for j q
    using that entry [of "(tr_expires q, j)"] by (simp add: set)
  show "(tr_expires q, j) \<in> set (expired_entries now n s)"
    if "e \<in> set (expired_entries now n s)" "contents s j = Some q" "tr_expires q \<le> now" "(tr_expires q, j) < e"
    for e j q
  proof -
    have "(tr_expires q, j) \<in> set (take n es) \<or> (tr_expires q, j) \<in> set (drop n es)"
      using mem [OF that(2,3)] by (metis append_take_drop_id set_append Un_iff)
    moreover have "(tr_expires q, j) \<notin> set (drop n es)"
    proof
      assume "(tr_expires q, j) \<in> set (drop n es)"
      then have "e \<le> (tr_expires q, j)"
        using sorted_es that(1) unfolding ex
        by (metis append_take_drop_id sorted_append)
      with that(4) show False by simp
    qed
    ultimately show ?thesis by (simp add: ex)
  qed
  show "(tr_expires q, j) \<in> set (expired_entries now n s)"
    if "length (expired_entries now n s) < n" "contents s j = Some q" "tr_expires q \<le> now" for j q
    using mem [OF that(2,3)] that(1) by (simp add: ex split: if_splits)
qed

lemma mem_purge_facts:
  assumes inv: "mem_inv P s" and es: "es = expired_entries now (purge_limit n) s"
  shows "mem_inv P (snd (mem_purge now n s))"
    and "contents (snd (mem_purge now n s)) = (\<lambda>i. if i \<in> snd ` set es then None else contents s i)"
    and "fst (mem_purge now n s) = card (snd ` set es)"
proof -
  note f = expired_entries_facts(1,2) [OF inv, of now "purge_limit n", folded es]
  have "\<forall>e \<in> set es. \<exists>r. contents s (snd e) = Some r \<and> tr_expires r = fst e" using f(2) by blast
  note g = fold_purge [OF inv f(1) this]
  have p: "mem_purge now n s = (length es, fold purge_one es s)" by (simp add: mem_purge_entries es)
  show "mem_inv P (snd (mem_purge now n s))"
    and "contents (snd (mem_purge now n s)) = (\<lambda>i. if i \<in> snd ` set es then None else contents s i)"
    using g by (simp_all add: p)
  show "fst (mem_purge now n s) = card (snd ` set es)"
    using distinct_card [OF f(1)] by (simp add: p)
qed

section \<open>The storage contract\<close>

definition get_contract ::
  "task_caller \<Rightarrow> public_task_id \<Rightarrow> (public_task_id \<Rightarrow> task_route option)
   \<Rightarrow> (task_storage_error, task_route option) res \<Rightarrow> bool" where
  "get_contract c i m res \<longleftrightarrow>
     res = Inr (case m i of Some r \<Rightarrow> if tr_caller r = c then Some r else None | None \<Rightarrow> None)"

definition cas_contract ::
  "platform \<Rightarrow> task_caller \<Rightarrow> public_task_id \<Rightarrow> u64 \<Rightarrow> task_update
   \<Rightarrow> (public_task_id \<Rightarrow> task_route option) \<Rightarrow> (task_storage_error, task_route option) res
   \<Rightarrow> (public_task_id \<Rightarrow> task_route option) \<Rightarrow> bool" where
  "cas_contract P c i v u m res m' \<longleftrightarrow>
     (case m i of
        None \<Rightarrow> res = Inr None \<and> m' = m
      | Some r \<Rightarrow>
          if tr_caller r \<noteq> c then res = Inr None \<and> m' = m
          else if tr_version r \<noteq> v then res = Inl StaleTransition \<and> m' = m
          else case transition P r u of
                 Inl e \<Rightarrow> res = Inl (StorageTaskRoute e) \<and> m' = m
               | Inr n \<Rightarrow> res = Inr (Some n) \<and> m' = m(i \<mapsto> n))"

text \<open>A purge removes a set of expired routes, the oldest first, and all of them if it removes
  fewer than its limit.\<close>

definition purge_contract ::
  "u64 \<Rightarrow> nat \<Rightarrow> (public_task_id \<Rightarrow> task_route option) \<Rightarrow> nat
   \<Rightarrow> (public_task_id \<Rightarrow> task_route option) \<Rightarrow> bool" where
  "purge_contract now n m removed m' \<longleftrightarrow>
     (\<exists>gone. finite gone \<and> card gone = removed \<and> removed \<le> purge_limit n
        \<and> m' = (\<lambda>i. if i \<in> gone then None else m i)
        \<and> (\<forall>i \<in> gone. \<exists>r. m i = Some r \<and> is_expired r now)
        \<and> (\<forall>i \<in> gone. \<forall>r. \<forall>j q. m i = Some r \<and> m j = Some q \<and> is_expired q now
             \<and> (tr_expires q, j) < (tr_expires r, i) \<longrightarrow> j \<in> gone)
        \<and> (removed < purge_limit n \<longrightarrow> (\<forall>j q. m j = Some q \<and> is_expired q now \<longrightarrow> j \<in> gone)))"

locale task_store =
  fixes P :: platform
    and get_op :: "task_caller \<Rightarrow> public_task_id \<Rightarrow> 's \<Rightarrow> (task_storage_error, task_route option) res"
    and begin_op :: "task_route \<Rightarrow> 's \<Rightarrow> (task_storage_error, begin_result) res \<times> 's"
    and cas_op :: "task_caller \<Rightarrow> public_task_id \<Rightarrow> u64 \<Rightarrow> task_update \<Rightarrow> 's
                   \<Rightarrow> (task_storage_error, task_route option) res \<times> 's"
    and purge_op :: "u64 \<Rightarrow> nat \<Rightarrow> 's \<Rightarrow> nat \<times> 's"
    and view :: "'s \<Rightarrow> public_task_id \<Rightarrow> task_route option"
    and valid :: "'s \<Rightarrow> bool"
    and record_ok :: "task_route \<Rightarrow> bool"
    and update_ok :: "task_update \<Rightarrow> bool"
  assumes get_law: "valid s \<Longrightarrow> get_contract c i (view s) (get_op c i s)"
    and begin_law: "valid s \<Longrightarrow> record_ok r \<Longrightarrow>
          begin_contract P r (view s) (fst (begin_op r s)) (view (snd (begin_op r s)))"
    and begin_valid: "valid s \<Longrightarrow> record_ok r \<Longrightarrow> valid (snd (begin_op r s))"
    and cas_law: "valid s \<Longrightarrow> update_ok u \<Longrightarrow>
          cas_contract P c i v u (view s) (fst (cas_op c i v u s)) (view (snd (cas_op c i v u s)))"
    and cas_valid: "valid s \<Longrightarrow> update_ok u \<Longrightarrow> valid (snd (cas_op c i v u s))"
    and purge_law: "valid s \<Longrightarrow>
          purge_contract now n (view s) (fst (purge_op now n s)) (view (snd (purge_op now n s)))"
    and purge_valid: "valid s \<Longrightarrow> valid (snd (purge_op now n s))"
begin

lemma cas_success:
  assumes "valid s" "update_ok u" "fst (cas_op c i v u s) = Inr (Some n)"
  shows "\<exists>r. view s i = Some r \<and> tr_caller r = c \<and> tr_version r = v \<and> transition P r u = Inr n
     \<and> view (snd (cas_op c i v u s)) = (view s)(i \<mapsto> n)"
  using cas_law [OF assms(1,2), of c i v] assms(3)
  by (auto simp: cas_contract_def split: option.splits if_splits sum.splits)

lemma cas_once:
  assumes "valid s" "update_ok u" "update_ok u'" "fst (cas_op c i v u s) = Inr (Some n)"
  shows "fst (cas_op c i v u' (snd (cas_op c i v u s))) = Inl StaleTransition
     \<and> view (snd (cas_op c i v u' (snd (cas_op c i v u s)))) = view (snd (cas_op c i v u s))"
proof -
  obtain r where r: "tr_version r = v" "tr_caller r = c" "transition P r u = Inr n"
    "view (snd (cas_op c i v u s)) = (view s)(i \<mapsto> n)"
    using cas_success [OF assms(1,2,4)] by blast
  have "tr_version n \<noteq> v" "tr_caller n = c"
    using transition_follows(1) [OF r(3)] r(1,2) by (auto simp: follows_def)
  then show ?thesis
    using cas_law [OF cas_valid [OF assms(1,2)] assms(3), of c i v c i v] r(4)
    by (simp add: cas_contract_def)
qed

lemma foreign_route_hidden:
  assumes "valid s" "update_ok u" "view s i = Some r" "tr_caller r \<noteq> c"
  shows "get_op c i s = Inr None \<and> fst (cas_op c i v u s) = Inr None
     \<and> view (snd (cas_op c i v u s)) = view s"
  using get_law [OF assms(1), of c i] cas_law [OF assms(1,2), of c i v] assms(3,4)
  by (simp add: get_contract_def cas_contract_def)

lemma begin_evolves:
  assumes "valid s" "record_ok r" "view s i = Some a"
  shows "view (snd (begin_op r s)) i = Some a
     \<or> is_expired a (tr_created r) \<and> holds_key (view s) r i a \<and> fst (begin_op r s) = Inr (Inserted r)"
  using begin_law [OF assms(1,2)] assms(3)
  by (auto simp: begin_contract_def holds_key_def split: sum.splits begin_result.splits if_splits)

lemma cas_evolves:
  assumes "valid s" "update_ok u" "view s i = Some a"
  shows "\<exists>b. view (snd (cas_op c j v u s)) i = Some b \<and> (b = a \<or> follows a b)"
  using cas_law [OF assms(1,2), of c j v] assms(3) transition_follows(1)
  by (auto simp: cas_contract_def split: option.splits if_splits sum.splits)

lemma begin_again:
  assumes "valid s" "fst (begin_op r s) = Inr (Inserted r)" "tr_idempotency_key r \<noteq> None"
    and same: "tr_caller r' = tr_caller r" "tr_idempotency_key r' = tr_idempotency_key r"
    and live: "\<not> is_expired r (tr_created r')"
    and unique: "\<And>i j a b. holds_key (view (snd (begin_op r s))) r' i a
        \<Longrightarrow> holds_key (view (snd (begin_op r s))) r' j b \<Longrightarrow> a = b"
    and ok: "verify_prepared_for_begin P r' = Inr ()"
    and fits: "record_ok r" "record_ok r'"
  shows "fst (begin_op r' (snd (begin_op r s)))
     = (if tr_request_digest r' = tr_request_digest r then Inr (Existing r) else Inl IdempotencyConflict)"
proof -
  have "view (snd (begin_op r s)) (tr_public_id r) = Some r"
    using begin_law [OF assms(1) fits(1)] assms(2) by (auto simp: begin_contract_def)
  then have h: "holds_key (view (snd (begin_op r s))) r' (tr_public_id r) r"
    using same assms(3) by (simp add: holds_key_def)
  show ?thesis
  proof -
    have only: "x = r" if "holds_key (view (snd (begin_op r s))) r' i x" for i x
      using unique [OF that h] .
    note c = begin_law [OF begin_valid [OF assms(1) fits(1)] fits(2), unfolded begin_contract_def]
    show ?thesis
    proof (cases "fst (begin_op r' (snd (begin_op r s)))")
      case (Inl e)
      have "e = IdempotencyConflict \<and> tr_request_digest r' \<noteq> tr_request_digest r"
        using c h live ok unfolding Inl by (cases e) (simp; force dest: only)+
      then show ?thesis using Inl by simp
    next
      case (Inr res)
      have "res = Existing r \<and> tr_request_digest r = tr_request_digest r'"
        using c h live unfolding Inr by (cases res) (simp; blast dest: only)+
      then show ?thesis using Inr by simp
    qed
  qed
qed

end

section \<open>The contract holds in memory\<close>

lemma mem_purge_contract:
  assumes inv: "mem_inv P s"
  shows "purge_contract now n (contents s) (fst (mem_purge now n s)) (contents (snd (mem_purge now n s)))"
proof -
  define es where "es = expired_entries now (purge_limit n) s"
  note p = mem_purge_facts [OF inv es_def] and e = expired_entries_facts [OF inv, where now = now and n = "purge_limit n", folded es_def]
  have len: "card (snd ` set es) \<le> purge_limit n"
    using distinct_card [OF e(1)] by (simp add: es_def expired_entries_def)
  have len': "length es = card (snd ` set es)"
    using distinct_card [OF e(1)] by simp
  have entry: "(tr_expires r, i) \<in> set es" if "i \<in> snd ` set es" "contents s i = Some r" for i r
    using that e(2) by force
  have older: "j \<in> snd ` set es"
    if "i \<in> snd ` set es" "contents s i = Some r" "contents s j = Some q" "is_expired q now"
      "(tr_expires q, j) < (tr_expires r, i)" for i r j q
    using e(4) [OF entry [OF that(1,2)] that(3) _ that(5)] that(4) by (force simp: is_expired_def)
  have complete: "j \<in> snd ` set es"
    if "card (snd ` set es) < purge_limit n" "contents s j = Some q" "is_expired q now" for j q
    using e(5) [OF _ that(2)] that(1,3) len' by (force simp: is_expired_def)
  have gone: "\<exists>r. contents s i = Some r \<and> is_expired r now" if "i \<in> snd ` set es" for i
    using that e(2) by (force simp: is_expired_def)
  show ?thesis
    unfolding purge_contract_def p(2,3)
  proof (intro exI [of _ "snd ` set es"] conjI)
    show "finite (snd ` set es)" by simp
    show "card (snd ` set es) \<le> purge_limit n" by (rule len)
    show "\<forall>i \<in> snd ` set es. \<exists>r. contents s i = Some r \<and> is_expired r now" using gone by blast
    show "\<forall>i \<in> snd ` set es. \<forall>r. \<forall>j q. contents s i = Some r \<and> contents s j = Some q
        \<and> is_expired q now \<and> (tr_expires q, j) < (tr_expires r, i) \<longrightarrow> j \<in> snd ` set es"
      by (intro ballI allI impI, elim conjE) (rule older)
    show "card (snd ` set es) < purge_limit n \<longrightarrow>
        (\<forall>j q. contents s j = Some q \<and> is_expired q now \<longrightarrow> j \<in> snd ` set es)"
      by (intro impI allI, elim conjE) (rule complete)
  qed (rule refl)+
qed

interpretation memory_store: task_store P "mem_get P" "mem_begin P" "mem_cas P" mem_purge contents "mem_inv P"
    "\<lambda>_. True" "\<lambda>_. True"
  for P
proof
  fix s :: memory_routes and c i r v u now n
  assume inv: "mem_inv P s"
  show "get_contract c i (contents s) (mem_get P c i s)"
    by (simp add: get_contract_def mem_get_result [OF inv])
  show "begin_contract P r (contents s) (fst (mem_begin P r s)) (contents (snd (mem_begin P r s)))"
    "mem_inv P (snd (mem_begin P r s))"
    using mem_begin_contract [OF inv] by blast+
  show "cas_contract P c i v u (contents s) (fst (mem_cas P c i v u s)) (contents (snd (mem_cas P c i v u s)))"
    by (auto simp: cas_contract_def mem_cas_cases [OF inv] contents_def split: option.split sum.split)
  show "mem_inv P (snd (mem_cas P c i v u s))" by (rule mem_cas_inv [OF inv])
  show "purge_contract now n (contents s) (fst (mem_purge now n s)) (contents (snd (mem_purge now n s)))"
    by (rule mem_purge_contract [OF inv])
  show "mem_inv P (snd (mem_purge now n s))" by (rule mem_purge_facts(1) [OF inv refl])
qed

section \<open>Capacity\<close>

definition active_set :: "task_caller \<Rightarrow> u64 \<Rightarrow> (public_task_id, task_route) fmap \<Rightarrow> public_task_id set" where
  "active_set c now m = {i. \<exists>e. fmlookup m i = Some e \<and> tr_caller e = c \<and> \<not> is_expired e now}"

lemma active_set_dom: "active_set c now m \<subseteq> fset (fmdom m)"
  by (auto simp: active_set_def fmdom_lookup)

lemma finite_active_set: "finite (active_set c now m)"
  by (rule finite_subset [OF active_set_dom finite_fset])

lemma length_filter_values:
  "length (filter q (fm_values m)) = card {k. k |\<in>| fmdom m \<and> q (the (fmlookup m k))}"
proof -
  have "length (filter q (fm_values m)) =
      length (filter (\<lambda>k. q (the (fmlookup m k))) (sorted_list_of_fset (fmdom m)))"
    by (simp add: fm_values_def filter_map comp_def)
  also have "\<dots> = card (set (filter (\<lambda>k. q (the (fmlookup m k))) (sorted_list_of_fset (fmdom m))))"
    by (rule distinct_card [symmetric]) (simp add: sorted_list_of_fset_def)
  finally show ?thesis by simp
qed

lemma active_for_card: "active_for c now m = card (active_set c now m)"
  unfolding active_for_def length_filter_values
  by (rule arg_cong [of _ _ card]) (auto simp: active_set_def fmdom_lookup)

lemma lookup_key_expired:
  "lookup_key P r s = Inr (ExpiredBinding sc i) \<Longrightarrow> i |\<in>| fmdom (by_id s)"
  by (auto simp: lookup_key_def rbind_Inr ok_or_Inr fmdom_lookup split: option.splits if_splits)

lemma forget_by_id [simp]: "by_id (forget_binding sc i s) = fmdrop i (by_id s)"
  by (auto simp: forget_binding_def Let_def split: option.split intro!: fmap_ext)

lemma insert_by_id [simp]: "by_id (insert_route r s) = fmupd (tr_public_id r) r (by_id s)"
  by (simp add: insert_route_def)

text \<open>The map a new record is inserted into: the old one, less an expired holder of its key.\<close>

lemma mem_begin_inserted:
  assumes "fst (mem_begin P r s) = Inr (Inserted x)"
  obtains m where "by_id (snd (mem_begin P r s)) = fmupd (tr_public_id r) r m" "m = by_id s \<and>
      fcard (fmdom m) < 4096 \<or> (\<exists>i. i |\<in>| fmdom (by_id s) \<and> m = fmdrop i (by_id s) \<and>
      fcard (fmdom (by_id s)) - 1 < 4096)" "active_for (tr_caller r) (tr_created r) (by_id s) < 256"
proof -
  obtain b where l: "lookup_key P r s = Inr b" and v: "verify_prepared_for_begin P r = Inr ()"
    using assms by (auto simp: mem_begin_def split: sum.splits option.splits) (auto simp: rbind_Inr map_err_Inr)
  have lims: "MAX_STORED_TASK_ROUTES = 4096" "MAX_ACTIVE_TASK_ROUTES_PER_CALLER = 256"
    by (simp_all add: MAX_STORED_TASK_ROUTES_def MAX_ACTIVE_TASK_ROUTES_PER_CALLER_def)
  show ?thesis
  proof (cases b)
    case NoBinding
    with assms l v show ?thesis
      by (intro that [of "by_id s"]) (auto simp: mem_begin_def Let_def lims not_le split: if_splits)
  next
    case (ExpiredBinding sc i)
    with assms l v lookup_key_expired [of P r s sc i] show ?thesis
      by (intro that [of "fmdrop i (by_id s)"]) (auto simp: mem_begin_def Let_def lims not_le split: if_splits)
  next
    case (LiveBinding e)
    with assms l v show ?thesis by (simp add: mem_begin_def)
  qed
qed

lemma mem_begin_unchanged:
  "\<not> (\<exists>x. fst (mem_begin P r s) = Inr (Inserted x)) \<Longrightarrow> snd (mem_begin P r s) = s"
  by (auto simp: mem_begin_def Let_def split: sum.splits key_lookup.splits if_splits)

lemma begin_capacity:
  assumes "fst (mem_begin P r s) = Inr (Inserted x)"
  shows "fcard (fmdom (by_id (snd (mem_begin P r s)))) \<le> 4096"
    and "active_for (tr_caller r) (tr_created r) (by_id (snd (mem_begin P r s))) \<le> 256"
proof -
  from mem_begin_inserted [OF assms] obtain m
    where m: "by_id (snd (mem_begin P r s)) = fmupd (tr_public_id r) r m"
      and c: "m = by_id s \<and> fcard (fmdom m) < 4096 \<or> (\<exists>i. i |\<in>| fmdom (by_id s) \<and> m = fmdrop i (by_id s)
                \<and> fcard (fmdom (by_id s)) - 1 < 4096)"
      and a: "active_for (tr_caller r) (tr_created r) (by_id s) < 256"
    by blast
  from c have "fcard (fmdom m) < 4096"
  proof (elim disjE exE conjE)
    fix i assume "i |\<in>| fmdom (by_id s)" "m = fmdrop i (by_id s)" "fcard (fmdom (by_id s)) - 1 < 4096"
    then show "fcard (fmdom m) < 4096"
      using fcard_Suc_fminus1 [of i "fmdom (by_id s)"] by simp
  qed simp
  moreover have "fcard (finsert k A) \<le> Suc (fcard A)" for k and A :: "public_task_id fset"
    by (cases "k |\<in>| A") (simp_all add: finsert_absorb fcard_finsert_disjoint)
  ultimately show "fcard (fmdom (by_id (snd (mem_begin P r s)))) \<le> 4096"
    by (simp add: m) (meson less_le_not_le not_less_eq_eq order.trans)
  have "active_set (tr_caller r) (tr_created r) (fmupd (tr_public_id r) r m)
      \<subseteq> insert (tr_public_id r) (active_set (tr_caller r) (tr_created r) (by_id s))"
    using c by (auto simp: active_set_def split: if_splits)
  then have "card (active_set (tr_caller r) (tr_created r) (fmupd (tr_public_id r) r m))
      \<le> card (insert (tr_public_id r) (active_set (tr_caller r) (tr_created r) (by_id s)))"
    by (intro card_mono) (simp_all add: finite_active_set)
  also have "\<dots> \<le> Suc (active_for (tr_caller r) (tr_created r) (by_id s))"
    by (simp add: active_for_card card_insert_le_m1 finite_active_set card_insert_if)
  finally show "active_for (tr_caller r) (tr_created r) (by_id (snd (mem_begin P r s))) \<le> 256"
    using a by (simp add: m active_for_card)
qed

section \<open>Reachable stores\<close>

inductive memory_reachable :: "platform \<Rightarrow> memory_routes \<Rightarrow> bool" for P where
  memory_empty: "memory_reachable P memory_default"
| memory_begin: "memory_reachable P s \<Longrightarrow> memory_reachable P (snd (mem_begin P r s))"
| memory_cas: "memory_reachable P s \<Longrightarrow> memory_reachable P (snd (mem_cas P c i v u s))"
| memory_purge: "memory_reachable P s \<Longrightarrow> memory_reachable P (snd (mem_purge now n s))"

lemma memory_reachable_inv: "memory_reachable P s \<Longrightarrow> mem_inv P s"
proof (induction rule: memory_reachable.induct)
  case memory_empty
  show ?case by (rule mem_inv_default)
qed (simp_all add: memory_store.begin_valid memory_store.cas_valid memory_store.purge_valid)

lemma fcard_dom_mono: "fset (fmdom a) \<subseteq> fset (fmdom b) \<Longrightarrow> fcard (fmdom a) \<le> fcard (fmdom b)"
  by (simp add: fcard.rep_eq card_mono)

lemma dom_contents: "fset (fmdom (by_id s)) = {i. contents s i \<noteq> None}"
  using fmdom_contents by auto

lemma memory_reachable_capacity: "memory_reachable P s \<Longrightarrow> fcard (fmdom (by_id s)) \<le> 4096"
proof (induction rule: memory_reachable.induct)
  case memory_empty
  show ?case by (simp add: memory_default_def fcard.rep_eq)
next
  case (memory_begin s r)
  then show ?case
    using begin_capacity(1) [of P r s] mem_begin_unchanged [of P r s]
    by (cases "\<exists>x. fst (mem_begin P r s) = Inr (Inserted x)") auto
next
  case (memory_cas s c i v u)
  note inv = memory_reachable_inv [OF memory_cas.hyps]
  have "fset (fmdom (by_id (snd (mem_cas P c i v u s)))) \<subseteq> fset (fmdom (by_id s))"
    unfolding dom_contents using memory_store.cas_law [OF inv TrueI, of c i v u]
    by (auto simp: cas_contract_def split: option.splits if_splits sum.splits)
  then show ?case using memory_cas.IH fcard_dom_mono order.trans by blast
next
  case (memory_purge s now n)
  note inv = memory_reachable_inv [OF memory_purge.hyps]
  have "fset (fmdom (by_id (snd (mem_purge now n s)))) \<subseteq> fset (fmdom (by_id s))"
    unfolding dom_contents using mem_purge_facts(2) [OF inv refl, of now n] by (auto split: if_splits)
  then show ?case using memory_purge.IH fcard_dom_mono order.trans by blast
qed

section \<open>Leases are a map\<close>

locale lease_store =
  fixes put :: "capability_lease \<Rightarrow> 's \<Rightarrow> 's"
    and get :: "string \<Rightarrow> 's \<Rightarrow> capability_lease option"
    and remove :: "string \<Rightarrow> 's \<Rightarrow> 's"
    and stored_ok :: "capability_lease \<Rightarrow> bool"
  assumes get_put: "stored_ok l \<Longrightarrow> get i (put l s) = (if i = lease_id l then Some l else get i s)"
    and get_remove: "get i (remove j s) = (if i = j then None else get i s)"
begin

lemma put_twice:
  "stored_ok a \<Longrightarrow> stored_ok b \<Longrightarrow> lease_id a = lease_id b \<Longrightarrow> get i (put b (put a s)) = get i (put b s)"
  by (simp add: get_put)

lemma removed_stays_removed:
  "\<forall>l \<in> set ls. stored_ok l \<and> lease_id l \<noteq> i \<Longrightarrow> get i (fold put ls (remove i s)) = None"
proof (induction ls rule: rev_induct)
  case (snoc l ls)
  then show ?case by (auto simp: get_put)
qed (simp add: get_remove)

end

interpretation memory_leases: lease_store mem_lease_put mem_lease_get mem_lease_remove "\<lambda>_. True"
  by unfold_locales (auto simp: mem_lease_put_def mem_lease_get_def mem_lease_remove_def)

section \<open>Properties\<close>

text \<open>
  Beginning a task on any reachable store either inserts the prepared route, replacing at
  most an expired holder of its idempotency key, returns the live route of the same caller, key
  and request, or fails and changes nothing, with the error its cause determines; it never
  exceeds 4096 stored routes or 256 active ones for the caller.
\<close>

theorem begin_is_idempotent_insert:
  assumes "memory_reachable P s"
  shows "begin_contract P r (contents s) (fst (mem_begin P r s)) (contents (snd (mem_begin P r s)))
     \<and> fcard (fmdom (by_id (snd (mem_begin P r s)))) \<le> 4096
     \<and> (fst (mem_begin P r s) = Inr (Inserted r) \<longrightarrow>
          active_for (tr_caller r) (tr_created r) (by_id (snd (mem_begin P r s))) \<le> 256)"
  using memory_store.begin_law [OF memory_reachable_inv [OF assms] TrueI]
    memory_reachable_capacity [OF memory_begin [OF assms]] begin_capacity(2) by blast

text \<open>
  A retry with the same caller and idempotency key, before the first route expires, returns
  the route that was inserted when the request is the same and a conflict otherwise: the task is
  never started twice.
\<close>

theorem retry_returns_first_route:
  assumes "memory_reachable P s" "fst (mem_begin P r s) = Inr (Inserted r)"
    and "tr_idempotency_key r \<noteq> None" "tr_caller r' = tr_caller r"
    and "tr_idempotency_key r' = tr_idempotency_key r" "\<not> is_expired r (tr_created r')"
    and "verify_prepared_for_begin P r' = Inr ()"
  shows "fst (mem_begin P r' (snd (mem_begin P r s)))
     = (if tr_request_digest r' = tr_request_digest r then Inr (Existing r) else Inl IdempotencyConflict)"
  using assms(1-6) holds_key_unique [OF memory_reachable_inv [OF memory_begin [OF assms(1)]]]
  by (intro memory_store.begin_again [OF memory_reachable_inv [OF assms(1)] _ _ _ _ _ _ assms(7) TrueI TrueI]) blast+

text \<open>
  C13: Of several updates that expect the same version of a route only the first takes effect:
  a second one is refused as stale and changes nothing; and a caller who does not own a route
  can neither read nor change it, nor tell it from one that does not exist.
\<close>

theorem compare_and_set_once:
  assumes "memory_reachable P s" "contents s i = Some r"
  shows "(fst (mem_cas P c i v u s) = Inr (Some n) \<longrightarrow>
            fst (mem_cas P c i v u' (snd (mem_cas P c i v u s))) = Inl StaleTransition
            \<and> contents (snd (mem_cas P c i v u' (snd (mem_cas P c i v u s))))
              = contents (snd (mem_cas P c i v u s))
            \<and> tr_caller r = c \<and> follows r n)
     \<and> (tr_caller r \<noteq> c \<longrightarrow>
          mem_get P c i s = Inr None \<and> fst (mem_cas P c i v u s) = Inr None
          \<and> contents (snd (mem_cas P c i v u s)) = contents s)"
proof (intro conjI impI)
  note inv = memory_reachable_inv [OF assms(1)]
  assume ok: "fst (mem_cas P c i v u s) = Inr (Some n)"
  from memory_store.cas_success [OF inv TrueI ok] assms(2) transition_follows(1)
  show "tr_caller r = c" "follows r n" by auto
  from memory_store.cas_once [OF inv TrueI TrueI ok]
  show "fst (mem_cas P c i v u' (snd (mem_cas P c i v u s))) = Inl StaleTransition"
    "contents (snd (mem_cas P c i v u' (snd (mem_cas P c i v u s)))) = contents (snd (mem_cas P c i v u s))"
    by blast+
next
  note inv = memory_reachable_inv [OF assms(1)]
  assume "tr_caller r \<noteq> c"
  from memory_store.foreign_route_hidden [OF inv TrueI assms(2) this]
  show "mem_get P c i s = Inr None" "fst (mem_cas P c i v u s) = Inr None"
    "contents (snd (mem_cas P c i v u s)) = contents s" by blast+
qed

text \<open>
  Purging removes only routes that have expired, the oldest first, at most the smaller of
  the requested number and 10000, all of them when there are fewer, and reports the number removed.
\<close>

theorem purge_removes_oldest_expired:
  assumes "memory_reachable P s"
  shows "purge_contract now n (contents s) (fst (mem_purge now n s)) (contents (snd (mem_purge now n s)))"
  by (rule memory_store.purge_law [OF memory_reachable_inv [OF assms]])

definition sample_store :: memory_routes where
  "sample_store = snd (mem_begin sample_platform sample_task memory_default)"

lemma sample_task_prepared: "verify_prepared_for_begin sample_platform sample_task = Inr ()"
proof -
  have "task_verify_integrity sample_platform sample_task = Inr ()"
    using sample_task_facts by (simp add: guard_simps)
  then show ?thesis using sample_task_facts by (simp add: verify_prepared_for_begin_def)
qed

lemma sample_begin: "mem_begin sample_platform sample_task memory_default
  = (Inr (Inserted sample_task), insert_route sample_task memory_default)"
  using sample_task_facts
  by (simp add: mem_begin_def sample_task_prepared lookup_key_def memory_default_def active_for_def
      fm_values_def fcard.rep_eq Let_def MAX_STORED_TASK_ROUTES_def MAX_ACTIVE_TASK_ROUTES_PER_CALLER_def)

lemma sample_store_reachable: "memory_reachable sample_platform sample_store"
  unfolding sample_store_def by (intro memory_begin memory_empty)

lemma sample_store_contents: "contents sample_store ''gmt_1'' = Some sample_task"
  using sample_task_facts by (simp add: sample_store_def sample_begin)

theorem begin_is_idempotent_insert_witness:
  "begin_contract sample_platform sample_task (contents memory_default)
     (Inr (Inserted sample_task)) (contents sample_store)"
  using begin_is_idempotent_insert [OF memory_empty, of sample_platform sample_task]
  by (simp add: sample_begin sample_store_def)

theorem retry_returns_first_route_witness:
  "fst (mem_begin sample_platform sample_task sample_store) = Inr (Existing sample_task)"
  using retry_returns_first_route [OF memory_empty, of sample_platform sample_task sample_task]
    sample_task_facts sample_task_prepared sample_task_times
  by (simp add: sample_begin sample_store_def is_expired_def)

theorem compare_and_set_once_witness:
  "mem_get sample_platform \<lparr>caller_principal = ''eve'', caller_tenant = ''acme''\<rparr> ''gmt_1'' sample_store
   = Inr None"
  using compare_and_set_once [OF sample_store_reachable sample_store_contents,
      of "\<lparr>caller_principal = ''eve'', caller_tenant = ''acme''\<rparr>"] sample_task_facts
  by simp

theorem purge_removes_oldest_expired_witness:
  "purge_contract 1500 5 (contents sample_store) (fst (mem_purge 1500 5 sample_store))
     (contents (snd (mem_purge 1500 5 sample_store)))"
  by (rule purge_removes_oldest_expired [OF sample_store_reachable])

end
