(* ===== verification/Security.thy ===== *)
theory Security
  imports Context
begin

unbundle bit_operations_syntax

text \<open>
  Models \<open>crates/gaugemesh-core/src/security.rs\<close>: API keys, OIDC claims and the check of the
  addresses an outbound origin resolves to. Argon2, base64, the JWT library, URL parsing and
  DNS are not code of the repository: they are the fields of \<open>crypto\<close> and the arguments of the
  definitions. An IPv4 address is its 32-bit number, an IPv6 address its 128-bit number.
\<close>

section \<open>API keys\<close>

record crypto =
  argon_hash :: "string \<Rightarrow> string option"
  argon_verify :: "string \<Rightarrow> string \<Rightarrow> bool"
  base64_url :: "bytes \<Rightarrow> string"

record stored_api_key =
  key_id :: string
  key_tenant :: tenant_id
  key_scopes :: "string list"
  password_hash :: string
  revoked :: bool

record issued_api_key =
  plaintext :: string
  issued_record :: stored_api_key

type_synonym api_key_store = "(string, stored_api_key) fmap"

datatype auth_error =
    ApiKeyInvalid | ApiKeyRevoked | TenantMismatch | ScopeDenied | TokenHeader | TokenAlgorithm
  | TokenKey | TokenSignature | TokenIssuer | TokenAudience | TokenResource | TokenExpired
  | TokenNotYetValid

text \<open>The random bytes and the fresh identifier are arguments.\<close>

definition key_issue ::
  "crypto \<Rightarrow> bytes \<Rightarrow> string \<Rightarrow> tenant_id \<Rightarrow> string list \<Rightarrow> api_key_store
   \<Rightarrow> (auth_error, issued_api_key) res \<times> api_key_store" where
  "key_issue C random i t scopes s =
     (let plain = ''gm_live_'' @ i @ ''_'' @ base64_url C random in
      case argon_hash C plain of
        None \<Rightarrow> (Inl ApiKeyInvalid, s)
      | Some h \<Rightarrow>
          let r = \<lparr>key_id = i, key_tenant = t, key_scopes = sort_dedup scopes,
                   password_hash = h, revoked = False\<rparr>
          in (Inr \<lparr>plaintext = plain, issued_record = r\<rparr>, fmupd i r s))"

definition key_verify ::
  "crypto \<Rightarrow> string \<Rightarrow> string \<Rightarrow> tenant_id \<Rightarrow> string \<Rightarrow> api_key_store
   \<Rightarrow> (auth_error, stored_api_key) res" where
  "key_verify C i plain t required s =
     rbind (ok_or (fmlookup s i) ApiKeyInvalid) (\<lambda>r.
       if revoked r then Inl ApiKeyRevoked
       else if key_tenant r \<noteq> t then Inl TenantMismatch
       else if \<not> list_ex (\<lambda>sc. sc = required) (key_scopes r) then Inl ScopeDenied
       else if \<not> argon_verify C (password_hash r) plain then Inl ApiKeyInvalid
       else Inr r)"

definition key_revoke ::
  "string \<Rightarrow> api_key_store \<Rightarrow> (auth_error, unit) res \<times> api_key_store" where
  "key_revoke i s =
     (case fmlookup s i of
        None \<Rightarrow> (Inl ApiKeyInvalid, s)
      | Some r \<Rightarrow> (Inr (), fmupd i (r\<lparr>revoked := True\<rparr>) s))"

datatype key_op = Issue bytes string tenant_id "string list" | Revoke string

fun key_step :: "crypto \<Rightarrow> key_op \<Rightarrow> api_key_store \<Rightarrow> api_key_store" where
  "key_step C (Issue random i t scopes) s = snd (key_issue C random i t scopes s)"
| "key_step C (Revoke i) s = snd (key_revoke i s)"

definition key_run :: "crypto \<Rightarrow> key_op list \<Rightarrow> api_key_store \<Rightarrow> api_key_store" where
  "key_run C ops s = fold (key_step C) ops s"

section \<open>OIDC tokens\<close>

datatype audience = One string | Many "string list"

fun audience_contains :: "audience \<Rightarrow> string \<Rightarrow> bool" where
  "audience_contains (One v) expected = (v = expected)"
| "audience_contains (Many vs) expected = list_ex (\<lambda>v. v = expected) vs"

record oidc_claims =
  cl_sub :: string
  cl_iss :: string
  cl_aud :: audience
  cl_exp :: u64
  cl_nbf :: "u64 option"
  cl_resource :: string
  cl_tenant :: string
  cl_scope :: string

record oidc_binding =
  oidc_issuer :: string
  oidc_audience :: string
  oidc_resource :: string
  clock_skew_seconds :: u64

definition validate_claims ::
  "oidc_claims \<Rightarrow> oidc_binding \<Rightarrow> u64 \<Rightarrow> (auth_error, unit) res" where
  "validate_claims c b now =
     (if cl_iss c \<noteq> oidc_issuer b then Inl TokenIssuer
      else if \<not> audience_contains (cl_aud c) (oidc_audience b) then Inl TokenAudience
      else if cl_resource c \<noteq> oidc_resource b then Inl TokenResource
      else if saturating_add (cl_exp c) (clock_skew_seconds b) < now then Inl TokenExpired
      else if (case cl_nbf c of None \<Rightarrow> 0 | Some n \<Rightarrow> n) > saturating_add now (clock_skew_seconds b)
      then Inl TokenNotYetValid
      else Inr ())"

datatype jwt_algorithm = HS256 | HS384 | HS512 | RS256 | RS384 | RS512 | ES256 | ES384
  | PS256 | PS384 | PS512 | EdDSA

record 'k jwt_library =
  decode_header :: "string \<Rightarrow> (jwt_algorithm \<times> string option) option"
  find_key :: "string \<Rightarrow> 'k option"
  decoding_key_ok :: "'k \<Rightarrow> bool"
  decode_claims :: "string \<Rightarrow> 'k \<Rightarrow> jwt_algorithm \<Rightarrow> oidc_claims option"

definition verify_oidc_token ::
  "'k jwt_library \<Rightarrow> string \<Rightarrow> oidc_binding \<Rightarrow> u64 \<Rightarrow> (auth_error, oidc_claims) res" where
  "verify_oidc_token J token b now =
     rbind (ok_or (decode_header J token) TokenHeader) (\<lambda>(alg, kid).
     rbind (ensure (alg \<in> {RS256, PS256, ES256, EdDSA}) TokenAlgorithm) (\<lambda>_.
     rbind (ok_or kid TokenKey) (\<lambda>key_id.
     rbind (ok_or (find_key J key_id) TokenKey) (\<lambda>jwk.
     rbind (ensure (decoding_key_ok J jwk) TokenKey) (\<lambda>_.
     rbind (ok_or (decode_claims J token jwk alg) TokenSignature) (\<lambda>claims.
     rbind (validate_claims claims b now) (\<lambda>_. Inr claims)))))))"

section \<open>Outbound origins\<close>

datatype ip_addr = V4 u32 | V6 "128 word"

fun ip_key :: "ip_addr \<Rightarrow> nat \<times> nat" where
  "ip_key (V4 a) = (0, unat a)"
| "ip_key (V6 a) = (1, unat a)"

definition v4_octet :: "u32 \<Rightarrow> nat \<Rightarrow> u32" where
  "v4_octet a i = drop_bit (8 * (3 - i)) a AND 255"

definition v4_is_unspecified :: "u32 \<Rightarrow> bool" where "v4_is_unspecified a \<longleftrightarrow> a = 0"
definition v4_is_loopback :: "u32 \<Rightarrow> bool" where "v4_is_loopback a \<longleftrightarrow> v4_octet a 0 = 127"
definition v4_is_link_local :: "u32 \<Rightarrow> bool" where
  "v4_is_link_local a \<longleftrightarrow> v4_octet a 0 = 169 \<and> v4_octet a 1 = 254"
definition v4_is_multicast :: "u32 \<Rightarrow> bool" where
  "v4_is_multicast a \<longleftrightarrow> 224 \<le> v4_octet a 0 \<and> v4_octet a 0 \<le> 239"
definition v4_is_private :: "u32 \<Rightarrow> bool" where
  "v4_is_private a \<longleftrightarrow>
     v4_octet a 0 = 10
     \<or> v4_octet a 0 = 172 \<and> 16 \<le> v4_octet a 1 \<and> v4_octet a 1 \<le> 31
     \<or> v4_octet a 0 = 192 \<and> v4_octet a 1 = 168"

text \<open>\<open>address.segments()[0]\<close>\<close>

definition v6_segment0 :: "128 word \<Rightarrow> u16" where
  "v6_segment0 a = ucast (drop_bit 112 a)"

definition address_denied :: "ip_addr \<Rightarrow> bool \<Rightarrow> bool" where
  "address_denied addr allow_private \<longleftrightarrow>
     (case addr of
        V4 a \<Rightarrow> v4_is_unspecified a \<or> v4_is_loopback a \<or> v4_is_link_local a \<or> v4_is_multicast a
                \<or> (\<not> allow_private \<and> v4_is_private a)
      | V6 a \<Rightarrow> a = 0 \<or> a = 1 \<or> drop_bit 120 a = 255
                \<or> v6_segment0 a AND 0xffc0 = 0xfe80
                \<or> (\<not> allow_private \<and> v6_segment0 a AND 0xfe00 = 0xfc00))"

record resolved_origin =
  o_scheme :: string
  o_host :: string
  o_port :: u16
  o_addresses :: "ip_addr list"

datatype origin_error =
    OriginScheme | OriginCredentials | OriginHost | OriginAddress ip_addr | DnsEmpty | DnsRebind
  | OriginRedirect

text \<open>What the code reads of a parsed URL.\<close>

record url =
  url_scheme :: string
  url_username :: string
  url_password :: "string option"
  url_host :: "string option"
  url_port :: "u16 option"

type_synonym dns = "string \<Rightarrow> u16 \<Rightarrow> ip_addr list option"

definition sort_addresses :: "ip_addr list \<Rightarrow> ip_addr list" where
  "sort_addresses as = remdups_adj (sort_key ip_key as)"

definition resolve :: "dns \<Rightarrow> url \<Rightarrow> bool \<Rightarrow> (origin_error, resolved_origin) res" where
  "resolve lookup_host u allow_private =
     rbind (ensure (url_scheme u \<in> {''http'', ''https''}) OriginScheme) (\<lambda>_.
     rbind (ensure (\<not> (url_username u \<noteq> [] \<or> url_password u \<noteq> None)) OriginCredentials) (\<lambda>_.
     rbind (ok_or (url_host u) OriginHost) (\<lambda>host.
     rbind (ok_or (url_port u) OriginHost) (\<lambda>port.
     rbind (ok_or (lookup_host host port) DnsEmpty) (\<lambda>found.
     let addresses = sort_addresses found in
     rbind (ensure (addresses \<noteq> []) DnsEmpty) (\<lambda>_.
     rbind (try_each (\<lambda>a. if address_denied a allow_private then Inl (OriginAddress a) else Inr ())
              addresses) (\<lambda>_.
       Inr \<lparr>o_scheme = url_scheme u, o_host = host, o_port = port, o_addresses = addresses\<rparr>)))))))"

definition validate_connected_peer ::
  "resolved_origin \<Rightarrow> ip_addr \<Rightarrow> (origin_error, unit) res" where
  "validate_connected_peer orig a = (if a \<in> set (o_addresses orig) then Inr () else Inl DnsRebind)"

definition validate_redirect :: "resolved_origin \<Rightarrow> url \<Rightarrow> (origin_error, unit) res" where
  "validate_redirect orig target =
     (if url_scheme target = o_scheme orig \<and> url_host target = Some (o_host orig)
         \<and> url_port target = Some (o_port orig)
      then Inr () else Inl OriginRedirect)"

section \<open>Address ranges\<close>

lemma unat_drop_bit: "unat (drop_bit n (a :: 'a::len word)) = unat a div 2 ^ n"
  by (rule trans [OF unat_drop_bit_eq drop_bit_eq_div])

lemma unat_octet: "unat (v4_octet a i) = unat a div 2 ^ (8 * (3 - i)) mod 256"
proof -
  have "v4_octet a i = take_bit 8 (drop_bit (8 * (3 - i)) a)"
    by (simp add: v4_octet_def take_bit_eq_mask mask_eq_exp_minus_1 del: drop_bit_eq_div)
  then have "unat (v4_octet a i) = take_bit 8 (unat (drop_bit (8 * (3 - i)) a))"
    by (simp only: unsigned_take_bit_eq)
  then show ?thesis by (simp add: unat_drop_bit take_bit_eq_mod)
qed

text \<open>The number of a dotted address.\<close>

definition ipv4 :: "nat \<Rightarrow> nat \<Rightarrow> nat \<Rightarrow> nat \<Rightarrow> nat" where
  "ipv4 a b c d = ((a * 256 + b) * 256 + c) * 256 + d"

definition denied_ipv4 :: "bool \<Rightarrow> nat set" where
  "denied_ipv4 allow_private =
     {ipv4 0 0 0 0}
     \<union> {ipv4 127 0 0 0 .. ipv4 127 255 255 255}
     \<union> {ipv4 169 254 0 0 .. ipv4 169 254 255 255}
     \<union> {ipv4 224 0 0 0 .. ipv4 239 255 255 255}
     \<union> (if allow_private then {}
        else {ipv4 10 0 0 0 .. ipv4 10 255 255 255}
             \<union> {ipv4 172 16 0 0 .. ipv4 172 31 255 255}
             \<union> {ipv4 192 168 0 0 .. ipv4 192 168 255 255})"

lemma first_octet:
  "lo \<le> n div 16777216 \<and> n div 16777216 \<le> hi \<longleftrightarrow> ipv4 lo 0 0 0 \<le> n \<and> n \<le> ipv4 hi 255 255 255"
proof -
  have "lo \<le> n div 16777216 \<longleftrightarrow> lo * 16777216 \<le> n"
    by (rule less_eq_div_iff_mult_less_eq) simp
  moreover have "n div 16777216 < hi + 1 \<longleftrightarrow> n < (hi + 1) * 16777216"
    by (rule div_less_iff_less_mult) simp
  ultimately show ?thesis unfolding ipv4_def by auto
qed

lemma first_octet_eq:
  "n div 16777216 = b \<longleftrightarrow> ipv4 b 0 0 0 \<le> n \<and> n \<le> ipv4 b 255 255 255"
  using first_octet [of b n b] by auto

lemma two_octets:
  assumes "lo \<le> hi" "hi < 256"
  shows "n div 16777216 = a \<and> lo \<le> n div 65536 mod 256 \<and> n div 65536 mod 256 \<le> hi
     \<longleftrightarrow> ipv4 a lo 0 0 \<le> n \<and> n \<le> ipv4 a hi 255 255"
proof -
  define q m r where "q = n div 16777216" and "m = n div 65536 mod 256" and "r = n mod 65536"
  have "n div 65536 div 256 = q" by (simp add: q_def div_mult2_eq [symmetric])
  then have "q * 256 + m = n div 65536" using div_mult_mod_eq [of "n div 65536" 256] by (simp add: m_def)
  moreover have "n div 65536 * 65536 + r = n" unfolding r_def by (rule div_mult_mod_eq)
  ultimately have n: "n = q * 16777216 + m * 65536 + r" by linarith
  have b: "r < 65536" "m < 256" by (simp_all add: r_def m_def)
  have "q = a \<and> lo \<le> m \<and> m \<le> hi \<longleftrightarrow> ipv4 a lo 0 0 \<le> n \<and> n \<le> ipv4 a hi 255 255"
  proof (cases q a rule: linorder_cases)
    case equal
    then show ?thesis unfolding n ipv4_def using b by auto
  next
    case less
    then show ?thesis unfolding n ipv4_def using b assms by auto
  next
    case greater
    then have "(a + 1) * 16777216 \<le> q * 16777216" by (intro mult_right_mono) auto
    with greater show ?thesis unfolding n ipv4_def using b assms by auto
  qed
  then show ?thesis unfolding q_def m_def .
qed

lemma two_octets_eq:
  assumes "b < 256"
  shows "n div 16777216 = a \<and> n div 65536 mod 256 = b \<longleftrightarrow> ipv4 a b 0 0 \<le> n \<and> n \<le> ipv4 a b 255 255"
  using two_octets [of b b n a] assms by auto

lemma denied_v4: "address_denied (V4 a) p \<longleftrightarrow> unat a \<in> denied_ipv4 p"
proof -
  have "unat a < 4294967296" using unat_bound [of a] by simp
  then have o0: "unat (v4_octet a 0) = unat a div 16777216"
    and o1: "unat (v4_octet a 1) = unat a div 65536 mod 256"
    by (simp_all add: unat_octet)
  have loop: "v4_is_loopback a \<longleftrightarrow> ipv4 127 0 0 0 \<le> unat a \<and> unat a \<le> ipv4 127 255 255 255"
    using first_octet_eq [of "unat a" 127] by (simp add: v4_is_loopback_def word_unat_eq_iff o0)
  have link: "v4_is_link_local a \<longleftrightarrow> ipv4 169 254 0 0 \<le> unat a \<and> unat a \<le> ipv4 169 254 255 255"
    using two_octets_eq [of 254 "unat a" 169]
    by (simp add: v4_is_link_local_def word_unat_eq_iff o0 o1 o1 [unfolded One_nat_def])
  have multi: "v4_is_multicast a \<longleftrightarrow> ipv4 224 0 0 0 \<le> unat a \<and> unat a \<le> ipv4 239 255 255 255"
    using first_octet [of 224 "unat a" 239] by (simp add: v4_is_multicast_def word_le_nat_alt o0)
  have "v4_octet a 0 = 10 \<longleftrightarrow> ipv4 10 0 0 0 \<le> unat a \<and> unat a \<le> ipv4 10 255 255 255"
    using first_octet_eq [of "unat a" 10] by (simp add: word_unat_eq_iff o0)
  moreover have "v4_octet a 0 = 172 \<and> 16 \<le> v4_octet a 1 \<and> v4_octet a 1 \<le> 31
      \<longleftrightarrow> ipv4 172 16 0 0 \<le> unat a \<and> unat a \<le> ipv4 172 31 255 255"
    using two_octets [of 16 31 "unat a" 172] by (simp add: word_unat_eq_iff word_le_nat_alt o0 o1 o1 [unfolded One_nat_def])
  moreover have "v4_octet a 0 = 192 \<and> v4_octet a 1 = 168
      \<longleftrightarrow> ipv4 192 168 0 0 \<le> unat a \<and> unat a \<le> ipv4 192 168 255 255"
    using two_octets_eq [of 168 "unat a" 192] by (simp add: word_unat_eq_iff o0 o1 o1 [unfolded One_nat_def])
  ultimately have priv: "v4_is_private a \<longleftrightarrow>
      unat a \<in> {ipv4 10 0 0 0 .. ipv4 10 255 255 255} \<union> {ipv4 172 16 0 0 .. ipv4 172 31 255 255}
        \<union> {ipv4 192 168 0 0 .. ipv4 192 168 255 255}"
    by (simp add: v4_is_private_def)
  have zero: "v4_is_unspecified a \<longleftrightarrow> unat a = ipv4 0 0 0 0"
    by (simp add: v4_is_unspecified_def word_unat_eq_iff ipv4_def)
  show ?thesis
    unfolding address_denied_def ip_addr.case loop link multi priv zero denied_ipv4_def
    by (cases p) (simp_all only: Un_iff insert_iff empty_iff atLeastAtMost_iff if_True if_False simp_thms
        disj_assoc not_False_eq_True)
qed

section \<open>Keys over time\<close>

text \<open>What the key store relies on of Argon2: a hash verifies the password it was made from.\<close>

definition argon_law :: "crypto \<Rightarrow> bool" where
  "argon_law C \<longleftrightarrow> (\<forall>p h. argon_hash C p = Some h \<longrightarrow> argon_verify C h p)"

fun issues_id :: "string \<Rightarrow> key_op \<Rightarrow> bool" where
  "issues_id i (Issue random j t scopes) = (i = j)"
| "issues_id i (Revoke j) = False"

lemma key_step_lookup:
  "\<not> issues_id i op \<Longrightarrow> fmlookup (key_step C op s) i =
     (if op = Revoke i then map_option (\<lambda>r. r\<lparr>revoked := True\<rparr>) (fmlookup s i) else fmlookup s i)"
  by (cases op) (auto simp: key_issue_def key_revoke_def Let_def split: option.split)

lemma key_run_lookup:
  assumes "\<forall>op \<in> set ops. \<not> issues_id i op"
  shows "fmlookup (key_run C ops s) i =
     (if Revoke i \<in> set ops then map_option (\<lambda>r. r\<lparr>revoked := True\<rparr>) (fmlookup s i) else fmlookup s i)"
  using assms
proof (induction ops arbitrary: s)
  case (Cons op ops)
  have "fmlookup (key_run C (op # ops) s) i = fmlookup (key_run C ops (key_step C op s)) i"
    by (simp add: key_run_def)
  also have "\<dots> = (if Revoke i \<in> set ops
      then map_option (\<lambda>r. r\<lparr>revoked := True\<rparr>) (fmlookup (key_step C op s) i)
      else fmlookup (key_step C op s) i)"
    using Cons by simp
  finally show ?case
    using Cons.prems by (auto simp: key_step_lookup option.map_comp comp_def)
qed (simp add: key_run_def)

lemma key_issue_Inr:
  "fst (key_issue C random i t scopes s) = Inr k \<Longrightarrow>
     argon_hash C (plaintext k) = Some (password_hash (issued_record k))
     \<and> fmlookup (snd (key_issue C random i t scopes s)) i = Some (issued_record k)
     \<and> key_tenant (issued_record k) = t \<and> set (key_scopes (issued_record k)) = set scopes
     \<and> \<not> revoked (issued_record k)"
  by (auto simp: key_issue_def Let_def split: option.splits)

text \<open>
  A key that was issued keeps verifying, after any later operations on other keys, for
  exactly its own tenant and the scopes it was issued with, until it is revoked; once revoked no
  operation but a new issue of the same identifier makes it valid again.
\<close>

theorem api_key_lifetime:
  assumes "argon_law C" "fst (key_issue C random i t scopes s) = Inr k"
    and "\<forall>op \<in> set ops. \<not> issues_id i op"
  shows "(\<exists>r. key_verify C i (plaintext k) te required
              (key_run C ops (snd (key_issue C random i t scopes s))) = Inr r)
     = (Revoke i \<notin> set ops \<and> te = t \<and> required \<in> set scopes)"
proof -
  note f = key_issue_Inr [OF assms(2)]
  then have "argon_verify C (password_hash (issued_record k)) (plaintext k)"
    using assms(1) by (simp add: argon_law_def)
  with f show ?thesis
    by (auto simp: key_verify_def key_run_lookup [OF assms(3)] list_ex_iff)
qed

section \<open>Tokens\<close>

lemma validate_claims_Inr [guard_simps]:
  "validate_claims c b now = Inr u \<longleftrightarrow>
     cl_iss c = oidc_issuer b \<and> audience_contains (cl_aud c) (oidc_audience b)
     \<and> cl_resource c = oidc_resource b
     \<and> unat now \<le> unat (cl_exp c) + unat (clock_skew_seconds b)
     \<and> (\<forall>n. cl_nbf c = Some n \<longrightarrow> unat n \<le> unat now + unat (clock_skew_seconds b))"
proof -
  have bound: "unat x \<le> 2 ^ 64 - 1" for x :: u64 using unat_bound [of x] by simp
  have "saturating_add (cl_exp c) (clock_skew_seconds b) < now
      \<longleftrightarrow> \<not> unat now \<le> unat (cl_exp c) + unat (clock_skew_seconds b)"
    using bound [of now] by (auto simp: word_less_nat_alt unat_saturating_add)
  moreover have "n > saturating_add now (clock_skew_seconds b)
      \<longleftrightarrow> \<not> unat n \<le> unat now + unat (clock_skew_seconds b)" for n
    using bound [of n] by (auto simp: word_less_nat_alt unat_saturating_add)
  ultimately show ?thesis
    by (cases "cl_nbf c") (auto simp: validate_claims_def)
qed

text \<open>
  C15: A token is accepted only under an asymmetric algorithm, with a signature checked by the key
  its header names, for the bound issuer, audience and resource, and at a time within the skew of
  its validity period, computed without overflow.
\<close>

theorem accepted_token_is_bound:
  assumes "verify_oidc_token J token b now = Inr claims"
  shows "\<exists>alg kid jwk. decode_header J token = Some (alg, Some kid) \<and> find_key J kid = Some jwk
     \<and> alg \<notin> {HS256, HS384, HS512} \<and> decode_claims J token jwk alg = Some claims
     \<and> cl_iss claims = oidc_issuer b \<and> audience_contains (cl_aud claims) (oidc_audience b)
     \<and> cl_resource claims = oidc_resource b
     \<and> unat now \<le> unat (cl_exp claims) + unat (clock_skew_seconds b)
     \<and> (\<forall>n. cl_nbf claims = Some n \<longrightarrow> unat n \<le> unat now + unat (clock_skew_seconds b))"
  using assms by (auto simp: verify_oidc_token_def guard_simps)

section \<open>Origins\<close>

lemma set_sort_addresses [simp]: "set (sort_addresses as) = set as"
  by (simp add: sort_addresses_def)

lemma sort_addresses_Nil [simp]: "sort_addresses as = [] \<longleftrightarrow> as = []"
  by (metis set_empty set_sort_addresses)

lemma resolve_Inr:
  "resolve lookup u p = Inr orig \<Longrightarrow>
     (\<exists>found. lookup (o_host orig) (o_port orig) = Some found \<and> set (o_addresses orig) = set found
        \<and> found \<noteq> [])
     \<and> (\<forall>a \<in> set (o_addresses orig). \<not> address_denied a p)
     \<and> url_username u = [] \<and> url_password u = None \<and> o_scheme orig \<in> {''http'', ''https''}"
  by (auto simp: resolve_def guard_simps Let_def split: if_splits)

text \<open>
  A connection is accepted only to an address that the resolution of the origin returned and
  checked, so an IPv4 peer is never unspecified, loopback, link-local or multicast, nor private
  unless that is allowed; no DNS answer given later can widen this.
\<close>

theorem connected_peer_is_allowed:
  assumes "resolve lookup u allow_private = Inr orig" "validate_connected_peer orig (V4 a) = Inr ()"
  shows "unat a \<notin> denied_ipv4 allow_private
     \<and> (\<exists>found. lookup (o_host orig) (o_port orig) = Some found \<and> V4 a \<in> set found)"
  using resolve_Inr [OF assms(1)] assms(2) denied_v4 [of a allow_private]
  by (auto simp: validate_connected_peer_def split: if_splits)

text \<open>The IPv4-mapped form of the loopback address is not recognised as loopback.\<close>

theorem mapped_loopback_not_denied:
  "\<not> address_denied (V6 0xffff7f000001) False"
  by (simp add: address_denied_def v6_segment0_def)

section \<open>Concrete inputs\<close>

definition sample_crypto :: crypto where
  "sample_crypto = \<lparr>argon_hash = Some, argon_verify = (=), base64_url = id\<rparr>"

theorem api_key_lifetime_witness:
  "(\<exists>r. key_verify sample_crypto ''k1'' ''gm_live_k1_r'' ''acme'' ''invoke''
           (key_run sample_crypto [Revoke ''k2'']
             (snd (key_issue sample_crypto ''r'' ''k1'' ''acme'' [''invoke''] fmempty))) = Inr r)"
proof -
  have "argon_law sample_crypto" by (simp add: argon_law_def sample_crypto_def)
  from api_key_lifetime [OF this, of "''r''" "''k1''" "''acme''" "[''invoke'']" fmempty _ "[Revoke ''k2'']"
      "''acme''" "''invoke''"]
  show ?thesis by (simp add: key_issue_def sample_crypto_def Let_def)
qed

definition sample_claims :: oidc_claims where
  "sample_claims = \<lparr>cl_sub = ''alice'', cl_iss = ''idp'', cl_aud = One ''mesh'', cl_exp = 100,
     cl_nbf = None, cl_resource = ''r'', cl_tenant = ''acme'', cl_scope = []\<rparr>"

definition sample_jwt :: "nat jwt_library" where
  "sample_jwt = \<lparr>decode_header = (\<lambda>_. Some (ES256, Some ''k'')), find_key = (\<lambda>_. Some 0),
     decoding_key_ok = (\<lambda>_. True), decode_claims = (\<lambda>_ _ _. Some sample_claims)\<rparr>"

definition sample_binding :: oidc_binding where
  "sample_binding = \<lparr>oidc_issuer = ''idp'', oidc_audience = ''mesh'', oidc_resource = ''r'',
     clock_skew_seconds = 10\<rparr>"

theorem accepted_token_is_bound_witness: "unat (105 :: u64) \<le> unat (cl_exp sample_claims) + 10"
proof -
  have "verify_oidc_token sample_jwt [] sample_binding 105 = Inr sample_claims"
    by (simp add: verify_oidc_token_def sample_jwt_def validate_claims_def sample_claims_def
        sample_binding_def saturating_add_def)
  from accepted_token_is_bound [OF this] show ?thesis by (auto simp: sample_binding_def)
qed

theorem connected_peer_is_allowed_witness: "unat (134744072 :: u32) \<notin> denied_ipv4 False"
proof -
  let ?u = "\<lparr>url_scheme = ''https'', url_username = [], url_password = None,
             url_host = Some ''dns.example'', url_port = Some 443\<rparr>"
  have "resolve (\<lambda>_ _. Some [V4 134744072]) ?u False
      = Inr \<lparr>o_scheme = ''https'', o_host = ''dns.example'', o_port = 443, o_addresses = [V4 134744072]\<rparr>"
    by (simp add: resolve_def sort_addresses_def Let_def denied_v4 denied_ipv4_def ipv4_def)
  from connected_peer_is_allowed [OF this, of 134744072] show ?thesis
    by (simp add: validate_connected_peer_def)
qed

end
