(* ===== verification/Federation.thy ===== *)
theory Federation
  imports Context
begin

text \<open>
  Models \<open>crates/gaugemesh-core/src/federation.rs\<close>: the registry of federated tools,
  resources, prompts and templates, template resolution with percent decoding, the tool search
  and the sealed cursors. HMAC, base64 and the JSON parser are arguments (\<open>cursor_crypto\<close>), as
  are the Unicode tables of the search (\<open>text_tables\<close>). The conversions to the types of the
  \<open>rmcp\<close> crate are not modelled.
\<close>

record federated_tool =
  ft_identity :: capability_id
  ft_native_name :: string
  ft_alias :: string
  ft_description :: string
  ft_input_schema :: json
  ft_side_effect :: side_effect_class
  ft_fixture_result :: json

record federated_resource =
  fr_identity :: capability_id
  fr_virtual_uri :: string
  fr_native_uri :: string
  fr_name :: string
  fr_mime_type :: string
  fr_contents :: string

record federated_prompt =
  fp_identity :: capability_id
  fp_native_name :: string
  fp_alias :: string
  fp_description :: string
  fp_arguments :: "string list"
  fp_template :: string

record federated_template =
  tm_identity :: capability_id
  tm_virtual_uri_template :: string
  tm_virtual_prefix :: string
  tm_native_uri_template :: string
  tm_name :: string
  tm_description :: string
  tm_mime_type :: "string option"
  tm_variables :: "string list"

record federation =
  fed_tools :: "(string, federated_tool) fmap"
  fed_resources :: "(string, federated_resource) fmap"
  fed_prompts :: "(string, federated_prompt) fmap"
  fed_templates :: "(string, federated_template) fmap"

definition federation_default :: federation where
  "federation_default =
     \<lparr>fed_tools = fmempty, fed_resources = fmempty, fed_prompts = fmempty, fed_templates = fmempty\<rparr>"

datatype federation_error = FederationNotFound | AliasCollision | CursorInvalid | CursorTooLarge

fun federation_error_text :: "federation_error \<Rightarrow> string" where
  "federation_error_text FederationNotFound = ''GM_CAPABILITY_NOT_FOUND''"
| "federation_error_text AliasCollision = ''GM_CAPABILITY_ALIAS_COLLISION''"
| "federation_error_text CursorInvalid = ''GM_CURSOR_INVALID''"
| "federation_error_text CursorTooLarge = ''GM_CURSOR_TOO_LARGE''"

section \<open>Registering\<close>

definition overlaps :: "('k, 'a) fmap \<Rightarrow> ('k, 'b) fmap \<Rightarrow> bool" where
  "overlaps a b \<longleftrightarrow> fBex (fmdom b) (\<lambda>k. k |\<in>| fmdom a)"

definition fed_merge :: "federation \<Rightarrow> federation \<Rightarrow> (federation_error, federation) res" where
  "fed_merge self other =
     (if overlaps (fed_tools self) (fed_tools other) \<or> overlaps (fed_resources self) (fed_resources other)
         \<or> overlaps (fed_prompts self) (fed_prompts other)
         \<or> overlaps (fed_templates self) (fed_templates other)
      then Inl AliasCollision
      else Inr \<lparr>fed_tools = fed_tools self ++\<^sub>f fed_tools other,
                fed_resources = fed_resources self ++\<^sub>f fed_resources other,
                fed_prompts = fed_prompts self ++\<^sub>f fed_prompts other,
                fed_templates = fed_templates self ++\<^sub>f fed_templates other\<rparr>)"

definition insert_tool :: "federated_tool \<Rightarrow> federation \<Rightarrow> (federation_error, federation) res" where
  "insert_tool t f =
     (if ft_alias t |\<in>| fmdom (fed_tools f) then Inl AliasCollision
      else Inr (f\<lparr>fed_tools := fmupd (ft_alias t) t (fed_tools f)\<rparr>))"

definition insert_resource :: "federated_resource \<Rightarrow> federation \<Rightarrow> (federation_error, federation) res" where
  "insert_resource r f =
     (if fr_virtual_uri r |\<in>| fmdom (fed_resources f) then Inl AliasCollision
      else Inr (f\<lparr>fed_resources := fmupd (fr_virtual_uri r) r (fed_resources f)\<rparr>))"

definition insert_prompt :: "federated_prompt \<Rightarrow> federation \<Rightarrow> (federation_error, federation) res" where
  "insert_prompt p f =
     (if fp_alias p |\<in>| fmdom (fed_prompts f) then Inl AliasCollision
      else Inr (f\<lparr>fed_prompts := fmupd (fp_alias p) p (fed_prompts f)\<rparr>))"

definition insert_template :: "federated_template \<Rightarrow> federation \<Rightarrow> (federation_error, federation) res" where
  "insert_template t f =
     (if tm_virtual_uri_template t |\<in>| fmdom (fed_templates f) then Inl AliasCollision
      else Inr (f\<lparr>fed_templates := fmupd (tm_virtual_uri_template t) t (fed_templates f)\<rparr>))"

definition fed_tool :: "string \<Rightarrow> federation \<Rightarrow> (federation_error, federated_tool) res" where
  "fed_tool a f = ok_or (fmlookup (fed_tools f) a) FederationNotFound"

definition fed_resource :: "string \<Rightarrow> federation \<Rightarrow> (federation_error, federated_resource) res" where
  "fed_resource uri f = ok_or (fmlookup (fed_resources f) uri) FederationNotFound"

definition fed_prompt :: "string \<Rightarrow> federation \<Rightarrow> (federation_error, federated_prompt) res" where
  "fed_prompt a f = ok_or (fmlookup (fed_prompts f) a) FederationNotFound"

section \<open>Template resolution\<close>

definition hex_value :: "char \<Rightarrow> nat option" where
  "hex_value c =
     (let v = of_char c in
      if 48 \<le> v \<and> v \<le> 57 then Some (v - 48)
      else if 97 \<le> v \<and> v \<le> 102 then Some (v - 97 + 10)
      else if 65 \<le> v \<and> v \<le> 70 then Some (v - 65 + 10)
      else None)"

text \<open>The validity test of \<open>String::from_utf8\<close>.\<close>

definition utf8_tail :: "char \<Rightarrow> bool" where
  "utf8_tail c \<longleftrightarrow> (of_char c :: nat) div 64 = 2"

text \<open>\<open>is_char_boundary\<close>, and the loop that goes back to one.\<close>

definition char_boundary :: "string \<Rightarrow> nat \<Rightarrow> bool" where
  "char_boundary s n \<longleftrightarrow> n = 0 \<or> n = length s \<or> n < length s \<and> \<not> utf8_tail (s ! n)"

fun boundary_below :: "string \<Rightarrow> nat \<Rightarrow> nat" where
  "boundary_below s n = (if char_boundary s n then n else case n of 0 \<Rightarrow> 0 | Suc m \<Rightarrow> boundary_below s m)"

declare boundary_below.simps [simp del]

lemma boundary_below_le: "boundary_below s i \<le> i"
  by (induction s i rule: boundary_below.induct) (subst boundary_below.simps, auto split: nat.split intro: le_SucI)

lemma boundary_below_boundary: "char_boundary s (boundary_below s i)"
  by (induction s i rule: boundary_below.induct)
     (subst boundary_below.simps, auto simp: char_boundary_def split: nat.split)

fun utf8_valid :: "bytes \<Rightarrow> bool" where
  "utf8_valid [] = True"
| "utf8_valid (c # cs) =
     (let b = (of_char c :: nat) in
      if b < 128 then utf8_valid cs
      else if 194 \<le> b \<and> b \<le> 223 then
        (case cs of c1 # r \<Rightarrow> utf8_tail c1 \<and> utf8_valid r | _ \<Rightarrow> False)
      else if 224 \<le> b \<and> b \<le> 239 then
        (case cs of c1 # c2 # r \<Rightarrow>
           utf8_tail c1 \<and> utf8_tail c2 \<and> (b = 224 \<longrightarrow> 160 \<le> (of_char c1 :: nat))
           \<and> (b = 237 \<longrightarrow> (of_char c1 :: nat) < 160) \<and> utf8_valid r
         | _ \<Rightarrow> False)
      else if 240 \<le> b \<and> b \<le> 244 then
        (case cs of c1 # c2 # c3 # r \<Rightarrow>
           utf8_tail c1 \<and> utf8_tail c2 \<and> utf8_tail c3 \<and> (b = 240 \<longrightarrow> 144 \<le> (of_char c1 :: nat))
           \<and> (b = 244 \<longrightarrow> (of_char c1 :: nat) < 144) \<and> utf8_valid r
         | _ \<Rightarrow> False)
      else False)"

text \<open>The loop of \<open>percent_decode\<close> over the bytes.\<close>

fun percent_bytes :: "bytes \<Rightarrow> bytes option" where
  "percent_bytes [] = Some []"
| "percent_bytes (c # cs) =
     (if c = CHR ''%'' then
        (case cs of
           h # l # rest \<Rightarrow>
             Option.bind (hex_value h) (\<lambda>hi. Option.bind (hex_value l) (\<lambda>lo.
               map_option (\<lambda>out. char_of (hi * 16 + lo) # out) (percent_bytes rest)))
         | _ \<Rightarrow> None)
      else map_option (\<lambda>out. c # out) (percent_bytes cs))"

definition percent_decode :: "string \<Rightarrow> string option" where
  "percent_decode v =
     (case percent_bytes v of Some bs \<Rightarrow> if utf8_valid bs then Some bs else None | None \<Rightarrow> None)"

text \<open>\<open>str::replace\<close>: every occurrence of a non-empty pattern, left to right.\<close>

function str_replace :: "string \<Rightarrow> string \<Rightarrow> string \<Rightarrow> string" where
  "str_replace pat to s =
     (case s of
        [] \<Rightarrow> []
      | c # cs \<Rightarrow>
          if pat \<noteq> [] \<and> take (length pat) s = pat
          then to @ str_replace pat to (drop (length pat) s)
          else c # str_replace pat to cs)"
  by pat_completeness auto
termination
  by (relation "measure (\<lambda>(pat, to, s). length s)") auto

declare str_replace.simps [simp del]

text \<open>The inner loop: substitute the decoded values one after the other.\<close>

fun substitute :: "string \<Rightarrow> (string \<times> string) list \<Rightarrow> string option" where
  "substitute native [] = Some native"
| "substitute native ((variable, encoded) # rest) =
     (case percent_decode encoded of
        None \<Rightarrow> None
      | Some value \<Rightarrow> substitute (str_replace (''{'' @ variable @ ''}'') value native) rest)"

definition resolve_one :: "string \<Rightarrow> federated_template \<Rightarrow> (federated_template \<times> string) option" where
  "resolve_one virtual_uri t =
     (case strip_prefix (tm_virtual_prefix t) virtual_uri of
        None \<Rightarrow> None
      | Some suffix \<Rightarrow>
          let encoded = split_on (CHR ''/'') suffix in
          if length encoded \<noteq> length (tm_variables t) then None
          else map_option (\<lambda>native. (t, native))
                 (substitute (tm_native_uri_template t) (zip (tm_variables t) encoded)))"

fun find_map :: "('a \<Rightarrow> 'b option) \<Rightarrow> 'a list \<Rightarrow> 'b option" where
  "find_map f [] = None"
| "find_map f (x # xs) = (case f x of Some y \<Rightarrow> Some y | None \<Rightarrow> find_map f xs)"

definition btree_values :: "('k::linorder, 'v) fmap \<Rightarrow> 'v list" where
  "btree_values m = map (\<lambda>k. the (fmlookup m k)) (sorted_list_of_fset (fmdom m))"

definition resolve_template :: "string \<Rightarrow> federation \<Rightarrow> (federated_template \<times> string) option" where
  "resolve_template virtual_uri f = find_map (resolve_one virtual_uri) (btree_values (fed_templates f))"

section \<open>Search\<close>

text \<open>
  The Unicode tables of the standard library: \<open>split_words\<close> cuts at every character that is not
  alphanumeric, \<open>to_lowercase\<close> lowers a word.
\<close>

record text_tables =
  split_words :: "string \<Rightarrow> string list"
  to_lowercase :: "string \<Rightarrow> string"

definition tokens :: "text_tables \<Rightarrow> string \<Rightarrow> string list" where
  "tokens T v = map (to_lowercase T) (filter (\<lambda>token. token \<noteq> []) (split_words T v))"

definition search_score :: "text_tables \<Rightarrow> string \<Rightarrow> federated_tool \<Rightarrow> u32" where
  "search_score T query t =
     (let haystack = tokens T (ft_alias t @ '' '' @ ft_native_name t @ '' '' @ ft_description t
                               @ '' '' @ cap_source (ft_identity t));
          exact = (if eq_ignore_ascii_case (ft_alias t) query then 10000 else 0);
          hits = word_of_nat (length (filter (\<lambda>tok. tok \<in> set haystack) (tokens T query)))
      in exact + hits * 100)"

definition search :: "text_tables \<Rightarrow> string \<Rightarrow> nat \<Rightarrow> federation \<Rightarrow> federated_tool list" where
  "search T query limit f =
     (let ranked = filter (\<lambda>t. search_score T query t > 0) (btree_values (fed_tools f));
          sorted_tools = sort_key (\<lambda>t. (- int (unat (search_score T query t)), ft_alias t)) ranked
      in take (min limit 32) sorted_tools)"

section \<open>Cursors\<close>

record composite_cursor =
  source_positions :: "(string, string) fmap"
  cursor_snapshot :: sha256_digest

record cursor_crypto =
  hmac_tag :: "bytes \<Rightarrow> bytes \<Rightarrow> bytes option"
  b64_encode :: "bytes \<Rightarrow> string"
  b64_decode :: "string \<Rightarrow> bytes option"
  parse_cursor :: "bytes \<Rightarrow> composite_cursor option"

definition cursor_json :: "platform \<Rightarrow> composite_cursor \<Rightarrow> json" where
  "cursor_json P c =
     JObj [(''source_positions'',
             JObj (map (\<lambda>k. (k, JStr (the (fmlookup (source_positions c) k))))
                     (sorted_list_of_fset (fmdom (source_positions c))))),
           (''snapshot_digest'', digest_json P (cursor_snapshot c))]"

definition cursor_body :: "platform \<Rightarrow> composite_cursor \<Rightarrow> bytes" where
  "cursor_body P c = json_to_vec P (cursor_json P c)"

definition seal_cursor ::
  "platform \<Rightarrow> cursor_crypto \<Rightarrow> composite_cursor \<Rightarrow> bytes \<Rightarrow> (federation_error, string) res" where
  "seal_cursor P C c key =
     (let body = cursor_body P c in
      if length body > 3072 then Inl CursorTooLarge
      else rbind (ok_or (hmac_tag C key body) CursorInvalid) (\<lambda>tag.
             Inr (b64_encode C body @ ''.'' @ b64_encode C tag)))"

definition open_cursor ::
  "cursor_crypto \<Rightarrow> string \<Rightarrow> bytes \<Rightarrow> (federation_error, composite_cursor) res" where
  "open_cursor C value key =
     (if length value > 4096 then Inl CursorTooLarge
      else
        rbind (ok_or (split_once (CHR ''.'') value) CursorInvalid) (\<lambda>(body, tag).
        rbind (ok_or (b64_decode C body) CursorInvalid) (\<lambda>body.
        rbind (ok_or (b64_decode C tag) CursorInvalid) (\<lambda>tag.
        rbind (ok_or (hmac_tag C key body) CursorInvalid) (\<lambda>expected.
        rbind (ensure (expected = tag) CursorInvalid) (\<lambda>_.
          ok_or (parse_cursor C body) CursorInvalid))))))"

section \<open>Registration keeps every name\<close>

text \<open>Every entry is registered under its own name.\<close>

definition federation_ok :: "federation \<Rightarrow> bool" where
  "federation_ok f \<longleftrightarrow>
     (\<forall>k t. fmlookup (fed_tools f) k = Some t \<longrightarrow> ft_alias t = k)
     \<and> (\<forall>k r. fmlookup (fed_resources f) k = Some r \<longrightarrow> fr_virtual_uri r = k)
     \<and> (\<forall>k p. fmlookup (fed_prompts f) k = Some p \<longrightarrow> fp_alias p = k)
     \<and> (\<forall>k t. fmlookup (fed_templates f) k = Some t \<longrightarrow> tm_virtual_uri_template t = k)"

text \<open>Everything registered in the first federation is registered, unchanged, in the second.\<close>

definition entries_kept :: "('k, 'v) fmap \<Rightarrow> ('k, 'v) fmap \<Rightarrow> bool" where
  "entries_kept a b \<longleftrightarrow> (\<forall>k v. fmlookup a k = Some v \<longrightarrow> fmlookup b k = Some v)"

definition federation_extends :: "federation \<Rightarrow> federation \<Rightarrow> bool" where
  "federation_extends f g \<longleftrightarrow>
     entries_kept (fed_tools f) (fed_tools g) \<and> entries_kept (fed_resources f) (fed_resources g)
     \<and> entries_kept (fed_prompts f) (fed_prompts g) \<and> entries_kept (fed_templates f) (fed_templates g)"

datatype registration =
  RegTool federated_tool | RegResource federated_resource | RegPrompt federated_prompt
| RegTemplate federated_template | RegMerge federation

fun fed_register :: "registration \<Rightarrow> federation \<Rightarrow> (federation_error, federation) res" where
  "fed_register (RegTool t) f = insert_tool t f"
| "fed_register (RegResource r) f = insert_resource r f"
| "fed_register (RegPrompt p) f = insert_prompt p f"
| "fed_register (RegTemplate t) f = insert_template t f"
| "fed_register (RegMerge g) f = fed_merge f g"

inductive fed_built :: "federation \<Rightarrow> bool" where
  built_default: "fed_built federation_default"
| built_insert: "\<lbrakk>fed_built f; fed_register r f = Inr g; \<forall>h. r = RegMerge h \<longrightarrow> fed_built h\<rbrakk> \<Longrightarrow> fed_built g"

lemma entries_kept_refl [simp]: "entries_kept a a"
  by (simp add: entries_kept_def)

lemma entries_kept_upd [simp]: "k |\<notin>| fmdom m \<Longrightarrow> entries_kept m (fmupd k v m)"
  by (auto simp: entries_kept_def fmdom_lookup)

lemma overlaps_not:
  "\<not> overlaps a b \<longleftrightarrow> fmdom a |\<inter>| fmdom b = {||}"
  by (auto simp: overlaps_def)

lemma entries_kept_add [simp]:
  assumes "\<not> overlaps a b"
  shows "entries_kept a (a ++\<^sub>f b)" "entries_kept b (a ++\<^sub>f b)"
  using assms by (auto simp: entries_kept_def overlaps_def fmdom_lookup)

text \<open>The entry a registration adds, and whether its names are free.\<close>

fun registered :: "registration \<Rightarrow> federation \<Rightarrow> bool" where
  "registered (RegTool t) g \<longleftrightarrow> fed_tool (ft_alias t) g = Inr t"
| "registered (RegResource r) g \<longleftrightarrow> fed_resource (fr_virtual_uri r) g = Inr r"
| "registered (RegPrompt p) g \<longleftrightarrow> fed_prompt (fp_alias p) g = Inr p"
| "registered (RegTemplate t) g \<longleftrightarrow> fmlookup (fed_templates g) (tm_virtual_uri_template t) = Some t"
| "registered (RegMerge h) g \<longleftrightarrow> federation_extends h g"

fun name_free :: "registration \<Rightarrow> federation \<Rightarrow> bool" where
  "name_free (RegTool t) f \<longleftrightarrow> fed_tool (ft_alias t) f = Inl FederationNotFound"
| "name_free (RegResource r) f \<longleftrightarrow> fed_resource (fr_virtual_uri r) f = Inl FederationNotFound"
| "name_free (RegPrompt p) f \<longleftrightarrow> fed_prompt (fp_alias p) f = Inl FederationNotFound"
| "name_free (RegTemplate t) f \<longleftrightarrow> fmlookup (fed_templates f) (tm_virtual_uri_template t) = None"
| "name_free (RegMerge h) f \<longleftrightarrow>
     fmdom (fed_tools f) |\<inter>| fmdom (fed_tools h) = {||}
     \<and> fmdom (fed_resources f) |\<inter>| fmdom (fed_resources h) = {||}
     \<and> fmdom (fed_prompts f) |\<inter>| fmdom (fed_prompts h) = {||}
     \<and> fmdom (fed_templates f) |\<inter>| fmdom (fed_templates h) = {||}"

lemmas register_defs = insert_tool_def insert_resource_def insert_prompt_def insert_template_def
  fed_merge_def fed_tool_def fed_resource_def fed_prompt_def

lemma register_registered: "fed_register r f = Inr g \<Longrightarrow> registered r g"
  by (cases r) (auto simp: register_defs federation_extends_def split: if_splits)

lemma register_free: "(\<exists>g. fed_register r f = Inr g) \<longleftrightarrow> name_free r f"
  by (cases r)
     (auto simp: register_defs overlaps_not [symmetric] fmdom_lookup ok_or_def split: option.splits)

lemma register_error: "fed_register r f = Inl e \<Longrightarrow> e = AliasCollision"
  by (cases r) (auto simp: register_defs split: if_splits)

lemma register_extends: "fed_register r f = Inr g \<Longrightarrow> federation_extends f g"
  by (cases r)
     (auto simp: federation_extends_def insert_tool_def insert_resource_def insert_prompt_def
       insert_template_def fed_merge_def split: if_splits)

lemma register_ok:
  assumes "fed_register r f = Inr g" "federation_ok f" "\<forall>h. r = RegMerge h \<longrightarrow> federation_ok h"
  shows "federation_ok g"
  using assms
  by (cases r)
     (auto simp: federation_ok_def insert_tool_def insert_resource_def insert_prompt_def
       insert_template_def fed_merge_def split: if_splits)

lemma fed_built_ok: "fed_built f \<Longrightarrow> federation_ok f"
proof (induction rule: fed_built.induct)
  case (built_insert f r g)
  then show ?case using register_ok by blast
qed (simp add: federation_ok_def federation_default_def)

text \<open>
  Registration never renames, replaces or drops an entry: in a federation built from the empty
  one every entry stands under its own alias or URI, a successful registration keeps every earlier
  entry, and it fails, with \<open>AliasCollision\<close>, exactly when a name is taken.
\<close>

theorem registration_keeps_entries:
  assumes "fed_built f"
  shows "federation_ok f
    \<and> (\<forall>g. fed_register r f = Inr g \<longrightarrow> federation_extends f g \<and> registered r g)
    \<and> ((\<exists>g. fed_register r f = Inr g) \<longleftrightarrow> name_free r f)
    \<and> (\<forall>e. fed_register r f = Inl e \<longrightarrow> e = AliasCollision)"
  using fed_built_ok [OF assms] register_extends register_registered register_free register_error
  by meson

section \<open>Template resolution, specified\<close>

text \<open>Percent encoding as a relation: a byte stands for itself or is escaped by two hex digits.\<close>

inductive percent_encodes :: "bytes \<Rightarrow> bytes \<Rightarrow> bool" where
  enc_nil: "percent_encodes [] []"
| enc_plain: "\<lbrakk>c \<noteq> CHR ''%''; percent_encodes e d\<rbrakk> \<Longrightarrow> percent_encodes (c # e) (c # d)"
| enc_escape: "\<lbrakk>hex_value h = Some hi; hex_value l = Some lo; percent_encodes e d\<rbrakk>
     \<Longrightarrow> percent_encodes (CHR ''%'' # h # l # e) (char_of (hi * 16 + lo) # d)"

inductive_cases percent_encodes_NilE: "percent_encodes [] d"
inductive_cases percent_encodes_ConsE: "percent_encodes (c # e) d"

lemma percent_bytes_Some: "percent_bytes e = Some d \<longleftrightarrow> percent_encodes e d"
proof
  show "percent_bytes e = Some d \<Longrightarrow> percent_encodes e d"
    by (induction e arbitrary: d rule: percent_bytes.induct)
       (auto intro: percent_encodes.intros split: if_splits list.splits bind_splits)
  show "percent_encodes e d \<Longrightarrow> percent_bytes e = Some d"
    by (induction rule: percent_encodes.induct) auto
qed

lemma percent_decode_Some: "percent_decode e = Some d \<longleftrightarrow> percent_encodes e d \<and> utf8_valid d"
  by (auto simp: percent_decode_def percent_bytes_Some [symmetric] split: option.splits)

lemma split_on_nonempty [simp]: "split_on d s \<noteq> []"
  by (induction s) (auto split: list.splits)

fun join_with :: "char \<Rightarrow> string list \<Rightarrow> string" where
  "join_with d [] = []"
| "join_with d [s] = s"
| "join_with d (s # t # ss) = s @ d # join_with d (t # ss)"

lemma join_with_Cons: "join_with d ((c # s) # ss) = c # join_with d (s # ss)"
  by (cases ss) simp_all

lemma split_on_join: "join_with d (split_on d s) = s"
proof (induction s)
  case (Cons c s)
  then show ?case
    by (cases "split_on d s") (auto simp: join_with_Cons)
qed simp

lemma split_on_free: "x \<in> set (split_on d s) \<Longrightarrow> d \<notin> set x"
  by (induction s arbitrary: x) (auto split: list.splits if_splits)

definition put_value :: "string \<Rightarrow> string \<times> string \<Rightarrow> string" where
  "put_value native = (\<lambda>(variable, decoded). str_replace (''{'' @ variable @ ''}'') decoded native)"

lemma substitute_Cons:
  "substitute native ((v, e) # rest) = Some out \<longleftrightarrow>
     (\<exists>d. percent_decode e = Some d \<and> substitute (put_value native (v, d)) rest = Some out)"
  by (simp add: put_value_def split: option.splits)

lemma substitute_Some:
  "length vars = length encoded \<Longrightarrow>
   substitute native (zip vars encoded) = Some out \<longleftrightarrow>
     (\<exists>decoded. list_all2 (\<lambda>e d. percent_decode e = Some d) encoded decoded
        \<and> out = foldl put_value native (zip vars decoded))"
proof (induction vars encoded arbitrary: native rule: list_induct2)
  case (Cons v vars e encoded)
  show ?case
    unfolding zip_Cons_Cons substitute_Cons Cons.IH list_all2_Cons1
    by (auto intro: exI [of _ "_ # _"])
qed auto

lemma split_on_single: "d \<notin> set s \<Longrightarrow> split_on d s = [s]"
  by (induction s) auto

lemma split_on_append: "d \<notin> set s \<Longrightarrow> split_on d (s @ d # r) = s # split_on d r"
  by (induction s) auto

lemma split_on_join_with:
  "\<lbrakk>ss \<noteq> []; \<forall>s \<in> set ss. d \<notin> set s\<rbrakk> \<Longrightarrow> split_on d (join_with d ss) = ss"
  by (induction d ss rule: join_with.induct) (simp_all add: split_on_single split_on_append)

text \<open>
  What a template resolution means: the URI is the template's prefix and as many non-empty-list,
  slash-free segments as the template has variables, every segment percent-encodes a valid string,
  and those strings are put in for the variables, one after the other.
\<close>

definition resolves :: "string \<Rightarrow> federated_template \<Rightarrow> string \<Rightarrow> bool" where
  "resolves uri t native \<longleftrightarrow>
     (\<exists>encoded decoded.
        uri = tm_virtual_prefix t @ join_with (CHR ''/'') encoded \<and> encoded \<noteq> []
        \<and> (\<forall>e \<in> set encoded. CHR ''/'' \<notin> set e) \<and> length encoded = length (tm_variables t)
        \<and> list_all2 (\<lambda>e d. percent_encodes e d \<and> utf8_valid d) encoded decoded
        \<and> native = foldl put_value (tm_native_uri_template t) (zip (tm_variables t) decoded))"

lemma resolve_one_Some: "resolve_one uri t = Some (t', native) \<longleftrightarrow> t' = t \<and> resolves uri t native"
proof
  assume one: "resolve_one uri t = Some (t', native)"
  then obtain suffix where suffix: "strip_prefix (tm_virtual_prefix t) uri = Some suffix"
    by (auto simp: resolve_one_def split: option.splits)
  define encoded where "encoded = split_on (CHR ''/'') suffix"
  have len: "length encoded = length (tm_variables t)"
    and sub: "substitute (tm_native_uri_template t) (zip (tm_variables t) encoded) = Some native"
    and "t' = t"
    using one suffix by (auto simp: resolve_one_def encoded_def Let_def split: if_splits)
  moreover have "uri = tm_virtual_prefix t @ join_with (CHR ''/'') encoded"
    using strip_prefix_SomeD [OF suffix] by (simp add: encoded_def split_on_join)
  moreover have "encoded \<noteq> []" "\<forall>e \<in> set encoded. CHR ''/'' \<notin> set e"
    by (auto simp: encoded_def dest: split_on_free)
  ultimately show "t' = t \<and> resolves uri t native"
    using substitute_Some [OF len [symmetric]]
    by (auto simp: resolves_def percent_decode_Some [symmetric])
next
  assume r: "t' = t \<and> resolves uri t native"
  then obtain encoded decoded where e:
    "uri = tm_virtual_prefix t @ join_with (CHR ''/'') encoded" "encoded \<noteq> []"
    "\<forall>e \<in> set encoded. CHR ''/'' \<notin> set e" "length encoded = length (tm_variables t)"
    "list_all2 (\<lambda>e d. percent_decode e = Some d) encoded decoded"
    "native = foldl put_value (tm_native_uri_template t) (zip (tm_variables t) decoded)"
    by (auto simp: resolves_def percent_decode_Some)
  then show "resolve_one uri t = Some (t', native)"
    using r substitute_Some [of "tm_variables t" encoded "tm_native_uri_template t" native]
    by (auto simp: resolve_one_def split_on_join_with)
qed

lemma find_map_sorted:
  "sorted_wrt (<) (ks :: 'k::linorder list) \<Longrightarrow> find_map g ks = Some y \<longleftrightarrow>
     (\<exists>k \<in> set ks. g k = Some y \<and> (\<forall>k' \<in> set ks. k' < k \<longrightarrow> g k' = None))"
  by (induction ks) (auto split: option.splits)

lemma find_map_map: "find_map f (map h xs) = find_map (\<lambda>x. f (h x)) xs"
  by (induction xs) (auto split: option.split)

text \<open>
  A virtual URI is resolved to a template and a native URI exactly when the template is the
  first registered one that the URI fits: prefix, number of segments, and percent encoding.
\<close>

theorem resolve_template_exact:
  "resolve_template uri f = Some (t, native) \<longleftrightarrow>
     (\<exists>k. fmlookup (fed_templates f) k = Some t \<and> resolves uri t native
        \<and> (\<forall>k' t'. k' < k \<and> fmlookup (fed_templates f) k' = Some t' \<longrightarrow> (\<forall>n. \<not> resolves uri t' n)))"
proof -
  have none: "resolve_one uri t' = None \<longleftrightarrow> (\<forall>n. \<not> resolves uri t' n)" for t'
    by (metis not_None_eq old.prod.exhaust resolve_one_Some)
  let ?m = "fed_templates f"
  have keys: "set (sorted_list_of_fset (fmdom ?m)) = fset (fmdom ?m)"
    and "sorted_wrt (<) (sorted_list_of_fset (fmdom ?m))"
    by (simp_all add: sorted_list_of_fset.rep_eq)
  note found = find_map_sorted [OF this(2), of "\<lambda>k. resolve_one uri (the (fmlookup ?m k))" "(t, native)"]
  have one: "k |\<in>| fmdom ?m \<and> resolve_one uri (the (fmlookup ?m k)) = Some (t, native)
      \<longleftrightarrow> fmlookup ?m k = Some t \<and> resolves uri t native" for k
    by (auto simp: fmdom_lookup resolve_one_Some)
  have later: "(\<forall>k' \<in> fset (fmdom ?m). k' < k \<longrightarrow> resolve_one uri (the (fmlookup ?m k')) = None)
      \<longleftrightarrow> (\<forall>k' t'. k' < k \<and> fmlookup ?m k' = Some t' \<longrightarrow> (\<forall>n. \<not> resolves uri t' n))" for k
    unfolding none by (auto simp: fmdom_lookup fmdomI)
  show ?thesis
    unfolding resolve_template_def btree_values_def find_map_map found keys later
    using one by blast
qed

section \<open>Search results\<close>

definition search_key :: "text_tables \<Rightarrow> string \<Rightarrow> federated_tool \<Rightarrow> int \<times> string" where
  "search_key T query t = (- int (unat (search_score T query t)), ft_alias t)"

definition tool_registered :: "federation \<Rightarrow> federated_tool \<Rightarrow> bool" where
  "tool_registered f t \<longleftrightarrow> (\<exists>k. fmlookup (fed_tools f) k = Some t)"

lemma btree_values_set: "x \<in> set (btree_values m) \<longleftrightarrow> (\<exists>k. fmlookup m k = Some x)"
  by (auto simp: btree_values_def fmdom_lookup image_iff sorted_list_of_fset.rep_eq
      intro!: rev_bexI [OF fmdomI])

lemma search_alt:
  "search T query limit f =
     take (min limit 32) (sort_key (search_key T query)
       (filter (\<lambda>t. search_score T query t > 0) (btree_values (fed_tools f))))"
  by (simp add: search_def search_key_def [abs_def] Let_def)

text \<open>
  A search returns registered tools with a positive score, best score first and ties by alias,
  at most 32 of them and at most the limit, and a matching tool it leaves out ranks no higher than
  any it returns and is left out only because the result is full.
\<close>

theorem search_ranks_best:
  "length (search T query limit f) \<le> min limit 32
   \<and> sorted (map (search_key T query) (search T query limit f))
   \<and> (\<forall>t \<in> set (search T query limit f). tool_registered f t \<and> search_score T query t > 0)
   \<and> (\<forall>t. tool_registered f t \<and> search_score T query t > 0 \<and> t \<notin> set (search T query limit f)
        \<longrightarrow> length (search T query limit f) = min limit 32
          \<and> (\<forall>r \<in> set (search T query limit f). search_key T query r \<le> search_key T query t))"
proof -
  define ranked where "ranked = sort_key (search_key T query)
       (filter (\<lambda>t. search_score T query t > 0) (btree_values (fed_tools f)))"
  define n where "n = min limit 32"
  have result: "search T query limit f = take n ranked"
    by (simp add: search_alt ranked_def n_def)
  have all: "t \<in> set ranked \<longleftrightarrow> tool_registered f t \<and> search_score T query t > 0" for t
    by (auto simp: ranked_def btree_values_set tool_registered_def)
  have sorted: "sorted (map (search_key T query) ranked)"
    by (simp add: ranked_def)
  have rest: "t \<in> set (drop n ranked)" if "t \<in> set ranked" "t \<notin> set (take n ranked)" for t
    using that by (metis Un_iff append_take_drop_id set_append)
  have rank: "search_key T query r \<le> search_key T query t"
    if "r \<in> set (take n ranked)" "t \<in> set (drop n ranked)" for r t
    using sorted that
    by (subst (asm) append_take_drop_id [of n ranked, symmetric])
       (simp only: map_append sorted_append, simp)
  have full: "length (take n ranked) = n" if "t \<in> set (drop n ranked)" for t
    using that by (cases "length ranked \<le> n") auto
  show ?thesis
    unfolding result n_def [symmetric]
    using sorted rest rank full all
    by (auto simp: sorted_wrt_take take_map [symmetric] dest: in_set_takeD)
qed

section \<open>Sealed cursors\<close>

text \<open>
  What the cursor code relies on: base64 without padding has its documented length, no dot, and
  decodes what it encoded; a tag has 32 bytes; the JSON parser reads back the cursor's own form.
\<close>

definition cursor_laws :: "platform \<Rightarrow> cursor_crypto \<Rightarrow> composite_cursor \<Rightarrow> bool" where
  "cursor_laws P C c \<longleftrightarrow>
     (\<forall>b. b64_decode C (b64_encode C b) = Some b \<and> CHR ''.'' \<notin> set (b64_encode C b)
          \<and> length (b64_encode C b) = (4 * length b + 2) div 3)
     \<and> (\<forall>k b tag. hmac_tag C k b = Some tag \<longrightarrow> length tag = 32)
     \<and> parse_cursor C (cursor_body P c) = Some c"

lemma open_concat:
  assumes "cursor_laws P C c" "hmac_tag C key (cursor_body P c) = Some tag"
  shows "open_cursor C (b64_encode C (cursor_body P c) @ ''.'' @ b64_encode C tag) key
     = (if (4 * length (cursor_body P c) + 2) div 3 \<le> 4052 then Inr c else Inl CursorTooLarge)"
  using assms by (auto simp: open_cursor_def cursor_laws_def split_once_append ok_or_def)

text \<open>
  C14: A cursor that was sealed is opened again under the same key, unchanged, when its serialized
  form has at most 3039 bytes; a longer one, which sealing accepts up to 3072 bytes, is refused as
  too large.
\<close>

theorem sealed_cursor_opens:
  assumes "cursor_laws P C c" "seal_cursor P C c key = Inr sealed"
  shows "length (cursor_body P c) \<le> 3072
    \<and> open_cursor C sealed key
      = (if length (cursor_body P c) \<le> 3039 then Inr c else Inl CursorTooLarge)"
proof -
  let ?body = "cursor_body P c"
  obtain tag where tag: "hmac_tag C key ?body = Some tag" and small: "length ?body \<le> 3072"
    and sealed: "sealed = b64_encode C ?body @ ''.'' @ b64_encode C tag"
    using assms(2) by (auto simp: seal_cursor_def guard_simps Let_def split: if_splits)
  have "(4 * length ?body + 2) div 3 \<le> 4052 \<longleftrightarrow> length ?body \<le> 3039" by presburger
  then show ?thesis
    using open_concat [OF assms(1) tag] small sealed by simp
qed

text \<open>
  An accepted cursor that carries the tag of a cursor sealed under the same key is that cursor,
  or two different bodies with the same tag are at hand.
\<close>

theorem tampered_cursor_rejected:
  assumes "cursor_laws P C c" "seal_cursor P C c key = Inr sealed"
    and "open_cursor C presented key = Inr c'"
    and "snd (the (split_once (CHR ''.'') presented)) = snd (the (split_once (CHR ''.'') sealed))"
  shows "c' = c \<or> (\<exists>body. body \<noteq> cursor_body P c \<and> parse_cursor C body = Some c'
                   \<and> hmac_tag C key body = hmac_tag C key (cursor_body P c))"
proof -
  obtain tag where tag: "hmac_tag C key (cursor_body P c) = Some tag"
    and sealed: "sealed = b64_encode C (cursor_body P c) @ CHR ''.'' # b64_encode C tag"
    using assms(2) by (auto simp: seal_cursor_def guard_simps Let_def split: if_splits)
  obtain a b body t where "split_once (CHR ''.'') presented = Some (a, b)"
    "b64_decode C b = Some t" "hmac_tag C key body = Some t" "parse_cursor C body = Some c'"
    using assms(3) by (auto simp: open_cursor_def guard_simps split: if_splits)
  moreover have "split_once (CHR ''.'') sealed = Some (b64_encode C (cursor_body P c), b64_encode C tag)"
    using assms(1) by (simp add: sealed split_once_append cursor_laws_def)
  ultimately have "t = tag" "hmac_tag C key body = Some tag" "parse_cursor C body = Some c'"
    using assms(1,4) by (auto simp: cursor_laws_def)
  then show ?thesis
    using assms(1) tag by (cases "body = cursor_body P c") (auto simp: cursor_laws_def)
qed

section \<open>Concrete inputs\<close>

text \<open>Base64 without padding, over the 64 characters from \<open>0\<close> to \<open>o\<close>.\<close>

definition b64_digit :: "nat \<Rightarrow> char" where
  "b64_digit v = char_of (v + 48)"

definition b64_value :: "char \<Rightarrow> nat" where
  "b64_value c = of_char c - 48"

fun b64_text :: "bytes \<Rightarrow> string" where
  "b64_text [] = []"
| "b64_text [a] = (let x = of_char a in [b64_digit (x div 4), b64_digit (x mod 4 * 16)])"
| "b64_text [a, b] = (let x = of_char a; y = of_char b in
     [b64_digit (x div 4), b64_digit (x mod 4 * 16 + y div 16), b64_digit (y mod 16 * 4)])"
| "b64_text (a # b # c # r) = (let x = of_char a; y = of_char b; z = of_char c in
     [b64_digit (x div 4), b64_digit (x mod 4 * 16 + y div 16), b64_digit (y mod 16 * 4 + z div 64),
      b64_digit (z mod 64)] @ b64_text r)"

fun b64_bytes :: "string \<Rightarrow> bytes" where
  "b64_bytes (p # q # r # s # rest) =
     (let x = b64_value p; y = b64_value q; z = b64_value r; w = b64_value s in
      char_of (x * 4 + y div 16) # char_of (y mod 16 * 16 + z div 4) # char_of (z mod 4 * 64 + w)
      # b64_bytes rest)"
| "b64_bytes [p, q, r] =
     (let x = b64_value p; y = b64_value q; z = b64_value r in
      [char_of (x * 4 + y div 16), char_of (y mod 16 * 16 + z div 4)])"
| "b64_bytes [p, q] = (let x = b64_value p; y = b64_value q in [char_of (x * 4 + y div 16)])"
| "b64_bytes _ = []"

lemma b64_digit_value: "v < 64 \<Longrightarrow> b64_value (b64_digit v) = v"
  by (simp add: b64_value_def b64_digit_def)

lemma b64_digit_no_dot: "v < 64 \<Longrightarrow> b64_digit v \<noteq> CHR ''.''"
  by (auto simp: b64_digit_def dest: arg_cong [of _ _ "of_char :: char \<Rightarrow> nat"])

lemma join_digits:
  fixes a b d :: nat
  shows "b < d \<Longrightarrow> (a * d + b) div d = a" "b < d \<Longrightarrow> (a * d + b) mod d = b"
  by simp_all

lemma b64_cut:
  fixes x y z :: nat
  assumes "x < 256" "y < 256" "z < 256"
  shows "x div 4 < 64" "x mod 4 * 16 + y div 16 < 64" "y mod 16 * 4 + z div 64 < 64" "z mod 64 < 64"
    "x mod 4 * 16 < 64" "y mod 16 * 4 < 64"
    "x div 4 * 4 + (x mod 4 * 16 + y div 16) div 16 = x"
    "(x mod 4 * 16 + y div 16) mod 16 * 16 + (y mod 16 * 4 + z div 64) div 4 = y"
    "(y mod 16 * 4 + z div 64) mod 4 * 64 + z mod 64 = z"
    "x div 4 * 4 + (x mod 4 * 16) div 16 = x"
    "(x mod 4 * 16 + y div 16) mod 16 * 16 + (y mod 16 * 4) div 4 = y"
proof -
  have small: "x div 4 < 64" "x mod 4 \<le> 3" "y div 16 < 16" "y mod 16 \<le> 15" "z div 64 < 4" "z mod 64 < 64"
    using assms by (simp_all add: less_Suc_eq_le [symmetric])
  show "x div 4 < 64" "z mod 64 < 64" using small by simp_all
  show "x mod 4 * 16 + y div 16 < 64" "y mod 16 * 4 + z div 64 < 64" "x mod 4 * 16 < 64" "y mod 16 * 4 < 64"
    using small by linarith+
  show "x div 4 * 4 + (x mod 4 * 16 + y div 16) div 16 = x"
    "(x mod 4 * 16 + y div 16) mod 16 * 16 + (y mod 16 * 4 + z div 64) div 4 = y"
    "(y mod 16 * 4 + z div 64) mod 4 * 64 + z mod 64 = z"
    "x div 4 * 4 + (x mod 4 * 16) div 16 = x"
    "(x mod 4 * 16 + y div 16) mod 16 * 16 + (y mod 16 * 4) div 4 = y"
    using small by (simp_all only: join_digits div_mult_mod_eq div_mult_self_is_m)
qed

lemmas b64_chars = b64_cut [OF nat_of_char_less_256 nat_of_char_less_256 nat_of_char_less_256]

lemma b64_high:
  fixes c :: char
  shows "of_char c div 16 div 16 = (0::nat)" "of_char c div 16 mod 16 = (of_char c div 16 :: nat)"
    "of_char c div 64 div 4 = (0::nat)" "of_char c div 64 mod 4 = (of_char c div 64 :: nat)"
  using nat_of_char_less_256 [of c]
  by (simp_all only: div_mult2_eq [symmetric]) (simp_all add: div_less_iff_less_mult mod_less)

lemma b64_roundtrip: "b64_bytes (b64_text b) = b"
  by (induction b rule: b64_text.induct)
     (simp_all add: Let_def b64_digit_value b64_chars b64_high)

lemma b64_no_dot: "CHR ''.'' \<notin> set (b64_text b)"
  by (induction b rule: b64_text.induct)
     (simp_all add: Let_def b64_digit_no_dot [symmetric] b64_chars)

lemma b64_length: "length (b64_text b) = (4 * length b + 2) div 3"
  by (induction b rule: b64_text.induct) (simp_all add: Let_def)

definition sample_cursor :: composite_cursor where
  "sample_cursor = \<lparr>source_positions = fmupd ''a'' ''1'' fmempty, cursor_snapshot = default_digest\<rparr>"

definition sample_cursor_crypto :: cursor_crypto where
  "sample_cursor_crypto =
     \<lparr>hmac_tag = (\<lambda>k b. Some (sha256 sample_platform (k @ b))),
      b64_encode = b64_text, b64_decode = (\<lambda>s. Some (b64_bytes s)),
      parse_cursor = (\<lambda>b. if b = cursor_body sample_platform sample_cursor then Some sample_cursor else None)\<rparr>"

lemma sample_cursor_laws: "cursor_laws sample_platform sample_cursor_crypto sample_cursor"
  by (auto simp: cursor_laws_def sample_cursor_crypto_def b64_roundtrip b64_no_dot b64_length
      sample_platform_def)

definition sealed_sample :: string where
  "sealed_sample = b64_text (cursor_body sample_platform sample_cursor) @ ''.''
     @ b64_text (sha256 sample_platform (''key'' @ cursor_body sample_platform sample_cursor))"

lemma length_hex_text [simp]: "length (hex_text b) = 2 * length b"
  by (induction b) simp_all

lemma sample_body_length: "length (cursor_body sample_platform sample_cursor) \<le> 3039"
  by (simp add: cursor_body_def cursor_json_def sample_cursor_def sample_platform_def
      sorted_list_of_fset.rep_eq default_digest_def digest_json_def digest_to_string_def)

lemma sample_sealed:
  "seal_cursor sample_platform sample_cursor_crypto sample_cursor ''key'' = Inr sealed_sample"
  using sample_body_length
  by (simp add: seal_cursor_def sealed_sample_def sample_cursor_crypto_def ok_or_def Let_def)

theorem sealed_cursor_opens_witness:
  "open_cursor sample_cursor_crypto sealed_sample ''key'' = Inr sample_cursor"
  using sealed_cursor_opens [OF sample_cursor_laws sample_sealed] sample_body_length by simp

theorem tampered_cursor_rejected_witness:
  "\<exists>c'. open_cursor sample_cursor_crypto sealed_sample ''key'' = Inr c'
     \<and> (c' = sample_cursor
        \<or> (\<exists>body. body \<noteq> cursor_body sample_platform sample_cursor
             \<and> parse_cursor sample_cursor_crypto body = Some c'))"
proof -
  have "hmac_tag sample_cursor_crypto ''key'' (cursor_body sample_platform sample_cursor)
      = Some (sha256 sample_platform (''key'' @ cursor_body sample_platform sample_cursor))"
    by (simp add: sample_cursor_crypto_def)
  from open_concat [OF sample_cursor_laws this] sample_body_length
  have opened: "open_cursor sample_cursor_crypto sealed_sample ''key'' = Inr sample_cursor"
    by (simp add: sealed_sample_def sample_cursor_crypto_def)
  show ?thesis
    using tampered_cursor_rejected [OF sample_cursor_laws sample_sealed opened refl] opened by blast
qed

definition sample_tool :: federated_tool where
  "sample_tool = \<lparr>ft_identity = sample_capability ''docs'' ''search'', ft_native_name = ''search'',
     ft_alias = ''docs__search'', ft_description = ''find'', ft_input_schema = JNull,
     ft_side_effect = ReadOnly, ft_fixture_result = JNull\<rparr>"

definition sample_template :: federated_template where
  "sample_template = \<lparr>tm_identity = sample_capability ''docs'' ''memo'',
     tm_virtual_uri_template = ''gm://docs/{id}'', tm_virtual_prefix = ''gm://docs/'',
     tm_native_uri_template = ''memo://{id}'', tm_name = ''memo'', tm_description = [],
     tm_mime_type = None, tm_variables = [''id'']\<rparr>"

definition sample_federation :: federation where
  "sample_federation = \<lparr>fed_tools = fmupd ''docs__search'' sample_tool fmempty,
     fed_resources = fmempty, fed_prompts = fmempty,
     fed_templates = fmupd ''gm://docs/{id}'' sample_template fmempty\<rparr>"

lemma sample_federation_built: "fed_built sample_federation"
proof -
  have "fed_built (sample_federation\<lparr>fed_templates := fmempty\<rparr>)"
    by (rule built_insert [OF built_default, of "RegTool sample_tool"])
       (simp_all add: federation_default_def insert_tool_def sample_federation_def sample_tool_def)
  then show ?thesis
    by (rule built_insert [of _ "RegTemplate sample_template"])
       (simp_all add: insert_template_def sample_federation_def sample_template_def)
qed

theorem registration_keeps_entries_witness:
  "fed_register (RegTool sample_tool) sample_federation = Inl AliasCollision"
proof -
  have "\<not> name_free (RegTool sample_tool) sample_federation"
    by (simp add: fed_tool_def sample_federation_def sample_tool_def ok_or_def)
  then show ?thesis
    using registration_keeps_entries [OF sample_federation_built, of "RegTool sample_tool"]
    by (cases "fed_register (RegTool sample_tool) sample_federation") auto
qed

theorem resolve_template_exact_witness:
  "resolves ''gm://docs/a%20b'' sample_template ''memo://a b''"
proof -
  have "resolve_template ''gm://docs/a%20b'' sample_federation
      = Some (sample_template, ''memo://a b'')"
    by (simp add: resolve_template_def btree_values_def sorted_list_of_fset.rep_eq sample_federation_def
        sample_template_def resolve_one_def strip_prefix_def percent_decode_def hex_value_def
        str_replace.simps Let_def char_of_def bit_Suc_0_iff)
  then show ?thesis using resolve_template_exact by blast
qed

theorem search_ranks_best_witness:
  "set (search \<lparr>split_words = (\<lambda>s. [s]), to_lowercase = id\<rparr> ''DOCS__search'' 5 sample_federation)
   = {sample_tool}"
proof -
  let ?T = "\<lparr>split_words = (\<lambda>s. [s]), to_lowercase = id\<rparr>"
  have registered: "tool_registered sample_federation t \<longleftrightarrow> t = sample_tool" for t
    by (auto simp: tool_registered_def sample_federation_def)
  have "search_score ?T ''DOCS__search'' sample_tool > 0"
    by (simp add: search_score_def sample_tool_def tokens_def eq_ignore_ascii_case_def Let_def
        char_of_def bit_Suc_0_iff)
  then show ?thesis
    using search_ranks_best [of ?T "''DOCS__search''" 5 sample_federation]
    by (cases "search ?T ''DOCS__search'' 5 sample_federation") (auto simp: registered)
qed

end
