(* ===== verification/Codec.thy ===== *)
theory Codec
  imports Digest
begin

text \<open>
  A concrete JSON codec. The stores rely on \<open>serde_json\<close> reading back what it wrote; this theory
  states that law (\<open>json_laws\<close>) and shows it is satisfiable by an encoder and a decoder that
  inverts it. The encoding is not JSON text; only the witnesses use it.
\<close>

section \<open>The law\<close>

text \<open>The numbers that \<open>serde_json::Value\<close> can hold: negative integers fit 64 bits, floats are finite.\<close>

fun number_wf :: "json_number \<Rightarrow> bool" where
  "number_wf (PosInt w) = True"
| "number_wf (NegInt i) = (- (2 ^ 63) \<le> i \<and> i < 0)"
| "number_wf (Float b) = (unat b div 2 ^ 52 mod 2 ^ 11 \<noteq> 2047)"

primrec json_wf :: "json \<Rightarrow> bool" where
  "json_wf JNull = True"
| "json_wf (JBool b) = True"
| "json_wf (JNum n) = number_wf n"
| "json_wf (JStr s) = True"
| "json_wf (JArr vs) = list_all (\<lambda>b. b) (map json_wf vs)"
| "json_wf (JObj es) = list_all (\<lambda>e. snd e) (map (map_prod id json_wf) es)"

text \<open>\<open>parse\<close> gives the document as written: entries in their order.\<close>

definition json_laws :: "platform \<Rightarrow> (bytes \<Rightarrow> json option) \<Rightarrow> bool" where
  "json_laws P parse \<longleftrightarrow>
     (\<forall>v. json_wf v \<longrightarrow> parse (json_to_vec P v) = Some v)
     \<and> hex_roundtrip P \<and> (\<forall>b. length (sha256 P b) = 32)"

text \<open>A \<open>serde_json::Value\<close>: canonical, with the numbers such a value can hold.\<close>

definition is_value :: "json \<Rightarrow> bool" where
  "is_value v \<longleftrightarrow> canonical_json v = v \<and> json_wf v"

definition digest_ok :: "sha256_digest \<Rightarrow> bool" where
  "digest_ok d \<longleftrightarrow> length (as_bytes d) = 32"

lemma of_json_ok: "json_laws P parse \<Longrightarrow> digest_ok (of_json P v)"
  by (simp add: json_laws_def digest_ok_def of_json_def of_bytes_def)

lemma digest_of_digest_json:
  "\<lbrakk>hex_roundtrip P; digest_ok d\<rbrakk> \<Longrightarrow> digest_from_str P (digest_to_string P d) = Inr d"
  by (simp add: digest_from_str_def digest_to_string_def hex_roundtrip_def digest_ok_def strip_prefix_def)

lemma btree_insert_all:
  "\<lbrakk>list_all p es; p (k, v)\<rbrakk> \<Longrightarrow> list_all p (btree_insert k v es)"
  by (induction es) auto

lemma btree_collect_all: "list_all p es \<Longrightarrow> list_all p (btree_collect es)"
proof -
  have "list_all p acc \<Longrightarrow> list_all p es \<Longrightarrow> list_all p (fold (\<lambda>(k, v). btree_insert k v) es acc)" for acc
    by (induction es arbitrary: acc) (auto simp: btree_insert_all)
  then show "list_all p es \<Longrightarrow> list_all p (btree_collect es)"
    by (simp add: btree_collect_def)
qed

lemma json_wf_canonical: "json_wf v \<Longrightarrow> json_wf (canonical_json v)"
proof (induction v)
  case (JObj es)
  have "list_all (\<lambda>e. json_wf (snd e)) (map (map_prod id canonical_json) es)"
    using JObj by (fastforce simp: list_all_iff)
  then have "list_all (\<lambda>e. json_wf (snd e)) (btree_collect (map (map_prod id canonical_json) es))"
    by (rule btree_collect_all)
  then show ?case by (simp add: list_all_iff)
qed (auto simp: list_all_iff)

section \<open>Encoding\<close>

fun enc_nat :: "nat \<Rightarrow> string" where
  "enc_nat n = (if n = 0 then ''0'' else (if even n then CHR ''a'' else CHR ''b'') # enc_nat (n div 2))"

declare enc_nat.simps [simp del]

fun dec_nat :: "string \<Rightarrow> (nat \<times> string) option" where
  "dec_nat [] = None"
| "dec_nat (c # r) =
     (if c = CHR ''0'' then Some (0, r)
      else map_option (\<lambda>(n, s). (if c = CHR ''a'' then 2 * n else 2 * n + 1, s)) (dec_nat r))"

lemma dec_enc_nat: "dec_nat (enc_nat n @ r) = Some (n, r)"
proof (induction n rule: enc_nat.induct)
  case (1 n)
  show ?case
  proof (cases "n = 0")
    case True
    then show ?thesis by (simp add: enc_nat.simps [of 0])
  next
    case False
    with 1 have "dec_nat (enc_nat (n div 2) @ r) = Some (n div 2, r)" by simp
    with False show ?thesis by (auto simp: enc_nat.simps [of n])
  qed
qed

fun enc_str :: "string \<Rightarrow> string" where
  "enc_str [] = ''0''"
| "enc_str (c # cs) = CHR ''1'' # c # enc_str cs"

fun dec_str :: "string \<Rightarrow> (string \<times> string) option" where
  "dec_str (k # c # r) =
     (if k = CHR ''0'' then Some ([], c # r) else map_option (\<lambda>(s, t). (c # s, t)) (dec_str r))"
| "dec_str [k] = Some ([], [])"
| "dec_str [] = None"

lemma dec_enc_str: "dec_str (enc_str s @ r) = Some (s, r)"
  by (induction s) (cases r; simp)+

fun enc_number :: "json_number \<Rightarrow> string" where
  "enc_number (PosInt w) = CHR ''p'' # enc_nat (unat w)"
| "enc_number (NegInt i) = (if 0 \<le> i then CHR ''q'' # enc_nat (nat i) else CHR ''m'' # enc_nat (nat (- i)))"
| "enc_number (Float w) = CHR ''d'' # enc_nat (unat w)"

primrec enc_json :: "json \<Rightarrow> string" where
  "enc_json JNull = ''n''"
| "enc_json (JBool b) = (if b then ''t'' else ''f'')"
| "enc_json (JNum n) = enc_number n"
| "enc_json (JStr s) = CHR ''s'' # enc_str s"
| "enc_json (JArr vs) = CHR ''['' # concat (map (\<lambda>s. CHR '','' # s) (map enc_json vs)) @ '']''"
| "enc_json (JObj es) = CHR ''{''
     # concat (map (\<lambda>(k, s). CHR '','' # enc_str k @ s) (map (map_prod id enc_json) es)) @ ''}''"

fun dec_json :: "nat \<Rightarrow> string \<Rightarrow> (json \<times> string) option"
  and dec_items :: "nat \<Rightarrow> string \<Rightarrow> (json list \<times> string) option"
  and dec_entries :: "nat \<Rightarrow> string \<Rightarrow> ((string \<times> json) list \<times> string) option" where
  "dec_json (Suc n) (c # r) =
     (if c = CHR ''n'' then Some (JNull, r)
      else if c = CHR ''t'' then Some (JBool True, r)
      else if c = CHR ''f'' then Some (JBool False, r)
      else if c = CHR ''p'' then map_option (\<lambda>(k, s). (JNum (PosInt (of_nat k)), s)) (dec_nat r)
      else if c = CHR ''q'' then map_option (\<lambda>(k, s). (JNum (NegInt (int k)), s)) (dec_nat r)
      else if c = CHR ''m'' then map_option (\<lambda>(k, s). (JNum (NegInt (- int k)), s)) (dec_nat r)
      else if c = CHR ''d'' then map_option (\<lambda>(k, s). (JNum (Float (of_nat k)), s)) (dec_nat r)
      else if c = CHR ''s'' then map_option (\<lambda>(t, s). (JStr t, s)) (dec_str r)
      else if c = CHR ''['' then map_option (\<lambda>(vs, s). (JArr vs, s)) (dec_items n r)
      else if c = CHR ''{'' then map_option (\<lambda>(es, s). (JObj es, s)) (dec_entries n r)
      else None)"
| "dec_json _ _ = None"
| "dec_items (Suc n) (c # r) =
     (if c = CHR '']'' then Some ([], r)
      else Option.bind (dec_json n r) (\<lambda>(v, s). map_option (\<lambda>(vs, t). (v # vs, t)) (dec_items n s)))"
| "dec_items _ _ = None"
| "dec_entries (Suc n) (c # r) =
     (if c = CHR ''}'' then Some ([], r)
      else Option.bind (dec_str r) (\<lambda>(k, s). Option.bind (dec_json n s) (\<lambda>(v, t).
             map_option (\<lambda>(es, u). ((k, v) # es, u)) (dec_entries n t))))"
| "dec_entries _ _ = None"

lemma dec_enc_items:
  assumes "\<And>v n r. \<lbrakk>v \<in> set vs; length (enc_json v) \<le> n\<rbrakk> \<Longrightarrow> dec_json n (enc_json v @ r) = Some (v, r)"
    and "Suc (length (concat (map (\<lambda>v. CHR '','' # enc_json v) vs))) \<le> n"
  shows "dec_items n (concat (map (\<lambda>v. CHR '','' # enc_json v) vs) @ CHR '']'' # r) = Some (vs, r)"
  using assms
proof (induction vs arbitrary: n)
  case Nil
  then show ?case by (cases n) simp_all
next
  case (Cons v vs)
  from Cons.prems(2) obtain m where n: "n = Suc m" by (cases n) simp_all
  have "dec_json m (enc_json v @ s) = Some (v, s)" for s
    using Cons.prems n by simp
  moreover have "dec_items m (concat (map (\<lambda>v. CHR '','' # enc_json v) vs) @ CHR '']'' # r) = Some (vs, r)"
    using Cons n by simp
  ultimately show ?case by (simp add: n)
qed

lemma dec_enc_entries:
  assumes "\<And>k v n r. \<lbrakk>(k, v) \<in> set es; length (enc_json v) \<le> n\<rbrakk> \<Longrightarrow> dec_json n (enc_json v @ r) = Some (v, r)"
    and "Suc (length (concat (map (\<lambda>(k, v). CHR '','' # enc_str k @ enc_json v) es))) \<le> n"
  shows "dec_entries n (concat (map (\<lambda>(k, v). CHR '','' # enc_str k @ enc_json v) es) @ CHR ''}'' # r)
       = Some (es, r)"
  using assms
proof (induction es arbitrary: n)
  case Nil
  then show ?case by (cases n) simp_all
next
  case (Cons e es)
  obtain k v where e: "e = (k, v)" by (cases e)
  from Cons.prems(2) obtain m where n: "n = Suc m" by (cases n) simp_all
  have "dec_json m (enc_json v @ s) = Some (v, s)" for s
    by (rule Cons.prems(1) [of k]) (use Cons.prems(2) n e in simp_all)
  moreover have "dec_entries m (concat (map (\<lambda>(k, v). CHR '','' # enc_str k @ enc_json v) es) @ CHR ''}'' # r)
      = Some (es, r)"
    by (rule Cons.IH) (use Cons.prems n e in \<open>auto simp: list.set_intros\<close>)
  ultimately show ?case by (simp add: n e dec_enc_str)
qed

lemma dec_enc_json: "length (enc_json v) \<le> n \<Longrightarrow> dec_json n (enc_json v @ r) = Some (v, r)"
proof (induction v arbitrary: n r)
  case (JNum x)
  then show ?case by (cases n; cases x) (auto simp: dec_enc_nat split: if_splits)
next
  case (JArr vs)
  then obtain m where n: "n = Suc m" by (cases n) simp_all
  with JArr show ?case by (simp add: dec_enc_items comp_def)
next
  case (JObj es)
  then obtain m where n: "n = Suc m" by (cases n) simp_all
  have "dec_entries m (concat (map (\<lambda>(k, v). CHR '','' # enc_str k @ enc_json v) es) @ CHR ''}'' # r)
      = Some (es, r)"
    using JObj n by (intro dec_enc_entries) (auto simp: comp_def split_def)
  then show ?case by (simp add: n comp_def split_def)
next
  case JNull
  then show ?case by (cases n) simp_all
next
  case (JBool b)
  then show ?case by (cases n; cases b) simp_all
next
  case (JStr s)
  then show ?case by (cases n) (simp_all add: dec_enc_str)
qed

definition parse_sample :: "string \<Rightarrow> json option" where
  "parse_sample s = map_option fst (dec_json (length s) s)"

definition codec_platform :: platform where
  "codec_platform = sample_platform\<lparr>json_to_vec := enc_json\<rparr>"

lemma parse_sample: "parse_sample (enc_json v) = Some v"
  using dec_enc_json [of v "length (enc_json v)" "[]"] by (simp add: parse_sample_def)

lemma codec_laws: "json_laws codec_platform parse_sample"
proof -
  have "hex_roundtrip codec_platform"
    using sample_hex_roundtrip by (simp add: hex_roundtrip_def codec_platform_def)
  moreover have "length (sha256 codec_platform b) = 32" for b
    by (simp add: codec_platform_def sample_platform_def)
  ultimately show ?thesis
    by (simp add: json_laws_def codec_platform_def parse_sample)
qed

end
