(* ===== verification/Run.thy ===== *)
theory Run
  imports Task Codec
begin

text \<open>
  Models \<open>crates/gaugemesh-core/src/run.rs\<close>: run records with their hash-chained journal, and the
  two SQLite tables \<open>runs\<close> and \<open>run_journal\<close> that hold them (declared in \<open>storage.rs\<close>, migration
  3). A table is the list of its rows; every SQL statement of the file is a definition over the
  rows, with the table's key constraints. A transaction that ends in an error leaves the tables as
  they were. \<open>serde_json::from_str\<close> is the argument \<open>parse\<close>; the fresh identifier of
  \<open>begin_run\<close> and the failures of the mutex are not modelled.
\<close>

section \<open>Records\<close>

datatype run_error = RunSqlite | RunDocument | RunInvalid string

record run_event =
  ev_version :: u64
  ev_kind :: string
  ev_state :: sha256_digest
  ev_previous :: sha256_digest
  ev_event :: sha256_digest

definition event_digest :: "platform \<Rightarrow> run_event \<Rightarrow> sha256_digest" where
  "event_digest P e =
     of_json P (JObj [(''version'', u64_json (ev_version e)), (''kind'', JStr (ev_kind e)),
                      (''stateSha256'', digest_json P (ev_state e)),
                      (''previousSha256'', digest_json P (ev_previous e))])"

record run_record =
  rn_schema :: string
  rn_id :: string
  rn_caller :: task_caller
  rn_key :: string
  rn_plan_digest :: sha256_digest
  rn_version :: u64
  rn_data :: json
  rn_journal :: "run_event list"

definition state_json :: "platform \<Rightarrow> run_record \<Rightarrow> json" where
  "state_json P r =
     JObj [(''schemaVersion'', JStr (rn_schema r)), (''runId'', JStr (rn_id r)),
           (''caller'', caller_json (rn_caller r)), (''runKey'', JStr (rn_key r)),
           (''planSha256'', digest_json P (rn_plan_digest r)), (''version'', u64_json (rn_version r)),
           (''data'', rn_data r)]"

definition state_digest :: "platform \<Rightarrow> run_record \<Rightarrow> sha256_digest" where
  "state_digest P r = of_json P (state_json P r)"

definition RUN_SCHEMA :: string where "RUN_SCHEMA = ''gaugemesh.run-evidence/1''"

text \<open>The loop over the journal: index, expected previous digest, remaining entries.\<close>

fun journal_ok :: "platform \<Rightarrow> nat \<Rightarrow> sha256_digest \<Rightarrow> run_event list \<Rightarrow> bool" where
  "journal_ok P i previous [] = True"
| "journal_ok P i previous (e # es) =
     (if ev_version e \<noteq> of_nat i \<or> ev_previous e \<noteq> previous \<or> event_digest P e \<noteq> ev_event e then False
      else journal_ok P (Suc i) (ev_event e) es)"

definition run_verify :: "platform \<Rightarrow> run_record \<Rightarrow> (run_error, unit) res" where
  "run_verify P r =
     (if rn_schema r \<noteq> RUN_SCHEMA \<or> rn_version r > 512
         \<or> length (rn_journal r) \<noteq> unat (rn_version r) + 1
         \<or> map_option (of_json P) (json_get ''plan'' (rn_data r)) \<noteq> Some (rn_plan_digest r)
         \<or> json_index (json_index (rn_data r) ''plan'') ''runKey'' \<noteq> JStr (rn_key r)
      then Inl (RunInvalid ''GM_RUN_INTEGRITY'')
      else if \<not> journal_ok P 0 default_digest (rn_journal r)
      then Inl (RunInvalid ''GM_RUN_JOURNAL_INTEGRITY'')
      else if rn_journal r = [] \<or> ev_state (last (rn_journal r)) \<noteq> state_digest P r
      then Inl (RunInvalid ''GM_RUN_INTEGRITY'')
      else Inr ())"

definition new_event :: "platform \<Rightarrow> string \<Rightarrow> run_record \<Rightarrow> run_event" where
  "new_event P kind r =
     (let entry = \<lparr>ev_version = rn_version r, ev_kind = kind, ev_state = state_digest P r,
                   ev_previous = (if rn_journal r = [] then default_digest
                                  else ev_event (last (rn_journal r))),
                   ev_event = default_digest\<rparr>
      in entry\<lparr>ev_event := event_digest P entry\<rparr>)"

text \<open>The bytes of a document: \<open>Value\<close> keeps its keys ordered.\<close>

definition document_text :: "platform \<Rightarrow> json \<Rightarrow> bytes" where
  "document_text P v = json_to_vec P (canonical_json v)"

definition MAX_RUN_DOCUMENT :: nat where "MAX_RUN_DOCUMENT = 2 * 1024 * 1024"

definition run_append :: "platform \<Rightarrow> string \<Rightarrow> run_record \<Rightarrow> (run_error, run_record) res" where
  "run_append P kind r =
     (if rn_version r > 512 \<or> length kind > 128 \<or> length (document_text P (rn_data r)) > MAX_RUN_DOCUMENT
      then Inl (RunInvalid ''GM_RUN_STORAGE_BOUND'')
      else let r' = r\<lparr>rn_journal := rn_journal r @ [new_event P kind r]\<rparr>
           in rbind (run_verify P r') (\<lambda>_. Inr r'))"

section \<open>Serialized events\<close>

definition event_json :: "platform \<Rightarrow> run_event \<Rightarrow> json" where
  "event_json P e =
     JObj [(''version'', u64_json (ev_version e)), (''kind'', JStr (ev_kind e)),
           (''stateSha256'', digest_json P (ev_state e)),
           (''previousSha256'', digest_json P (ev_previous e)),
           (''eventSha256'', digest_json P (ev_event e))]"

fun u64_of_json :: "json \<Rightarrow> u64 option" where
  "u64_of_json (JNum (PosInt w)) = Some w"
| "u64_of_json _ = None"

fun string_of_json :: "json \<Rightarrow> string option" where
  "string_of_json (JStr s) = Some s"
| "string_of_json _ = None"

fun digest_of_json :: "platform \<Rightarrow> json \<Rightarrow> sha256_digest option" where
  "digest_of_json P (JStr s) = (case digest_from_str P s of Inr d \<Rightarrow> Some d | Inl _ \<Rightarrow> None)"
| "digest_of_json P _ = None"

text \<open>
  The derived \<open>Deserialize\<close> of \<open>RunEvent\<close>: an object with no unknown, repeated or missing field, or
  the sequence of the fields.
\<close>

definition event_of_parts :: "platform \<Rightarrow> json option list \<Rightarrow> run_event option" where
  "event_of_parts P parts =
     (case parts of
        [Some v, Some k, Some s, Some p, Some e] \<Rightarrow>
           Option.bind (u64_of_json v) (\<lambda>v. Option.bind (string_of_json k) (\<lambda>k.
           Option.bind (digest_of_json P s) (\<lambda>s. Option.bind (digest_of_json P p) (\<lambda>p.
           map_option (\<lambda>e. \<lparr>ev_version = v, ev_kind = k, ev_state = s, ev_previous = p, ev_event = e\<rparr>)
             (digest_of_json P e)))))
      | _ \<Rightarrow> None)"

definition event_fields :: "string list" where
  "event_fields = [''version'', ''kind'', ''stateSha256'', ''previousSha256'', ''eventSha256'']"

fun event_of_json :: "platform \<Rightarrow> json \<Rightarrow> run_event option" where
  "event_of_json P (JObj es) =
     (if distinct (map fst es) \<and> set (map fst es) \<subseteq> set event_fields
      then event_of_parts P (map (map_of es) event_fields) else None)"
| "event_of_json P (JArr vs) = event_of_parts P (map Some vs)"
| "event_of_json P _ = None"

section \<open>Tables\<close>

record runs_row =
  rr_run_id :: string
  rr_principal :: string
  rr_tenant :: string
  rr_run_key :: string
  rr_plan_digest :: string
  rr_version :: u64
  rr_document :: string

record journal_row =
  jr_run_id :: string
  jr_version :: u64
  jr_event :: string

record run_db =
  runs :: "runs_row list"
  run_journal :: "journal_row list"

definition run_db_empty :: run_db where
  "run_db_empty = \<lparr>runs = [], run_journal = []\<rparr>"

text \<open>\<open>SELECT run_id FROM runs WHERE principal=?1 AND tenant=?2 AND run_key=?3\<close>\<close>

definition select_run_id :: "task_caller \<Rightarrow> string \<Rightarrow> run_db \<Rightarrow> string option" where
  "select_run_id c key db =
     map_option rr_run_id
       (find (\<lambda>row. rr_principal row = caller_principal c \<and> rr_tenant row = caller_tenant c
                    \<and> rr_run_key row = key) (runs db))"

text \<open>\<open>INSERT INTO runs\<close>: the primary key and the unique constraint refuse duplicates.\<close>

definition insert_run :: "runs_row \<Rightarrow> run_db \<Rightarrow> (run_error, run_db) res" where
  "insert_run row db =
     (if list_ex (\<lambda>x. rr_run_id x = rr_run_id row
                      \<or> rr_principal x = rr_principal row \<and> rr_tenant x = rr_tenant row
                        \<and> rr_run_key x = rr_run_key row) (runs db)
      then Inl RunSqlite else Inr (db\<lparr>runs := runs db @ [row]\<rparr>))"

text \<open>\<open>UPDATE runs SET document, version WHERE run_id AND version\<close>: the rows changed, and the table.\<close>

definition update_run :: "string \<Rightarrow> u64 \<Rightarrow> u64 \<Rightarrow> string \<Rightarrow> run_db \<Rightarrow> nat \<times> run_db" where
  "update_run i version old document db =
     (length (filter (\<lambda>x. rr_run_id x = i \<and> rr_version x = old) (runs db)),
      db\<lparr>runs := map (\<lambda>x. if rr_run_id x = i \<and> rr_version x = old
                            then x\<lparr>rr_document := document, rr_version := version\<rparr> else x) (runs db)\<rparr>)"

definition insert_event :: "platform \<Rightarrow> run_record \<Rightarrow> run_db \<Rightarrow> (run_error, run_db) res" where
  "insert_event P r db =
     (if list_ex (\<lambda>x. jr_run_id x = rn_id r \<and> jr_version x = rn_version r) (run_journal db)
      then Inl RunSqlite
      else Inr (db\<lparr>run_journal := run_journal db
             @ [\<lparr>jr_run_id = rn_id r, jr_version = rn_version r,
                 jr_event = json_to_vec P (event_json P (last (rn_journal r)))\<rparr>]\<rparr>))"

text \<open>\<open>SELECT event FROM run_journal WHERE run_id=?1 ORDER BY version LIMIT 514\<close>\<close>

definition select_journal :: "string \<Rightarrow> run_db \<Rightarrow> string list" where
  "select_journal i db =
     take 514 (map jr_event (sort_key jr_version (filter (\<lambda>x. jr_run_id x = i) (run_journal db))))"

section \<open>Operations\<close>

definition run_load ::
  "platform \<Rightarrow> (string \<Rightarrow> json option) \<Rightarrow> task_caller \<Rightarrow> string \<Rightarrow> run_db
   \<Rightarrow> (run_error, run_record option) res" where
  "run_load P parse c i db =
     (case find (\<lambda>row. rr_run_id row = i \<and> rr_principal row = caller_principal c
                        \<and> rr_tenant row = caller_tenant c) (runs db) of
        None \<Rightarrow> Inr None
      | Some row \<Rightarrow>
          if length (rr_document row) > MAX_RUN_DOCUMENT \<or> rr_version row > 512
          then Inl (RunInvalid ''GM_RUN_STORAGE_BOUND'')
          else
            rbind (map_err (\<lambda>_. RunInvalid ''GM_RUN_INTEGRITY'') (digest_from_str P (rr_plan_digest row))) (\<lambda>digest.
            rbind (ok_or (parse (rr_document row)) RunDocument) (\<lambda>data.
            rbind (try_map (\<lambda>s. ok_or (Option.bind (parse s) (event_of_json P)) RunDocument)
                     (select_journal i db)) (\<lambda>journal.
            let r = \<lparr>rn_schema = RUN_SCHEMA, rn_id = i, rn_caller = c, rn_key = rr_run_key row,
                     rn_plan_digest = digest, rn_version = rr_version row,
                     rn_data = canonical_json data, rn_journal = journal\<rparr>
            in rbind (run_verify P r) (\<lambda>_. Inr (Some r))))))"

definition find_run ::
  "platform \<Rightarrow> (string \<Rightarrow> json option) \<Rightarrow> task_caller \<Rightarrow> string \<Rightarrow> run_db
   \<Rightarrow> (run_error, run_record option) res" where
  "find_run P parse c key db =
     (case select_run_id c key db of Some i \<Rightarrow> run_load P parse c i db | None \<Rightarrow> Inr None)"

definition get_run ::
  "platform \<Rightarrow> (string \<Rightarrow> json option) \<Rightarrow> task_caller \<Rightarrow> string \<Rightarrow> run_db
   \<Rightarrow> (run_error, run_record option) res" where
  "get_run P parse c i db = run_load P parse c i db"

definition accepted_run :: "platform \<Rightarrow> string \<Rightarrow> task_caller \<Rightarrow> string \<Rightarrow> json \<Rightarrow> run_record" where
  "accepted_run P fresh c key data =
     \<lparr>rn_schema = RUN_SCHEMA, rn_id = fresh, rn_caller = c, rn_key = key,
      rn_plan_digest = of_json P (json_index data ''plan''), rn_version = 0, rn_data = data,
      rn_journal = []\<rparr>"

text \<open>The result and the tables; \<open>fresh\<close> is the new identifier.\<close>

definition begin_run ::
  "platform \<Rightarrow> (string \<Rightarrow> json option) \<Rightarrow> string \<Rightarrow> task_caller \<Rightarrow> string \<Rightarrow> json \<Rightarrow> run_db
   \<Rightarrow> (run_error, run_record \<times> run_db) res" where
  "begin_run P parse fresh c key data db =
     (if key = [] \<or> length key > 128 \<or> \<not> is_object (json_index data ''plan'')
      then Inl (RunInvalid ''GM_RUN_PLAN_INVALID'')
      else
        let digest = of_json P (json_index data ''plan'') in
        case select_run_id c key db of
          Some i \<Rightarrow>
            rbind (run_load P parse c i db) (\<lambda>found.
            rbind (ok_or found (RunInvalid ''GM_RUN_INTEGRITY'')) (\<lambda>r.
              if rn_plan_digest r \<noteq> digest then Inl (RunInvalid ''GM_RUN_IDEMPOTENCY_CONFLICT'')
              else Inr (r, db)))
        | None \<Rightarrow>
            if length (runs db) \<ge> 128 then Inl (RunInvalid ''GM_RUN_STORAGE_CAPACITY'')
            else
              rbind (run_append P ''accepted'' (accepted_run P fresh c key data)) (\<lambda>r.
              rbind (insert_run \<lparr>rr_run_id = rn_id r, rr_principal = caller_principal (rn_caller r),
                                 rr_tenant = caller_tenant (rn_caller r), rr_run_key = rn_key r,
                                 rr_plan_digest = digest_to_string P digest, rr_version = 0,
                                 rr_document = document_text P (rn_data r)\<rparr> db) (\<lambda>db.
              rbind (insert_event P r db) (\<lambda>db. Inr (r, db)))))"

text \<open>Equality of \<open>Value\<close>s, whose objects are ordered maps.\<close>

definition same_json :: "json option \<Rightarrow> json option \<Rightarrow> bool" where
  "same_json a b \<longleftrightarrow> map_option canonical_json a = map_option canonical_json b"

definition advance_run ::
  "platform \<Rightarrow> (string \<Rightarrow> json option) \<Rightarrow> run_record \<Rightarrow> json \<Rightarrow> string \<Rightarrow> run_db
   \<Rightarrow> (run_error, run_record \<times> run_db) res" where
  "advance_run P parse old data kind db =
     rbind (run_load P parse (rn_caller old) (rn_id old) db) (\<lambda>found.
     rbind (ok_or found (RunInvalid ''GM_RUN_NOT_FOUND'')) (\<lambda>current.
     if rn_version current \<noteq> rn_version old then Inl (RunInvalid ''GM_RUN_STALE_DRIVER'')
     else if \<not> same_json (json_get ''plan'' data) (json_get ''plan'' (rn_data current))
     then Inl (RunInvalid ''GM_RUN_PLAN_IMMUTABLE'')
     else
       rbind (run_append P kind (current\<lparr>rn_version := rn_version current + 1, rn_data := data\<rparr>)) (\<lambda>r.
       let (changed, db') = update_run (rn_id r) (rn_version r) (rn_version old)
                              (document_text P (rn_data r)) db in
       if changed \<noteq> 1 then Inl (RunInvalid ''GM_RUN_STALE_DRIVER'')
       else rbind (insert_event P r db') (\<lambda>db'. Inr (r, db')))))"

section \<open>The store the tables represent\<close>

definition event_ok :: "run_event \<Rightarrow> bool" where
  "event_ok e \<longleftrightarrow> digest_ok (ev_state e) \<and> digest_ok (ev_previous e) \<and> digest_ok (ev_event e)"

definition run_ok :: "platform \<Rightarrow> run_record \<Rightarrow> bool" where
  "run_ok P r \<longleftrightarrow> run_verify P r = Inr () \<and> is_value (rn_data r)
     \<and> length (document_text P (rn_data r)) \<le> MAX_RUN_DOCUMENT \<and> (\<forall>e \<in> set (rn_journal r). event_ok e)"

definition row_of :: "platform \<Rightarrow> run_record \<Rightarrow> runs_row" where
  "row_of P r = \<lparr>rr_run_id = rn_id r, rr_principal = caller_principal (rn_caller r),
     rr_tenant = caller_tenant (rn_caller r), rr_run_key = rn_key r,
     rr_plan_digest = digest_to_string P (rn_plan_digest r), rr_version = rn_version r,
     rr_document = document_text P (rn_data r)\<rparr>"

definition journal_row_of :: "platform \<Rightarrow> string \<Rightarrow> run_event \<Rightarrow> journal_row" where
  "journal_row_of P i e =
     \<lparr>jr_run_id = i, jr_version = ev_version e, jr_event = json_to_vec P (event_json P e)\<rparr>"

definition represents :: "platform \<Rightarrow> run_db \<Rightarrow> run_record list \<Rightarrow> bool" where
  "represents P db rs \<longleftrightarrow>
     runs db = map (row_of P) rs \<and> length rs \<le> 128
     \<and> distinct (map rn_id rs) \<and> distinct (map (\<lambda>r. (rn_caller r, rn_key r)) rs)
     \<and> (\<forall>r \<in> set rs. run_ok P r
          \<and> filter (\<lambda>x. jr_run_id x = rn_id r) (run_journal db)
            = map (journal_row_of P (rn_id r)) (rn_journal r))
     \<and> (\<forall>x \<in> set (run_journal db). jr_run_id x \<in> rn_id ` set rs)"

text \<open>What the operations promise, over a list of records.\<close>

definition spec_get :: "task_caller \<Rightarrow> string \<Rightarrow> run_record list \<Rightarrow> run_record option" where
  "spec_get c i rs = find (\<lambda>r. rn_id r = i \<and> rn_caller r = c) rs"

definition spec_find :: "task_caller \<Rightarrow> string \<Rightarrow> run_record list \<Rightarrow> run_record option" where
  "spec_find c key rs = find (\<lambda>r. rn_caller r = c \<and> rn_key r = key) rs"

definition journaled :: "platform \<Rightarrow> string \<Rightarrow> run_record \<Rightarrow> run_record" where
  "journaled P kind r = r\<lparr>rn_journal := rn_journal r @ [new_event P kind r]\<rparr>"

definition too_large :: "platform \<Rightarrow> json \<Rightarrow> bool" where
  "too_large P data \<longleftrightarrow> length (document_text P data) > MAX_RUN_DOCUMENT"

definition spec_begin ::
  "platform \<Rightarrow> string \<Rightarrow> task_caller \<Rightarrow> string \<Rightarrow> json \<Rightarrow> run_record list
   \<Rightarrow> (run_error, run_record \<times> run_record list) res" where
  "spec_begin P fresh c key data rs =
     (let plan = json_index data ''plan'';
          r = journaled P ''accepted'' (accepted_run P fresh c key data) in
      if key = [] \<or> length key > 128 \<or> \<not> is_object plan then Inl (RunInvalid ''GM_RUN_PLAN_INVALID'')
      else case spec_find c key rs of
        Some r \<Rightarrow> if rn_plan_digest r = of_json P plan then Inr (r, rs)
                  else Inl (RunInvalid ''GM_RUN_IDEMPOTENCY_CONFLICT'')
      | None \<Rightarrow>
          if length rs \<ge> 128 then Inl (RunInvalid ''GM_RUN_STORAGE_CAPACITY'')
          else if too_large P data then Inl (RunInvalid ''GM_RUN_STORAGE_BOUND'')
          else if json_index plan ''runKey'' \<noteq> JStr key then Inl (RunInvalid ''GM_RUN_INTEGRITY'')
          else if fresh \<in> rn_id ` set rs then Inl RunSqlite
          else Inr (r, rs @ [r]))"

definition spec_advance ::
  "platform \<Rightarrow> run_record \<Rightarrow> json \<Rightarrow> string \<Rightarrow> run_record list
   \<Rightarrow> (run_error, run_record \<times> run_record list) res" where
  "spec_advance P old data kind rs =
     (case spec_get (rn_caller old) (rn_id old) rs of
        None \<Rightarrow> Inl (RunInvalid ''GM_RUN_NOT_FOUND'')
      | Some current \<Rightarrow>
          let r = journaled P kind (current\<lparr>rn_version := rn_version current + 1, rn_data := data\<rparr>) in
          if rn_version current \<noteq> rn_version old then Inl (RunInvalid ''GM_RUN_STALE_DRIVER'')
          else if json_get ''plan'' data \<noteq> json_get ''plan'' (rn_data current)
          then Inl (RunInvalid ''GM_RUN_PLAN_IMMUTABLE'')
          else if rn_version current \<ge> 512 \<or> length kind > 128 \<or> too_large P data
          then Inl (RunInvalid ''GM_RUN_STORAGE_BOUND'')
          else Inr (r, map (\<lambda>x. if rn_id x = rn_id r then r else x) rs))"

section \<open>Loading\<close>

lemma find_map_conv: "find q (map f xs) = map_option f (find (q \<circ> f) xs)"
  by (induction xs) auto

lemma caller_eq: "rn_caller r = c \<longleftrightarrow>
  caller_principal (rn_caller r) = caller_principal c \<and> caller_tenant (rn_caller r) = caller_tenant c"
  by (auto intro: task_caller.equality)

lemma event_roundtrip:
  assumes "json_laws P parse" "event_ok e"
  shows "Option.bind (parse (json_to_vec P (event_json P e))) (event_of_json P) = Some e"
proof -
  have "json_wf (event_json P e)"
    by (simp add: event_json_def u64_json_def digest_json_def)
  with assms show ?thesis
    by (simp add: json_laws_def event_json_def event_fields_def event_of_parts_def u64_json_def
        digest_json_def digest_of_digest_json event_ok_def)
qed

lemma journal_ok_versions:
  "journal_ok P i prev es \<Longrightarrow> map ev_version es = map of_nat [i..<i + length es]"
proof (induction es arbitrary: i prev)
  case (Cons e es)
  then have "map ev_version es = map of_nat [Suc i..<Suc i + length es]" "ev_version e = of_nat i"
    by (auto simp del: upt_Suc split: if_splits)
  then show ?case by (simp add: upt_conv_Cons del: upt_Suc)
qed simp

lemma run_verify_Inr [guard_simps]:
  "run_verify P r = Inr u \<longleftrightarrow>
     rn_schema r = RUN_SCHEMA \<and> rn_version r \<le> 512
     \<and> length (rn_journal r) = unat (rn_version r) + 1
     \<and> map_option (of_json P) (json_get ''plan'' (rn_data r)) = Some (rn_plan_digest r)
     \<and> json_index (json_index (rn_data r) ''plan'') ''runKey'' = JStr (rn_key r)
     \<and> journal_ok P 0 default_digest (rn_journal r)
     \<and> ev_state (last (rn_journal r)) = state_digest P r"
  by (auto simp: run_verify_def)

lemma unat_512: "v \<le> (512 :: u64) \<Longrightarrow> unat v \<le> 512"
  by (simp add: word_le_nat_alt)

lemma sorted_journal_versions:
  assumes "journal_ok P 0 prev es" "length es \<le> 513"
  shows "sorted (map ev_version es)"
proof -
  have "sorted (map (of_nat :: nat \<Rightarrow> u64) [0..<length es])"
    using assms(2)
    by (auto simp: sorted_iff_nth_mono_less word_le_nat_alt unat_of_nat)
  then show ?thesis using journal_ok_versions [OF assms(1)] by simp
qed

lemma journal_selected:
  assumes "represents P db rs" "r \<in> set rs" "json_laws P parse"
  shows "try_map (\<lambda>s. ok_or (Option.bind (parse s) (event_of_json P)) RunDocument)
           (select_journal (rn_id r) db) = Inr (rn_journal r)"
proof -
  have ok: "run_ok P r"
    and rows: "filter (\<lambda>x. jr_run_id x = rn_id r) (run_journal db)
             = map (journal_row_of P (rn_id r)) (rn_journal r)"
    using assms by (auto simp: represents_def)
  then have j: "journal_ok P 0 default_digest (rn_journal r)" "length (rn_journal r) \<le> 513"
    using unat_512 [of "rn_version r"] by (auto simp: run_ok_def guard_simps)
  have "sort_key jr_version (map (journal_row_of P (rn_id r)) (rn_journal r))
      = map (journal_row_of P (rn_id r)) (rn_journal r)"
    using sorted_journal_versions [OF j]
    by (intro sort_key_id_if_sorted) (simp add: comp_def journal_row_of_def)
  then have "select_journal (rn_id r) db = map (\<lambda>e. json_to_vec P (event_json P e)) (rn_journal r)"
    using j(2) by (simp add: select_journal_def rows journal_row_of_def comp_def)
  moreover have "\<forall>e \<in> set (rn_journal r). event_ok e" using ok by (simp add: run_ok_def)
  ultimately show ?thesis
    by (simp add: try_map_Inr list_all2_conv_all_nth event_roundtrip [OF assms(3)])
qed

lemma plan_digest_ok:
  "\<lbrakk>json_laws P parse; run_verify P r = Inr ()\<rbrakk> \<Longrightarrow> digest_ok (rn_plan_digest r)"
  by (auto simp: guard_simps json_laws_def digest_ok_def of_json_def of_bytes_def dest!: sym [of _ "rn_plan_digest r"])

lemma find_in_represented:
  "find (\<lambda>row. rr_run_id row = i \<and> rr_principal row = caller_principal c
               \<and> rr_tenant row = caller_tenant c) (map (row_of P) rs)
   = map_option (row_of P) (spec_get c i rs)"
  by (simp add: find_map_conv spec_get_def comp_def row_of_def caller_eq)

lemma select_run_id_represented:
  "runs db = map (row_of P) rs \<Longrightarrow> select_run_id c key db = map_option rn_id (spec_find c key rs)"
  by (simp add: select_run_id_def find_map_conv spec_find_def comp_def row_of_def caller_eq
      option.map_comp conj_assoc)

lemma spec_get_SomeD: "spec_get c i rs = Some r \<Longrightarrow> r \<in> set rs \<and> rn_id r = i \<and> rn_caller r = c"
  by (auto simp: spec_get_def dest: find_Some_first)

lemma spec_find_SomeD: "spec_find c key rs = Some r \<Longrightarrow> r \<in> set rs \<and> rn_caller r = c \<and> rn_key r = key"
  by (auto simp: spec_find_def dest: find_Some_first)

lemma spec_get_unique:
  "\<lbrakk>distinct (map rn_id rs); r \<in> set rs\<rbrakk> \<Longrightarrow> spec_get (rn_caller r) (rn_id r) rs = Some r"
  by (induction rs) (auto simp: spec_get_def image_iff)

lemma load_represented:
  assumes "json_laws P parse" "represents P db rs"
  shows "run_load P parse c i db = Inr (spec_get c i rs)"
proof (cases "spec_get c i rs")
  case None
  then show ?thesis
    using assms(2) by (simp add: run_load_def represents_def find_in_represented)
next
  case (Some r)
  then have r: "r \<in> set rs" "rn_id r = i" "rn_caller r = c"
    using spec_get_SomeD by auto
  have ok: "run_ok P r" using assms(2) r(1) by (simp add: represents_def)
  then have "parse (document_text P (rn_data r)) = Some (rn_data r)" "canonical_json (rn_data r) = rn_data r"
    using assms(1) by (simp_all add: json_laws_def document_text_def run_ok_def is_value_def)
  moreover have "digest_from_str P (digest_to_string P (rn_plan_digest r)) = Inr (rn_plan_digest r)"
    using assms(1) ok plan_digest_ok [OF assms(1)]
    by (intro digest_of_digest_json) (auto simp: json_laws_def run_ok_def)
  moreover have "find (\<lambda>row. rr_run_id row = i \<and> rr_principal row = caller_principal c
               \<and> rr_tenant row = caller_tenant c) (runs db) = Some (row_of P r)"
    using assms(2) Some by (simp add: represents_def find_in_represented)
  moreover have "\<not> 512 < rn_version r" "length (document_text P (rn_data r)) \<le> MAX_RUN_DOCUMENT"
    "run_verify P r = Inr ()" "rn_schema r = RUN_SCHEMA"
    using ok by (auto simp: run_ok_def guard_simps not_less)
  moreover have same: "\<lparr>rn_schema = RUN_SCHEMA, rn_id = i, rn_caller = c, rn_key = rn_key r,
      rn_plan_digest = rn_plan_digest r, rn_version = rn_version r, rn_data = rn_data r,
      rn_journal = rn_journal r\<rparr> = r"
    using r ok by (intro run_record.equality) (simp_all add: run_ok_def guard_simps)
  ultimately show ?thesis
    using journal_selected [OF assms(2) r(1) assms(1)] r Some
    by (simp add: run_load_def row_of_def same Let_def)
qed

section \<open>Refinement\<close>

lemma same_json_value:
  assumes "is_value v" "is_value w"
  shows "same_json (json_get k v) (json_get k w) \<longleftrightarrow> json_get k v = json_get k w"
proof -
  have canonical: "canonical_json x = x" if u: "is_value u" and get: "json_get k u = Some x" for u x
  proof -
    obtain es where es: "u = JObj es" "map_of es k = Some x"
      using get by (cases u) auto
    let ?es = "map (map_prod id canonical_json) es"
    have sorted: "btree_collect ?es = es"
      using u es(1) by (simp add: is_value_def)
    then have "entries_ordered ?es"
      using entries_ordered_collect [of ?es] by (simp add: entries_ordered_def comp_def)
    then have "?es = es" using sorted btree_collect_ordered by metis
    moreover have "map_of ?es k = Some (canonical_json x)"
      using es(2) by (induction es) auto
    ultimately show ?thesis using es(2) by simp
  qed
  show ?thesis
    unfolding same_json_def
    using canonical assms
    by (cases "json_get k v"; cases "json_get k w") auto
qed

lemma rn_new_event [simp]:
  "ev_version (new_event P kind r) = rn_version r" "ev_kind (new_event P kind r) = kind"
  "ev_state (new_event P kind r) = state_digest P r"
  "ev_previous (new_event P kind r)
   = (if rn_journal r = [] then default_digest else ev_event (last (rn_journal r)))"
  "event_digest P (new_event P kind r) = ev_event (new_event P kind r)"
  by (simp_all add: new_event_def Let_def event_digest_def)

lemma journal_ok_snoc:
  "journal_ok P i prev (es @ [e]) \<longleftrightarrow>
     journal_ok P i prev es \<and> ev_version e = of_nat (i + length es)
     \<and> ev_previous e = (if es = [] then prev else ev_event (last es)) \<and> event_digest P e = ev_event e"
  by (induction es arbitrary: i prev) auto

lemma state_digest_journal [simp]: "state_digest P (r\<lparr>rn_journal := j\<rparr>) = state_digest P r"
  by (simp add: state_digest_def state_json_def)

text \<open>Appending to a record whose journal is that of the version before.\<close>

definition ready :: "platform \<Rightarrow> run_record \<Rightarrow> bool" where
  "ready P r \<longleftrightarrow> rn_schema r = RUN_SCHEMA \<and> length (rn_journal r) = unat (rn_version r)
     \<and> journal_ok P 0 default_digest (rn_journal r) \<and> (\<forall>e \<in> set (rn_journal r). event_ok e)
     \<and> is_value (rn_data r)
     \<and> map_option (of_json P) (json_get ''plan'' (rn_data r)) = Some (rn_plan_digest r)"

lemma run_append_ready:
  assumes "ready P r"
  shows "run_append P kind r =
     (if rn_version r > 512 \<or> length kind > 128 \<or> too_large P (rn_data r)
      then Inl (RunInvalid ''GM_RUN_STORAGE_BOUND'')
      else if json_index (json_index (rn_data r) ''plan'') ''runKey'' \<noteq> JStr (rn_key r)
      then Inl (RunInvalid ''GM_RUN_INTEGRITY'')
      else Inr (journaled P kind r))"
proof -
  have "journal_ok P 0 default_digest (rn_journal r @ [new_event P kind r])"
    using assms by (auto simp: ready_def journal_ok_snoc)
  then show ?thesis
    using assms
    by (auto simp: ready_def run_append_def journaled_def too_large_def run_verify_def Let_def)
qed

lemma journaled_ok:
  assumes "ready P r" "json_laws P parse" "rn_version r \<le> 512" "\<not> too_large P (rn_data r)"
    and "json_index (json_index (rn_data r) ''plan'') ''runKey'' = JStr (rn_key r)"
  shows "run_ok P (journaled P kind r)"
proof -
  have "digest_ok default_digest" by (simp add: digest_ok_def default_digest_def)
  moreover have "digest_ok (ev_event (last (rn_journal r)))" if "rn_journal r \<noteq> []"
    using assms(1) that by (auto simp: ready_def event_ok_def)
  moreover have "digest_ok (ev_event (new_event P kind r))"
    by (simp only: rn_new_event(5) [symmetric]) (simp add: event_digest_def of_json_ok [OF assms(2)])
  ultimately have "event_ok (new_event P kind r)"
    by (simp add: event_ok_def state_digest_def of_json_ok [OF assms(2)])
  then show ?thesis
    using assms
    by (auto simp: run_ok_def journaled_def guard_simps ready_def journal_ok_snoc too_large_def)
qed

lemma json_index_plan:
  "is_object (json_index data ''plan'') \<Longrightarrow> json_get ''plan'' data = Some (json_index data ''plan'')"
  by (auto simp: json_index_def split: option.splits)

lemma ready_accepted:
  "\<lbrakk>is_value data; is_object (json_index data ''plan'')\<rbrakk> \<Longrightarrow> ready P (accepted_run P fresh c key data)"
  by (simp add: ready_def accepted_run_def json_index_plan)

lemma ready_next:
  assumes "run_ok P r" "is_value data" "rn_version r < 512"
    and "json_get ''plan'' data = json_get ''plan'' (rn_data r)"
  shows "ready P (r\<lparr>rn_version := rn_version r + 1, rn_data := data\<rparr>)"
proof -
  have "unat (rn_version r + 1) = unat (rn_version r) + 1"
    using assms(3) by (simp add: unat_add_lem [symmetric] word_less_nat_alt unat_word_ariths)
  then show ?thesis
    using assms by (simp add: ready_def run_ok_def guard_simps)
qed

lemma journaled_fields [simp]:
  "rn_id (journaled P k r) = rn_id r" "rn_caller (journaled P k r) = rn_caller r"
  "rn_key (journaled P k r) = rn_key r" "rn_version (journaled P k r) = rn_version r"
  "rn_data (journaled P k r) = rn_data r" "rn_plan_digest (journaled P k r) = rn_plan_digest r"
  "rn_journal (journaled P k r) = rn_journal r @ [new_event P k r]"
  by (simp_all add: journaled_def)

lemma accepted_fields [simp]:
  "rn_id (accepted_run P fresh c key data) = fresh" "rn_caller (accepted_run P fresh c key data) = c"
  "rn_key (accepted_run P fresh c key data) = key" "rn_version (accepted_run P fresh c key data) = 0"
  "rn_data (accepted_run P fresh c key data) = data"
  "rn_plan_digest (accepted_run P fresh c key data) = of_json P (json_index data ''plan'')"
  "rn_journal (accepted_run P fresh c key data) = []"
  by (simp_all add: accepted_run_def)

text \<open>Two spellings of a result: the transaction's, over tables, and the specification's.\<close>

definition implements ::
  "platform \<Rightarrow> (run_error, run_record \<times> run_db) res \<Rightarrow> (run_error, run_record \<times> run_record list) res \<Rightarrow> bool" where
  "implements P a b \<longleftrightarrow>
     (case (a, b) of
        (Inl e, Inl e') \<Rightarrow> e = e'
      | (Inr (r, db), Inr (r', rs)) \<Rightarrow> r = r' \<and> represents P db rs
      | _ \<Rightarrow> False)"

lemma insert_event_row:
  "insert_event P r db =
     (if \<exists>x \<in> set (run_journal db). jr_run_id x = rn_id r \<and> jr_version x = rn_version r then Inl RunSqlite
      else Inr (db\<lparr>run_journal := run_journal db
             @ [\<lparr>jr_run_id = rn_id r, jr_version = rn_version r,
                 jr_event = json_to_vec P (event_json P (last (rn_journal r)))\<rparr>]\<rparr>))"
  by (simp add: insert_event_def list_ex_iff)

lemma spec_find_None: "spec_find c key rs = None \<longleftrightarrow> (c, key) \<notin> (\<lambda>r. (rn_caller r, rn_key r)) ` set rs"
  by (auto simp: spec_find_def find_None_iff)

lemma represents_insert:
  assumes "represents P db rs" "run_ok P r" "rn_journal r = [e]" "ev_version e = rn_version r"
    and "length rs < 128" "rn_id r \<notin> rn_id ` set rs" "spec_find (rn_caller r) (rn_key r) rs = None"
  shows "represents P (db\<lparr>runs := runs db @ [row_of P r],
           run_journal := run_journal db @ [journal_row_of P (rn_id r) e]\<rparr>) (rs @ [r])"
proof -
  have "filter (\<lambda>x. jr_run_id x = rn_id r) (run_journal db) = []"
    using assms(1,6) unfolding represents_def filter_empty_conv by metis
  moreover have "rn_id r \<noteq> rn_id x" if "x \<in> set rs" for x using assms(6) that by auto
  ultimately show ?thesis
    using assms by (auto simp: represents_def spec_find_None journal_row_of_def)
qed

text \<open>Two transactions: accepting a plan.\<close>

lemma begin_refines:
  assumes "json_laws P parse" "represents P db rs" "is_value data"
  shows "implements P (begin_run P parse fresh c key data db) (spec_begin P fresh c key data rs)"
proof -
  let ?plan = "json_index data ''plan''"
  let ?r = "accepted_run P fresh c key data"
  have tables: "runs db = map (row_of P) rs" "length (runs db) = length rs"
    using assms(2) by (simp_all add: represents_def)
  note sel = select_run_id_represented [OF tables(1), of c key]
  show ?thesis
  proof (cases "key = [] \<or> length key > 128 \<or> \<not> is_object ?plan")
    case True
    then show ?thesis by (simp add: begin_run_def spec_begin_def implements_def Let_def)
  next
    case valid: False
    show ?thesis
    proof (cases "spec_find c key rs")
      case (Some r)
      then have "spec_get c (rn_id r) rs = Some r"
        using assms(2) spec_find_SomeD [OF Some] spec_get_unique by (auto simp: represents_def)
      then show ?thesis
        using valid Some assms(2)
        by (auto simp: begin_run_def spec_begin_def implements_def sel load_represented [OF assms(1,2)]
            ok_or_def Let_def)
    next
      case None
      note append = run_append_ready [OF ready_accepted [OF assms(3), where P = P and fresh = fresh
          and c = c and key = key], of "''accepted''"]
      let ?j = "journaled P ''accepted'' ?r"
      have row: "\<lparr>rr_run_id = fresh, rr_principal = caller_principal c, rr_tenant = caller_tenant c,
          rr_run_key = key, rr_plan_digest = digest_to_string P (of_json P ?plan), rr_version = 0,
          rr_document = document_text P data\<rparr> = row_of P ?j"
        by (simp add: row_of_def)
      have other: "\<not> (caller_principal (rn_caller x) = caller_principal c
          \<and> caller_tenant (rn_caller x) = caller_tenant c \<and> rn_key x = key)" if "x \<in> set rs" for x
        using None that caller_eq [of x c] unfolding spec_find_None by force
      have run: "insert_run (row_of P ?j) db
          = (if fresh \<in> rn_id ` set rs then Inl RunSqlite else Inr (db\<lparr>runs := runs db @ [row_of P ?j]\<rparr>))"
        using other by (auto simp: insert_run_def tables(1) list_ex_iff row_of_def)
      have event: "insert_event P ?j db' = Inr (db'\<lparr>run_journal := run_journal db'
            @ [journal_row_of P fresh (new_event P ''accepted'' ?r)]\<rparr>)"
        if "run_journal db' = run_journal db" "fresh \<notin> rn_id ` set rs" for db'
        using assms(2) that by (auto simp: insert_event_row journal_row_of_def represents_def)
      have ok: "run_ok P ?j" if "\<not> too_large P data" "json_index ?plan ''runKey'' = JStr key"
        using that valid by (intro journaled_ok [OF ready_accepted [OF assms(3)] assms(1)]) simp_all
      show ?thesis
      proof (cases "length rs < 128 \<and> \<not> too_large P data \<and> json_index ?plan ''runKey'' = JStr key
          \<and> fresh \<notin> rn_id ` set rs")
        case True
        have "represents P (db\<lparr>runs := runs db @ [row_of P ?j],
            run_journal := run_journal db @ [journal_row_of P (rn_id ?j) (new_event P ''accepted'' ?r)]\<rparr>) (rs @ [?j])"
          by (rule represents_insert [OF assms(2) ok]) (use True None in simp_all)
        with True valid None show ?thesis
          by (simp add: begin_run_def spec_begin_def implements_def sel append tables row run event Let_def)
      next
        case False
        with valid None show ?thesis
          by (auto simp: begin_run_def spec_begin_def implements_def sel append tables row run event Let_def)
      qed
    qed
  qed
qed

lemma map_at_id:
  assumes "distinct (map rn_id rs)" "r \<in> set rs"
  shows "length (filter (\<lambda>x. rn_id x = rn_id r) rs) = 1"
  using assms by (induction rs) (auto simp: filter_empty_conv image_iff)

lemma fresh_version:
  assumes "run_ok P r" "rn_version r < 512" "e \<in> set (rn_journal r)"
  shows "ev_version e \<noteq> rn_version r + 1"
proof
  have j: "journal_ok P 0 default_digest (rn_journal r)" "length (rn_journal r) = unat (rn_version r) + 1"
    using assms(1) by (auto simp: run_ok_def guard_simps)
  have "unat (rn_version r) < 512" using assms(2) by (simp add: word_less_nat_alt)
  from assms(3) j journal_ok_versions [OF j(1)]
  obtain i where i: "ev_version e = of_nat i" "i \<le> unat (rn_version r)"
    by (metis (no_types, lifting) add_0 atLeastLessThan_iff imageE image_eqI less_Suc_eq_le list.set_map
        set_upt Suc_eq_plus1)
  assume "ev_version e = rn_version r + 1"
  then have "unat (of_nat i :: u64) = unat (rn_version r + 1)" using i(1) by simp
  also have "unat (rn_version r + 1) = unat (rn_version r) + 1"
    using \<open>unat (rn_version r) < 512\<close> by (simp add: unat_word_ariths)
  finally show False using i(2) \<open>unat (rn_version r) < 512\<close> by (simp add: unat_of_nat)
qed

lemma version_room: "v \<le> (512 :: u64) \<Longrightarrow> \<not> 512 < v + 1 \<longleftrightarrow> v < 512"
  by (auto simp: word_less_nat_alt word_le_nat_alt unat_word_ariths)

lemma update_run_represented:
  assumes "represents P db rs" "r \<in> set rs"
  shows "update_run (rn_id r) v (rn_version r) doc db
     = (1, db\<lparr>runs := map (\<lambda>x. if rn_id x = rn_id r then (row_of P x)\<lparr>rr_document := doc, rr_version := v\<rparr>
                                else row_of P x) rs\<rparr>)"
proof -
  have distinct: "distinct (map rn_id rs)" and rows: "runs db = map (row_of P) rs"
    using assms(1) by (simp_all add: represents_def)
  have same: "rn_id x = rn_id r \<and> rn_version x = rn_version r \<longleftrightarrow> rn_id x = rn_id r" if "x \<in> set rs" for x
    using distinct that assms(2) by (auto simp: distinct_map inj_on_def)
  then have "length (filter (\<lambda>x. rn_id x = rn_id r \<and> rn_version x = rn_version r) rs) = 1"
    using map_at_id [OF distinct assms(2)] by (metis (mono_tags, lifting) filter_cong)
  then show ?thesis
    using same by (auto simp: update_run_def rows row_of_def filter_map comp_def)
qed

definition replace_run :: "run_record \<Rightarrow> run_record list \<Rightarrow> run_record list" where
  "replace_run r rs = map (\<lambda>x. if rn_id x = rn_id r then r else x) rs"

lemma represents_update:
  assumes db: "represents P db rs" and r: "r \<in> set rs" and ok: "run_ok P r'"
    and same: "rn_id r' = rn_id r" "rn_caller r' = rn_caller r" "rn_key r' = rn_key r"
      "rn_plan_digest r' = rn_plan_digest r"
    and journal: "rn_journal r' = rn_journal r @ [e]"
  shows "represents P
     (db\<lparr>runs := map (\<lambda>x. if rn_id x = rn_id r
                            then (row_of P x)\<lparr>rr_document := document_text P (rn_data r'), rr_version := rn_version r'\<rparr>
                            else row_of P x) rs,
         run_journal := run_journal db @ [journal_row_of P (rn_id r) e]\<rparr>)
     (replace_run r' rs)"
proof -
  have distinct: "distinct (map rn_id rs)" using db by (simp add: represents_def)
  then have only: "x = r" if "x \<in> set rs" "rn_id x = rn_id r" for x
    using that r by (auto simp: distinct_map inj_on_def)
  let ?entry = "journal_row_of P (rn_id r) e"
  have ids: "map rn_id (replace_run r' rs) = map rn_id rs"
    and keys: "map (\<lambda>r. (rn_caller r, rn_key r)) (replace_run r' rs) = map (\<lambda>r. (rn_caller r, rn_key r)) rs"
    using same by (auto simp: replace_run_def dest: only)
  have rows: "map (\<lambda>x. if rn_id x = rn_id r
      then (row_of P x)\<lparr>rr_document := document_text P (rn_data r'), rr_version := rn_version r'\<rparr>
      else row_of P x) rs = map (row_of P) (replace_run r' rs)"
    using same by (auto simp: replace_run_def row_of_def dest: only)
  have each: "run_ok P x \<and> filter (\<lambda>y. jr_run_id y = rn_id x) (run_journal db @ [?entry])
        = map (journal_row_of P (rn_id x)) (rn_journal x)" if x: "x \<in> set (replace_run r' rs)" for x
  proof (cases "x = r'")
    case True
    have "filter (\<lambda>y. jr_run_id y = rn_id r) (run_journal db) = map (journal_row_of P (rn_id r)) (rn_journal r)"
      using db r by (simp add: represents_def)
    with True show ?thesis using ok same journal by (simp add: journal_row_of_def)
  next
    case False
    with x have "x \<in> set rs" "rn_id x \<noteq> rn_id r"
      using same by (auto simp: replace_run_def split: if_splits)
    with db show ?thesis by (simp add: represents_def journal_row_of_def)
  qed
  have "rn_id ` set (replace_run r' rs) = rn_id ` set rs" using ids by (metis list.set_map)
  then have owned: "\<forall>y \<in> set (run_journal db @ [?entry]). jr_run_id y \<in> rn_id ` set (replace_run r' rs)"
    using db r by (simp add: represents_def journal_row_of_def)
  have "length (replace_run r' rs) = length rs" by (simp add: replace_run_def)
  with ids keys rows each owned db show ?thesis
    unfolding represents_def by simp
qed

text \<open>Advancing a run.\<close>

lemma advance_refines:
  assumes "json_laws P parse" "represents P db rs" "is_value data"
  shows "implements P (advance_run P parse old data kind db) (spec_advance P old data kind rs)"
proof (cases "spec_get (rn_caller old) (rn_id old) rs")
  case None
  then show ?thesis
    by (simp add: advance_run_def spec_advance_def implements_def load_represented [OF assms(1,2)])
next
  case (Some r)
  then have r: "r \<in> set rs" "rn_id r = rn_id old" "rn_caller r = rn_caller old"
    using spec_get_SomeD by auto
  have ok: "run_ok P r"
    and rows: "filter (\<lambda>x. jr_run_id x = rn_id r) (run_journal db) = map (journal_row_of P (rn_id r)) (rn_journal r)"
    using assms(2) r(1) by (auto simp: represents_def)
  let ?n = "r\<lparr>rn_version := rn_version r + 1, rn_data := data\<rparr>"
  let ?j = "journaled P kind ?n"
  note load = load_represented [OF assms(1,2), of "rn_caller old" "rn_id old"]
  have small: "rn_version r \<le> 512" and "is_value (rn_data r)"
    using ok by (auto simp: run_ok_def guard_simps)
  then have plan: "same_json (json_get ''plan'' data) (json_get ''plan'' (rn_data r))
      \<longleftrightarrow> json_get ''plan'' data = json_get ''plan'' (rn_data r)"
    by (intro same_json_value assms(3))
  show ?thesis
  proof (cases "rn_version r = rn_version old \<and> json_get ''plan'' data = json_get ''plan'' (rn_data r)
      \<and> rn_version r < 512 \<and> length kind \<le> 128 \<and> \<not> too_large P data")
    case False
    then show ?thesis
      using Some plan version_room [OF small]
      by (auto simp: advance_run_def spec_advance_def implements_def load run_append_def Let_def ok_or_def
          too_large_def not_less not_le)
  next
    case True
    have ready: "ready P ?n" by (rule ready_next [OF ok assms(3)]) (use True in auto)
    have key: "json_index (json_index (rn_data ?n) ''plan'') ''runKey'' = JStr (rn_key ?n)"
      using ok True by (simp add: run_ok_def guard_simps json_index_def)
    from True have v: "rn_version old = rn_version r"
      and t: "json_get ''plan'' data = json_get ''plan'' (rn_data r)" "rn_version r < 512"
        "length kind \<le> 128" "\<not> too_large P data" by auto
    have room: "\<not> 512 < rn_version r + 1" using t(2) version_room [OF small] by blast
    have append: "run_append P kind ?n = Inr ?j"
      using t key room by (simp add: run_append_ready [OF ready])
    have event: "insert_event P ?j db' = Inr (db'\<lparr>run_journal := run_journal db'
        @ [journal_row_of P (rn_id r) (new_event P kind ?n)]\<rparr>)" if "run_journal db' = run_journal db" for db'
    proof -
      have "jr_version x \<noteq> rn_version r + 1" if "x \<in> set (run_journal db)" "jr_run_id x = rn_id r" for x
      proof -
        have "x \<in> set (filter (\<lambda>x. jr_run_id x = rn_id r) (run_journal db))" using that by simp
        then obtain e where "e \<in> set (rn_journal r)" "x = journal_row_of P (rn_id r) e"
          unfolding rows by auto
        then show ?thesis using fresh_version [OF ok t(2)] by (simp add: journal_row_of_def)
      qed
      then show ?thesis
        using that by (auto simp: insert_event_row journal_row_of_def)
    qed
    have ok_j: "run_ok P ?j"
      using t room by (intro journaled_ok [OF ready assms(1)] key) auto
    note update = update_run_represented [OF assms(2) r(1), of "rn_version r + 1" "document_text P data"]
    have kept: "rn_id ?j = rn_id r" "rn_caller ?j = rn_caller r" "rn_key ?j = rn_key r"
      "rn_plan_digest ?j = rn_plan_digest r" "rn_journal ?j = rn_journal r @ [new_event P kind ?n]"
      by simp_all
    have next_fields: "rn_data ?n = data" "rn_version ?n = rn_version r + 1" by simp_all
    note new = represents_update [OF assms(2) r(1) ok_j kept, unfolded journaled_fields next_fields]
    have "advance_run P parse old data kind db = Inr (?j,
        db\<lparr>runs := map (\<lambda>x. if rn_id x = rn_id r
              then (row_of P x)\<lparr>rr_document := document_text P data, rr_version := rn_version r + 1\<rparr>
              else row_of P x) rs,
           run_journal := run_journal db @ [journal_row_of P (rn_id r) (new_event P kind ?n)]\<rparr>)"
      using Some plan t(1) append event by (simp add: advance_run_def load ok_or_def v update)
    moreover have "spec_advance P old data kind rs = Inr (?j, replace_run ?j rs)"
      using Some t v by (simp add: spec_advance_def replace_run_def Let_def not_le)
    ultimately show ?thesis
      using new by (simp add: implements_def)
  qed
qed

section \<open>Histories of the store\<close>

datatype run_op =
    BeginRun string task_caller string json
  | AdvanceRun run_record json string

fun op_value :: "run_op \<Rightarrow> bool" where
  "op_value (BeginRun fresh c key data) = is_value data"
| "op_value (AdvanceRun old data kind) = is_value data"

fun run_exec :: "platform \<Rightarrow> (string \<Rightarrow> json option) \<Rightarrow> run_op \<Rightarrow> run_db \<Rightarrow> (run_error, run_record \<times> run_db) res" where
  "run_exec P parse (BeginRun fresh c key data) db = begin_run P parse fresh c key data db"
| "run_exec P parse (AdvanceRun old data kind) db = advance_run P parse old data kind db"

text \<open>A failed transaction leaves the tables alone.\<close>

inductive run_history :: "platform \<Rightarrow> (string \<Rightarrow> json option) \<Rightarrow> run_db \<Rightarrow> run_db \<Rightarrow> bool"
  for P :: platform and parse where
  history_refl: "run_history P parse db db"
| history_step: "\<lbrakk>run_history P parse db db'; op_value oper; run_exec P parse oper db' = Inr (r, db'')\<rbrakk>
    \<Longrightarrow> run_history P parse db db''"
| history_fail: "\<lbrakk>run_history P parse db db'; run_exec P parse oper db' = Inl e\<rbrakk> \<Longrightarrow> run_history P parse db db'"

text \<open>How a record may change: identity and plan stay, the journal grows.\<close>

definition run_extends :: "run_record \<Rightarrow> run_record \<Rightarrow> bool" where
  "run_extends r r' \<longleftrightarrow>
     rn_id r' = rn_id r \<and> rn_caller r' = rn_caller r \<and> rn_key r' = rn_key r
     \<and> rn_plan_digest r' = rn_plan_digest r
     \<and> json_get ''plan'' (rn_data r') = json_get ''plan'' (rn_data r)
     \<and> (\<exists>es. rn_journal r' = rn_journal r @ es)"

lemma run_extends_refl: "run_extends r r"
  by (simp add: run_extends_def)

lemma run_extends_trans: "\<lbrakk>run_extends a b; run_extends b c\<rbrakk> \<Longrightarrow> run_extends a c"
  by (auto simp: run_extends_def)

definition all_extend :: "run_record list \<Rightarrow> run_record list \<Rightarrow> bool" where
  "all_extend rs rs' \<longleftrightarrow> (\<forall>r \<in> set rs. \<exists>r' \<in> set rs'. run_extends r r')"

lemma all_extend_refl: "all_extend rs rs"
  using run_extends_refl by (auto simp: all_extend_def)

lemma all_extend_trans: "\<lbrakk>all_extend a b; all_extend b c\<rbrakk> \<Longrightarrow> all_extend a c"
  unfolding all_extend_def using run_extends_trans by blast

lemma spec_begin_extends: "spec_begin P fresh c key data rs = Inr (r, rs') \<Longrightarrow> all_extend rs rs'"
  using all_extend_refl [of rs]
  by (auto simp: spec_begin_def all_extend_def Let_def split: if_splits option.splits)

lemma spec_advance_result:
  "spec_advance P old data kind rs = Inr (r', rs') \<longleftrightarrow>
     (\<exists>r. spec_get (rn_caller old) (rn_id old) rs = Some r \<and> rn_version r = rn_version old
        \<and> json_get ''plan'' data = json_get ''plan'' (rn_data r) \<and> rn_version r < 512
        \<and> length kind \<le> 128 \<and> \<not> too_large P data
        \<and> r' = journaled P kind (r\<lparr>rn_version := rn_version r + 1, rn_data := data\<rparr>)
        \<and> rs' = replace_run r' rs)"
  by (auto simp: spec_advance_def replace_run_def Let_def not_le split: option.splits)

lemma spec_advance_member:
  assumes "spec_advance P old data kind rs = Inr (r', rs')"
  shows "r' \<in> set rs'" "rn_id r' = rn_id old" "rn_caller r' = rn_caller old"
    "rn_version r' = rn_version old + 1" "rn_version old < 512"
proof -
  from assms obtain r where r: "spec_get (rn_caller old) (rn_id old) rs = Some r"
    "rn_version r = rn_version old" "rn_version r < 512"
    "r' = journaled P kind (r\<lparr>rn_version := rn_version r + 1, rn_data := data\<rparr>)" "rs' = replace_run r' rs"
    unfolding spec_advance_result by blast
  have member: "r \<in> set rs" using spec_get_SomeD [OF r(1)] by simp
  have "rn_id r' = rn_id r" by (simp add: r(4))
  then show "r' \<in> set rs'" unfolding r(5) replace_run_def using member by force
  show "rn_id r' = rn_id old" "rn_caller r' = rn_caller old" using spec_get_SomeD [OF r(1)] by (simp_all add: r(4))
  show "rn_version r' = rn_version old + 1" "rn_version old < 512" using r(2,3) by (simp_all add: r(4))
qed

lemma spec_advance_extends:
  assumes "distinct (map rn_id rs)" "spec_advance P old data kind rs = Inr (r', rs')"
  shows "all_extend rs rs'"
proof -
  from assms(2) obtain r where r: "spec_get (rn_caller old) (rn_id old) rs = Some r"
    "json_get ''plan'' data = json_get ''plan'' (rn_data r)"
    and r': "r' = journaled P kind (r\<lparr>rn_version := rn_version r + 1, rn_data := data\<rparr>)"
    "rs' = replace_run r' rs"
    unfolding spec_advance_result by blast
  have "r \<in> set rs" using spec_get_SomeD [OF r(1)] by simp
  then have only: "x = r" if "x \<in> set rs" "rn_id x = rn_id r" for x
    using assms(1) that by (auto simp: distinct_map inj_on_def)
  have "run_extends r r'" using r by (simp add: run_extends_def r'(1))
  moreover have "r' \<in> set rs'" using \<open>r \<in> set rs\<close> by (auto simp: r' replace_run_def)
  moreover have "x \<in> set rs'" if "x \<in> set rs" "x \<noteq> r" for x
    using that only by (auto simp: r' replace_run_def image_iff)
  ultimately show ?thesis
    unfolding all_extend_def using run_extends_refl by metis
qed

lemma run_op_refines:
  assumes "json_laws P parse" "represents P db rs" "op_value oper" "run_exec P parse oper db = Inr (r, db')"
  obtains rs' where "represents P db' rs'" "all_extend rs rs'" "r \<in> set rs'"
proof (cases oper)
  case (BeginRun fresh c key data)
  with assms begin_refines [OF assms(1,2), of data fresh c key] obtain rs'
    where "spec_begin P fresh c key data rs = Inr (r, rs')" "represents P db' rs'"
    by (auto simp: implements_def split: sum.splits)
  moreover from this(1) have "r \<in> set rs'"
    by (auto simp: spec_begin_def Let_def dest: spec_find_SomeD split: if_splits option.splits)
  ultimately show ?thesis using that spec_begin_extends by blast
next
  case (AdvanceRun old data kind)
  with assms advance_refines [OF assms(1,2), of data old kind] obtain rs'
    where s: "spec_advance P old data kind rs = Inr (r, rs')" "represents P db' rs'"
    by (auto simp: implements_def split: sum.splits)
  moreover from spec_advance_member(1) [OF s(1)] have "r \<in> set rs'" .
  ultimately show ?thesis
    using that spec_advance_extends assms(2) by (auto simp: represents_def)
qed

lemma history_refines:
  assumes "run_history P parse db db'" "json_laws P parse" "represents P db rs"
  shows "\<exists>rs'. represents P db' rs' \<and> all_extend rs rs'"
  using assms
proof (induction rule: run_history.induct)
  case (history_refl db)
  then show ?case using all_extend_refl by blast
next
  case (history_step db db' oper r db'')
  then obtain rs' where rs': "represents P db' rs'" "all_extend rs rs'" by blast
  with history_step run_op_refines obtain rs'' where "represents P db'' rs''" "all_extend rs' rs''" by metis
  with rs'(2) all_extend_trans show ?case by blast
qed blast

lemma represents_empty: "represents P run_db_empty []"
  by (simp add: represents_def run_db_empty_def)

lemma represented_get:
  "\<lbrakk>json_laws P parse; represents P db rs; get_run P parse c i db = Inr (Some r)\<rbrakk>
     \<Longrightarrow> r \<in> set rs \<and> rn_id r = i \<and> rn_caller r = c"
  using load_represented spec_get_SomeD by (fastforce simp: get_run_def)

lemma represented_found:
  assumes "json_laws P parse" "represents P db rs" "r \<in> set rs"
  shows "get_run P parse (rn_caller r) (rn_id r) db = Inr (Some r)"
  using assms load_represented [OF assms(1,2)] spec_get_unique [OF _ assms(3)]
  by (simp add: get_run_def represents_def)

lemma advance_stale:
  assumes "json_laws P parse" "represents P db rs" "r \<in> set rs"
    and "rn_caller old = rn_caller r" "rn_id old = rn_id r" "rn_version old \<noteq> rn_version r"
  shows "advance_run P parse old data kind db = Inl (RunInvalid ''GM_RUN_STALE_DRIVER'')"
  using assms represented_found [OF assms(1-3)]
  by (simp add: advance_run_def get_run_def)

section \<open>The journal as a hash chain\<close>

definition event_doc :: "platform \<Rightarrow> run_event \<Rightarrow> json" where
  "event_doc P e =
     JObj [(''version'', u64_json (ev_version e)), (''kind'', JStr (ev_kind e)),
           (''stateSha256'', digest_json P (ev_state e)), (''previousSha256'', digest_json P (ev_previous e))]"

lemma event_digest_doc: "event_digest P e = of_json P (event_doc P e)"
  by (simp add: event_digest_def event_doc_def)

lemma canonical_event_doc:
  "canonical_json (event_doc P e) =
     JObj [(''kind'', JStr (ev_kind e)), (''previousSha256'', digest_json P (ev_previous e)),
           (''stateSha256'', digest_json P (ev_state e)), (''version'', u64_json (ev_version e))]"
  by (simp add: event_doc_def btree_collect_def less_char_def)

lemma digest_json_inject: "hex_roundtrip P \<Longrightarrow> digest_json P x = digest_json P y \<longleftrightarrow> x = y"
  using digest_to_string_inject by (auto simp: digest_json_def)

lemma canonical_state_json:
  "canonical_json (state_json P r) =
     JObj [(''caller'', caller_json (rn_caller r)), (''data'', canonical_json (rn_data r)),
           (''planSha256'', digest_json P (rn_plan_digest r)), (''runId'', JStr (rn_id r)),
           (''runKey'', JStr (rn_key r)), (''schemaVersion'', JStr (rn_schema r)),
           (''version'', u64_json (rn_version r))]"
  by (simp add: state_json_def btree_collect_def less_char_def)

text \<open>Two documents among those the two journals hash that collide.\<close>

definition journal_collision :: "platform \<Rightarrow> run_event list \<Rightarrow> run_event list \<Rightarrow> bool" where
  "journal_collision P es fs \<longleftrightarrow>
     (\<exists>e \<in> set es. \<exists>f \<in> set fs. doc_collision P (event_doc P e) (event_doc P f))"

lemma journal_length_version:
  "\<lbrakk>journal_ok P 0 prev (es @ [e])\<rbrakk> \<Longrightarrow> ev_version e = of_nat (length es)"
  by (simp add: journal_ok_snoc)

lemma tip_equal:
  assumes "hex_roundtrip P" "journal_ok P 0 default_digest (es @ [e])" "journal_ok P 0 default_digest (fs @ [f])"
    and "length es \<le> 512" "length fs \<le> 512" "ev_event e = ev_event f"
  shows "e = f \<and> length es = length fs \<or> doc_collision P (event_doc P e) (event_doc P f)"
proof -
  have "event_digest P e = ev_event e" "event_digest P f = ev_event f"
    using assms(2,3) by (simp_all add: journal_ok_snoc)
  then have "of_json P (event_doc P e) = of_json P (event_doc P f)"
    using assms(6) by (simp add: event_digest_doc)
  from of_json_eq [OF this] show ?thesis
  proof
    assume "canonical_json (event_doc P e) = canonical_json (event_doc P f)"
    then have same: "e = f"
      using assms(6)
      by (auto simp: canonical_event_doc digest_json_inject [OF assms(1)] intro: run_event.equality)
    then have "(of_nat (length es) :: u64) = of_nat (length fs)"
      using journal_length_version [OF assms(2)] journal_length_version [OF assms(3)] by simp
    then have "unat (of_nat (length es) :: u64) = unat (of_nat (length fs) :: u64)" by simp
    then have "length es = length fs" using assms(4,5) by (simp add: unat_of_nat)
    with same show ?thesis by simp
  qed simp
qed

lemma chain_tip:
  assumes "hex_roundtrip P" "journal_ok P 0 default_digest (es @ [e])" "journal_ok P 0 default_digest (fs @ [f])"
    and "length es \<le> 512" "length fs \<le> 512" "ev_event e = ev_event f"
  shows "es @ [e] = fs @ [f] \<or> journal_collision P (es @ [e]) (fs @ [f])"
  using assms(2-)
proof (induction es arbitrary: e fs f rule: rev_induct)
  case Nil
  from tip_equal [OF assms(1) Nil] show ?case by (auto simp: journal_collision_def)
next
  case (snoc e' es)
  from tip_equal [OF assms(1) snoc.prems] show ?case
  proof
    assume same: "e = f \<and> length (es @ [e']) = length fs"
    then obtain f' fs' where fs: "fs = fs' @ [f']" by (cases fs rule: rev_cases) auto
    have "ev_event e' = ev_event f'" "journal_ok P 0 default_digest (es @ [e'])"
      "journal_ok P 0 default_digest (fs' @ [f'])"
      using snoc.prems(1) [unfolded journal_ok_snoc [of P 0 default_digest "es @ [e']" e]] same
        snoc.prems(2) [unfolded fs journal_ok_snoc [of P 0 default_digest "fs' @ [f']" f]]
      by (simp_all del: append_assoc)
    with snoc.IH snoc.prems(3,4) have "es @ [e'] = fs' @ [f'] \<or> journal_collision P (es @ [e']) (fs' @ [f'])"
      unfolding fs by simp
    then show ?thesis using same unfolding fs by (auto simp: journal_collision_def)
  qed (auto simp: journal_collision_def)
qed

section \<open>Properties\<close>

text \<open>
  C22: Over tables that represent a list of run records, every operation returns what the
  specification over that list returns, error for error, and leaves tables that represent the new
  list: the journal table, the version column and the serialized document stay consistent.
\<close>

theorem run_store_refines:
  assumes "json_laws P parse" "represents P db rs" "is_value data"
  shows "get_run P parse c i db = Inr (spec_get c i rs)
    \<and> find_run P parse c key db = Inr (spec_find c key rs)
    \<and> implements P (begin_run P parse fresh c key data db) (spec_begin P fresh c key data rs)
    \<and> implements P (advance_run P parse old data kind db) (spec_advance P old data kind rs)"
proof (intro conjI)
  show "get_run P parse c i db = Inr (spec_get c i rs)"
    using load_represented [OF assms(1,2)] by (simp add: get_run_def)
  have "runs db = map (row_of P) rs" using assms(2) by (simp add: represents_def)
  note sel = select_run_id_represented [OF this, of c key]
  show "find_run P parse c key db = Inr (spec_find c key rs)"
  proof (cases "spec_find c key rs")
    case (Some r)
    then have "spec_get c (rn_id r) rs = Some r"
      using spec_find_SomeD [OF Some] spec_get_unique assms(2) by (auto simp: represents_def)
    with Some show ?thesis by (simp add: find_run_def sel load_represented [OF assms(1,2)])
  qed (simp add: find_run_def sel)
qed (fact begin_refines [OF assms] advance_refines [OF assms])+

text \<open>
  C23: Whatever later transactions succeed or fail, a stored run can be read back by its caller
  with the same plan, key and identity, with its journal extended only at the end, and at most 128
  runs are ever stored.
\<close>

theorem run_history_append_only:
  assumes "json_laws P parse" "run_history P parse run_db_empty db"
    and "get_run P parse c i db = Inr (Some r)" "run_history P parse db db'"
  shows "(\<exists>r'. get_run P parse c i db' = Inr (Some r') \<and> run_extends r r') \<and> length (runs db') \<le> 128"
proof -
  obtain rs where rs: "represents P db rs"
    using history_refines [OF assms(2,1) represents_empty] by blast
  note r = represented_get [OF assms(1) rs assms(3)]
  obtain rs' where rs': "represents P db' rs'" "all_extend rs rs'"
    using history_refines [OF assms(4,1) rs] by blast
  then obtain r' where r': "r' \<in> set rs'" "run_extends r r'" using r by (auto simp: all_extend_def)
  then have "get_run P parse c i db' = Inr (Some r')"
    using represented_found [OF assms(1) rs'(1) r'(1)] r by (simp add: run_extends_def)
  with r'(2) rs'(1) show ?thesis by (auto simp: represents_def)
qed

text \<open>
  A driver advances a run at most once from a version: when an advance succeeds, every later
  advance from the same old record, after any further transactions, is refused as stale.
\<close>

theorem run_advance_once:
  assumes "json_laws P parse" "run_history P parse run_db_empty db" "is_value data"
    and "advance_run P parse old data kind db = Inr (r, db1)" "run_history P parse db1 db2"
  shows "advance_run P parse old data' kind' db2 = Inl (RunInvalid ''GM_RUN_STALE_DRIVER'')
    \<and> rn_version r = rn_version old + 1"
proof -
  obtain rs where rs: "represents P db rs"
    using history_refines [OF assms(2,1) represents_empty] by blast
  obtain rs1 where rs1: "spec_advance P old data kind rs = Inr (r, rs1)" "represents P db1 rs1"
    using advance_refines [OF assms(1) rs assms(3), of old kind] assms(4)
    by (auto simp: implements_def split: sum.splits)
  note r = spec_advance_member [OF rs1(1)]
  obtain rs2 where rs2: "represents P db2 rs2" "all_extend rs1 rs2"
    using history_refines [OF assms(5,1) rs1(2)] by blast
  then obtain r2 where r2: "r2 \<in> set rs2" "run_extends r r2" using r by (auto simp: all_extend_def)
  have "run_ok P r" "run_ok P r2" using rs1(2) rs2(1) r(1) r2(1) by (auto simp: represents_def)
  then have "length (rn_journal r) = unat (rn_version r) + 1" "length (rn_journal r2) = unat (rn_version r2) + 1"
    by (auto simp: run_ok_def guard_simps)
  then have "unat (rn_version r) \<le> unat (rn_version r2)" using r2(2) by (auto simp: run_extends_def)
  moreover have "unat (rn_version r) = unat (rn_version old) + 1"
    using r(4,5) by (simp add: word_less_nat_alt unat_word_ariths)
  ultimately have "rn_version old \<noteq> rn_version r2" by auto
  then show ?thesis
    using advance_stale [OF assms(1) rs2(1) r2(1)] r r2(2) by (simp add: run_extends_def)
qed

text \<open>
  The journal is a hash chain: two intact records whose last events have the same digest have
  the same journal and the same contents, unless two documents at hand collide under SHA-256. So a
  record cannot be changed anywhere, the past included, without changing its last event digest.
\<close>

theorem run_tip_binds_history:
  assumes "hex_roundtrip P" "run_verify P a = Inr ()" "run_verify P b = Inr ()"
    and "ev_event (last (rn_journal a)) = ev_event (last (rn_journal b))"
  shows "a\<lparr>rn_data := canonical_json (rn_data a)\<rparr> = b\<lparr>rn_data := canonical_json (rn_data b)\<rparr>
    \<or> journal_collision P (rn_journal a) (rn_journal b)
    \<or> doc_collision P (state_json P a) (state_json P b)"
proof -
  note va = assms(2) [unfolded run_verify_Inr] and vb = assms(3) [unfolded run_verify_Inr]
  obtain es e where a: "rn_journal a = es @ [e]" using va by (cases "rn_journal a" rule: rev_cases) auto
  obtain fs f where b: "rn_journal b = fs @ [f]" using vb by (cases "rn_journal b" rule: rev_cases) auto
  have "length es \<le> 512" "length fs \<le> 512"
    using va vb unat_512 [of "rn_version a"] unat_512 [of "rn_version b"] by (auto simp: a b)
  then have "rn_journal a = rn_journal b \<or> journal_collision P (rn_journal a) (rn_journal b)"
    using chain_tip [OF assms(1), of es e fs f] va vb assms(4) by (auto simp: a b)
  moreover have "of_json P (state_json P a) = of_json P (state_json P b)" if "rn_journal a = rn_journal b"
    using va vb that by (simp add: state_digest_def)
  moreover have "a\<lparr>rn_data := canonical_json (rn_data a)\<rparr> = b\<lparr>rn_data := canonical_json (rn_data b)\<rparr>"
    if "rn_journal a = rn_journal b" "canonical_json (state_json P a) = canonical_json (state_json P b)"
    using that by (auto simp: canonical_state_json digest_json_inject [OF assms(1)] intro: run_record.equality)
  ultimately show ?thesis using of_json_eq by blast
qed

section \<open>Concrete inputs\<close>

definition sample_caller :: task_caller where
  "sample_caller = \<lparr>caller_principal = ''alice'', caller_tenant = ''acme''\<rparr>"

definition sample_run_data :: json where
  "sample_run_data = JObj [(''plan'', JObj [(''runKey'', JStr ''k'')])]"

definition sample_run :: run_record where
  "sample_run = journaled codec_platform ''accepted''
     (accepted_run codec_platform ''gmr_1'' sample_caller ''k'' sample_run_data)"

lemma sample_value: "is_value sample_run_data" "\<not> too_large codec_platform sample_run_data"
  by (simp_all add: is_value_def sample_run_data_def btree_collect_def too_large_def document_text_def
      codec_platform_def MAX_RUN_DOCUMENT_def)

lemma sample_spec_begin:
  "spec_begin codec_platform ''gmr_1'' sample_caller ''k'' sample_run_data [] = Inr (sample_run, [sample_run])"
  using sample_value(2)
  by (simp add: spec_begin_def spec_find_def sample_run_def sample_run_data_def json_index_def Let_def)

lemma sample_run_begin:
  obtains db where "begin_run codec_platform parse_sample ''gmr_1'' sample_caller ''k'' sample_run_data run_db_empty
      = Inr (sample_run, db)" "represents codec_platform db [sample_run]"
  using begin_refines [OF codec_laws represents_empty sample_value(1), of "''gmr_1''" sample_caller "''k''"]
  by (auto simp: implements_def sample_spec_begin split: sum.splits)

definition sample_step :: run_record where
  "sample_step = journaled codec_platform ''step''
     (sample_run\<lparr>rn_version := rn_version sample_run + 1, rn_data := sample_run_data\<rparr>)"

lemma sample_spec_advance:
  "spec_advance codec_platform sample_run sample_run_data ''step'' [sample_run]
   = Inr (sample_step, [sample_step])"
proof -
  have "rn_version sample_run = 0" "rn_data sample_run = sample_run_data"
    by (simp_all add: sample_run_def)
  then show ?thesis
    using sample_value(2) by (simp add: spec_advance_def spec_get_def sample_step_def Let_def)
qed

lemma sample_run_history:
  obtains db where "run_history codec_platform parse_sample run_db_empty db"
    "represents codec_platform db [sample_run]"
  using sample_run_begin history_step [OF history_refl, of "BeginRun ''gmr_1'' sample_caller ''k'' sample_run_data"]
    sample_value(1) by (metis op_value.simps(1) run_exec.simps(1))

theorem run_store_refines_witness:
  "implements codec_platform
     (begin_run codec_platform parse_sample ''gmr_1'' sample_caller ''k'' sample_run_data run_db_empty)
     (Inr (sample_run, [sample_run]))"
  using run_store_refines [OF codec_laws represents_empty sample_value(1),
      where c = sample_caller and key = "''k''" and fresh = "''gmr_1''"]
  by (simp add: sample_spec_begin)

theorem run_history_append_only_witness:
  "\<exists>db r'. get_run codec_platform parse_sample sample_caller ''gmr_1'' db = Inr (Some r')
     \<and> run_extends sample_run r'"
proof -
  obtain db where db: "run_history codec_platform parse_sample run_db_empty db"
    "represents codec_platform db [sample_run]" by (rule sample_run_history)
  have "get_run codec_platform parse_sample sample_caller ''gmr_1'' db = Inr (Some sample_run)"
    using represented_found [OF codec_laws db(2), of sample_run] by (simp add: sample_run_def)
  from run_history_append_only [OF codec_laws db(1) this history_refl] show ?thesis by blast
qed

theorem run_advance_once_witness:
  "\<exists>db1. advance_run codec_platform parse_sample sample_run sample_run_data ''again'' db1
     = Inl (RunInvalid ''GM_RUN_STALE_DRIVER'')"
proof -
  obtain db where db: "run_history codec_platform parse_sample run_db_empty db"
    "represents codec_platform db [sample_run]" by (rule sample_run_history)
  obtain r db1 where "advance_run codec_platform parse_sample sample_run sample_run_data ''step'' db = Inr (r, db1)"
    using advance_refines [OF codec_laws db(2) sample_value(1), of sample_run "''step''"]
    by (auto simp: implements_def sample_spec_advance split: sum.splits)
  from run_advance_once [OF codec_laws db(1) sample_value(1) this history_refl] show ?thesis by blast
qed

theorem run_tip_binds_history_witness:
  "sample_run\<lparr>rn_data := canonical_json (rn_data sample_run)\<rparr> = sample_run
   \<or> (\<exists>d d'. doc_collision codec_platform d d')"
proof -
  obtain db where "represents codec_platform db [sample_run]" by (rule sample_run_history)
  then have "run_verify codec_platform sample_run = Inr ()" "is_value (rn_data sample_run)"
    by (auto simp: represents_def run_ok_def)
  moreover have "hex_roundtrip codec_platform" using codec_laws by (simp add: json_laws_def)
  ultimately show ?thesis
    using run_tip_binds_history [of codec_platform sample_run sample_run]
    by (auto simp: is_value_def journal_collision_def)
qed

end
