(* ===== verification/Sqlite.thy ===== *)
theory Sqlite
  imports Storage Codec
begin

text \<open>
  Models the SQLite half of \<open>crates/gaugemesh-core/src/storage.rs\<close>: the table \<open>task_routes\<close> with
  its indexed columns and the serialized record, and the table \<open>leases\<close>. A table is the list of
  its rows and every SQL statement is a definition over them, with the constraints the table
  declares; a transaction that ends in an error leaves the table as it was. The derived
  deserializers and \<open>serde_json::from_str\<close> are arguments. The main result is that the SQLite and the
  in-memory storage give the same answers.
\<close>

section \<open>Rows\<close>

text \<open>Columns are 64-bit signed integers in SQLite, \<open>int\<close> here.\<close>

record route_row =
  rt_public :: string
  rt_principal :: string
  rt_tenant :: string
  rt_key :: "string option"
  rt_request :: string
  rt_source :: string
  rt_upstream :: "string option"
  rt_phase :: string
  rt_created :: int
  rt_updated :: int
  rt_ttl :: int
  rt_expires :: int
  rt_version :: int
  rt_schema :: int
  rt_integrity :: string
  rt_document :: string

type_synonym route_table = "route_row list"

record route_serde =
  parse_json :: "string \<Rightarrow> json option"
  decode_route :: "json \<Rightarrow> task_route option"

definition to_sqlite_integer :: "u64 \<Rightarrow> (task_storage_error, int) res" where
  "to_sqlite_integer v = (if unat v < 2 ^ 63 then Inr (uint v) else Inl TaskRouteIntegrity)"

definition from_sqlite_integer :: "int \<Rightarrow> (task_storage_error, u64) res" where
  "from_sqlite_integer i = (if 0 \<le> i then Inr (word_of_int i) else Inl TaskRouteIntegrity)"

text \<open>The derived \<open>Serialize\<close> of the record, its fields in order.\<close>

definition route_json :: "platform \<Rightarrow> task_route \<Rightarrow> json" where
  "route_json P r =
     JObj ([(''schema_version'', u16_json (tr_schema_version r)),
            (''public_task_id'', JStr (tr_public_id r)),
            (''caller'', caller_json (tr_caller r)),
            (''idempotency_key'', opt_json JStr (tr_idempotency_key r)),
            (''request_digest'', digest_json P (tr_request_digest r)),
            (''submission_binding'', tr_binding r),
            (''capability'', capability_json P (tr_capability r)),
            (''capability_source'', JStr (tr_source r)),
            (''upstream_session_id'', JStr (tr_session r)),
            (''upstream_task_id'', opt_json JStr (tr_upstream r)),
            (''dispatch_owner_id'', opt_json JStr (tr_owner r)),
            (''phase'', JStr (phase_name (tr_phase r))),
            (''created_at_unix_ms'', u64_json (tr_created r)),
            (''updated_at_unix_ms'', u64_json (tr_updated r)),
            (''ttl_ms'', u64_json (tr_ttl r)),
            (''expires_at_unix_ms'', u64_json (tr_expires r)),
            (''transition_version'', u64_json (tr_version r)),
            (''cached_terminal_state'', opt_json (\<lambda>v. v) (tr_cached r)),
            (''integrity_digest'', digest_json P (tr_integrity r))])"

definition route_document :: "platform \<Rightarrow> task_route \<Rightarrow> string" where
  "route_document P r = json_to_vec P (route_json P r)"

definition digest_column :: "platform \<Rightarrow> string \<Rightarrow> (task_storage_error, sha256_digest) res" where
  "digest_column P s = map_err (\<lambda>_. TaskRouteIntegrity) (digest_from_str P s)"

definition decode_task_route ::
  "platform \<Rightarrow> route_serde \<Rightarrow> route_row \<Rightarrow> (task_storage_error, task_route) res" where
  "decode_task_route P S row =
     rbind (ok_or (Option.bind (parse_json S (rt_document row)) (decode_route S)) StorageJson) (\<lambda>r.
     rbind (verified P r) (\<lambda>_.
     rbind (digest_column P (rt_request row)) (\<lambda>request.
     rbind (digest_column P (rt_integrity row)) (\<lambda>integrity.
     if rt_public row = tr_public_id r \<and> rt_principal row = caller_principal (tr_caller r)
        \<and> rt_tenant row = caller_tenant (tr_caller r) \<and> rt_key row = tr_idempotency_key r
        \<and> request = tr_request_digest r \<and> rt_source row = tr_source r
        \<and> rt_upstream row = tr_upstream r \<and> rt_phase row = phase_name (tr_phase r)
        \<and> from_sqlite_integer (rt_created row) = Inr (tr_created r)
        \<and> from_sqlite_integer (rt_updated row) = Inr (tr_updated r)
        \<and> from_sqlite_integer (rt_ttl row) = Inr (tr_ttl r)
        \<and> from_sqlite_integer (rt_expires row) = Inr (tr_expires r)
        \<and> from_sqlite_integer (rt_version row) = Inr (tr_version r)
        \<and> rt_schema row = uint (tr_schema_version r) \<and> integrity = tr_integrity r
     then Inr r else Inl TaskRouteIntegrity))))"

section \<open>Statements\<close>

text \<open>\<open>query_row\<close> takes the first row; both queries are by unique keys.\<close>

definition decoded ::
  "platform \<Rightarrow> route_serde \<Rightarrow> route_row option \<Rightarrow> (task_storage_error, task_route option) res" where
  "decoded P S row =
     (case row of None \<Rightarrow> Inr None | Some x \<Rightarrow> rbind (decode_task_route P S x) (\<lambda>r. Inr (Some r)))"

definition select_by_public_id ::
  "platform \<Rightarrow> route_serde \<Rightarrow> task_caller \<Rightarrow> public_task_id \<Rightarrow> route_table
   \<Rightarrow> (task_storage_error, task_route option) res" where
  "select_by_public_id P S c i db =
     decoded P S (find (\<lambda>row. rt_public row = i \<and> rt_principal row = caller_principal c
                              \<and> rt_tenant row = caller_tenant c) db)"

definition select_by_idempotency ::
  "platform \<Rightarrow> route_serde \<Rightarrow> task_caller \<Rightarrow> idempotency_key \<Rightarrow> route_table
   \<Rightarrow> (task_storage_error, task_route option) res" where
  "select_by_idempotency P S c k db =
     decoded P S (find (\<lambda>row. rt_principal row = caller_principal c \<and> rt_tenant row = caller_tenant c
                              \<and> rt_key row = Some k) db)"

definition phase_names :: "string list" where
  "phase_names = [''prepared'', ''dispatching'', ''routed'', ''terminal'', ''reconciliation_required'',
                  ''cancel_requested'']"

text \<open>The \<open>CHECK\<close> clauses, the primary key and the partial unique index.\<close>

definition row_checks :: "route_row \<Rightarrow> bool" where
  "row_checks row \<longleftrightarrow> rt_phase row \<in> set phase_names \<and> rt_created row \<ge> 0 \<and> rt_updated row \<ge> 0
     \<and> rt_ttl row > 0 \<and> rt_expires row \<ge> 0 \<and> rt_version row \<ge> 0 \<and> rt_schema row > 0"

definition insert_row :: "route_row \<Rightarrow> route_table \<Rightarrow> (task_storage_error, route_table) res" where
  "insert_row row db =
     (if \<not> row_checks row
         \<or> list_ex (\<lambda>x. rt_public x = rt_public row
              \<or> rt_key row \<noteq> None \<and> rt_principal x = rt_principal row \<and> rt_tenant x = rt_tenant row
                \<and> rt_key x = rt_key row) db
      then Inl StorageSqlite else Inr (db @ [row]))"

text \<open>\<open>to_sqlite_integer\<close> of each integer column, in order, then the row.\<close>

definition stored_row ::
  "platform \<Rightarrow> task_route \<Rightarrow> (task_storage_error, route_row) res" where
  "stored_row P r =
     rbind (to_sqlite_integer (tr_created r)) (\<lambda>created.
     rbind (to_sqlite_integer (tr_updated r)) (\<lambda>updated.
     rbind (to_sqlite_integer (tr_ttl r)) (\<lambda>ttl.
     rbind (to_sqlite_integer (tr_expires r)) (\<lambda>expires.
     rbind (to_sqlite_integer (tr_version r)) (\<lambda>version.
       Inr \<lparr>rt_public = tr_public_id r, rt_principal = caller_principal (tr_caller r),
            rt_tenant = caller_tenant (tr_caller r), rt_key = tr_idempotency_key r,
            rt_request = digest_to_string P (tr_request_digest r), rt_source = tr_source r,
            rt_upstream = tr_upstream r, rt_phase = phase_name (tr_phase r), rt_created = created,
            rt_updated = updated, rt_ttl = ttl, rt_expires = expires, rt_version = version,
            rt_schema = uint (tr_schema_version r),
            rt_integrity = digest_to_string P (tr_integrity r),
            rt_document = route_document P r\<rparr>)))))"

section \<open>Operations\<close>

definition sql_find ::
  "platform \<Rightarrow> route_serde \<Rightarrow> task_caller \<Rightarrow> idempotency_key \<Rightarrow> route_table
   \<Rightarrow> (task_storage_error, task_route option) res" where
  "sql_find P S c k db = select_by_idempotency P S c k db"

definition sql_get ::
  "platform \<Rightarrow> route_serde \<Rightarrow> task_caller \<Rightarrow> public_task_id \<Rightarrow> route_table
   \<Rightarrow> (task_storage_error, task_route option) res" where
  "sql_get P S c i db = select_by_public_id P S c i db"

text \<open>The statements after the idempotency lookup.\<close>

definition sql_insert ::
  "platform \<Rightarrow> task_route \<Rightarrow> route_table \<Rightarrow> (task_storage_error, begin_result \<times> route_table) res" where
  "sql_insert P r db =
     (if list_ex (\<lambda>x. rt_public x = tr_public_id r) db then Inl PublicTaskIdCollision
      else
        rbind (to_sqlite_integer (tr_created r)) (\<lambda>created.
        let active = length (filter (\<lambda>x. rt_principal x = caller_principal (tr_caller r)
                                         \<and> rt_tenant x = caller_tenant (tr_caller r)
                                         \<and> rt_expires x > created) db) in
        if length db \<ge> MAX_STORED_TASK_ROUTES \<or> active \<ge> MAX_ACTIVE_TASK_ROUTES_PER_CALLER
        then Inl TaskRouteCapacity
        else
          rbind (stored_row P r) (\<lambda>row.
          rbind (insert_row row db) (\<lambda>db. Inr (Inserted r, db)))))"

definition sql_transaction ::
  "platform \<Rightarrow> route_serde \<Rightarrow> task_route \<Rightarrow> route_table
   \<Rightarrow> (task_storage_error, begin_result \<times> route_table) res" where
  "sql_transaction P S r db =
     rbind (map_err StorageTaskRoute (verify_prepared_for_begin P r)) (\<lambda>_.
     case tr_idempotency_key r of
       None \<Rightarrow> sql_insert P r db
     | Some k \<Rightarrow>
         rbind (select_by_idempotency P S (tr_caller r) k db) (\<lambda>found.
         case found of
           None \<Rightarrow> sql_insert P r db
         | Some existing \<Rightarrow>
             if is_expired existing (tr_created r) then
               let gone = (\<lambda>x. rt_public x = tr_public_id existing
                     \<and> rt_principal x = caller_principal (tr_caller existing)
                     \<and> rt_tenant x = caller_tenant (tr_caller existing) \<and> rt_key x = Some k) in
               if length (filter gone db) \<noteq> 1 then Inl TaskRouteIntegrity
               else sql_insert P r (filter (\<lambda>x. \<not> gone x) db)
             else if tr_request_digest existing \<noteq> tr_request_digest r then Inl IdempotencyConflict
             else Inr (Existing existing, db)))"

text \<open>A transaction commits its table or is rolled back.\<close>

definition committed :: "('e, 'a \<times> 's) res \<Rightarrow> 's \<Rightarrow> ('e, 'a) res \<times> 's" where
  "committed res s = (case res of Inl e \<Rightarrow> (Inl e, s) | Inr (a, s') \<Rightarrow> (Inr a, s'))"

definition sql_begin ::
  "platform \<Rightarrow> route_serde \<Rightarrow> task_route \<Rightarrow> route_table
   \<Rightarrow> (task_storage_error, begin_result) res \<times> route_table" where
  "sql_begin P S r db = committed (sql_transaction P S r db) db"

text \<open>The \<open>UPDATE\<close> of \<open>compare_and_set_task_route\<close>: how many rows it changes, and the table.\<close>

definition update_rows ::
  "(route_row \<Rightarrow> bool) \<Rightarrow> (route_row \<Rightarrow> route_row) \<Rightarrow> route_table \<Rightarrow> nat \<times> route_table" where
  "update_rows q f db = (length (filter q db), map (\<lambda>x. if q x then f x else x) db)"

definition sql_update ::
  "platform \<Rightarrow> route_serde \<Rightarrow> task_caller \<Rightarrow> public_task_id \<Rightarrow> u64 \<Rightarrow> task_update \<Rightarrow> route_table
   \<Rightarrow> (task_storage_error, task_route option \<times> route_table) res" where
  "sql_update P S c i version u db =
     rbind (select_by_public_id P S c i db) (\<lambda>found.
     case found of
       None \<Rightarrow> Inr (None, db)
     | Some current \<Rightarrow>
         if tr_version current \<noteq> version then Inl StaleTransition
         else
           rbind (map_err StorageTaskRoute (transition P current u)) (\<lambda>nxt.
           rbind (to_sqlite_integer (tr_updated nxt)) (\<lambda>updated.
           rbind (to_sqlite_integer (tr_version nxt)) (\<lambda>next_version.
           rbind (to_sqlite_integer version) (\<lambda>expected.
           let (changed, db') = update_rows
                 (\<lambda>x. rt_public x = tr_public_id nxt \<and> rt_principal x = caller_principal (tr_caller nxt)
                      \<and> rt_tenant x = caller_tenant (tr_caller nxt) \<and> rt_version x = expected)
                 (\<lambda>x. x\<lparr>rt_upstream := tr_upstream nxt, rt_phase := phase_name (tr_phase nxt),
                        rt_updated := updated, rt_version := next_version,
                        rt_integrity := digest_to_string P (tr_integrity nxt),
                        rt_document := route_document P nxt\<rparr>) db in
           if changed \<noteq> 1 then Inl StaleTransition else Inr (Some nxt, db'))))))"

definition sql_cas ::
  "platform \<Rightarrow> route_serde \<Rightarrow> task_caller \<Rightarrow> public_task_id \<Rightarrow> u64 \<Rightarrow> task_update \<Rightarrow> route_table
   \<Rightarrow> (task_storage_error, task_route option) res \<times> route_table" where
  "sql_cas P S c i version u db = committed (sql_update P S c i version u db) db"

text \<open>\<open>i64::try_from(now).unwrap_or(i64::MAX)\<close>, then the \<open>DELETE\<close> with its subquery.\<close>

definition sql_purge :: "u64 \<Rightarrow> nat \<Rightarrow> route_table \<Rightarrow> nat \<times> route_table" where
  "sql_purge now max_records db =
     (let limit = purge_limit max_records in
      if limit = 0 then (0, db)
      else
        let now = min (uint now) (2 ^ 63 - 1);
            ids = map rt_public (take limit (sort_key (\<lambda>x. (rt_expires x, rt_public x))
                    (filter (\<lambda>x. rt_expires x \<le> now) db)))
        in (length (filter (\<lambda>x. rt_public x \<in> set ids) db), filter (\<lambda>x. rt_public x \<notin> set ids) db))"

section \<open>The table represents the in-memory store\<close>

text \<open>
  What a record needs to survive the table: its JSON parts are values, and a cached terminal
  state is not \<open>null\<close>, which \<open>Option\<close> reads back as absent.
\<close>

definition capability_ok :: "capability_id \<Rightarrow> bool" where
  "capability_ok c \<longleftrightarrow> digest_ok (native_identity_digest c) \<and> digest_ok (cap_schema_digest c)
     \<and> digest_ok (source_configuration_digest c)"

definition storable :: "task_route \<Rightarrow> bool" where
  "storable r \<longleftrightarrow> is_value (tr_binding r) \<and> (\<forall>v. tr_cached r = Some v \<longrightarrow> is_value v \<and> v \<noteq> JNull)
     \<and> digest_ok (tr_request_digest r) \<and> digest_ok (tr_integrity r) \<and> capability_ok (tr_capability r)"

definition storable_update :: "task_update \<Rightarrow> bool" where
  "storable_update u \<longleftrightarrow> (\<forall>v. up_cached u = Some v \<longrightarrow> is_value v \<and> v \<noteq> JNull)"

definition store_laws :: "platform \<Rightarrow> route_serde \<Rightarrow> bool" where
  "store_laws P S \<longleftrightarrow> json_laws P (parse_json S)
     \<and> (\<forall>r. storable r \<longrightarrow> decode_route S (route_json P r) = Some r)"

definition the_row :: "platform \<Rightarrow> task_route \<Rightarrow> route_row" where
  "the_row P r = \<lparr>rt_public = tr_public_id r, rt_principal = caller_principal (tr_caller r),
     rt_tenant = caller_tenant (tr_caller r), rt_key = tr_idempotency_key r,
     rt_request = digest_to_string P (tr_request_digest r), rt_source = tr_source r,
     rt_upstream = tr_upstream r, rt_phase = phase_name (tr_phase r), rt_created = uint (tr_created r),
     rt_updated = uint (tr_updated r), rt_ttl = uint (tr_ttl r),
     rt_expires = uint (tr_expires r), rt_version = uint (tr_version r),
     rt_schema = uint (tr_schema_version r),
     rt_integrity = digest_to_string P (tr_integrity r), rt_document = route_document P r\<rparr>"

definition table_of :: "platform \<Rightarrow> route_table \<Rightarrow> memory_routes \<Rightarrow> bool" where
  "table_of P db s \<longleftrightarrow> mem_inv P s \<and> distinct (map rt_public db)
     \<and> (\<forall>x \<in> set db. \<exists>r. contents s (rt_public x) = Some r \<and> storable r \<and> x = the_row P r)
     \<and> (\<forall>i r. contents s i = Some r \<longrightarrow> the_row P r \<in> set db)"

lemma the_row_simps [simp]:
  "rt_public (the_row P r) = tr_public_id r" "rt_principal (the_row P r) = caller_principal (tr_caller r)"
  "rt_tenant (the_row P r) = caller_tenant (tr_caller r)" "rt_key (the_row P r) = tr_idempotency_key r"
  "rt_expires (the_row P r) = uint (tr_expires r)" "rt_version (the_row P r) = uint (tr_version r)"
  by (simp_all add: the_row_def)

lemma integer_roundtrip: "from_sqlite_integer (uint v) = Inr v"
  by (simp add: from_sqlite_integer_def)

lemma json_wf_route: "storable r \<Longrightarrow> json_wf (route_json P r)"
  by (auto simp: route_json_def storable_def is_value_def u16_json_def u64_json_def caller_json_def
      opt_json_def digest_json_def capability_json_def split: option.splits)

lemma decode_the_row:
  assumes "store_laws P S" "storable r" "task_verify_integrity P r = Inr ()"
  shows "decode_task_route P S (the_row P r) = Inr r"
proof -
  have "Option.bind (parse_json S (route_document P r)) (decode_route S) = Some r"
    using assms(1,2) json_wf_route [OF assms(2)]
    by (simp add: store_laws_def json_laws_def route_document_def)
  moreover have "digest_column P (digest_to_string P (tr_request_digest r)) = Inr (tr_request_digest r)"
    "digest_column P (digest_to_string P (tr_integrity r)) = Inr (tr_integrity r)"
    using assms(1,2)
    by (simp_all add: digest_column_def digest_of_digest_json store_laws_def json_laws_def storable_def)
  ultimately show ?thesis
    using assms(3) by (simp add: decode_task_route_def the_row_def integer_roundtrip)
qed

lemma sqlite_range:
  assumes "task_verify_integrity P r = Inr ()"
  shows "to_sqlite_integer (tr_created r) = Inr (uint (tr_created r))"
    "to_sqlite_integer (tr_updated r) = Inr (uint (tr_updated r))"
    "to_sqlite_integer (tr_ttl r) = Inr (uint (tr_ttl r))"
    "to_sqlite_integer (tr_expires r) = Inr (uint (tr_expires r))"
    "to_sqlite_integer (tr_version r) = Inr (uint (tr_version r))"
proof -
  have "shape_ok P r" using assms by (simp add: guard_simps)
  then have "tr_created r \<le> MAX_SQLITE_INTEGER" "tr_updated r \<le> MAX_SQLITE_INTEGER"
    "tr_ttl r \<le> MAX_SQLITE_INTEGER" "tr_expires r \<le> MAX_SQLITE_INTEGER" "tr_version r \<le> MAX_SQLITE_INTEGER"
    by (simp_all add: shape_ok_def)
  moreover have "unat v < 2 ^ 63" if "v \<le> MAX_SQLITE_INTEGER" for v
    using that by (simp add: MAX_SQLITE_INTEGER_def word_le_nat_alt)
  ultimately show "to_sqlite_integer (tr_created r) = Inr (uint (tr_created r))"
    "to_sqlite_integer (tr_updated r) = Inr (uint (tr_updated r))"
    "to_sqlite_integer (tr_ttl r) = Inr (uint (tr_ttl r))"
    "to_sqlite_integer (tr_expires r) = Inr (uint (tr_expires r))"
    "to_sqlite_integer (tr_version r) = Inr (uint (tr_version r))"
    by (simp_all add: to_sqlite_integer_def)
qed

lemma route_row_verified:
  "task_verify_integrity P r = Inr () \<Longrightarrow> stored_row P r = Inr (the_row P r)"
  by (simp add: stored_row_def sqlite_range the_row_def)

lemma row_checks_verified:
  assumes "task_verify_integrity P r = Inr ()"
  shows "row_checks (the_row P r)"
proof -
  have s: "shape_ok P r" using assms by (simp add: guard_simps)
  then have "0 < uint (tr_ttl r)" "uint (tr_schema_version r) = 1"
    by (simp_all add: shape_ok_def word_neq_0_conv word_less_def)
  then show ?thesis
    by (cases "tr_phase r") (simp_all add: row_checks_def the_row_def phase_names_def)
qed

section \<open>Selecting\<close>

lemma table_member:
  assumes "table_of P db s" "x \<in> set db"
  obtains r where "contents s (rt_public x) = Some r" "x = the_row P r" "storable r"
  using assms unfolding table_of_def by blast

lemma table_row:
  assumes "table_of P db s" "contents s i = Some r"
  shows "the_row P r \<in> set db" "tr_public_id r = i" "storable r" "task_verify_integrity P r = Inr ()"
proof -
  have inv: "mem_inv P s" using assms(1) by (simp add: table_of_def)
  show i: "tr_public_id r = i" and "task_verify_integrity P r = Inr ()"
    using mem_inv_id [OF inv assms(2)] mem_inv_verified [OF inv assms(2)] .
  show row: "the_row P r \<in> set db" using assms by (simp add: table_of_def)
  obtain r' where "contents s (rt_public (the_row P r)) = Some r'" "storable r'"
    by (rule table_member [OF assms(1) row])
  then show "storable r" using assms(2) i by simp
qed

lemma find_unique:
  assumes "x \<in> set xs" "q x" "\<And>y. y \<in> set xs \<Longrightarrow> q y \<Longrightarrow> y = x"
  shows "find q xs = Some x"
proof (cases "find q xs")
  case None
  with assms(1,2) show ?thesis by (auto simp: find_None_iff)
next
  case (Some y)
  then have "y \<in> set xs" "q y" using find_Some_first by (fastforce)+
  then show ?thesis using Some assms(3) [of y] by simp
qed

lemma caller_columns:
  "caller_principal a = caller_principal b \<and> caller_tenant a = caller_tenant b \<longleftrightarrow> a = (b :: task_caller)"
  by (auto intro: task_caller.equality)

lemma select_id_result:
  assumes "table_of P db s" "store_laws P S"
  shows "select_by_public_id P S c i db
     = Inr (case contents s i of Some r \<Rightarrow> if tr_caller r = c then Some r else None | None \<Rightarrow> None)"
proof (cases "\<exists>r. contents s i = Some r \<and> tr_caller r = c")
  case True
  then obtain r where r: "contents s i = Some r" "tr_caller r = c" by blast
  note t = table_row [OF assms(1) r(1)]
  have "find (\<lambda>row. rt_public row = i \<and> rt_principal row = caller_principal c
      \<and> rt_tenant row = caller_tenant c) db = Some (the_row P r)"
  proof (rule find_unique)
    fix y assume y: "y \<in> set db" "rt_public y = i \<and> rt_principal y = caller_principal c \<and> rt_tenant y = caller_tenant c"
    show "y = the_row P r"
      by (rule table_member [OF assms(1) y(1)]) (use y(2) r(1) in simp)
  qed (use t r in auto)
  with r decode_the_row [OF assms(2) t(3,4)] show ?thesis by (simp add: select_by_public_id_def decoded_def)
next
  case False
  have "\<not> (rt_public x = i \<and> rt_principal x = caller_principal c \<and> rt_tenant x = caller_tenant c)"
    if "x \<in> set db" for x
  proof -
    obtain r where "contents s (rt_public x) = Some r" "x = the_row P r"
      by (rule table_member [OF assms(1) \<open>x \<in> set db\<close>])
    with False caller_columns [of "tr_caller r" c] show ?thesis by auto
  qed
  then have "find (\<lambda>row. rt_public row = i \<and> rt_principal row = caller_principal c
      \<and> rt_tenant row = caller_tenant c) db = None"
    by (simp add: find_None_iff)
  with False show ?thesis by (auto simp: select_by_public_id_def decoded_def split: option.split)
qed

lemma select_key_result:
  assumes t: "table_of P db s" and laws: "store_laws P S"
  shows "select_by_idempotency P S c k db = mem_find P c k s"
proof -
  have inv: "mem_inv P s" using t by (simp add: table_of_def)
  let ?q = "\<lambda>row. rt_principal row = caller_principal c \<and> rt_tenant row = caller_tenant c \<and> rt_key row = Some k"
  have key: "?q x \<longleftrightarrow> tr_caller r = c \<and> tr_idempotency_key r = Some k" if "x = the_row P r" for x r
    using caller_columns [of "tr_caller r" c] by (auto simp: that)
  from mem_find_result [OF inv, of c k] show ?thesis
  proof (elim disjE exE conjE)
    fix r i assume r: "mem_find P c k s = Inr (Some r)" "contents s i = Some r"
      "tr_caller r = c" "tr_idempotency_key r = Some k"
    note row = table_row [OF t r(2)]
    have "find ?q db = Some (the_row P r)"
    proof (rule find_unique)
      fix y assume y: "y \<in> set db" "?q y"
      obtain r' where r': "contents s (rt_public y) = Some r'" "y = the_row P r'"
        by (rule table_member [OF t y(1)])
      have "tr_caller r' = tr_caller r" "tr_idempotency_key r' = Some k"
        using key [OF r'(2)] y(2) r(3) by simp_all
      from mem_inv_key_unique [OF inv r'(1) r(2) this(1,2) r(4)] r' r(2)
      show "y = the_row P r" by simp
    next
      show "?q (the_row P r)" using r by simp
    qed (rule row)
    with r(1) decode_the_row [OF laws row(3,4)] show ?thesis
      by (simp add: select_by_idempotency_def decoded_def)
  next
    assume none: "mem_find P c k s = Inr None"
      "\<forall>i r. contents s i = Some r \<longrightarrow> \<not> (tr_caller r = c \<and> tr_idempotency_key r = Some k)"
    have "\<not> ?q y" if y: "y \<in> set db" for y
    proof -
      obtain r' where "contents s (rt_public y) = Some r'" "y = the_row P r'"
        by (rule table_member [OF t y])
      with none(2) key show ?thesis by blast
    qed
    then have "find ?q db = None" by (simp only: find_None_iff) blast
    with none(1) show ?thesis by (simp add: select_by_idempotency_def decoded_def)
  qed
qed

section \<open>Inserting\<close>

lemma table_ids: "table_of P db s \<Longrightarrow> rt_public ` set db = {i. contents s i \<noteq> None}"
proof -
  assume t: "table_of P db s"
  have "contents s i \<noteq> None" if i: "i \<in> rt_public ` set db" for i
  proof -
    from i obtain x where x: "x \<in> set db" "i = rt_public x" by blast
    show ?thesis by (rule table_member [OF t x(1)]) (simp add: x(2))
  qed
  moreover have "i \<in> rt_public ` set db" if "contents s i = Some r" for i r
    using table_row(1,2) [OF t that] by (auto intro: rev_image_eqI)
  ultimately show ?thesis by blast
qed

lemma table_length: "table_of P db s \<Longrightarrow> length db = fcard (fmdom (by_id s))"
  using table_ids [of P db s] distinct_card [of "map rt_public db"]
  by (simp add: table_of_def fcard.rep_eq dom_contents)

lemma table_active:
  assumes t: "table_of P db s"
  shows "length (filter (\<lambda>x. rt_principal x = caller_principal c \<and> rt_tenant x = caller_tenant c
            \<and> rt_expires x > uint now) db) = active_for c now (by_id s)"
proof -
  let ?q = "\<lambda>x. rt_principal x = caller_principal c \<and> rt_tenant x = caller_tenant c \<and> rt_expires x > uint now"
  have q: "?q (the_row P r) \<longleftrightarrow> tr_caller r = c \<and> \<not> is_expired r now" for r
    using caller_columns [of "tr_caller r" c] by (auto simp: is_expired_def word_less_def not_le)
  have "rt_public ` set (filter ?q db) = active_set c now (by_id s)"
  proof (intro set_eqI iffI)
    fix i assume "i \<in> rt_public ` set (filter ?q db)"
    then obtain x where x: "x \<in> set db" "?q x" "i = rt_public x" by auto
    obtain r where "contents s (rt_public x) = Some r" "x = the_row P r" by (rule table_member [OF t x(1)])
    with x q show "i \<in> active_set c now (by_id s)" by (auto simp: active_set_def contents_def)
  next
    fix i assume "i \<in> active_set c now (by_id s)"
    then obtain r where r: "contents s i = Some r" "tr_caller r = c" "\<not> is_expired r now"
      by (auto simp: active_set_def contents_def)
    have "the_row P r \<in> set (filter ?q db)"
      using table_row(1) [OF t r(1)] r q [of r] by (simp only: set_filter mem_Collect_eq) simp
    then have "rt_public (the_row P r) \<in> rt_public ` set (filter ?q db)" by (rule imageI)
    then show "i \<in> rt_public ` set (filter ?q db)"
      unfolding the_row_simps table_row(2) [OF t r(1)] .
  qed
  moreover have "distinct (map rt_public (filter ?q db))"
    using t by (simp add: table_of_def distinct_map_filter)
  ultimately show ?thesis
    using distinct_card [of "map rt_public (filter ?q db)"] by (simp add: active_for_card)
qed

lemma table_insert:
  assumes t: "table_of P db s" and new: "contents s (tr_public_id r) = None"
    and "storable r" "mem_inv P (insert_route r s)"
  shows "table_of P (db @ [the_row P r]) (insert_route r s)"
proof -
  have ids: "rt_public ` set db = {i. contents s i \<noteq> None}" by (rule table_ids [OF t])
  have "distinct (map rt_public (db @ [the_row P r]))"
    using t ids new by (simp add: table_of_def)
  moreover have "\<exists>q. contents (insert_route r s) (rt_public x) = Some q \<and> storable q \<and> x = the_row P q"
    if x: "x \<in> set (db @ [the_row P r])" for x
  proof (cases "x \<in> set db")
    case True
    then have "contents s (rt_public x) \<noteq> None" using ids by blast
    then have "rt_public x \<noteq> tr_public_id r" using new by auto
    with True t show ?thesis by (auto simp: table_of_def)
  next
    case False
    with x assms(3) show ?thesis by auto
  qed
  moreover have "the_row P q \<in> set (db @ [the_row P r])" if "contents (insert_route r s) i = Some q" for i q
    using that table_row(1) [OF t] by (auto split: if_splits)
  ultimately show ?thesis using assms(4) unfolding table_of_def by blast
qed

definition full_for :: "task_route \<Rightarrow> memory_routes \<Rightarrow> bool" where
  "full_for r s \<longleftrightarrow> fcard (fmdom (by_id s)) \<ge> MAX_STORED_TASK_ROUTES
     \<or> active_for (tr_caller r) (tr_created r) (by_id s) \<ge> MAX_ACTIVE_TASK_ROUTES_PER_CALLER"

lemma sql_insert_result:
  assumes t: "table_of P db s" and v: "task_verify_integrity P r = Inr ()"
    and free: "\<And>i e. \<not> holds_key (contents s) r i e"
  shows "sql_insert P r db =
     (if contents s (tr_public_id r) \<noteq> None then Inl PublicTaskIdCollision
      else if full_for r s then Inl TaskRouteCapacity
      else Inr (Inserted r, db @ [the_row P r]))"
proof -
  have taken: "list_ex (\<lambda>x. rt_public x = i) db \<longleftrightarrow> contents s i \<noteq> None" for i
  proof -
    have "list_ex (\<lambda>x. rt_public x = i) db \<longleftrightarrow> i \<in> rt_public ` set db"
      by (auto simp: list_ex_iff)
    then show ?thesis by (simp add: table_ids [OF t])
  qed
  have "insert_row (the_row P r) db = Inr (db @ [the_row P r])" if new: "contents s (tr_public_id r) = None"
  proof -
    have "\<not> (tr_idempotency_key r \<noteq> None \<and> rt_principal x = caller_principal (tr_caller r)
        \<and> rt_tenant x = caller_tenant (tr_caller r) \<and> rt_key x = tr_idempotency_key r)" if x: "x \<in> set db" for x
    proof
      assume a: "tr_idempotency_key r \<noteq> None \<and> rt_principal x = caller_principal (tr_caller r)
        \<and> rt_tenant x = caller_tenant (tr_caller r) \<and> rt_key x = tr_idempotency_key r"
      obtain e where "contents s (rt_public x) = Some e" "x = the_row P e" by (rule table_member [OF t x])
      with a have "holds_key (contents s) r (rt_public x) e"
        using caller_columns [of "tr_caller e" "tr_caller r"] by (simp add: holds_key_def)
      with free show False by blast
    qed
    moreover have "rt_public x \<noteq> tr_public_id r" if "x \<in> set db" for x
      using that new taken [of "tr_public_id r"] by (auto simp: list_ex_iff)
    ultimately show ?thesis
      using row_checks_verified [OF v] by (auto simp: insert_row_def list_ex_iff)
  qed
  then show ?thesis
    by (simp add: sql_insert_def taken sqlite_range [OF v] table_length [OF t] table_active [OF t]
        route_row_verified [OF v] full_for_def Let_def)
qed

lemma table_delete:
  assumes t: "table_of P db s" and inv: "mem_inv P s'"
    and gone: "contents s' = (\<lambda>i. if i \<in> G then None else contents s i)"
  shows "table_of P (filter (\<lambda>x. rt_public x \<notin> G) db) s'"
proof -
  have "\<exists>r. contents s' (rt_public x) = Some r \<and> storable r \<and> x = the_row P r"
    if x: "x \<in> set (filter (\<lambda>x. rt_public x \<notin> G) db)" for x
  proof -
    have "x \<in> set db" "rt_public x \<notin> G" using x by auto
    with t gone show ?thesis by (simp add: table_of_def)
  qed
  moreover have "the_row P r \<in> set (filter (\<lambda>x. rt_public x \<notin> G) db)" if r: "contents s' i = Some r" for i r
  proof -
    from r gone have i: "i \<notin> G" "contents s i = Some r" by (auto split: if_splits)
    from table_row(1,2) [OF t i(2)] i(1) show ?thesis by simp
  qed
  ultimately show ?thesis
    using t inv by (simp add: table_of_def distinct_map_filter)
qed

lemma expired_not_active:
  assumes "contents s i = Some e" "is_expired e now"
  shows "active_for c now (by_id (without i e s)) = active_for c now (by_id s)"
  unfolding active_for_card
  by (rule arg_cong [of _ _ card]) (use assms in \<open>auto simp: active_set_def contents_def without_def split: if_splits\<close>)

lemma fcard_without:
  assumes "contents s i = Some e"
  shows "fcard (fmdom (by_id (without i e s))) = fcard (fmdom (by_id s)) - 1"
proof -
  have "i |\<in>| fmdom (by_id s)" using assms by (simp add: fmdom_contents)
  then show ?thesis by (simp add: without_def fcard.rep_eq)
qed

lemma one_row:
  assumes t: "table_of P db s" and e: "contents s i = Some e"
  shows "length (filter (\<lambda>x. rt_public x = i) db) = 1"
proof -
  have "rt_public ` set (filter (\<lambda>x. rt_public x = i) db) = {i}"
    using table_row(1,2) [OF t e] by force
  moreover have "distinct (map rt_public (filter (\<lambda>x. rt_public x = i) db))"
    using t by (simp add: table_of_def distinct_map_filter)
  ultimately show ?thesis
    using distinct_card [of "map rt_public (filter (\<lambda>x. rt_public x = i) db)"] by simp
qed

text \<open>\<open>begin_or_existing\<close> gives the same answer on both.\<close>

lemma sql_begin_sim:
  assumes t: "table_of P db s" and laws: "store_laws P S" and st: "storable r"
  shows "fst (sql_begin P S r db) = fst (mem_begin P r s)
    \<and> table_of P (snd (sql_begin P S r db)) (snd (mem_begin P r s))"
proof (cases "verify_prepared_for_begin P r")
  case (Inl e)
  then show ?thesis using t by (simp add: sql_begin_def sql_transaction_def mem_begin_def committed_def)
next
  case (Inr u)
  have inv: "mem_inv P s" using t by (simp add: table_of_def)
  note v = prepared_verified [OF Inr]
  have inv': "mem_inv P (snd (mem_begin P r s))" using mem_begin_contract [OF inv] by blast
  from lookup_key_result [OF inv, of r] show ?thesis
  proof (elim disjE exE conjE)
    assume none: "\<forall>i e. \<not> holds_key (contents s) r i e" and l: "lookup_key P r s = Inr NoBinding"
    have "mem_find P (tr_caller r) k s = Inr None" if "tr_idempotency_key r = Some k" for k
      using mem_find_result [OF inv, of "tr_caller r" k] none that by (auto simp: holds_key_def)
    then have sql: "sql_transaction P S r db = sql_insert P r db"
      using Inr by (simp add: sql_transaction_def select_key_result [OF t laws] split: option.split)
    have mem: "mem_begin P r s =
        (if contents s (tr_public_id r) \<noteq> None then (Inl PublicTaskIdCollision, s)
         else if full_for r s then (Inl TaskRouteCapacity, s)
         else (Inr (Inserted r), insert_route r s))"
      using Inr l by (simp add: mem_begin_def fmdom_contents full_for_def Let_def)
    show ?thesis
      unfolding sql_begin_def sql sql_insert_result [OF t v none [rule_format]] mem committed_def
      using t table_insert [OF t _ st] inv' [unfolded mem] by auto
  next
    fix i e k
    assume h: "holds_key (contents s) r i e" and k: "tr_idempotency_key r = Some k"
      and l: "lookup_key P r s =
          (if is_expired e (tr_created r) then Inr (ExpiredBinding (tr_caller r, k) i)
           else if tr_request_digest e \<noteq> tr_request_digest r then Inl IdempotencyConflict
           else Inr (LiveBinding e))"
    from h k have e: "contents s i = Some e" "tr_caller e = tr_caller r" "tr_idempotency_key e = Some k"
      by (simp_all add: holds_key_def)
    have found: "mem_find P (tr_caller r) k s = Inr (Some e)"
      using mem_find_result [OF inv, of "tr_caller r" k] e mem_inv_key_unique [OF inv _ e(1)] by force
    show ?thesis
    proof (cases "is_expired e (tr_created r)")
      case False
      then show ?thesis
        using Inr l k found t
        by (auto simp: sql_begin_def sql_transaction_def mem_begin_def committed_def
            select_key_result [OF t laws])
    next
      case True
      let ?s = "without i e s" and ?db = "filter (\<lambda>x. rt_public x \<notin> {i}) db"
      let ?gone = "\<lambda>x. rt_public x = tr_public_id e \<and> rt_principal x = caller_principal (tr_caller e)
                     \<and> rt_tenant x = caller_tenant (tr_caller e) \<and> rt_key x = Some k"
      note row = table_row [OF t e(1)]
      have gone: "?gone x \<longleftrightarrow> rt_public x = i" if x: "x \<in> set db" for x
      proof -
        obtain q where q: "contents s (rt_public x) = Some q" "x = the_row P q" by (rule table_member [OF t x])
        then have "q = e" if "tr_public_id q = i" using that e(1) by simp
        then show ?thesis unfolding q(2) the_row_simps row(2) using e(3) by blast
      qed
      have t': "table_of P ?db ?s"
        by (rule table_delete [OF t without_inv [OF inv e(1)]]) (auto simp: fun_eq_iff)
      have "filter ?gone db = filter (\<lambda>x. rt_public x = i) db" by (rule filter_cong) (simp_all add: gone)
      moreover have "length (filter (\<lambda>x. rt_public x = i) db) = 1"
        by (rule one_row [OF t e(1)])
      moreover have "filter (\<lambda>x. \<not> ?gone x) db = ?db" by (rule filter_cong) (simp_all add: gone)
      ultimately have sql: "sql_transaction P S r db = sql_insert P r ?db"
        using Inr k found True by (simp add: sql_transaction_def select_key_result [OF t laws] Let_def)
      have free: "\<not> holds_key (contents ?s) r j x" for j x
      proof
        assume "holds_key (contents ?s) r j x"
        then have "holds_key (contents s) r j x" "j \<noteq> i" by (auto simp: holds_key_def split: if_splits)
        with holds_key_unique [OF inv h this(1)] show False by simp
      qed
      have mem: "mem_begin P r s =
          (if contents ?s (tr_public_id r) \<noteq> None then (Inl PublicTaskIdCollision, s)
           else if full_for r ?s then (Inl TaskRouteCapacity, s)
           else (Inr (Inserted r), insert_route r ?s))"
        using Inr l True
        by (auto simp: mem_begin_def fmdom_contents full_for_def Let_def fcard_without [OF e(1)]
            expired_not_active [OF e(1)] forget_binding_without [OF inv e])
      show ?thesis
        unfolding sql_begin_def sql sql_insert_result [OF t' v free] mem committed_def
        using t table_insert [OF t' _ st] inv' [unfolded mem] by auto
    qed
  qed
qed

section \<open>Updating\<close>

lemma transition_storable:
  assumes "store_laws P S" "storable r" "storable_update u" "transition P r u = Inr n"
  shows "storable n"
proof -
  note n = assms(4) [unfolded transition_Inr]
  have "tr_binding n = tr_binding r" "tr_request_digest n = tr_request_digest r"
    "tr_capability n = tr_capability r" "tr_cached n = up_cached u" "tr_integrity n = expected_integrity P n"
    using n by (auto simp: updated_route_def)
  then show ?thesis
    using assms(1-3) of_json_ok [of P "parse_json S"]
    by (simp add: storable_def storable_update_def store_laws_def expected_integrity_def)
qed

lemma table_update:
  assumes t: "table_of P db s" and r: "contents s i = Some r" and tr: "transition P r u = Inr n"
    and n: "storable n"
  shows "table_of P (map (\<lambda>x. if rt_public x = i then the_row P n else x) db) (s\<lparr>by_id := fmupd i n (by_id s)\<rparr>)"
proof -
  let ?s = "s\<lparr>by_id := fmupd i n (by_id s)\<rparr>"
  let ?f = "\<lambda>x. if rt_public x = i then the_row P n else x"
  have inv: "mem_inv P s" using t by (simp add: table_of_def)
  have c: "contents ?s = (contents s)(i \<mapsto> n)" by (simp add: contents_def)
  have id: "tr_public_id n = i"
    using mem_inv_id [OF update_inv [OF inv r tr], of i n] c by simp
  have "map rt_public (map ?f db) = map rt_public db"
    by (auto simp: id)
  moreover have "\<exists>q. contents ?s (rt_public x) = Some q \<and> storable q \<and> x = the_row P q"
    if x: "x \<in> set (map ?f db)" for x
  proof -
    from x obtain y where y: "y \<in> set db" "x = ?f y" by auto
    show ?thesis
    proof (cases "rt_public y = i")
      case True
      then show ?thesis using y(2) n id unfolding c by simp
    next
      case False
      then show ?thesis using y t unfolding c by (simp add: table_of_def)
    qed
  qed
  moreover have "the_row P q \<in> set (map ?f db)" if q: "contents ?s j = Some q" for j q
  proof (cases "j = i")
    case True
    then have "q = n" using q c by simp
    moreover have "the_row P r \<in> set db" "rt_public (the_row P r) = i"
      using table_row(1,2) [OF t r] by simp_all
    ultimately show ?thesis by force
  next
    case False
    then have "contents s j = Some q" using q c by simp
    from table_row(1,2) [OF t this] False show ?thesis by force
  qed
  ultimately show ?thesis
    using t update_inv [OF inv r tr] by (simp add: table_of_def del: map_map)
qed

lemma the_row_after:
  assumes "transition P r u = Inr n"
  shows "(the_row P r)\<lparr>rt_upstream := tr_upstream n, rt_phase := phase_name (tr_phase n),
      rt_updated := uint (tr_updated n), rt_version := uint (tr_version n),
      rt_integrity := digest_to_string P (tr_integrity n), rt_document := route_document P n\<rparr> = the_row P n"
proof -
  have "tr_schema_version n = tr_schema_version r"
    using assms by (auto simp: transition_Inr updated_route_def)
  then show ?thesis
    using transition_follows(1) [OF assms] by (simp add: the_row_def follows_def)
qed

text \<open>A successful update, whatever it stores.\<close>

lemma sql_cas_success:
  assumes t: "table_of P db s" and laws: "store_laws P S"
    and r: "contents s i = Some r" "tr_caller r = c" "tr_version r = v" and tr: "transition P r u = Inr n"
  shows "sql_cas P S c i v u db = (Inr (Some n), map (\<lambda>x. if rt_public x = i then the_row P n else x) db)"
proof -
  note row = table_row [OF t r(1)]
  have n: "task_verify_integrity P n = Inr ()" by (rule transition_follows(3) [OF tr])
  have same: "tr_public_id n = i" "tr_caller n = tr_caller r"
    using transition_follows(1) [OF tr] row(2) by (simp_all add: follows_def)
  let ?q = "\<lambda>x. rt_public x = tr_public_id n \<and> rt_principal x = caller_principal (tr_caller n)
                    \<and> rt_tenant x = caller_tenant (tr_caller n) \<and> rt_version x = uint v"
  have q: "?q x \<longleftrightarrow> rt_public x = i" and after: "rt_public x = i \<Longrightarrow> x = the_row P r" if x: "x \<in> set db" for x
  proof -
    obtain y where y: "contents s (rt_public x) = Some y" "x = the_row P y" by (rule table_member [OF t x])
    have "y = r" if "rt_public x = i" using that y(1) r(1) by simp
    with y(2) show "rt_public x = i \<Longrightarrow> x = the_row P r" by simp
    then show "?q x \<longleftrightarrow> rt_public x = i" using same r(3) row(2) by auto
  qed
  have "length (filter ?q db) = 1"
    using one_row [OF t r(1)] filter_cong [OF refl q, of db] by simp
  moreover have "map (\<lambda>x. if ?q x then x\<lparr>rt_upstream := tr_upstream n, rt_phase := phase_name (tr_phase n),
        rt_updated := uint (tr_updated n), rt_version := uint (tr_version n),
        rt_integrity := digest_to_string P (tr_integrity n), rt_document := route_document P n\<rparr> else x) db
      = map (\<lambda>x. if rt_public x = i then the_row P n else x) db"
    using q after the_row_after [OF tr] by (intro map_cong) auto
  moreover have "to_sqlite_integer v = Inr (uint v)"
    using sqlite_range(5) [OF row(4)] r(3) by simp
  ultimately show ?thesis
    using r tr by (simp add: sql_cas_def sql_update_def select_id_result [OF t laws] committed_def
        sqlite_range [OF n] update_rows_def)
qed

text \<open>\<open>compare_and_set_task_route\<close> gives the same answer on both.\<close>

lemma sql_cas_sim:
  assumes t: "table_of P db s" and laws: "store_laws P S" and u: "storable_update u"
  shows "fst (sql_cas P S c i v u db) = fst (mem_cas P c i v u s)
    \<and> table_of P (snd (sql_cas P S c i v u db)) (snd (mem_cas P c i v u s))"
proof -
  have inv: "mem_inv P s" using t by (simp add: table_of_def)
  note sel = select_id_result [OF t laws, of c i] and mem = mem_cas_cases [OF inv, of c i v u]
  show ?thesis
  proof (cases "\<exists>r n. contents s i = Some r \<and> tr_caller r = c \<and> tr_version r = v \<and> transition P r u = Inr n")
    case False
    then show ?thesis
      using t by (auto simp: sql_cas_def sql_update_def sel mem committed_def split: option.split sum.split)
  next
    case True
    then obtain r n where r: "contents s i = Some r" "tr_caller r = c" "tr_version r = v"
      and tr: "transition P r u = Inr n" by blast
    moreover have "mem_cas P c i v u s = (Inr (Some n), s\<lparr>by_id := fmupd i n (by_id s)\<rparr>)"
      using r tr by (simp add: mem)
    ultimately show ?thesis
      using table_update [OF t r(1) tr transition_storable [OF laws table_row(3) [OF t r(1)] u tr]]
        sql_cas_success [OF t laws r tr] by simp
  qed
qed

section \<open>Purging\<close>

definition expired_rows :: "u64 \<Rightarrow> route_table \<Rightarrow> route_row list" where
  "expired_rows now db = sort_key (\<lambda>x. (rt_expires x, rt_public x))
     (filter (\<lambda>x. rt_expires x \<le> min (uint now) (2 ^ 63 - 1)) db)"

definition expiry_entry :: "route_row \<Rightarrow> u64 \<times> public_task_id" where
  "expiry_entry x = (word_of_int (rt_expires x), rt_public x)"

lemma expiry_entry_row [simp]: "expiry_entry (the_row P r) = (tr_expires r, tr_public_id r)"
  by (simp add: expiry_entry_def)

lemma row_expired:
  assumes "task_verify_integrity P r = Inr ()"
  shows "rt_expires (the_row P r) \<le> min (uint now) (2 ^ 63 - 1) \<longleftrightarrow> tr_expires r \<le> now"
proof -
  have "unat (tr_expires r) < 2 ^ 63"
    using sqlite_range(4) [OF assms] by (simp add: to_sqlite_integer_def split: if_splits)
  then have "uint (tr_expires r) < 2 ^ 63"
    by (metis of_nat_less_iff of_nat_numeral of_nat_power uint_nat)
  then show ?thesis by (simp add: word_le_def)
qed

lemma expired_rows_entries:
  assumes t: "table_of P db s"
  shows "map expiry_entry (expired_rows now db)
     = takeWhile (\<lambda>e. fst e \<le> now) (sorted_list_of_fset (by_expiry s))"
proof (rule sorted_distinct_set_unique)
  have inv: "mem_inv P s" using t by (simp add: table_of_def)
  have srt: "sorted (sorted_list_of_fset (by_expiry s))" "distinct (sorted_list_of_fset (by_expiry s))"
    by (simp_all add: sorted_list_of_fset.rep_eq)
  show "sorted (takeWhile (\<lambda>e. fst e \<le> now) (sorted_list_of_fset (by_expiry s)))"
    "distinct (takeWhile (\<lambda>e. fst e \<le> now) (sorted_list_of_fset (by_expiry s)))"
    using srt by (simp_all add: sorted_takeWhile)
  have row: "\<exists>r. contents s (rt_public x) = Some r \<and> x = the_row P r" if "x \<in> set (expired_rows now db)" for x
    using that t by (auto simp: expired_rows_def table_of_def)
  have mono: "expiry_entry x \<le> expiry_entry y"
    if mem: "x \<in> set (expired_rows now db)" "y \<in> set (expired_rows now db)"
      and le: "(rt_expires x, rt_public x) \<le> (rt_expires y, rt_public y)" for x y
  proof -
    obtain a b where ab: "x = the_row P a" "y = the_row P b" using row [OF mem(1)] row [OF mem(2)] by blast
    show ?thesis using le unfolding ab expiry_entry_row the_row_simps
      by (auto simp: word_le_def word_less_def)
  qed
  have "sorted_wrt (\<lambda>x y. (rt_expires x, rt_public x) \<le> (rt_expires y, rt_public y)) (expired_rows now db)"
    using sorted_sort_key [of "\<lambda>x. (rt_expires x, rt_public x)"] by (simp add: expired_rows_def sorted_wrt_map)
  then have "sorted_wrt (\<lambda>x y. expiry_entry x \<le> expiry_entry y) (expired_rows now db)"
    using mono by (rule sorted_wrt_mono_rel [rotated])
  then show "sorted (map expiry_entry (expired_rows now db))" by (simp add: sorted_wrt_map)
  have "distinct (map rt_public db)" using t by (simp add: table_of_def)
  then have "distinct (map rt_public (expired_rows now db))"
    unfolding expired_rows_def
    by (metis (no_types, lifting) distinct_map distinct_map_filter distinct_sort set_sort)
  then have "distinct (map snd (map expiry_entry (expired_rows now db)))"
    by (simp add: comp_def expiry_entry_def)
  then show "distinct (map expiry_entry (expired_rows now db))" by (simp only: distinct_map)
  show "set (map expiry_entry (expired_rows now db))
      = set (takeWhile (\<lambda>e. fst e \<le> now) (sorted_list_of_fset (by_expiry s)))"
    unfolding set_takeWhile_sorted [OF sorted_fst [OF srt(1)]]
  proof (intro set_eqI iffI)
    fix e assume "e \<in> set (map expiry_entry (expired_rows now db))"
    then obtain x where x: "x \<in> set (expired_rows now db)" "e = expiry_entry x" by auto
    obtain r where r: "contents s (rt_public x) = Some r" "x = the_row P r" using row [OF x(1)] by blast
    have "tr_expires r \<le> now"
      using x(1) row_expired [OF table_row(4) [OF t r(1)], of now] unfolding r(2) by (simp add: expired_rows_def)
    then show "e \<in> {x \<in> set (sorted_list_of_fset (by_expiry s)). fst x \<le> now}"
      using r mem_inv_expiry [OF inv] x(2) by simp
  next
    fix e assume "e \<in> {x \<in> set (sorted_list_of_fset (by_expiry s)). fst x \<le> now}"
    then obtain r where r: "contents s (snd e) = Some r" "tr_expires r = fst e" "fst e \<le> now"
      using mem_inv_expiry [OF inv, of "fst e" "snd e"] by auto
    note tr = table_row [OF t r(1)]
    have "the_row P r \<in> set (expired_rows now db)"
      using tr(1) row_expired [OF tr(4), of now] r(2,3) by (simp add: expired_rows_def)
    moreover have "expiry_entry (the_row P r) = e" using tr(2) r(2) by (simp add: prod_eq_iff)
    ultimately show "e \<in> set (map expiry_entry (expired_rows now db))" by (auto intro: rev_image_eqI)
  qed
qed

text \<open>\<open>purge_expired_task_routes\<close> removes the same routes on both.\<close>

lemma sql_purge_sim:
  assumes t: "table_of P db s"
  shows "fst (sql_purge now n db) = fst (mem_purge now n s)
    \<and> table_of P (snd (sql_purge now n db)) (snd (mem_purge now n s))"
proof (cases "purge_limit n = 0")
  case True
  then show ?thesis using t by (simp add: sql_purge_def mem_purge_def Let_def)
next
  case False
  have inv: "mem_inv P s" using t by (simp add: table_of_def)
  define es where "es = expired_entries now (purge_limit n) s"
  note p = mem_purge_facts [OF inv es_def]
  define ids where "ids = map rt_public (take (purge_limit n) (expired_rows now db))"
  have "ids = map snd (take (purge_limit n) (map expiry_entry (expired_rows now db)))"
    by (simp add: ids_def take_map comp_def expiry_entry_def)
  then have ids: "ids = map snd es"
    by (simp add: expired_rows_entries [OF t] es_def expired_entries_def)
  have sql: "sql_purge now n db = (length (filter (\<lambda>x. rt_public x \<in> set ids) db),
      filter (\<lambda>x. rt_public x \<notin> set ids) db)"
    using False by (simp add: sql_purge_def ids_def expired_rows_def Let_def)
  have "set ids \<subseteq> rt_public ` set db"
    by (auto simp: ids_def expired_rows_def dest!: in_set_takeD)
  then have "rt_public ` set (filter (\<lambda>x. rt_public x \<in> set ids) db) = set ids" by auto
  moreover have "distinct (map rt_public (filter (\<lambda>x. rt_public x \<in> set ids) db))"
    using t by (simp add: table_of_def distinct_map_filter)
  ultimately have "length (filter (\<lambda>x. rt_public x \<in> set ids) db) = card (set ids)"
    using distinct_card [of "map rt_public (filter (\<lambda>x. rt_public x \<in> set ids) db)"] by simp
  moreover have "table_of P (filter (\<lambda>x. rt_public x \<notin> set ids) db) (snd (mem_purge now n s))"
    by (rule table_delete [OF t p(1)]) (simp add: p(2) ids)
  ultimately show ?thesis by (simp add: sql p(3) ids)
qed

section \<open>The contract holds in SQLite\<close>

lemma sql_get_sim: "\<lbrakk>table_of P db s; store_laws P S\<rbrakk> \<Longrightarrow> sql_get P S c i db = mem_get P c i s"
  by (simp add: sql_get_def select_id_result mem_get_result table_of_def)

lemma sql_find_sim: "\<lbrakk>table_of P db s; store_laws P S\<rbrakk> \<Longrightarrow> sql_find P S c k db = mem_find P c k s"
  by (simp add: sql_find_def select_key_result)

text \<open>What is stored, by public id.\<close>

definition sql_view :: "platform \<Rightarrow> route_serde \<Rightarrow> route_table \<Rightarrow> public_task_id \<Rightarrow> task_route option" where
  "sql_view P S db i =
     (case find (\<lambda>x. rt_public x = i) db of
        None \<Rightarrow> None
      | Some x \<Rightarrow> (case decode_task_route P S x of Inr r \<Rightarrow> Some r | Inl _ \<Rightarrow> None))"

lemma sql_view_contents:
  assumes t: "table_of P db s" and laws: "store_laws P S"
  shows "sql_view P S db = contents s"
proof
  fix i
  show "sql_view P S db i = contents s i"
  proof (cases "find (\<lambda>x. rt_public x = i) db")
    case None
    then have "i \<notin> rt_public ` set db" by (auto simp: find_None_iff)
    then have "contents s i = None" by (simp add: table_ids [OF t])
    with None show ?thesis by (simp add: sql_view_def)
  next
    case (Some x)
    then have x: "x \<in> set db" "rt_public x = i" using find_Some_first by fastforce+
    obtain r where r: "contents s (rt_public x) = Some r" "x = the_row P r" by (rule table_member [OF t x(1)])
    note row = table_row [OF t r(1)]
    show ?thesis
      using Some r x(2) decode_the_row [OF laws row(3,4)] by (simp add: sql_view_def)
  qed
qed

definition sql_valid :: "platform \<Rightarrow> route_serde \<Rightarrow> route_table \<Rightarrow> bool" where
  "sql_valid P S db \<longleftrightarrow> store_laws P S \<and> (\<exists>s. table_of P db s)"

interpretation sqlite_store:
  task_store P "sql_get P S" "sql_begin P S" "sql_cas P S" sql_purge "sql_view P S" "sql_valid P S"
    storable storable_update
  for P S
proof
  fix db and c i r v u now n
  assume "sql_valid P S db"
  then obtain s where laws: "store_laws P S" and t: "table_of P db s" by (auto simp: sql_valid_def)
  have inv: "mem_inv P s" using t by (simp add: table_of_def)
  note view = sql_view_contents [OF _ laws]
  show "get_contract c i (sql_view P S db) (sql_get P S c i db)"
    using memory_store.get_law [OF inv] by (simp add: view [OF t] sql_get_sim [OF t laws])
  note p = sql_purge_sim [OF t, of now n]
  show "purge_contract now n (sql_view P S db) (fst (sql_purge now n db)) (sql_view P S (snd (sql_purge now n db)))"
    using p memory_store.purge_law [OF inv, of now n] by (simp add: view [OF t] view [OF conjunct2 [OF p]])
  show "sql_valid P S (snd (sql_purge now n db))" using p laws by (auto simp: sql_valid_def)
  note b = sql_begin_sim [OF t laws, of r]
  show "begin_contract P r (sql_view P S db) (fst (sql_begin P S r db)) (sql_view P S (snd (sql_begin P S r db)))"
    if "storable r"
    using b [OF that] memory_store.begin_law [OF inv TrueI, of r]
    by (simp add: view [OF t] view [OF conjunct2 [OF b [OF that]]])
  show "sql_valid P S (snd (sql_begin P S r db))" if "storable r"
    using b [OF that] laws by (auto simp: sql_valid_def)
  note k = sql_cas_sim [OF t laws, of u c i v]
  show "cas_contract P c i v u (sql_view P S db) (fst (sql_cas P S c i v u db)) (sql_view P S (snd (sql_cas P S c i v u db)))"
    if "storable_update u"
    using k [OF that] memory_store.cas_law [OF inv TrueI, of c i v u]
    by (simp add: view [OF t] view [OF conjunct2 [OF k [OF that]]])
  show "sql_valid P S (snd (sql_cas P S c i v u db))" if "storable_update u"
    using k [OF that] laws by (auto simp: sql_valid_def)
qed

section \<open>Histories\<close>

datatype store_op =
    FindRoute task_caller idempotency_key
  | GetRoute task_caller public_task_id
  | BeginRoute task_route
  | CasRoute task_caller public_task_id u64 task_update
  | PurgeRoutes u64 nat

datatype store_reply =
    Found "(task_storage_error, task_route option) res"
  | Begun "(task_storage_error, begin_result) res"
  | Purged nat

fun op_ok :: "store_op \<Rightarrow> bool" where
  "op_ok (BeginRoute r) = storable r"
| "op_ok (CasRoute c i v u) = storable_update u"
| "op_ok _ = True"

fun mem_op :: "platform \<Rightarrow> store_op \<Rightarrow> memory_routes \<Rightarrow> store_reply \<times> memory_routes" where
  "mem_op P (FindRoute c k) s = (Found (mem_find P c k s), s)"
| "mem_op P (GetRoute c i) s = (Found (mem_get P c i s), s)"
| "mem_op P (BeginRoute r) s = map_prod Begun id (mem_begin P r s)"
| "mem_op P (CasRoute c i v u) s = map_prod Found id (mem_cas P c i v u s)"
| "mem_op P (PurgeRoutes now n) s = map_prod Purged id (mem_purge now n s)"

fun sql_op :: "platform \<Rightarrow> route_serde \<Rightarrow> store_op \<Rightarrow> route_table \<Rightarrow> store_reply \<times> route_table" where
  "sql_op P S (FindRoute c k) s = (Found (sql_find P S c k s), s)"
| "sql_op P S (GetRoute c i) s = (Found (sql_get P S c i s), s)"
| "sql_op P S (BeginRoute r) s = map_prod Begun id (sql_begin P S r s)"
| "sql_op P S (CasRoute c i v u) s = map_prod Found id (sql_cas P S c i v u s)"
| "sql_op P S (PurgeRoutes now n) s = map_prod Purged id (sql_purge now n s)"

fun replies :: "('o \<Rightarrow> 's \<Rightarrow> 'r \<times> 's) \<Rightarrow> 'o list \<Rightarrow> 's \<Rightarrow> 'r list" where
  "replies f [] s = []"
| "replies f (a # as) s = fst (f a s) # replies f as (snd (f a s))"

lemma sql_op_sim:
  assumes "table_of P db s" "store_laws P S" "op_ok a"
  shows "fst (sql_op P S a db) = fst (mem_op P a s) \<and> table_of P (snd (sql_op P S a db)) (snd (mem_op P a s))"
  using assms sql_begin_sim [OF assms(1,2)] sql_cas_sim [OF assms(1,2)] sql_purge_sim [OF assms(1)]
  by (cases a) (simp_all add: sql_find_sim sql_get_sim)

lemma table_of_empty: "table_of P [] memory_default"
  using mem_inv_default by (simp add: table_of_def memory_default_def contents_def)

lemma replies_sim:
  "\<lbrakk>table_of P db s; store_laws P S; list_all op_ok as\<rbrakk> \<Longrightarrow> replies (sql_op P S) as db = replies (mem_op P) as s"
proof (induction as arbitrary: db s)
  case (Cons a as)
  then show ?case using sql_op_sim [of P db s S a] by simp
qed simp

section \<open>Properties\<close>


text \<open>
  A \<open>null\<close> terminal state is stored, and then cannot be read: the record that the document gives
  back has no terminal state. In memory it can.
\<close>

theorem null_terminal_state_lost:
  assumes t: "table_of P db s" and laws: "store_laws P S"
    and cas: "mem_cas P c i v (update_terminal now JNull) s = (Inr (Some n), s')"
  shows "fst (sql_cas P S c i v (update_terminal now JNull) db) = Inr (Some n)
    \<and> mem_get P c i s' = Inr (Some n)
    \<and> sql_get P S c i (snd (sql_cas P S c i v (update_terminal now JNull) db))
      = Inl (StorageTaskRoute TerminalStateMissing)"
proof -
  let ?u = "update_terminal now JNull"
  have inv: "mem_inv P s" using t by (simp add: table_of_def)
  from cas obtain r where r: "contents s i = Some r" "tr_caller r = c" "tr_version r = v"
    and tr: "transition P r ?u = Inr n"
    by (auto simp: mem_cas_cases [OF inv] split: option.splits if_splits sum.splits)
  note row = table_row [OF t r(1)]
  let ?db = "map (\<lambda>x. if rt_public x = i then the_row P n else x) db"
  note sql = sql_cas_success [OF t laws r tr]
  let ?n = "n\<lparr>tr_cached := None\<rparr>"
  have same: "tr_public_id n = i" "tr_caller n = c"
    using transition_follows(1) [OF tr] row(2) r(2) by (simp_all add: follows_def)
  have n: "tr_cached n = Some JNull" "tr_phase n = Terminal" "shape_ok P n"
    using tr by (auto simp: transition_Inr updated_route_def update_terminal_def shape_ok_def)
  have "storable ?n"
    using row(3) tr of_json_ok [of P "parse_json S"] laws
    by (auto simp: storable_def transition_Inr updated_route_def store_laws_def expected_integrity_def)
  moreover have "route_json P n = route_json P ?n"
    using n(1) by (simp add: route_json_def opt_json_def)
  ultimately have decode: "Option.bind (parse_json S (route_document P n)) (decode_route S) = Some ?n"
    using laws json_wf_route [of ?n P] by (simp add: store_laws_def json_laws_def route_document_def)
  have "checked_add (tr_created n) (tr_ttl n) = Some (tr_expires n)"
    using n(3) by (simp add: shape_ok_def checked_add_Some)
  then have "validate_shape P ?n = Inl TerminalStateMissing"
    using n by (simp add: validate_shape_def shape_ok_def guard_simps task_limits validate_identifier_def
        validate_optional_def not_less split: option.splits)
  then have bad: "decode_task_route P S (the_row P n) = Inl (StorageTaskRoute TerminalStateMissing)"
    using decode by (simp add: decode_task_route_def the_row_def task_verify_integrity_def)
  have "find (\<lambda>x. rt_public x = i \<and> rt_principal x = caller_principal c \<and> rt_tenant x = caller_tenant c) ?db
      = Some (the_row P n)"
  proof (rule find_unique)
    show "the_row P n \<in> set ?db" using row(1,2) by force
    fix y assume y: "y \<in> set ?db" "rt_public y = i \<and> rt_principal y = caller_principal c \<and> rt_tenant y = caller_tenant c"
    from y(1) obtain x where "y = (if rt_public x = i then the_row P n else x)" unfolding set_map by (rule imageE)
    with y(2) show "y = the_row P n" by (auto split: if_splits)
  qed (simp add: same)
  then have "sql_get P S c i ?db = Inl (StorageTaskRoute TerminalStateMissing)"
    by (simp add: sql_get_def select_by_public_id_def decoded_def bad)
  moreover have "mem_inv P s'" "contents s' i = Some n"
    using cas mem_cas_inv [OF inv, of c i v ?u] r tr by (auto simp: mem_cas_cases [OF inv] contents_def)
  ultimately show ?thesis
    using same by (simp add: sql mem_get_result)
qed

section \<open>Concrete inputs\<close>

text \<open>A decoder of the records \<open>route_json\<close> writes: the fields by position.\<close>

fun un_str :: "json \<Rightarrow> string" where
  "un_str (JStr s) = s"
| "un_str _ = []"

fun un_u64 :: "json \<Rightarrow> u64" where
  "un_u64 (JNum (PosInt w)) = w"
| "un_u64 _ = 0"

fun un_opt :: "json \<Rightarrow> string option" where
  "un_opt (JStr s) = Some s"
| "un_opt _ = None"

fun un_obj :: "json \<Rightarrow> json list" where
  "un_obj (JObj es) = map snd es"
| "un_obj _ = []"

definition un_digest :: "json \<Rightarrow> sha256_digest" where
  "un_digest v = projr (digest_from_str codec_platform (un_str v))"

definition un_kind :: "json \<Rightarrow> capability_kind" where
  "un_kind v = the (find (\<lambda>k. kind_name k = un_str v) [Tool, Resource, ResourceTemplate, Prompt, Model])"

definition un_phase :: "json \<Rightarrow> task_phase" where
  "un_phase v = the (find (\<lambda>k. phase_name k = un_str v)
     [Prepared, Dispatching, Routed, Terminal, ReconciliationRequired, CancelRequested])"

definition un_capability :: "json \<Rightarrow> capability_id" where
  "un_capability v =
     \<lparr>cap_source = un_str (un_obj v ! 0), cap_kind = un_kind (un_obj v ! 1),
      native_identity_digest = un_digest (un_obj v ! 2), cap_schema_digest = un_digest (un_obj v ! 3),
      cap_revision = un_str (un_obj v ! 4), source_configuration_digest = un_digest (un_obj v ! 5)\<rparr>"

definition un_cached :: "json \<Rightarrow> json option" where
  "un_cached v = (if v = JNull then None else Some v)"

definition sample_decode :: "json \<Rightarrow> task_route option" where
  "sample_decode v =
     (let f = (\<lambda>i. un_obj v ! i) in
      Some \<lparr>tr_schema_version = ucast (un_u64 (f 0)), tr_public_id = un_str (f 1),
        tr_caller = \<lparr>caller_principal = un_str (un_obj (f 2) ! 0), caller_tenant = un_str (un_obj (f 2) ! 1)\<rparr>,
        tr_idempotency_key = un_opt (f 3), tr_request_digest = un_digest (f 4), tr_binding = f 5,
        tr_capability = un_capability (f 6), tr_source = un_str (f 7), tr_session = un_str (f 8),
        tr_upstream = un_opt (f 9), tr_owner = un_opt (f 10), tr_phase = un_phase (f 11),
        tr_created = un_u64 (f 12), tr_updated = un_u64 (f 13), tr_ttl = un_u64 (f 14),
        tr_expires = un_u64 (f 15), tr_version = un_u64 (f 16),
        tr_cached = un_cached (f 17), tr_integrity = un_digest (f 18)\<rparr>)"

definition sample_serde :: route_serde where
  "sample_serde = \<lparr>parse_json = parse_sample, decode_route = sample_decode\<rparr>"

lemma un_opt_json [simp]: "un_opt (opt_json JStr x) = x"
  by (cases x) (simp_all add: opt_json_def)

lemma un_digest_json: "digest_ok d \<Longrightarrow> un_digest (digest_json codec_platform d) = d"
  using digest_of_digest_json [of codec_platform d] codec_laws
  by (simp add: un_digest_def digest_json_def json_laws_def)

lemma un_kind_name [simp]: "un_kind (JStr (kind_name k)) = k"
  by (cases k) (simp_all add: un_kind_def)

lemma un_phase_name [simp]: "un_phase (JStr (phase_name k)) = k"
  by (cases k) (simp_all add: un_phase_def)

lemma un_capability_json: "capability_ok c \<Longrightarrow> un_capability (capability_json codec_platform c) = c"
  by (simp add: un_capability_def capability_json_def capability_ok_def un_digest_json)

lemma u16_of_u64: "ucast (ucast w :: u64) = (w :: u16)"
proof -
  have "unat w < 2 ^ 64" using unat_bound [of w] by simp
  then show ?thesis
    by (simp add: word_unat_eq_iff unsigned_ucast_eq unsigned_take_bit_eq take_bit_nat_eq_self)
qed

lemma sample_decode_route:
  assumes "storable r"
  shows "sample_decode (route_json codec_platform r) = Some r"
proof -
  have cached: "un_cached (opt_json (\<lambda>v. v) x) = x" if "x \<noteq> Some JNull" for x
    using that by (cases x) (auto simp: opt_json_def un_cached_def)
  have "tr_cached r \<noteq> Some JNull" "capability_ok (tr_capability r)"
    using assms by (auto simp: storable_def)
  with assms show ?thesis
    by (simp add: sample_decode_def route_json_def un_capability_json cached u16_of_u64 un_digest_json storable_def u16_json_def
        u64_json_def caller_json_def)
qed

lemma sample_store_laws: "store_laws codec_platform sample_serde"
  using codec_laws sample_decode_route by (simp add: store_laws_def sample_serde_def)

definition codec_caller :: task_caller where
  "codec_caller = \<lparr>caller_principal = ''alice'', caller_tenant = ''acme''\<rparr>"

definition codec_draft :: task_route where
  "codec_draft = prepared_route ''gmt_1'' codec_caller (Some ''k1'') (of_json codec_platform JNull) JNull
     (capability_new codec_platform ''docs'' Tool ''search'' (of_json codec_platform JNull) ''2026-07-28'' (of_json codec_platform JNull))
     ''s1'' 1000 500 1500"

definition codec_task :: task_route where
  "codec_task = codec_draft\<lparr>tr_integrity := expected_integrity codec_platform codec_draft\<rparr>"

lemma codec_shape: "shape_ok codec_platform codec_draft"
  by (simp add: shape_ok_def codec_draft_def codec_caller_def prepared_route_def sample_identifiers
      TASK_ROUTE_SCHEMA_VERSION_def capability_new_def canonical_bytes_def codec_platform_def
      sample_platform_def MAX_SQLITE_INTEGER_def)

lemma codec_task_prepared: "verify_prepared_for_begin codec_platform codec_task = Inr ()"
proof -
  have "validate_shape codec_platform codec_draft = Inr ()" using codec_shape by (simp add: validate_shape_Inr)
  then have "prepare_with_id codec_platform ''gmt_1'' codec_caller (Some ''k1'') (of_json codec_platform JNull) JNull
     (capability_new codec_platform ''docs'' Tool ''search'' (of_json codec_platform JNull) ''2026-07-28'' (of_json codec_platform JNull))
     ''s1'' 1000 500 = Inr codec_task"
    by (simp add: prepare_with_id_def Let_def codec_task_def codec_draft_def [symmetric] checked_add_def)
  note facts = prepare_Inr [OF this]
  then have "task_verify_integrity codec_platform codec_task = Inr ()" by (simp add: guard_simps)
  with facts show ?thesis by (simp add: verify_prepared_for_begin_def)
qed

lemma codec_digest_ok: "digest_ok (of_json codec_platform v)"
  using codec_laws by (rule of_json_ok)

lemma codec_bytes_ok: "digest_ok (of_bytes codec_platform b)"
  using codec_laws by (simp add: json_laws_def digest_ok_def of_bytes_def)

lemma codec_task_storable: "storable codec_task"
  by (simp add: storable_def codec_task_def codec_draft_def prepared_route_def is_value_def capability_ok_def
      capability_new_def codec_digest_ok codec_bytes_ok expected_integrity_def)

lemma codec_task_fields:
  "tr_public_id codec_task = ''gmt_1''" "tr_caller codec_task = codec_caller"
  "tr_idempotency_key codec_task = Some ''k1''" "tr_created codec_task = 1000" "tr_expires codec_task = 1500"
  by (simp_all add: codec_task_def codec_draft_def prepared_route_def)


end
