(* ===== verification/Database.thy ===== *)
theory Database
  imports Sqlite
begin

text \<open>
  Models the rest of the SQLite half of \<open>crates/gaugemesh-core/src/storage.rs\<close>: the schema
  migrations of \<open>migrate\<close> and the table \<open>leases\<close>. The schema is the set of table names and the
  recorded versions; a migration transaction that fails leaves the schema as it was. Reading a
  lease parses its document and compares the digest column with the one in the document.
\<close>

section \<open>Migrations\<close>

record schema =
  schema_tables :: "string fset"
  schema_versions :: "int fset"

definition STORAGE_SCHEMA_VERSION :: int where "STORAGE_SCHEMA_VERSION = 3"

datatype storage_error = UnsupportedSchema int | SqliteFailure | JsonFailure | PoisonedStore

definition create_if_absent :: "string \<Rightarrow> schema \<Rightarrow> schema" where
  "create_if_absent t s = s\<lparr>schema_tables := finsert t (schema_tables s)\<rparr>"

definition create_table :: "string \<Rightarrow> schema \<Rightarrow> (storage_error, schema) res" where
  "create_table t s = (if t |\<in>| schema_tables s then Inl SqliteFailure else Inr (create_if_absent t s))"

text \<open>\<open>INSERT OR IGNORE\<close> and \<open>INSERT\<close> into the primary key column.\<close>

definition insert_or_ignore :: "int \<Rightarrow> schema \<Rightarrow> schema" where
  "insert_or_ignore v s = s\<lparr>schema_versions := finsert v (schema_versions s)\<rparr>"

definition insert_version :: "int \<Rightarrow> schema \<Rightarrow> (storage_error, schema) res" where
  "insert_version v s = (if v |\<in>| schema_versions s then Inl SqliteFailure else Inr (insert_or_ignore v s))"

text \<open>\<open>COALESCE(MAX(version), 0)\<close>\<close>

definition current_version :: "schema \<Rightarrow> int" where
  "current_version s = (if schema_versions s = {||} then 0 else fMax (schema_versions s))"

definition migrate_1 :: "int \<Rightarrow> schema \<Rightarrow> schema" where
  "migrate_1 current s =
     (if current < 1 then insert_or_ignore 1 (create_if_absent ''leases'' s) else s)"

definition migrate_2 :: "int \<Rightarrow> schema \<Rightarrow> schema" where
  "migrate_2 current s =
     (if current < 2 then insert_or_ignore 2 (create_if_absent ''task_routes'' s) else s)"

definition migrate_3 :: "int \<Rightarrow> schema \<Rightarrow> (storage_error, schema) res" where
  "migrate_3 current s =
     (if current < 3 then
        rbind (create_table ''runs'' s) (\<lambda>s.
        rbind (create_table ''run_journal'' s) (insert_version 3))
      else Inr s)"

text \<open>The migrations table itself is created before the transaction begins.\<close>

definition migrate :: "schema \<Rightarrow> (storage_error, unit) res \<times> schema" where
  "migrate s0 =
     (let s = create_if_absent ''schema_migrations'' s0;
          current = current_version s in
      if current > STORAGE_SCHEMA_VERSION then (Inl (UnsupportedSchema current), s)
      else case migrate_3 current (migrate_2 current (migrate_1 current s)) of
             Inl e \<Rightarrow> (Inl e, s)
           | Inr s' \<Rightarrow> (Inr (), s'))"

text \<open>The schemas released versions leave behind: the first \<open>n\<close> migrations applied to an empty file.\<close>

definition level_tables :: "nat \<Rightarrow> string fset" where
  "level_tables n = fset_of_list (''schema_migrations'' # (if n \<ge> 1 then [''leases''] else [])
     @ (if n \<ge> 2 then [''task_routes''] else []) @ (if n \<ge> 3 then [''runs'', ''run_journal''] else []))"

definition level :: "nat \<Rightarrow> schema" where
  "level n = \<lparr>schema_tables = level_tables n, schema_versions = fset_of_list (map int [1..<Suc n])\<rparr>"

definition schema_empty :: schema where
  "schema_empty = \<lparr>schema_tables = {||}, schema_versions = {||}\<rparr>"

lemmas schema_defs = migrate_def migrate_1_def migrate_2_def migrate_3_def create_if_absent_def
  create_table_def insert_or_ignore_def insert_version_def STORAGE_SCHEMA_VERSION_def

lemma current_level: "current_version (level n) = int n"
proof (cases n)
  case (Suc m)
  have "fMax (fset_of_list (map int [1..<Suc n])) = int n"
    unfolding fMax.F.rep_eq fset_of_list.rep_eq by (rule Max_eqI) (auto simp: Suc)
  then show ?thesis by (simp add: current_version_def level_def Suc fset_of_list_elem)
qed (simp add: current_version_def level_def)

lemma level_has_migrations: "create_if_absent ''schema_migrations'' (level n) = level n"
  by (simp add: create_if_absent_def level_def level_tables_def)

lemma migrate_level: "n \<le> 3 \<Longrightarrow> migrate (level n) = (Inr (), level 3)"
proof -
  assume "n \<le> 3"
  then consider "n = 0" | "n = 1" | "n = 2" | "n = 3" by linarith
  then show ?thesis
    by cases (simp_all add: migrate_def level_has_migrations current_level,
        simp_all add: schema_defs level_def level_tables_def numeral_3_eq_3 numeral_2_eq_2
          finsert_commute guard_simps fset_of_list_elem)
qed

lemma migrate_empty: "migrate schema_empty = (Inr (), level 3)"
  by (simp add: schema_empty_def migrate_def, simp add: schema_defs level_def level_tables_def
      current_version_def numeral_3_eq_3 numeral_2_eq_2 finsert_commute guard_simps fset_of_list_elem)

section \<open>The table of leases\<close>

record lease_row =
  lr_id :: string
  lr_manifest :: string
  lr_document :: string

record lease_serde =
  parse_lease :: "string \<Rightarrow> json option"
  decode_lease :: "json \<Rightarrow> capability_lease option"

text \<open>The derived \<open>Serialize\<close> of \<open>CapabilityLease\<close>.\<close>

definition lease_json :: "platform \<Rightarrow> capability_lease \<Rightarrow> json" where
  "lease_json P l =
     JObj [(''id'', JStr (lease_id l)),
           (''principal'', JStr (lease_principal l)),
           (''tenant'', JStr (lease_tenant l)),
           (''request_identity'', JStr (request_identity l)),
           (''capabilities'', JArr (map (capability_json P) (capabilities l))),
           (''scope'', string_set_json (lease_scope l)),
           (''expires_at_monotonic_ms'', u64_json (expires_at l)),
           (''monetary_budget'', u64_json (lease_money l)),
           (''token_budget'', u64_json (lease_tokens l)),
           (''retry_budget'', u16_json (lease_retries l)),
           (''side_effects'', JArr (map (\<lambda>s. JStr (side_effect_name s))
                                     (sorted_list_of_fset (side_effects l)))),
           (''manifest_digest'', digest_json P (manifest l))]"

definition lease_row_of :: "platform \<Rightarrow> capability_lease \<Rightarrow> lease_row" where
  "lease_row_of P l = \<lparr>lr_id = lease_id l, lr_manifest = digest_to_string P (manifest l),
                       lr_document = json_to_vec P (lease_json P l)\<rparr>"

text \<open>\<open>INSERT \<dots> ON CONFLICT(id) DO UPDATE\<close>, the \<open>SELECT\<close> by the primary key, and the \<open>DELETE\<close>.\<close>

definition sql_lease_put :: "platform \<Rightarrow> capability_lease \<Rightarrow> lease_row list \<Rightarrow> lease_row list" where
  "sql_lease_put P l db =
     (let row = lease_row_of P l in
      if list_ex (\<lambda>x. lr_id x = lease_id l) db
      then map (\<lambda>x. if lr_id x = lease_id l
                    then x\<lparr>lr_manifest := lr_manifest row, lr_document := lr_document row\<rparr> else x) db
      else db @ [row])"

definition sql_lease_get ::
  "platform \<Rightarrow> lease_serde \<Rightarrow> string \<Rightarrow> lease_row list \<Rightarrow> (storage_error, capability_lease option) res" where
  "sql_lease_get P S i db =
     (case find (\<lambda>x. lr_id x = i) db of
        None \<Rightarrow> Inr None
      | Some row \<Rightarrow>
          rbind (ok_or (Option.bind (parse_lease S (lr_document row)) (decode_lease S)) JsonFailure) (\<lambda>l.
          rbind (map_err (\<lambda>_. PoisonedStore) (digest_from_str P (lr_manifest row))) (\<lambda>parsed.
            if parsed \<noteq> manifest l then Inl PoisonedStore else Inr (Some l))))"

definition sql_lease_remove :: "string \<Rightarrow> lease_row list \<Rightarrow> lease_row list" where
  "sql_lease_remove i db = filter (\<lambda>x. lr_id x \<noteq> i) db"

definition lease_storable :: "capability_lease \<Rightarrow> bool" where
  "lease_storable l \<longleftrightarrow> digest_ok (manifest l) \<and> list_all capability_ok (capabilities l)"

definition lease_laws :: "platform \<Rightarrow> lease_serde \<Rightarrow> bool" where
  "lease_laws P S \<longleftrightarrow> json_laws P (parse_lease S)
     \<and> (\<forall>l. lease_storable l \<longrightarrow> decode_lease S (lease_json P l) = Some l)"

lemma lease_json_wf: "json_wf (lease_json P l)"
  by (simp add: lease_json_def string_set_json_def u64_json_def u16_json_def digest_json_def
      capability_json_def list_all_iff)

lemma find_replaced:
  "find (\<lambda>x. lr_id x = i) (map (\<lambda>x. if lr_id x = j then x\<lparr>lr_manifest := m, lr_document := d\<rparr> else x) db)
   = (if i = j \<and> list_ex (\<lambda>x. lr_id x = j) db then Some \<lparr>lr_id = j, lr_manifest = m, lr_document = d\<rparr>
      else find (\<lambda>x. lr_id x = i) db)"
proof (induction db)
  case (Cons x db)
  then show ?case by (cases x) auto
qed simp

lemma find_after_put:
  "find (\<lambda>x. lr_id x = i) (sql_lease_put P l db)
   = (if i = lease_id l then Some (lease_row_of P l) else find (\<lambda>x. lr_id x = i) db)"
proof (cases "list_ex (\<lambda>x. lr_id x = lease_id l) db")
  case True
  then show ?thesis
    using find_replaced [of i "lease_id l"] by (simp add: sql_lease_put_def lease_row_of_def Let_def)
next
  case False
  then have "find (\<lambda>x. lr_id x = i) (db @ [x]) = (if i = lr_id x then Some x else find (\<lambda>x. lr_id x = i) db)"
    if "lr_id x = lease_id l" for x
    using that by (induction db) auto
  with False show ?thesis by (simp add: sql_lease_put_def lease_row_of_def Let_def)
qed

lemma find_after_remove:
  "find (\<lambda>x. lr_id x = i) (sql_lease_remove j db) = (if i = j then None else find (\<lambda>x. lr_id x = i) db)"
  by (induction db) (auto simp: sql_lease_remove_def)

lemma get_written_lease:
  assumes "lease_laws P S" "lease_storable l"
  shows "sql_lease_get P S i (sql_lease_put P l db) = (if i = lease_id l then Inr (Some l) else sql_lease_get P S i db)"
  using assms lease_json_wf [of P l] digest_of_digest_json [of P "manifest l"]
  by (simp add: sql_lease_get_def find_after_put lease_row_of_def lease_laws_def json_laws_def
      lease_storable_def guard_simps)

definition stored_lease :: "platform \<Rightarrow> lease_serde \<Rightarrow> string \<Rightarrow> lease_row list \<Rightarrow> capability_lease option" where
  "stored_lease P S i db = (case sql_lease_get P S i db of Inl _ \<Rightarrow> None | Inr l \<Rightarrow> l)"

interpretation sqlite_leases: lease_store "sql_lease_put P" "stored_lease P S" sql_lease_remove
  "\<lambda>l. lease_laws P S \<and> lease_storable l" for P S
  by unfold_locales
    (auto simp: stored_lease_def get_written_lease, simp_all add: sql_lease_get_def find_after_remove)

section \<open>Properties\<close>

text \<open>
  Opening a database brings the schema of every released version, and an empty file, to
  version 3, and refuses the schema of a later version without changing it.
\<close>

theorem migrate_reaches_current:
  "migrate schema_empty = (Inr (), level 3)
   \<and> migrate (level n) = (if n \<le> 3 then (Inr (), level 3) else (Inl (UnsupportedSchema (int n)), level n))"
proof -
  have "migrate (level n) = (Inl (UnsupportedSchema (int n)), level n)" if "\<not> n \<le> 3"
    using that by (simp add: migrate_def level_has_migrations current_level STORAGE_SCHEMA_VERSION_def)
  then show ?thesis using migrate_level migrate_empty by auto
qed

text \<open>
  In SQLite as in memory the last lease put under an id is the one found, until it is removed; a row
  whose digest column and document disagree is reported and never returned.
\<close>

theorem sqlite_lease_roundtrip:
  assumes "lease_laws P S" "lease_storable l" "digest_ok d"
  shows "sql_lease_get P S (lease_id l) (sql_lease_put P l db) = Inr (Some l)
    \<and> sql_lease_get P S (lease_id l) (sql_lease_remove (lease_id l) (sql_lease_put P l db)) = Inr None
    \<and> sql_lease_get P S (lease_id l) [(lease_row_of P l)\<lparr>lr_manifest := digest_to_string P d\<rparr>]
      = (if d = manifest l then Inr (Some l) else Inl PoisonedStore)"
proof -
  have "digest_from_str P (digest_to_string P d) = Inr d"
    using assms(1,3) by (simp add: lease_laws_def json_laws_def digest_of_digest_json)
  moreover have "Option.bind (parse_lease S (json_to_vec P (lease_json P l))) (decode_lease S) = Some l"
    using assms lease_json_wf [of P l] by (simp add: lease_laws_def json_laws_def)
  ultimately have "sql_lease_get P S (lease_id l) [(lease_row_of P l)\<lparr>lr_manifest := digest_to_string P d\<rparr>]
      = (if d = manifest l then Inr (Some l) else Inl PoisonedStore)"
    by (simp add: sql_lease_get_def lease_row_of_def guard_simps)
  moreover have "sql_lease_get P S i (sql_lease_remove i db) = Inr None" for i db
    by (simp add: sql_lease_get_def find_after_remove)
  ultimately show ?thesis using assms by (simp add: get_written_lease)
qed

section \<open>Concrete inputs\<close>

definition un_strings :: "json \<Rightarrow> string list" where
  "un_strings v = (case v of JArr vs \<Rightarrow> map un_str vs | _ \<Rightarrow> [])"

definition un_items :: "json \<Rightarrow> json list" where
  "un_items v = (case v of JArr vs \<Rightarrow> vs | _ \<Rightarrow> [])"

definition un_effect :: "json \<Rightarrow> side_effect_class" where
  "un_effect v = the (find (\<lambda>k. side_effect_name k = un_str v)
     [ReadOnly, IdempotentWrite, NonIdempotentWrite])"

definition sample_decode_lease :: "json \<Rightarrow> capability_lease option" where
  "sample_decode_lease v =
     (let f = (\<lambda>i. un_obj v ! i) in
      Some \<lparr>lease_id = un_str (f 0), lease_principal = un_str (f 1), lease_tenant = un_str (f 2),
        request_identity = un_str (f 3), capabilities = map un_capability (un_items (f 4)),
        lease_scope = fset_of_list (un_strings (f 5)), expires_at = un_u64 (f 6),
        lease_money = un_u64 (f 7), lease_tokens = un_u64 (f 8), lease_retries = ucast (un_u64 (f 9)),
        side_effects = fset_of_list (map un_effect (un_items (f 10))), manifest = un_digest (f 11)\<rparr>)"

definition sample_lease_serde :: lease_serde where
  "sample_lease_serde = \<lparr>parse_lease = parse_sample, decode_lease = sample_decode_lease\<rparr>"

lemma un_effect_name [simp]: "un_effect (JStr (side_effect_name k)) = k"
  by (cases k) (simp_all add: un_effect_def)

lemma un_strings_json [simp]: "fset_of_list (un_strings (string_set_json s)) = s"
  by (simp add: un_strings_def string_set_json_def comp_def fset_eq_iff fset_of_list_elem)

lemma sample_lease_laws: "lease_laws codec_platform sample_lease_serde"
proof -
  have "sample_decode_lease (lease_json codec_platform l) = Some l" if "lease_storable l" for l
  proof -
    have "map un_capability (map (capability_json codec_platform) (capabilities l)) = capabilities l"
      using that by (simp add: lease_storable_def list_all_iff un_capability_json map_idI)
    moreover have "fset_of_list (map un_effect (map (\<lambda>s. JStr (side_effect_name s)) (sorted_list_of_fset (side_effects l))))
        = side_effects l"
      by (simp add: comp_def fset_eq_iff fset_of_list_elem)
    moreover have "un_digest (digest_json codec_platform (manifest l)) = manifest l"
      using that by (simp add: lease_storable_def un_digest_json)
    ultimately show ?thesis
      by (simp add: sample_decode_lease_def lease_json_def un_items_def u64_json_def u16_json_def u16_of_u64
          del: map_map)
  qed
  then show ?thesis using codec_laws by (simp add: lease_laws_def sample_lease_serde_def)
qed

definition codec_lease :: capability_lease where
  "codec_lease = issue codec_platform
     \<lparr>lease_id = ''l1'', lease_principal = ''alice'', lease_tenant = ''acme'', request_identity = ''r1'',
      capabilities = [tr_capability codec_draft], lease_scope = {|''read''|}, expires_at = 2000,
      lease_money = 10, lease_tokens = 20, lease_retries = 1, side_effects = {||},
      manifest = default_digest\<rparr>"

theorem sqlite_lease_roundtrip_witness:
  "sql_lease_get codec_platform sample_lease_serde ''l1'' (sql_lease_put codec_platform codec_lease [])
   = Inr (Some codec_lease)"
proof -
  have "lease_storable codec_lease"
    by (simp add: lease_storable_def codec_lease_def issue_def issue_with_side_effects_def manifest_digest_def
        codec_digest_ok codec_bytes_ok sort_capabilities_def codec_draft_def prepared_route_def
        capability_ok_def capability_new_def)
  moreover have "lease_id codec_lease = ''l1''"
    by (simp add: codec_lease_def issue_def issue_with_side_effects_def)
  ultimately show ?thesis
    using sqlite_lease_roundtrip [OF sample_lease_laws, of codec_lease "of_json codec_platform JNull" "[]"]
      codec_digest_ok by simp
qed

end
