(* ===== verification/Task_Wire.thy ===== *)
theory Task_Wire
  imports Storage Federation
begin

text \<open>
  Models the data half of \<open>crates/gaugemesh/src/task_proxy.rs\<close>: task submissions and their checks,
  the binding and the execution envelope derived from them, and the answers built from a stored
  route. The derived deserializer of a submission, the wire types of the crate \<open>rmcp\<close> and the
  formatting of times by \<open>chrono\<close> are arguments; a record here has the fields of the wire type that
  the code reads or writes.
\<close>

definition TASK_SUBMISSION_SCHEMA :: string where "TASK_SUBMISSION_SCHEMA = ''gaugemesh.task-submission/1''"
definition TASK_EXECUTION_SCHEMA :: string where "TASK_EXECUTION_SCHEMA = ''gaugemesh.task-execution/1''"
definition TASK_EXECUTION_META_KEY :: string where "TASK_EXECUTION_META_KEY = ''dev.gaugemesh/taskExecution''"
definition MAX_TASK_INPUT_BYTES :: nat where "MAX_TASK_INPUT_BYTES = 64 * 1024"
definition MAX_TASK_RUNTIME_MS :: u64 where "MAX_TASK_RUNTIME_MS = 30000"
definition MAX_TASK_LIFECYCLE_REQUEST_MS :: u64 where "MAX_TASK_LIFECYCLE_REQUEST_MS = 5000"
definition MAX_TASK_OUTPUT_BYTES :: u64 where "MAX_TASK_OUTPUT_BYTES = 65536"
definition MAX_TASK_ARTIFACT_BYTES :: u64 where "MAX_TASK_ARTIFACT_BYTES = 8388608"
definition MAX_TASK_RETENTION_MS :: u64 where "MAX_TASK_RETENTION_MS = 3600000"
definition MAX_TASK_IDENTIFIER_BYTES :: nat where "MAX_TASK_IDENTIFIER_BYTES = 128"
definition MAX_ROUTE_CAS_ATTEMPTS :: nat where "MAX_ROUTE_CAS_ATTEMPTS = 4"
definition MAX_RAW_MANAGEMENT_TASK_ID_BYTES :: nat where "MAX_RAW_MANAGEMENT_TASK_ID_BYTES = 4 * 1024"

section \<open>Submissions\<close>

record task_limits =
  max_runtime :: u64
  max_output :: u64
  max_artifact :: u64
  max_attempts :: u16

record task_submission =
  sb_schema :: string
  sb_logical :: string
  sb_attempt :: string
  sb_correlation :: string
  sb_key :: string
  sb_input :: sha256_digest
  sb_acceptance :: sha256_digest
  sb_artifact_scope :: sha256_digest
  sb_provider :: string
  sb_deadline :: u64
  sb_retention :: u64
  sb_limits :: task_limits
  sb_effect :: side_effect_class
  sb_cleanup :: bool

definition limits_json :: "task_limits \<Rightarrow> json" where
  "limits_json l = json_object
     [(''maxRuntimeMs'', u64_json (max_runtime l)), (''maxOutputBytes'', u64_json (max_output l)),
      (''maxArtifactBytes'', u64_json (max_artifact l)), (''maxAttempts'', u16_json (max_attempts l))]"

definition submission_json :: "platform \<Rightarrow> task_submission \<Rightarrow> json" where
  "submission_json P s = json_object
     [(''schemaVersion'', JStr (sb_schema s)), (''logicalTaskId'', JStr (sb_logical s)),
      (''attemptId'', JStr (sb_attempt s)), (''correlationId'', JStr (sb_correlation s)),
      (''idempotencyKey'', JStr (sb_key s)), (''inputSha256'', digest_json P (sb_input s)),
      (''acceptancePolicySha256'', digest_json P (sb_acceptance s)),
      (''artifactScopeSha256'', digest_json P (sb_artifact_scope s)),
      (''providerInterfaceVersion'', JStr (sb_provider s)), (''deadlineUnixMs'', u64_json (sb_deadline s)),
      (''retentionMs'', u64_json (sb_retention s)), (''limits'', limits_json (sb_limits s)),
      (''permittedEffect'', JStr (side_effect_name (sb_effect s))),
      (''cleanupRequired'', JBool (sb_cleanup s))]"

definition valid_identifier :: "string \<Rightarrow> bool" where
  "valid_identifier s \<longleftrightarrow> s \<noteq> [] \<and> length s \<le> MAX_TASK_IDENTIFIER_BYTES
     \<and> (\<forall>c \<in> set (utf8_chars s). \<not> char_is_control c \<and> \<not> char_is_whitespace c)"

text \<open>The three groups of numeric checks.\<close>

definition deadline_invalid :: "task_submission \<Rightarrow> u64 \<Rightarrow> bool" where
  "deadline_invalid s now \<longleftrightarrow> sb_deadline s \<le> now
     \<or> saturating_sub (sb_deadline s) now > MAX_TASK_RETENTION_MS"

definition limits_invalid :: "task_submission \<Rightarrow> u64 \<Rightarrow> bool" where
  "limits_invalid s now \<longleftrightarrow> sb_retention s < max_runtime (sb_limits s)
     \<or> sb_deadline s > saturating_add now (sb_retention s) \<or> sb_retention s > MAX_TASK_RETENTION_MS
     \<or> max_runtime (sb_limits s) = 0 \<or> max_runtime (sb_limits s) > MAX_TASK_RUNTIME_MS
     \<or> max_output (sb_limits s) = 0 \<or> max_output (sb_limits s) > MAX_TASK_OUTPUT_BYTES
     \<or> max_artifact (sb_limits s) = 0 \<or> max_artifact (sb_limits s) > MAX_TASK_ARTIFACT_BYTES
     \<or> max_attempts (sb_limits s) \<noteq> 1"

text \<open>\<open>decode\<close> is the derived deserializer; the errors are the codes of the source.\<close>

definition submission_parse ::
  "platform \<Rightarrow> (json \<Rightarrow> task_submission option) \<Rightarrow> json \<Rightarrow> (string \<times> json) list \<Rightarrow> string
   \<Rightarrow> side_effect_class \<Rightarrow> u64 \<Rightarrow> (string, task_submission) res" where
  "submission_parse P decode value arguments expected_provider required_effect now =
     (if length (json_to_vec P (JObj arguments)) > MAX_TASK_INPUT_BYTES
      then Inl ''GM_TASK_INPUT_LIMIT_EXCEEDED''
      else
        rbind (ok_or (decode value) ''GM_TASK_SUBMISSION_INVALID'') (\<lambda>s.
        if sb_schema s \<noteq> TASK_SUBMISSION_SCHEMA then Inl ''GM_TASK_SCHEMA_UNSUPPORTED''
        else if list_ex (\<lambda>v. \<not> valid_identifier v)
                  [sb_logical s, sb_attempt s, sb_correlation s, sb_key s, sb_provider s]
        then Inl ''GM_TASK_IDENTITY_INVALID''
        else if sb_input s \<noteq> of_json P (JObj arguments) then Inl ''GM_TASK_INPUT_IDENTITY_MISMATCH''
        else if sb_provider s \<noteq> expected_provider then Inl ''GM_TASK_PROVIDER_VERSION_UNSUPPORTED''
        else if sb_acceptance s = default_digest \<or> sb_artifact_scope s = default_digest
        then Inl ''GM_TASK_POLICY_IDENTITY_INVALID''
        else if deadline_invalid s now then Inl ''GM_TASK_DEADLINE_INVALID''
        else if limits_invalid s now then Inl ''GM_TASK_RESOURCE_LIMIT_INVALID''
        else if sb_effect s \<noteq> required_effect then Inl ''GM_TASK_EFFECT_MISMATCH''
        else if \<not> sb_cleanup s then Inl ''GM_TASK_CLEANUP_REQUIRED''
        else Inr s))"

definition submission_binding :: "platform \<Rightarrow> federated_tool \<Rightarrow> task_submission \<Rightarrow> sha256_digest \<Rightarrow> json" where
  "submission_binding P tool task snapshot = json_object
     [(''schemaVersion'', JStr ''gaugemesh.task-route/1''),
      (''capabilityId'', digest_json P (capability_digest P (ft_identity tool))),
      (''capabilitySource'', JStr (cap_source (ft_identity tool))),
      (''capabilitySchemaSha256'', digest_json P (cap_schema_digest (ft_identity tool))),
      (''sourceConfigurationSha256'', digest_json P (source_configuration_digest (ft_identity tool))),
      (''sourceSnapshotSha256'', digest_json P snapshot),
      (''task'', submission_json P task)]"

definition execution_envelope :: "platform \<Rightarrow> task_route \<Rightarrow> json" where
  "execution_envelope P r = json_object
     [(''schemaVersion'', JStr TASK_EXECUTION_SCHEMA), (''publicTaskId'', JStr (tr_public_id r)),
      (''requestSha256'', digest_json P (tr_request_digest r)), (''submission'', tr_binding r),
      (''upstreamSessionId'', JStr (tr_session r))]"

type_synonym meta_object = "(string \<times> json) list"

definition execution_ack_matches :: "platform \<Rightarrow> meta_object option \<Rightarrow> task_route \<Rightarrow> bool" where
  "execution_ack_matches P meta r \<longleftrightarrow>
     Option.bind meta (\<lambda>m. map_of m TASK_EXECUTION_META_KEY) = Some (execution_envelope P r)"

definition output_limit :: "task_route \<Rightarrow> nat" where
  "output_limit r =
     (case Option.bind (json_pointer [''task'', ''limits'', ''maxOutputBytes''] (tr_binding r)) json_u64 of
        None \<Rightarrow> unat MAX_TASK_OUTPUT_BYTES | Some n \<Rightarrow> unat n)"

definition execution_cutoff :: "task_route \<Rightarrow> u64" where
  "execution_cutoff r =
     (let deadline = (case Option.bind (json_pointer [''task'', ''deadlineUnixMs''] (tr_binding r)) json_u64 of
            None \<Rightarrow> tr_expires r | Some n \<Rightarrow> n);
          runtime = (case Option.bind (json_pointer [''task'', ''limits'', ''maxRuntimeMs''] (tr_binding r)) json_u64 of
            None \<Rightarrow> MAX_TASK_RUNTIME_MS | Some n \<Rightarrow> n)
      in min deadline (saturating_add (tr_created r) runtime))"

section \<open>Wire types\<close>

datatype task_status = StatusWorking | StatusCompleted | StatusFailed | StatusCancelled | OtherStatus string

record task_info =
  tk_id :: string
  tk_status :: task_status
  tk_message :: "string option"
  tk_created_at :: string
  tk_updated_at :: string
  tk_ttl :: "u64 option"
  tk_poll :: "u64 option"

datatype task_payload = PayloadWorking | PayloadCompleted meta_object | PayloadFailed meta_object | OtherPayload json

record detailed_task =
  dt_task :: task_info
  dt_payload :: task_payload

record get_task_result =
  gt_complete :: bool
  gt_task :: detailed_task
  gt_meta :: "meta_object option"

text \<open>
  A completed call is what \<open>serde_json::to_value\<close> makes of its result, if that succeeds, and its
  metadata.
\<close>

datatype call_tool_response =
    TaskCreated task_info "meta_object option"
  | CallComplete "json option" "meta_object option"
  | CallInputRequired
  | CallOther

record rmcp =
  detail_new :: "task_info \<Rightarrow> task_payload \<Rightarrow> detailed_task"
  result_new :: "detailed_task \<Rightarrow> get_task_result"
  detail_status :: "detailed_task \<Rightarrow> task_status"
  status_is_terminal :: "task_status \<Rightarrow> bool"
  detail_to_value :: "detailed_task \<Rightarrow> json option"
  detail_from_value :: "json \<Rightarrow> detailed_task option"
  result_to_vec :: "get_task_result \<Rightarrow> bytes option"
  chrono_rfc3339 :: "int \<Rightarrow> string option"

text \<open>An error whose message is the text of another error is kept as that error.\<close>

datatype mcp_error =
    InvalidParams string
  | InternalError string
  | InvalidTaskRoute task_error
  | StorageFailure task_storage_error

abbreviation unknown_task :: mcp_error where
  "unknown_task \<equiv> InvalidParams ''GM_TASK_NOT_FOUND''"

fun storage_mcp_error :: "task_storage_error \<Rightarrow> mcp_error" where
  "storage_mcp_error IdempotencyConflict = InvalidParams ''GM_TASK_IDEMPOTENCY_CONFLICT''"
| "storage_mcp_error StaleTransition = InvalidParams ''GM_TASK_STALE_TRANSITION''"
| "storage_mcp_error TaskRouteCapacity = InvalidParams ''GM_TASK_ROUTE_CAPACITY''"
| "storage_mcp_error other = StorageFailure other"

section \<open>Answers\<close>

definition rfc3339 :: "rmcp \<Rightarrow> u64 \<Rightarrow> string" where
  "rfc3339 R ms =
     (case (if unat ms < 2 ^ 63 then chrono_rfc3339 R (uint ms) else None) of
        None \<Rightarrow> ''1970-01-01T00:00:00.000Z'' | Some t \<Rightarrow> t)"

definition task_from_record :: "rmcp \<Rightarrow> task_route \<Rightarrow> task_status \<Rightarrow> string \<Rightarrow> task_info" where
  "task_from_record R r status message =
     \<lparr>tk_id = tr_public_id r, tk_status = status, tk_message = Some message,
      tk_created_at = rfc3339 R (tr_created r), tk_updated_at = rfc3339 R (tr_updated r),
      tk_ttl = Some (tr_ttl r), tk_poll = Some 100\<rparr>"

definition execution_state :: "task_route \<Rightarrow> string" where
  "execution_state r =
     (case tr_phase r of
        Prepared \<Rightarrow> ''not_dispatched''
      | Dispatching \<Rightarrow> ''acknowledgement_pending''
      | Routed \<Rightarrow> ''upstream_reported''
      | CancelRequested \<Rightarrow> ''cancellation_requested''
      | ReconciliationRequired \<Rightarrow> ''unknown''
      | Terminal \<Rightarrow>
          (case Option.bind (Option.bind (tr_cached r) (json_pointer [''error'', ''data'', ''executionState'']))
                  json_str of
             None \<Rightarrow> ''upstream_reported'' | Some s \<Rightarrow> s))"

definition route_limitations :: "string list" where
  "route_limitations =
     [''upstream completion is not independent verification'',
      ''task routing does not provide hostile-code containment'',
      ''remote workers must enforce declared runtime and artifact limits; no autonomous watchdog runs after acknowledgement'',
      ''no exactly-once external-execution claim'']"

definition route_meta :: "platform \<Rightarrow> task_route \<Rightarrow> string \<Rightarrow> meta_object" where
  "route_meta P r verification_status =
     [(''dev.gaugemesh/taskRoute'', json_object
        [(''schemaVersion'', JStr ''gaugemesh.task-route/1''), (''publicTaskId'', JStr (tr_public_id r)),
         (''requestSha256'', digest_json P (tr_request_digest r)),
         (''capabilityId'', digest_json P (capability_digest P (tr_capability r))),
         (''source'', JStr (tr_source r)), (''routePhase'', JStr (phase_name (tr_phase r))),
         (''transitionVersion'', u64_json (tr_version r)), (''submission'', tr_binding r),
         (''executionState'', JStr (execution_state r)),
         (''reconciliationRequired'', JBool (tr_phase r \<in> {ReconciliationRequired, CancelRequested})),
         (''verificationStatus'', JStr verification_status),
         (''policyAcceptance'', JStr ''not_evaluated_by_gaugemesh''),
         (''transactionOutcome'', JStr ''not_applicable_to_task_routing''),
         (''limitations'', JArr (map JStr route_limitations))])]"

definition task_handle :: "platform \<Rightarrow> rmcp \<Rightarrow> task_route \<Rightarrow> task_status option \<Rightarrow> call_tool_response" where
  "task_handle P R r status =
     (let status = (case status of
            Some s \<Rightarrow> s
          | None \<Rightarrow>
              if tr_phase r = Terminal then
                (case Option.bind (tr_cached r) (detail_from_value R) of
                   None \<Rightarrow> StatusFailed | Some d \<Rightarrow> detail_status R d)
              else StatusWorking);
          message = (case tr_phase r of
            Prepared \<Rightarrow> ''submission is durable; routing acknowledgement is pending''
          | Dispatching \<Rightarrow> ''dispatch intent is durable; upstream acknowledgement is pending''
          | ReconciliationRequired \<Rightarrow> ''GM_TASK_RECONCILIATION_REQUIRED''
          | CancelRequested \<Rightarrow> ''cancellation requested; poll for terminal state''
          | Routed \<Rightarrow> ''routed to the bound upstream capability''
          | Terminal \<Rightarrow> ''terminal state is durably cached'')
      in TaskCreated (task_from_record R r status message) (Some (route_meta P r ''not_performed'')))"

definition cached_detailed_task :: "rmcp \<Rightarrow> task_route \<Rightarrow> (mcp_error, detailed_task) res" where
  "cached_detailed_task R r =
     rbind (ok_or (tr_cached r) (InternalError ''GM_TASK_TERMINAL_STATE_MISSING'')) (\<lambda>v.
       ok_or (detail_from_value R v) (InternalError ''GM_TASK_TERMINAL_STATE_INVALID''))"

definition cached_task :: "platform \<Rightarrow> rmcp \<Rightarrow> task_route \<Rightarrow> (mcp_error, get_task_result) res" where
  "cached_task P R r =
     rbind (cached_detailed_task R r) (\<lambda>d.
       Inr ((result_new R (d\<lparr>dt_task := (dt_task d)\<lparr>tk_id := tr_public_id r\<rparr>\<rparr>))
              \<lparr>gt_meta := Some (route_meta P r ''not_performed'')\<rparr>))"

definition working_task_with_code :: "platform \<Rightarrow> rmcp \<Rightarrow> task_route \<Rightarrow> string \<Rightarrow> get_task_result" where
  "working_task_with_code P R r code =
     (result_new R (detail_new R (task_from_record R r StatusWorking code) PayloadWorking))
       \<lparr>gt_meta := Some (route_meta P r ''not_performed'')\<rparr>"

definition working_task :: "platform \<Rightarrow> rmcp \<Rightarrow> task_route \<Rightarrow> get_task_result" where
  "working_task P R r =
     working_task_with_code P R r ''submission is durable; routing acknowledgement is pending''"

definition reconciliation_task_with_code :: "platform \<Rightarrow> rmcp \<Rightarrow> task_route \<Rightarrow> string \<Rightarrow> get_task_result" where
  "reconciliation_task_with_code P R r code = working_task_with_code P R r code"

definition reconciliation_task :: "platform \<Rightarrow> rmcp \<Rightarrow> task_route \<Rightarrow> get_task_result" where
  "reconciliation_task P R r = reconciliation_task_with_code P R r ''GM_TASK_RECONCILIATION_REQUIRED''"

definition rejection_error :: "string \<Rightarrow> string \<Rightarrow> meta_object" where
  "rejection_error code state =
     btree_collect
       [(''code'', JNum (NegInt (-32001))), (''message'', JStr code),
        (''data'', json_object
           [(''executionState'', JStr state), (''brokerAcceptance'', JStr ''rejected''),
            (''reconciliationRequired'', JBool False), (''automaticResubmission'', JBool False)])]"

definition known_rejection_task :: "platform \<Rightarrow> rmcp \<Rightarrow> task_route \<Rightarrow> string \<Rightarrow> string \<Rightarrow> get_task_result" where
  "known_rejection_task P R r code state =
     (result_new R (detail_new R (task_from_record R r StatusFailed code) (PayloadFailed (rejection_error code state))))
       \<lparr>gt_meta := Some (route_meta P r ''rejected'')\<rparr>"

definition routed_upstream_id :: "task_route \<Rightarrow> (mcp_error, upstream_task_id) res" where
  "routed_upstream_id r =
     (if tr_phase r \<notin> {Routed, ReconciliationRequired, CancelRequested}
      then Inl (InvalidParams ''GM_TASK_RECONCILIATION_REQUIRED'')
      else ok_or (tr_upstream r) (InternalError ''GM_TASK_ROUTE_INVALID''))"

section \<open>What an accepted submission guarantees\<close>

lemma deadline_valid: "\<not> deadline_invalid s now \<longleftrightarrow>
   unat now < unat (sb_deadline s) \<and> unat (sb_deadline s) \<le> unat now + 3600000"
  by (auto simp: deadline_invalid_def unat_saturating_sub MAX_TASK_RETENTION_MS_def word_less_nat_alt word_le_nat_alt)

lemma limits_valid: "\<not> limits_invalid s now \<longleftrightarrow>
   unat (max_runtime (sb_limits s)) \<le> unat (sb_retention s)
   \<and> unat (sb_deadline s) \<le> unat now + unat (sb_retention s) \<and> unat (sb_retention s) \<le> 3600000
   \<and> 0 < unat (max_runtime (sb_limits s)) \<and> unat (max_runtime (sb_limits s)) \<le> 30000
   \<and> 0 < unat (max_output (sb_limits s)) \<and> unat (max_output (sb_limits s)) \<le> 65536
   \<and> 0 < unat (max_artifact (sb_limits s)) \<and> unat (max_artifact (sb_limits s)) \<le> 8388608
   \<and> max_attempts (sb_limits s) = 1"
  using unat_bound [of "sb_deadline s"]
  by (auto simp: limits_invalid_def unat_saturating_add MAX_TASK_RETENTION_MS_def MAX_TASK_RUNTIME_MS_def
      MAX_TASK_OUTPUT_BYTES_def MAX_TASK_ARTIFACT_BYTES_def word_less_nat_alt word_le_nat_alt unat_gt_0 not_less)

lemma submission_parse_Inr [guard_simps]:
  "submission_parse P decode value arguments provider effect now = Inr s \<longleftrightarrow>
     length (json_to_vec P (JObj arguments)) \<le> 65536 \<and> decode value = Some s
     \<and> sb_schema s = ''gaugemesh.task-submission/1''
     \<and> (\<forall>v \<in> {sb_logical s, sb_attempt s, sb_correlation s, sb_key s, sb_provider s}. valid_identifier v)
     \<and> sb_input s = of_json P (JObj arguments) \<and> sb_provider s = provider
     \<and> sb_acceptance s \<noteq> default_digest \<and> sb_artifact_scope s \<noteq> default_digest
     \<and> \<not> deadline_invalid s now \<and> \<not> limits_invalid s now \<and> sb_effect s = effect \<and> sb_cleanup s"
proof -
  have guard: "(if c then Inl e else x) = Inr s \<longleftrightarrow> \<not> c \<and> x = Inr s" for c e and x :: "(string, task_submission) res"
    by simp
  show ?thesis
    unfolding submission_parse_def guard rbind_Inr ok_or_Inr
    by (auto simp: MAX_TASK_INPUT_BYTES_def TASK_SUBMISSION_SCHEMA_def not_less)
qed

lemma binding_lookup:
  "json_pointer [''task'', ''deadlineUnixMs''] (submission_binding P tool s d) = Some (u64_json (sb_deadline s))"
  "json_pointer [''task'', ''limits'', ''maxRuntimeMs''] (submission_binding P tool s d)
   = Some (u64_json (max_runtime (sb_limits s)))"
  "json_pointer [''task'', ''limits'', ''maxOutputBytes''] (submission_binding P tool s d)
   = Some (u64_json (max_output (sb_limits s)))"
  by (simp_all add: submission_binding_def submission_json_def limits_json_def json_object_def btree_collect_def
      less_char_def)

text \<open>
  A submission is accepted exactly when its arguments fit 64 KiB and match their digest, its
  identities are valid, its provider interface, effect and cleanup are the required ones, its policy
  digests are set, its deadline lies within the next hour and within its retention, and its limits
  are within the proxy's; the numbers are those of the integers, without wrap-around.
\<close>

theorem submission_accepted_iff:
  "submission_parse P decode value arguments provider effect now = Inr s \<longleftrightarrow>
     length (json_to_vec P (JObj arguments)) \<le> 65536 \<and> decode value = Some s
     \<and> sb_schema s = ''gaugemesh.task-submission/1''
     \<and> list_all valid_identifier [sb_logical s, sb_attempt s, sb_correlation s, sb_key s, sb_provider s]
     \<and> sb_input s = of_json P (JObj arguments) \<and> sb_provider s = provider
     \<and> sb_acceptance s \<noteq> default_digest \<and> sb_artifact_scope s \<noteq> default_digest
     \<and> unat now < unat (sb_deadline s) \<and> unat (sb_deadline s) \<le> unat now + 3600000
     \<and> unat (sb_deadline s) \<le> unat now + unat (sb_retention s)
     \<and> unat (max_runtime (sb_limits s)) \<le> unat (sb_retention s) \<and> unat (sb_retention s) \<le> 3600000
     \<and> unat (max_runtime (sb_limits s)) \<in> {1..30000} \<and> unat (max_output (sb_limits s)) \<in> {1..65536}
     \<and> unat (max_artifact (sb_limits s)) \<in> {1..8388608} \<and> max_attempts (sb_limits s) = 1
     \<and> sb_effect s = effect \<and> sb_cleanup s"
  unfolding submission_parse_Inr deadline_valid limits_valid by auto

text \<open>
  The execution of an accepted task is cut off at its deadline or when its runtime is used up,
  whichever is earlier; the cutoff lies after the submission, at most 30 seconds after it, and not
  after the expiry of the route.
\<close>

theorem cutoff_within_bounds:
  assumes "submission_parse P decode value arguments provider effect now = Inr s"
    and "prepare_with_id P i caller key d (submission_binding P tool s snapshot) cap session now (sb_retention s) = Inr r"
  shows "unat (execution_cutoff r) = min (unat (sb_deadline s)) (unat now + unat (max_runtime (sb_limits s)))
    \<and> now < execution_cutoff r \<and> unat (execution_cutoff r) \<le> unat now + 30000
    \<and> execution_cutoff r \<le> tr_expires r \<and> output_limit r = unat (max_output (sb_limits s))"
proof -
  have r: "tr_binding r = submission_binding P tool s snapshot" "tr_created r = now"
    "unat (tr_expires r) = unat now + unat (sb_retention s)"
    using assms(2) by (auto simp: prepare_with_id_def guard_simps Let_def prepared_route_def checked_add_Some)
  have s: "unat now < unat (sb_deadline s)" "unat (sb_deadline s) \<le> unat now + unat (sb_retention s)"
    "0 < unat (max_runtime (sb_limits s))" "unat (max_runtime (sb_limits s)) \<le> 30000"
    using assms(1) by (auto simp: submission_parse_Inr deadline_valid limits_valid)
  have "execution_cutoff r = min (sb_deadline s) (saturating_add now (max_runtime (sb_limits s)))"
    unfolding execution_cutoff_def r binding_lookup by (simp add: u64_json_def)
  then have cut: "unat (execution_cutoff r) = min (unat (sb_deadline s)) (unat now + unat (max_runtime (sb_limits s)))"
    using unat_bound [of "sb_deadline s"] by (simp add: min_def word_le_nat_alt unat_saturating_add)
  moreover have "output_limit r = unat (max_output (sb_limits s))"
    unfolding output_limit_def r binding_lookup by (simp add: u64_json_def)
  ultimately show ?thesis using s r(3) by (auto simp: word_less_nat_alt word_le_nat_alt min_def)
qed

definition task_tool :: federated_tool where
  "task_tool = \<lparr>ft_identity = sample_capability ''docs'' ''search'', ft_native_name = ''search'',
     ft_alias = ''docs__search'', ft_description = ''search'', ft_input_schema = JObj [],
     ft_side_effect = NonIdempotentWrite, ft_fixture_result = JNull\<rparr>"

definition sample_submission :: task_submission where
  "sample_submission = \<lparr>sb_schema = ''gaugemesh.task-submission/1'', sb_logical = ''t1'', sb_attempt = ''a1'',
     sb_correlation = ''c1'', sb_key = ''k1'', sb_input = of_json sample_platform (JObj []),
     sb_acceptance = of_bytes sample_platform ''policy'', sb_artifact_scope = of_bytes sample_platform ''scope'',
     sb_provider = digest_to_string sample_platform default_digest, sb_deadline = 1400, sb_retention = 500,
     sb_limits = \<lparr>max_runtime = 300, max_output = 1000, max_artifact = 1000, max_attempts = 1\<rparr>,
     sb_effect = NonIdempotentWrite, sb_cleanup = True\<rparr>"

lemma utf8_ascii: "list_all (\<lambda>c. of_char c < (128 :: nat)) s \<Longrightarrow> utf8_chars s = map of_char s"
  by (induction s rule: utf8_chars.induct) (auto simp: Let_def)

lemma visible_identifier:
  assumes "list_all (\<lambda>c. (33 :: nat) \<le> of_char c \<and> of_char c < (127 :: nat)) s" "s \<noteq> []" "length s \<le> 128"
  shows "valid_identifier s"
proof -
  have "utf8_chars s = map of_char s"
    using assms(1) by (intro utf8_ascii) (auto simp: list_all_iff)
  then show ?thesis
    using assms by (auto simp: valid_identifier_def MAX_TASK_IDENTIFIER_BYTES_def list_all_iff char_is_control_def
        char_is_whitespace_def)
qed

lemma hex_zeros: "hex_text (replicate n (CHR 0x00)) = replicate (2 * n) (CHR ''0'')"
  by (induction n) (simp_all add: nibble_def char_of_def bit_Suc_0_iff)

lemma sample_identities:
  "valid_identifier ''t1''" "valid_identifier ''a1''" "valid_identifier ''c1''" "valid_identifier ''k1''"
  "valid_identifier (digest_to_string sample_platform default_digest)"
  by (rule visible_identifier,
      (simp add: digest_to_string_def sample_platform_def default_digest_def hex_zeros list_all_iff)+)+

lemma sample_policies:
  "of_bytes sample_platform ''policy'' \<noteq> default_digest" "of_bytes sample_platform ''scope'' \<noteq> default_digest"
  by (simp_all add: default_digest_def of_bytes_def sample_platform_def numeral_eq_Suc)

lemma sample_submission_parsed:
  "submission_parse sample_platform (\<lambda>_. Some sample_submission) JNull []
     (digest_to_string sample_platform default_digest) NonIdempotentWrite 1000 = Inr sample_submission"
  unfolding submission_parse_Inr deadline_valid limits_valid
  by (simp add: sample_submission_def sample_identities sample_policies, simp add: sample_platform_def)

lemma json_text_digest: "length (as_bytes d) = 32 \<Longrightarrow> length (digest_to_string sample_platform d) = 71"
  by (simp add: digest_to_string_def sample_platform_def length_hex_text)

lemma sample_digest_length: "length (as_bytes (of_json sample_platform v)) = 32"
  by (simp add: of_json_def of_bytes_def sample_platform_def)

lemma sample_bytes_length: "length (as_bytes (of_bytes sample_platform v)) = 32"
  by (simp add: of_bytes_def sample_platform_def)

definition sample_binding :: json where
  "sample_binding = submission_binding sample_platform task_tool sample_submission default_digest"

lemma sample_binding_size: "canonical_bytes sample_platform sample_binding \<le> 16384"
proof -
  have ser: "json_to_vec sample_platform = json_text" by (simp add: sample_platform_def)
  show ?thesis
    unfolding canonical_bytes_def ser sample_binding_def submission_binding_def json_object_def
      submission_json_def limits_json_def
    by (simp add: btree_collect_def less_char_def digest_json_def u64_json_def u16_json_def sample_submission_def
        sample_bytes_length
        json_text_digest sample_digest_length default_digest_def capability_digest_def task_tool_def
        sample_capability_def capability_new_def)
qed

definition sample_accepted :: "public_task_id \<Rightarrow> task_route" where
  "sample_accepted i = projr (prepare_with_id sample_platform i
     \<lparr>caller_principal = ''alice'', caller_tenant = ''acme''\<rparr> (Some ''k1'')
     (of_json sample_platform sample_binding) sample_binding (ft_identity task_tool) ''s1'' 1000 500)"

lemma sample_accepted:
  "prepare_with_id sample_platform ''gmt_1'' \<lparr>caller_principal = ''alice'', caller_tenant = ''acme''\<rparr> (Some ''k1'')
     (of_json sample_platform sample_binding) sample_binding (ft_identity task_tool) ''s1'' 1000 500
   = Inr (sample_accepted ''gmt_1'')"
proof -
  let ?r = "prepared_route ''gmt_1'' \<lparr>caller_principal = ''alice'', caller_tenant = ''acme''\<rparr> (Some ''k1'')
     (of_json sample_platform sample_binding) sample_binding (ft_identity task_tool) ''s1'' 1000 500 1500"
  have "shape_ok sample_platform ?r"
    using sample_identifiers sample_binding_size
    by (simp add: shape_ok_def prepared_route_def TASK_ROUTE_SCHEMA_VERSION_def task_tool_def
        sample_capability_def capability_new_def MAX_SQLITE_INTEGER_def)
  then have "validate_shape sample_platform ?r = Inr ()" by (simp add: validate_shape_Inr)
  then show ?thesis by (simp add: sample_accepted_def prepare_with_id_def Let_def checked_add_def)
qed

theorem cutoff_within_bounds_witness:
  "unat (execution_cutoff (sample_accepted ''gmt_1'')) = 1300"
  using cutoff_within_bounds [OF sample_submission_parsed, where tool = task_tool and snapshot = default_digest]
    sample_accepted
  by (fastforce simp: sample_binding_def sample_submission_def)

end
