(* ===== verification/Proxy_Calls.thy ===== *)
theory Proxy_Calls
  imports Task_Wire
begin

text \<open>
  The operations of the task proxy are asynchronous: between two calls of the store, the clock or an
  upstream server other operations run. A program is the tree of the calls it makes, one branch per
  reply, and ends in a result or an error; an \<open>await\<close> and a store call are one node each. The
  semantics of interleaved programs is in \<open>Proxy_System\<close>.
\<close>

section \<open>Programs\<close>

datatype tool_reply = CallElapsed | CallFailed | Called call_tool_response
datatype poll_reply = PollElapsed | PollFailed | Polled get_task_result

record upstream_call =
  uc_source :: source_id
  uc_tool :: string
  uc_arguments :: "(string \<times> json) list"
  uc_envelope :: json
  uc_session :: string
  uc_timeout :: u64

datatype 'a prog =
    Ret 'a
  | Raise mcp_error
  | AskClock "u64 option \<Rightarrow> 'a prog"
  | AskFresh "string \<Rightarrow> 'a prog"
  | AskFind task_caller idempotency_key "(task_storage_error, task_route option) res \<Rightarrow> 'a prog"
  | AskGet task_caller public_task_id "(task_storage_error, task_route option) res \<Rightarrow> 'a prog"
  | AskBegin task_route "(task_storage_error, begin_result) res \<Rightarrow> 'a prog"
  | AskCas task_caller public_task_id u64 task_update "(task_storage_error, task_route option) res \<Rightarrow> 'a prog"
  | AskPurge u64 nat "(task_storage_error, nat) res \<Rightarrow> 'a prog"
  | AskSession source_id "string option \<Rightarrow> 'a prog"
  | AskSnapshot source_id "sha256_digest option \<Rightarrow> 'a prog"
  | AskConfiguration source_id "sha256_digest option \<Rightarrow> 'a prog"
  | CallTool upstream_call "tool_reply \<Rightarrow> 'a prog"
  | PollTask source_id upstream_task_id string u64 "poll_reply \<Rightarrow> 'a prog"
  | CancelTask source_id string string "bool \<Rightarrow> 'a prog"

primrec pbind :: "'a prog \<Rightarrow> ('a \<Rightarrow> 'b prog) \<Rightarrow> 'b prog" where
  "pbind (Ret x) k = k x"
| "pbind (Raise e) k = Raise e"
| "pbind (AskClock f) k = AskClock (\<lambda>x. pbind (f x) k)"
| "pbind (AskFresh f) k = AskFresh (\<lambda>x. pbind (f x) k)"
| "pbind (AskFind c i f) k = AskFind c i (\<lambda>x. pbind (f x) k)"
| "pbind (AskGet c i f) k = AskGet c i (\<lambda>x. pbind (f x) k)"
| "pbind (AskBegin r f) k = AskBegin r (\<lambda>x. pbind (f x) k)"
| "pbind (AskCas c i v u f) k = AskCas c i v u (\<lambda>x. pbind (f x) k)"
| "pbind (AskPurge t n f) k = AskPurge t n (\<lambda>x. pbind (f x) k)"
| "pbind (AskSession s f) k = AskSession s (\<lambda>x. pbind (f x) k)"
| "pbind (AskSnapshot s f) k = AskSnapshot s (\<lambda>x. pbind (f x) k)"
| "pbind (AskConfiguration s f) k = AskConfiguration s (\<lambda>x. pbind (f x) k)"
| "pbind (CallTool q f) k = CallTool q (\<lambda>x. pbind (f x) k)"
| "pbind (PollTask s i t n f) k = PollTask s i t n (\<lambda>x. pbind (f x) k)"
| "pbind (CancelTask s i t f) k = CancelTask s i t (\<lambda>x. pbind (f x) k)"

text \<open>A call whose error the caller handles itself.\<close>

primrec ptry :: "'a prog \<Rightarrow> (mcp_error, 'a) res prog" where
  "ptry (Ret x) = Ret (Inr x)"
| "ptry (Raise e) = Ret (Inl e)"
| "ptry (AskClock f) = AskClock (\<lambda>x. ptry (f x))"
| "ptry (AskFresh f) = AskFresh (\<lambda>x. ptry (f x))"
| "ptry (AskFind c i f) = AskFind c i (\<lambda>x. ptry (f x))"
| "ptry (AskGet c i f) = AskGet c i (\<lambda>x. ptry (f x))"
| "ptry (AskBegin r f) = AskBegin r (\<lambda>x. ptry (f x))"
| "ptry (AskCas c i v u f) = AskCas c i v u (\<lambda>x. ptry (f x))"
| "ptry (AskPurge t n f) = AskPurge t n (\<lambda>x. ptry (f x))"
| "ptry (AskSession s f) = AskSession s (\<lambda>x. ptry (f x))"
| "ptry (AskSnapshot s f) = AskSnapshot s (\<lambda>x. ptry (f x))"
| "ptry (AskConfiguration s f) = AskConfiguration s (\<lambda>x. ptry (f x))"
| "ptry (CallTool q f) = CallTool q (\<lambda>x. ptry (f x))"
| "ptry (PollTask s i t n f) = PollTask s i t n (\<lambda>x. ptry (f x))"
| "ptry (CancelTask s i t f) = CancelTask s i t (\<lambda>x. ptry (f x))"

text \<open>\<open>?\<close> on a result that is already there.\<close>

definition lift_res :: "(mcp_error, 'a) res \<Rightarrow> 'a prog" where
  "lift_res r = (case r of Inl e \<Rightarrow> Raise e | Inr x \<Rightarrow> Ret x)"

lemma lift_res_simps [simp]: "lift_res (Inl e) = Raise e" "lift_res (Inr x) = Ret x"
  by (simp_all add: lift_res_def)

section \<open>Clock and store\<close>

definition now_unix_ms :: "u64 prog" where
  "now_unix_ms = AskClock (\<lambda>t. lift_res (ok_or t (InternalError ''GM_CLOCK_INVALID'')))"

definition transition_time :: "task_route \<Rightarrow> u64 prog" where
  "transition_time r = pbind now_unix_ms (\<lambda>now. Ret (max now (tr_updated r)))"

definition stored :: "(task_storage_error, 'a) res \<Rightarrow> 'a prog" where
  "stored r = lift_res (map_err storage_mcp_error r)"

definition get_route :: "task_caller \<Rightarrow> public_task_id \<Rightarrow> task_route prog" where
  "get_route c i = AskGet c i (\<lambda>res. pbind (stored res) (\<lambda>found. lift_res (ok_or found unknown_task)))"

text \<open>\<open>TaskProxy::update\<close>: on a stale version the current record is read instead.\<close>

definition proxy_update :: "task_route \<Rightarrow> task_update \<Rightarrow> task_route prog" where
  "proxy_update r u = AskCas (tr_caller r) (tr_public_id r) (tr_version r) u (\<lambda>res.
     case res of
       Inr (Some updated) \<Rightarrow> Ret updated
     | Inr None \<Rightarrow> Raise unknown_task
     | Inl StaleTransition \<Rightarrow> get_route (tr_caller r) (tr_public_id r)
     | Inl e \<Rightarrow> Raise (storage_mcp_error e))"

section \<open>The bounded update loops\<close>

text \<open>\<open>for _ in 0..MAX_ROUTE_CAS_ATTEMPTS\<close>: the first argument counts the remaining attempts.\<close>

fun persist_loop :: "nat \<Rightarrow> task_route \<Rightarrow> task_route prog" where
  "persist_loop 0 current = Raise (InternalError ''GM_TASK_STALE_TRANSITION'')"
| "persist_loop (Suc n) current =
     (if tr_phase current \<in> {CancelRequested, Terminal} then Ret current
      else pbind (transition_time current) (\<lambda>time.
           pbind (proxy_update current (update_cancel_requested time)) (persist_loop n)))"

definition persist_cancellation_intent :: "task_route \<Rightarrow> task_route prog" where
  "persist_cancellation_intent r = persist_loop MAX_ROUTE_CAS_ATTEMPTS r"

fun reconcile_loop :: "nat \<Rightarrow> task_route \<Rightarrow> task_route prog" where
  "reconcile_loop 0 current = Raise (InternalError ''GM_TASK_STALE_TRANSITION'')"
| "reconcile_loop (Suc n) current =
     (if tr_phase current \<in> {ReconciliationRequired, CancelRequested, Terminal} then Ret current
      else pbind (transition_time current) (\<lambda>time.
           pbind (proxy_update current (update_reconciliation_required time)) (reconcile_loop n)))"

definition mark_reconciliation_required :: "task_route \<Rightarrow> task_route prog" where
  "mark_reconciliation_required r = reconcile_loop MAX_ROUTE_CAS_ATTEMPTS r"

fun finish_loop :: "rmcp \<Rightarrow> nat \<Rightarrow> detailed_task \<Rightarrow> task_route \<Rightarrow> task_route prog" where
  "finish_loop R 0 detailed current = Raise (InternalError ''GM_TASK_RECONCILIATION_REQUIRED'')"
| "finish_loop R (Suc n) detailed current =
     (if tr_phase current = Terminal then Ret current
      else pbind (transition_time current) (\<lambda>time.
           let detailed = detailed\<lparr>dt_task := (dt_task detailed)\<lparr>tk_updated_at := rfc3339 R time\<rparr>\<rparr> in
           pbind (lift_res (ok_or (detail_to_value R detailed)
                    (InternalError ''GM_TASK_RESULT_SERIALIZATION''))) (\<lambda>cached.
           pbind (proxy_update current (update_terminal time cached)) (finish_loop R n detailed))))"

definition finish_terminal :: "rmcp \<Rightarrow> task_route \<Rightarrow> detailed_task \<Rightarrow> task_route prog" where
  "finish_terminal R r detailed = finish_loop R MAX_ROUTE_CAS_ATTEMPTS detailed r"

text \<open>\<open>bind_upstream_task\<close>: the update that binds a created upstream task, if there is one to make.\<close>

definition bind_update :: "task_route \<Rightarrow> upstream_task_id \<Rightarrow> task_route \<Rightarrow> task_update option prog" where
  "bind_update r i current =
     (case tr_phase current of
        Dispatching \<Rightarrow>
          if tr_owner current = tr_owner r
          then pbind (transition_time current) (\<lambda>time. Ret (Some (update_routed i time)))
          else Ret None
      | ReconciliationRequired \<Rightarrow>
          pbind (transition_time current) (\<lambda>time. Ret (Some (update_routed i time)))
      | CancelRequested \<Rightarrow>
          pbind (transition_time current) (\<lambda>time. Ret (Some (update_cancel_requested_with_upstream i time)))
      | _ \<Rightarrow> Raise (InternalError ''GM_TASK_ROUTE_INVALID''))"

fun bind_loop :: "nat \<Rightarrow> task_route \<Rightarrow> upstream_task_id \<Rightarrow> task_route \<Rightarrow> (task_route \<times> bool) prog" where
  "bind_loop 0 r i current = Raise (InternalError ''GM_TASK_STALE_TRANSITION'')"
| "bind_loop (Suc n) r i current =
     (if tr_upstream current = Some i then Ret (current, tr_phase current = CancelRequested)
      else if tr_upstream current \<noteq> None \<or> tr_phase current = Terminal then Ret (current, True)
      else pbind (bind_update r i current) (\<lambda>u.
           case u of
             None \<Rightarrow> Ret (current, True)
           | Some u \<Rightarrow>
               AskCas (tr_caller current) (tr_public_id current) (tr_version current) u (\<lambda>res.
                 case res of
                   Inr (Some bound) \<Rightarrow> Ret (bound, tr_phase bound = CancelRequested)
                 | Inr None \<Rightarrow> Raise unknown_task
                 | Inl StaleTransition \<Rightarrow>
                     pbind (get_route (tr_caller r) (tr_public_id r)) (bind_loop n r i)
                 | Inl e \<Rightarrow> Raise (storage_mcp_error e))))"

definition bind_upstream_task :: "task_route \<Rightarrow> upstream_task_id \<Rightarrow> (task_route \<times> bool) prog" where
  "bind_upstream_task r i = bind_loop MAX_ROUTE_CAS_ATTEMPTS r i r"

section \<open>Claims, completions and cancellations\<close>

definition claim_dispatch :: "string \<Rightarrow> task_route \<Rightarrow> task_route option prog" where
  "claim_dispatch instance_id r = pbind (transition_time r) (\<lambda>time.
     AskCas (tr_caller r) (tr_public_id r) (tr_version r) (update_dispatching instance_id time) (\<lambda>res.
       case res of
         Inr (Some claimed) \<Rightarrow> Ret (Some claimed)
       | Inr None \<Rightarrow> Raise unknown_task
       | Inl StaleTransition \<Rightarrow> Ret None
       | Inl e \<Rightarrow> Raise (storage_mcp_error e)))"

definition finish_non_dispatch_once :: "platform \<Rightarrow> rmcp \<Rightarrow> task_route \<Rightarrow> string \<Rightarrow> task_route prog" where
  "finish_non_dispatch_once P R r code = pbind (transition_time r) (\<lambda>time.
     pbind (lift_res (ok_or (detail_to_value R (gt_task (known_rejection_task P R r code ''not_dispatched'')))
              (InternalError ''GM_TASK_RESULT_SERIALIZATION''))) (\<lambda>cached.
       proxy_update r (update_terminal time cached)))"

definition cancel_upstream :: "task_route \<Rightarrow> upstream_task_id \<Rightarrow> bool prog" where
  "cancel_upstream r i = CancelTask (tr_source r) i (tr_session r) Ret"

definition cancel_raw_upstream :: "task_route \<Rightarrow> string \<Rightarrow> bool prog" where
  "cancel_raw_upstream r i =
     (if i = [] \<or> length i > MAX_RAW_MANAGEMENT_TASK_ID_BYTES \<or> has_control i then Ret False
      else CancelTask (tr_source r) i (tr_session r) Ret)"

definition request_cancellation :: "task_route \<Rightarrow> task_route prog" where
  "request_cancellation r = pbind (persist_cancellation_intent r) (\<lambda>cancelling.
     if tr_phase cancelling = Terminal then Ret cancelling
     else case tr_upstream cancelling of
            None \<Rightarrow> Ret cancelling
          | Some i \<Rightarrow> pbind (cancel_upstream cancelling i) (\<lambda>done_now.
              if done_now then Ret cancelling else mark_reconciliation_required cancelling))"

text \<open>\<open>source_binding_is_current\<close>; \<open>&&\<close> asks no further once a comparison fails.\<close>

definition source_binding_is_current :: "platform \<Rightarrow> task_route \<Rightarrow> bool prog" where
  "source_binding_is_current P r =
     (case Option.bind (Option.bind (json_get ''sourceSnapshotSha256'' (tr_binding r)) json_str)
             (\<lambda>s. case digest_from_str P s of Inl _ \<Rightarrow> None | Inr d \<Rightarrow> Some d) of
        None \<Rightarrow> Ret False
      | Some expected \<Rightarrow>
          AskSession (tr_source r) (\<lambda>session. if session \<noteq> Some (tr_session r) then Ret False
          else AskSnapshot (tr_source r) (\<lambda>snapshot. if snapshot \<noteq> Some expected then Ret False
          else AskConfiguration (tr_source r) (\<lambda>configuration.
            Ret (configuration = Some (source_configuration_digest (tr_capability r)))))))"

end
