(* ===== verification/Task_Proxy.thy ===== *)
theory Task_Proxy
  imports Proxy_Calls
begin

text \<open>
  Models the operations of \<open>crates/gaugemesh/src/task_proxy.rs\<close> as programs over the calls of
  \<open>Proxy_Calls\<close>: submitting and recovering a task, polling, updating and cancelling it. The lock per
  route that \<open>get_task\<close>, \<open>update_task\<close> and \<open>cancel_task\<close> take is not modelled: without it more
  interleavings are possible, and the theorems hold in all of them.
\<close>

record proxy =
  px_platform :: platform
  px_rmcp :: rmcp
  px_decode :: "json \<Rightarrow> task_submission option"
  px_instance :: string

record identity =
  id_principal :: principal_id
  id_tenant :: tenant_id

definition caller_of :: "identity \<Rightarrow> task_caller prog" where
  "caller_of identity = lift_res (map_err InvalidTaskRoute (task_caller_new (id_principal identity) (id_tenant identity)))"

definition handle :: "proxy \<Rightarrow> task_route \<Rightarrow> task_status option \<Rightarrow> call_tool_response prog" where
  "handle X r status = Ret (task_handle (px_platform X) (px_rmcp X) r status)"

definition existing_submission :: "proxy \<Rightarrow> task_route \<Rightarrow> call_tool_response prog" where
  "existing_submission X r =
     (case tr_phase r of
        Terminal \<Rightarrow> pbind (lift_res (cached_detailed_task (px_rmcp X) r)) (\<lambda>cached.
          handle X r (Some (detail_status (px_rmcp X) cached)))
      | Routed \<Rightarrow> handle X r None
      | CancelRequested \<Rightarrow> handle X r None
      | _ \<Rightarrow> handle X r (Some StatusWorking))"

text \<open>The answer after the outcome of the execution is no longer known.\<close>

definition reconcile_handle :: "proxy \<Rightarrow> task_route \<Rightarrow> call_tool_response prog" where
  "reconcile_handle X r = pbind (mark_reconciliation_required r) (\<lambda>unknown. handle X unknown (Some StatusWorking))"

definition finish_rejected :: "proxy \<Rightarrow> task_route \<Rightarrow> string \<Rightarrow> task_route prog" where
  "finish_rejected X r code =
     finish_terminal (px_rmcp X) r (gt_task (known_rejection_task (px_platform X) (px_rmcp X) r code ''completed''))"

definition terminal_handle :: "proxy \<Rightarrow> task_route \<Rightarrow> call_tool_response prog" where
  "terminal_handle X terminal = pbind (lift_res (cached_detailed_task (px_rmcp X) terminal)) (\<lambda>cached.
     handle X terminal (Some (detail_status (px_rmcp X) cached)))"

definition finish_known_rejection :: "proxy \<Rightarrow> task_route \<Rightarrow> string \<Rightarrow> call_tool_response prog" where
  "finish_known_rejection X r code = pbind (finish_rejected X r code) (terminal_handle X)"

definition finish_known_non_dispatch :: "proxy \<Rightarrow> task_route \<Rightarrow> string \<Rightarrow> call_tool_response prog" where
  "finish_known_non_dispatch X r code =
     pbind (finish_non_dispatch_once (px_platform X) (px_rmcp X) r code) (existing_submission X)"

definition cached_answer :: "proxy \<Rightarrow> task_route \<Rightarrow> get_task_result prog" where
  "cached_answer X r = lift_res (cached_task (px_platform X) (px_rmcp X) r)"

definition finish_known_rejection_result :: "proxy \<Rightarrow> task_route \<Rightarrow> string \<Rightarrow> get_task_result prog" where
  "finish_known_rejection_result X r code = pbind (finish_rejected X r code) (cached_answer X)"

definition finish_known_non_dispatch_result :: "proxy \<Rightarrow> task_route \<Rightarrow> string \<Rightarrow> get_task_result prog" where
  "finish_known_non_dispatch_result X r code =
     pbind (finish_non_dispatch_once (px_platform X) (px_rmcp X) r code) (\<lambda>current.
       if tr_phase current = Terminal then cached_answer X current
       else Ret (working_task (px_platform X) (px_rmcp X) current))"

section \<open>Submitting\<close>

text \<open>The branch that only recovers: nothing is created, nothing is dispatched.\<close>

definition recover_branch ::
  "proxy \<Rightarrow> federated_tool \<Rightarrow> (string \<times> json) list \<Rightarrow> json \<Rightarrow> task_caller \<Rightarrow> u64 \<Rightarrow> call_tool_response prog" where
  "recover_branch X tool arguments submission caller now =
     pbind (lift_res (ok_or (Option.bind (json_get ''idempotencyKey'' submission) json_str)
              (InvalidParams ''GM_TASK_SUBMISSION_INVALID''))) (\<lambda>k.
     pbind (lift_res (map_err InvalidTaskRoute (idempotency_key_new k))) (\<lambda>key.
     AskFind caller key (\<lambda>res. pbind (stored res) (\<lambda>found.
     pbind (lift_res (ok_or (case found of Some r \<Rightarrow> if is_expired r now then None else Some r | None \<Rightarrow> None)
              (InvalidParams ''GM_TASK_DEADLINE_INVALID''))) (\<lambda>r.
     pbind (lift_res (map_err InvalidParams (submission_parse (px_platform X) (px_decode X) submission arguments
              (digest_to_string (px_platform X) (cap_schema_digest (ft_identity tool)))
              NonIdempotentWrite (tr_created r)))) (\<lambda>parsed.
     AskSnapshot (cap_source (ft_identity tool)) (\<lambda>snapshot.
     pbind (lift_res (ok_or snapshot (InvalidParams ''GM_TASK_UPSTREAM_UNAVAILABLE''))) (\<lambda>snapshot.
     if of_json (px_platform X) (submission_binding (px_platform X) tool parsed snapshot) \<noteq> tr_request_digest r
     then Raise (storage_mcp_error IdempotencyConflict)
     else if tr_phase r = Prepared then finish_known_non_dispatch X r ''GM_TASK_RUNTIME_BOUND_REACHED''
     else if tr_phase r = Terminal then existing_submission X r
     else if tr_phase r = Dispatching then pbind (mark_reconciliation_required r) (existing_submission X)
     else pbind (source_binding_is_current (px_platform X) r) (\<lambda>current.
       if current then existing_submission X r
       else pbind (mark_reconciliation_required r) (existing_submission X))))))))))"

text \<open>The upstream server created a task.\<close>

definition task_created ::
  "proxy \<Rightarrow> task_route \<Rightarrow> task_info \<Rightarrow> meta_object option \<Rightarrow> call_tool_response prog" where
  "task_created X r task meta =
     (case upstream_task_id_new (tk_id task) of
        Inl _ \<Rightarrow> pbind (cancel_raw_upstream r (tk_id task)) (\<lambda>_. reconcile_handle X r)
      | Inr i \<Rightarrow>
          pbind (ptry (bind_upstream_task r i)) (\<lambda>bound.
          case bound of
            Inl e \<Rightarrow> pbind (cancel_upstream r i) (\<lambda>_. Raise e)
          | Inr (routed, cancellation_required) \<Rightarrow>
              if cancellation_required then
                if tr_upstream routed = Some i \<and> tr_phase routed \<noteq> Terminal
                then pbind (request_cancellation routed) (\<lambda>cancelling. handle X cancelling None)
                else pbind (cancel_upstream routed i) (\<lambda>_. handle X routed None)
              else if tr_phase routed \<noteq> Routed then pbind (cancel_upstream routed i) (\<lambda>_. handle X routed None)
              else if \<not> execution_ack_matches (px_platform X) meta routed
              then pbind (request_cancellation routed) (\<lambda>cancelling. reconcile_handle X cancelling)
              else pbind now_unix_ms (\<lambda>now.
                if now \<ge> execution_cutoff routed
                then pbind (request_cancellation routed) (\<lambda>cancelling. handle X cancelling None)
                else handle X routed (Some StatusWorking))))"

text \<open>The upstream server answered at once.\<close>

definition call_completed ::
  "proxy \<Rightarrow> task_route \<Rightarrow> json option \<Rightarrow> meta_object option \<Rightarrow> call_tool_response prog" where
  "call_completed X r value meta =
     (if \<not> execution_ack_matches (px_platform X) meta r then reconcile_handle X r
      else pbind now_unix_ms (\<lambda>now.
        if now \<ge> execution_cutoff r then finish_known_rejection X r ''GM_TASK_DEADLINE_EXCEEDED''
        else
          pbind (lift_res (ok_or (case value of Some (JObj es) \<Rightarrow> Some es | _ \<Rightarrow> None)
                   (InternalError ''GM_TASK_RESULT_SERIALIZATION''))) (\<lambda>result.
          let detailed = detail_new (px_rmcp X) (task_from_record (px_rmcp X) r StatusCompleted ''execution completed'')
                           (PayloadCompleted result) in
          pbind (lift_res (ok_or (detail_to_value (px_rmcp X) detailed)
                   (InternalError ''GM_TASK_RESULT_SERIALIZATION''))) (\<lambda>serialized.
          let size = length (json_to_vec (px_platform X) serialized) in
          if size > output_limit r \<or> size > MAX_CACHED_TERMINAL_STATE_BYTES
          then finish_known_rejection X r ''GM_TASK_OUTPUT_LIMIT_EXCEEDED''
          else pbind (finish_terminal (px_rmcp X) r detailed) (terminal_handle X)))))"

definition after_call :: "proxy \<Rightarrow> task_route \<Rightarrow> tool_reply \<Rightarrow> call_tool_response prog" where
  "after_call X r reply =
     (case reply of
        Called (TaskCreated task meta) \<Rightarrow> task_created X r task meta
      | Called (CallComplete value meta) \<Rightarrow> call_completed X r value meta
      | _ \<Rightarrow> reconcile_handle X r)"

text \<open>The one call of the tool, for a route this proxy has claimed.\<close>

definition dispatch ::
  "proxy \<Rightarrow> federated_tool \<Rightarrow> (string \<times> json) list \<Rightarrow> task_route \<Rightarrow> call_tool_response prog" where
  "dispatch X tool arguments r = pbind now_unix_ms (\<lambda>now.
     let remaining = min (saturating_sub (execution_cutoff r) now) MAX_TASK_RUNTIME_MS in
     if remaining = 0 then finish_known_non_dispatch X r ''GM_TASK_RUNTIME_BOUND_REACHED''
     else CallTool
       \<lparr>uc_source = cap_source (ft_identity tool), uc_tool = ft_native_name tool, uc_arguments = arguments,
        uc_envelope = execution_envelope (px_platform X) r, uc_session = tr_session r, uc_timeout = remaining\<rparr>
       (after_call X r))"

text \<open>What to do with the stored record: claim it, or answer from it.\<close>

definition after_begin ::
  "proxy \<Rightarrow> federated_tool \<Rightarrow> (string \<times> json) list \<Rightarrow> u64 \<Rightarrow> begin_result \<Rightarrow> call_tool_response prog" where
  "after_begin X tool arguments now begun =
     (case begun of
        Inserted r \<Rightarrow> pbind (claim_dispatch (px_instance X) r) (\<lambda>claimed.
          pbind (lift_res (ok_or claimed (InternalError ''GM_TASK_DISPATCH_CLAIM_FAILED''))) (dispatch X tool arguments))
      | Existing r \<Rightarrow>
          let settled = (case tr_phase r of
            Prepared \<Rightarrow> pbind (claim_dispatch (px_instance X) r) (\<lambda>claimed.
              case claimed of Some c \<Rightarrow> dispatch X tool arguments c | None \<Rightarrow> existing_submission X r)
          | Dispatching \<Rightarrow>
              if tr_owner r \<noteq> Some (px_instance X) \<or> now \<ge> execution_cutoff r
              then pbind (mark_reconciliation_required r) (existing_submission X)
              else existing_submission X r
          | _ \<Rightarrow> existing_submission X r) in
          if tr_phase r = Terminal then settled
          else pbind (source_binding_is_current (px_platform X) r) (\<lambda>current.
            if current then settled
            else pbind (mark_reconciliation_required r) (existing_submission X)))"

definition accept_branch ::
  "proxy \<Rightarrow> federated_tool \<Rightarrow> (string \<times> json) list \<Rightarrow> json \<Rightarrow> task_caller \<Rightarrow> u64 \<Rightarrow> call_tool_response prog" where
  "accept_branch X tool arguments submission caller now =
     pbind (lift_res (map_err InvalidParams (submission_parse (px_platform X) (px_decode X) submission arguments
              (digest_to_string (px_platform X) (cap_schema_digest (ft_identity tool))) NonIdempotentWrite now))) (\<lambda>parsed.
     AskSnapshot (cap_source (ft_identity tool)) (\<lambda>snapshot.
     pbind (lift_res (ok_or snapshot (InvalidParams ''GM_TASK_UPSTREAM_UNAVAILABLE''))) (\<lambda>snapshot.
     AskSession (cap_source (ft_identity tool)) (\<lambda>session.
     pbind (lift_res (ok_or session (InvalidParams ''GM_TASK_UPSTREAM_UNAVAILABLE''))) (\<lambda>session.
     let binding = submission_binding (px_platform X) tool parsed snapshot in
     pbind (lift_res (map_err InvalidTaskRoute (idempotency_key_new (sb_key parsed)))) (\<lambda>key.
     AskFresh (\<lambda>fresh.
     pbind (lift_res (map_err InvalidTaskRoute (prepare_with_id (px_platform X) fresh caller (Some key)
              (of_json (px_platform X) binding) binding (ft_identity tool) session now (sb_retention parsed)))) (\<lambda>r.
     AskBegin r (\<lambda>res. pbind (stored res) (after_begin X tool arguments now))))))))))"

definition submit_mode ::
  "proxy \<Rightarrow> federated_tool \<Rightarrow> (string \<times> json) list \<Rightarrow> json \<Rightarrow> identity \<Rightarrow> bool \<Rightarrow> call_tool_response prog" where
  "submit_mode X tool arguments submission identity recovery_only =
     pbind (caller_of identity) (\<lambda>caller.
     pbind now_unix_ms (\<lambda>now.
     AskPurge now 128 (\<lambda>res. pbind (stored res) (\<lambda>_.
       if recovery_only
          \<or> (case Option.bind (json_get ''deadlineUnixMs'' submission) json_u64 of Some d \<Rightarrow> d \<le> now | None \<Rightarrow> False)
       then recover_branch X tool arguments submission caller now
       else accept_branch X tool arguments submission caller now))))"

definition submit ::
  "proxy \<Rightarrow> federated_tool \<Rightarrow> (string \<times> json) list \<Rightarrow> json \<Rightarrow> identity \<Rightarrow> call_tool_response prog" where
  "submit X tool arguments submission identity = submit_mode X tool arguments submission identity False"

definition recover_submission ::
  "proxy \<Rightarrow> federated_tool \<Rightarrow> (string \<times> json) list \<Rightarrow> json \<Rightarrow> identity \<Rightarrow> call_tool_response prog" where
  "recover_submission X tool arguments submission identity = submit_mode X tool arguments submission identity True"

section \<open>Polling\<close>

definition cancel_answer :: "proxy \<Rightarrow> task_route \<Rightarrow> string \<Rightarrow> get_task_result prog" where
  "cancel_answer X r code = pbind (request_cancellation r) (\<lambda>cancelling.
     Ret (working_task_with_code (px_platform X) (px_rmcp X) cancelling code))"

definition reconcile_answer :: "proxy \<Rightarrow> task_route \<Rightarrow> string \<Rightarrow> get_task_result prog" where
  "reconcile_answer X r code = pbind (mark_reconciliation_required r) (\<lambda>unknown.
     Ret (reconciliation_task_with_code (px_platform X) (px_rmcp X) unknown code))"

definition settle_poll :: "proxy \<Rightarrow> task_route \<Rightarrow> task_status \<Rightarrow> get_task_result \<Rightarrow> get_task_result prog" where
  "settle_poll X active status response =
     (let R = px_rmcp X; P = px_platform X in
      if tr_phase active = Terminal then cached_answer X active
      else if tr_phase active = CancelRequested \<and> \<not> status_is_terminal R status
      then Ret (working_task_with_code P R active
                  ''cancellation requested; upstream terminal state is pending'')
      else
        let message = (if status_is_terminal R status
                       then ''upstream reported a terminal execution state''
                       else ''upstream reported a nonterminal execution state'');
            task = detail_new R (task_from_record R active status message) (dt_payload (gt_task response))
        in if status_is_terminal R status
           then pbind (finish_terminal R active task) (cached_answer X)
           else Ret (response\<lparr>gt_task := task, gt_meta := Some (route_meta P active ''not_performed'')\<rparr>))"

definition after_poll ::
  "proxy \<Rightarrow> task_route \<Rightarrow> upstream_task_id \<Rightarrow> get_task_result \<Rightarrow> get_task_result prog" where
  "after_poll X r i response =
     (if \<not> gt_complete response \<or> tk_id (dt_task (gt_task response)) \<noteq> i
         \<or> \<not> execution_ack_matches (px_platform X) (gt_meta response) r
      then reconcile_answer X r ''GM_TASK_EXECUTION_BINDING_MISMATCH''
      else
        let status = detail_status (px_rmcp X) (gt_task response);
            terminal = status_is_terminal (px_rmcp X) status in
        pbind now_unix_ms (\<lambda>now.
        if now \<ge> execution_cutoff r \<and> status \<noteq> StatusCancelled then
          if terminal then finish_known_rejection_result X r ''GM_TASK_DEADLINE_EXCEEDED''
          else cancel_answer X r ''GM_TASK_RUNTIME_BOUND_REACHED''
        else
          pbind (lift_res (ok_or (result_to_vec (px_rmcp X) response)
                   (InternalError ''GM_TASK_RESULT_SERIALIZATION''))) (\<lambda>bytes.
          if length bytes > output_limit r then
            if terminal then finish_known_rejection_result X r ''GM_TASK_OUTPUT_LIMIT_EXCEEDED''
            else cancel_answer X r ''GM_TASK_OUTPUT_LIMIT_EXCEEDED''
          else
            pbind (if tr_phase r = ReconciliationRequired
                   then pbind (transition_time r) (\<lambda>time. proxy_update r (update_routed i time))
                   else Ret r) (\<lambda>active. settle_poll X active status response))))"

definition poll_upstream :: "proxy \<Rightarrow> task_route \<Rightarrow> get_task_result prog" where
  "poll_upstream X r =
     pbind (lift_res (routed_upstream_id r)) (\<lambda>i.
     pbind (if tr_phase r = CancelRequested then cancel_upstream r i else Ret True) (\<lambda>_.
     pbind now_unix_ms (\<lambda>now.
     let remaining = saturating_sub (execution_cutoff r) now in
     if remaining = 0 \<and> tr_phase r \<noteq> CancelRequested
     then cancel_answer X r ''GM_TASK_RUNTIME_BOUND_REACHED''
     else
       PollTask (tr_source r) i (tr_session r)
         (if remaining = 0 then MAX_TASK_LIFECYCLE_REQUEST_MS else min remaining MAX_TASK_LIFECYCLE_REQUEST_MS)
         (\<lambda>reply. case reply of
            Polled response \<Rightarrow> after_poll X r i response
          | PollFailed \<Rightarrow> reconcile_answer X r ''GM_TASK_RECONCILIATION_REQUIRED''
          | PollElapsed \<Rightarrow> cancel_answer X r ''GM_TASK_RUNTIME_BOUND_REACHED''))))"

section \<open>Requests about a task\<close>

text \<open>The caller, the identifier and the record that every request begins with.\<close>

definition owned_route :: "string \<Rightarrow> identity \<Rightarrow> (task_route \<Rightarrow> 'a prog) \<Rightarrow> 'a prog" where
  "owned_route task_id identity k =
     pbind (caller_of identity) (\<lambda>caller.
     pbind (lift_res (map_err InvalidTaskRoute (public_task_id_new task_id))) (\<lambda>public_id.
     pbind (get_route caller public_id) k))"

definition poll_phase :: "proxy \<Rightarrow> task_route \<Rightarrow> u64 \<Rightarrow> get_task_result prog" where
  "poll_phase X r now =
     (let late = (now \<ge> execution_cutoff r); bound = (tr_upstream r \<noteq> None);
          P = px_platform X; R = px_rmcp X in
      case tr_phase r of
        Terminal \<Rightarrow> cached_answer X r
      | Prepared \<Rightarrow>
          if late then finish_known_non_dispatch_result X r ''GM_TASK_RUNTIME_BOUND_REACHED''
          else Ret (working_task P R r)
      | Dispatching \<Rightarrow>
          if tr_owner r \<noteq> Some (px_instance X) then reconcile_answer X r ''GM_TASK_RECONCILIATION_REQUIRED''
          else if late then reconcile_answer X r ''GM_TASK_RUNTIME_BOUND_REACHED''
          else Ret (working_task P R r)
      | Routed \<Rightarrow>
          if late \<and> bound then cancel_answer X r ''GM_TASK_RUNTIME_BOUND_REACHED'' else poll_upstream X r
      | ReconciliationRequired \<Rightarrow>
          if late \<and> bound then cancel_answer X r ''GM_TASK_RUNTIME_BOUND_REACHED''
          else if \<not> bound then Ret (reconciliation_task P R r) else poll_upstream X r
      | CancelRequested \<Rightarrow>
          if \<not> bound
          then Ret (working_task_with_code P R r ''GM_TASK_CANCELLATION_RECONCILIATION_REQUIRED'')
          else poll_upstream X r)"

definition get_task :: "proxy \<Rightarrow> string \<Rightarrow> identity \<Rightarrow> get_task_result prog" where
  "get_task X task_id identity = owned_route task_id identity (\<lambda>r.
     pbind now_unix_ms (\<lambda>now.
     if is_expired r now then Raise unknown_task
     else if tr_phase r = Terminal then cached_answer X r
     else pbind (if tr_upstream r \<noteq> None then source_binding_is_current (px_platform X) r else Ret True) (\<lambda>current.
       if current then poll_phase X r now
       else reconcile_answer X r ''GM_TASK_SOURCE_SNAPSHOT_CHANGED'')))"

definition update_task :: "proxy \<Rightarrow> string \<Rightarrow> identity \<Rightarrow> unit prog" where
  "update_task X task_id identity = owned_route task_id identity (\<lambda>r.
     pbind now_unix_ms (\<lambda>now.
     if is_expired r now then Raise unknown_task
     else if tr_phase r \<noteq> Routed then Raise (InvalidParams ''GM_TASK_NOT_UPDATEABLE'')
     else Raise (InvalidParams ''GM_TASK_UPDATE_UNSUPPORTED_DURABLE'')))"

definition cancel_task :: "proxy \<Rightarrow> string \<Rightarrow> identity \<Rightarrow> unit prog" where
  "cancel_task X task_id identity = owned_route task_id identity (\<lambda>r.
     pbind now_unix_ms (\<lambda>now.
     if is_expired r now then Raise unknown_task
     else if tr_phase r = Terminal then Ret ()
     else
       pbind (persist_cancellation_intent r) (\<lambda>cancelling.
       pbind (if tr_upstream cancelling \<noteq> None then source_binding_is_current (px_platform X) cancelling
              else Ret True) (\<lambda>current.
       if current then pbind (request_cancellation cancelling) (\<lambda>_. Ret ())
       else Raise (InternalError ''GM_TASK_SOURCE_SNAPSHOT_CHANGED'')))))"

end
