(* ===== verification/Proxy_Logic.thy ===== *)
theory Proxy_Logic
  imports Task_Proxy
begin

text \<open>
  Runs of programs and a program logic for them. An event is a call with its reply. A monitor reads
  events and either moves on or rejects; \<open>wp\<close> says that no run of a program is rejected and that
  its result satisfies a postcondition. The rules for the proxy's building blocks are stated once
  for every monitor that they cannot disturb.
\<close>

section \<open>Events and runs\<close>

datatype event =
    EClock "u64 option"
  | EFresh string
  | EFind task_caller idempotency_key "(task_storage_error, task_route option) res"
  | EGet task_caller public_task_id "(task_storage_error, task_route option) res"
  | EBegin task_route "(task_storage_error, begin_result) res"
  | ECas task_caller public_task_id u64 task_update "(task_storage_error, task_route option) res"
  | EPurge u64 nat "(task_storage_error, nat) res"
  | ESession source_id "string option"
  | ESnapshot source_id "sha256_digest option"
  | EConfiguration source_id "sha256_digest option"
  | ECall upstream_call tool_reply
  | EPoll source_id upstream_task_id string u64 poll_reply
  | ECancel source_id string string bool

primrec step :: "'a prog \<Rightarrow> event \<Rightarrow> 'a prog option" where
  "step (Ret x) e = None"
| "step (Raise err) e = None"
| "step (AskClock f) e = (case e of EClock x \<Rightarrow> Some (f x) | _ \<Rightarrow> None)"
| "step (AskFresh f) e = (case e of EFresh x \<Rightarrow> Some (f x) | _ \<Rightarrow> None)"
| "step (AskFind c k f) e =
     (case e of EFind c' k' x \<Rightarrow> if c = c' \<and> k = k' then Some (f x) else None | _ \<Rightarrow> None)"
| "step (AskGet c i f) e =
     (case e of EGet c' i' x \<Rightarrow> if c = c' \<and> i = i' then Some (f x) else None | _ \<Rightarrow> None)"
| "step (AskBegin r f) e = (case e of EBegin r' x \<Rightarrow> if r = r' then Some (f x) else None | _ \<Rightarrow> None)"
| "step (AskCas c i v u f) e =
     (case e of ECas c' i' v' u' x \<Rightarrow> if c = c' \<and> i = i' \<and> v = v' \<and> u = u' then Some (f x) else None
      | _ \<Rightarrow> None)"
| "step (AskPurge t n f) e =
     (case e of EPurge t' n' x \<Rightarrow> if t = t' \<and> n = n' then Some (f x) else None | _ \<Rightarrow> None)"
| "step (AskSession s f) e = (case e of ESession s' x \<Rightarrow> if s = s' then Some (f x) else None | _ \<Rightarrow> None)"
| "step (AskSnapshot s f) e = (case e of ESnapshot s' x \<Rightarrow> if s = s' then Some (f x) else None | _ \<Rightarrow> None)"
| "step (AskConfiguration s f) e =
     (case e of EConfiguration s' x \<Rightarrow> if s = s' then Some (f x) else None | _ \<Rightarrow> None)"
| "step (CallTool q f) e = (case e of ECall q' x \<Rightarrow> if q = q' then Some (f x) else None | _ \<Rightarrow> None)"
| "step (PollTask s i t n f) e =
     (case e of EPoll s' i' t' n' x \<Rightarrow> if s = s' \<and> i = i' \<and> t = t' \<and> n = n' then Some (f x) else None
      | _ \<Rightarrow> None)"
| "step (CancelTask s i t f) e =
     (case e of ECancel s' i' t' x \<Rightarrow> if s = s' \<and> i = i' \<and> t = t' then Some (f x) else None | _ \<Rightarrow> None)"

fun run :: "'a prog \<Rightarrow> event list \<Rightarrow> 'a prog option" where
  "run p [] = Some p"
| "run p (e # es) = Option.bind (step p e) (\<lambda>q. run q es)"

section \<open>Monitors\<close>

type_synonym 'g monitor = "'g \<Rightarrow> event \<Rightarrow> 'g option"

definition accepts :: "'g monitor \<Rightarrow> 'g \<Rightarrow> event \<Rightarrow> ('g \<Rightarrow> bool) \<Rightarrow> bool" where
  "accepts M g e K = (case M g e of None \<Rightarrow> False | Some g' \<Rightarrow> K g')"

fun monitored :: "'g monitor \<Rightarrow> 'g \<Rightarrow> event list \<Rightarrow> 'g option" where
  "monitored M g [] = Some g"
| "monitored M g (e # es) = Option.bind (M g e) (\<lambda>g'. monitored M g' es)"

primrec wp ::
  "'a prog \<Rightarrow> 'g monitor \<Rightarrow> ('a \<Rightarrow> 'g \<Rightarrow> bool) \<Rightarrow> (mcp_error \<Rightarrow> 'g \<Rightarrow> bool) \<Rightarrow> 'g \<Rightarrow> bool" where
  "wp (Ret x) M Q E g = Q x g"
| "wp (Raise e) M Q E g = E e g"
| "wp (AskClock f) M Q E g = (\<forall>x. accepts M g (EClock x) (wp (f x) M Q E))"
| "wp (AskFresh f) M Q E g = (\<forall>x. accepts M g (EFresh x) (wp (f x) M Q E))"
| "wp (AskFind c k f) M Q E g = (\<forall>x. accepts M g (EFind c k x) (wp (f x) M Q E))"
| "wp (AskGet c i f) M Q E g = (\<forall>x. accepts M g (EGet c i x) (wp (f x) M Q E))"
| "wp (AskBegin r f) M Q E g = (\<forall>x. accepts M g (EBegin r x) (wp (f x) M Q E))"
| "wp (AskCas c i v u f) M Q E g = (\<forall>x. accepts M g (ECas c i v u x) (wp (f x) M Q E))"
| "wp (AskPurge t n f) M Q E g = (\<forall>x. accepts M g (EPurge t n x) (wp (f x) M Q E))"
| "wp (AskSession s f) M Q E g = (\<forall>x. accepts M g (ESession s x) (wp (f x) M Q E))"
| "wp (AskSnapshot s f) M Q E g = (\<forall>x. accepts M g (ESnapshot s x) (wp (f x) M Q E))"
| "wp (AskConfiguration s f) M Q E g = (\<forall>x. accepts M g (EConfiguration s x) (wp (f x) M Q E))"
| "wp (CallTool q f) M Q E g = (\<forall>x. accepts M g (ECall q x) (wp (f x) M Q E))"
| "wp (PollTask s i t n f) M Q E g = (\<forall>x. accepts M g (EPoll s i t n x) (wp (f x) M Q E))"
| "wp (CancelTask s i t f) M Q E g = (\<forall>x. accepts M g (ECancel s i t x) (wp (f x) M Q E))"

lemma wp_pbind: "wp (pbind p k) M Q E g = wp p M (\<lambda>x. wp (k x) M Q E) E g"
  by (induction p arbitrary: g) (simp_all add: accepts_def split: option.splits)

lemma wp_ptry: "wp (ptry p) M Q E g = wp p M (\<lambda>x. Q (Inr x)) (\<lambda>e. Q (Inl e)) g"
  by (induction p arbitrary: g) (simp_all add: accepts_def split: option.splits)

lemma wp_lift_res: "wp (lift_res r) M Q E g = (case r of Inl e \<Rightarrow> E e g | Inr x \<Rightarrow> Q x g)"
  by (cases r) simp_all

lemma wp_mono:
  assumes "wp p M Q E g" "\<And>x g. Q x g \<Longrightarrow> Q' x g" "\<And>e g. E e g \<Longrightarrow> E' e g"
  shows "wp p M Q' E' g"
  using assms(1)
proof (induction p arbitrary: g)
qed (auto simp: accepts_def assms(2,3) split: option.splits)

lemma wp_step:
  assumes "wp p M Q E g" "step p e = Some q"
  shows "\<exists>g'. M g e = Some g' \<and> wp q M Q E g'"
  using assms
  by (cases p) (auto simp: accepts_def split: event.splits if_splits option.splits)

lemma wp_run:
  "\<lbrakk>wp p M Q E g; run p es = Some q\<rbrakk> \<Longrightarrow> \<exists>g'. monitored M g es = Some g' \<and> wp q M Q E g'"
proof (induction es arbitrary: p g)
  case (Cons e es)
  then obtain p' where "step p e = Some p'" "run p' es = Some q" by (auto split: bind_splits)
  then show ?case using wp_step [OF Cons.prems(1)] Cons.IH by fastforce
qed simp

section \<open>Programs that dispatch nothing\<close>

fun dispatching :: "event \<Rightarrow> bool" where
  "dispatching (EFresh i) = True"
| "dispatching (EBegin r x) = True"
| "dispatching (ECall q x) = True"
| "dispatching (ECas c i v u x) = (up_phase u = Dispatching)"
| "dispatching _ = False"

definition inert_monitor :: "unit monitor" where
  "inert_monitor g e = (if dispatching e then None else Some g)"

abbreviation inert :: "'a prog \<Rightarrow> bool" where
  "inert p \<equiv> wp p inert_monitor (\<lambda>_ _. True) (\<lambda>_ _. True) ()"

text \<open>A monitor that such programs cannot disturb.\<close>

locale quiet_monitor =
  fixes M :: "'g monitor"
  assumes quiet: "\<not> dispatching e \<Longrightarrow> M g e = Some g"
begin

lemma accepts_quiet: "\<not> dispatching e \<Longrightarrow> accepts M g e K \<longleftrightarrow> K g"
  by (simp add: accepts_def quiet)

lemma wp_inert:
  assumes "inert p" "\<And>x. Q x g" "\<And>e. E e g"
  shows "wp p M Q E g"
  using assms(1)
proof (induction p)
qed (auto simp: accepts_def inert_monitor_def quiet assms(2,3) split: if_splits)

end

interpretation inert: quiet_monitor inert_monitor
  by unfold_locales (simp add: inert_monitor_def)

lemmas inert_accepts = inert.accepts_quiet

lemmas [simp] = inert.accepts_quiet

named_theorems inert_rules \<open>programs that dispatch nothing\<close>

lemma inert_pbind [inert_rules]: "\<lbrakk>inert p; \<And>x. inert (k x)\<rbrakk> \<Longrightarrow> inert (pbind p k)"
  unfolding wp_pbind by (rule inert.wp_inert) simp_all

lemma inert_pbind_post:
  assumes "wp p inert_monitor (\<lambda>x _. R x) (\<lambda>_ _. True) ()" "\<And>x. R x \<Longrightarrow> inert (k x)"
  shows "inert (pbind p k)"
  unfolding wp_pbind by (rule wp_mono [OF assms(1)]) (simp_all add: assms(2))

lemma inert_ptry [inert_rules]: "inert p \<Longrightarrow> inert (ptry p)"
  by (simp add: wp_ptry)

lemma inert_lift_res [inert_rules]: "inert (lift_res r)"
  by (simp add: wp_lift_res split: sum.split)

lemma inert_now [inert_rules]: "inert now_unix_ms"
  by (simp add: now_unix_ms_def inert_lift_res)

lemma inert_time [inert_rules]: "inert (transition_time r)"
  by (simp add: transition_time_def inert_rules)

lemma inert_stored [inert_rules]: "inert (stored r)"
  by (simp add: stored_def inert_lift_res)

lemma inert_get_route [inert_rules]: "inert (get_route c i)"
  by (simp add: get_route_def inert_rules)

lemma inert_update [inert_rules]: "up_phase u \<noteq> Dispatching \<Longrightarrow> inert (proxy_update r u)"
  by (simp add: proxy_update_def inert_get_route split: sum.split option.split task_storage_error.split)

lemma update_phases [simp]:
  "up_phase (update_routed i t) = Routed" "up_phase (update_terminal t v) = Terminal"
  "up_phase (update_reconciliation_required t) = ReconciliationRequired"
  "up_phase (update_cancel_requested t) = CancelRequested"
  "up_phase (update_cancel_requested_with_upstream i t) = CancelRequested"
  "up_phase (update_dispatching s t) = Dispatching"
  by (simp_all add: update_routed_def update_terminal_def update_reconciliation_required_def
      update_cancel_requested_def update_cancel_requested_with_upstream_def update_dispatching_def)

lemma inert_persist_loop: "inert (persist_loop n r)"
  by (induction n arbitrary: r) (simp_all add: inert_rules)

lemma inert_reconcile_loop: "inert (reconcile_loop n r)"
  by (induction n arbitrary: r) (simp_all add: inert_rules)

lemma inert_finish_loop: "inert (finish_loop R n d r)"
  by (induction n arbitrary: r d) (simp_all add: Let_def inert_rules)

lemma inert_loops [inert_rules]:
  "inert (persist_cancellation_intent r)" "inert (mark_reconciliation_required r)" "inert (finish_terminal R r d)"
  by (simp_all add: persist_cancellation_intent_def mark_reconciliation_required_def finish_terminal_def
      inert_persist_loop inert_reconcile_loop inert_finish_loop)

lemma inert_bind_update: "inert (bind_update r i c)"
  by (simp add: bind_update_def inert_rules split: task_phase.split)

lemma inert_cancels [inert_rules]:
  "inert (cancel_upstream r i)" "inert (cancel_raw_upstream r i)" "inert (source_binding_is_current P r)"
  by (simp_all add: cancel_upstream_def cancel_raw_upstream_def source_binding_is_current_def split: option.split)

lemma inert_request_cancellation [inert_rules]: "inert (request_cancellation r)"
  by (simp add: request_cancellation_def inert_rules split: option.split)

lemma inert_finish_once [inert_rules]: "inert (finish_non_dispatch_once P R r code)"
  by (simp add: finish_non_dispatch_once_def inert_rules)

lemma bind_update_phase:
  "wp (bind_update r i c) inert_monitor (\<lambda>u _. \<forall>v. u = Some v \<longrightarrow> up_phase v \<noteq> Dispatching) (\<lambda>_ _. True) ()"
  by (simp add: bind_update_def wp_pbind inert.wp_inert [OF inert_time] split: task_phase.split)

lemma inert_if: "\<lbrakk>b \<Longrightarrow> inert p; \<not> b \<Longrightarrow> inert q\<rbrakk> \<Longrightarrow> inert (if b then p else q)"
  by simp

lemma inert_bind_loop: "inert (bind_loop n r i c)"
proof (induction n arbitrary: c)
  case (Suc n)
  have "inert (pbind (get_route (tr_caller r) (tr_public_id r)) (bind_loop n r i))"
    by (simp add: inert_rules Suc)
  then have k: "inert (case u of None \<Rightarrow> Ret (c, True) | Some u \<Rightarrow>
      AskCas (tr_caller c) (tr_public_id c) (tr_version c) u (\<lambda>res.
          case res of
            Inr (Some bound) \<Rightarrow> Ret (bound, tr_phase bound = CancelRequested)
          | Inr None \<Rightarrow> Raise unknown_task
          | Inl StaleTransition \<Rightarrow> pbind (get_route (tr_caller r) (tr_public_id r)) (bind_loop n r i)
          | Inl e \<Rightarrow> Raise (storage_mcp_error e)))" if "\<forall>v. u = Some v \<longrightarrow> up_phase v \<noteq> Dispatching" for u
    using that by (cases u) (simp_all split: sum.split option.split task_storage_error.split)
  show ?case
    unfolding bind_loop.simps
    by (intro inert_if) (simp, simp, rule inert_pbind_post [OF bind_update_phase], erule k)
qed simp

lemma inert_bind [inert_rules]: "inert (bind_upstream_task r i)"
  by (simp add: bind_upstream_task_def inert_bind_loop)

section \<open>The operations of the proxy\<close>

lemmas inert_simple [inert_rules] = wp.simps(1) [of _ inert_monitor "\<lambda>_ _. True" "\<lambda>_ _. True" "()"]

lemma inert_answers [inert_rules]:
  "inert (handle X r st)" "inert (existing_submission X r)" "inert (reconcile_handle X r)"
  "inert (finish_rejected X r code)" "inert (terminal_handle X r)" "inert (cached_answer X r)"
  "inert (caller_of i)"
  by (simp_all add: handle_def existing_submission_def reconcile_handle_def finish_rejected_def terminal_handle_def
      cached_answer_def caller_of_def inert_rules split: task_phase.split)

lemma inert_finishes [inert_rules]:
  "inert (finish_known_rejection X r code)" "inert (finish_known_non_dispatch X r code)"
  "inert (finish_known_rejection_result X r code)" "inert (finish_known_non_dispatch_result X r code)"
  by (simp_all add: finish_known_rejection_def finish_known_non_dispatch_def finish_known_rejection_result_def
      finish_known_non_dispatch_result_def inert_rules)

lemma inert_task_created [inert_rules]: "inert (task_created X r t m)"
  by (simp add: task_created_def inert_rules split: sum.split prod.split)

lemma inert_call_completed [inert_rules]: "inert (call_completed X r v m)"
  by (simp add: call_completed_def Let_def inert_rules)

lemma inert_after_call: "inert (after_call X r reply)"
  by (simp add: after_call_def inert_rules split: tool_reply.split call_tool_response.split)

lemma inert_recover_branch [inert_rules]: "inert (recover_branch X t a sub c now)"
  by (simp add: recover_branch_def inert_rules)

lemma inert_recover: "inert (recover_submission X t a sub i)"
  by (simp add: recover_submission_def submit_mode_def inert_rules)

lemma inert_poll_answers [inert_rules]:
  "inert (cancel_answer X r code)" "inert (reconcile_answer X r code)"
  by (simp_all add: cancel_answer_def reconcile_answer_def inert_rules)

lemma inert_settle [inert_rules]: "inert (settle_poll X r st resp)"
  by (simp add: settle_poll_def Let_def inert_rules)

lemma inert_after_poll [inert_rules]: "inert (after_poll X r i resp)"
  by (simp add: after_poll_def Let_def inert_rules)

lemma inert_poll_upstream [inert_rules]: "inert (poll_upstream X r)"
  by (simp add: poll_upstream_def Let_def inert_rules split: poll_reply.split)

lemma inert_owned: "(\<And>r. inert (k r)) \<Longrightarrow> inert (owned_route t i k)"
  by (simp add: owned_route_def inert_rules)

lemma inert_requests:
  "inert (get_task X t i)" "inert (update_task X t i)" "inert (cancel_task X t i)"
proof -
  have "inert (poll_phase X r now)" for r now
    by (simp add: poll_phase_def Let_def inert_rules split: task_phase.split)
  then show "inert (get_task X t i)"
    unfolding get_task_def by (intro inert_owned) (simp add: inert_rules)
  show "inert (update_task X t i)"
    unfolding update_task_def by (intro inert_owned) (simp add: inert_rules)
  show "inert (cancel_task X t i)"
    unfolding cancel_task_def by (intro inert_owned) (simp add: inert_rules)
qed

end
