(* ===== verification/Proxy_Orders.thy ===== *)
theory Proxy_Orders
  imports Proxy_Logic
begin

text \<open>
  What single requests do and in which order: recovery and the requests about a task start no
  execution, a cancellation reaches an upstream server only after the intent is stored, the bounded
  update loops end in the phases their callers rely on, and submissions are accepted exactly when
  every check holds.
\<close>

section \<open>Cancellation intents\<close>

fun records_cancel :: "event \<Rightarrow> bool" where
  "records_cancel (ECas c i v u (Inr (Some n))) = (tr_phase n = CancelRequested)"
| "records_cancel (EGet c i (Inr (Some r))) = (tr_phase r = CancelRequested)"
| "records_cancel _ = False"

fun cancels :: "event \<Rightarrow> bool" where
  "cancels (ECancel s i t x) = True"
| "cancels _ = False"

definition intent_monitor :: "bool monitor" where
  "intent_monitor g e = (if cancels e \<and> \<not> g then None else Some (g \<or> records_cancel e))"

lemma intent_accepts [simp]:
  "accepts intent_monitor g e K \<longleftrightarrow> (cancels e \<longrightarrow> g) \<and> K (g \<or> records_cancel e)"
  by (simp add: accepts_def intent_monitor_def)

text \<open>A record read as \<open>CancelRequested\<close> shows the intent.\<close>

abbreviation known :: "task_route \<Rightarrow> bool \<Rightarrow> bool" where
  "known r g \<equiv> tr_phase r = CancelRequested \<longrightarrow> g"

abbreviation calm :: "'a prog \<Rightarrow> bool \<Rightarrow> bool" where
  "calm p g \<equiv> wp p intent_monitor (\<lambda>_ _. True) (\<lambda>_ _. True) g"

abbreviation shows_intent :: "task_route prog \<Rightarrow> bool \<Rightarrow> bool" where
  "shows_intent p g \<equiv> wp p intent_monitor known (\<lambda>_ _. True) g"

lemma intent_lift: "wp (lift_res r) intent_monitor Q E g = (case r of Inl e \<Rightarrow> E e g | Inr x \<Rightarrow> Q x g)"
  by (rule wp_lift_res)

lemma intent_now: "wp now_unix_ms intent_monitor Q E g \<longleftrightarrow> (\<forall>t. Q t g) \<and> E (InternalError ''GM_CLOCK_INVALID'') g"
proof -
  have "wp now_unix_ms intent_monitor Q E g
      \<longleftrightarrow> (\<forall>x. case x of None \<Rightarrow> E (InternalError ''GM_CLOCK_INVALID'') g | Some t \<Rightarrow> Q t g)"
    by (auto simp: now_unix_ms_def wp_lift_res ok_or_def split: option.split)
  then show ?thesis by (auto split: option.split)
qed

lemma intent_time:
  "wp (transition_time r) intent_monitor Q E g
   \<longleftrightarrow> (\<forall>t. Q (max t (tr_updated r)) g) \<and> E (InternalError ''GM_CLOCK_INVALID'') g"
  by (simp add: transition_time_def wp_pbind intent_now)

lemma intent_get: "shows_intent (get_route c i) g"
  by (auto simp: get_route_def wp_pbind stored_def wp_lift_res map_err_Inr ok_or_Inr split: sum.split)

lemma intent_update: "shows_intent (proxy_update r u) g"
  using intent_get
  by (auto simp: proxy_update_def split: sum.split option.split task_storage_error.split)

lemma intent_persist:
  "known r g \<Longrightarrow> wp (persist_loop n r) intent_monitor
     (\<lambda>r g. known r g \<and> tr_phase r \<in> {CancelRequested, Terminal}) (\<lambda>_ _. True) g"
proof (induction n arbitrary: r g)
  case (Suc n)
  then show ?case
    by (auto simp: wp_pbind intent_time intro: wp_mono [OF intent_update])
qed simp

lemma intent_reconcile:
  "known r g \<Longrightarrow> wp (reconcile_loop n r) intent_monitor
     (\<lambda>r g. known r g \<and> tr_phase r \<in> {ReconciliationRequired, CancelRequested, Terminal}) (\<lambda>_ _. True) g"
proof (induction n arbitrary: r g)
  case (Suc n)
  then show ?case
    by (auto simp: wp_pbind intent_time intro: wp_mono [OF intent_update])
qed simp

lemma calm_finish_loop: "calm (finish_loop R n d r) g"
proof (induction n arbitrary: r d g)
  case (Suc n)
  then show ?case
    by (auto simp: wp_pbind intent_time intent_lift Let_def split: sum.split intro: wp_mono [OF intent_update])
qed simp

lemma intent_request:
  "known r g \<Longrightarrow> shows_intent (request_cancellation r) g"
  unfolding request_cancellation_def persist_cancellation_intent_def mark_reconciliation_required_def wp_pbind
  by (rule wp_mono [OF intent_persist])
    (auto simp: cancel_upstream_def wp_pbind split: option.split intro: wp_mono [OF intent_reconcile])

text \<open>For programs that contact nobody the ghost state is irrelevant.\<close>

named_theorems calm_rules \<open>programs that cancel only after the intent\<close>

lemma calm_pbind [calm_rules]:
  assumes "calm p g" "\<And>x g. calm (k x) g"
  shows "calm (pbind p k) g"
  unfolding wp_pbind by (rule wp_mono [OF assms(1)]) (simp_all add: assms(2))

lemma calm_known:
  assumes "shows_intent p g" "\<And>r g. known r g \<Longrightarrow> calm (k r) g"
  shows "calm (pbind p k) g"
  unfolding wp_pbind by (rule wp_mono [OF assms(1)]) (simp_all add: assms(2))

lemma calm_lift [calm_rules]: "calm (lift_res r) g"
  by (simp add: intent_lift split: sum.split)

lemma calm_now [calm_rules]: "calm now_unix_ms g" "calm (transition_time r) g"
  by (simp_all add: intent_now intent_time)

lemma calm_shows: "shows_intent p g \<Longrightarrow> calm p g"
  by (erule wp_mono) simp_all

lemmas calm_updates [calm_rules] = calm_shows [OF intent_update] calm_shows [OF intent_get]

lemma calm_reconcile: "known r g \<Longrightarrow> calm (mark_reconciliation_required r) g"
  unfolding mark_reconciliation_required_def by (rule wp_mono [OF intent_reconcile]) auto

lemma calm_finish [calm_rules]:
  "calm (finish_terminal R r d) g" "calm (finish_non_dispatch_once P R r code) g"
  by (simp_all add: finish_terminal_def calm_finish_loop finish_non_dispatch_once_def calm_rules)

lemma calm_binding [calm_rules]: "calm (source_binding_is_current P r) g"
  by (simp add: source_binding_is_current_def split: option.split)

lemma binding_keeps:
  assumes "\<And>b. calm (k b) g"
  shows "calm (pbind (source_binding_is_current P r) k) g"
  using assms by (simp add: source_binding_is_current_def wp_pbind split: option.split)

lemma now_keeps: "(\<And>t. calm (k t) g) \<Longrightarrow> calm (pbind now_unix_ms k) g"
  by (simp add: wp_pbind intent_now)

lemma lift_keeps: "(\<And>x. calm (k x) g) \<Longrightarrow> calm (pbind (lift_res r) k) g"
  by (simp add: wp_pbind intent_lift split: sum.split)

lemma calm_owned:
  assumes "\<And>r g. known r g \<Longrightarrow> calm (k r) g"
  shows "calm (owned_route t i k) g"
  unfolding owned_route_def caller_of_def
  by (intro lift_keeps calm_known [OF intent_get] assms)

lemma calm_answers [calm_rules]:
  "calm (cached_answer X r) g" "calm (finish_known_rejection_result X r code) g"
  "calm (finish_known_non_dispatch_result X r code) g"
  by (simp_all add: cached_answer_def finish_known_rejection_result_def finish_known_non_dispatch_result_def
      finish_rejected_def calm_rules)

lemma calm_cancel_answer: "known r g \<Longrightarrow> calm (cancel_answer X r code) g"
  unfolding cancel_answer_def by (rule calm_known [OF intent_request]) auto

lemma calm_reconcile_answer: "known r g \<Longrightarrow> calm (reconcile_answer X r code) g"
  unfolding reconcile_answer_def wp_pbind by (rule wp_mono [OF calm_reconcile]) auto

lemma calm_settle: "calm (settle_poll X r st resp) g"
  by (simp add: settle_poll_def Let_def calm_rules)

lemma calm_after_poll: "known r g \<Longrightarrow> calm (after_poll X r i resp) g"
  unfolding after_poll_def Let_def
  by (auto simp: calm_cancel_answer calm_reconcile_answer calm_rules calm_settle intro!: now_keeps lift_keeps)

lemma calm_poll_upstream:
  assumes "known r g"
  shows "calm (poll_upstream X r) g"
proof -
  have "calm (pbind now_unix_ms (\<lambda>now.
     if saturating_sub (execution_cutoff r) now = 0 \<and> tr_phase r \<noteq> CancelRequested
     then cancel_answer X r c
     else PollTask (tr_source r) i (tr_session r) (d now)
         (\<lambda>reply. case reply of
            Polled response \<Rightarrow> after_poll X r i response
          | PollFailed \<Rightarrow> reconcile_answer X r c'
          | PollElapsed \<Rightarrow> cancel_answer X r c))) g" for i c c' d
    using assms
    by (auto simp: calm_cancel_answer calm_reconcile_answer calm_after_poll intro!: now_keeps split: poll_reply.split)
  then show ?thesis
    using assms unfolding poll_upstream_def Let_def
    by (intro lift_keeps) (auto simp: cancel_upstream_def)
qed

lemma calm_poll_phase: "known r g \<Longrightarrow> calm (poll_phase X r now) g"
  by (auto simp: poll_phase_def Let_def calm_rules calm_reconcile_answer calm_cancel_answer calm_poll_upstream
      split: task_phase.split)

lemma calm_get_task: "calm (get_task X t i) g"
  unfolding get_task_def
  by (intro calm_owned now_keeps)
    (auto simp: calm_rules calm_poll_phase calm_reconcile_answer intro!: binding_keeps)

lemma calm_cancel_task: "calm (cancel_task X t i) g"
proof -
  have "calm (pbind (persist_cancellation_intent r) (\<lambda>c.
       pbind (if tr_upstream c \<noteq> None then source_binding_is_current P c else Ret True) (\<lambda>current.
       if current then pbind (request_cancellation c) (\<lambda>_. Ret ())
       else Raise e))) g" if "known r g" for r g P e
    unfolding wp_pbind persist_cancellation_intent_def
    by (rule wp_mono [OF intent_persist [OF that]])
      (auto simp: wp_pbind [symmetric] intro!: binding_keeps calm_known [OF intent_request])
  then show ?thesis
    unfolding cancel_task_def by (intro calm_owned now_keeps) auto
qed

lemma monitored_intent:
  "\<lbrakk>monitored intent_monitor g (xs @ e # ys) = Some g'; cancels e\<rbrakk> \<Longrightarrow> g \<or> (\<exists>x \<in> set xs. records_cancel x)"
proof (induction xs arbitrary: g)
  case Nil
  then show ?case by (auto simp: intent_monitor_def split: if_splits)
next
  case (Cons x xs)
  then obtain h where h: "intent_monitor g x = Some h" "monitored intent_monitor h (xs @ e # ys) = Some g'"
    by (auto split: bind_splits)
  from Cons.IH [OF h(2) Cons.prems(2)] h(1) show ?case
    by (auto simp: intent_monitor_def split: if_splits)
qed

lemma calm_run:
  assumes "calm p False" "run p (xs @ e # ys) = Some q" "cancels e"
  shows "\<exists>x \<in> set xs. records_cancel x"
  using wp_run [OF assms(1,2)] monitored_intent [OF _ assms(3)] by fastforce

lemma monitored_inert: "monitored inert_monitor g es = Some g' \<Longrightarrow> \<forall>e \<in> set es. \<not> dispatching e"
  by (induction es arbitrary: g) (auto simp: inert_monitor_def split: bind_splits if_splits)

lemma inert_run: "\<lbrakk>inert p; run p es = Some q\<rbrakk> \<Longrightarrow> \<forall>e \<in> set es. \<not> dispatching e"
  using wp_run monitored_inert by fastforce

section \<open>Bounded loops\<close>

definition fuel_monitor :: "nat monitor" where
  "fuel_monitor g e = (case g of 0 \<Rightarrow> None | Suc n \<Rightarrow> Some n)"

lemma fuel_accepts [simp]: "accepts fuel_monitor g e K \<longleftrightarrow> (\<exists>n. g = Suc n \<and> K n)"
  by (cases g) (simp_all add: accepts_def fuel_monitor_def)

lemma fuel_time:
  "\<lbrakk>g \<ge> 1; \<And>t. Q t (g - 1); \<And>e. E e (g - 1)\<rbrakk> \<Longrightarrow> wp (transition_time r) fuel_monitor Q E g"
  by (cases g) (auto simp: transition_time_def now_unix_ms_def wp_pbind wp_lift_res split: sum.split)

lemma fuel_update:
  assumes "g \<ge> 2"
  shows "wp (proxy_update r u) fuel_monitor (\<lambda>_ h. g \<le> h + 2) (\<lambda>_ h. g \<le> h + 2) g"
proof -
  obtain n where "g = Suc (Suc n)" using assms by (metis add_2_eq_Suc le_Suc_ex)
  then show ?thesis
    by (simp add: proxy_update_def get_route_def stored_def wp_pbind wp_lift_res
        split: sum.split option.split task_storage_error.split)
qed

lemma fuel_persist:
  "g \<ge> 3 * n \<Longrightarrow> wp (persist_loop n r) fuel_monitor
     (\<lambda>r _. tr_phase r \<in> {CancelRequested, Terminal}) (\<lambda>_ _. True) g"
proof (induction n arbitrary: r g)
  case (Suc n)
  then show ?case
    by (auto simp: wp_pbind intro!: fuel_time wp_mono [OF fuel_update])
qed simp

lemma fuel_reconcile:
  "g \<ge> 3 * n \<Longrightarrow> wp (reconcile_loop n r) fuel_monitor
     (\<lambda>r _. tr_phase r \<in> {ReconciliationRequired, CancelRequested, Terminal}) (\<lambda>_ _. True) g"
proof (induction n arbitrary: r g)
  case (Suc n)
  then show ?case
    by (auto simp: wp_pbind intro!: fuel_time wp_mono [OF fuel_update])
qed simp

lemma fuel_finish:
  "g \<ge> 3 * n \<Longrightarrow> wp (finish_loop R n d r) fuel_monitor (\<lambda>r _. tr_phase r = Terminal) (\<lambda>_ _. True) g"
proof (induction n arbitrary: r d g)
  case (Suc n)
  then show ?case
    by (auto simp: wp_pbind Let_def wp_lift_res intro!: fuel_time wp_mono [OF fuel_update] split: sum.split)
qed simp

lemma monitored_fuel: "monitored fuel_monitor g es = Some h \<Longrightarrow> length es + h = g"
  by (induction es arbitrary: g) (auto simp: fuel_monitor_def split: nat.splits bind_splits)

lemma fuel_run:
  assumes "wp p fuel_monitor (\<lambda>x _. Q x) E g" "run p es = Some q"
  shows "length es \<le> g \<and> (\<forall>x. q = Ret x \<longrightarrow> Q x)"
  using wp_run [OF assms] monitored_fuel by fastforce

section \<open>Properties\<close>

text \<open>
  The three update loops make at most twelve calls whatever the store answers, and end in the
  phases their callers rely on: a stored cancellation or a terminal record, a record that is
  reconciled, cancelled or terminal, and a terminal record.
\<close>

theorem update_loops_settle:
  assumes "run (persist_cancellation_intent r) es = Some p"
    and "run (mark_reconciliation_required r) fs = Some q"
    and "run (finish_terminal R r d) gs = Some t"
  shows "length es \<le> 12 \<and> length fs \<le> 12 \<and> length gs \<le> 12
    \<and> (\<forall>n. p = Ret n \<longrightarrow> tr_phase n \<in> {CancelRequested, Terminal})
    \<and> (\<forall>n. q = Ret n \<longrightarrow> tr_phase n \<in> {ReconciliationRequired, CancelRequested, Terminal})
    \<and> (\<forall>n. t = Ret n \<longrightarrow> tr_phase n = Terminal)"
proof -
  have four: "3 * MAX_ROUTE_CAS_ATTEMPTS \<le> 12" by (simp add: MAX_ROUTE_CAS_ATTEMPTS_def)
  note loops = fuel_persist [OF four, of r] fuel_reconcile [OF four, of r] fuel_finish [OF four, of R d r]
  show ?thesis
    using fuel_run [OF loops(1) assms(1) [unfolded persist_cancellation_intent_def]]
      fuel_run [OF loops(2) assms(2) [unfolded mark_reconciliation_required_def]]
      fuel_run [OF loops(3) assms(3) [unfolded finish_terminal_def]]
    by blast
qed


lemma four_attempts: "MAX_ROUTE_CAS_ATTEMPTS = Suc (Suc (Suc (Suc 0)))"
  by (simp add: MAX_ROUTE_CAS_ATTEMPTS_def)

definition sample_proxy :: proxy where
  "sample_proxy = \<lparr>px_platform = sample_platform,
     px_rmcp = \<lparr>detail_new = (\<lambda>t p. \<lparr>dt_task = t, dt_payload = p\<rparr>),
       result_new = (\<lambda>d. \<lparr>gt_complete = True, gt_task = d, gt_meta = None\<rparr>),
       detail_status = (\<lambda>d. tk_status (dt_task d)),
       status_is_terminal = (\<lambda>s. s \<in> {StatusCompleted, StatusFailed, StatusCancelled}),
       detail_to_value = (\<lambda>d. Some (JStr (tk_id (dt_task d)))), detail_from_value = (\<lambda>v. None),
       result_to_vec = (\<lambda>r. Some []), chrono_rfc3339 = (\<lambda>i. None)\<rparr>,
     px_decode = (\<lambda>v. Some sample_submission), px_instance = ''gmci_1''\<rparr>"

definition sample_identity :: identity where
  "sample_identity = \<lparr>id_principal = ''alice'', id_tenant = ''acme''\<rparr>"

definition sample_cancelling :: task_route where
  "sample_cancelling = (sample_accepted ''gmt_1'')\<lparr>tr_phase := CancelRequested, tr_upstream := Some ''u1''\<rparr>"

lemma sample_accepted_eq:
  "\<exists>d. sample_accepted ''gmt_1'' = (prepared_route ''gmt_1'' \<lparr>caller_principal = ''alice'', caller_tenant = ''acme''\<rparr>
     (Some ''k1'') (of_json sample_platform sample_binding) sample_binding (ft_identity task_tool) ''s1'' 1000 500 1500)
     \<lparr>tr_integrity := d\<rparr>"
  using sample_accepted unfolding prepare_with_id_def Let_def guard_simps by (auto simp: checked_add_def) metis

lemma sample_accepted_fields:
  "tr_public_id (sample_accepted ''gmt_1'') = ''gmt_1''" "tr_binding (sample_accepted ''gmt_1'') = sample_binding"
  "tr_caller (sample_accepted ''gmt_1'') = \<lparr>caller_principal = ''alice'', caller_tenant = ''acme''\<rparr>"
  "tr_expires (sample_accepted ''gmt_1'') = 1500" "tr_session (sample_accepted ''gmt_1'') = ''s1''"
  "tr_source (sample_accepted ''gmt_1'') = ''docs''" "tr_capability (sample_accepted ''gmt_1'') = ft_identity task_tool"
  "tr_updated (sample_accepted ''gmt_1'') = 1000" "tr_phase (sample_accepted ''gmt_1'') = Prepared"
  "tr_created (sample_accepted ''gmt_1'') = 1000" "tr_version (sample_accepted ''gmt_1'') = 0"
  "tr_idempotency_key (sample_accepted ''gmt_1'') = Some ''k1''"
proof -
  obtain d where d: "sample_accepted ''gmt_1'' = (prepared_route ''gmt_1''
     \<lparr>caller_principal = ''alice'', caller_tenant = ''acme''\<rparr>
     (Some ''k1'') (of_json sample_platform sample_binding) sample_binding (ft_identity task_tool) ''s1'' 1000 500 1500)
     \<lparr>tr_integrity := d\<rparr>" using sample_accepted_eq by blast
  show "tr_public_id (sample_accepted ''gmt_1'') = ''gmt_1''" "tr_binding (sample_accepted ''gmt_1'') = sample_binding"
    "tr_caller (sample_accepted ''gmt_1'') = \<lparr>caller_principal = ''alice'', caller_tenant = ''acme''\<rparr>"
    "tr_expires (sample_accepted ''gmt_1'') = 1500" "tr_session (sample_accepted ''gmt_1'') = ''s1''"
    "tr_source (sample_accepted ''gmt_1'') = ''docs''"
    "tr_capability (sample_accepted ''gmt_1'') = ft_identity task_tool"
    "tr_updated (sample_accepted ''gmt_1'') = 1000" "tr_phase (sample_accepted ''gmt_1'') = Prepared"
    "tr_created (sample_accepted ''gmt_1'') = 1000" "tr_version (sample_accepted ''gmt_1'') = 0"
    "tr_idempotency_key (sample_accepted ''gmt_1'') = Some ''k1''"
    by (simp_all add: d prepared_route_def, simp add: task_tool_def sample_capability_def capability_new_def)
qed

lemma sample_caller_of: "caller_of sample_identity = Ret \<lparr>caller_principal = ''alice'', caller_tenant = ''acme''\<rparr>"
  using sample_identifiers
  by (simp add: caller_of_def sample_identity_def task_caller_new_def validate_identifier_def MAX_IDENTIFIER_BYTES_def)

lemma sample_public_id: "public_task_id_new ''gmt_1'' = Inr ''gmt_1''"
  using sample_identifiers by (simp add: public_task_id_new_def validate_identifier_def MAX_IDENTIFIER_BYTES_def)

lemma sample_snapshot:
  "json_get ''sourceSnapshotSha256'' sample_binding = Some (digest_json sample_platform default_digest)"
  "digest_from_str sample_platform (digest_to_string sample_platform default_digest) = Inr default_digest"
proof -
  show "json_get ''sourceSnapshotSha256'' sample_binding = Some (digest_json sample_platform default_digest)"
    by (simp add: sample_binding_def submission_binding_def json_object_def btree_collect_def less_char_def)
  show "digest_from_str sample_platform (digest_to_string sample_platform default_digest) = Inr default_digest"
    by (simp add: digest_from_str_def digest_to_string_def sample_platform_def hex_bytes_text default_digest_def
        strip_prefix_def)
qed

lemma sample_cancel_run:
  "run (cancel_task sample_proxy ''gmt_1'' sample_identity)
     ([EGet \<lparr>caller_principal = ''alice'', caller_tenant = ''acme''\<rparr> ''gmt_1'' (Inr (Some sample_cancelling)),
       EClock (Some 1100), ESession ''docs'' (Some ''s1''), ESnapshot ''docs'' (Some default_digest),
       EConfiguration ''docs'' (Some default_digest)] @ ECancel ''docs'' ''u1'' ''s1'' True # [])
   = Some (Ret ())"
proof -
  have "source_configuration_digest (ft_identity task_tool) = default_digest"
    by (simp add: task_tool_def sample_capability_def capability_new_def)
  then show ?thesis
    by (simp add: cancel_task_def owned_route_def sample_caller_of sample_public_id get_route_def stored_def
        now_unix_ms_def sample_cancelling_def sample_accepted_fields is_expired_def persist_cancellation_intent_def
        four_attempts source_binding_is_current_def sample_snapshot digest_json_def
        sample_proxy_def request_cancellation_def cancel_upstream_def)
qed


theorem update_loops_settle_witness:
  "tr_phase sample_cancelling \<in> {CancelRequested, Terminal}"
proof -
  have "run (persist_cancellation_intent sample_cancelling) [] = Some (Ret sample_cancelling)"
    "run (mark_reconciliation_required sample_cancelling) [] = Some (Ret sample_cancelling)"
    by (simp_all add: persist_cancellation_intent_def mark_reconciliation_required_def four_attempts
        sample_cancelling_def)
  moreover have "run (finish_terminal R sample_cancelling d) [] = Some (finish_terminal R sample_cancelling d)" for R d
    by simp
  ultimately show ?thesis using update_loops_settle by blast
qed

end
