(* ===== verification/Proxy_System.thy ===== *)
theory Proxy_System
  imports Proxy_Orders
begin

text \<open>
  Many proxies, one store: requests of any callers to any number of proxy instances run interleaved
  on the store of \<open>Storage\<close>. A step executes one call of one program; the store answers with its
  operations, or fails and stays as it is, and everything else (clock, upstream servers, fresh
  identifiers) answers arbitrarily. A program that never steps again is a process that died. The main
  result is that a claimed route is dispatched at most once.
\<close>

section \<open>Claims pay for dispatches\<close>

definition called_id :: "upstream_call \<Rightarrow> public_task_id option" where
  "called_id q = Option.bind (json_get ''publicTaskId'' (uc_envelope q)) json_str"

lemma called_id_envelope: "json_get ''publicTaskId'' (execution_envelope P r) = Some (JStr (tr_public_id r))"
  by (simp add: execution_envelope_def json_object_def btree_collect_def less_char_def)

lemma called_envelope: "uc_envelope q = execution_envelope P r \<Longrightarrow> called_id q = Some (tr_public_id r)"
  by (simp add: called_id_def called_id_envelope)

text \<open>
  A drawn identifier allows one insertion, a claim of a route one call of its tool. A call whose
  envelope names no task would need the token \<open>Claimed None\<close>, which nothing grants.
\<close>

datatype token = Drawn public_task_id | Claimed "public_task_id option"

fun grants :: "event \<Rightarrow> token option" where
  "grants (EFresh i) = Some (Drawn i)"
| "grants (ECas c i v u (Inr (Some n))) =
     (if up_phase u = Dispatching then Some (Claimed (Some (tr_public_id n))) else None)"
| "grants _ = None"

fun consumes :: "event \<Rightarrow> token option" where
  "consumes (EBegin r x) = Some (Drawn (tr_public_id r))"
| "consumes (ECall q x) = Some (Claimed (called_id q))"
| "consumes _ = None"

definition claim_monitor :: "token multiset monitor" where
  "claim_monitor b e =
     (case consumes e of
        None \<Rightarrow> (case grants e of None \<Rightarrow> Some b | Some t \<Rightarrow> Some (add_mset t b))
      | Some t \<Rightarrow> if t \<in># b then Some (b - {#t#}) else None)"

lemma grants_dispatching: "grants e = Some t \<Longrightarrow> dispatching e"
  by (cases e rule: grants.cases) (auto split: if_splits)

lemma consumes_dispatching: "consumes e = Some t \<Longrightarrow> dispatching e"
  by (cases e) simp_all

interpretation claims: quiet_monitor claim_monitor
  using grants_dispatching consumes_dispatching
  by unfold_locales (fastforce simp: claim_monitor_def split: option.split)

abbreviation paid :: "'a prog \<Rightarrow> token multiset \<Rightarrow> bool" where
  "paid p \<equiv> wp p claim_monitor (\<lambda>_ _. True) (\<lambda>_ _. True)"

lemma paid_inert: "inert p \<Longrightarrow> paid p b"
  by (rule claims.wp_inert) simp_all

lemma paid_pbind: "\<lbrakk>inert p; \<And>x. paid (k x) b\<rbrakk> \<Longrightarrow> paid (pbind p k) b"
  unfolding wp_pbind by (rule claims.wp_inert) simp_all

lemma paid_dispatch: "Claimed (Some (tr_public_id r)) \<in># b \<Longrightarrow> paid (dispatch X tool a r) b"
  unfolding dispatch_def
  by (intro paid_pbind)
    (auto simp: Let_def inert_rules paid_inert accepts_def claim_monitor_def called_envelope inert_after_call)

lemma paid_claim:
  assumes "\<And>n. paid (k (Some n)) (add_mset (Claimed (Some (tr_public_id n))) b)" "paid (k None) b"
  shows "paid (pbind (claim_dispatch s r) k) b"
proof -
  have "wp (transition_time r) claim_monitor
     (\<lambda>time. wp (AskCas (tr_caller r) (tr_public_id r) (tr_version r) (update_dispatching s time) (\<lambda>res.
       case res of
         Inr (Some claimed) \<Rightarrow> Ret (Some claimed)
       | Inr None \<Rightarrow> Raise unknown_task
       | Inl StaleTransition \<Rightarrow> Ret None
       | Inl e \<Rightarrow> Raise (storage_mcp_error e))) claim_monitor (\<lambda>x. paid (k x)) (\<lambda>_ _. True)) (\<lambda>_ _. True) b"
    by (rule claims.wp_inert [OF inert_time])
      (auto simp: accepts_def claim_monitor_def assms split: sum.split option.split task_storage_error.split)
  then show ?thesis unfolding claim_dispatch_def wp_pbind .
qed

lemma paid_after_begin: "paid (after_begin X tool a now begun) b"
proof -
  have claim: "paid (pbind (claim_dispatch s r) (\<lambda>c. case c of Some c \<Rightarrow> dispatch X tool a c
      | None \<Rightarrow> existing_submission X r)) b" for s r
    by (rule paid_claim) (simp_all add: paid_dispatch paid_inert inert_rules)
  have insert: "paid (pbind (claim_dispatch s r) (\<lambda>c.
      pbind (lift_res (ok_or c e)) (dispatch X tool a))) b" for s r e
    by (rule paid_claim) (simp_all add: paid_dispatch wp_pbind)
  have rest: "paid (existing_submission X r) b" "paid (pbind (mark_reconciliation_required r) (existing_submission X)) b"
    for r by (simp_all add: paid_inert inert_rules)
  show ?thesis
    unfolding after_begin_def Let_def
    by (cases begun)
      (auto simp: claim insert rest inert_rules intro!: paid_pbind split: task_phase.split)
qed

lemma paid_lift: "(\<And>x. r = Inr x \<Longrightarrow> paid (k x) b) \<Longrightarrow> paid (pbind (lift_res r) k) b"
  by (cases r) simp_all

lemma paid_begin:
  assumes "prepare_with_id P fresh c key d bd cap s t ttl = Inr r"
  shows "paid (AskBegin r (\<lambda>res. pbind (stored res) (after_begin X tool a now))) (add_mset (Drawn fresh) b)"
proof -
  have "tr_public_id r = fresh" using prepare_Inr [OF assms] by simp
  then show ?thesis
    by (auto simp: accepts_def claim_monitor_def paid_after_begin intro!: paid_pbind inert_stored)
qed

lemma paid_accept: "paid (accept_branch X tool a sub c now) b"
proof -
  have "paid (AskFresh (\<lambda>fresh.
     pbind (lift_res (map_err InvalidTaskRoute (prepare_with_id P fresh c key d bd cap s t ttl))) (\<lambda>r.
       AskBegin r (\<lambda>res. pbind (stored res) (after_begin X tool a now))))) b" for P key d bd cap s t ttl
    by (auto simp: accepts_def claim_monitor_def map_err_Inr simp del: wp.simps(7) intro!: paid_lift paid_begin)
  then show ?thesis
    unfolding accept_branch_def Let_def by (auto intro!: paid_lift simp: claims.accepts_quiet)
qed

lemma paid_submit: "paid (submit X tool a sub i) b"
  unfolding submit_def submit_mode_def
  by (auto intro!: paid_pbind simp: inert_rules claims.accepts_quiet paid_inert paid_accept)

section \<open>Interleaved requests\<close>

datatype request =
    Submit federated_tool "(string \<times> json) list" json identity
  | Recover federated_tool "(string \<times> json) list" json identity
  | GetTask string identity
  | UpdateTask string identity
  | CancelTaskRequest string identity

datatype answer = ToolAnswer call_tool_response | TaskAnswer get_task_result | Accepted

fun program :: "proxy \<Rightarrow> request \<Rightarrow> answer prog" where
  "program X (Submit tool a sub i) = pbind (submit X tool a sub i) (\<lambda>r. Ret (ToolAnswer r))"
| "program X (Recover tool a sub i) = pbind (recover_submission X tool a sub i) (\<lambda>r. Ret (ToolAnswer r))"
| "program X (GetTask t i) = pbind (get_task X t i) (\<lambda>r. Ret (TaskAnswer r))"
| "program X (UpdateTask t i) = pbind (update_task X t i) (\<lambda>r. Ret Accepted)"
| "program X (CancelTaskRequest t i) = pbind (cancel_task X t i) (\<lambda>r. Ret Accepted)"

text \<open>The store after an event, when the reply is the one it gives.\<close>

fun store_step :: "platform \<Rightarrow> event \<Rightarrow> memory_routes \<Rightarrow> memory_routes option" where
  "store_step P (EFind c k x) s = (if x = mem_find P c k s then Some s else None)"
| "store_step P (EGet c i x) s = (if x = mem_get P c i s then Some s else None)"
| "store_step P (EBegin r x) s = (if x = fst (mem_begin P r s) then Some (snd (mem_begin P r s)) else None)"
| "store_step P (ECas c i v u x) s =
     (if x = fst (mem_cas P c i v u s) then Some (snd (mem_cas P c i v u s)) else None)"
| "store_step P (EPurge now n x) s =
     (if x = Inr (fst (mem_purge now n s)) then Some (snd (mem_purge now n s)) else None)"
| "store_step P e s = Some s"

text \<open>A store call that fails (a poisoned lock, an I/O error) and changes nothing.\<close>

fun store_failed :: "event \<Rightarrow> bool" where
  "store_failed (EFind c k x) = (x = Inl StorageSqlite)"
| "store_failed (EGet c i x) = (x = Inl StorageSqlite)"
| "store_failed (EBegin r x) = (x = Inl StorageSqlite)"
| "store_failed (ECas c i v u x) = (x = Inl StorageSqlite)"
| "store_failed (EPurge now n x) = (x = Inl StorageSqlite)"
| "store_failed e = False"

text \<open>The store, the running programs and the events so far, the latest first.\<close>

inductive reachable :: "platform \<Rightarrow> memory_routes \<Rightarrow> answer prog list \<Rightarrow> event list \<Rightarrow> bool" for P where
  reachable_init: "reachable P memory_default [] []"
| reachable_request: "\<lbrakk>reachable P s ps es; px_platform X = P\<rbrakk> \<Longrightarrow> reachable P s (program X q # ps) es"
| reachable_step: "\<lbrakk>reachable P s ps es; k < length ps; step (ps ! k) e = Some p; store_step P e s = Some s'\<rbrakk>
    \<Longrightarrow> reachable P s' (ps[k := p]) (e # es)"
| reachable_failure: "\<lbrakk>reachable P s ps es; k < length ps; step (ps ! k) e = Some p; store_failed e\<rbrakk>
    \<Longrightarrow> reachable P s (ps[k := p]) (e # es)"

fun inserted_by :: "event \<Rightarrow> public_task_id option" where
  "inserted_by (EBegin r (Inr (Inserted n))) = Some (tr_public_id n)"
| "inserted_by _ = None"

definition occurrences :: "(event \<Rightarrow> 'a option) \<Rightarrow> 'a \<Rightarrow> event list \<Rightarrow> nat" where
  "occurrences f i es = length (filter (\<lambda>e. f e = Some i) es)"

lemma paid_program: "paid (program X q) b"
proof (cases q)
  case (Submit tool a sub i)
  then show ?thesis using paid_submit [of X tool a sub i b] by (auto simp: wp_pbind elim: wp_mono)
qed (auto intro!: paid_inert inert_pbind simp: inert_recover inert_requests)

text \<open>Every token granted and not yet spent belongs to one running program.\<close>

definition tokens_ok :: "answer prog list \<Rightarrow> token multiset list \<Rightarrow> event list \<Rightarrow> bool" where
  "tokens_ok ps bs es \<longleftrightarrow> list_all2 paid ps bs
     \<and> (\<forall>t. occurrences consumes t es + count (sum_list bs) t \<le> occurrences grants t es)"

definition prepared_at :: "memory_routes \<Rightarrow> public_task_id \<Rightarrow> bool" where
  "prepared_at s i \<longleftrightarrow> (\<exists>r. contents s i = Some r \<and> tr_phase r = Prepared)"

text \<open>A claim uses up the prepared state of its route, and an insertion makes one.\<close>

definition claims_ok :: "memory_routes \<Rightarrow> event list \<Rightarrow> bool" where
  "claims_ok s es \<longleftrightarrow> (\<forall>i. occurrences grants (Claimed (Some i)) es + (if prepared_at s i then 1 else 0)
     \<le> occurrences inserted_by i es)"

lemma occurrences_simps [simp]:
  "occurrences f i [] = 0"
  "occurrences f i (e # es) = (if f e = Some i then 1 else 0) + occurrences f i es"
  by (simp_all add: occurrences_def)

lemma count_sum_list_update:
  assumes "k < length bs"
  shows "count (sum_list (bs[k := b])) t + count (bs ! k) t = count (sum_list bs) t + count b t"
  using assms
proof (induction bs arbitrary: k)
  case (Cons c bs)
  then show ?case by (cases k) auto
qed simp

lemma monitor_spends:
  assumes "claim_monitor b e = Some b'"
  shows "count b' t + (if consumes e = Some t then 1 else 0) = count b t + (if grants e = Some t then 1 else 0)"
proof -
  have "grants e = None" if "consumes e \<noteq> None"
    using that by (cases e) auto
  with assms show ?thesis
    by (cases "consumes e"; cases "grants e") (auto simp: claim_monitor_def split: if_splits)
qed

lemma tokens_step:
  assumes ok: "tokens_ok ps bs es" and k: "k < length ps" and p: "step (ps ! k) e = Some p"
  shows "\<exists>bs'. tokens_ok (ps[k := p]) bs' (e # es)"
proof -
  have all: "list_all2 paid ps bs" and len: "length bs = length ps"
    using ok by (auto simp: tokens_ok_def list_all2_lengthD)
  have "paid (ps ! k) (bs ! k)" using all k by (rule list_all2_nthD)
  from wp_step [OF this p] obtain b where b: "claim_monitor (bs ! k) e = Some b" "paid p b" by blast
  have "occurrences consumes t (e # es) + count (sum_list (bs[k := b])) t \<le> occurrences grants t (e # es)" for t
  proof -
    have "occurrences consumes t es + count (sum_list bs) t \<le> occurrences grants t es"
      using ok by (simp add: tokens_ok_def)
    moreover have "count (sum_list (bs[k := b])) t + count (bs ! k) t = count (sum_list bs) t + count b t"
      using k len by (intro count_sum_list_update) simp
    ultimately show ?thesis
      using monitor_spends [OF b(1), of t] by (simp only: occurrences_simps)
  qed
  moreover have "list_all2 paid (ps[k := p]) (bs[k := b])"
    using all b(2) by (rule list_all2_update_cong)
  ultimately have "tokens_ok (ps[k := p]) (bs[k := b]) (e # es)" unfolding tokens_ok_def by blast
  then show ?thesis by blast
qed

lemma reachable_tokens: "reachable P s ps es \<Longrightarrow> \<exists>bs. tokens_ok ps bs es"
proof (induction rule: reachable.induct)
  case reachable_init
  show ?case by (rule exI [of _ "[]"]) (simp add: tokens_ok_def)
next
  case (reachable_request s ps es X q)
  then obtain bs where "tokens_ok ps bs es" by blast
  then have "tokens_ok (program X q # ps) ({#} # bs) es"
    by (simp add: tokens_ok_def paid_program)
  then show ?case by blast
qed (auto intro: tokens_step)

lemma prepared_at_mono:
  assumes "\<And>r. contents s' i = Some r \<Longrightarrow> tr_phase r = Prepared \<Longrightarrow> contents s i = Some r"
  shows "prepared_at s' i \<Longrightarrow> prepared_at s i"
  using assms by (auto simp: prepared_at_def)

lemma claims_step:
  assumes "claims_ok s es"
    and "\<And>i. (if grants e = Some (Claimed (Some i)) then 1 else 0) + (if prepared_at s' i then 1 else 0)
        \<le> (if prepared_at s i then 1 else 0) + (if inserted_by e = Some i then 1 else (0 :: nat))"
  shows "claims_ok s' (e # es)"
  unfolding claims_ok_def occurrences_simps
proof
  fix i
  show "(if grants e = Some (Claimed (Some i)) then 1 else 0) + occurrences grants (Claimed (Some i)) es
      + (if prepared_at s' i then 1 else 0) \<le> (if inserted_by e = Some i then 1 else 0) + occurrences inserted_by i es"
    using assms(2) [of i] assms(1) [unfolded claims_ok_def, rule_format, of i] by linarith
qed

lemma claims_begin:
  assumes inv: "mem_inv P s" and ok: "claims_ok s es" and x: "x = fst (mem_begin P r s)"
  shows "claims_ok (snd (mem_begin P r s)) (EBegin r x # es)"
proof (rule claims_step [OF ok])
  note c = memory_store.begin_law [OF inv TrueI, of r, unfolded begin_contract_def]
  fix i
  have "prepared_at s i" if "prepared_at (snd (mem_begin P r s)) i" "inserted_by (EBegin r x) \<noteq> Some i"
    using that c x by (auto simp: prepared_at_def split: sum.splits begin_result.splits if_splits)
  then show "(if grants (EBegin r x) = Some (Claimed (Some i)) then 1 else 0)
        + (if prepared_at (snd (mem_begin P r s)) i then 1 else 0)
      \<le> (if prepared_at s i then 1 else 0) + (if inserted_by (EBegin r x) = Some i then 1 else (0 :: nat))"
    by simp
qed

lemma claims_cas:
  assumes inv: "mem_inv P s" and ok: "claims_ok s es" and x: "x = fst (mem_cas P c i v u s)"
  shows "claims_ok (snd (mem_cas P c i v u s)) (ECas c i v u x # es)"
proof (rule claims_step [OF ok])
  fix j
  show "(if grants (ECas c i v u x) = Some (Claimed (Some j)) then 1 else 0)
        + (if prepared_at (snd (mem_cas P c i v u s)) j then 1 else 0)
      \<le> (if prepared_at s j then 1 else 0) + (if inserted_by (ECas c i v u x) = Some j then 1 else (0 :: nat))"
  proof (cases "\<exists>n. x = Inr (Some n)")
    case True
    then obtain n where n: "fst (mem_cas P c i v u s) = Inr (Some n)" using x by metis
    obtain r where r: "contents s i = Some r" "transition P r u = Inr n"
      "contents (snd (mem_cas P c i v u s)) = (contents s)(i \<mapsto> n)"
      using memory_store.cas_success [OF inv TrueI n] by blast
    have id: "tr_public_id n = i"
      using mem_inv_id [OF inv r(1)] transition_follows(1) [OF r(2)] by (simp add: follows_def)
    have phase: "tr_phase n = up_phase u" "can_transition (tr_phase r) (up_phase u)"
      using r(2) by (auto simp: transition_Inr transition_allowed_def updated_route_def)
    note p = can_transition_phases [OF phase(2)]
    have "prepared_at (snd (mem_cas P c i v u s)) j \<longleftrightarrow> prepared_at s j \<and> j \<noteq> i"
      using p(2) phase(1) r(3) by (auto simp: prepared_at_def)
    then show ?thesis using p(3) r(1) n x id by (auto simp: prepared_at_def)
  next
    case False
    have "contents (snd (mem_cas P c i v u s)) = contents s"
      using memory_store.cas_law [OF inv TrueI, of c i v u] False x
      by (auto simp: cas_contract_def split: option.splits if_splits sum.splits)
    then show ?thesis
      using False by (cases "ECas c i v u x" rule: grants.cases) (auto simp: prepared_at_def)
  qed
qed

lemma claims_keep:
  assumes "claims_ok s es" "grants e = None \<or> (\<exists>i. grants e = Some (Drawn i))"
    and "\<And>i r. contents s' i = Some r \<Longrightarrow> contents s i = Some r"
  shows "claims_ok s' (e # es)"
proof (rule claims_step [OF assms(1)])
  fix i
  have "prepared_at s' i \<Longrightarrow> prepared_at s i" by (rule prepared_at_mono [OF assms(3)])
  then show "(if grants e = Some (Claimed (Some i)) then 1 else 0) + (if prepared_at s' i then 1 else 0)
      \<le> (if prepared_at s i then 1 else 0) + (if inserted_by e = Some i then 1 else (0 :: nat))"
    using assms(2) by auto
qed

lemma purge_keeps:
  assumes "mem_inv P s" "contents (snd (mem_purge now n s)) i = Some r"
  shows "contents s i = Some r"
proof -
  obtain gone where "contents (snd (mem_purge now n s)) = (\<lambda>i. if i \<in> gone then None else contents s i)"
    using memory_store.purge_law [OF assms(1), of now n] unfolding purge_contract_def by blast
  with assms(2) show ?thesis by (simp split: if_splits)
qed

lemma store_step_ok:
  assumes r: "memory_reachable P s" and c: "claims_ok s es" and e: "store_step P e s = Some s'"
  shows "memory_reachable P s' \<and> claims_ok s' (e # es)"
proof -
  note inv = memory_reachable_inv [OF r]
  have keep: "memory_reachable P s' \<and> claims_ok s' (e # es)"
    if "s' = s" "grants e = None \<or> (\<exists>i. grants e = Some (Drawn i))"
    using that r c by (auto intro: claims_keep)
  show ?thesis
  proof (cases e)
    case (EBegin q x)
    then have "x = fst (mem_begin P q s)" "s' = snd (mem_begin P q s)" using e by (simp_all split: if_splits)
    then show ?thesis using claims_begin [OF inv c] EBegin memory_begin [OF r] by blast
  next
    case (ECas d i v u x)
    then have "x = fst (mem_cas P d i v u s)" "s' = snd (mem_cas P d i v u s)" using e by (simp_all split: if_splits)
    then show ?thesis using claims_cas [OF inv c] ECas memory_cas [OF r] by blast
  next
    case (EPurge now n x)
    then have s': "s' = snd (mem_purge now n s)" using e by (simp split: if_splits)
    have "claims_ok s' (e # es)"
      by (rule claims_keep [OF c]) (use EPurge in simp, unfold s', rule purge_keeps [OF inv])
    then show ?thesis using memory_purge [OF r] by (simp add: s')
  qed (use e keep in \<open>simp_all split: if_splits\<close>)
qed

lemma failed_ok: "\<lbrakk>claims_ok s es; store_failed e\<rbrakk> \<Longrightarrow> claims_ok s (e # es)"
  by (rule claims_keep) (cases e; simp)+

lemma reachable_store: "reachable P s ps es \<Longrightarrow> memory_reachable P s \<and> claims_ok s es"
proof (induction rule: reachable.induct)
  case reachable_init
  have "claims_ok memory_default []"
    by (simp add: claims_ok_def prepared_at_def memory_default_def contents_def)
  then show ?case using memory_empty by blast
next
  case (reachable_step s ps es k e p s')
  then show ?case by (intro store_step_ok) simp_all
qed (simp_all add: failed_ok)

lemma inserted_drawn: "occurrences inserted_by i es \<le> occurrences consumes (Drawn i) es" if "reachable P s ps es"
  using that
proof (induction rule: reachable.induct)
  case (reachable_step s ps es k e p s')
  have "consumes e = Some (Drawn i)" if i: "inserted_by e = Some i"
  proof -
    obtain r n where e: "e = EBegin r (Inr (Inserted n))" "tr_public_id n = i"
      using i by (cases e rule: inserted_by.cases) auto
    then have "fst (mem_begin P r s) = Inr (Inserted n)" using reachable_step by (simp split: if_splits)
    then have "n = r"
      using memory_store.begin_law [OF memory_reachable_inv TrueI, of P s r] reachable_store [OF reachable_step(1)]
      by (simp add: begin_contract_def)
    with e show ?thesis by simp
  qed
  then show ?case using reachable_step.IH by auto
next
  case (reachable_failure s ps es k e p)
  have "inserted_by e \<noteq> Some i"
    using reachable_failure by (cases e) auto
  then show ?case using reachable_failure.IH by simp
qed simp_all

section \<open>Properties\<close>

text \<open>
  C10: However many proxies serve however many requests interleaved on one store, and whatever the
  upstream servers answer, the tool of a task is called at most once: the calls under a public
  task identifier are at most the claims of its route, which are at most the insertions of a route
  under it, which are at most the times the identifier was drawn.
\<close>

theorem task_called_at_most_once:
  assumes "reachable P s ps es"
  shows "occurrences consumes (Claimed (Some i)) es \<le> occurrences grants (Claimed (Some i)) es
    \<and> occurrences grants (Claimed (Some i)) es \<le> occurrences inserted_by i es
    \<and> occurrences inserted_by i es \<le> occurrences grants (Drawn i) es
    \<and> occurrences consumes (Claimed None) es = 0"
proof -
  have "claims_ok s es" using reachable_store [OF assms] by blast
  moreover obtain bs where bs: "tokens_ok ps bs es" using reachable_tokens [OF assms] by blast
  have "grants e \<noteq> Some (Claimed None)" for e by (cases e rule: grants.cases) auto
  then have "occurrences grants (Claimed None) es = 0" by (simp add: occurrences_def)
  moreover have "occurrences consumes t es \<le> occurrences grants t es" for t
    using bs unfolding tokens_ok_def by (meson add_leD1)
  ultimately show ?thesis
    using inserted_drawn [OF assms, of i] order_trans by (fastforce simp: claims_ok_def)
qed

text \<open>
  C11: Recovering a submission and polling, updating or cancelling a task draw no identifier, insert no
  route, claim no dispatch and call no tool, whatever the store and the upstream servers answer.
\<close>

theorem recovery_starts_nothing:
  assumes "run (program X q) es = Some p" "\<nexists>tool a sub i. q = Submit tool a sub i"
  shows "\<forall>e \<in> set es. \<not> dispatching e"
proof -
  have "inert (program X q)"
    using assms(2) by (cases q) (simp_all add: inert_rules inert_recover inert_requests)
  then show ?thesis using assms(1) by (rule inert_run)
qed

section \<open>Concrete inputs\<close>

fun store_run :: "platform \<Rightarrow> event list \<Rightarrow> memory_routes \<Rightarrow> memory_routes option" where
  "store_run P [] s = Some s"
| "store_run P (e # es) s = Option.bind (store_step P e s) (store_run P es)"

lemma reachable_run:
  "\<lbrakk>reachable P s [p] es; run p fs = Some q; store_run P fs s = Some s'\<rbrakk> \<Longrightarrow> reachable P s' [q] (rev fs @ es)"
proof (induction fs arbitrary: s p es)
  case (Cons f fs)
  then obtain p' t where "step p f = Some p'" "store_step P f s = Some t" "run p' fs = Some q" "store_run P fs t = Some s'"
    by (auto split: bind_splits)
  then show ?case
    using reachable_step [OF Cons.prems(1), of 0 f p' t] Cons.IH [of t p' "f # es"] by simp
qed simp

abbreviation alice :: task_caller where
  "alice \<equiv> \<lparr>caller_principal = ''alice'', caller_tenant = ''acme''\<rparr>"

definition sample_claimed :: task_route where
  "sample_claimed = projr (transition sample_platform (sample_accepted ''gmt_1'') (update_dispatching ''gmci_1'' 1001))"

lemma sample_claimed:
  "transition sample_platform (sample_accepted ''gmt_1'') (update_dispatching ''gmci_1'' 1001) = Inr sample_claimed"
proof -
  let ?u = "update_dispatching ''gmci_1'' 1001"
  obtain d where d: "sample_accepted ''gmt_1'' = (prepared_route ''gmt_1'' alice
     (Some ''k1'') (of_json sample_platform sample_binding) sample_binding (ft_identity task_tool) ''s1'' 1000 500 1500)
     \<lparr>tr_integrity := d\<rparr>" using sample_accepted_eq by blast
  have a: "shape_ok sample_platform (sample_accepted ''gmt_1'')"
    "tr_integrity (sample_accepted ''gmt_1'') = expected_integrity sample_platform (sample_accepted ''gmt_1'')"
    using prepare_Inr [OF sample_accepted] by blast+
  have "identifier_ok ''gmci_1'' 128"
    by (simp add: identifier_ok_def has_control_def char_is_control_def)
  then have "shape_ok sample_platform (updated_route (sample_accepted ''gmt_1'') ?u)"
    using a(1) by (simp add: d shape_ok_def prepared_route_def updated_route_def update_dispatching_def MAX_SQLITE_INTEGER_def)
  moreover have "transition_allowed (sample_accepted ''gmt_1'') ?u"
    by (simp add: d transition_allowed_def prepared_route_def update_dispatching_def MAX_SQLITE_INTEGER_def)
  moreover have "task_verify_integrity sample_platform (sample_accepted ''gmt_1'') = Inr ()"
    using a by (simp add: guard_simps)
  ultimately have "\<exists>n. transition sample_platform (sample_accepted ''gmt_1'') ?u = Inr n"
    by (simp add: transition_Inr)
  then show ?thesis by (auto simp: sample_claimed_def)
qed

lemma sample_claimed_fields:
  "tr_public_id sample_claimed = ''gmt_1''" "tr_binding sample_claimed = sample_binding"
  "tr_created sample_claimed = 1000" "tr_session sample_claimed = ''s1''" "tr_phase sample_claimed = Dispatching"
  "tr_caller sample_claimed = alice"
proof -
  have eq: "sample_claimed = (updated_route (sample_accepted ''gmt_1'') (update_dispatching ''gmci_1'' 1001))
      \<lparr>tr_integrity := expected_integrity sample_platform
         (updated_route (sample_accepted ''gmt_1'') (update_dispatching ''gmci_1'' 1001))\<rparr>"
    using sample_claimed by (simp only: transition_Inr)
  show "tr_public_id sample_claimed = ''gmt_1''" "tr_binding sample_claimed = sample_binding"
    "tr_created sample_claimed = 1000" "tr_session sample_claimed = ''s1''" "tr_phase sample_claimed = Dispatching"
    "tr_caller sample_claimed = alice"
    unfolding eq by (simp_all add: updated_route_def sample_accepted_fields update_dispatching_def)
qed

definition sample_events :: "event list" where
  "sample_events =
     [EClock (Some 1000), EPurge 1000 128 (Inr 0), ESnapshot ''docs'' (Some default_digest),
      ESession ''docs'' (Some ''s1''), EFresh ''gmt_1'',
      EBegin (sample_accepted ''gmt_1'') (Inr (Inserted (sample_accepted ''gmt_1''))), EClock (Some 1001),
      ECas alice ''gmt_1'' 0 (update_dispatching ''gmci_1'' 1001) (Inr (Some sample_claimed)), EClock (Some 1002),
      ECall \<lparr>uc_source = ''docs'', uc_tool = ''search'', uc_arguments = [],
        uc_envelope = execution_envelope sample_platform sample_claimed, uc_session = ''s1'', uc_timeout = 298\<rparr>
        CallFailed]"

lemma sample_store_run: "\<exists>s. store_run sample_platform sample_events memory_default = Some s"
proof -
  let ?r = "sample_accepted ''gmt_1''"
  have "task_verify_integrity sample_platform ?r = Inr ()"
    using prepare_Inr [OF sample_accepted] by (simp add: guard_simps)
  then have prepared: "verify_prepared_for_begin sample_platform ?r = Inr ()"
    using prepare_Inr [OF sample_accepted] by (simp add: verify_prepared_for_begin_def)
  have begun: "mem_begin sample_platform ?r memory_default = (Inr (Inserted ?r), insert_route ?r memory_default)"
    by (simp add: mem_begin_def prepared sample_accepted_fields lookup_key_def memory_default_def active_for_def
        fm_values_def fcard.rep_eq Let_def MAX_STORED_TASK_ROUTES_def MAX_ACTIVE_TASK_ROUTES_PER_CALLER_def)
  have inv: "mem_inv sample_platform (insert_route ?r memory_default)"
    using memory_reachable_inv [OF memory_begin [OF memory_empty], of sample_platform ?r] by (simp add: begun)
  have "contents (insert_route ?r memory_default) ''gmt_1'' = Some ?r"
    by (simp add: contents_insert sample_accepted_fields)
  then have "fst (mem_cas sample_platform alice ''gmt_1'' 0 (update_dispatching ''gmci_1'' 1001)
      (insert_route ?r memory_default)) = Inr (Some sample_claimed)"
    by (simp add: mem_cas_cases [OF inv] sample_accepted_fields sample_claimed)
  moreover have "mem_purge 1000 128 memory_default = (0, memory_default)"
    by (simp add: mem_purge_def memory_default_def Let_def)
  ultimately show ?thesis by (simp add: sample_events_def begun)
qed

lemma sample_cutoff: "execution_cutoff sample_claimed = 1300"
proof -
  have "json_pointer [''task'', ''deadlineUnixMs''] sample_binding = Some (u64_json 1400)"
    "json_pointer [''task'', ''limits'', ''maxRuntimeMs''] sample_binding = Some (u64_json 300)"
    unfolding sample_binding_def binding_lookup by (simp_all add: sample_submission_def)
  then show ?thesis
    unfolding execution_cutoff_def sample_claimed_fields
    by (simp add: u64_json_def saturating_add_def)
qed

lemma sample_program_run:
  "\<exists>q. run (program sample_proxy (Submit task_tool [] (JObj []) sample_identity)) sample_events = Some q"
proof -
  have key: "idempotency_key_new ''k1'' = Inr ''k1''"
    using sample_identifiers by (simp add: idempotency_key_new_def validate_identifier_def MAX_IDENTIFIER_BYTES_def)
  have tool: "cap_source (ft_identity task_tool) = ''docs''" "cap_schema_digest (ft_identity task_tool) = default_digest"
    "ft_native_name task_tool = ''search''"
    by (simp_all add: task_tool_def sample_capability_def capability_new_def)
  have parsed: "submission_parse sample_platform (\<lambda>_. Some sample_submission) (JObj []) []
     (digest_to_string sample_platform default_digest) NonIdempotentWrite 1000 = Inr sample_submission"
    using sample_submission_parsed by (simp add: submission_parse_def)
  have sub: "sb_key sample_submission = ''k1''" "sb_retention sample_submission = 500"
    by (simp_all add: sample_submission_def)
  have proxy: "px_platform sample_proxy = sample_platform" "px_decode sample_proxy = (\<lambda>_. Some sample_submission)"
    "px_instance sample_proxy = ''gmci_1''"
    by (simp_all add: sample_proxy_def)
  have remaining: "min (saturating_sub 1300 1002) MAX_TASK_RUNTIME_MS = 298"
    by (simp add: saturating_sub_def MAX_TASK_RUNTIME_MS_def)
  show ?thesis
    by (simp add: sample_events_def submit_def submit_mode_def sample_caller_of now_unix_ms_def stored_def
        accept_branch_def Let_def proxy parsed tool sub key sample_binding_def [symmetric] sample_accepted
        after_begin_def claim_dispatch_def transition_time_def sample_accepted_fields dispatch_def sample_cutoff
        remaining sample_claimed_fields)
qed

theorem task_called_at_most_once_witness:
  "\<exists>s ps es. reachable sample_platform s ps es \<and> occurrences consumes (Claimed (Some ''gmt_1'')) es = 1
     \<and> occurrences grants (Claimed (Some ''gmt_1'')) es = 1"
proof -
  obtain q where q: "run (program sample_proxy (Submit task_tool [] (JObj []) sample_identity)) sample_events = Some q"
    using sample_program_run by blast
  obtain s where s: "store_run sample_platform sample_events memory_default = Some s"
    using sample_store_run by blast
  have "px_platform sample_proxy = sample_platform" by (simp add: sample_proxy_def)
  then have "reachable sample_platform s [q] (rev sample_events)"
    using reachable_run [OF reachable_request [OF reachable_init] q s] by simp
  moreover have "occurrences consumes (Claimed (Some ''gmt_1'')) (rev sample_events) = 1"
    "occurrences grants (Drawn ''gmt_1'') (rev sample_events) = 1"
    by (simp_all add: sample_events_def called_id_def called_id_envelope sample_claimed_fields update_dispatching_def)
  ultimately show ?thesis
    using task_called_at_most_once [of sample_platform s "[q]" "rev sample_events" "''gmt_1''"] by fastforce
qed

theorem recovery_starts_nothing_witness: "\<not> dispatching (EGet alice ''gmt_1'' (Inr None))"
proof -
  have "\<exists>p. run (program sample_proxy (CancelTaskRequest ''gmt_1'' sample_identity)) [EGet alice ''gmt_1'' (Inr None)] = Some p"
    by (simp add: cancel_task_def owned_route_def sample_caller_of sample_public_id get_route_def stored_def)
  then show ?thesis using recovery_starts_nothing by fastforce
qed

end
