(* ===== verification/Float64.thy ===== *)
theory Float64
  imports Digest
begin

text \<open>
  The double precision numbers of \<open>serde_json\<close>: \<open>Value::as_f64\<close>, comparison, absolute value and
  finiteness, as far as \<open>crates/gaugemesh/src/runs.rs\<close> uses them. A finite double is an integer
  multiple of \<open>2 ^ -1074\<close>, and is represented by that integer.
\<close>

datatype f64 = Finite int | Infinite bool | NotANumber

text \<open>One, as a multiple of the smallest positive double.\<close>

definition f64_one :: int where "f64_one = 2 ^ 1074"

text \<open>\<open>f64::from_bits\<close>: sign, eleven bits of exponent, fifty-two bits of fraction.\<close>

definition f64_of_bits :: "u64 \<Rightarrow> f64" where
  "f64_of_bits w =
     (let n = unat w; negative = (n div 2 ^ 63 = 1); e = n div 2 ^ 52 mod 2 ^ 11; f = n mod 2 ^ 52;
          magnitude = (if e = 0 then int f else int (2 ^ 52 + f) * 2 ^ (e - 1)) in
      if e = 2047 then (if f = 0 then Infinite negative else NotANumber)
      else Finite (if negative then - magnitude else magnitude))"

text \<open>\<open>n as f64\<close>: to fifty-three bits, halves to even.\<close>

fun excess_bits :: "nat \<Rightarrow> nat" where
  "excess_bits n = (if n < 2 ^ 53 then 0 else Suc (excess_bits (n div 2)))"

declare excess_bits.simps [simp del]

definition round_53 :: "nat \<Rightarrow> nat" where
  "round_53 n =
     (let k = excess_bits n; q = n div 2 ^ k; r = n mod 2 ^ k in
      if k = 0 then n
      else (if 2 * r > 2 ^ k \<or> 2 * r = 2 ^ k \<and> odd q then q + 1 else q) * 2 ^ k)"

definition f64_of_nat :: "nat \<Rightarrow> f64" where
  "f64_of_nat n = Finite (int (round_53 n) * f64_one)"

fun as_f64 :: "json \<Rightarrow> f64 option" where
  "as_f64 (JNum (PosInt n)) = Some (f64_of_nat (unat n))"
| "as_f64 (JNum (NegInt i)) = Some (Finite (- int (round_53 (nat (- i))) * f64_one))"
| "as_f64 (JNum (Float w)) = Some (f64_of_bits w)"
| "as_f64 _ = None"

fun is_finite :: "f64 \<Rightarrow> bool" where
  "is_finite (Finite x) = True"
| "is_finite _ = False"

fun f64_abs :: "f64 \<Rightarrow> f64" where
  "f64_abs (Finite x) = Finite \<bar>x\<bar>"
| "f64_abs (Infinite negative) = Infinite False"
| "f64_abs NotANumber = NotANumber"

text \<open>The IEEE order: nothing compares with \<open>NaN\<close>.\<close>

fun f64_le :: "f64 \<Rightarrow> f64 \<Rightarrow> bool" where
  "f64_le (Finite x) (Finite y) = (x \<le> y)"
| "f64_le (Infinite negative) (Finite y) = negative"
| "f64_le (Finite x) (Infinite negative) = (\<not> negative)"
| "f64_le (Infinite m) (Infinite n) = (m \<or> \<not> n)"
| "f64_le NotANumber _ = False"
| "f64_le _ NotANumber = False"

text \<open>
  \<open>==\<close> on values: the doubles \<open>0.0\<close> and \<open>-0.0\<close> are equal, objects are ordered maps. A \<open>Value\<close> holds
  no \<open>NaN\<close>.
\<close>

primrec unsigned_zero :: "json \<Rightarrow> json" where
  "unsigned_zero JNull = JNull"
| "unsigned_zero (JBool b) = JBool b"
| "unsigned_zero (JNum n) = JNum (if n = Float (2 ^ 63) then Float 0 else n)"
| "unsigned_zero (JStr s) = JStr s"
| "unsigned_zero (JArr vs) = JArr (map unsigned_zero vs)"
| "unsigned_zero (JObj es) = JObj (map (map_prod id unsigned_zero) es)"

definition value_eq :: "json \<Rightarrow> json \<Rightarrow> bool" where
  "value_eq a b \<longleftrightarrow> canonical_json (unsigned_zero a) = canonical_json (unsigned_zero b)"

lemma value_eq_equiv [simp]: "value_eq a a"
  by (simp add: value_eq_def)

lemma value_eq_sym: "value_eq a b \<longleftrightarrow> value_eq b a"
  by (auto simp: value_eq_def)

lemma value_eq_trans: "value_eq a b \<Longrightarrow> value_eq b c \<Longrightarrow> value_eq a c"
  by (simp add: value_eq_def)

lemma value_eq_atoms [simp]:
  "value_eq v (JStr s) \<longleftrightarrow> v = JStr s" "value_eq v (JBool b) \<longleftrightarrow> v = JBool b"
  "value_eq v JNull \<longleftrightarrow> v = JNull"
  by (cases v; simp add: value_eq_def)+

section \<open>Small integers are exact\<close>

lemma round_53_small [simp]: "n < 2 ^ 53 \<Longrightarrow> round_53 n = n"
  by (simp add: round_53_def excess_bits.simps [of n])

lemma as_f64_small: "unat n < 2 ^ 53 \<Longrightarrow> as_f64 (JNum (PosInt n)) = Some (Finite (int (unat n) * f64_one))"
  by (simp add: f64_of_nat_def)

lemma f64_one_pos [simp]: "0 < f64_one" "0 \<le> f64_one"
  by (simp_all add: f64_one_def)

lemma as_f64_number: "(\<exists>x. as_f64 v = Some x) \<longleftrightarrow> (\<exists>n. v = JNum n)"
  by (cases v rule: as_f64.cases) auto

end
