(* ===== verification/Input_Schema.thy ===== *)
theory Input_Schema
  imports Float64
begin

text \<open>
  Models the bounded subset of JSON Schema by which \<open>crates/gaugemesh/src/runs.rs\<close> checks the inputs
  of a run step: \<open>validate_schema_shape\<close>, \<open>check_size\<close> and \<open>validate_input\<close>. The recursion goes into
  the properties and items of a schema and into the entries of a value, at most 16 deep. The
  reference is \<open>conforms\<close>, what a schema means, without depths, checks and their order.
\<close>

section \<open>Values\<close>

text \<open>\<open>if let Some(x) = object.get(..)\<close>\<close>

definition when_present :: "'a option \<Rightarrow> ('a \<Rightarrow> ('e, unit) res) \<Rightarrow> ('e, unit) res" where
  "when_present x f = (case x of None \<Rightarrow> Inr () | Some v \<Rightarrow> f v)"

lemma when_present_Inr [guard_simps]: "when_present x f = Inr u \<longleftrightarrow> (\<forall>v. x = Some v \<longrightarrow> f v = Inr ())"
  by (cases x) (simp_all add: when_present_def)

definition SCHEMA_UNSUPPORTED :: string where "SCHEMA_UNSUPPORTED = ''GM_RUN_INPUT_SCHEMA_UNSUPPORTED''"
definition SCHEMA_INVALID :: string where "SCHEMA_INVALID = ''GM_RUN_INPUT_SCHEMA_INVALID''"
definition INPUT_BOUND :: string where "INPUT_BOUND = ''GM_RUN_INPUT_BOUND''"

section \<open>The shape of a schema\<close>

definition allowed_keywords :: "string list" where
  "allowed_keywords =
     [''type'', ''properties'', ''required'', ''additionalProperties'', ''items'', ''enum'', ''const'',
      ''minimum'', ''maximum'', ''minLength'', ''maxLength'', ''minItems'', ''maxItems'', ''$schema'',
      ''title'', ''description'']"

definition schema_types :: "string list" where
  "schema_types = [''object'', ''array'', ''string'', ''integer'', ''number'', ''boolean'', ''null'']"

text \<open>The checks before the first recursion, in the order of the code.\<close>

definition shape_keywords :: "json \<Rightarrow> (string \<times> json) list \<Rightarrow> (string, unit) res" where
  "shape_keywords schema object =
     rbind (ensure (list_all (\<lambda>e. fst e \<in> set allowed_keywords) object
              \<and> (\<exists>t \<in> set schema_types. json_index schema ''type'' = JStr t)) SCHEMA_UNSUPPORTED) (\<lambda>_.
     rbind (when_present (json_get ''$schema'' schema) (\<lambda>dialect.
              ensure (dialect = JStr ''https://json-schema.org/draft/2020-12/schema'')
                ''GM_RUN_INPUT_SCHEMA_DIALECT_UNSUPPORTED'')) (\<lambda>_.
     rbind (try_each (\<lambda>name. when_present (map_of object name) (\<lambda>v.
              ensure (json_str v \<noteq> None) SCHEMA_INVALID)) [''title'', ''description'']) (\<lambda>_.
     when_present (map_of object ''enum'') (\<lambda>choices.
       ensure (case json_items choices of Some c \<Rightarrow> c \<noteq> [] \<and> length c \<le> 64 | None \<Rightarrow> False)
         SCHEMA_INVALID))))"

definition shape_numbers :: "json \<Rightarrow> (string \<times> json) list \<Rightarrow> (string, unit) res" where
  "shape_numbers schema object =
     try_each (\<lambda>name. when_present (map_of object name) (\<lambda>v.
       ensure (json_index schema ''type'' \<in> {JStr ''integer'', JStr ''number''}
         \<and> (case as_f64 v of Some x \<Rightarrow> is_finite x | None \<Rightarrow> False)) SCHEMA_INVALID))
       [''minimum'', ''maximum'']"

definition shape_sizes :: "json \<Rightarrow> (string \<times> json) list \<Rightarrow> (string, unit) res" where
  "shape_sizes schema object =
     try_each (\<lambda>(minimum, maximum, kind).
       rbind (try_each (\<lambda>name. when_present (map_of object name) (\<lambda>v.
                ensure (json_index schema ''type'' = JStr kind
                  \<and> (case json_u64 v of Some n \<Rightarrow> n \<le> 0xFFFFFFFF | None \<Rightarrow> False)) SCHEMA_INVALID))
                [minimum, maximum]) (\<lambda>_.
       case (json_u64 (json_index schema minimum), json_u64 (json_index schema maximum)) of
         (Some lo, Some hi) \<Rightarrow> ensure (lo \<le> hi) SCHEMA_INVALID
       | _ \<Rightarrow> Inr ()))
       [(''minLength'', ''maxLength'', ''string''), (''minItems'', ''maxItems'', ''array'')]"

definition shape_interval :: "json \<Rightarrow> (string, unit) res" where
  "shape_interval schema =
     (case (as_f64 (json_index schema ''minimum''), as_f64 (json_index schema ''maximum'')) of
        (Some lo, Some hi) \<Rightarrow> ensure (f64_le lo hi) SCHEMA_INVALID
      | _ \<Rightarrow> Inr ())"

definition shape_required ::
  "(string \<times> json) list \<Rightarrow> (string \<times> json) list \<Rightarrow> (string, unit) res" where
  "shape_required object properties =
     when_present (map_of object ''required'') (\<lambda>v.
       rbind (ok_or (json_items v) SCHEMA_INVALID) (\<lambda>names.
       ensure (list_all (\<lambda>v. case json_str v of Some name \<Rightarrow> contains_key properties name | None \<Rightarrow> False) names
         \<and> length (sort_dedup (List.map_filter json_str names)) = length names) SCHEMA_INVALID))"

text \<open>Keywords that belong to one type only.\<close>

definition shape_placement :: "json \<Rightarrow> (string \<times> json) list \<Rightarrow> (string, unit) res" where
  "shape_placement schema object =
     rbind (ensure (json_index schema ''type'' = JStr ''object''
              \<or> \<not> list_ex (contains_key object) [''properties'', ''required'', ''additionalProperties''])
              SCHEMA_INVALID) (\<lambda>_.
     ensure (json_index schema ''type'' = JStr ''array'' \<or> \<not> contains_key object ''items'')
       SCHEMA_INVALID)"

lemma size_member: "(k, v) \<in> set es \<Longrightarrow> size v < size (JObj es)"
proof (induction es)
  case (Cons e es)
  then show ?case by (cases e) fastforce
qed simp

lemma size_item: "v \<in> set vs \<Longrightarrow> size v < size (JArr vs)"
  by (induction vs) auto

lemma size_index: "json_index v k \<noteq> JNull \<Longrightarrow> size (json_index v k) < size v"
  by (cases v) (auto simp: json_index_def dest!: map_of_SomeD size_member split: option.splits)

lemma size_property:
  assumes "json_entries (json_index v k) = Some es" "p \<in> set es"
  shows "size (snd p) < size v"
proof -
  have v: "json_index v k = JObj es" using assms(1) by (simp add: json_entries_Some)
  then have "size (JObj es) < size v" using size_index [of v k] by simp
  moreover have "size (snd p) < size (JObj es)" using assms(2) size_member [of "fst p" "snd p"] by simp
  ultimately show ?thesis by simp
qed

function schema_shape :: "json \<Rightarrow> nat \<Rightarrow> (string, unit) res" where
  "schema_shape schema depth =
     rbind (ensure (depth \<le> 16) ''GM_RUN_INPUT_SCHEMA_BOUND'') (\<lambda>_.
     rbind (ok_or (json_entries schema) SCHEMA_UNSUPPORTED) (\<lambda>object.
     rbind (shape_keywords schema object) (\<lambda>_.
     rbind (shape_numbers schema object) (\<lambda>_.
     rbind (shape_sizes schema object) (\<lambda>_.
     rbind (shape_interval schema) (\<lambda>_.
     rbind (if json_index schema ''type'' = JStr ''object'' then
              rbind (ensure (json_index schema ''additionalProperties'' = JBool False) SCHEMA_UNSUPPORTED) (\<lambda>_.
              rbind (ok_or (json_entries (json_index schema ''properties'')) SCHEMA_UNSUPPORTED) (\<lambda>properties.
              rbind (shape_required object properties) (\<lambda>_.
              try_each (\<lambda>p. schema_shape (snd p) (depth + 1)) properties)))
            else Inr ()) (\<lambda>_.
     rbind (if json_index schema ''type'' = JStr ''array''
            then schema_shape (json_index schema ''items'') (depth + 1) else Inr ()) (\<lambda>_.
     shape_placement schema object))))))))"
  by pat_completeness auto

lemma size_object: "0 < size (JObj es)"
  by simp

lemma size_items:
  assumes "json_entries schema = Some es"
  shows "size (json_index schema k) < size schema"
  using size_index [of schema k] assms by (cases "json_index schema k = JNull") (auto simp: json_entries_Some)

termination schema_shape
proof (relation "measure (\<lambda>(schema, depth). size schema)", goal_cases)
  case 1
  then show ?case by simp
next
  case (2 schema depth)
  then show ?case by (simp add: size_property guard_simps)
next
  case (3 schema depth)
  then show ?case by (auto simp: guard_simps intro: size_items)
qed

declare schema_shape.simps [simp del]

section \<open>Inputs\<close>

definition check_size :: "json \<Rightarrow> nat \<Rightarrow> string \<Rightarrow> string \<Rightarrow> (string, unit) res" where
  "check_size schema len minimum maximum =
     rbind (when_present (json_get minimum schema) (\<lambda>bound.
              rbind (ok_or (json_u64 bound) SCHEMA_UNSUPPORTED) (\<lambda>n. ensure (unat n \<le> len) INPUT_BOUND))) (\<lambda>_.
     when_present (json_get maximum schema) (\<lambda>bound.
       rbind (ok_or (json_u64 bound) SCHEMA_UNSUPPORTED) (\<lambda>n. ensure (len \<le> unat n) INPUT_BOUND)))"

definition kind_matches :: "string \<Rightarrow> json \<Rightarrow> bool" where
  "kind_matches kind v =
     (case v of
        JNull \<Rightarrow> kind = ''null''
      | JBool b \<Rightarrow> kind = ''boolean''
      | JNum (Float w) \<Rightarrow> kind = ''number''
      | JNum n \<Rightarrow> kind \<in> {''integer'', ''number''}
      | JStr s \<Rightarrow> kind = ''string''
      | JArr vs \<Rightarrow> kind = ''array''
      | JObj es \<Rightarrow> kind = ''object'')"

definition MAX_SAFE_NUMBER :: f64 where "MAX_SAFE_NUMBER = Finite (9007199254740991 * f64_one)"

text \<open>\<open>const\<close>, \<open>enum\<close>, and the bounds of a number.\<close>

definition check_choices :: "(string \<times> json) list \<Rightarrow> json \<Rightarrow> (string, unit) res" where
  "check_choices object v =
     rbind (when_present (map_of object ''const'') (\<lambda>expected.
              ensure (value_eq expected v) ''GM_RUN_INPUT_CONST_INVALID'')) (\<lambda>_.
     when_present (map_of object ''enum'') (\<lambda>choices.
       ensure (case json_items choices of Some cs \<Rightarrow> list_ex (value_eq v) cs | None \<Rightarrow> False)
         ''GM_RUN_INPUT_ENUM_INVALID''))"

definition check_number :: "(string \<times> json) list \<Rightarrow> json \<Rightarrow> (string, unit) res" where
  "check_number object v =
     rbind (ok_or (as_f64 v) ''GM_RUN_INPUT_NUMBER_INVALID'') (\<lambda>number.
     rbind (ensure (is_finite number \<and> f64_le (f64_abs number) MAX_SAFE_NUMBER) ''GM_RUN_INPUT_NUMBER_BOUND'') (\<lambda>_.
     try_each (\<lambda>(key, lower). when_present (map_of object key) (\<lambda>bound.
       rbind (ok_or (as_f64 bound) SCHEMA_UNSUPPORTED) (\<lambda>bound.
       ensure (if lower then f64_le bound number else f64_le number bound) ''GM_RUN_INPUT_NUMBER_BOUND'')))
       [(''minimum'', True), (''maximum'', False)]))"

definition check_required :: "(string \<times> json) list \<Rightarrow> (string \<times> json) list \<Rightarrow> (string, unit) res" where
  "check_required object entries =
     when_present (map_of object ''required'') (\<lambda>v.
       rbind (ok_or (json_items v) SCHEMA_UNSUPPORTED) (\<lambda>names.
       ensure (list_all (\<lambda>k. case json_str k of Some k \<Rightarrow> contains_key entries k | None \<Rightarrow> False) names)
         ''GM_RUN_INPUT_REQUIRED''))"

text \<open>
  The blocks for the types are cases on the value: \<open>kind_matches\<close> has just checked that \<open>kind\<close> names
  its constructor.
\<close>

function validate_input :: "json \<Rightarrow> json \<Rightarrow> nat \<Rightarrow> (string, unit) res" where
  "validate_input schema v depth =
     rbind (schema_shape schema depth) (\<lambda>_.
     rbind (ensure (depth \<le> 16) ''GM_RUN_INPUT_SCHEMA_BOUND'') (\<lambda>_.
     rbind (ok_or (json_entries schema) SCHEMA_UNSUPPORTED) (\<lambda>object.
     rbind (ensure (list_all (\<lambda>e. fst e \<in> set allowed_keywords) object) SCHEMA_UNSUPPORTED) (\<lambda>_.
     rbind (ok_or (json_str (json_index schema ''type'')) SCHEMA_UNSUPPORTED) (\<lambda>kind.
     rbind (ensure (kind_matches kind v) ''GM_RUN_INPUT_TYPE_INVALID'') (\<lambda>_.
     rbind (check_choices object v) (\<lambda>_.
     rbind (case v of
              JObj entries \<Rightarrow>
                rbind (ok_or (json_entries (json_index schema ''properties'')) SCHEMA_UNSUPPORTED) (\<lambda>properties.
                rbind (ensure (json_index schema ''additionalProperties'' = JBool False) SCHEMA_UNSUPPORTED) (\<lambda>_.
                rbind (check_required object entries) (\<lambda>_.
                rbind (try_each (\<lambda>e.
                         rbind (ok_or (map_of properties (fst e)) ''GM_RUN_INPUT_UNKNOWN_PROPERTY'') (\<lambda>property.
                         validate_input property (snd e) (depth + 1))) entries) (\<lambda>_.
                try_each (\<lambda>p. schema_shape (snd p) (depth + 1)) properties))))
            | JArr items \<Rightarrow>
                rbind (ensure (length items \<le> 1024) INPUT_BOUND) (\<lambda>_.
                rbind (try_each (\<lambda>entry. validate_input (json_index schema ''items'') entry (depth + 1)) items) (\<lambda>_.
                rbind (schema_shape (json_index schema ''items'') (depth + 1)) (\<lambda>_.
                check_size schema (length items) ''minItems'' ''maxItems'')))
            | JStr s \<Rightarrow> check_size schema (length (utf8_chars s)) ''minLength'' ''maxLength''
            | JNum n \<Rightarrow> check_number object v
            | _ \<Rightarrow> Inr ()) (\<lambda>_. Inr ()))))))))"
  by pat_completeness auto

termination validate_input
  by (relation "measure (\<lambda>(schema, v, depth). size v)")
     (auto dest: size_member size_item)

declare validate_input.simps [simp del]

section \<open>What a schema means\<close>

text \<open>The meaning of the keywords, without depths, error codes and the order of the checks.\<close>

definition chosen :: "json \<Rightarrow> json \<Rightarrow> bool" where
  "chosen schema v \<longleftrightarrow>
     (case json_get ''const'' schema of Some c \<Rightarrow> value_eq c v | None \<Rightarrow> True)
     \<and> (case json_get ''enum'' schema of
          Some (JArr cs) \<Rightarrow> list_ex (value_eq v) cs | Some _ \<Rightarrow> False | None \<Rightarrow> True)"

definition sized :: "json \<Rightarrow> nat \<Rightarrow> string \<Rightarrow> string \<Rightarrow> bool" where
  "sized schema n minimum maximum \<longleftrightarrow>
     (case json_get minimum schema of
        Some b \<Rightarrow> (case json_u64 b of Some k \<Rightarrow> unat k \<le> n | None \<Rightarrow> False) | None \<Rightarrow> True)
     \<and> (case json_get maximum schema of
          Some b \<Rightarrow> (case json_u64 b of Some k \<Rightarrow> n \<le> unat k | None \<Rightarrow> False) | None \<Rightarrow> True)"

definition ranged :: "json \<Rightarrow> json \<Rightarrow> bool" where
  "ranged schema v \<longleftrightarrow>
     (case as_f64 v of
        Some (Finite x) \<Rightarrow> \<bar>x\<bar> \<le> (2 ^ 53 - 1) * f64_one
          \<and> (case json_get ''minimum'' schema of
               Some b \<Rightarrow> (case as_f64 b of Some lo \<Rightarrow> f64_le lo (Finite x) | None \<Rightarrow> False) | None \<Rightarrow> True)
          \<and> (case json_get ''maximum'' schema of
               Some b \<Rightarrow> (case as_f64 b of Some hi \<Rightarrow> f64_le (Finite x) hi | None \<Rightarrow> False) | None \<Rightarrow> True)
      | _ \<Rightarrow> False)"

definition required_in :: "json \<Rightarrow> (string \<times> json) list \<Rightarrow> bool" where
  "required_in schema entries \<longleftrightarrow>
     (case json_get ''required'' schema of
        Some (JArr names) \<Rightarrow>
          list_all (\<lambda>k. case json_str k of Some k \<Rightarrow> contains_key entries k | None \<Rightarrow> False) names
      | Some _ \<Rightarrow> False | None \<Rightarrow> True)"

function conforms :: "json \<Rightarrow> json \<Rightarrow> bool" where
  "conforms schema v \<longleftrightarrow>
     (case json_str (json_index schema ''type'') of Some kind \<Rightarrow> kind_matches kind v | None \<Rightarrow> False)
     \<and> chosen schema v
     \<and> (case v of
          JObj entries \<Rightarrow> required_in schema entries
            \<and> list_all (\<lambda>e. case json_get (fst e) (json_index schema ''properties'') of
                  Some property \<Rightarrow> conforms property (snd e) | None \<Rightarrow> False) entries
        | JArr items \<Rightarrow> length items \<le> 1024 \<and> sized schema (length items) ''minItems'' ''maxItems''
            \<and> list_all (conforms (json_index schema ''items'')) items
        | JStr s \<Rightarrow> sized schema (length (utf8_chars s)) ''minLength'' ''maxLength''
        | JNum n \<Rightarrow> ranged schema v
        | _ \<Rightarrow> True)"
  by pat_completeness auto

termination conforms
  by (relation "measure (\<lambda>(schema, v). size v)") (auto dest: size_member size_item)

declare conforms.simps [simp del]

lemma check_size_iff: "check_size s n lo hi = Inr () \<longleftrightarrow> sized s n lo hi"
  by (auto simp: check_size_def sized_def guard_simps split: option.splits)

lemma check_choices_iff: "s = JObj es \<Longrightarrow> check_choices es v = Inr () \<longleftrightarrow> chosen s v"
  by (auto simp: check_choices_def chosen_def guard_simps json_items_Some split: option.splits json.splits)

lemma check_required_iff: "s = JObj es \<Longrightarrow> check_required es entries = Inr () \<longleftrightarrow> required_in s entries"
  by (auto simp: check_required_def required_in_def guard_simps json_items_Some split: option.splits json.splits)

lemma when_bound:
  "when_present x (\<lambda>b. rbind (ok_or (as_f64 b) e) (\<lambda>b. ensure (c b) e')) = Inr ()
   \<longleftrightarrow> (case x of Some b \<Rightarrow> (case as_f64 b of Some y \<Rightarrow> c y | None \<Rightarrow> False) | None \<Rightarrow> True)"
  by (auto simp: guard_simps split: option.split)

lemma check_number_iff: "s = JObj es \<Longrightarrow> check_number es v = Inr () \<longleftrightarrow> ranged s v"
  by (cases "as_f64 v"; cases "the (as_f64 v)")
     (simp_all add: check_number_def ranged_def rbind_Inr when_bound ensure_Inr MAX_SAFE_NUMBER_def)

lemma try_each_iff: "try_each f xs = Inr () \<longleftrightarrow> list_all (\<lambda>x. f x = Inr ()) xs"
  by (simp add: try_each_Inr list_all_iff)

lemma shape_object:
  assumes "schema_shape schema d = Inr ()"
  obtains es where "schema = JObj es" "d \<le> 16" "list_all (\<lambda>e. fst e \<in> set allowed_keywords) es"
  using assms
  by (simp add: schema_shape.simps [of schema d] guard_simps shape_keywords_def json_entries_Some) blast

lemma shape_children:
  assumes "schema_shape schema d = Inr ()"
  shows "json_index schema ''type'' = JStr ''object'' \<Longrightarrow>
      json_index schema ''additionalProperties'' = JBool False \<and>
      (\<exists>ps. json_index schema ''properties'' = JObj ps \<and> list_all (\<lambda>p. schema_shape (snd p) (d + 1) = Inr ()) ps)"
    and "json_index schema ''type'' = JStr ''array'' \<Longrightarrow> schema_shape (json_index schema ''items'') (d + 1) = Inr ()"
  using assms
  by (auto simp: schema_shape.simps [of schema d] guard_simps json_entries_Some try_each_iff list_all_iff)

lemma kind_of_value:
  assumes "kind_matches kind v"
  shows "v = JObj es \<Longrightarrow> kind = ''object''" "v = JArr vs \<Longrightarrow> kind = ''array''"
  using assms by (auto simp: kind_matches_def)

lemma validate_input_conforms:
  "validate_input schema v d = Inr () \<longleftrightarrow> schema_shape schema d = Inr () \<and> conforms schema v"
proof (induction "size v" arbitrary: schema v d rule: less_induct)
  case less
  show ?case
  proof (cases "schema_shape schema d = Inr ()")
    case True
    then obtain es where es: "schema = JObj es" "d \<le> 16" "list_all (\<lambda>e. fst e \<in> set allowed_keywords) es"
      by (rule shape_object)
    then have entries: "json_entries schema = Some es" by simp
    show ?thesis
    proof (cases "\<exists>kind. json_index schema ''type'' = JStr kind \<and> kind_matches kind v")
      case False
      then have "json_str (json_index schema ''type'') = None
          \<or> (\<exists>kind. json_str (json_index schema ''type'') = Some kind \<and> \<not> kind_matches kind v)"
        by (cases "json_str (json_index schema ''type'')") (auto simp: json_str_Some)
      then show ?thesis
        by (elim disjE exE conjE)
           (simp_all add: validate_input.simps [of schema v d] conforms.simps [of schema v] True entries es(2,3))
    next
      case kind: True
      then obtain kind where kind: "json_index schema ''type'' = JStr kind" "kind_matches kind v" by blast
      note unfolded = validate_input.simps [of schema _ d] conforms.simps [of schema]
        True es(2,3) entries kind check_choices_iff [OF es(1)] check_size_iff
        check_required_iff [OF es(1)] check_number_iff [OF es(1)]
      show ?thesis
      proof (cases v)
        case (JObj entries)
        then have "kind = ''object''" using kind(2) by (rule kind_of_value(1) [rotated])
        then obtain ps where ps: "json_index schema ''properties'' = JObj ps"
            "list_all (\<lambda>p. schema_shape (snd p) (d + 1) = Inr ()) ps"
            "json_index schema ''additionalProperties'' = JBool False"
          using shape_children(1) [OF True] kind(1) by blast
        have shaped: "schema_shape p (d + 1) = Inr ()" if "map_of ps k = Some p" for k p
          using ps(2) map_of_SomeD [OF that] by (force simp: list_all_iff)
        have each: "rbind (ok_or (map_of ps (fst e)) ''GM_RUN_INPUT_UNKNOWN_PROPERTY'')
              (\<lambda>p. validate_input p (snd e) (d + 1)) = Inr ()
            \<longleftrightarrow> (case map_of ps (fst e) of Some p \<Rightarrow> conforms p (snd e) | None \<Rightarrow> False)"
          if "e \<in> set entries" for e
          using less [of "snd e"] size_member [of "fst e" "snd e" entries] that JObj shaped
          by (auto simp: guard_simps split: option.split)
        show ?thesis
          using each ps es(3)
          by (simp add: unfolded JObj guard_simps json_entries_Some list_all_iff cong: ball_cong)
      next
        case (JArr items)
        then have "kind = ''array''" using kind(2) by (rule kind_of_value(2) [rotated])
        then have shaped: "schema_shape (json_index schema ''items'') (d + 1) = Inr ()"
          using shape_children(2) [OF True] kind(1) by blast
        have each: "validate_input (json_index schema ''items'') x (d + 1) = Inr ()
            \<longleftrightarrow> conforms (json_index schema ''items'') x" if "x \<in> set items" for x
          using less [of x] size_item [OF that] JArr shaped by simp
        show ?thesis
          using each shaped es(3) by (auto simp: unfolded JArr guard_simps list_all_iff)
      qed (simp_all add: unfolded guard_simps)
    qed
  qed (simp add: validate_input.simps [of schema v d] guard_simps)
qed

section \<open>Nesting\<close>

primrec json_depth :: "json \<Rightarrow> nat" where
  "json_depth JNull = 0"
| "json_depth (JBool b) = 0"
| "json_depth (JNum n) = 0"
| "json_depth (JStr s) = 0"
| "json_depth (JArr vs) = foldr max (map Suc (map json_depth vs)) 0"
| "json_depth (JObj es) = foldr max (map (Suc \<circ> snd) (map (map_prod id json_depth) es)) 0"

lemma foldr_max_le: "foldr max ns (0 :: nat) \<le> b \<longleftrightarrow> (\<forall>n \<in> set ns. n \<le> b)"
  by (induction ns) auto

lemma validate_input_depth:
  "validate_input schema v d = Inr () \<Longrightarrow> d \<le> 16 \<and> json_depth v \<le> 16 - d"
proof (induction "size v" arbitrary: schema v d rule: less_induct)
  case less
  have d: "d \<le> 16" using less.prems by (simp add: validate_input_conforms) (blast elim: shape_object)
  show ?case
  proof (cases v)
    case (JArr items)
    have "validate_input (json_index schema ''items'') x (d + 1) = Inr ()" if "x \<in> set items" for x
      using less.prems JArr that by (auto simp: validate_input.simps [of schema] guard_simps)
    then have "d + 1 \<le> 16 \<and> json_depth x \<le> 16 - (d + 1)" if "x \<in> set items" for x
      using less.hyps [of x] size_item [OF that] JArr that by blast
    with d JArr show ?thesis by (fastforce simp: foldr_max_le)
  next
    case (JObj entries)
    have "\<exists>p. validate_input p (snd e) (d + 1) = Inr ()" if "e \<in> set entries" for e
      using less.prems JObj that by (fastforce simp: validate_input.simps [of schema] guard_simps)
    moreover have "size (snd e) < size v" if "e \<in> set entries" for e
      using size_member [of "fst e" "snd e"] that JObj by simp
    ultimately have "d + 1 \<le> 16 \<and> json_depth (snd e) \<le> 16 - (d + 1)" if "e \<in> set entries" for e
      using less.hyps that by blast
    with d JObj show ?thesis by (fastforce simp: foldr_max_le)
  qed (simp_all add: d)
qed

section \<open>A concrete schema\<close>

text \<open>The schema and the inputs of the test in the source.\<close>

definition sample_property :: json where
  "sample_property = JObj
     [(''maximum'', JNum (PosInt 9)), (''minimum'', JNum (PosInt 0)), (''type'', JStr ''integer'')]"

definition sample_schema :: json where
  "sample_schema = JObj
     [(''additionalProperties'', JBool False), (''properties'', JObj [(''value'', sample_property)]),
      (''required'', JArr [JStr ''value'']), (''type'', JStr ''object'')]"

definition sample_input :: json where
  "sample_input = JObj [(''value'', JNum (PosInt 7))]"

lemmas schema_eval = when_present_def json_index_def allowed_keywords_def schema_types_def shape_keywords_def
  shape_numbers_def shape_sizes_def shape_interval_def shape_required_def shape_placement_def contains_key_def
  f64_of_nat_def sort_dedup_def map_filter_def

lemma sample_property_shape: "d \<le> 16 \<Longrightarrow> schema_shape sample_property d = Inr ()"
  by (subst schema_shape.simps) (simp add: schema_eval sample_property_def)

lemma sample_schema_shape: "d \<le> 15 \<Longrightarrow> schema_shape sample_schema d = Inr ()"
  by (subst schema_shape.simps) (simp add: schema_eval sample_schema_def sample_property_shape)

lemma sample_property_conforms: "conforms sample_property (JNum (PosInt 7))"
  by (subst conforms.simps) (simp add: json_index_def sample_property_def kind_matches_def chosen_def
      ranged_def f64_of_nat_def abs_mult)

lemma sample_input_accepted: "validate_input sample_schema sample_input 0 = Inr ()"
  unfolding validate_input_conforms
  by (subst conforms.simps) (simp add: sample_schema_shape, simp add: sample_input_def sample_property_conforms
      json_index_def sample_schema_def kind_matches_def chosen_def required_in_def contains_key_def)

section \<open>Properties\<close>

text \<open>
  C20: An input is accepted exactly when the schema is within the supported subset, to a depth of 16, and
  the input conforms to it; which checks are made twice, at which depth and in which order does not
  matter.
\<close>

theorem validate_input_exact:
  "validate_input schema v depth = Inr () \<longleftrightarrow> schema_shape schema depth = Inr () \<and> conforms schema v"
  by (rule validate_input_conforms)

text \<open>
  The recursion over a caller's document is bounded: an accepted input is nested at most 16 deep.
\<close>

theorem accepted_input_depth:
  assumes "validate_input schema v 0 = Inr ()"
  shows "json_depth v \<le> 16"
  using validate_input_depth [OF assms] by simp

theorem accepted_input_depth_witness:
  "validate_input sample_schema sample_input 0 = Inr () \<and> json_depth sample_input \<le> 16"
  using sample_input_accepted accepted_input_depth [OF sample_input_accepted] by simp

end
