(* ===== verification/Run_Plan.thy ===== *)
theory Run_Plan
  imports Input_Schema Context
begin

text \<open>
  Models the run plans of \<open>crates/gaugemesh/src/runs.rs\<close>: plans, steps, inputs and verification
  policies with their serialized forms, the state of a run, and \<open>RunPlan::validate\<close> with its bounds
  and its cycle check. The cycle check iterates over the steps until a sweep visits nothing new;
  \<open>needs\<close> is the relation it decides to be acyclic. Paths are those of a Unix system.
\<close>

section \<open>Plans\<close>

datatype plan_input = Literal json | Predecessor (pre_step: string) (pre_pointer: string)

record plan_check =
  ck_pointer :: string
  ck_expected :: json
  ck_required :: bool

record artifact_policy =
  ap_schema :: string
  ap_checks :: "plan_check list"

record plan_step =
  st_id :: string
  st_depends :: "string list"
  st_alias :: string
  st_capability :: sha256_digest
  st_provider :: string
  st_arguments :: "(string \<times> plan_input) list"
  st_inputs_digest :: sha256_digest
  st_policy :: artifact_policy
  st_policy_digest :: sha256_digest
  st_effect :: side_effect_class
  st_max_runtime :: u64
  st_max_artifact :: u64

record run_plan =
  pl_schema :: string
  pl_key :: string
  pl_deadline :: u64
  pl_concurrency :: nat
  pl_attempts :: u16
  pl_failure :: string
  pl_uncertainty :: string
  pl_cancellation :: string
  pl_root :: string
  pl_steps :: "plan_step list"

text \<open>The serialized forms that are hashed; \<open>BTreeMap\<close>s are entry lists in key order.\<close>

fun input_json :: "plan_input \<Rightarrow> json" where
  "input_json (Literal v) = JObj [(''kind'', JStr ''literal''), (''value'', v)]"
| "input_json (Predecessor s p) =
     JObj [(''kind'', JStr ''predecessor''), (''step'', JStr s), (''pointer'', JStr p)]"

definition arguments_json :: "(string \<times> plan_input) list \<Rightarrow> json" where
  "arguments_json as = JObj (map (map_prod id input_json) as)"

definition check_json :: "plan_check \<Rightarrow> json" where
  "check_json c = JObj [(''pointer'', JStr (ck_pointer c)), (''expected'', ck_expected c),
                        (''required'', JBool (ck_required c))]"

definition policy_json :: "artifact_policy \<Rightarrow> json" where
  "policy_json p = JObj [(''schemaVersion'', JStr (ap_schema p)), (''checks'', JArr (map check_json (ap_checks p)))]"

section \<open>States\<close>

datatype run_phase = Pending | Submitting | StepRouted | Verified | StepFailed | Unknown | Cancelled | Skipped

fun phase_active :: "run_phase \<Rightarrow> bool" where
  "phase_active p = (p \<in> {Submitting, StepRouted})"

fun phase_blocks :: "run_phase \<Rightarrow> bool" where
  "phase_blocks p = (p \<in> {StepFailed, Unknown, Cancelled})"

record step_state =
  ss_phase :: run_phase
  ss_arguments :: "(string \<times> json) list option"
  ss_submission :: "json option"
  ss_task_id :: "string option"
  ss_terminal :: "json option"
  ss_artifact :: "json option"
  ss_verification :: "json option"
  ss_intent :: bool
  ss_request_sent :: bool
  ss_acknowledged :: bool
  ss_diagnostic :: "string option"

definition step_state_default :: step_state where
  "step_state_default =
     \<lparr>ss_phase = Pending, ss_arguments = None, ss_submission = None, ss_task_id = None, ss_terminal = None,
      ss_artifact = None, ss_verification = None, ss_intent = False, ss_request_sent = False,
      ss_acknowledged = False, ss_diagnostic = None\<rparr>"

record run_state =
  rs_plan :: run_plan
  rs_accepted_at :: u64
  rs_cancel :: bool
  rs_deadline_seen :: bool
  rs_steps :: "(string, step_state) fmap"

section \<open>Identifiers and pointers\<close>

definition plan_identifier :: "string \<Rightarrow> bool" where
  "plan_identifier s \<longleftrightarrow> s \<noteq> [] \<and> length s \<le> 96 \<and> list_all (ascii_in ''-_.'') s"

definition pointer_valid :: "string \<Rightarrow> bool" where
  "pointer_valid s \<longleftrightarrow>
     length s \<le> 256 \<and> starts_with ''/'' s \<and> \<not> contains_text ''/binding'' s \<and> \<not> contains_text ''/artifact'' s
     \<and> list_all (\<lambda>part. starts_with ''0'' part \<or> starts_with ''1'' part) (drop 1 (split_on (CHR ''~'') s))"

section \<open>Validation\<close>

definition plan_bounds :: "run_plan \<Rightarrow> u64 \<Rightarrow> (string, unit) res" where
  "plan_bounds p accepted_at =
     rbind (ensure (pl_schema p = ''gaugemesh.run-plan/1'') ''GM_RUN_SCHEMA_UNSUPPORTED'') (\<lambda>_.
     rbind (ensure (plan_identifier (pl_key p)) ''GM_RUN_KEY_INVALID'') (\<lambda>_.
     rbind (ensure (pl_steps p \<noteq> [] \<and> length (pl_steps p) \<le> 16 \<and> 1 \<le> pl_concurrency p \<and> pl_concurrency p \<le> 4
              \<and> pl_attempts p = 1) ''GM_RUN_BOUND_UNSUPPORTED'') (\<lambda>_.
     rbind (ensure (pl_deadline p > accepted_at \<and> pl_deadline p \<le> saturating_add accepted_at 3600000)
              ''GM_RUN_DEADLINE_INVALID'') (\<lambda>_.
     rbind (ensure (pl_failure p = ''fail_fast_account_inflight'' \<and> pl_uncertainty p = ''stop_no_replay''
              \<and> pl_cancellation p = ''intent_then_poll'') ''GM_RUN_GUARANTEE_UNSUPPORTED'') (\<lambda>_.
     rbind (ensure (starts_with ''/'' (pl_root p)) ''GM_RUN_ARTIFACT_ROOT_INVALID'') (\<lambda>_.
     ensure (length (sort_dedup (map st_id (pl_steps p))) = length (pl_steps p)) ''GM_RUN_DUPLICATE_STEP''))))))"

definition input_reference :: "plan_step \<Rightarrow> plan_input \<Rightarrow> (string, unit) res" where
  "input_reference s i =
     (case i of
        Literal v \<Rightarrow> Inr ()
      | Predecessor source pointer \<Rightarrow>
          ensure (source \<in> set (st_depends s) \<and> pointer_valid pointer) ''GM_RUN_REFERENCE_INVALID'')"

definition policy_valid :: "platform \<Rightarrow> plan_step \<Rightarrow> bool" where
  "policy_valid P s \<longleftrightarrow>
     (let policy = st_policy s; checks = ap_checks policy in
      ap_schema policy = ''gaugemesh.json-artifact-policy/1'' \<and> checks \<noteq> [] \<and> length checks \<le> 16
      \<and> list_ex ck_required checks \<and> list_all (\<lambda>c. pointer_valid (ck_pointer c)) checks
      \<and> length (json_to_vec P (policy_json policy)) \<le> 32768
      \<and> of_json P (policy_json policy) = st_policy_digest s)"

definition step_valid :: "platform \<Rightarrow> run_plan \<Rightarrow> plan_step \<Rightarrow> (string, unit) res" where
  "step_valid P p s =
     (let ids = map st_id (pl_steps p) in
      rbind (ensure (plan_identifier (st_id s) \<and> length (st_id s) \<le> 64 \<and> st_alias s \<noteq> []
               \<and> length (st_alias s) \<le> 256) ''GM_RUN_STEP_INVALID'') (\<lambda>_.
      rbind (ensure (length (st_depends s) \<le> 8 \<and> length (sort_dedup (st_depends s)) = length (st_depends s)
               \<and> list_all (\<lambda>i. i \<in> set ids \<and> i \<noteq> st_id s) (st_depends s)) ''GM_RUN_EDGE_INVALID'') (\<lambda>_.
      rbind (ensure (length (filter (\<lambda>t. st_id s \<in> set (st_depends t)) (pl_steps p)) \<le> 8)
               ''GM_RUN_FANOUT_BOUND'') (\<lambda>_.
      rbind (ensure (length (st_arguments s) \<le> 32
               \<and> length (json_to_vec P (arguments_json (st_arguments s))) \<le> 8192
               \<and> of_json P (arguments_json (st_arguments s)) = st_inputs_digest s)
               ''GM_RUN_INPUT_IDENTITY_INVALID'') (\<lambda>_.
      rbind (try_each (input_reference s) (map snd (st_arguments s))) (\<lambda>_.
      rbind (ensure (policy_valid P s) ''GM_RUN_POLICY_INVALID'') (\<lambda>_.
      ensure (st_effect s = NonIdempotentWrite \<and> 1 \<le> st_max_runtime s \<and> st_max_runtime s \<le> 30000
              \<and> 1 \<le> st_max_artifact s \<and> st_max_artifact s \<le> 1048576)
        ''GM_RUN_EFFECT_OR_BOUND_UNSUPPORTED'')))))))"

text \<open>One sweep of the cycle check, and the sweeps until the set stops growing.\<close>

definition sweep :: "plan_step list \<Rightarrow> string fset \<Rightarrow> string fset" where
  "sweep steps visited =
     fold (\<lambda>s v. if list_all (\<lambda>i. i |\<in>| v) (st_depends s) then finsert (st_id s) v else v) steps visited"

lemma sweep_Nil [simp]: "sweep [] v = v"
  by (simp add: sweep_def)

lemma sweep_Cons:
  "sweep (s # ss) v = sweep ss (if list_all (\<lambda>i. i |\<in>| v) (st_depends s) then finsert (st_id s) v else v)"
  by (simp add: sweep_def)

lemma sweep_mono: "v |\<subseteq>| sweep steps v"
  by (induction steps arbitrary: v) (auto simp: sweep_Cons)

lemma sweep_bound: "v |\<subseteq>| w \<Longrightarrow> st_id ` set steps \<subseteq> fset w \<Longrightarrow> sweep steps v |\<subseteq>| w"
  by (induction steps arbitrary: v) (simp_all add: sweep_Cons)

function visit_all :: "plan_step list \<Rightarrow> string fset \<Rightarrow> string fset" where
  "visit_all steps visited =
     (let swept = sweep steps visited in
      if fcard visited = fcard swept then swept else visit_all steps swept)"
  by pat_completeness auto

termination visit_all
proof (relation "measure (\<lambda>(steps, v). fcard (fset_of_list (map st_id steps) |-| v))", goal_cases)
  case (2 steps v w)
  then have v: "v |\<subseteq>| w" "fcard v \<noteq> fcard w" by (simp_all add: sweep_mono)
  then have "\<not> w |\<subseteq>| v" by auto
  then obtain i where i: "i |\<in>| w" "i |\<notin>| v" by auto
  have "w |\<subseteq>| v |\<union>| fset_of_list (map st_id steps)"
    unfolding 2(1) by (rule sweep_bound) (auto simp: fset_of_list.rep_eq)
  with i have "fset_of_list (map st_id steps) |-| w |\<subset>| fset_of_list (map st_id steps) |-| v"
    using v(1) by (intro pfsubsetI) (auto simp del: fset_of_list_map)
  then have "fcard (fset_of_list (map st_id steps) |-| w) < fcard (fset_of_list (map st_id steps) |-| v)"
    by (rule pfsubset_fcard_mono)
  then show ?case by simp
qed simp

declare visit_all.simps [simp del]

definition plan_validate :: "platform \<Rightarrow> run_plan \<Rightarrow> u64 \<Rightarrow> (string, unit) res" where
  "plan_validate P p accepted_at =
     rbind (plan_bounds p accepted_at) (\<lambda>_.
     rbind (try_each (step_valid P p) (pl_steps p)) (\<lambda>_.
     ensure (fcard (visit_all (pl_steps p) {||}) = length (pl_steps p)) ''GM_RUN_CYCLE''))"

section \<open>The dependencies of a plan\<close>

text \<open>The relation from a step to the steps it depends on.\<close>

definition needs :: "plan_step list \<Rightarrow> (string \<times> string) set" where
  "needs steps = {(st_id s, d) |s d. s \<in> set steps \<and> d \<in> set (st_depends s)}"

definition closed_under :: "plan_step list \<Rightarrow> string set \<Rightarrow> bool" where
  "closed_under steps v \<longleftrightarrow> (\<forall>s \<in> set steps. set (st_depends s) \<subseteq> v \<longrightarrow> st_id s \<in> v)"

lemma sweep_closed:
  "sweep steps v = v \<Longrightarrow> closed_under steps (fset v)"
proof (induction steps)
  case (Cons s ss)
  let ?v = "if list_all (\<lambda>i. i |\<in>| v) (st_depends s) then finsert (st_id s) v else v"
  have "?v |\<subseteq>| v" using sweep_mono [of ?v ss] Cons.prems by (simp add: sweep_Cons)
  then have "?v = v" by auto
  with Cons show ?case
    by (auto simp: sweep_Cons closed_under_def list_all_iff split: if_splits)
qed (simp add: closed_under_def)

lemma visit_all_fixpoint: "sweep steps (visit_all steps v) = visit_all steps v"
proof (induction steps v rule: visit_all.induct)
  case (1 steps v)
  show ?case
  proof (cases "fcard v = fcard (sweep steps v)")
    case True
    then have "v = sweep steps v" using sweep_mono [of v steps] by (metis fcard_seteq order_refl)
    with True show ?thesis by (simp add: visit_all.simps [of steps v])
  next
    case False
    with 1 show ?thesis by (simp add: visit_all.simps [of steps v])
  qed
qed

lemma visit_all_invariant:
  assumes "Q v" "\<And>s w. \<lbrakk>s \<in> set steps; Q w; set (st_depends s) \<subseteq> fset w\<rbrakk> \<Longrightarrow> Q (finsert (st_id s) w)"
  shows "Q (visit_all steps v)"
  using assms
proof (induction steps v rule: visit_all.induct)
  case (1 steps v)
  have "Q (sweep ss w)" if "Q w" "set ss \<subseteq> set steps" for ss w
    using that by (induction ss arbitrary: w) (auto simp: sweep_Cons list_all_iff subset_iff intro!: 1(3))
  then have "Q (sweep steps v)" using 1(2) by blast
  with 1(1,3) show ?case by (simp add: visit_all.simps [of steps v] Let_def)
qed

definition well_named :: "plan_step list \<Rightarrow> bool" where
  "well_named steps \<longleftrightarrow> distinct (map st_id steps)
     \<and> (\<forall>s \<in> set steps. set (st_depends s) \<subseteq> st_id ` set steps)"

lemma needs_step: "\<lbrakk>well_named steps; s \<in> set steps\<rbrakk> \<Longrightarrow> needs steps `` {st_id s} = set (st_depends s)"
  by (auto simp: needs_def well_named_def distinct_map dest: inj_onD)

lemma finite_needs: "finite (needs steps)"
proof -
  have "needs steps \<subseteq> st_id ` set steps \<times> (\<Union>s \<in> set steps. set (st_depends s))"
    by (auto simp: needs_def)
  then show ?thesis by (rule finite_subset) simp
qed

text \<open>What the sweeps visit is the accessible part of the relation.\<close>

lemma visited_accessible:
  assumes "well_named steps"
  shows "fset (visit_all steps {||}) \<subseteq> Wellfounded.acc ((needs steps)\<inverse>)"
proof (rule visit_all_invariant)
  fix s w
  assume s: "s \<in> set steps" "fset w \<subseteq> Wellfounded.acc ((needs steps)\<inverse>)" "set (st_depends s) \<subseteq> fset w"
  have "st_id s \<in> Wellfounded.acc ((needs steps)\<inverse>)"
  proof (rule accI)
    fix d assume "(d, st_id s) \<in> (needs steps)\<inverse>"
    then have "d \<in> set (st_depends s)" using needs_step [OF assms s(1)] by auto
    with s show "d \<in> Wellfounded.acc ((needs steps)\<inverse>)" by blast
  qed
  with s(2) show "fset (finsert (st_id s) w) \<subseteq> Wellfounded.acc ((needs steps)\<inverse>)" by simp
qed simp

lemma accessible_visited:
  assumes "well_named steps" "i \<in> Wellfounded.acc ((needs steps)\<inverse>)" "i \<in> st_id ` set steps"
  shows "i |\<in>| visit_all steps {||}"
  using assms(2,3)
proof (induction rule: acc_induct_rule)
  case (1 i)
  then obtain s where s: "s \<in> set steps" "i = st_id s" by blast
  have "d |\<in>| visit_all steps {||}" if "d \<in> set (st_depends s)" for d
  proof (rule 1(2))
    show "(d, i) \<in> (needs steps)\<inverse>" using that s by (auto simp: needs_def)
    show "d \<in> st_id ` set steps" using that s assms(1) by (auto simp: well_named_def)
  qed
  then have "set (st_depends s) \<subseteq> fset (visit_all steps {||})" by blast
  then show ?case
    using sweep_closed [OF visit_all_fixpoint] s by (auto simp: closed_under_def)
qed

lemma visited_ids: "fset (visit_all steps {||}) \<subseteq> st_id ` set steps"
  by (rule visit_all_invariant) auto

lemma all_visited_iff:
  assumes "well_named steps"
  shows "fcard (visit_all steps {||}) = length steps \<longleftrightarrow> acyclic (needs steps)"
proof -
  let ?v = "fset (visit_all steps {||})"
  have ids: "card (st_id ` set steps) = length steps"
    using assms by (metis distinct_card length_map list.set_map well_named_def)
  have "fcard (visit_all steps {||}) = length steps \<longleftrightarrow> ?v = st_id ` set steps"
    using visited_ids [of steps] ids by (metis List.finite_set card_subset_eq fcard.rep_eq finite_imageI)
  also have "\<dots> \<longleftrightarrow> st_id ` set steps \<subseteq> Wellfounded.acc ((needs steps)\<inverse>)"
    using visited_accessible [OF assms] accessible_visited [OF assms] visited_ids [of steps] by blast
  also have "\<dots> \<longleftrightarrow> wf ((needs steps)\<inverse>)"
  proof
    assume all: "st_id ` set steps \<subseteq> Wellfounded.acc ((needs steps)\<inverse>)"
    have "i \<in> Wellfounded.acc ((needs steps)\<inverse>)" for i
    proof (cases "i \<in> st_id ` set steps")
      case False
      then have "(y, i) \<notin> (needs steps)\<inverse>" for y by (auto simp: needs_def)
      then show ?thesis by (blast intro: accI)
    qed (use all in blast)
    then show "wf ((needs steps)\<inverse>)" by (intro acc_wfI allI)
  qed (auto intro: acc_wfD)
  also have "\<dots> \<longleftrightarrow> acyclic (needs steps)"
    using finite_needs [of steps] by (simp add: wf_iff_acyclic_if_finite acyclic_converse)
  finally show ?thesis .
qed

section \<open>What validation accepts\<close>

lemma distinct_sort_dedup: "length (sort_dedup xs) = length xs \<longleftrightarrow> distinct xs"
proof -
  have "distinct (sort_dedup xs)" using sort_dedup_strict [of xs] by (auto simp: strict_sorted_iff)
  then have "length (sort_dedup xs) = card (set xs)" using distinct_card [of "sort_dedup xs"] by simp
  then show ?thesis by (auto simp: distinct_card card_distinct)
qed

lemma step_valid_depends:
  "step_valid P p s = Inr () \<Longrightarrow> set (st_depends s) \<subseteq> st_id ` set (pl_steps p) \<and> distinct (st_depends s)
     \<and> st_id s \<notin> set (st_depends s)"
  by (auto simp: step_valid_def guard_simps Let_def distinct_sort_dedup list_all_iff)

lemma bounds_well_named:
  "\<lbrakk>plan_bounds p t = Inr (); try_each (step_valid P p) (pl_steps p) = Inr ()\<rbrakk> \<Longrightarrow> well_named (pl_steps p)"
  using step_valid_depends [of P p]
  by (fastforce simp: well_named_def plan_bounds_def guard_simps distinct_sort_dedup [of "map _ _", simplified])

lemma plan_validate_cases:
  "plan_validate P p t =
     (case plan_bounds p t of Inl e \<Rightarrow> Inl e
      | Inr _ \<Rightarrow> (case try_each (step_valid P p) (pl_steps p) of Inl e \<Rightarrow> Inl e
         | Inr _ \<Rightarrow> if acyclic (needs (pl_steps p)) then Inr () else Inl ''GM_RUN_CYCLE''))"
  using bounds_well_named [of p t P] all_visited_iff [of "pl_steps p"]
  by (auto simp: plan_validate_def ensure_def split: sum.split)

lemma validated_plan:
  assumes "plan_validate P p t = Inr ()"
  shows "well_named (pl_steps p)" "acyclic (needs (pl_steps p))" "plan_bounds p t = Inr ()"
    "s \<in> set (pl_steps p) \<Longrightarrow> step_valid P p s = Inr ()"
  using assms bounds_well_named [of p t P]
  by (auto simp: plan_validate_cases try_each_Inr split: sum.splits if_splits)

section \<open>Properties\<close>

text \<open>
  C19: A plan is refused with the first bound it violates, and otherwise with a cycle exactly when its
  dependencies are cyclic: the sweeps of the cycle check end and decide acyclicity.
\<close>

theorem plan_validate_exact:
  "plan_validate P p t =
     (case plan_bounds p t of Inl e \<Rightarrow> Inl e
      | Inr _ \<Rightarrow> (case try_each (step_valid P p) (pl_steps p) of Inl e \<Rightarrow> Inl e
         | Inr _ \<Rightarrow> if acyclic (needs (pl_steps p)) then Inr () else Inl ''GM_RUN_CYCLE''))"
  by (rule plan_validate_cases)

end
