(* ===== verification/Run_State.thy ===== *)
theory Run_State
  imports Run_Plan Run
begin

text \<open>
  Models the data half of the run driver of \<open>crates/gaugemesh/src/runs.rs\<close>: the serialized state of a
  run, resolving the inputs of a step from verified artifacts, the checks a stored state passes when
  it is loaded, the summary of a run, and the verification of a completed step against its
  submission, its artifact and its policy. The derived deserializer and \<open>serde_json::from_slice\<close>
  are arguments; reading a file is a call of the driver.
\<close>

record run_codec =
  rc_platform :: platform
  rc_plan :: "json \<Rightarrow> run_plan option"
  rc_state :: "json \<Rightarrow> run_state option"
  rc_parse :: "bytes \<Rightarrow> json option"

section \<open>Serialized states\<close>

definition usize_json :: "nat \<Rightarrow> json" where
  "usize_json n = JNum (PosInt (of_nat n))"

definition plan_step_json :: "platform \<Rightarrow> plan_step \<Rightarrow> json" where
  "plan_step_json P s = json_object
     [(''id'', JStr (st_id s)), (''dependsOn'', JArr (map JStr (st_depends s))), (''alias'', JStr (st_alias s)),
      (''capabilityId'', digest_json P (st_capability s)),
      (''providerInterfaceVersion'', JStr (st_provider s)), (''arguments'', arguments_json (st_arguments s)),
      (''inputsSha256'', digest_json P (st_inputs_digest s)), (''policy'', policy_json (st_policy s)),
      (''policySha256'', digest_json P (st_policy_digest s)),
      (''permittedEffect'', JStr (side_effect_name (st_effect s))),
      (''maxRuntimeMs'', u64_json (st_max_runtime s)), (''maxArtifactBytes'', u64_json (st_max_artifact s))]"

definition plan_json :: "platform \<Rightarrow> run_plan \<Rightarrow> json" where
  "plan_json P p = json_object
     [(''schemaVersion'', JStr (pl_schema p)), (''runKey'', JStr (pl_key p)),
      (''deadlineUnixMs'', u64_json (pl_deadline p)), (''maxConcurrency'', usize_json (pl_concurrency p)),
      (''maxAttempts'', u16_json (pl_attempts p)), (''failurePolicy'', JStr (pl_failure p)),
      (''uncertaintyPolicy'', JStr (pl_uncertainty p)), (''cancellationPolicy'', JStr (pl_cancellation p)),
      (''artifactRoot'', JStr (pl_root p)), (''steps'', JArr (map (plan_step_json P) (pl_steps p)))]"

fun phase_name :: "run_phase \<Rightarrow> string" where
  "phase_name Pending = ''pending''"
| "phase_name Submitting = ''submitting''"
| "phase_name StepRouted = ''routed''"
| "phase_name Verified = ''verified''"
| "phase_name StepFailed = ''failed''"
| "phase_name Unknown = ''unknown''"
| "phase_name Cancelled = ''cancelled''"
| "phase_name Skipped = ''skipped''"

definition step_state_json :: "step_state \<Rightarrow> json" where
  "step_state_json s = json_object
     [(''phase'', JStr (phase_name (ss_phase s))), (''arguments'', opt_json JObj (ss_arguments s)),
      (''submission'', opt_json id (ss_submission s)), (''taskId'', opt_json JStr (ss_task_id s)),
      (''terminal'', opt_json id (ss_terminal s)), (''verifiedArtifact'', opt_json id (ss_artifact s)),
      (''verification'', opt_json id (ss_verification s)), (''cancellationIntent'', JBool (ss_intent s)),
      (''cancellationRequestSent'', JBool (ss_request_sent s)),
      (''cancellationAcknowledged'', JBool (ss_acknowledged s)), (''diagnostic'', opt_json JStr (ss_diagnostic s))]"

text \<open>\<open>state.steps[id]\<close>: indexing panics on a missing step, which validated states exclude.\<close>

definition step_at :: "run_state \<Rightarrow> string \<Rightarrow> step_state" where
  "step_at \<sigma> i = (case fmlookup (rs_steps \<sigma>) i of Some s \<Rightarrow> s | None \<Rightarrow> step_state_default)"

definition steps_json :: "run_state \<Rightarrow> json" where
  "steps_json \<sigma> = JObj (map (\<lambda>i. (i, step_state_json (step_at \<sigma> i))) (sorted_list_of_fset (fmdom (rs_steps \<sigma>))))"

definition run_state_json :: "platform \<Rightarrow> run_state \<Rightarrow> json" where
  "run_state_json P \<sigma> = json_object
     [(''plan'', plan_json P (rs_plan \<sigma>)), (''acceptedAtUnixMs'', u64_json (rs_accepted_at \<sigma>)),
      (''cancelRequested'', JBool (rs_cancel \<sigma>)), (''deadlineObserved'', JBool (rs_deadline_seen \<sigma>)),
      (''steps'', steps_json \<sigma>)]"

section \<open>Inputs\<close>

definition resolve_input :: "run_state \<Rightarrow> plan_input \<Rightarrow> (string, json) res" where
  "resolve_input \<sigma> i =
     (case i of
        Literal v \<Rightarrow> Inr v
      | Predecessor s p \<Rightarrow>
          ok_or (Option.bind (ss_artifact (step_at \<sigma> s)) (value_pointer p)) ''GM_RUN_REFERENCE_MISSING'')"

definition resolve_inputs :: "plan_step \<Rightarrow> run_state \<Rightarrow> (string, (string \<times> json) list) res" where
  "resolve_inputs s \<sigma> =
     try_map (\<lambda>(name, i). rbind (resolve_input \<sigma> i) (\<lambda>v. Inr (name, v))) (st_arguments s)"

section \<open>Loading a state\<close>

fun run_error_text :: "run_error \<Rightarrow> string" where
  "run_error_text (RunInvalid code) = code"
| "run_error_text RunSqlite = ''GM_RUN_STORAGE:''"
| "run_error_text RunDocument = ''GM_RUN_DOCUMENT:''"

definition same_arguments :: "(string \<times> json) list option \<Rightarrow> (string \<times> json) list \<Rightarrow> bool" where
  "same_arguments stored resolved = (case stored of Some a \<Rightarrow> value_eq (JObj a) (JObj resolved) | None \<Rightarrow> False)"

definition step_loads :: "run_state \<Rightarrow> plan_step \<Rightarrow> (string, unit) res" where
  "step_loads \<sigma> s =
     (let stored = step_at \<sigma> (st_id s); phase = ss_phase stored in
      rbind (if phase \<notin> {Pending, Skipped}
             then rbind (resolve_inputs s \<sigma>) (\<lambda>resolved.
                  rbind (ensure (same_arguments (ss_arguments stored) resolved) ''GM_RUN_STATE_INPUT_BINDING_INVALID'') (\<lambda>_.
                  ensure (ss_submission stored \<noteq> None) ''GM_RUN_STATE_SUBMISSION_MISSING''))
             else Inr ()) (\<lambda>_.
      rbind (if phase \<in> {StepRouted, Verified, Cancelled}
             then ensure (ss_task_id stored \<noteq> None) ''GM_RUN_STATE_TASK_ID_MISSING'' else Inr ()) (\<lambda>_.
      rbind (if phase = Verified
             then ensure (ss_terminal stored \<noteq> None \<and> ss_artifact stored \<noteq> None
                    \<and> (case ss_verification stored of
                         Some v \<Rightarrow> json_index v ''status'' = JStr ''verified'' | None \<Rightarrow> False))
                    ''GM_RUN_STATE_VERIFICATION_MISSING''
             else Inr ()) (\<lambda>_.
      if phase \<in> {Pending, Skipped}
      then ensure (ss_arguments stored = None \<and> ss_submission stored = None \<and> ss_task_id stored = None
             \<and> ss_terminal stored = None \<and> ss_artifact stored = None \<and> ss_verification stored = None)
             ''GM_RUN_STATE_UNSENT_HAS_EXECUTION''
      else Inr ()))))"

text \<open>Everything \<open>state_from\<close> checks of a decoded state.\<close>

definition state_checks :: "platform \<Rightarrow> run_state \<Rightarrow> (string, unit) res" where
  "state_checks P \<sigma> =
     rbind (plan_validate P (rs_plan \<sigma>) (rs_accepted_at \<sigma>)) (\<lambda>_.
     rbind (ensure (fcard (fmdom (rs_steps \<sigma>)) = length (pl_steps (rs_plan \<sigma>))
              \<and> list_all (\<lambda>s. st_id s |\<in>| fmdom (rs_steps \<sigma>)) (pl_steps (rs_plan \<sigma>))) ''GM_RUN_STATE_INVALID'') (\<lambda>_.
     try_each (step_loads \<sigma>) (pl_steps (rs_plan \<sigma>))))"

definition state_from :: "run_codec \<Rightarrow> run_record \<Rightarrow> (string, run_state) res" where
  "state_from C r =
     rbind (map_err run_error_text (run_verify (rc_platform C) r)) (\<lambda>_.
     rbind (ok_or (rc_state C (rn_data r)) ''GM_RUN_STATE_INVALID'') (\<lambda>\<sigma>.
     rbind (state_checks (rc_platform C) \<sigma>) (\<lambda>_. Inr \<sigma>)))"

text \<open>The phases of the steps, and when a run stops.\<close>

definition phases :: "run_state \<Rightarrow> run_phase list" where
  "phases \<sigma> = map (\<lambda>i. ss_phase (step_at \<sigma> i)) (sorted_list_of_fset (fmdom (rs_steps \<sigma>)))"

definition stopping :: "run_state \<Rightarrow> bool" where
  "stopping \<sigma> \<longleftrightarrow> rs_cancel \<sigma> \<or> rs_deadline_seen \<sigma> \<or> list_ex phase_blocks (phases \<sigma>)"

section \<open>Summary\<close>

definition run_status :: "run_state \<Rightarrow> string" where
  "run_status \<sigma> =
     (if list_ex phase_active (phases \<sigma>) then ''in_progress''
      else if list_ex ((=) Unknown) (phases \<sigma>) then ''reconciliation_required''
      else if list_all ((=) Verified) (phases \<sigma>) then ''verified''
      else if rs_cancel \<sigma> then ''cancelled_or_stopped''
      else if rs_deadline_seen \<sigma> then ''deadline_exceeded''
      else if list_ex phase_blocks (phases \<sigma>) then ''failed''
      else ''ready'')"

definition summary :: "run_codec \<Rightarrow> run_record \<Rightarrow> (string, json) res" where
  "summary C r =
     rbind (state_from C r) (\<lambda>\<sigma>.
     Inr (json_object
       [(''runId'', JStr (rn_id r)), (''planSha256'', digest_json (rc_platform C) (rn_plan_digest r)),
        (''version'', u64_json (rn_version r)), (''status'', JStr (run_status \<sigma>)),
        (''cancelRequested'', JBool (rs_cancel \<sigma>)), (''deadlineObserved'', JBool (rs_deadline_seen \<sigma>)),
        (''steps'', steps_json \<sigma>),
        (''guarantee'', JStr ''single-process poll-driven composition; no exactly-once side effects or autonomous watchdog'')]))"

section \<open>Verification of a step\<close>

text \<open>The identity of the one attempt of a step.\<close>

definition attempt_key :: "platform \<Rightarrow> string \<Rightarrow> plan_step \<Rightarrow> string" where
  "attempt_key P run_id s = ''gms_'' @ hex_encode P (as_bytes (of_json P (JArr [JStr run_id, JStr (st_id s)])))"

definition scope_digest :: "platform \<Rightarrow> string \<Rightarrow> run_plan \<Rightarrow> sha256_digest" where
  "scope_digest P run_id p = of_json P (json_object [(''runId'', JStr run_id), (''root'', JStr (pl_root p))])"

text \<open>What the terminal answer must repeat of the step's submission.\<close>

definition binding_matches :: "platform \<Rightarrow> string \<Rightarrow> run_plan \<Rightarrow> plan_step \<Rightarrow> step_state \<Rightarrow> json \<Rightarrow> json \<Rightarrow> json \<Rightarrow> bool" where
  "binding_matches P run_id p s st submission result binding \<longleftrightarrow>
     is_object binding
     \<and> value_eq (json_index result ''binding'') binding
     \<and> json_str (json_index binding ''publicTaskId'') = ss_task_id st
     \<and> value_eq (json_index (json_index binding ''submission'') ''task'') submission
     \<and> json_index binding ''requestSha256'' = digest_json P (of_json P (json_index binding ''submission''))
     \<and> json_index (json_index binding ''submission'') ''capabilityId'' = digest_json P (st_capability s)
     \<and> json_index submission ''attemptId'' = JStr (attempt_key P run_id s)
     \<and> json_index submission ''idempotencyKey'' = JStr (attempt_key P run_id s)
     \<and> json_index submission ''artifactScopeSha256'' = digest_json P (scope_digest P run_id p)
     \<and> json_index submission ''correlationId'' = JStr run_id
     \<and> json_index submission ''logicalTaskId'' = JStr (run_id @ ''/'' @ st_id s)
     \<and> json_index submission ''acceptancePolicySha256'' = digest_json P (st_policy_digest s)
     \<and> json_index submission ''inputSha256'' = digest_json P (of_json P (opt_json JObj (ss_arguments st)))"

text \<open>Before the artifact is read: the result, its binding and the path of the artifact.\<close>

definition verify_binding ::
  "platform \<Rightarrow> string \<Rightarrow> run_plan \<Rightarrow> plan_step \<Rightarrow> step_state \<Rightarrow> (string, json \<times> json \<times> string) res" where
  "verify_binding P run_id p s st =
     rbind (ok_or (ss_terminal st) ''GM_RUN_RESULT_MISSING'') (\<lambda>terminal.
     rbind (ensure (json_index terminal ''status'' = JStr ''completed''
              \<and> json_index (json_index terminal ''result'') ''isError'' \<noteq> JBool True)
              ''GM_RUN_EXECUTION_NOT_SUCCESSFUL'') (\<lambda>_.
     let result = json_index (json_index terminal ''result'') ''structuredContent'';
         binding = json_index (json_index (json_index terminal ''result'') ''_meta'') ''dev.gaugemesh/taskExecution'' in
     rbind (ok_or (ss_submission st) ''GM_RUN_SUBMISSION_MISSING'') (\<lambda>submission.
     rbind (ensure (binding_matches P run_id p s st submission result binding) ''GM_RUN_RESULT_BINDING_INVALID'') (\<lambda>_.
     rbind (ok_or (json_str (json_index (json_index result ''artifact'') ''path'')) ''GM_RUN_ARTIFACT_DESCRIPTOR_MISSING'') (\<lambda>path.
     Inr (result, binding, path))))))"

definition check_report :: "json \<Rightarrow> plan_check \<Rightarrow> json" where
  "check_report artifact c = json_object
     [(''pointer'', JStr (ck_pointer c)), (''required'', JBool (ck_required c)),
      (''passed'', JBool (case value_pointer (ck_pointer c) artifact of
                            Some v \<Rightarrow> value_eq v (ck_expected c) | None \<Rightarrow> False))]"

text \<open>After it is read: its digest, its content, and the checks of the policy.\<close>

definition verify_artifact ::
  "run_codec \<Rightarrow> plan_step \<Rightarrow> step_state \<Rightarrow> json \<Rightarrow> json \<Rightarrow> bytes \<Rightarrow> (string, json \<times> json) res" where
  "verify_artifact C s st result binding content =
     (let P = rc_platform C in
      rbind (ensure (json_index (json_index result ''artifact'') ''sha256'' = digest_json P (of_bytes P content))
               ''GM_RUN_ARTIFACT_DIGEST_MISMATCH'') (\<lambda>_.
      rbind (ok_or (rc_parse C content) ''GM_RUN_ARTIFACT_JSON_INVALID'') (\<lambda>artifact.
      rbind (ok_or (json_entries result) ''GM_RUN_RESULT_INVALID'') (\<lambda>entries.
      rbind (ensure (value_eq artifact (JObj (filter (\<lambda>e. fst e \<noteq> ''artifact'') entries))
               \<and> value_eq (json_index artifact ''binding'') binding) ''GM_RUN_ARTIFACT_SWAPPED_OR_STALE'') (\<lambda>_.
      rbind (case ss_artifact st of
               Some stored \<Rightarrow> ensure (value_eq stored artifact) ''GM_RUN_STORED_VERIFICATION_MISMATCH''
             | None \<Rightarrow> Inr ()) (\<lambda>_.
      let checks = map (check_report artifact) (ap_checks (st_policy s)) in
      rbind (ensure (list_all (\<lambda>c. json_index c ''required'' \<noteq> JBool True \<or> json_index c ''passed'' = JBool True) checks)
               ''GM_RUN_REQUIRED_VERIFICATION_FAILED'') (\<lambda>_.
      Inr (artifact, json_object
        [(''status'', JStr ''verified''), (''policySha256'', digest_json P (st_policy_digest s)),
         (''artifactSha256'', digest_json P (of_bytes P content)), (''checks'', JArr checks)]))))))))"

end
