(* ===== verification/Run_Driver.thy ===== *)
theory Run_Driver
  imports Run_State Task_Wire
begin

text \<open>
  Models the run driver of \<open>crates/gaugemesh/src/runs.rs\<close>: \<open>RunDriver::call\<close>, \<open>drive\<close> and
  \<open>submit_step\<close>, with \<open>authorize_plan\<close> and \<open>verify_record\<close>. Between two calls of the clock, the run
  store, the lease store, the file system or the task proxy other drivers run, so an operation is the
  tree of the calls it makes (\<open>act\<close>). The run store and the proxy are modelled in \<open>Run\<close> and
  \<open>Task_Proxy\<close>; the lock that serializes the drives of one process is not modelled, and nothing
  proved here needs it. An error is its displayed text.
\<close>

section \<open>Actions\<close>

datatype 'a act =
    Done 'a
  | Fail string
  | NowMs "u64 option \<Rightarrow> 'a act"
  | FindRun task_caller string "(run_error, run_record option) res \<Rightarrow> 'a act"
  | GetRun task_caller string "(run_error, run_record option) res \<Rightarrow> 'a act"
  | BeginRun task_caller string run_state "(run_error, run_record) res \<Rightarrow> 'a act"
  | AdvanceRun run_record run_state string "(run_error, run_record) res \<Rightarrow> 'a act"
  | GetLease string "(string, capability_lease option) res \<Rightarrow> 'a act"
  | SourceSupported source_id "bool \<Rightarrow> 'a act"
  | OpenRoot string "(string, unit) res \<Rightarrow> 'a act"
  | ReadArtifact string string u64 "(string, bytes) res \<Rightarrow> 'a act"
  | SubmitTask federated_tool "(string \<times> json) list" json "(string, call_tool_response) res \<Rightarrow> 'a act"
  | RecoverTask federated_tool "(string \<times> json) list" json "(string, call_tool_response) res \<Rightarrow> 'a act"
  | CancelRequest string "(string, unit) res \<Rightarrow> 'a act"
  | PollRequest string "(string, json) res \<Rightarrow> 'a act"

primrec abind :: "'a act \<Rightarrow> ('a \<Rightarrow> 'b act) \<Rightarrow> 'b act" where
  "abind (Done x) k = k x"
| "abind (Fail e) k = Fail e"
| "abind (NowMs f) k = NowMs (\<lambda>x. abind (f x) k)"
| "abind (FindRun c i f) k = FindRun c i (\<lambda>x. abind (f x) k)"
| "abind (GetRun c i f) k = GetRun c i (\<lambda>x. abind (f x) k)"
| "abind (BeginRun c i v f) k = BeginRun c i v (\<lambda>x. abind (f x) k)"
| "abind (AdvanceRun r v e f) k = AdvanceRun r v e (\<lambda>x. abind (f x) k)"
| "abind (GetLease i f) k = GetLease i (\<lambda>x. abind (f x) k)"
| "abind (SourceSupported s f) k = SourceSupported s (\<lambda>x. abind (f x) k)"
| "abind (OpenRoot p f) k = OpenRoot p (\<lambda>x. abind (f x) k)"
| "abind (ReadArtifact p q n f) k = ReadArtifact p q n (\<lambda>x. abind (f x) k)"
| "abind (SubmitTask t a s f) k = SubmitTask t a s (\<lambda>x. abind (f x) k)"
| "abind (RecoverTask t a s f) k = RecoverTask t a s (\<lambda>x. abind (f x) k)"
| "abind (CancelRequest i f) k = CancelRequest i (\<lambda>x. abind (f x) k)"
| "abind (PollRequest i f) k = PollRequest i (\<lambda>x. abind (f x) k)"

text \<open>An action whose error the caller handles.\<close>

primrec acatch :: "'a act \<Rightarrow> (string, 'a) res act" where
  "acatch (Done x) = Done (Inr x)"
| "acatch (Fail e) = Done (Inl e)"
| "acatch (NowMs f) = NowMs (\<lambda>x. acatch (f x))"
| "acatch (FindRun c i f) = FindRun c i (\<lambda>x. acatch (f x))"
| "acatch (GetRun c i f) = GetRun c i (\<lambda>x. acatch (f x))"
| "acatch (BeginRun c i v f) = BeginRun c i v (\<lambda>x. acatch (f x))"
| "acatch (AdvanceRun r v e f) = AdvanceRun r v e (\<lambda>x. acatch (f x))"
| "acatch (GetLease i f) = GetLease i (\<lambda>x. acatch (f x))"
| "acatch (SourceSupported s f) = SourceSupported s (\<lambda>x. acatch (f x))"
| "acatch (OpenRoot p f) = OpenRoot p (\<lambda>x. acatch (f x))"
| "acatch (ReadArtifact p q n f) = ReadArtifact p q n (\<lambda>x. acatch (f x))"
| "acatch (SubmitTask t a s f) = SubmitTask t a s (\<lambda>x. acatch (f x))"
| "acatch (RecoverTask t a s f) = RecoverTask t a s (\<lambda>x. acatch (f x))"
| "acatch (CancelRequest i f) = CancelRequest i (\<lambda>x. acatch (f x))"
| "acatch (PollRequest i f) = PollRequest i (\<lambda>x. acatch (f x))"

definition give :: "(string, 'a) res \<Rightarrow> 'a act" where
  "give r = (case r of Inl e \<Rightarrow> Fail e | Inr x \<Rightarrow> Done x)"

lemma give_simps [simp]: "give (Inl e) = Fail e" "give (Inr x) = Done x"
  by (simp_all add: give_def)

definition stored_run :: "(run_error, 'a) res \<Rightarrow> 'a act" where
  "stored_run r = give (map_err run_error_text r)"

text \<open>\<open>for x in xs\<close> over the variables \<open>v\<close>.\<close>

primrec each_in :: "'x list \<Rightarrow> ('v \<Rightarrow> 'x \<Rightarrow> 'v act) \<Rightarrow> 'v \<Rightarrow> 'v act" where
  "each_in [] f v = Done v"
| "each_in (x # xs) f v = abind (f v x) (each_in xs f)"

definition now_ms :: "u64 act" where
  "now_ms = NowMs (\<lambda>t. give (ok_or t ''GM_CLOCK_INVALID''))"

record scoped_identity =
  si_principal :: principal_id
  si_tenant :: tenant_id
  si_scopes :: "string list"

record run_context =
  cx_codec :: run_codec
  cx_federation :: federation
  cx_identity :: scoped_identity
  cx_debug :: "(string, call_tool_response) res \<Rightarrow> string"

abbreviation cx_platform :: "run_context \<Rightarrow> platform" where
  "cx_platform X \<equiv> rc_platform (cx_codec X)"

definition tool_of :: "run_context \<Rightarrow> string \<Rightarrow> (string, federated_tool) res" where
  "tool_of X a = map_err (\<lambda>_. ''GM_CAPABILITY_NOT_FOUND'') (fed_tool a (cx_federation X))"

section \<open>Authority\<close>

definition identity_authorizes_effect :: "scoped_identity \<Rightarrow> side_effect_class \<Rightarrow> bool" where
  "identity_authorizes_effect i e \<longleftrightarrow>
     si_principal i = ''local-demo'' \<and> si_tenant i = ''local''
     \<or> (case e of
          ReadOnly \<Rightarrow> True
        | IdempotentWrite \<Rightarrow> ''gaugemesh:effect:idempotent-write'' \<in> set (si_scopes i)
        | NonIdempotentWrite \<Rightarrow> ''gaugemesh:effect:non-idempotent-write'' \<in> set (si_scopes i))"

definition authorize_current_invocation ::
  "platform \<Rightarrow> capability_lease \<Rightarrow> scoped_identity \<Rightarrow> capability_id \<Rightarrow> side_effect_class \<Rightarrow> u64 \<Rightarrow> (string, unit) res" where
  "authorize_current_invocation P l i c e now =
     rbind (map_err lease_error_code (authorize_invocation P l (si_principal i) (si_tenant i) c e now)) (\<lambda>_.
     ensure (identity_authorizes_effect i e) ''GM_LEASE_SIDE_EFFECT_SCOPE_REQUIRED'')"

text \<open>The value an argument will have: a literal, or the one required check of the predecessor.\<close>

definition sample_argument :: "run_plan \<Rightarrow> plan_input \<Rightarrow> (string, json) res" where
  "sample_argument p i =
     (case i of
        Literal v \<Rightarrow> Inr v
      | Predecessor source pointer \<Rightarrow>
          rbind (ok_or (find (\<lambda>s. st_id s = source) (pl_steps p)) ''GM_RUN_REFERENCE_INVALID'') (\<lambda>predecessor.
          case filter (\<lambda>c. ck_required c \<and> ck_pointer c = pointer) (ap_checks (st_policy predecessor)) of
            [c] \<Rightarrow> Inr (ck_expected c)
          | _ \<Rightarrow> Inl ''GM_RUN_REFERENCE_REQUIRES_EXACT_REQUIRED_CHECK''))"

definition authorize_step :: "run_context \<Rightarrow> run_plan \<Rightarrow> capability_lease \<Rightarrow> plan_step \<Rightarrow> unit act" where
  "authorize_step X p lease s =
     (let P = cx_platform X in
      abind (give (tool_of X (st_alias s))) (\<lambda>tool.
      abind (give (ensure (capability_digest P (ft_identity tool) = st_capability s
               \<and> digest_to_string P (cap_schema_digest (ft_identity tool)) = st_provider s)
               ''GM_RUN_PROVIDER_BINDING_CHANGED'')) (\<lambda>_.
      SourceSupported (cap_source (ft_identity tool)) (\<lambda>supported.
      abind (give (ensure supported ''GM_RUN_PROVIDER_BINDING_CHANGED'')) (\<lambda>_.
      abind (give (try_map (\<lambda>(name, i). rbind (sample_argument p i) (\<lambda>v. Inr (name, v))) (st_arguments s))) (\<lambda>sample.
      abind (give (ensure (length (json_to_vec P (JObj sample)) \<le> 8192) ''GM_RUN_RESOLVED_INPUT_BOUND'')) (\<lambda>_.
      abind (give (validate_input (ft_input_schema tool) (JObj sample) 0)) (\<lambda>_.
      abind now_ms (\<lambda>now.
      give (authorize_current_invocation P lease (cx_identity X) (ft_identity tool) (st_effect s) now))))))))))"

definition argument_str :: "(string \<times> json) list \<Rightarrow> string \<Rightarrow> string option" where
  "argument_str args k = Option.bind (map_of args k) json_str"

definition authorize_plan :: "run_context \<Rightarrow> run_plan \<Rightarrow> (string \<times> json) list \<Rightarrow> unit act" where
  "authorize_plan X p args =
     abind (give (ok_or (argument_str args ''leaseId'') ''GM_RUN_LEASE_REQUIRED'')) (\<lambda>i.
     GetLease i (\<lambda>found. abind (give found) (\<lambda>found.
     abind (give (ok_or found ''GM_RUN_LEASE_REVOKED_OR_UNKNOWN'')) (\<lambda>lease.
     each_in (pl_steps p) (\<lambda>_ s. authorize_step X p lease s) ()))))"

section \<open>Verification\<close>

definition verify_step ::
  "run_context \<Rightarrow> string \<Rightarrow> run_plan \<Rightarrow> plan_step \<Rightarrow> step_state \<Rightarrow> (json \<times> json) act" where
  "verify_step X run_id p s st =
     abind (give (verify_binding (cx_platform X) run_id p s st)) (\<lambda>(result, binding, path).
     ReadArtifact (pl_root p) path (st_max_artifact s) (\<lambda>content.
     give (rbind content (verify_artifact (cx_codec X) s st result binding))))"

definition verify_record :: "run_context \<Rightarrow> run_record \<Rightarrow> json act" where
  "verify_record X r =
     abind (give (state_from (cx_codec X) r)) (\<lambda>\<sigma>.
     abind (each_in (pl_steps (rs_plan \<sigma>)) (\<lambda>n s.
              if ss_phase (step_at \<sigma> (st_id s)) = Verified
              then abind (verify_step X (rn_id r) (rs_plan \<sigma>) s (step_at \<sigma> (st_id s))) (\<lambda>_. Done (n + 1))
              else Done n) (0 :: nat)) (\<lambda>verified.
     let total = length (pl_steps (rs_plan \<sigma>)) in
     Done (json_object
       [(''schemaVersion'', JStr ''gaugemesh.run-verification/1''), (''runId'', JStr (rn_id r)),
        (''integrity'', JStr ''verified''), (''verifiedSteps'', usize_json verified),
        (''totalSteps'', usize_json total), (''complete'', JBool (verified = total)),
        (''executionPerformed'', JBool False),
        (''authenticity'', JStr ''integrity hashes are not signatures; a trusted original export is required'')])))"

section \<open>Driving a run\<close>

record drive_vars =
  dv_record :: run_record
  dv_state :: run_state

definition set_step :: "string \<Rightarrow> step_state \<Rightarrow> run_state \<Rightarrow> run_state" where
  "set_step i s \<sigma> = \<sigma>\<lparr>rs_steps := fmupd i s (rs_steps \<sigma>)\<rparr>"

abbreviation put_step :: "string \<Rightarrow> step_state \<Rightarrow> drive_vars \<Rightarrow> drive_vars" where
  "put_step i s v \<equiv> v\<lparr>dv_state := set_step i s (dv_state v)\<rparr>"

definition save :: "drive_vars \<Rightarrow> string \<Rightarrow> drive_vars act" where
  "save v event = AdvanceRun (dv_record v) (dv_state v) event (\<lambda>res.
     abind (stored_run res) (\<lambda>r. Done (v\<lparr>dv_record := r\<rparr>)))"

definition reconciliation_meta :: "meta_object option \<Rightarrow> bool" where
  "reconciliation_meta m \<longleftrightarrow>
     (case Option.bind m (\<lambda>m. map_of m ''dev.gaugemesh/taskRoute'') of
        Some r \<Rightarrow> json_index r ''reconciliationRequired'' = JBool True | None \<Rightarrow> False)"

definition submitted_step :: "run_context \<Rightarrow> (string, call_tool_response) res \<Rightarrow> step_state \<Rightarrow> step_state" where
  "submitted_step X response s =
     (case response of
        Inr (TaskCreated task meta) \<Rightarrow>
          s\<lparr>ss_task_id := Some (tk_id task),
            ss_phase := if reconciliation_meta meta then Unknown else StepRouted\<rparr>
      | other \<Rightarrow> s\<lparr>ss_phase := Unknown,
                    ss_diagnostic := Some (''GM_RUN_SUBMISSION_UNCERTAIN:'' @ cx_debug X other)\<rparr>)"

definition submit_step :: "run_context \<Rightarrow> drive_vars \<Rightarrow> plan_step \<Rightarrow> drive_vars act" where
  "submit_step X v s =
     (let \<sigma> = dv_state v; st = step_at \<sigma> (st_id s);
          answered = (\<lambda>response. save (put_step (st_id s) (submitted_step X response st) v) ''task_identity_observed'') in
      abind (give (tool_of X (st_alias s))) (\<lambda>tool.
      abind (give (ok_or (ss_arguments st) ''GM_RUN_STATE_INVALID'')) (\<lambda>arguments.
      abind (give (ok_or (ss_submission st) ''GM_RUN_STATE_INVALID'')) (\<lambda>submission.
      if stopping \<sigma> then RecoverTask tool arguments submission answered
      else SubmitTask tool arguments submission answered))))"

text \<open>Reverify accepted artifacts.\<close>

definition reverify :: "run_context \<Rightarrow> drive_vars \<Rightarrow> plan_step \<Rightarrow> drive_vars act" where
  "reverify X v s =
     (let \<sigma> = dv_state v; st = step_at \<sigma> (st_id s) in
      if ss_phase st = Verified then
        abind (acatch (verify_step X (rn_id (dv_record v)) (rs_plan \<sigma>) s st)) (\<lambda>res.
          case res of
            Inr _ \<Rightarrow> Done v
          | Inl e \<Rightarrow> save (put_step (st_id s)
                       (st\<lparr>ss_phase := StepFailed, ss_diagnostic := Some (''GM_RUN_PREDECESSOR_INVALID:'' @ e)\<rparr>) v)
                       ''artifact_reverification_failed'')
      else Done v)"

definition recover_step :: "run_context \<Rightarrow> drive_vars \<Rightarrow> plan_step \<Rightarrow> drive_vars act" where
  "recover_step X v s =
     (if ss_phase (step_at (dv_state v) (st_id s)) = Submitting then submit_step X v s else Done v)"

text \<open>The cancellation of one routed step: intent saved first, the answer saved if it says something new.\<close>

definition send_cancel :: "run_context \<Rightarrow> plan_step \<Rightarrow> string \<Rightarrow> drive_vars \<Rightarrow> drive_vars act" where
  "send_cancel X s task_id v = CancelRequest task_id (\<lambda>answer.
     let st = step_at (dv_state v) (st_id s);
         answered = st\<lparr>ss_request_sent := True, ss_acknowledged := (case answer of Inr _ \<Rightarrow> True | Inl _ \<Rightarrow> False),
                       ss_diagnostic := (case answer of Inl e \<Rightarrow> Some e | Inr _ \<Rightarrow> ss_diagnostic st)\<rparr>;
         v = put_step (st_id s) answered v in
     if of_json (cx_platform X) (step_state_json answered) \<noteq> of_json (cx_platform X) (step_state_json st)
     then save v ''task_cancellation_response'' else Done v)"

definition cancel_step :: "run_context \<Rightarrow> drive_vars \<Rightarrow> plan_step \<Rightarrow> string \<Rightarrow> drive_vars act" where
  "cancel_step X v s task_id =
     (let st = step_at (dv_state v) (st_id s) in
      if (rs_cancel (dv_state v) \<or> rs_deadline_seen (dv_state v)) \<and> \<not> ss_acknowledged st then
        abind (if \<not> ss_intent st
               then save (put_step (st_id s) (st\<lparr>ss_intent := True\<rparr>) v) ''task_cancellation_intent''
               else Done v) (send_cancel X s task_id)
      else Done v)"

text \<open>The outcome of one poll; \<open>None\<close> where the loop continues without saving.\<close>

definition poll_outcome ::
  "run_context \<Rightarrow> drive_vars \<Rightarrow> plan_step \<Rightarrow> (string, json) res \<Rightarrow> step_state option act" where
  "poll_outcome X v s answer =
     (let st = step_at (dv_state v) (st_id s) in
      case answer of
        Inl e \<Rightarrow>
          if ss_phase st = Unknown \<and> ss_diagnostic st = Some e then Done None
          else Done (Some (st\<lparr>ss_phase := Unknown, ss_diagnostic := Some e\<rparr>))
      | Inr value \<Rightarrow>
          if json_index (json_index (json_index value ''_meta'') ''dev.gaugemesh/taskRoute'') ''routePhase''
             = JStr ''reconciliation_required'' then
            if ss_phase st = Unknown \<and> (case ss_terminal st of Some t \<Rightarrow> value_eq t value | None \<Rightarrow> False)
            then Done None
            else Done (Some (st\<lparr>ss_phase := Unknown, ss_terminal := Some value,
                                ss_diagnostic := Some ''GM_RUN_TASK_RECONCILIATION_REQUIRED''\<rparr>))
          else if json_index value ''status'' = JStr ''completed'' then
            let st = st\<lparr>ss_terminal := Some value\<rparr> in
            abind (acatch (verify_step X (rn_id (dv_record v)) (rs_plan (dv_state v)) s st)) (\<lambda>res.
              case res of
                Inr (artifact, report) \<Rightarrow>
                  Done (Some (st\<lparr>ss_phase := Verified, ss_artifact := Some artifact, ss_verification := Some report\<rparr>))
              | Inl e \<Rightarrow> Done (Some (st\<lparr>ss_phase := StepFailed, ss_diagnostic := Some e\<rparr>)))
          else if json_index value ''status'' = JStr ''failed''
          then Done (Some (st\<lparr>ss_phase := StepFailed, ss_terminal := Some value\<rparr>))
          else if json_index value ''status'' = JStr ''cancelled''
          then Done (Some (st\<lparr>ss_phase := Cancelled, ss_terminal := Some value\<rparr>))
          else Done None)"

text \<open>The loop over the routed steps; the flag is \<open>outcome_observed\<close>.\<close>

definition poll_step :: "run_context \<Rightarrow> drive_vars \<times> bool \<Rightarrow> plan_step \<Rightarrow> (drive_vars \<times> bool) act" where
  "poll_step X vo s =
     (let (v, observed) = vo; st = step_at (dv_state v) (st_id s) in
      case ss_task_id st of
        None \<Rightarrow> Done (v, observed)
      | Some task_id \<Rightarrow>
          if ss_phase st \<notin> {StepRouted, Unknown} then Done (v, observed)
          else
            abind (cancel_step X v s task_id) (\<lambda>v.
            PollRequest task_id (\<lambda>answer.
            abind (poll_outcome X v s answer) (\<lambda>outcome.
            case outcome of
              None \<Rightarrow> Done (v, observed)
            | Some st \<Rightarrow> abind (save (put_step (st_id s) st v) ''task_outcome_observed'') (\<lambda>v. Done (v, True))))))"

definition skip_pending :: "run_state \<Rightarrow> run_state" where
  "skip_pending \<sigma> = \<sigma>\<lparr>rs_steps := fmmap (\<lambda>s. if ss_phase s = Pending then s\<lparr>ss_phase := Skipped\<rparr> else s) (rs_steps \<sigma>)\<rparr>"

definition step_submission :: "platform \<Rightarrow> string \<Rightarrow> run_plan \<Rightarrow> plan_step \<Rightarrow> (string \<times> json) list \<Rightarrow> u64 \<Rightarrow> json" where
  "step_submission P run_id p s arguments now =
     (let key = attempt_key P run_id s in json_object
      [(''schemaVersion'', JStr ''gaugemesh.task-submission/1''),
       (''logicalTaskId'', JStr (run_id @ ''/'' @ st_id s)), (''attemptId'', JStr key),
       (''correlationId'', JStr run_id), (''idempotencyKey'', JStr key),
       (''inputSha256'', digest_json P (of_json P (JObj arguments))),
       (''acceptancePolicySha256'', digest_json P (st_policy_digest s)),
       (''artifactScopeSha256'', digest_json P (scope_digest P run_id p)),
       (''providerInterfaceVersion'', JStr (st_provider s)),
       (''deadlineUnixMs'', u64_json (min (pl_deadline p) (saturating_add now (st_max_runtime s)))),
       (''retentionMs'', JNum (PosInt 3600000)),
       (''limits'', json_object
          [(''maxRuntimeMs'', u64_json (st_max_runtime s)), (''maxOutputBytes'', JNum (PosInt 32768)),
           (''maxArtifactBytes'', u64_json (st_max_artifact s)), (''maxAttempts'', JNum (PosInt 1))]),
       (''permittedEffect'', JStr (side_effect_name (st_effect s))), (''cleanupRequired'', JBool True)])"

definition active_count :: "run_state \<Rightarrow> nat" where
  "active_count \<sigma> = length (filter phase_active (phases \<sigma>))"

definition ready :: "run_state \<Rightarrow> plan_step \<Rightarrow> bool" where
  "ready \<sigma> s \<longleftrightarrow> ss_phase (step_at \<sigma> (st_id s)) = Pending
     \<and> list_all (\<lambda>i. ss_phase (step_at \<sigma> i) = Verified) (st_depends s)"

text \<open>One dispatch, and the loop, which breaks at the concurrency bound and after a blocking answer.\<close>

definition dispatch_step ::
  "run_context \<Rightarrow> (string \<times> json) list \<Rightarrow> drive_vars \<Rightarrow> plan_step \<Rightarrow> drive_vars act" where
  "dispatch_step X args v s =
     (let P = cx_platform X; \<sigma> = dv_state v; run_id = rn_id (dv_record v) in
      abind (authorize_plan X (rs_plan \<sigma>) args) (\<lambda>_.
      abind (give (resolve_inputs s \<sigma>)) (\<lambda>arguments.
      abind (give (tool_of X (st_alias s))) (\<lambda>tool.
      abind (give (validate_input (ft_input_schema tool) (JObj arguments) 0)) (\<lambda>_.
      abind (give (ensure (length (json_to_vec P (JObj arguments)) \<le> 8192) ''GM_RUN_RESOLVED_INPUT_BOUND'')) (\<lambda>_.
      abind now_ms (\<lambda>now.
      let st = (step_at \<sigma> (st_id s))\<lparr>ss_phase := Submitting, ss_arguments := Some arguments,
                 ss_submission := Some (step_submission P run_id (rs_plan \<sigma>) s arguments now)\<rparr> in
      abind (save (put_step (st_id s) st v) ''task_submission_intent'') (\<lambda>v. submit_step X v s))))))))"

primrec dispatch_loop ::
  "plan_step list \<Rightarrow> run_context \<Rightarrow> (string \<times> json) list \<Rightarrow> drive_vars \<Rightarrow> drive_vars act" where
  "dispatch_loop [] X args v = Done v"
| "dispatch_loop (s # ss) X args v =
     (if active_count (dv_state v) \<ge> pl_concurrency (rs_plan (dv_state v)) then Done v
      else if \<not> ready (dv_state v) s then dispatch_loop ss X args v
      else abind (dispatch_step X args v s) (\<lambda>v.
           if list_ex phase_blocks (phases (dv_state v)) then Done v else dispatch_loop ss X args v))"

definition observe_deadline :: "drive_vars \<Rightarrow> drive_vars act" where
  "observe_deadline v = abind now_ms (\<lambda>now.
     if now \<ge> pl_deadline (rs_plan (dv_state v)) \<and> \<not> rs_deadline_seen (dv_state v)
     then save (v\<lparr>dv_state := (dv_state v)\<lparr>rs_deadline_seen := True\<rparr>\<rparr>) ''deadline_observed''
     else Done v)"

text \<open>After the polls: skip what will not be sent, or leave the outcomes observable, or dispatch.\<close>

definition finish_drive :: "run_context \<Rightarrow> (string \<times> json) list \<Rightarrow> drive_vars \<Rightarrow> bool \<Rightarrow> drive_vars act" where
  "finish_drive X args v observed =
     (if stopping (dv_state v) then
        if list_ex ((=) Pending) (phases (dv_state v))
        then save (v\<lparr>dv_state := skip_pending (dv_state v)\<rparr>) ''unsent_steps_skipped''
        else Done v
      else if observed then Done v
      else dispatch_loop (pl_steps (rs_plan (dv_state v))) X args v)"

definition drive_state :: "run_context \<Rightarrow> (string \<times> json) list \<Rightarrow> drive_vars \<Rightarrow> drive_vars act" where
  "drive_state X args v =
     (let steps = pl_steps (rs_plan (dv_state v)) in
      abind (if \<not> rs_cancel (dv_state v) then authorize_plan X (rs_plan (dv_state v)) args else Done ()) (\<lambda>_.
      abind (observe_deadline v) (\<lambda>v.
      abind (each_in steps (reverify X) v) (\<lambda>v.
      abind (each_in steps (recover_step X) v) (\<lambda>v.
      abind (each_in steps (poll_step X) (v, False)) (\<lambda>(v, observed).
      finish_drive X args v observed))))))"

definition drive :: "run_context \<Rightarrow> (string \<times> json) list \<Rightarrow> run_record \<Rightarrow> json act" where
  "drive X args r =
     abind (give (state_from (cx_codec X) r)) (\<lambda>\<sigma>.
     abind (drive_state X args \<lparr>dv_record = r, dv_state = \<sigma>\<rparr>) (\<lambda>v.
     give (summary (cx_codec X) (dv_record v))))"

section \<open>The operations of the driver\<close>

definition run_record_json :: "platform \<Rightarrow> run_record \<Rightarrow> json" where
  "run_record_json P r = json_object
     [(''schemaVersion'', JStr (rn_schema r)), (''runId'', JStr (rn_id r)), (''caller'', caller_json (rn_caller r)),
      (''runKey'', JStr (rn_key r)), (''planSha256'', digest_json P (rn_plan_digest r)),
      (''version'', u64_json (rn_version r)), (''data'', rn_data r), (''journal'', JArr (map (event_json P) (rn_journal r)))]"

definition initial_state :: "run_plan \<Rightarrow> u64 \<Rightarrow> run_state" where
  "initial_state p accepted_at =
     \<lparr>rs_plan = p, rs_accepted_at = accepted_at, rs_cancel = False, rs_deadline_seen = False,
      rs_steps = fmap_of_list (map (\<lambda>s. (st_id s, step_state_default)) (pl_steps p))\<rparr>"

text \<open>A retried submission is checked against the time at which the retained run was accepted.\<close>

definition accept_run ::
  "run_context \<Rightarrow> task_caller \<Rightarrow> (string \<times> json) list \<Rightarrow> run_plan \<Rightarrow> u64 \<Rightarrow> run_record option \<Rightarrow> json act" where
  "accept_run X caller args p accepted_at existing =
     (let validation_time = (case Option.bind existing (\<lambda>r. json_u64 (json_index (rn_data r) ''acceptedAtUnixMs'')) of
            Some t \<Rightarrow> t | None \<Rightarrow> accepted_at) in
      abind (give (plan_validate (cx_platform X) p validation_time)) (\<lambda>_.
      OpenRoot (pl_root p) (\<lambda>res. abind (give res) (\<lambda>_.
      abind (authorize_plan X p args) (\<lambda>_.
      BeginRun caller (pl_key p) (initial_state p accepted_at) (\<lambda>res. abind (stored_run res) (\<lambda>r.
      give (summary (cx_codec X) r))))))))"

definition submit_run :: "run_context \<Rightarrow> task_caller \<Rightarrow> (string \<times> json) list \<Rightarrow> json act" where
  "submit_run X caller args =
     (let C = cx_codec X in
      abind (give (ok_or (map_of args ''plan'') ''GM_RUN_PLAN_REQUIRED'')) (\<lambda>value.
      abind (give (ensure (length (json_to_vec (rc_platform C) value) \<le> 256 * 1024) ''GM_RUN_PLAN_BOUND'')) (\<lambda>_.
      abind (give (ok_or (rc_plan C value) ''GM_RUN_PLAN_INVALID'')) (\<lambda>p.
      abind now_ms (\<lambda>accepted_at.
      FindRun caller (pl_key p) (\<lambda>res. abind (stored_run res) (accept_run X caller args p accepted_at)))))))"

definition found_run :: "task_caller \<Rightarrow> string \<Rightarrow> (run_record \<Rightarrow> 'a act) \<Rightarrow> 'a act" where
  "found_run caller i k = GetRun caller i (\<lambda>res. abind (stored_run res) (\<lambda>found.
     abind (give (ok_or found ''GM_RUN_NOT_FOUND'')) k))"

definition cancel_run :: "run_context \<Rightarrow> run_record \<Rightarrow> json act" where
  "cancel_run X r =
     abind (give (state_from (cx_codec X) r)) (\<lambda>\<sigma>.
     abind (if \<not> rs_cancel \<sigma>
            then abind (save \<lparr>dv_record = r, dv_state = \<sigma>\<lparr>rs_cancel := True\<rparr>\<rparr> ''cancellation_intent'') (\<lambda>v. Done (dv_record v))
            else Done r) (\<lambda>r.
     give (summary (cx_codec X) r)))"

text \<open>\<open>RunDriver::call\<close>; \<open>resume\<close> reads the record again under the lock.\<close>

definition run_action :: "run_context \<Rightarrow> (string \<times> json) list \<Rightarrow> task_caller \<Rightarrow> string \<Rightarrow> json act" where
  "run_action X args caller action =
     abind (give (ok_or (argument_str args ''runId'') ''GM_RUN_ID_REQUIRED'')) (\<lambda>i.
     abind (give (ensure (length i \<le> 128) ''GM_RUN_ID_INVALID'')) (\<lambda>_.
     found_run caller i (\<lambda>r.
       if action = ''status'' then give (summary (cx_codec X) r)
       else if action = ''export'' then Done (run_record_json (cx_platform X) r)
       else if action = ''verify'' then verify_record X r
       else if action = ''cancel'' then cancel_run X r
       else if action = ''resume'' then found_run caller i (drive X args)
       else Fail ''GM_RUN_ACTION_UNSUPPORTED'')))"

text \<open>For the one identity that is served, \<open>TaskRouteCaller::new\<close> cannot fail.\<close>

definition run_call :: "run_context \<Rightarrow> (string \<times> json) list \<Rightarrow> json act" where
  "run_call X args =
     (let identity = cx_identity X in
      abind (give (ensure (si_principal identity = ''local-demo'' \<and> si_tenant identity = ''local'')
               ''GM_RUN_REMOTE_NOT_QUALIFIED'')) (\<lambda>_.
      abind (give (map_err (\<lambda>_. ''GM_TASK_ROUTE_INVALID'') (task_caller_new (si_principal identity) (si_tenant identity)))) (\<lambda>caller.
      abind (give (ok_or (argument_str args ''action'') ''GM_RUN_ACTION_REQUIRED'')) (\<lambda>action.
      if action = ''submit'' then submit_run X caller args else run_action X args caller action))))"

end
