(* ===== verification/Run_Order.thy ===== *)
theory Run_Order
  imports Run_Driver
begin

text \<open>
  What the driver keeps of the state of a run: it can be loaded again, no step has been sent before
  its dependencies were verified, and no more steps are active than the plan allows (\<open>good\<close>); and
  the preservation of this by every change that the driver makes to one step.
\<close>

section \<open>Good states\<close>

definition unsent :: "run_phase \<Rightarrow> bool" where
  "unsent p \<longleftrightarrow> p \<in> {Pending, Skipped}"

definition settled :: "run_phase \<Rightarrow> bool" where
  "settled p \<longleftrightarrow> p \<in> {Verified, StepFailed}"

abbreviation phase_at :: "run_state \<Rightarrow> string \<Rightarrow> run_phase" where
  "phase_at \<sigma> i \<equiv> ss_phase (step_at \<sigma> i)"

text \<open>A step that was sent depends on verified steps, which may have failed a later verification.\<close>

definition ordered_steps :: "run_state \<Rightarrow> bool" where
  "ordered_steps \<sigma> \<longleftrightarrow> (\<forall>s \<in> set (pl_steps (rs_plan \<sigma>)).
     \<not> unsent (phase_at \<sigma> (st_id s)) \<longrightarrow> (\<forall>i \<in> set (st_depends s). settled (phase_at \<sigma> i)))"

definition good :: "platform \<Rightarrow> run_state \<Rightarrow> bool" where
  "good P \<sigma> \<longleftrightarrow> state_checks P \<sigma> = Inr () \<and> ordered_steps \<sigma> \<and> active_count \<sigma> \<le> pl_concurrency (rs_plan \<sigma>)"

text \<open>States that differ in nothing but the answers to cancellations and in diagnostics.\<close>

definition same_step :: "step_state \<Rightarrow> step_state \<Rightarrow> bool" where
  "same_step a b \<longleftrightarrow> ss_phase a = ss_phase b \<and> ss_arguments a = ss_arguments b \<and> ss_submission a = ss_submission b
     \<and> ss_task_id a = ss_task_id b \<and> ss_terminal a = ss_terminal b \<and> ss_artifact a = ss_artifact b
     \<and> ss_verification a = ss_verification b \<and> ss_intent a = ss_intent b"

definition agree :: "run_state \<Rightarrow> run_state \<Rightarrow> bool" where
  "agree \<sigma> \<tau> \<longleftrightarrow> rs_plan \<sigma> = rs_plan \<tau> \<and> rs_accepted_at \<sigma> = rs_accepted_at \<tau> \<and> rs_cancel \<sigma> = rs_cancel \<tau>
     \<and> rs_deadline_seen \<sigma> = rs_deadline_seen \<tau> \<and> fmdom (rs_steps \<sigma>) = fmdom (rs_steps \<tau>)
     \<and> (\<forall>i. same_step (step_at \<sigma> i) (step_at \<tau> i))"

lemma agree_refl [simp]: "agree \<sigma> \<sigma>"
  by (simp add: agree_def same_step_def)

section \<open>Updating one step\<close>

lemma step_at_set [simp]: "step_at (set_step i s \<sigma>) j = (if j = i then s else step_at \<sigma> j)"
  by (simp add: step_at_def set_step_def)

lemma set_step_fields [simp]:
  "rs_plan (set_step i s \<sigma>) = rs_plan \<sigma>" "rs_accepted_at (set_step i s \<sigma>) = rs_accepted_at \<sigma>"
  "rs_cancel (set_step i s \<sigma>) = rs_cancel \<sigma>" "rs_deadline_seen (set_step i s \<sigma>) = rs_deadline_seen \<sigma>"
  "fmdom (rs_steps (set_step i s \<sigma>)) = finsert i (fmdom (rs_steps \<sigma>))"
  by (simp_all add: set_step_def)

lemma active_count_card:
  "active_count \<sigma> = card {i \<in> fset (fmdom (rs_steps \<sigma>)). phase_active (phase_at \<sigma> i)}"
proof -
  let ?l = "filter (\<lambda>i. phase_active (phase_at \<sigma> i)) (sorted_list_of_fset (fmdom (rs_steps \<sigma>)))"
  have "distinct ?l" by (simp add: sorted_list_of_fset.rep_eq)
  moreover have "active_count \<sigma> = length ?l"
    by (simp add: active_count_def phases_def filter_map comp_def)
  moreover have "set ?l = {i \<in> fset (fmdom (rs_steps \<sigma>)). phase_active (phase_at \<sigma> i)}"
    by (auto simp: sorted_list_of_fset.rep_eq)
  ultimately show ?thesis by (metis distinct_card)
qed

lemma active_set_step:
  assumes "i |\<in>| fmdom (rs_steps \<sigma>)"
  shows "active_count (set_step i s \<sigma>) \<le> active_count \<sigma> + 1"
    and "\<lbrakk>phase_active (ss_phase s) \<Longrightarrow> phase_active (phase_at \<sigma> i)\<rbrakk> \<Longrightarrow> active_count (set_step i s \<sigma>) \<le> active_count \<sigma>"
proof -
  let ?A = "{j \<in> fset (fmdom (rs_steps \<sigma>)). phase_active (phase_at \<sigma> j)}"
  let ?B = "{j \<in> fset (finsert i (fmdom (rs_steps \<sigma>))). phase_active (phase_at (set_step i s \<sigma>) j)}"
  have "?B \<subseteq> insert i ?A" using assms by auto
  then have "card ?B \<le> card (insert i ?A)" by (intro card_mono) auto
  also have "\<dots> \<le> card ?A + 1" by (simp add: card_insert_if)
  finally show "active_count (set_step i s \<sigma>) \<le> active_count \<sigma> + 1"
    unfolding active_count_card set_step_fields .
  assume "phase_active (ss_phase s) \<Longrightarrow> phase_active (phase_at \<sigma> i)"
  then have "?B \<subseteq> ?A" using assms by auto
  then show "active_count (set_step i s \<sigma>) \<le> active_count \<sigma>"
    unfolding active_count_card set_step_fields by (intro card_mono) auto
qed

lemma resolve_cong:
  assumes "step_valid P p s = Inr ()" "\<And>i. i \<in> set (st_depends s) \<Longrightarrow> ss_artifact (step_at \<sigma> i) = ss_artifact (step_at \<tau> i)"
  shows "resolve_inputs s \<sigma> = resolve_inputs s \<tau>"
proof -
  have "resolve_input \<sigma> i = resolve_input \<tau> i" if "i \<in> snd ` set (st_arguments s)" for i
  proof (cases i)
    case (Predecessor source pointer)
    then have "source \<in> set (st_depends s)"
      using assms(1) that by (fastforce simp: step_valid_def guard_simps Let_def input_reference_def)
    with Predecessor assms(2) show ?thesis by (simp add: resolve_input_def)
  qed (simp add: resolve_input_def)
  then show ?thesis
    unfolding resolve_inputs_def by (intro try_map_cong) (auto simp: split_def)
qed

section \<open>What loading checks, per step\<close>

lemma good_plan:
  assumes "good P \<sigma>" "s \<in> set (pl_steps (rs_plan \<sigma>))"
  shows "step_valid P (rs_plan \<sigma>) s = Inr ()" "well_named (pl_steps (rs_plan \<sigma>))"
    "st_id s |\<in>| fmdom (rs_steps \<sigma>)" "step_loads \<sigma> s = Inr ()" "st_id s \<notin> set (st_depends s)"
proof -
  have checks: "plan_validate P (rs_plan \<sigma>) (rs_accepted_at \<sigma>) = Inr ()" "step_loads \<sigma> s = Inr ()"
    "st_id s |\<in>| fmdom (rs_steps \<sigma>)"
    using assms by (auto simp: good_def state_checks_def guard_simps list_all_iff)
  then show "step_loads \<sigma> s = Inr ()" "st_id s |\<in>| fmdom (rs_steps \<sigma>)" by auto
  show "step_valid P (rs_plan \<sigma>) s = Inr ()" "well_named (pl_steps (rs_plan \<sigma>))"
    using validated_plan [OF checks(1)] assms(2) by blast+
  then show "st_id s \<notin> set (st_depends s)" using step_valid_depends by blast
qed

text \<open>The part of the checks that concerns the stored step alone.\<close>

definition sent_ok :: "(string \<times> json) list option \<Rightarrow> json option \<Rightarrow> (string \<times> json) list option \<Rightarrow> bool" where
  "sent_ok stored submission resolved \<longleftrightarrow>
     (case resolved of Some a \<Rightarrow> same_arguments stored a | None \<Rightarrow> False) \<and> submission \<noteq> None"

definition stored_ok :: "step_state \<Rightarrow> (string \<times> json) list option \<Rightarrow> bool" where
  "stored_ok st resolved \<longleftrightarrow>
     (if unsent (ss_phase st)
      then ss_arguments st = None \<and> ss_submission st = None \<and> ss_task_id st = None
           \<and> ss_terminal st = None \<and> ss_artifact st = None \<and> ss_verification st = None
      else sent_ok (ss_arguments st) (ss_submission st) resolved
           \<and> (ss_phase st \<in> {StepRouted, Verified, Cancelled} \<longrightarrow> ss_task_id st \<noteq> None)
           \<and> (ss_phase st = Verified \<longrightarrow> ss_terminal st \<noteq> None \<and> ss_artifact st \<noteq> None
               \<and> (case ss_verification st of
                    Some v \<Rightarrow> json_index v ''status'' = JStr ''verified'' | None \<Rightarrow> False)))"

definition resolved :: "run_state \<Rightarrow> plan_step \<Rightarrow> (string \<times> json) list option" where
  "resolved \<sigma> s = (case resolve_inputs s \<sigma> of Inr a \<Rightarrow> Some a | Inl _ \<Rightarrow> None)"

lemma step_loads_iff: "step_loads \<sigma> s = Inr () \<longleftrightarrow> stored_ok (step_at \<sigma> (st_id s)) (resolved \<sigma> s)"
  by (cases "resolve_inputs s \<sigma>")
     (auto simp: step_loads_def stored_ok_def sent_ok_def resolved_def unsent_def Let_def guard_simps)

lemma stored_ok_same: "same_step a b \<Longrightarrow> stored_ok a r \<longleftrightarrow> stored_ok b r"
  by (auto simp: same_step_def stored_ok_def split: option.split)

lemma stored_ok_flags [simp]:
  "stored_ok (st\<lparr>ss_intent := b\<rparr>) r = stored_ok st r" "stored_ok (st\<lparr>ss_request_sent := b\<rparr>) r = stored_ok st r"
  "stored_ok (st\<lparr>ss_acknowledged := b\<rparr>) r = stored_ok st r" "stored_ok (st\<lparr>ss_diagnostic := d\<rparr>) r = stored_ok st r"
  by (auto simp: stored_ok_def split: option.split)

lemma stored_ok_unsent: "\<lbrakk>stored_ok st r; unsent (ss_phase st)\<rbrakk> \<Longrightarrow> stored_ok st r'"
  by (simp add: stored_ok_def)

section \<open>Preservation\<close>

lemma state_checks_iff:
  "state_checks P \<sigma> = Inr () \<longleftrightarrow> plan_validate P (rs_plan \<sigma>) (rs_accepted_at \<sigma>) = Inr ()
     \<and> fcard (fmdom (rs_steps \<sigma>)) = length (pl_steps (rs_plan \<sigma>))
     \<and> (\<forall>s \<in> set (pl_steps (rs_plan \<sigma>)). st_id s |\<in>| fmdom (rs_steps \<sigma>)
          \<and> stored_ok (step_at \<sigma> (st_id s)) (resolved \<sigma> s))"
  by (auto simp: state_checks_def guard_simps step_loads_iff list_all_iff)

lemma resolved_cong:
  assumes "\<And>i. ss_artifact (step_at \<sigma> i) = ss_artifact (step_at \<tau> i)"
  shows "resolved \<sigma> = resolved \<tau>"
proof -
  have "resolve_input \<sigma> i = resolve_input \<tau> i" for i
    by (cases i) (simp_all add: resolve_input_def assms)
  then show ?thesis by (simp add: resolved_def resolve_inputs_def fun_eq_iff)
qed

lemma good_agree:
  assumes "agree \<sigma> \<tau>"
  shows "good P \<sigma> \<longleftrightarrow> good P \<tau>"
proof -
  have same: "same_step (step_at \<sigma> i) (step_at \<tau> i)" for i using assms by (simp add: agree_def)
  then have at: "ss_phase (step_at \<sigma> i) = ss_phase (step_at \<tau> i)" "ss_artifact (step_at \<sigma> i) = ss_artifact (step_at \<tau> i)"
    "stored_ok (step_at \<sigma> i) r = stored_ok (step_at \<tau> i) r" for i r
    using stored_ok_same [OF same] by (simp_all add: same_step_def)
  have "resolved \<sigma> = resolved \<tau>" by (rule resolved_cong) (rule at)
  moreover have "rs_plan \<sigma> = rs_plan \<tau>" "rs_accepted_at \<sigma> = rs_accepted_at \<tau>"
    "fmdom (rs_steps \<sigma>) = fmdom (rs_steps \<tau>)" using assms by (auto simp: agree_def)
  ultimately show ?thesis
    by (simp add: good_def state_checks_iff ordered_steps_def active_count_card at)
qed

text \<open>
  Changing one step: its own checks hold of the new state, its artifact changes only while nothing
  depends on it, it leaves a settled phase only for a settled one, and it is sent only when its
  dependencies are verified.
\<close>

lemma good_set_step:
  assumes g: "good P \<sigma>" and s: "s \<in> set (pl_steps (rs_plan \<sigma>))"
    and own: "stored_ok st' (resolved \<sigma> s)"
    and artifact: "ss_artifact st' = ss_artifact (step_at \<sigma> (st_id s)) \<or> \<not> settled (phase_at \<sigma> (st_id s))"
    and settled: "settled (phase_at \<sigma> (st_id s)) \<Longrightarrow> settled (ss_phase st')"
    and sent: "\<lbrakk>\<not> unsent (ss_phase st'); unsent (phase_at \<sigma> (st_id s))\<rbrakk>
      \<Longrightarrow> \<forall>i \<in> set (st_depends s). phase_at \<sigma> i = Verified"
    and active: "phase_active (ss_phase st') \<and> \<not> phase_active (phase_at \<sigma> (st_id s))
      \<Longrightarrow> active_count \<sigma> < pl_concurrency (rs_plan \<sigma>)"
  shows "good P (set_step (st_id s) st' \<sigma>)"
proof -
  let ?\<tau> = "set_step (st_id s) st' \<sigma>"
  note plan = good_plan [OF g]
  have names: "t = s" if "t \<in> set (pl_steps (rs_plan \<sigma>))" "st_id t = st_id s" for t
    using plan(2) [OF s] s that by (auto simp: well_named_def distinct_map dest: inj_onD)
  have loads: "stored_ok (step_at ?\<tau> (st_id t)) (resolved ?\<tau> t)" if t: "t \<in> set (pl_steps (rs_plan \<sigma>))" for t
  proof (cases "st_id s \<in> set (st_depends t) \<and> ss_artifact st' \<noteq> ss_artifact (step_at \<sigma> (st_id s))")
    case False
    then have "resolve_inputs t ?\<tau> = resolve_inputs t \<sigma>"
      by (intro resolve_cong [OF plan(1) [OF t]]) auto
    then show ?thesis
      using own names [OF t] plan(4) [OF t] by (auto simp: resolved_def step_loads_iff)
  next
    case True
    then have "\<not> settled (phase_at \<sigma> (st_id s))" using artifact by blast
    with g t True have "unsent (phase_at \<sigma> (st_id t))" by (auto simp: good_def ordered_steps_def)
    moreover have "st_id t \<noteq> st_id s" using True names [OF t] plan(5) [OF s] by auto
    ultimately show ?thesis
      using plan(4) [OF t] by (auto simp: step_loads_iff intro: stored_ok_unsent)
  qed
  have dom: "finsert (st_id s) (fmdom (rs_steps \<sigma>)) = fmdom (rs_steps \<sigma>)" using plan(3) [OF s] by auto
  have "ordered_steps ?\<tau>"
    unfolding ordered_steps_def
  proof (intro ballI impI)
    fix t i
    assume t: "t \<in> set (pl_steps (rs_plan ?\<tau>))" "\<not> unsent (phase_at ?\<tau> (st_id t))" "i \<in> set (st_depends t)"
    have old: "settled (phase_at \<sigma> i)"
    proof (cases "unsent (phase_at \<sigma> (st_id t))")
      case True
      with t have "t = s" using names [of t] by (auto split: if_splits)
      with t True sent show ?thesis by (auto simp: settled_def)
    qed (use g t in \<open>auto simp: good_def ordered_steps_def\<close>)
    then show "settled (phase_at ?\<tau> i)" using settled by (cases "i = st_id s") simp_all
  qed
  moreover have "active_count ?\<tau> \<le> pl_concurrency (rs_plan \<sigma>)"
  proof (cases "phase_active (ss_phase st') \<and> \<not> phase_active (phase_at \<sigma> (st_id s))")
    case True
    with active active_set_step(1) [OF plan(3) [OF s], of st'] show ?thesis by linarith
  next
    case False
    with active_set_step(2) [OF plan(3) [OF s], of st'] g show ?thesis by (auto simp: good_def)
  qed
  moreover have "state_checks P ?\<tau> = Inr ()"
    using g loads dom plan(3) by (simp add: good_def state_checks_iff)
  ultimately show ?thesis by (simp add: good_def)
qed

lemma good_flags:
  assumes "good P \<sigma>"
  shows "good P (\<sigma>\<lparr>rs_deadline_seen := b\<rparr>)" "good P (\<sigma>\<lparr>rs_cancel := b\<rparr>)"
proof -
  have at: "step_at (\<sigma>\<lparr>rs_deadline_seen := b\<rparr>) = step_at \<sigma>" "step_at (\<sigma>\<lparr>rs_cancel := b\<rparr>) = step_at \<sigma>"
    by (simp_all add: step_at_def fun_eq_iff)
  then have "resolved (\<sigma>\<lparr>rs_deadline_seen := b\<rparr>) = resolved \<sigma>" "resolved (\<sigma>\<lparr>rs_cancel := b\<rparr>) = resolved \<sigma>"
    by (auto intro: resolved_cong)
  with assms at show "good P (\<sigma>\<lparr>rs_deadline_seen := b\<rparr>)" "good P (\<sigma>\<lparr>rs_cancel := b\<rparr>)"
    by (simp_all add: good_def state_checks_iff ordered_steps_def active_count_card)
qed

text \<open>Skipping the steps that will not be sent, and the state a run begins with.\<close>

lemma step_at_skip: "step_at (skip_pending \<sigma>) i =
  (if phase_at \<sigma> i = Pending \<and> i |\<in>| fmdom (rs_steps \<sigma>) then (step_at \<sigma> i)\<lparr>ss_phase := Skipped\<rparr> else step_at \<sigma> i)"
  by (auto simp: step_at_def skip_pending_def fmdom_lookup split: option.split)

lemma good_skip:
  assumes "good P \<sigma>"
  shows "good P (skip_pending \<sigma>)"
proof -
  have fields [simp]: "rs_plan (skip_pending \<sigma>) = rs_plan \<sigma>" "rs_accepted_at (skip_pending \<sigma>) = rs_accepted_at \<sigma>"
    "fmdom (rs_steps (skip_pending \<sigma>)) = fmdom (rs_steps \<sigma>)"
    by (simp_all add: skip_pending_def)
  have "resolved (skip_pending \<sigma>) = resolved \<sigma>" by (rule resolved_cong) (simp add: step_at_skip)
  moreover have "stored_ok (step_at (skip_pending \<sigma>) i) r = stored_ok (step_at \<sigma> i) r" for i r
    by (simp add: step_at_skip stored_ok_def unsent_def)
  moreover have "unsent (phase_at (skip_pending \<sigma>) i) = unsent (phase_at \<sigma> i)"
    "settled (phase_at (skip_pending \<sigma>) i) = settled (phase_at \<sigma> i)"
    "phase_active (phase_at (skip_pending \<sigma>) i) = phase_active (phase_at \<sigma> i)" for i
    by (simp_all add: step_at_skip unsent_def settled_def)
  ultimately show ?thesis
    using assms by (simp add: good_def state_checks_iff ordered_steps_def active_count_card del: phase_active.simps)
qed

lemma good_initial:
  assumes "plan_validate P p t = Inr ()"
  shows "good P (initial_state p t)"
proof -
  have at: "step_at (initial_state p t) i = step_state_default" for i
    by (auto simp: step_at_def initial_state_def fmlookup_of_list map_of_map_keys split: option.split
        dest!: map_of_SomeD)
  have [simp]: "rs_plan (initial_state p t) = p" "rs_accepted_at (initial_state p t) = t"
    by (simp_all add: initial_state_def)
  have dom: "fset (fmdom (rs_steps (initial_state p t))) = st_id ` set (pl_steps p)"
    by (auto simp: initial_state_def fset_of_list.rep_eq)
  then have "fcard (fmdom (rs_steps (initial_state p t))) = length (pl_steps p)"
    using validated_plan(1) [OF assms] distinct_card [of "map st_id (pl_steps p)"]
    by (simp add: well_named_def fcard.rep_eq)
  then show ?thesis
    using assms
    by (simp add: good_def state_checks_iff ordered_steps_def active_count_card at step_state_default_def unsent_def
        stored_ok_def dom)
qed

end
