(* ===== verification/Run_Logic.thy ===== *)
theory Run_Logic
  imports Run_Order
begin

text \<open>
  Traces of the driver's actions and a program logic for them: an event is a call with its reply, a
  monitor reads events and may reject one, and \<open>awp\<close> says that no trace whose replies satisfy a rely
  condition is rejected. Actions that only read (the clock, leases, files) are passive and disturb no
  monitor of interest.
\<close>

section \<open>Traces\<close>

datatype run_event =
    RNow "u64 option"
  | RFind task_caller string "(run_error, run_record option) res"
  | RGet task_caller string "(run_error, run_record option) res"
  | RBegin task_caller string run_state "(run_error, run_record) res"
  | RAdvance run_record run_state string "(run_error, run_record) res"
  | RLease string "(string, capability_lease option) res"
  | RSource source_id bool
  | ROpen string "(string, unit) res"
  | RRead string string u64 "(string, bytes) res"
  | RSubmit federated_tool "(string \<times> json) list" json "(string, call_tool_response) res"
  | RRecover federated_tool "(string \<times> json) list" json "(string, call_tool_response) res"
  | RCancel string "(string, unit) res"
  | RPoll string "(string, json) res"

primrec act_step :: "'a act \<Rightarrow> run_event \<Rightarrow> 'a act option" where
  "act_step (Done x) e = None"
| "act_step (Fail t) e = None"
| "act_step (NowMs f) e = (case e of RNow x \<Rightarrow> Some (f x) | _ \<Rightarrow> None)"
| "act_step (FindRun c k f) e = (case e of RFind c' k' x \<Rightarrow> if c = c' \<and> k = k' then Some (f x) else None | _ \<Rightarrow> None)"
| "act_step (GetRun c i f) e = (case e of RGet c' i' x \<Rightarrow> if c = c' \<and> i = i' then Some (f x) else None | _ \<Rightarrow> None)"
| "act_step (BeginRun c k \<sigma> f) e =
     (case e of RBegin c' k' \<sigma>' x \<Rightarrow> if c = c' \<and> k = k' \<and> \<sigma> = \<sigma>' then Some (f x) else None | _ \<Rightarrow> None)"
| "act_step (AdvanceRun r \<sigma> t f) e =
     (case e of RAdvance r' \<sigma>' t' x \<Rightarrow> if r = r' \<and> \<sigma> = \<sigma>' \<and> t = t' then Some (f x) else None | _ \<Rightarrow> None)"
| "act_step (GetLease i f) e = (case e of RLease i' x \<Rightarrow> if i = i' then Some (f x) else None | _ \<Rightarrow> None)"
| "act_step (SourceSupported s f) e = (case e of RSource s' x \<Rightarrow> if s = s' then Some (f x) else None | _ \<Rightarrow> None)"
| "act_step (OpenRoot p f) e = (case e of ROpen p' x \<Rightarrow> if p = p' then Some (f x) else None | _ \<Rightarrow> None)"
| "act_step (ReadArtifact p q n f) e =
     (case e of RRead p' q' n' x \<Rightarrow> if p = p' \<and> q = q' \<and> n = n' then Some (f x) else None | _ \<Rightarrow> None)"
| "act_step (SubmitTask t a s f) e =
     (case e of RSubmit t' a' s' x \<Rightarrow> if t = t' \<and> a = a' \<and> s = s' then Some (f x) else None | _ \<Rightarrow> None)"
| "act_step (RecoverTask t a s f) e =
     (case e of RRecover t' a' s' x \<Rightarrow> if t = t' \<and> a = a' \<and> s = s' then Some (f x) else None | _ \<Rightarrow> None)"
| "act_step (CancelRequest i f) e = (case e of RCancel i' x \<Rightarrow> if i = i' then Some (f x) else None | _ \<Rightarrow> None)"
| "act_step (PollRequest i f) e = (case e of RPoll i' x \<Rightarrow> if i = i' then Some (f x) else None | _ \<Rightarrow> None)"

fun act_run :: "'a act \<Rightarrow> run_event list \<Rightarrow> 'a act option" where
  "act_run p [] = Some p"
| "act_run p (e # es) = Option.bind (act_step p e) (\<lambda>q. act_run q es)"

section \<open>Monitors\<close>

definition admits :: "('g \<Rightarrow> run_event \<Rightarrow> 'g option) \<Rightarrow> (run_event \<Rightarrow> bool) \<Rightarrow> 'g \<Rightarrow> run_event \<Rightarrow> ('g \<Rightarrow> bool) \<Rightarrow> bool" where
  "admits M R g e K = (R e \<longrightarrow> (case M g e of None \<Rightarrow> False | Some g' \<Rightarrow> K g'))"

fun watched :: "('g \<Rightarrow> run_event \<Rightarrow> 'g option) \<Rightarrow> 'g \<Rightarrow> run_event list \<Rightarrow> 'g option" where
  "watched M g [] = Some g"
| "watched M g (e # es) = Option.bind (M g e) (\<lambda>g'. watched M g' es)"

primrec awp ::
  "'a act \<Rightarrow> ('g \<Rightarrow> run_event \<Rightarrow> 'g option) \<Rightarrow> (run_event \<Rightarrow> bool) \<Rightarrow> ('a \<Rightarrow> 'g \<Rightarrow> bool) \<Rightarrow> (string \<Rightarrow> 'g \<Rightarrow> bool) \<Rightarrow> 'g \<Rightarrow> bool" where
  "awp (Done x) M R Q E g = Q x g"
| "awp (Fail t) M R Q E g = E t g"
| "awp (NowMs f) M R Q E g = (\<forall>x. admits M R g (RNow x) (awp (f x) M R Q E))"
| "awp (FindRun c k f) M R Q E g = (\<forall>x. admits M R g (RFind c k x) (awp (f x) M R Q E))"
| "awp (GetRun c i f) M R Q E g = (\<forall>x. admits M R g (RGet c i x) (awp (f x) M R Q E))"
| "awp (BeginRun c k \<sigma> f) M R Q E g = (\<forall>x. admits M R g (RBegin c k \<sigma> x) (awp (f x) M R Q E))"
| "awp (AdvanceRun r \<sigma> t f) M R Q E g = (\<forall>x. admits M R g (RAdvance r \<sigma> t x) (awp (f x) M R Q E))"
| "awp (GetLease i f) M R Q E g = (\<forall>x. admits M R g (RLease i x) (awp (f x) M R Q E))"
| "awp (SourceSupported s f) M R Q E g = (\<forall>x. admits M R g (RSource s x) (awp (f x) M R Q E))"
| "awp (OpenRoot p f) M R Q E g = (\<forall>x. admits M R g (ROpen p x) (awp (f x) M R Q E))"
| "awp (ReadArtifact p q n f) M R Q E g = (\<forall>x. admits M R g (RRead p q n x) (awp (f x) M R Q E))"
| "awp (SubmitTask t a s f) M R Q E g = (\<forall>x. admits M R g (RSubmit t a s x) (awp (f x) M R Q E))"
| "awp (RecoverTask t a s f) M R Q E g = (\<forall>x. admits M R g (RRecover t a s x) (awp (f x) M R Q E))"
| "awp (CancelRequest i f) M R Q E g = (\<forall>x. admits M R g (RCancel i x) (awp (f x) M R Q E))"
| "awp (PollRequest i f) M R Q E g = (\<forall>x. admits M R g (RPoll i x) (awp (f x) M R Q E))"

lemma awp_abind: "awp (abind p k) M R Q E g = awp p M R (\<lambda>x. awp (k x) M R Q E) E g"
  by (induction p arbitrary: g) (simp_all add: admits_def split: option.splits)

lemma awp_acatch: "awp (acatch p) M R Q E g = awp p M R (\<lambda>x. Q (Inr x)) (\<lambda>e. Q (Inl e)) g"
  by (induction p arbitrary: g) (simp_all add: admits_def split: option.splits)

lemma awp_give: "awp (give r) M R Q E g = (case r of Inl e \<Rightarrow> E e g | Inr x \<Rightarrow> Q x g)"
  by (cases r) simp_all

lemma awp_mono:
  assumes "awp p M R Q E g" "\<And>x g. Q x g \<Longrightarrow> Q' x g" "\<And>e g. E e g \<Longrightarrow> E' e g"
  shows "awp p M R Q' E' g"
  using assms(1)
proof (induction p arbitrary: g)
qed (auto simp: admits_def assms(2,3) split: option.splits)

lemma awp_each_in:
  assumes "I v g" "\<And>x v g. \<lbrakk>x \<in> set xs; I v g\<rbrakk> \<Longrightarrow> awp (f v x) M R I E g"
  shows "awp (each_in xs f v) M R I E g"
  using assms
proof (induction xs arbitrary: v g)
  case (Cons x xs)
  have "awp (f v x) M R I E g" using Cons.prems by simp
  then show ?case
    unfolding each_in.simps awp_abind by (rule awp_mono) (use Cons in simp_all)
qed simp

lemma awp_step:
  assumes "awp p M R Q E g" "act_step p e = Some q" "R e"
  shows "\<exists>g'. M g e = Some g' \<and> awp q M R Q E g'"
  using assms
  by (cases p) (auto simp: admits_def split: run_event.splits if_splits option.splits)

lemma awp_run:
  "\<lbrakk>awp p M R Q E g; act_run p es = Some q; \<forall>e \<in> set es. R e\<rbrakk>
     \<Longrightarrow> \<exists>g'. watched M g es = Some g' \<and> awp q M R Q E g'"
proof (induction es arbitrary: p g)
  case (Cons e es)
  then obtain p' where "act_step p e = Some p'" "act_run p' es = Some q" by (auto split: bind_splits)
  then show ?case using awp_step [OF Cons.prems(1)] Cons by fastforce
qed simp

section \<open>Passive actions\<close>

fun passive_event :: "run_event \<Rightarrow> bool" where
  "passive_event (RNow x) = True"
| "passive_event (RLease i x) = True"
| "passive_event (RSource s x) = True"
| "passive_event (ROpen p x) = True"
| "passive_event (RRead p q n x) = True"
| "passive_event e = False"

definition passive_monitor :: "unit \<Rightarrow> run_event \<Rightarrow> unit option" where
  "passive_monitor g e = (if passive_event e then Some g else None)"

abbreviation reads_only :: "'a act \<Rightarrow> bool" where
  "reads_only p \<equiv> awp p passive_monitor (\<lambda>_. True) (\<lambda>_ _. True) (\<lambda>_ _. True) ()"

text \<open>A monitor that ignores what passive actions do.\<close>

locale reading_monitor =
  fixes M :: "'g \<Rightarrow> run_event \<Rightarrow> 'g option" and R :: "run_event \<Rightarrow> bool"
  assumes ignores: "passive_event e \<Longrightarrow> M g e = Some g"
begin

lemma awp_passive:
  assumes "reads_only p" "\<And>x. Q x g" "\<And>e. E e g"
  shows "awp p M R Q E g"
  using assms(1)
proof (induction p)
qed (auto simp: admits_def passive_monitor_def ignores assms(2,3) split: if_splits)

end

interpretation passive_reading: reading_monitor passive_monitor "\<lambda>_. True"
  by unfold_locales (simp add: passive_monitor_def)

named_theorems passive_rules \<open>actions that only read\<close>

lemma passive_give [passive_rules]: "reads_only (give r)"
  by (simp add: awp_give split: sum.split)

lemma passive_abind [passive_rules]: "\<lbrakk>reads_only p; \<And>x. reads_only (k x)\<rbrakk> \<Longrightarrow> reads_only (abind p k)"
  unfolding awp_abind by (rule passive_reading.awp_passive) simp_all

lemma passive_now [passive_rules]: "reads_only now_ms"
  by (simp add: now_ms_def admits_def passive_monitor_def passive_give)

lemma passive_each [passive_rules]: "(\<And>v x. reads_only (f v x)) \<Longrightarrow> reads_only (each_in xs f v)"
  by (induction xs arbitrary: v) (simp_all add: passive_abind)

lemma passive_authorize_step [passive_rules]: "reads_only (authorize_step X p lease s)"
  by (simp add: authorize_step_def Let_def awp_abind awp_give admits_def passive_monitor_def now_ms_def split: sum.split)

lemma passive_authorize_plan: "reads_only (authorize_plan X p args)"
  unfolding authorize_plan_def
  by (intro passive_abind passive_give) (simp add: admits_def passive_monitor_def passive_rules)

lemma passive_verify_step: "reads_only (verify_step X i p s st)"
  unfolding verify_step_def
  by (intro passive_abind passive_give) (simp add: admits_def passive_monitor_def passive_give split: prod.split)

lemma passive_verify_record: "reads_only (verify_record X r)"
proof -
  have "reads_only (abind (verify_step X i p s st) (\<lambda>_. Done (Suc n)))" for i p s st n
    by (rule passive_abind) (simp_all add: passive_verify_step)
  then show ?thesis
    unfolding verify_record_def by (intro passive_abind passive_give passive_each) (simp_all add: Let_def)
qed

end
