(* ===== verification/Run_Safety.thy ===== *)
theory Run_Safety
  imports Run_Logic
begin

text \<open>
  What the run driver may do, as a monitor over its calls, and the proof that every operation of the
  driver obeys it. The monitor remembers the state last saved or loaded, and the runs known to exist.
\<close>

section \<open>The monitor\<close>

type_synonym ghost = "run_state \<times> (task_caller \<times> string) set"

text \<open>
  A tool is submitted only for a step whose submission has been saved, of a run that is not stopping,
  with all its dependencies verified.
\<close>

definition may_submit :: "run_context \<Rightarrow> run_state \<Rightarrow> federated_tool \<Rightarrow> (string \<times> json) list \<Rightarrow> json \<Rightarrow> bool" where
  "may_submit X \<sigma> t a sub \<longleftrightarrow> \<not> stopping \<sigma> \<and>
     (\<exists>s \<in> set (pl_steps (rs_plan \<sigma>)). tool_of X (st_alias s) = Inr t
        \<and> phase_at \<sigma> (st_id s) = Submitting \<and> ss_arguments (step_at \<sigma> (st_id s)) = Some a
        \<and> ss_submission (step_at \<sigma> (st_id s)) = Some sub
        \<and> (\<forall>i \<in> set (st_depends s). phase_at \<sigma> i = Verified))"

text \<open>A task is cancelled only for a stopped run, after the intent has been saved.\<close>

definition may_cancel :: "run_state \<Rightarrow> string \<Rightarrow> bool" where
  "may_cancel \<sigma> i \<longleftrightarrow> (rs_cancel \<sigma> \<or> rs_deadline_seen \<sigma>) \<and>
     (\<exists>s \<in> set (pl_steps (rs_plan \<sigma>)). ss_task_id (step_at \<sigma> (st_id s)) = Some i \<and> ss_intent (step_at \<sigma> (st_id s)))"

definition decoded :: "run_codec \<Rightarrow> run_record \<Rightarrow> run_state option" where
  "decoded C r = rc_state C (rn_data r)"

text \<open>What the store is relied on for: the states it returns are good.\<close>

definition sound_record :: "run_codec \<Rightarrow> run_record \<Rightarrow> bool" where
  "sound_record C r \<longleftrightarrow> (case decoded C r of Some \<sigma> \<Rightarrow> good (rc_platform C) \<sigma> | None \<Rightarrow> True)"

fun relied :: "run_context \<Rightarrow> run_event \<Rightarrow> bool" where
  "relied X (RGet c i (Inr (Some r))) = sound_record (cx_codec X) r"
| "relied X _ = True"

fun run_monitor :: "run_context \<Rightarrow> ghost \<Rightarrow> run_event \<Rightarrow> ghost option" where
  "run_monitor X (\<sigma>, known) (RFind c k res) =
     Some (\<sigma>, case res of Inr (Some r) \<Rightarrow> insert (c, k) known | _ \<Rightarrow> known)"
| "run_monitor X (\<sigma>, known) (RGet c i res) =
     Some (case res of Inr (Some r) \<Rightarrow> (case decoded (cx_codec X) r of Some \<tau> \<Rightarrow> \<tau> | None \<Rightarrow> \<sigma>) | _ \<Rightarrow> \<sigma>, known)"
| "run_monitor X (\<sigma>, known) (RBegin c k \<tau> res) =
     (if good (cx_platform X) \<tau> \<or> (c, k) \<in> known then Some (\<sigma>, known) else None)"
| "run_monitor X (\<sigma>, known) (RAdvance r \<tau> t res) =
     (if good (cx_platform X) \<tau>
      then Some (case res of Inr r' \<Rightarrow> \<tau> | Inl e \<Rightarrow> \<sigma>, known) else None)"
| "run_monitor X (\<sigma>, known) (RSubmit t a sub res) = (if may_submit X \<sigma> t a sub then Some (\<sigma>, known) else None)"
| "run_monitor X (\<sigma>, known) (RCancel i res) = (if may_cancel \<sigma> i then Some (\<sigma>, known) else None)"
| "run_monitor X g e = Some g"

interpretation run_reading: reading_monitor "run_monitor X" "relied X" for X
proof
  fix g :: ghost and e
  assume "passive_event e"
  then show "run_monitor X g e = Some g" by (cases g; cases e) simp_all
qed

abbreviation obeys :: "run_context \<Rightarrow> 'a act \<Rightarrow> ('a \<Rightarrow> ghost \<Rightarrow> bool) \<Rightarrow> ghost \<Rightarrow> bool" where
  "obeys X p Q g \<equiv> awp p (run_monitor X) (relied X) Q (\<lambda>_ _. True) g"

lemma obeys_passive: "reads_only p \<Longrightarrow> (\<And>x. Q x g) \<Longrightarrow> obeys X p Q g"
  by (rule run_reading.awp_passive) simp_all

lemma obeys_give: "(\<And>x. r = Inr x \<Longrightarrow> Q x g) \<Longrightarrow> obeys X (give r) Q g"
  by (simp add: awp_give split: sum.split)

section \<open>The loops of a drive\<close>

text \<open>The variables of a drive: a good state of the plan that agrees with the one last saved.\<close>

definition on_course :: "run_context \<Rightarrow> run_plan \<Rightarrow> drive_vars \<Rightarrow> ghost \<Rightarrow> bool" where
  "on_course X p v g \<longleftrightarrow> good (cx_platform X) (dv_state v) \<and> rs_plan (dv_state v) = p \<and> agree (dv_state v) (fst g)"

lemma on_course_good: "on_course X p v g \<Longrightarrow> good (cx_platform X) (dv_state v) \<and> rs_plan (dv_state v) = p"
  by (simp add: on_course_def)

lemma obeys_save:
  assumes "good (cx_platform X) (dv_state v)"
    "\<And>r. Q (v\<lparr>dv_record := r\<rparr>) (dv_state v, snd g)"
  shows "obeys X (save v event) Q g"
  using assms
  by (cases g) (simp add: save_def admits_def awp_abind stored_run_def awp_give map_err_def split: sum.split)

lemma obeys_save_course:
  assumes "good (cx_platform X) (dv_state v)" "rs_plan (dv_state v) = p"
  shows "obeys X (save v event) (on_course X p) g"
  using assms by (intro obeys_save) (simp_all add: on_course_def)

lemma may_submit_agree: "agree \<sigma> \<tau> \<Longrightarrow> may_submit X \<sigma> t a sub \<Longrightarrow> may_submit X \<tau> t a sub"
  by (simp add: agree_def same_step_def may_submit_def stopping_def phases_def)

lemma may_cancel_agree: "agree \<sigma> \<tau> \<Longrightarrow> may_cancel \<sigma> i \<Longrightarrow> may_cancel \<tau> i"
  by (simp add: agree_def same_step_def may_cancel_def)

lemma not_stopping:
  assumes "\<not> stopping \<sigma>" "i |\<in>| fmdom (rs_steps \<sigma>)"
  shows "\<not> phase_blocks (phase_at \<sigma> i)"
  using assms by (auto simp: stopping_def phases_def list_ex_iff sorted_list_of_fset.rep_eq)

lemma depends_in_domain:
  assumes "good P \<sigma>" "s \<in> set (pl_steps (rs_plan \<sigma>))" "i \<in> set (st_depends s)"
  shows "i |\<in>| fmdom (rs_steps \<sigma>)"
proof -
  obtain t where "t \<in> set (pl_steps (rs_plan \<sigma>))" "i = st_id t"
    using good_plan(2) [OF assms(1,2)] assms(2,3) by (auto simp: well_named_def)
  then show ?thesis using good_plan(3) [OF assms(1)] by blast
qed

text \<open>Submitting or recovering a step whose submission is saved.\<close>

lemma submitted_good:
  assumes "good P \<sigma>" "s \<in> set (pl_steps (rs_plan \<sigma>))" "phase_at \<sigma> (st_id s) = Submitting"
  shows "good P (set_step (st_id s) (submitted_step X response (step_at \<sigma> (st_id s))) \<sigma>)"
proof -
  have "stored_ok (step_at \<sigma> (st_id s)) (resolved \<sigma> s)"
    using good_plan(4) [OF assms(1,2)] by (simp add: step_loads_iff)
  with assms(3) have "stored_ok (submitted_step X response (step_at \<sigma> (st_id s))) (resolved \<sigma> s)"
    by (auto simp: submitted_step_def stored_ok_def unsent_def split: sum.split call_tool_response.split)
  moreover have "ss_artifact (submitted_step X response (step_at \<sigma> (st_id s))) = ss_artifact (step_at \<sigma> (st_id s))"
    by (simp add: submitted_step_def split: sum.split call_tool_response.split)
  ultimately show ?thesis
    using assms by (intro good_set_step) (simp_all add: settled_def unsent_def)
qed

lemma obeys_submit_step:
  assumes "on_course X p v g" "s \<in> set (pl_steps p)" "phase_at (dv_state v) (st_id s) = Submitting"
  shows "obeys X (submit_step X v s) (on_course X p) g"
proof -
  let ?\<sigma> = "dv_state v"
  have g: "good (cx_platform X) ?\<sigma>" "rs_plan ?\<sigma> = p" "agree ?\<sigma> (fst g)" "s \<in> set (pl_steps (rs_plan ?\<sigma>))"
    using assms by (auto simp: on_course_def)
  have answered: "obeys X (save (put_step (st_id s) (submitted_step X response (step_at ?\<sigma> (st_id s))) v)
      ''task_identity_observed'') (on_course X p) g" for response
    using g submitted_good [OF g(1,4) assms(3)] by (intro obeys_save_course) simp_all
  have submit: "may_submit X (fst g) t a sub"
    if running: "\<not> stopping ?\<sigma>" and "tool_of X (st_alias s) = Inr t" "ss_arguments (step_at ?\<sigma> (st_id s)) = Some a"
      "ss_submission (step_at ?\<sigma> (st_id s)) = Some sub" for t a sub
  proof (rule may_submit_agree [OF g(3)])
    have "phase_at ?\<sigma> i = Verified" if i: "i \<in> set (st_depends s)" for i
    proof -
      have "settled (phase_at ?\<sigma> i)"
        using g(1,4) assms(3) i by (auto simp: good_def ordered_steps_def unsent_def)
      then show ?thesis
        using not_stopping [OF running depends_in_domain [OF g(1,4) i]] by (auto simp: settled_def)
    qed
    with that g(4) assms(3) show "may_submit X ?\<sigma> t a sub" by (auto simp: may_submit_def)
  qed
  show ?thesis
    by (cases g; cases "tool_of X (st_alias s)"; cases "ss_arguments (step_at ?\<sigma> (st_id s))";
        cases "ss_submission (step_at ?\<sigma> (st_id s))")
       (use answered submit in \<open>auto simp: submit_step_def Let_def admits_def\<close>)
qed

lemma obeys_recover_step:
  "\<lbrakk>on_course X p v g; s \<in> set (pl_steps p)\<rbrakk> \<Longrightarrow> obeys X (recover_step X v s) (on_course X p) g"
  by (simp add: recover_step_def obeys_submit_step)

text \<open>Reverification.\<close>

lemma obeys_reverify:
  assumes "on_course X p v g" "s \<in> set (pl_steps p)"
  shows "obeys X (reverify X v s) (on_course X p) g"
proof (cases "phase_at (dv_state v) (st_id s) = Verified")
  case True
  let ?\<sigma> = "dv_state v" let ?st = "step_at (dv_state v) (st_id s)"
  have g: "good (cx_platform X) ?\<sigma>" "rs_plan ?\<sigma> = p" "s \<in> set (pl_steps (rs_plan ?\<sigma>))"
    using assms by (auto simp: on_course_def)
  have "good (cx_platform X) (set_step (st_id s) (?st\<lparr>ss_phase := StepFailed, ss_diagnostic := d\<rparr>) ?\<sigma>)" for d
    using g True good_plan(4) [OF g(1,3)]
    by (intro good_set_step) (simp_all add: step_loads_iff stored_ok_def settled_def unsent_def)
  with g have "obeys X (save (put_step (st_id s) (?st\<lparr>ss_phase := StepFailed, ss_diagnostic := d\<rparr>) v) event) (on_course X p) g" for d event
    by (intro obeys_save_course) simp_all
  then show ?thesis
    using True assms(1)
    by (simp add: reverify_def Let_def awp_abind awp_acatch run_reading.awp_passive [OF passive_verify_step])
qed (use assms in \<open>simp add: reverify_def\<close>)

text \<open>Cancellation.\<close>

lemma good_same_step:
  assumes "good P \<sigma>" "s \<in> set (pl_steps (rs_plan \<sigma>))"
    "ss_phase st = phase_at \<sigma> (st_id s)" "ss_artifact st = ss_artifact (step_at \<sigma> (st_id s))"
    "stored_ok st (resolved \<sigma> s)"
  shows "good P (set_step (st_id s) st \<sigma>)"
  using assms by (intro good_set_step) auto

lemma own_stored_ok: "\<lbrakk>good P \<sigma>; s \<in> set (pl_steps (rs_plan \<sigma>))\<rbrakk> \<Longrightarrow> stored_ok (step_at \<sigma> (st_id s)) (resolved \<sigma> s)"
  using good_plan(4) by (simp add: step_loads_iff)

lemma agree_set_step:
  assumes "agree \<sigma> \<tau>" "i |\<in>| fmdom (rs_steps \<sigma>)" "same_step st (step_at \<sigma> i)"
  shows "agree (set_step i st \<sigma>) \<tau>"
  using assms by (auto simp: agree_def same_step_def)

lemma obeys_cancel_step:
  assumes "on_course X p v g" "s \<in> set (pl_steps p)" "ss_task_id (step_at (dv_state v) (st_id s)) = Some i"
  shows "obeys X (cancel_step X v s i)
           (\<lambda>v' g. on_course X p v' g \<and> phase_at (dv_state v') (st_id s) = phase_at (dv_state v) (st_id s)
              \<and> ss_task_id (step_at (dv_state v') (st_id s)) = Some i) g"
    (is "obeys X _ ?Q g")
proof (cases "(rs_cancel (dv_state v) \<or> rs_deadline_seen (dv_state v)) \<and> \<not> ss_acknowledged (step_at (dv_state v) (st_id s))")
  case True
  let ?st = "step_at (dv_state v) (st_id s)"
  have g: "good (cx_platform X) (dv_state v)" "rs_plan (dv_state v) = p" "s \<in> set (pl_steps (rs_plan (dv_state v)))"
    "agree (dv_state v) (fst g)"
    using assms by (auto simp: on_course_def)
  let ?intended = "\<lambda>w g. on_course X p w g \<and> step_at (dv_state w) (st_id s) = ?st\<lparr>ss_intent := True\<rparr>
      \<and> (rs_cancel (dv_state w) \<or> rs_deadline_seen (dv_state w))"
  have first: "obeys X (if \<not> ss_intent ?st then save (put_step (st_id s) (?st\<lparr>ss_intent := True\<rparr>) v) ''task_cancellation_intent''
      else Done v) ?intended g"
  proof (cases "ss_intent ?st")
    case False
    have "good (cx_platform X) (set_step (st_id s) (?st\<lparr>ss_intent := True\<rparr>) (dv_state v))"
      using own_stored_ok [OF g(1,3)] by (intro good_same_step g) simp_all
    with False True g show ?thesis by (auto intro!: obeys_save simp: on_course_def)
  next
    case intent: True
    have "?st\<lparr>ss_intent := True\<rparr> = ?st" using intent by (cases ?st) simp
    with True assms(1) intent show ?thesis by simp
  qed
  have second: "obeys X (send_cancel X s i w) ?Q h" if w: "?intended w h" for w h
  proof -
    have h: "good (cx_platform X) (dv_state w)" "rs_plan (dv_state w) = p" "s \<in> set (pl_steps (rs_plan (dv_state w)))"
      "agree (dv_state w) (fst h)" "step_at (dv_state w) (st_id s) = ?st\<lparr>ss_intent := True\<rparr>"
      using w g(2,3) by (auto simp: on_course_def)
    have "ss_task_id (step_at (dv_state w) (st_id s)) = Some i" "ss_intent (step_at (dv_state w) (st_id s))"
      using h(5) assms(3) by simp_all
    with h(3) w have "may_cancel (dv_state w) i" unfolding may_cancel_def by blast
    then have "may_cancel (fst h) i" by (rule may_cancel_agree [OF h(4)])
    moreover have "good (cx_platform X) (set_step (st_id s) (?st\<lparr>ss_intent := True, ss_request_sent := True,
        ss_acknowledged := a, ss_diagnostic := d\<rparr>) (dv_state w))" for a d
      using own_stored_ok [OF h(1,3)] h(5) by (intro good_same_step h) simp_all
    moreover have "agree (set_step (st_id s) (?st\<lparr>ss_intent := True, ss_request_sent := True,
        ss_acknowledged := a, ss_diagnostic := d\<rparr>) (dv_state w)) (fst h)" for a d
      using good_plan(3) [OF h(1,3)] h(5) by (intro agree_set_step h(4)) (simp_all add: same_step_def)
    ultimately show ?thesis
      using h
      by (cases h) (auto simp: send_cancel_def admits_def Let_def on_course_def assms(3) intro!: obeys_save)
  qed
  show ?thesis
    unfolding cancel_step_def Let_def if_P [OF True] awp_abind
    by (rule awp_mono [OF first second]) simp_all
next
  case False
  show ?thesis unfolding cancel_step_def Let_def if_not_P [OF False] using assms by simp
qed

text \<open>Polls.\<close>

lemma obeys_poll_outcome:
  assumes "good (cx_platform X) (dv_state v)" "s \<in> set (pl_steps (rs_plan (dv_state v)))"
    "phase_at (dv_state v) (st_id s) \<in> {StepRouted, Unknown}" "ss_task_id (step_at (dv_state v) (st_id s)) = Some i"
  shows "obeys X (poll_outcome X v s answer)
           (\<lambda>o' g'. g' = g \<and> (\<forall>st. o' = Some st \<longrightarrow> good (cx_platform X) (set_step (st_id s) st (dv_state v)))) g"
proof -
  let ?st = "step_at (dv_state v) (st_id s)"
  have sent: "sent_ok (ss_arguments ?st) (ss_submission ?st) (resolved (dv_state v) s)"
    using own_stored_ok [OF assms(1,2)] assms(3) by (auto simp: stored_ok_def unsent_def)
  have update: "good (cx_platform X) (set_step (st_id s) st (dv_state v))"
    if "ss_arguments st = ss_arguments ?st" "ss_submission st = ss_submission ?st" "ss_task_id st = Some i"
      "ss_phase st \<in> {Unknown, StepFailed, Cancelled} \<or> ss_phase st = Verified \<and> ss_terminal st \<noteq> None
         \<and> ss_artifact st \<noteq> None \<and> (\<exists>r. ss_verification st = Some r \<and> json_index r ''status'' = JStr ''verified'')" for st
    using that sent assms(3)
    by (intro good_set_step [OF assms(1,2)]) (auto simp: stored_ok_def unsent_def settled_def)
  have report: "json_index r ''status'' = JStr ''verified''" if "verify_artifact C s' st res b c = Inr (a, r)" for C s' st res b c a r
    using that by (auto simp: verify_artifact_def Let_def guard_simps json_object_def json_index_def map_of_btree_collect)
  have verified: "awp (verify_step X k q s st) (run_monitor X) (relied X)
      (\<lambda>ar g'. g' = g \<and> json_index (snd ar) ''status'' = JStr ''verified'') (\<lambda>_ g'. g' = g) g" for k q st
    unfolding verify_step_def awp_abind
    by (cases g) (auto simp: awp_give admits_def rbind_def split: sum.splits prod.splits dest: report)
  show ?thesis
  proof (cases answer)
    case (Inr answered)
    show ?thesis
      unfolding poll_outcome_def Inr Let_def sum.case
    proof (split if_split, intro conjI impI, goal_cases)
      case 2
      then show ?case
      proof (split if_split, intro conjI impI, goal_cases)
        case 1
        show ?case
          unfolding awp_abind awp_acatch
          by (rule awp_mono [OF verified]) (auto intro!: update simp: assms(4))
      qed (auto intro!: update simp: assms(4))
    qed (auto intro!: update simp: assms(4))
  qed (auto simp: poll_outcome_def Let_def assms(4) intro!: update)
qed

lemma obeys_poll_step:
  assumes "on_course X p v g" "s \<in> set (pl_steps p)"
  shows "obeys X (poll_step X (v, observed) s) (\<lambda>vo. on_course X p (fst vo)) g"
proof (cases "ss_task_id (step_at (dv_state v) (st_id s))")
  case None
  with assms show ?thesis by (simp add: poll_step_def Let_def)
next
  case (Some i)
  show ?thesis
  proof (cases "phase_at (dv_state v) (st_id s) \<in> {StepRouted, Unknown}")
    case routed: True
    let ?after = "\<lambda>v' g. on_course X p v' g \<and> phase_at (dv_state v') (st_id s) = phase_at (dv_state v) (st_id s)
        \<and> ss_task_id (step_at (dv_state v') (st_id s)) = Some i"
    have rest: "obeys X (PollRequest i (\<lambda>answer. abind (poll_outcome X v s answer) (\<lambda>outcome.
            case outcome of
              None \<Rightarrow> Done (v, observed)
            | Some st \<Rightarrow> abind (save (put_step (st_id s) st v) ''task_outcome_observed'') (\<lambda>v. Done (v, True)))))
          (\<lambda>vo. on_course X p (fst vo)) h" if v: "?after v h" for v h
    proof -
      have h: "good (cx_platform X) (dv_state v)" "rs_plan (dv_state v) = p" "s \<in> set (pl_steps (rs_plan (dv_state v)))"
        "phase_at (dv_state v) (st_id s) \<in> {StepRouted, Unknown}" "ss_task_id (step_at (dv_state v) (st_id s)) = Some i"
        using v assms(2) routed by (auto simp: on_course_def)
      have "obeys X (abind (poll_outcome X v s answer) (\<lambda>outcome.
            case outcome of
              None \<Rightarrow> Done (v, observed)
            | Some st \<Rightarrow> abind (save (put_step (st_id s) st v) ''task_outcome_observed'') (\<lambda>v. Done (v, True))))
          (\<lambda>vo. on_course X p (fst vo)) h" for answer
        unfolding awp_abind
        by (rule awp_mono [OF obeys_poll_outcome [OF h(1,3-5)]])
           (use v h(2) in \<open>auto simp: awp_abind on_course_def intro!: obeys_save split: option.split\<close>)
      then show ?thesis by (cases h) (simp add: admits_def)
    qed
    have "obeys X (cancel_step X v s i) ?after g"
      by (rule obeys_cancel_step [OF assms Some])
    then have "obeys X (abind (cancel_step X v s i) (\<lambda>v.
        PollRequest i (\<lambda>answer. abind (poll_outcome X v s answer) (\<lambda>outcome.
            case outcome of
              None \<Rightarrow> Done (v, observed)
            | Some st \<Rightarrow> abind (save (put_step (st_id s) st v) ''task_outcome_observed'') (\<lambda>v. Done (v, True))))))
          (\<lambda>vo. on_course X p (fst vo)) g"
      unfolding awp_abind [of "cancel_step _ _ _ _"] by (rule awp_mono) (use rest in simp_all)
    with routed Some show ?thesis by (simp add: poll_step_def Let_def)
  qed (use assms Some in \<open>simp add: poll_step_def Let_def\<close>)
qed

text \<open>Dispatches.\<close>

lemma value_eq_JObj: "same_arguments (Some a) a"
  by (simp add: same_arguments_def)

lemma dispatched_good:
  assumes "good P \<sigma>" "s \<in> set (pl_steps (rs_plan \<sigma>))" "ready \<sigma> s" "resolve_inputs s \<sigma> = Inr a"
    "active_count \<sigma> < pl_concurrency (rs_plan \<sigma>)"
  shows "good P (set_step (st_id s)
    ((step_at \<sigma> (st_id s))\<lparr>ss_phase := Submitting, ss_arguments := Some a, ss_submission := Some sub\<rparr>) \<sigma>)"
  using assms
  by (intro good_set_step)
     (auto simp: stored_ok_def sent_ok_def unsent_def settled_def resolved_def value_eq_JObj ready_def list_all_iff)

lemma obeys_dispatch_step:
  assumes "on_course X p v g" "s \<in> set (pl_steps p)" "ready (dv_state v) s"
    "active_count (dv_state v) < pl_concurrency p"
  shows "obeys X (dispatch_step X args v s) (on_course X p) g"
proof -
  let ?\<sigma> = "dv_state v"
  have g: "good (cx_platform X) ?\<sigma>" "rs_plan ?\<sigma> = p" "s \<in> set (pl_steps (rs_plan ?\<sigma>))"
    using assms by (auto simp: on_course_def)
  let ?sent = "\<lambda>a sub. (step_at ?\<sigma> (st_id s))\<lparr>ss_phase := Submitting, ss_arguments := Some a, ss_submission := Some sub\<rparr>"
  have send: "obeys X (abind (save (put_step (st_id s) (?sent a sub) v) ''task_submission_intent'') (\<lambda>v. submit_step X v s))
      (on_course X p) g" if a: "resolve_inputs s ?\<sigma> = Inr a" for a sub
  proof -
    have good: "good (cx_platform X) (set_step (st_id s) (?sent a sub) ?\<sigma>)"
      using assms(3,4) g(2) by (intro dispatched_good [OF g(1,3) _ a]) simp_all
    then have "on_course X p (put_step (st_id s) (?sent a sub) v\<lparr>dv_record := r\<rparr>) (set_step (st_id s) (?sent a sub) ?\<sigma>, k)" for r k
      using g(2) by (simp add: on_course_def)
    with good show ?thesis
      unfolding awp_abind by (intro obeys_save obeys_submit_step assms(2)) simp_all
  qed
  show ?thesis
    unfolding dispatch_step_def Let_def awp_abind
    by (intro obeys_passive [OF passive_authorize_plan] obeys_give obeys_passive [OF passive_now]
        send [unfolded awp_abind])
qed

lemma obeys_dispatch_loop:
  assumes "on_course X p v g" "set ss \<subseteq> set (pl_steps p)"
  shows "obeys X (dispatch_loop ss X args v) (on_course X p) g"
  using assms
proof (induction ss arbitrary: v g)
  case (Cons s ss)
  have plan: "rs_plan (dv_state v) = p" using Cons.prems by (simp add: on_course_def)
  have "obeys X (abind (dispatch_step X args v s) (\<lambda>v.
      if list_ex phase_blocks (phases (dv_state v)) then Done v else dispatch_loop ss X args v)) (on_course X p) g"
    if "ready (dv_state v) s" "active_count (dv_state v) < pl_concurrency p"
    unfolding awp_abind
    by (rule awp_mono [OF obeys_dispatch_step]) (use Cons that in auto)
  with Cons plan show ?case by simp
qed simp

lemma obeys_finish:
  assumes "on_course X p v g"
  shows "obeys X (finish_drive X args v observed) (on_course X p) g"
  using assms good_skip [of "cx_platform X" "dv_state v"] obeys_dispatch_loop [OF assms]
  by (auto simp: finish_drive_def on_course_def skip_pending_def intro!: obeys_save)

lemma obeys_drive_state:
  assumes "good (cx_platform X) (dv_state v)" "fst g = dv_state v"
  shows "obeys X (drive_state X args v) (on_course X (rs_plan (dv_state v))) g"
proof -
  let ?p = "rs_plan (dv_state v)"
  have start: "on_course X ?p v g" using assms by (simp add: on_course_def)
  have first: "reads_only (if \<not> rs_cancel (dv_state v) then authorize_plan X ?p args else Done ())"
    by (simp add: passive_authorize_plan)
  have deadline: "obeys X (observe_deadline v) (on_course X ?p) g"
    unfolding observe_deadline_def awp_abind
    by (intro obeys_passive [OF passive_now])
       (use start assms in \<open>auto simp: on_course_def good_flags intro!: obeys_save\<close>)
  let ?steps = "pl_steps ?p"
  have polled: "obeys X (abind (each_in ?steps (poll_step X) (w, False)) (\<lambda>(v, observed). finish_drive X args v observed))
      (on_course X ?p) h" if "on_course X ?p w h" for w h
    unfolding awp_abind
    by (rule awp_mono [OF awp_each_in [where I = "\<lambda>vo. on_course X ?p (fst vo)"]])
       (use that in \<open>auto intro: obeys_finish obeys_poll_step split: prod.split\<close>)
  have recovered: "obeys X (abind (each_in ?steps (recover_step X) w) (\<lambda>v.
      abind (each_in ?steps (poll_step X) (v, False)) (\<lambda>(v, observed). finish_drive X args v observed)))
      (on_course X ?p) h" if "on_course X ?p w h" for w h
    unfolding awp_abind [of "each_in ?steps (recover_step X) w"]
    by (rule awp_mono [OF awp_each_in [where I = "on_course X ?p"]])
       (use that polled in \<open>auto intro: obeys_recover_step\<close>)
  have reverified: "obeys X (abind (each_in ?steps (reverify X) w) (\<lambda>v. abind (each_in ?steps (recover_step X) v) (\<lambda>v.
      abind (each_in ?steps (poll_step X) (v, False)) (\<lambda>(v, observed). finish_drive X args v observed))))
      (on_course X ?p) h" if "on_course X ?p w h" for w h
    unfolding awp_abind [of "each_in ?steps (reverify X) w"]
    by (rule awp_mono [OF awp_each_in [where I = "on_course X ?p"]])
       (use that recovered in \<open>auto intro: obeys_reverify\<close>)
  show ?thesis
    unfolding drive_state_def Let_def awp_abind [of "if _ then _ else _"] awp_abind [of "observe_deadline v"]
    by (intro obeys_passive [OF first] awp_mono [OF deadline] reverified) simp_all
qed

section \<open>The operations\<close>

lemma state_from_good:
  "\<lbrakk>state_from C r = Inr \<sigma>; sound_record C r\<rbrakk> \<Longrightarrow> good (rc_platform C) \<sigma> \<and> decoded C r = Some \<sigma>"
  by (auto simp: state_from_def guard_simps sound_record_def decoded_def)

definition loaded :: "run_context \<Rightarrow> run_record \<Rightarrow> ghost \<Rightarrow> bool" where
  "loaded X r g \<longleftrightarrow> sound_record (cx_codec X) r \<and> (\<forall>\<sigma>. decoded (cx_codec X) r = Some \<sigma> \<longrightarrow> fst g = \<sigma>)"

lemma obeys_found_run:
  assumes "\<And>r h. loaded X r h \<Longrightarrow> obeys X (k r) Q h"
  shows "obeys X (found_run c i k) Q g"
  using assms
  by (cases g) (auto simp: found_run_def admits_def awp_abind stored_run_def awp_give map_err_def ok_or_def loaded_def
      split: sum.split option.split)

lemma obeys_drive:
  assumes "loaded X r g"
  shows "obeys X (drive X args r) (\<lambda>_ _. True) g"
proof -
  have "obeys X (abind (drive_state X args \<lparr>dv_record = r, dv_state = \<sigma>\<rparr>) (\<lambda>v. give (summary (cx_codec X) (dv_record v))))
      (\<lambda>_ _. True) g" if "state_from (cx_codec X) r = Inr \<sigma>" for \<sigma>
  proof -
    have "good (cx_platform X) \<sigma>" "fst g = \<sigma>"
      using state_from_good [OF that] assms by (auto simp: loaded_def)
    then show ?thesis
      unfolding awp_abind
      by (intro awp_mono [OF obeys_drive_state]) (simp_all add: awp_give split: sum.split)
  qed
  then show ?thesis unfolding drive_def awp_abind [of "give _"] by (intro obeys_give)
qed

lemma obeys_cancel_run:
  assumes "loaded X r g"
  shows "obeys X (cancel_run X r) (\<lambda>_ _. True) g"
  unfolding cancel_run_def awp_abind
proof (rule obeys_give)
  fix \<sigma>
  assume "state_from (cx_codec X) r = Inr \<sigma>"
  then have "good (cx_platform X) \<sigma>" using state_from_good assms by (auto simp: loaded_def)
  then show "obeys X (if \<not> rs_cancel \<sigma>
      then abind (save \<lparr>dv_record = r, dv_state = \<sigma>\<lparr>rs_cancel := True\<rparr>\<rparr> ''cancellation_intent'') (\<lambda>v. Done (dv_record v))
      else Done r) (\<lambda>r. obeys X (give (summary (cx_codec X) r)) (\<lambda>_ _. True)) g"
    by (auto simp: awp_abind awp_give good_flags intro!: obeys_save split: sum.split)
qed

lemma obeys_accept_run:
  assumes "existing = None \<or> (c, pl_key q) \<in> snd g"
  shows "obeys X (accept_run X c args q t existing) (\<lambda>_ _. True) g"
proof -
  have begun: "obeys X (BeginRun c (pl_key q) (initial_state q t) (\<lambda>res. abind (stored_run res) (\<lambda>r. give (summary (cx_codec X) r))))
      (\<lambda>_ _. True) g" if "good (cx_platform X) (initial_state q t) \<or> (c, pl_key q) \<in> snd g"
    using that by (cases g) (auto simp: admits_def awp_abind stored_run_def awp_give split: sum.split)
  have "good (cx_platform X) (initial_state q t) \<or> (c, pl_key q) \<in> snd g"
    if "plan_validate (cx_platform X) q u = Inr x" "existing = None \<Longrightarrow> u = t" for u x
    using that assms good_initial [of "cx_platform X" q t] by auto
  note begun = begun [OF this]
  show ?thesis
    unfolding accept_run_def Let_def awp_abind [of "give (plan_validate _ _ _)"]
  proof (rule obeys_give)
    fix x
    assume valid: "plan_validate (cx_platform X) q (case Option.bind existing (\<lambda>r. json_u64 (json_index (rn_data r) ''acceptedAtUnixMs'')) of
        Some t \<Rightarrow> t | None \<Rightarrow> t) = Inr x"
    have "obeys X (abind (give res) (\<lambda>_. abind (authorize_plan X q args) (\<lambda>_.
        BeginRun c (pl_key q) (initial_state q t) (\<lambda>res. abind (stored_run res) (\<lambda>r. give (summary (cx_codec X) r))))))
        (\<lambda>_ _. True) g" for res :: "(string, unit) res"
      unfolding awp_abind [of "give res"] awp_abind [of "authorize_plan _ _ _"]
      by (intro obeys_give obeys_passive [OF passive_authorize_plan] begun [OF valid]) simp
    then show "obeys X (OpenRoot (pl_root q) (\<lambda>res. abind (give res) (\<lambda>_. abind (authorize_plan X q args) (\<lambda>_.
        BeginRun c (pl_key q) (initial_state q t) (\<lambda>res. abind (stored_run res) (\<lambda>r. give (summary (cx_codec X) r)))))))
        (\<lambda>_ _. True) g"
      by (cases g) (simp add: admits_def)
  qed
qed

lemma obeys_submit_run: "obeys X (submit_run X c args) (\<lambda>_ _. True) g"
proof -
  have "obeys X (FindRun c (pl_key q) (\<lambda>res. abind (stored_run res) (accept_run X c args q t))) (\<lambda>_ _. True) h" for q t h
    by (cases h) (auto simp: admits_def awp_abind [of "stored_run _"] stored_run_def awp_give map_err_def
        intro!: obeys_accept_run split: sum.split option.split)
  then show ?thesis
    unfolding submit_run_def Let_def awp_abind [of "give _"] awp_abind [of now_ms]
    by (intro obeys_give obeys_passive [OF passive_now])
qed

lemma obeys_run_action: "obeys X (run_action X args c action) (\<lambda>_ _. True) g"
proof -
  have resumed: "obeys X (found_run c i (drive X args)) (\<lambda>_ _. True) h" for i h
    by (intro obeys_found_run obeys_drive)
  have "obeys X (found_run c i (\<lambda>r.
       if action = ''status'' then give (summary (cx_codec X) r)
       else if action = ''export'' then Done (run_record_json (cx_platform X) r)
       else if action = ''verify'' then verify_record X r
       else if action = ''cancel'' then cancel_run X r
       else if action = ''resume'' then found_run c i (drive X args)
       else Fail ''GM_RUN_ACTION_UNSUPPORTED'')) (\<lambda>_ _. True) h" for i h
    by (rule obeys_found_run)
       (simp add: awp_give obeys_passive [OF passive_verify_record] obeys_cancel_run resumed split: sum.split)
  then show ?thesis
    unfolding run_action_def awp_abind by (intro obeys_give)
qed

lemma obeys_run_call: "obeys X (run_call X args) (\<lambda>_ _. True) g"
  unfolding run_call_def Let_def awp_abind
  by (intro obeys_give) (simp add: obeys_submit_run obeys_run_action)

end
