(* ===== verification/Run_System.thy ===== *)
theory Run_System
  imports Run_Safety
begin

text \<open>
  Any number of driver calls, interleaved at every call they make, on one run store. The store is
  relied on for what \<open>Run\<close> proves of its tables: a run is found under its key once it has been begun,
  beginning it again inserts nothing, and a record that is returned carries a state that was saved.
  The properties hold of every reachable system.
\<close>

section \<open>Discipline\<close>

text \<open>The state the driver last loaded or saved.\<close>

fun track :: "run_codec \<Rightarrow> run_state option \<Rightarrow> run_event \<Rightarrow> run_state option" where
  "track C \<sigma> (RGet c i (Inr (Some r))) = (case decoded C r of Some \<tau> \<Rightarrow> Some \<tau> | None \<Rightarrow> \<sigma>)"
| "track C \<sigma> (RAdvance r \<tau> t (Inr r')) = Some \<tau>"
| "track C \<sigma> _ = \<sigma>"

text \<open>What it may then do: submit, cancel, save.\<close>

fun allowed_event :: "run_context \<Rightarrow> run_state option \<Rightarrow> run_event \<Rightarrow> bool" where
  "allowed_event X \<sigma> (RSubmit t a sub res) = (case \<sigma> of Some \<tau> \<Rightarrow> may_submit X \<tau> t a sub | None \<Rightarrow> False)"
| "allowed_event X \<sigma> (RCancel i res) = (case \<sigma> of Some \<tau> \<Rightarrow> may_cancel \<tau> i | None \<Rightarrow> False)"
| "allowed_event X \<sigma> (RAdvance r \<tau> t res) = good (cx_platform X) \<tau>"
| "allowed_event X \<sigma> _ = True"

fun disciplined :: "run_context \<Rightarrow> run_state option \<Rightarrow> run_event list \<Rightarrow> bool" where
  "disciplined X \<sigma> [] = True"
| "disciplined X \<sigma> (e # es) = (allowed_event X \<sigma> e \<and> disciplined X (track (cx_codec X) \<sigma> e) es)"

definition empty_plan :: run_plan where
  "empty_plan = \<lparr>pl_schema = [], pl_key = [], pl_deadline = 0, pl_concurrency = 0, pl_attempts = 0, pl_failure = [],
     pl_uncertainty = [], pl_cancellation = [], pl_root = [], pl_steps = []\<rparr>"

definition blank_state :: run_state where
  "blank_state = initial_state empty_plan 0"

definition view :: "run_state option \<Rightarrow> run_state" where
  "view \<sigma> = (case \<sigma> of Some \<tau> \<Rightarrow> \<tau> | None \<Rightarrow> blank_state)"

lemma view_simps [simp]: "view None = blank_state" "view (Some \<tau>) = \<tau>"
  by (simp_all add: view_def)

lemma blank_state_allows [simp]: "\<not> may_submit X blank_state t a sub" "\<not> may_cancel blank_state i"
  by (simp_all add: may_submit_def may_cancel_def blank_state_def initial_state_def empty_plan_def)

lemma monitor_allows:
  assumes "run_monitor X (view \<sigma>, known) e = Some g"
  shows "allowed_event X \<sigma> e" "fst g = view (track (cx_codec X) \<sigma> e)"
  using assms
  by (cases e; auto simp: view_def split: if_splits option.splits sum.splits)+

lemma watched_disciplined:
  "watched (run_monitor X) (view \<sigma>, known) es = Some g \<Longrightarrow> disciplined X \<sigma> es"
proof (induction es arbitrary: \<sigma> known)
  case (Cons e es)
  then obtain h where h: "run_monitor X (view \<sigma>, known) e = Some h" "watched (run_monitor X) h es = Some g"
    by (auto split: bind_splits)
  note e = monitor_allows [OF h(1)]
  have "h = (view (track (cx_codec X) \<sigma> e), snd h)" using e(2) by (cases h) simp
  with h(2) have "disciplined X (track (cx_codec X) \<sigma> e) es" using Cons.IH by metis
  with e(1) show ?case by simp
qed simp

lemma watched_snoc:
  "watched M g (es @ [e]) = Option.bind (watched M g es) (\<lambda>h. M h e)"
  by (induction es arbitrary: g) (auto split: bind_splits)

section \<open>The system\<close>

type_synonym run_store = "run_state set \<times> (task_caller \<times> string) set"

fun run_store_step :: "run_codec \<Rightarrow> run_store \<Rightarrow> run_event \<Rightarrow> run_store option" where
  "run_store_step C (S, K) (RFind c k (Inr found)) = (if (c, k) \<in> K \<longleftrightarrow> found \<noteq> None then Some (S, K) else None)"
| "run_store_step C (S, K) (RGet c i (Inr (Some r))) =
     (case decoded C r of None \<Rightarrow> Some (S, K) | Some \<sigma> \<Rightarrow> if \<sigma> \<in> S then Some (S, K) else None)"
| "run_store_step C (S, K) (RBegin c k \<sigma> (Inr r)) =
     Some (if (c, k) \<in> K then (S, K) else (insert \<sigma> S, insert (c, k) K))"
| "run_store_step C (S, K) (RAdvance r \<sigma> t (Inr r')) = Some (insert \<sigma> S, K)"
| "run_store_step C (S, K) _ = Some (S, K)"

type_synonym thread = "run_context \<times> json act \<times> run_event list"

inductive run_system :: "run_codec \<Rightarrow> run_store \<Rightarrow> thread list \<Rightarrow> bool" for C where
  system_init: "run_system C ({}, {}) []"
| system_call: "\<lbrakk>run_system C s ts; cx_codec X = C\<rbrakk> \<Longrightarrow> run_system C s (ts @ [(X, run_call X args, [])])"
| system_step:
    "\<lbrakk>run_system C s ts; k < length ts; ts ! k = (X, p, es); act_step p e = Some q;
      run_store_step C s e = Some s'\<rbrakk>
     \<Longrightarrow> run_system C s' (ts[k := (X, q, es @ [e])])"

definition thread_ok :: "run_codec \<Rightarrow> run_store \<Rightarrow> thread \<Rightarrow> bool" where
  "thread_ok C s t \<longleftrightarrow>
     (case t of (X, p, es) \<Rightarrow> cx_codec X = C \<and>
        (\<exists>g. watched (run_monitor X) (blank_state, {}) es = Some g \<and> obeys X p (\<lambda>_ _. True) g \<and> snd g \<subseteq> snd s))"

definition store_good :: "run_codec \<Rightarrow> run_store \<Rightarrow> bool" where
  "store_good C s \<longleftrightarrow> (\<forall>\<sigma> \<in> fst s. good (rc_platform C) \<sigma>)"

lemma store_relied:
  assumes "store_good C s" "run_store_step C s e = Some s'" "cx_codec X = C"
  shows "relied X e"
  using assms
  by (cases s; cases "(X, e)" rule: relied.cases)
     (auto simp: store_good_def sound_record_def split: option.splits if_splits)

lemma store_keys_grow: "run_store_step C s e = Some s' \<Longrightarrow> snd s \<subseteq> snd s'"
  by (cases "(C, s, e)" rule: run_store_step.cases) (auto split: if_splits option.splits)

lemma monitor_step_keys:
  assumes "run_monitor X g e = Some g'" "snd g \<subseteq> snd s" "run_store_step C s e = Some s'"
  shows "snd g' \<subseteq> snd s'"
  using assms
  by (cases g; cases "(C, s, e)" rule: run_store_step.cases) (auto split: if_splits option.splits sum.splits)

lemma store_step_good:
  assumes "store_good C s" "run_store_step C s e = Some s'" "run_monitor X g e = Some g'" "snd g \<subseteq> snd s"
    "cx_codec X = C"
  shows "store_good C s'"
  using assms
  by (cases g; cases "(C, s, e)" rule: run_store_step.cases) (auto simp: store_good_def split: if_splits option.splits sum.splits)

lemma system_invariant:
  "run_system C s ts \<Longrightarrow> store_good C s \<and> (\<forall>t \<in> set ts. thread_ok C s t)"
proof (induction rule: run_system.induct)
  case system_init
  then show ?case by (simp add: store_good_def)
next
  case (system_call s ts X args)
  have "thread_ok C s (X, run_call X args, [])"
    using obeys_run_call system_call(2) by (simp add: thread_ok_def)
  with system_call show ?case by simp
next
  case (system_step s ts k X p es e q s')
  have "thread_ok C s (X, p, es)" using system_step by (metis nth_mem)
  then obtain g where g: "cx_codec X = C" "watched (run_monitor X) (blank_state, {}) es = Some g"
      "obeys X p (\<lambda>_ _. True) g" "snd g \<subseteq> snd s"
    by (auto simp: thread_ok_def)
  have "relied X e" using store_relied system_step g(1) by blast
  then obtain g' where g': "run_monitor X g e = Some g'" "obeys X q (\<lambda>_ _. True) g'"
    using awp_step [OF g(3) system_step(4)] by blast
  have this_thread: "thread_ok C s' (X, q, es @ [e])"
    using g g' monitor_step_keys [OF g'(1) g(4) system_step(5)] by (cases g') (simp add: thread_ok_def watched_snoc)
  moreover have "thread_ok C s' t" if "t \<in> set ts" for t
    using that system_step store_keys_grow [OF system_step(5)] by (fastforce simp: thread_ok_def)
  ultimately have "\<forall>t \<in> set (ts[k := (X, q, es @ [e])]). thread_ok C s' t"
    using set_update_subset_insert [of ts k "(X, q, es @ [e])"] by blast
  then show ?case
    using store_step_good [OF _ system_step(5) g'(1) g(4,1)] system_step by blast
qed

section \<open>Properties\<close>

text \<open>
  C18: Every state of a run that any driver has stored, under any interleaving, loads again, has sent no
  step before its dependencies were verified, and has no more steps active than the plan allows.
\<close>

theorem stored_states_good:
  assumes "run_system C (S, K) ts" "\<sigma> \<in> S"
  shows "state_checks (rc_platform C) \<sigma> = Inr () \<and> ordered_steps \<sigma> \<and> active_count \<sigma> \<le> pl_concurrency (rs_plan \<sigma>)"
  using system_invariant [OF assms(1)] assms(2) by (auto simp: store_good_def good_def)

text \<open>
  C17: Every driver, under any interleaving and whatever it is answered, submits a tool only for a step whose
  submission it has saved, of a run that is not stopping, with every dependency verified; and
  cancels a task only after it has saved the intent.
\<close>

theorem driver_disciplined:
  assumes "run_system C s ts" "(X, p, es) \<in> set ts"
  shows "disciplined X None es"
proof -
  obtain g where "watched (run_monitor X) (view None, {}) es = Some g"
    using system_invariant [OF assms(1)] assms(2) by (fastforce simp: thread_ok_def)
  then show ?thesis by (rule watched_disciplined)
qed

section \<open>A concrete run\<close>

text \<open>A plan of one step, submitted by one call and dispatched by the next.\<close>

lemma act_step_abind: "act_step p e = Some q \<Longrightarrow> act_step (abind p k) e = Some (abind q k)"
  by (cases p; cases e) (auto split: if_splits)

lemma abind_assoc: "abind (abind p f) k = abind p (\<lambda>x. abind (f x) k)"
  by (induction p) simp_all

lemma act_run_abind: "act_run p es = Some (Done x) \<Longrightarrow> act_run (abind p k) (es @ fs) = act_run (k x) fs"
proof (induction es arbitrary: p)
  case (Cons e es)
  then show ?case by (auto split: bind_splits simp: act_step_abind)
qed simp

lemma system_run:
  "\<lbrakk>run_system C s ts; k < length ts; ts ! k = (X, p, es); act_run p fs = Some q;
    fold (\<lambda>e s. Option.bind s (\<lambda>s. run_store_step C s e)) fs (Some s) = Some s'\<rbrakk>
   \<Longrightarrow> run_system C s' (ts[k := (X, q, es @ fs)])"
proof (induction fs arbitrary: s ts p es)
  case Nil
  then show ?case by (metis act_run.simps(1) append_Nil2 fold_simps(1) list_update_id option.inject)
next
  case (Cons f fs)
  have none: "fold (\<lambda>e s. Option.bind s (\<lambda>s. run_store_step C s e)) gs None = None" for gs
    by (induction gs) simp_all
  obtain p' where p': "act_step p f = Some p'" "act_run p' fs = Some q"
    using Cons.prems(4) by (auto split: bind_splits)
  obtain t where t: "run_store_step C s f = Some t"
      "fold (\<lambda>e s. Option.bind s (\<lambda>s. run_store_step C s e)) fs (Some t) = Some s'"
    using Cons.prems(5) none by (cases "run_store_step C s f") auto
  have "run_system C t (ts[k := (X, p', es @ [f])])"
    by (rule system_step [OF Cons.prems(1-3) p'(1) t(1)])
  from Cons.IH [OF this _ _ p'(2) t(2), of "es @ [f]"] show ?case using Cons.prems(2) by simp
qed

definition tiny_platform :: platform where
  "tiny_platform = \<lparr>sha256 = (\<lambda>_. []), json_to_vec = (\<lambda>_. []), hex_encode = (\<lambda>_. []),
     hex_decode = (\<lambda>_. Some []), nfc = id\<rparr>"

definition run_step_a :: plan_step where
  "run_step_a = \<lparr>st_id = ''a'', st_depends = [], st_alias = ''t'', st_capability = Sha256Digest [],
     st_provider = ''sha256:'', st_arguments = [], st_inputs_digest = Sha256Digest [],
     st_policy = \<lparr>ap_schema = ''gaugemesh.json-artifact-policy/1'',
                  ap_checks = [\<lparr>ck_pointer = ''/v'', ck_expected = JNull, ck_required = True\<rparr>]\<rparr>,
     st_policy_digest = Sha256Digest [], st_effect = NonIdempotentWrite, st_max_runtime = 1000, st_max_artifact = 1000\<rparr>"

definition sample_plan :: run_plan where
  "sample_plan = \<lparr>pl_schema = ''gaugemesh.run-plan/1'', pl_key = ''k'', pl_deadline = 100000, pl_concurrency = 1,
     pl_attempts = 1, pl_failure = ''fail_fast_account_inflight'', pl_uncertainty = ''stop_no_replay'',
     pl_cancellation = ''intent_then_poll'', pl_root = ''/r'', pl_steps = [run_step_a]\<rparr>"

definition sample_run_state :: run_state where
  "sample_run_state = initial_state sample_plan 0"

definition run_tool :: federated_tool where
  "run_tool = sample_tool\<lparr>ft_input_schema :=
     JObj [(''additionalProperties'', JBool False), (''properties'', JObj []), (''type'', JStr ''object'')]\<rparr>"

definition sample_context :: run_context where
  "sample_context = \<lparr>
     cx_codec = \<lparr>rc_platform = tiny_platform, rc_plan = (\<lambda>_. Some sample_plan),
                 rc_state = (\<lambda>_. Some sample_run_state), rc_parse = (\<lambda>_. None)\<rparr>,
     cx_federation = federation_default\<lparr>fed_tools := fmupd ''t'' run_tool fmempty\<rparr>,
     cx_identity = \<lparr>si_principal = ''local-demo'', si_tenant = ''local'', si_scopes = []\<rparr>,
     cx_debug = (\<lambda>_. [])\<rparr>"

definition run_lease :: capability_lease where
  "run_lease = \<lparr>lease_id = ''l'', lease_principal = ''local-demo'', lease_tenant = ''local'', request_identity = ''r'',
     capabilities = [ft_identity run_tool], lease_scope = {||}, expires_at = 100000, lease_money = 0, lease_tokens = 0,
     lease_retries = 0, side_effects = {|NonIdempotentWrite|}, manifest = Sha256Digest []\<rparr>"

lemma tiny_digests [simp]: "of_json tiny_platform v = Sha256Digest []"
  by (simp add: of_json_def of_bytes_def tiny_platform_def)

lemma tiny_fields [simp]: "json_to_vec tiny_platform v = []" "hex_encode tiny_platform b = []"
  by (simp_all add: tiny_platform_def)

lemma context_fields [simp]:
  "cx_platform sample_context = tiny_platform" "rc_state (cx_codec sample_context) v = Some sample_run_state"
  "rc_plan (cx_codec sample_context) v = Some sample_plan"
  "si_principal (cx_identity sample_context) = ''local-demo''" "si_tenant (cx_identity sample_context) = ''local''"
  by (simp_all add: sample_context_def)

lemma sample_tool_of: "tool_of sample_context ''t'' = Inr run_tool"
  by (simp add: tool_of_def fed_tool_def sample_context_def)

lemma sample_input: "validate_input (ft_input_schema run_tool) (JObj []) 0 = Inr ()"
  unfolding validate_input_conforms
  by (subst schema_shape.simps, subst conforms.simps)
     (simp add: schema_eval run_tool_def kind_matches_def chosen_def required_in_def)

lemma sample_plan_valid: "plan_validate tiny_platform sample_plan 0 = Inr ()"
proof -
  have bounds: "plan_bounds sample_plan 0 = Inr ()"
    by (simp add: plan_bounds_def guard_simps sample_plan_def run_step_a_def plan_identifier_def ascii_in_def
        is_ascii_alphanumeric_def starts_with_def sort_dedup_def saturating_add_def)
  have step: "step_valid tiny_platform sample_plan run_step_a = Inr ()"
    by (simp add: step_valid_def Let_def guard_simps sample_plan_def run_step_a_def plan_identifier_def ascii_in_def
        is_ascii_alphanumeric_def sort_dedup_def policy_valid_def pointer_valid_def starts_with_def)
  have "needs (pl_steps sample_plan) = {}" by (simp add: needs_def sample_plan_def run_step_a_def)
  with bounds step show ?thesis by (simp add: plan_validate_cases sample_plan_def acyclic_def)
qed

definition authority_trace :: "run_event list" where
  "authority_trace =
     [RLease ''l'' (Inr (Some run_lease)), RSource (cap_source (ft_identity run_tool)) True, RNow (Some 5)]"

lemma sample_lease_accepts:
  "authorize_current_invocation tiny_platform run_lease (cx_identity sample_context) (ft_identity run_tool) NonIdempotentWrite 5 = Inr ()"
  by (simp add: authorize_current_invocation_def authorize_invocation_def authorize_def run_lease_def manifest_digest_def
      same_native_def identity_authorizes_effect_def)

lemma sample_authorized:
  assumes "argument_str args ''leaseId'' = Some ''l''"
  shows "act_run (authorize_plan sample_context sample_plan args) authority_trace = Some (Done ())"
proof -
  have step: "st_alias run_step_a = ''t''" "st_arguments run_step_a = []" "st_effect run_step_a = NonIdempotentWrite"
    "st_capability run_step_a = Sha256Digest []" "st_provider run_step_a = ''sha256:''" "pl_steps sample_plan = [run_step_a]"
    by (simp_all add: run_step_a_def sample_plan_def)
  show ?thesis
    using sample_input sample_lease_accepts
    by (simp add: authorize_plan_def assms authority_trace_def step authorize_step_def Let_def sample_tool_of
        capability_digest_def digest_to_string_def now_ms_def)
qed

definition sample_args :: "string \<Rightarrow> (string \<times> json) list" where
  "sample_args action = [(''action'', JStr action), (''leaseId'', JStr ''l''), (''plan'', JNull), (''runId'', JStr ''i'')]"

lemma sample_arguments [simp]:
  "argument_str (sample_args a) ''action'' = Some a" "argument_str (sample_args a) ''leaseId'' = Some ''l''"
  "argument_str (sample_args a) ''runId'' = Some ''i''" "map_of (sample_args a) ''plan'' = Some JNull"
  by (simp_all add: argument_str_def sample_args_def)

definition local_caller :: task_caller where
  "local_caller = \<lparr>caller_principal = ''local-demo'', caller_tenant = ''local''\<rparr>"

definition sample_run_record :: run_record where
  "sample_run_record = \<lparr>rn_schema = RUN_SCHEMA, rn_id = ''i'', rn_caller = local_caller, rn_key = ''k'',
     rn_plan_digest = Sha256Digest [], rn_version = 0,
     rn_data = JObj [(''plan'', JObj [(''runKey'', JStr ''k'')])],
     rn_journal = [\<lparr>ev_version = 0, ev_kind = ''accepted'', ev_state = Sha256Digest [],
                    ev_previous = default_digest, ev_event = Sha256Digest []\<rparr>]\<rparr>"

definition submit_trace :: "run_event list" where
  "submit_trace = RNow (Some 0) # RFind local_caller ''k'' (Inr None) # ROpen ''/r'' (Inr ()) # authority_trace
     @ [RBegin local_caller ''k'' sample_run_state (Inr sample_run_record)]"

definition run_submission :: json where
  "run_submission = step_submission tiny_platform ''i'' sample_plan run_step_a [] 5"

definition sample_sent :: run_state where
  "sample_sent = set_step ''a'' (step_state_default\<lparr>ss_phase := Submitting, ss_arguments := Some [],
     ss_submission := Some run_submission\<rparr>) sample_run_state"

definition resume_trace :: "run_event list" where
  "resume_trace = RGet local_caller ''i'' (Inr (Some sample_run_record)) # RGet local_caller ''i'' (Inr (Some sample_run_record))
     # authority_trace @ RNow (Some 5) # authority_trace @
     [RNow (Some 5), RAdvance sample_run_record sample_sent ''task_submission_intent'' (Inr sample_run_record),
      RSubmit run_tool [] run_submission (Inl ''lost'')]"

lemma sample_caller_new: "task_caller_new ''local-demo'' ''local'' = Inr local_caller"
  by (simp add: task_caller_new_def validate_identifier_def local_caller_def MAX_IDENTIFIER_BYTES_def identifier_ok_def
      has_control_def utf8_ascii char_is_control_def)

lemma sample_authority [simp]:
  "act_run (abind (authorize_plan sample_context sample_plan (sample_args a)) k) (authority_trace @ fs) = act_run (k ()) fs"
  by (rule act_run_abind, rule sample_authorized) simp

lemma sample_started: "\<exists>q. act_run (run_call sample_context (sample_args ''submit'')) submit_trace = Some q"
proof -
  have plan: "pl_key sample_plan = ''k''" "pl_root sample_plan = ''/r''" by (simp_all add: sample_plan_def)
  show ?thesis
    unfolding submit_trace_def
    by (simp add: run_call_def Let_def sample_caller_new submit_run_def now_ms_def stored_run_def accept_run_def
        sample_plan_valid plan sample_run_state_def)
qed

lemma sample_verified: "run_verify tiny_platform sample_run_record = Inr ()"
  by (simp add: run_verify_Inr sample_run_record_def state_digest_def event_digest_def json_index_def)

lemma sample_resumed: "\<exists>q. act_run (run_call sample_context (sample_args ''resume'')) resume_trace = Some q"
proof -
  have state: "state_from (cx_codec sample_context) sample_run_record = Inr sample_run_state"
    using good_initial [OF sample_plan_valid] sample_verified by (simp add: state_from_def good_def sample_run_state_def)
  have fields: "rs_plan sample_run_state = sample_plan" "\<not> rs_cancel sample_run_state" "\<not> rs_deadline_seen sample_run_state"
    "pl_steps sample_plan = [run_step_a]" "st_id run_step_a = ''a''" "pl_deadline sample_plan = 100000"
    "pl_concurrency sample_plan = 1" "step_at sample_run_state ''a'' = step_state_default" "st_alias run_step_a = ''t''"
    "st_arguments run_step_a = []" "st_depends run_step_a = []" "rn_id sample_run_record = ''i''"
    by (simp_all add: sample_run_state_def initial_state_def sample_plan_def run_step_a_def step_at_def sample_run_record_def)
  have phases: "phases sample_run_state = [Pending]" "phases sample_sent = [Submitting]"
    by (simp_all add: phases_def sample_sent_def sample_run_state_def initial_state_def fields sample_plan_def run_step_a_def
        step_at_def step_state_default_def sorted_list_of_fset.rep_eq set_step_def)
  have flags: "\<not> rs_cancel sample_sent" "\<not> rs_deadline_seen sample_sent"
    by (simp_all add: sample_sent_def fields)
  have go: "\<not> stopping sample_run_state" "\<not> stopping sample_sent" "active_count sample_run_state = 0" "ready sample_run_state run_step_a"
    by (simp_all add: stopping_def phases flags fields active_count_def ready_def step_state_default_def)
  have sent: "step_at sample_sent ''a'' = step_state_default\<lparr>ss_phase := Submitting, ss_arguments := Some [],
      ss_submission := Some run_submission\<rparr>"
    by (simp add: sample_sent_def)
  have default: "ss_phase step_state_default = Pending" "ss_task_id step_state_default = None" by (simp_all add: step_state_default_def)
  have dispatch: "\<exists>q. act_run (abind (dispatch_step sample_context (sample_args ''resume'') \<lparr>dv_record = sample_run_record, dv_state = sample_run_state\<rparr> run_step_a) k)
      (authority_trace @ [RNow (Some 5), RAdvance sample_run_record sample_sent ''task_submission_intent'' (Inr sample_run_record),
       RSubmit run_tool [] run_submission (Inl ''lost'')]) = Some q" for k
  proof -
    have resolved: "resolve_inputs run_step_a sample_run_state = Inr []" by (simp add: resolve_inputs_def fields)
    have intent: "set_step ''a'' (step_state_default\<lparr>ss_phase := Submitting, ss_arguments := Some [],
        ss_submission := Some (step_submission tiny_platform ''i'' sample_plan run_step_a [] 5)\<rparr>) sample_run_state = sample_sent"
      by (simp add: sample_sent_def run_submission_def)
    show ?thesis
      by (simp add: dispatch_step_def Let_def fields resolved sample_tool_of sample_input now_ms_def save_def intent stored_run_def
          submit_step_def sent go abind_assoc run_submission_def)
  qed
  show ?thesis
    unfolding resume_trace_def
    by (simp add: run_call_def Let_def sample_caller_new run_action_def found_run_def stored_run_def drive_def state drive_state_def
        fields observe_deadline_def now_ms_def reverify_def recover_step_def poll_step_def default finish_drive_def go dispatch abind_assoc)
qed

definition sample_store :: run_store where
  "sample_store = ({sample_run_state}, {(local_caller, ''k'')})"

text \<open>The submitting call has begun the run, the resuming call has submitted its step.\<close>

lemma sample_system:
  "\<exists>p q. run_system (cx_codec sample_context) ({sample_sent, sample_run_state}, {(local_caller, ''k'')})
     [(sample_context, p, submit_trace), (sample_context, q, resume_trace)]"
proof -
  let ?C = "cx_codec sample_context"
  obtain p where p: "act_run (run_call sample_context (sample_args ''submit'')) submit_trace = Some p"
    using sample_started by blast
  obtain q where q: "act_run (run_call sample_context (sample_args ''resume'')) resume_trace = Some q"
    using sample_resumed by blast
  have "run_system ?C ({}, {}) [(sample_context, run_call sample_context (sample_args ''submit''), [])]"
    using system_call [OF system_init refl, of sample_context "sample_args ''submit''"] by simp
  from system_run [OF this _ _ p, of 0 _ "[]" sample_store]
  have "run_system ?C sample_store [(sample_context, p, submit_trace)]"
    by (simp add: submit_trace_def authority_trace_def sample_store_def)
  from system_call [OF this refl, of "sample_args ''resume''"]
  have "run_system ?C sample_store [(sample_context, p, submit_trace),
      (sample_context, run_call sample_context (sample_args ''resume''), [])]" by simp
  from system_run [OF this _ _ q, of 1 _ "[]"]
  have "run_system ?C ({sample_sent, sample_run_state}, {(local_caller, ''k'')})
      [(sample_context, p, submit_trace), (sample_context, q, resume_trace)]"
    by (simp add: resume_trace_def authority_trace_def sample_store_def decoded_def)
  then show ?thesis by blast
qed

theorem stored_states_good_witness:
  "state_checks tiny_platform sample_sent = Inr () \<and> ordered_steps sample_sent
   \<and> active_count sample_sent \<le> pl_concurrency (rs_plan sample_sent)"
proof -
  obtain p q where "run_system (cx_codec sample_context) ({sample_sent, sample_run_state}, {(local_caller, ''k'')})
      [(sample_context, p, submit_trace), (sample_context, q, resume_trace)]"
    using sample_system by blast
  from stored_states_good [OF this, of sample_sent] show ?thesis by simp
qed

theorem driver_disciplined_witness:
  "disciplined sample_context None resume_trace
   \<and> RSubmit run_tool [] run_submission (Inl ''lost'') \<in> set resume_trace"
proof -
  obtain p q where "run_system (cx_codec sample_context) ({sample_sent, sample_run_state}, {(local_caller, ''k'')})
      [(sample_context, p, submit_trace), (sample_context, q, resume_trace)]"
    using sample_system by blast
  from driver_disciplined [OF this, of sample_context q resume_trace] show ?thesis
    by (simp add: resume_trace_def)
qed

end
