(* ===== verification/Artifact.thy ===== *)
theory Artifact
  imports Run_Plan
begin

text \<open>
  Models \<open>open_root\<close> and \<open>read_artifact\<close> of \<open>crates/gaugemesh/src/runs.rs\<close> on a Unix system: every
  component of a path is opened relative to the descriptor of the directory before it, without
  following symbolic links. The system calls (\<open>openat\<close>, \<open>fstat\<close>, \<open>read\<close>) are the record
  \<open>file_system\<close>; what they do to a tree of files is the hypothesis \<open>serves_tree\<close>.
\<close>

section \<open>Paths\<close>

datatype component = RootDir | CurDir | ParentDir | Normal string

text \<open>\<open>Path::components\<close>: empty and inner \<open>.\<close> segments disappear.\<close>

fun segment :: "string \<Rightarrow> component option" where
  "segment s = (if s = [] \<or> s = ''.'' then None else Some (if s = ''..'' then ParentDir else Normal s))"

definition path_components :: "string \<Rightarrow> component list" where
  "path_components p =
     (let parts = split_on (CHR ''/'') p in
      if starts_with ''/'' p then RootDir # List.map_filter segment parts
      else if hd parts = ''.'' then CurDir # List.map_filter segment (tl parts)
      else List.map_filter segment parts)"

section \<open>Reading an artifact\<close>

record 'd file_system =
  fs_root :: "'d option"
  fs_openat :: "'d \<Rightarrow> string \<Rightarrow> bool \<Rightarrow> 'd option"
  fs_is_file :: "'d \<Rightarrow> bool option"
  fs_read :: "'d \<Rightarrow> nat \<Rightarrow> bytes option"

definition IO_ERROR :: string where "IO_ERROR = ''GM_IO''"

fun open_components :: "'d file_system \<Rightarrow> 'd \<Rightarrow> component list \<Rightarrow> (string, 'd) res" where
  "open_components F d [] = Inr d"
| "open_components F d (c # cs) =
     (case c of
        RootDir \<Rightarrow> open_components F d cs
      | Normal name \<Rightarrow>
          rbind (ok_or (fs_openat F d name True) ''GM_RUN_ARTIFACT_PATH_UNSAFE'') (\<lambda>d. open_components F d cs)
      | _ \<Rightarrow> Inl ''GM_RUN_ARTIFACT_PATH_UNSAFE'')"

definition open_root :: "'d file_system \<Rightarrow> string \<Rightarrow> (string, 'd) res" where
  "open_root F p =
     rbind (ensure (starts_with ''/'' p) ''GM_RUN_ARTIFACT_ROOT_INVALID'') (\<lambda>_.
     rbind (ok_or (fs_root F) IO_ERROR) (\<lambda>d. open_components F d (path_components p)))"

text \<open>The last component need not be a directory. \<open>as_os_str\<close> of a component is its text.\<close>

fun component_text :: "component \<Rightarrow> string" where
  "component_text RootDir = ''/''"
| "component_text CurDir = ''.''"
| "component_text ParentDir = ''..''"
| "component_text (Normal s) = s"

fun open_file :: "'d file_system \<Rightarrow> 'd \<Rightarrow> component list \<Rightarrow> (string, 'd) res" where
  "open_file F d [] = Inr d"
| "open_file F d (c # cs) =
     rbind (ok_or (fs_openat F d (component_text c) (cs \<noteq> [])) ''GM_RUN_ARTIFACT_MISSING_OR_UNSAFE'') (\<lambda>d. open_file F d cs)"

definition read_artifact :: "'d file_system \<Rightarrow> string \<Rightarrow> string \<Rightarrow> u64 \<Rightarrow> (string, bytes) res" where
  "read_artifact F root p limit =
     rbind (ensure (p \<noteq> [] \<and> length p \<le> 1024
              \<and> list_all (\<lambda>c. case c of Normal s \<Rightarrow> True | _ \<Rightarrow> False) (path_components p))
              ''GM_RUN_ARTIFACT_PATH_UNSAFE'') (\<lambda>_.
     rbind (open_root F root) (\<lambda>d.
     rbind (open_file F d (path_components p)) (\<lambda>d.
     rbind (ok_or (fs_is_file F d) IO_ERROR) (\<lambda>regular.
     rbind (ensure regular ''GM_RUN_ARTIFACT_NOT_REGULAR'') (\<lambda>_.
     rbind (ok_or (fs_read F d (unat (limit + 1))) IO_ERROR) (\<lambda>content.
     rbind (ensure (length content \<le> unat limit) ''GM_RUN_ARTIFACT_BOUND'') (\<lambda>_.
     Inr content)))))))"

section \<open>Trees of files\<close>

datatype node = Directory "(string \<times> node) list" | Regular bytes | Symlink string | Special

fun is_directory :: "node \<Rightarrow> bool" where
  "is_directory (Directory es) = True"
| "is_directory _ = False"

text \<open>\<open>openat\<close> with \<open>O_NOFOLLOW\<close>, and with \<open>O_DIRECTORY\<close> where the flag is set.\<close>

fun open_entry :: "node \<Rightarrow> string \<Rightarrow> bool \<Rightarrow> node option" where
  "open_entry (Directory es) name must_be_directory =
     (case map_of es name of
        None \<Rightarrow> None
      | Some (Symlink target) \<Rightarrow> None
      | Some n \<Rightarrow> if must_be_directory \<and> \<not> is_directory n then None else Some n)"
| "open_entry _ name must_be_directory = None"

definition serves_tree :: "'d file_system \<Rightarrow> ('d \<Rightarrow> node) \<Rightarrow> node \<Rightarrow> bool" where
  "serves_tree F at root \<longleftrightarrow>
     map_option at (fs_root F) = Some root
     \<and> (\<forall>d name b. map_option at (fs_openat F d name b) = open_entry (at d) name b)
     \<and> (\<forall>d. fs_is_file F d = Some (case at d of Regular c \<Rightarrow> True | _ \<Rightarrow> False))
     \<and> (\<forall>d n c. at d = Regular c \<longrightarrow> fs_read F d n = Some (take n c))"

text \<open>What stands at the end of a path of names that passes through directories only.\<close>

fun node_at :: "node \<Rightarrow> string list \<Rightarrow> node option" where
  "node_at n [] = Some n"
| "node_at (Directory es) (name # names) =
     (case map_of es name of Some m \<Rightarrow> node_at m names | None \<Rightarrow> None)"
| "node_at _ (name # names) = None"

fun proper_names :: "component list \<Rightarrow> string list option" where
  "proper_names [] = Some []"
| "proper_names (Normal s # cs) = map_option (Cons s) (proper_names cs)"
| "proper_names (RootDir # cs) = None"
| "proper_names (CurDir # cs) = None"
| "proper_names (ParentDir # cs) = None"

lemma serves_open:
  "\<lbrakk>serves_tree F at root; fs_openat F d name b = Some e\<rbrakk> \<Longrightarrow> open_entry (at d) name b = Some (at e)"
  unfolding serves_tree_def by (metis option.simps(9))

lemma open_entry_node: "open_entry n name b = Some m \<Longrightarrow> node_at n [name] = Some m"
  by (cases n) (auto split: option.splits node.splits if_splits)

lemma node_at_Cons: "node_at n [name] = Some m \<Longrightarrow> node_at n (name # names) = node_at m names"
  by (cases n) (auto split: option.splits)

lemma open_components_node:
  assumes "serves_tree F at root" "open_components F d cs = Inr e"
  shows "\<exists>ns. proper_names (filter ((\<noteq>) RootDir) cs) = Some ns \<and> node_at (at d) ns = Some (at e)"
  using assms(2)
proof (induction cs arbitrary: d)
  case (Cons c cs)
  show ?case
  proof (cases c)
    case (Normal name)
    with Cons.prems obtain d' where d': "fs_openat F d name True = Some d'" "open_components F d' cs = Inr e"
      by (auto simp: guard_simps)
    from Cons.IH [OF d'(2)] obtain ns where
      "proper_names (filter ((\<noteq>) RootDir) cs) = Some ns" "node_at (at d') ns = Some (at e)" by blast
    with node_at_Cons [OF open_entry_node [OF serves_open [OF assms(1) d'(1)]]] Normal show ?thesis by simp
  qed (use Cons in auto)
qed simp

lemma open_file_node:
  assumes "serves_tree F at root" "open_file F d cs = Inr e" "proper_names cs = Some ns"
  shows "node_at (at d) ns = Some (at e)"
  using assms(2,3)
proof (induction cs arbitrary: d ns)
  case (Cons c cs)
  then obtain name ms where c: "c = Normal name" "ns = name # ms" "proper_names cs = Some ms"
    by (cases c) auto
  with Cons.prems obtain d' where d': "fs_openat F d name (cs \<noteq> []) = Some d'" "open_file F d' cs = Inr e"
    by (auto simp: guard_simps)
  from Cons.IH [OF d'(2) c(3)] node_at_Cons [OF open_entry_node [OF serves_open [OF assms(1) d'(1)]]] c(2)
  show ?case by simp
qed simp

lemma node_at_append: "node_at n xs = Some m \<Longrightarrow> node_at n (xs @ ys) = node_at m ys"
  by (induction n xs rule: node_at.induct) (auto split: option.splits)

lemma normal_names: "list_all (\<lambda>c. case c of Normal s \<Rightarrow> True | _ \<Rightarrow> False) cs \<Longrightarrow> \<exists>ns. proper_names cs = Some ns"
  by (induction cs rule: proper_names.induct) auto

section \<open>A concrete file system\<close>

text \<open>A tree whose descriptors are its nodes, with an artifact beside a link that leaves the root.\<close>

definition tree_system :: "node \<Rightarrow> node file_system" where
  "tree_system root = \<lparr>fs_root = Some root, fs_openat = open_entry,
     fs_is_file = (\<lambda>n. Some (case n of Regular c \<Rightarrow> True | _ \<Rightarrow> False)),
     fs_read = (\<lambda>n k. case n of Regular c \<Rightarrow> Some (take k c) | _ \<Rightarrow> None)\<rparr>"

lemma tree_system_serves: "serves_tree (tree_system root) id root"
  by (simp add: serves_tree_def tree_system_def option.map_id0)

definition sample_tree :: node where
  "sample_tree = Directory [(''r'', Directory [(''a'', Regular ''content''), (''out'', Symlink ''/etc'')])]"

lemma sample_components: "path_components ''/r'' = [RootDir, Normal ''r'']" "path_components ''a'' = [Normal ''a'']"
  by (simp_all add: path_components_def starts_with_def map_filter_def)

lemma sample_read: "read_artifact (tree_system sample_tree) ''/r'' ''a'' 100 = Inr ''content''"
  by (simp add: read_artifact_def open_root_def sample_components starts_with_def tree_system_def sample_tree_def)

section \<open>Properties\<close>

text \<open>
  C21: What is read as an artifact is the content of a regular file within the bound that stands below the
  artifact root, on a path of proper names through directories: no symbolic link is followed and no
  parent is entered, on the way to the root or below it.
\<close>

theorem artifact_below_root:
  assumes "serves_tree F at tree" "read_artifact F root p limit = Inr content" "limit < - 1"
  shows "\<exists>rs ps. proper_names (filter ((\<noteq>) RootDir) (path_components root)) = Some rs
    \<and> proper_names (path_components p) = Some ps
    \<and> node_at tree (rs @ ps) = Some (Regular content) \<and> length content \<le> unat limit"
proof -
  obtain d e where opened: "open_root F root = Inr d" "open_file F d (path_components p) = Inr e"
      and read: "fs_is_file F e = Some True" "fs_read F e (unat (limit + 1)) = Some content" "length content \<le> unat limit"
      and normal: "list_all (\<lambda>c. case c of Normal s \<Rightarrow> True | _ \<Rightarrow> False) (path_components p)"
    using assms(2) by (auto simp: read_artifact_def guard_simps)
  obtain top where top: "fs_root F = Some top" "open_components F top (path_components root) = Inr d"
    using opened(1) by (auto simp: open_root_def guard_simps)
  have "at top = tree" using assms(1) top(1) by (simp add: serves_tree_def)
  with open_components_node [OF assms(1) top(2)] obtain rs where
    rs: "proper_names (filter ((\<noteq>) RootDir) (path_components root)) = Some rs" "node_at tree rs = Some (at d)" by auto
  obtain ps where ps: "proper_names (path_components p) = Some ps" using normal_names [OF normal] by blast
  have "node_at tree (rs @ ps) = Some (at e)"
    using node_at_append [OF rs(2)] open_file_node [OF assms(1) opened(2) ps] by simp
  moreover obtain whole where whole: "at e = Regular whole"
    using assms(1) read(1) by (cases "at e") (auto simp: serves_tree_def)
  have "content = take (unat (limit + 1)) whole"
    using assms(1) read(2) whole by (simp add: serves_tree_def)
  moreover have "unat (limit + 1) = unat limit + 1"
    using assms(3) by (simp add: word_less_nat_alt unat_word_ariths unat_max_word)
  ultimately show ?thesis using rs(1) ps whole read(3) by (auto simp: min_def split: if_splits)
qed

theorem artifact_below_root_witness:
  "\<exists>rs ps. node_at sample_tree (rs @ ps) = Some (Regular ''content'')"
proof -
  have "(100 :: u64) < - 1" by simp
  from artifact_below_root [OF tree_system_serves sample_read this] show ?thesis by blast
qed

end
