(* ===== verification/Config.thy ===== *)
theory Config
  imports Protocol Policy Route Security Digest
begin

text \<open>
  Models \<open>crates/gaugemesh-core/src/config.rs\<close>: the configuration of the gateway and \<open>Config::validate\<close>.
  Parsing the file (derived \<open>serde\<close> code), URLs and socket addresses is not code of the repository:
  a configuration is the parsed record, a URL what the code reads of it, and the two textual address
  parsers of the standard library are the record \<open>net_parsers\<close>.
\<close>

section \<open>The configuration\<close>

datatype capability_mode = Transparent | LeaseMode

definition default_capability_mode :: capability_mode where "default_capability_mode = Transparent"

datatype discovery_mode = Strict | Degraded

definition default_discovery_mode :: discovery_mode where "default_discovery_mode = Strict"

datatype runtime_config = MemoryRuntime | SqliteRuntime (runtime_database: string)

record full_url = url +
  url_fragment :: "string option"
  url_query :: "string option"
  url_path :: string
  url_text :: string

record remote_config =
  tls_certificate :: string
  tls_private_key :: string
  public_origin :: full_url
  issuer :: full_url
  rc_audience :: string
  rc_resource :: string
  jwks_url :: full_url
  required_scopes :: "string list"
  jwks_cache_ttl_seconds :: u64
  clock_skew_seconds :: u64
  trusted_proxies :: "ip_addr list"

definition default_jwks_cache_ttl_seconds :: u64 where "default_jwks_cache_ttl_seconds = 300"
definition default_clock_skew_seconds :: u64 where "default_clock_skew_seconds = 30"

record listener_config =
  data_address :: string
  admin_address :: string
  remote :: "remote_config option"

record routing_config =
  rt_weights :: route_weights
  max_queue_per_tenant :: u16
  max_concurrent_per_tenant :: u16

datatype sharing_class =
    ShareableStateless | ShareableWithSerialization | PrincipalIsolated | TenantIsolated | NonShareable

datatype approval_config =
    DenyApproval
  | StaticPolicy (static_response: json)
  | LocalCli
  | SignedWebhook (webhook_url: full_url) (secret_env: string) (timeout_ms: u64)

definition default_approval :: approval_config where "default_approval = DenyApproval"
definition default_approval_timeout_ms :: u64 where "default_approval_timeout_ms = 5000"

datatype mcp_transport =
    Stdio (stdio_command: string) (stdio_args: "string list")
  | StreamableHttp (http_url: full_url)

record mcp_source =
  src_id :: string
  src_transport :: mcp_transport
  protocol_revision_text :: string
  capability_snapshot_digest :: "sha256_digest option"
  sharing :: sharing_class
  reviewed :: bool
  src_approval :: approval_config

record model_cost_config =
  cost_version :: string
  cost_input_micros :: u64
  cost_output_micros :: u64

record model_config =
  mdl_id :: string
  base_url :: full_url
  provider_model_id :: string
  context_limit :: u64
  mdl_max_output_tokens :: u64
  cost_table :: model_cost_config
  credential_env :: "string option"

record config =
  cfg_version :: u16
  cfg_runtime :: runtime_config
  listeners :: listener_config
  routing :: routing_config
  cfg_policy :: policy_document
  cfg_discovery :: discovery_mode
  cfg_capability :: capability_mode
  mcp_sources :: "mcp_source list"
  models :: "model_config list"

datatype config_error =
    VersionUnsupported
  | UnauthenticatedNonLoopback
  | RemoteDefaultAllow
  | DuplicateId string
  | UnreviewedSource string
  | UnsafeUrl string
  | InvalidId string
  | InvalidLimit string
  | ListenerCollision
  | InvalidRemote string
  | PolicyError policy_compile_error

section \<open>Addresses\<close>

text \<open>\<open>str::parse\<close> for \<open>IpAddr\<close>, and for \<open>SocketAddr\<close> with its \<open>ip()\<close>.\<close>

record net_parsers =
  parse_ip :: "string \<Rightarrow> ip_addr option"
  parse_socket_ip :: "string \<Rightarrow> ip_addr option"

fun ip_is_loopback :: "ip_addr \<Rightarrow> bool" where
  "ip_is_loopback (V4 a) = v4_is_loopback a"
| "ip_is_loopback (V6 a) = (a = 1)"

fun ip_is_unspecified :: "ip_addr \<Rightarrow> bool" where
  "ip_is_unspecified (V4 a) = v4_is_unspecified a"
| "ip_is_unspecified (V6 a) = (a = 0)"

fun ip_is_multicast :: "ip_addr \<Rightarrow> bool" where
  "ip_is_multicast (V4 a) = v4_is_multicast a"
| "ip_is_multicast (V6 a) = (drop_bit 120 a = 255)"

fun is_private :: "ip_addr \<Rightarrow> bool" where
  "is_private (V4 a) = (v4_is_private a \<or> map (v4_octet a) [0, 1, 2, 3] = [169, 254, 169, 254])"
| "is_private (V6 a) = (v6_segment0 a AND 0xfe00 = 0xfc00)"

fun is_link_local :: "ip_addr \<Rightarrow> bool" where
  "is_link_local (V4 a) = v4_is_link_local a"
| "is_link_local (V6 a) = (v6_segment0 a AND 0xffc0 = 0xfe80)"

definition address_ip :: "net_parsers \<Rightarrow> string \<Rightarrow> (config_error, ip_addr) res" where
  "address_ip N address = ok_or (parse_socket_ip N address) (UnsafeUrl address)"

section \<open>The checks\<close>

definition validate_id :: "string \<Rightarrow> (config_error, unit) res" where
  "validate_id i =
     (if i = [] \<or> 64 < length i \<or> \<not> list_all (ascii_in ''._-'') i then Inl (InvalidId i) else Inr ())"

text \<open>Literal addresses nothing outside the host may be reached by.\<close>

definition forbidden_ip :: "bool \<Rightarrow> ip_addr \<Rightarrow> bool" where
  "forbidden_ip allow_loopback ip \<longleftrightarrow>
     ip_is_unspecified ip \<or> ip_is_multicast ip \<or> (\<not> allow_loopback \<and> ip_is_loopback ip)
     \<or> is_link_local ip \<or> (is_private ip \<and> \<not> ip_is_loopback ip)"

definition loopback_host :: "net_parsers \<Rightarrow> string \<Rightarrow> bool" where
  "loopback_host N host \<longleftrightarrow>
     eq_ignore_ascii_case host ''localhost''
     \<or> (case parse_ip N host of None \<Rightarrow> False | Some ip \<Rightarrow> ip_is_loopback ip)"

definition validate_remote_url :: "net_parsers \<Rightarrow> full_url \<Rightarrow> bool \<Rightarrow> (config_error, unit) res" where
  "validate_remote_url N u allow_loopback =
     (let unsafe = UnsafeUrl (url_text u) in
      rbind (ensure (url_scheme u = ''http'' \<or> url_scheme u = ''https'') unsafe) (\<lambda>_.
      rbind (ensure (\<not> (url_username u \<noteq> [] \<or> url_password u \<noteq> None \<or> url_fragment u \<noteq> None)) unsafe) (\<lambda>_.
      rbind (ok_or (url_host u) unsafe) (\<lambda>host.
      if url_scheme u = ''http'' \<and> (\<not> allow_loopback \<or> \<not> loopback_host N host) then Inl unsafe
      else if (case parse_ip N host of None \<Rightarrow> False | Some ip \<Rightarrow> forbidden_ip allow_loopback ip) then Inl unsafe
      else if eq_ignore_ascii_case host ''metadata.google.internal''
              \<or> eq_ignore_ascii_case host ''instance-data.ec2.internal'' then Inl unsafe
      else Inr ()))))"

definition validate_origin :: "full_url \<Rightarrow> bool \<Rightarrow> string \<Rightarrow> (config_error, unit) res" where
  "validate_origin u root_only field =
     (if url_scheme u \<noteq> ''https'' \<or> url_host u = None \<or> url_username u \<noteq> [] \<or> url_password u \<noteq> None
         \<or> url_fragment u \<noteq> None \<or> url_query u \<noteq> None \<or> (root_only \<and> url_path u \<noteq> ''/'')
      then Inl (InvalidRemote field) else Inr ())"

definition validate_approval ::
  "platform \<Rightarrow> net_parsers \<Rightarrow> approval_config \<Rightarrow> string \<Rightarrow> (config_error, unit) res" where
  "validate_approval P N a source =
     (case a of
        DenyApproval \<Rightarrow> Inr ()
      | LocalCli \<Rightarrow> Inr ()
      | StaticPolicy response \<Rightarrow>
          (if (\<nexists>entries. response = JObj entries) \<or> 16 * 1024 < length (json_to_vec P response)
           then Inl (InvalidLimit (''approval:'' @ source)) else Inr ())
      | SignedWebhook u env timeout \<Rightarrow>
          rbind (validate_remote_url N u False) (\<lambda>_.
          if url_scheme u \<noteq> ''https'' \<or> \<not> (100 \<le> timeout \<and> timeout \<le> 10000) \<or> env = []
             \<or> 128 < length env \<or> \<not> list_all (ascii_in ''_'') env
          then Inl (InvalidLimit (''approval:'' @ source)) else Inr ()))"

text \<open>\<open>Path::is_absolute\<close> on Unix.\<close>

definition path_is_absolute :: "string \<Rightarrow> bool" where
  "path_is_absolute p \<longleftrightarrow> take 1 p = ''/''"

definition validate_remote :: "net_parsers \<Rightarrow> remote_config \<Rightarrow> (config_error, unit) res" where
  "validate_remote N r =
     rbind (ensure (\<not> (\<not> path_is_absolute (tls_certificate r) \<or> \<not> path_is_absolute (tls_private_key r)))
              (InvalidRemote ''tls_path'')) (\<lambda>_.
     rbind (validate_origin (public_origin r) True ''public_origin'') (\<lambda>_.
     rbind (validate_origin (issuer r) False ''issuer'') (\<lambda>_.
     rbind (validate_remote_url N (jwks_url r) False) (\<lambda>_.
     rbind (ensure (\<not> url_scheme (jwks_url r) \<noteq> ''https'') (InvalidRemote ''jwks_https'')) (\<lambda>_.
     rbind (ensure (\<not> (rc_audience r = [] \<or> 256 < length (rc_audience r)
                     \<or> rc_resource r = [] \<or> 512 < length (rc_resource r)
                     \<or> required_scopes r = [] \<or> 32 < length (required_scopes r)
                     \<or> list_ex (\<lambda>scope. scope = [] \<or> 128 < length scope \<or> \<not> list_all (ascii_in '':._-'') scope)
                         (required_scopes r)
                     \<or> \<not> (30 \<le> jwks_cache_ttl_seconds r \<and> jwks_cache_ttl_seconds r \<le> 86400)
                     \<or> 300 < clock_skew_seconds r)) (InvalidRemote ''oidc_binding'')) (\<lambda>_.
     ensure (\<not> list_ex (\<lambda>a. ip_is_unspecified a \<or> ip_is_multicast a \<or> is_link_local a) (trusted_proxies r))
       (InvalidRemote ''trusted_proxy'')))))))"

text \<open>\<open>ids\<close> is the set of identifiers seen so far; sources and models share it.\<close>

definition claim_id :: "string fset \<Rightarrow> string \<Rightarrow> (config_error, string fset) res" where
  "claim_id ids i =
     rbind (validate_id i) (\<lambda>_. if i |\<in>| ids then Inl (DuplicateId i) else Inr (finsert i ids))"

definition validate_transport ::
  "net_parsers \<Rightarrow> bool \<Rightarrow> string \<Rightarrow> mcp_transport \<Rightarrow> (config_error, unit) res" where
  "validate_transport N loc i t =
     (case t of
        StreamableHttp u \<Rightarrow> validate_remote_url N u loc
      | Stdio command args \<Rightarrow>
          (if \<not> path_is_absolute command \<or> 128 < length args \<or> list_ex (\<lambda>a. 8192 < length a) args
           then Inl (InvalidLimit i) else Inr ()))"

definition validate_source ::
  "platform \<Rightarrow> net_parsers \<Rightarrow> bool \<Rightarrow> string fset \<Rightarrow> mcp_source \<Rightarrow> (config_error, string fset) res" where
  "validate_source P N loc ids s =
     rbind (claim_id ids (src_id s)) (\<lambda>ids.
     rbind (ensure (reviewed s) (UnreviewedSource (src_id s))) (\<lambda>_.
     rbind (validate_approval P N (src_approval s) (src_id s)) (\<lambda>_.
     rbind (map_err (\<lambda>_. VersionUnsupported) (revision_parse (protocol_revision_text s))) (\<lambda>_.
     rbind (validate_transport N loc (src_id s) (src_transport s)) (\<lambda>_. Inr ids)))))"

definition validate_model ::
  "net_parsers \<Rightarrow> bool \<Rightarrow> string fset \<Rightarrow> model_config \<Rightarrow> (config_error, string fset) res" where
  "validate_model N loc ids m =
     rbind (claim_id ids (mdl_id m)) (\<lambda>ids.
     rbind (validate_remote_url N (base_url m) loc) (\<lambda>_.
     if context_limit m = 0 \<or> mdl_max_output_tokens m = 0 \<or> context_limit m < mdl_max_output_tokens m
        \<or> cost_version (cost_table m) = [] \<or> 128 < length (cost_version (cost_table m))
        \<or> (case credential_env m of
             None \<Rightarrow> False
           | Some name \<Rightarrow> name = [] \<or> 128 < length name \<or> \<not> list_all (ascii_in ''_'') name)
     then Inl (InvalidLimit (mdl_id m)) else Inr ids))"

text \<open>A loop that threads a value and returns the first error.\<close>

fun try_fold :: "('s \<Rightarrow> 'a \<Rightarrow> ('e, 's) res) \<Rightarrow> 's \<Rightarrow> 'a list \<Rightarrow> ('e, 's) res" where
  "try_fold f s [] = Inr s"
| "try_fold f s (x # xs) = rbind (f s x) (\<lambda>s. try_fold f s xs)"

definition shareable :: "mcp_source \<Rightarrow> bool" where
  "shareable s \<longleftrightarrow> sharing s = ShareableStateless \<or> sharing s = ShareableWithSerialization"

definition validate_exposure :: "net_parsers \<Rightarrow> config \<Rightarrow> (config_error, unit) res" where
  "validate_exposure N c =
     (let l = listeners c in
      rbind (address_ip N (data_address l)) (\<lambda>data_ip.
      rbind (address_ip N (admin_address l)) (\<lambda>admin_ip.
      rbind (ensure (\<not> data_address l = admin_address l) ListenerCollision) (\<lambda>_.
      rbind (ensure (\<not> (remote l = None \<and> (\<not> ip_is_loopback data_ip \<or> \<not> ip_is_loopback admin_ip)))
               UnauthenticatedNonLoopback) (\<lambda>_.
      rbind (ensure (ip_is_loopback admin_ip) UnauthenticatedNonLoopback) (\<lambda>_.
      rbind (ensure (\<not> (remote l \<noteq> None \<and> policy_default (cfg_policy c) \<noteq> Deny)) RemoteDefaultAllow) (\<lambda>_.
      case remote l of
        None \<Rightarrow> Inr ()
      | Some r \<Rightarrow>
          rbind (validate_remote N r) (\<lambda>_.
          ensure (\<not> list_ex (\<lambda>s. \<not> shareable s) (mcp_sources c)) (InvalidRemote ''mcp_sharing'')))))))))"

definition config_validate :: "platform \<Rightarrow> net_parsers \<Rightarrow> config \<Rightarrow> (config_error, unit) res" where
  "config_validate P N c =
     (let loc = (remote (listeners c) = None) in
      rbind (ensure (cfg_version c = 1) VersionUnsupported) (\<lambda>_.
      rbind (validate_exposure N c) (\<lambda>_.
      rbind (map_err PolicyError (compile (cfg_policy c))) (\<lambda>_.
      rbind (ensure (\<not> (64 < length (mcp_sources c) \<or> 64 < length (models c))) (InvalidLimit ''routes'')) (\<lambda>_.
      rbind (ensure (\<not> (max_queue_per_tenant (routing c) = 0 \<or> max_concurrent_per_tenant (routing c) = 0
                      \<or> max_queue_per_tenant (routing c) < max_concurrent_per_tenant (routing c)))
               (InvalidLimit ''routing'')) (\<lambda>_.
      rbind (try_fold (validate_source P N loc) {||} (mcp_sources c)) (\<lambda>ids.
      rbind (try_fold (validate_model N loc) ids (models c)) (\<lambda>_. Inr ()))))))))"

section \<open>What the checks guarantee\<close>

text \<open>
  A literal address a configured URL may name is one the outbound resolver would connect to
  (\<open>address_denied\<close> of \<open>security.rs\<close>), or the loopback where that is allowed.
\<close>

lemma v4_loopback_public:
  assumes "v4_is_loopback a"
  shows "\<not> v4_is_unspecified a" "\<not> v4_is_multicast a" "\<not> v4_is_link_local a" "\<not> v4_is_private a"
  using assms
  by (auto simp: v4_is_loopback_def v4_is_multicast_def v4_is_link_local_def v4_is_private_def
      v4_is_unspecified_def v4_octet_def)

lemma metadata_link_local:
  "map (v4_octet a) [0, 1, 2, 3] = [169, 254, 169, 254] \<Longrightarrow> v4_is_link_local a"
  by (simp add: v4_is_link_local_def)

lemma forbidden_denied: "forbidden_ip False a \<longleftrightarrow> address_denied a False"
proof (cases a)
  case (V4 w)
  then show ?thesis
    using metadata_link_local [of w] v4_loopback_public [of w]
    by (auto simp: forbidden_ip_def address_denied_def)
next
  case (V6 w)
  have "v6_segment0 1 AND 0xfe00 \<noteq> 0xfc00" by (simp add: v6_segment0_def)
  with V6 show ?thesis by (auto simp: forbidden_ip_def address_denied_def)
qed

lemma forbidden_not_loopback:
  "forbidden_ip True a \<longleftrightarrow> address_denied a False \<and> \<not> ip_is_loopback a"
proof (cases a)
  case (V4 w)
  then show ?thesis
    using metadata_link_local [of w] v4_loopback_public [of w]
    by (auto simp: forbidden_ip_def address_denied_def)
next
  case (V6 w)
  have "v6_segment0 1 AND 0xffc0 \<noteq> 0xfe80" "drop_bit 120 (1 :: 128 word) \<noteq> 255"
    by (simp_all add: v6_segment0_def)
  with V6 show ?thesis by (auto simp: forbidden_ip_def address_denied_def)
qed

text \<open>What an accepted URL looks like.\<close>

definition dial_allowed :: "net_parsers \<Rightarrow> bool \<Rightarrow> full_url \<Rightarrow> bool" where
  "dial_allowed N loc u \<longleftrightarrow>
     (url_scheme u = ''https'' \<or> url_scheme u = ''http'' \<and> loc) \<and> url_username u = [] \<and> url_password u = None
     \<and> (\<exists>host. url_host u = Some host
          \<and> (url_scheme u = ''http'' \<longrightarrow> loopback_host N host)
          \<and> (\<forall>ip. parse_ip N host = Some ip \<longrightarrow> address_denied ip False \<longrightarrow> loc \<and> ip_is_loopback ip)
          \<and> \<not> eq_ignore_ascii_case host ''metadata.google.internal''
          \<and> \<not> eq_ignore_ascii_case host ''instance-data.ec2.internal'')"

lemma validate_remote_url_Inr [guard_simps]:
  "validate_remote_url N u loc = Inr x \<longleftrightarrow> dial_allowed N loc u \<and> url_fragment u = None"
proof -
  have "forbidden_ip loc ip \<longleftrightarrow> address_denied ip False \<and> \<not> (loc \<and> ip_is_loopback ip)" for ip
    by (cases loc) (simp_all add: forbidden_denied forbidden_not_loopback)
  then show ?thesis
    unfolding validate_remote_url_def dial_allowed_def Let_def
    by (auto simp: guard_simps split: option.splits)
qed

lemma claim_id_Inr [guard_simps]:
  "claim_id ids i = Inr ids' \<longleftrightarrow> validate_id i = Inr () \<and> i |\<notin>| ids \<and> ids' = finsert i ids"
  by (auto simp: claim_id_def guard_simps)

lemma try_fold_claims:
  assumes "try_fold f ids xs = Inr ids'"
    and "\<And>ids x ids'. f ids x = Inr ids' \<Longrightarrow> key x |\<notin>| ids \<and> ids' = finsert (key x) ids \<and> Q x"
  shows "distinct (map key xs) \<and> fset ids \<inter> key ` set xs = {} \<and> fset ids' = fset ids \<union> key ` set xs
     \<and> (\<forall>x \<in> set xs. Q x)"
  using assms(1)
proof (induction xs arbitrary: ids)
  case (Cons x xs)
  then obtain mid where mid: "f ids x = Inr mid" "try_fold f mid xs = Inr ids'" by (auto simp: guard_simps)
  from assms(2) [OF mid(1)] Cons.IH [OF mid(2)] show ?case by auto
qed simp

text \<open>The URLs an accepted source and model make the gateway dial.\<close>

fun approval_urls :: "approval_config \<Rightarrow> full_url list" where
  "approval_urls (SignedWebhook u env timeout) = [u]"
| "approval_urls _ = []"

fun transport_urls :: "mcp_transport \<Rightarrow> full_url list" where
  "transport_urls (StreamableHttp u) = [u]"
| "transport_urls (Stdio command args) = []"

definition source_ok :: "net_parsers \<Rightarrow> bool \<Rightarrow> mcp_source \<Rightarrow> bool" where
  "source_ok N loc s \<longleftrightarrow>
     reviewed s \<and> protocol_revision_text s \<in> {MCP_2025_11_25, MCP_2026_07_28}
     \<and> list_all (dial_allowed N loc) (transport_urls (src_transport s))
     \<and> list_all (\<lambda>u. dial_allowed N False u \<and> url_scheme u = ''https'') (approval_urls (src_approval s))"

definition model_ok :: "net_parsers \<Rightarrow> bool \<Rightarrow> model_config \<Rightarrow> bool" where
  "model_ok N loc m \<longleftrightarrow>
     dial_allowed N loc (base_url m) \<and> 0 < mdl_max_output_tokens m \<and> mdl_max_output_tokens m \<le> context_limit m"

lemma accepted_source:
  assumes "validate_source P N loc ids s = Inr ids'"
  shows "src_id s |\<notin>| ids \<and> ids' = finsert (src_id s) ids \<and> source_ok N loc s"
proof -
  have s: "claim_id ids (src_id s) = Inr ids'" "reviewed s"
      "validate_approval P N (src_approval s) (src_id s) = Inr ()"
      "\<exists>r. revision_parse (protocol_revision_text s) = Inr r"
      "validate_transport N loc (src_id s) (src_transport s) = Inr ()"
    using assms by (auto simp: validate_source_def rbind_Inr ensure_Inr map_err_Inr)
  have "list_all (dial_allowed N loc) (transport_urls (src_transport s))"
    using s(5) by (cases "src_transport s") (simp_all add: validate_transport_def guard_simps)
  moreover have "list_all (\<lambda>u. dial_allowed N False u \<and> url_scheme u = ''https'') (approval_urls (src_approval s))"
    using s(3) by (cases "src_approval s") (auto simp: validate_approval_def guard_simps split: if_splits)
  moreover have "protocol_revision_text s \<in> {MCP_2025_11_25, MCP_2026_07_28}"
    using s(4) by (auto simp: revision_parse_def split: if_splits)
  ultimately show ?thesis using s(1,2) by (simp add: source_ok_def guard_simps)
qed

lemma accepted_model:
  assumes "validate_model N loc ids m = Inr ids'"
  shows "mdl_id m |\<notin>| ids \<and> ids' = finsert (mdl_id m) ids \<and> model_ok N loc m"
  using assms
  by (auto simp: validate_model_def model_ok_def guard_simps word_gt_0 split: if_splits)

lemma accepted_exposure:
  assumes "validate_exposure N c = Inr ()"
  shows "\<exists>ip. parse_socket_ip N (admin_address (listeners c)) = Some ip \<and> ip_is_loopback ip"
    and "remote (listeners c) = None \<Longrightarrow>
      \<exists>ip. parse_socket_ip N (data_address (listeners c)) = Some ip \<and> ip_is_loopback ip"
    and "remote (listeners c) = Some r \<Longrightarrow>
      policy_default (cfg_policy c) = Deny \<and> validate_remote N r = Inr () \<and> list_all shareable (mcp_sources c)"
  using assms
  by (auto simp: validate_exposure_def Let_def address_ip_def guard_simps list_all_iff list_ex_iff
      split: option.splits)


text \<open>
  The \<open>url\<close> crate writes the host of an IPv6 literal in brackets, which is not the text of an
  address: the literal is then checked like a name, so link-local and private addresses pass.
\<close>

theorem bracketed_host_not_checked:
  assumes "\<And>s. parse_ip N (CHR ''['' # s) = None"
    and "url_scheme u = ''https''" "url_username u = []" "url_password u = None" "url_fragment u = None"
    and "url_host u = Some (CHR ''['' # s)"
  shows "validate_remote_url N u loc = Inr ()"
  using assms
  by (simp add: validate_remote_url_Inr dial_allowed_def eq_ignore_ascii_case_def)

section \<open>A concrete configuration\<close>

definition sample_parsers :: net_parsers where
  "sample_parsers =
     \<lparr>parse_ip = (\<lambda>s. if s = ''127.0.0.1'' then Some (V4 0x7f000001) else None),
      parse_socket_ip =
        (\<lambda>s. if s = ''127.0.0.1:8080'' \<or> s = ''127.0.0.1:8081'' then Some (V4 0x7f000001) else None)\<rparr>"

definition sample_url :: full_url where
  "sample_url =
     \<lparr>url_scheme = ''http'', url_username = [], url_password = None, url_host = Some ''127.0.0.1'',
      url_port = Some 11434, url_fragment = None, url_query = None, url_path = ''/v1/'',
      url_text = ''http://127.0.0.1:11434/v1/''\<rparr>"

definition sample_source :: mcp_source where
  "sample_source =
     \<lparr>src_id = ''files'', src_transport = Stdio ''/usr/bin/files'' [''--stdio''],
      protocol_revision_text = ''2026-07-28'', capability_snapshot_digest = None,
      sharing = TenantIsolated, reviewed = True, src_approval = LocalCli\<rparr>"

definition sample_model :: model_config where
  "sample_model =
     \<lparr>mdl_id = ''local'', base_url = sample_url, provider_model_id = ''m'', context_limit = 8192,
      mdl_max_output_tokens = 1024,
      cost_table = \<lparr>cost_version = ''v1'', cost_input_micros = 0, cost_output_micros = 0\<rparr>,
      credential_env = Some ''MODEL_KEY''\<rparr>"

definition sample_config :: config where
  "sample_config =
     \<lparr>cfg_version = 1, cfg_runtime = MemoryRuntime,
      listeners = \<lparr>data_address = ''127.0.0.1:8080'', admin_address = ''127.0.0.1:8081'', remote = None\<rparr>,
      routing = \<lparr>rt_weights = \<lparr>w_latency = 1, w_cost = 1, w_failure = 1, w_semantic_loss = 1, w_pressure = 1,
                                w_exposure = 1, w_switching = 1\<rparr>,
                 max_queue_per_tenant = 64, max_concurrent_per_tenant = 8\<rparr>,
      cfg_policy = sample_policy, cfg_discovery = default_discovery_mode,
      cfg_capability = default_capability_mode, mcp_sources = [sample_source], models = [sample_model]\<rparr>"

lemma sample_dial: "dial_allowed sample_parsers True sample_url"
  by (simp add: dial_allowed_def sample_url_def sample_parsers_def loopback_host_def
      eq_ignore_ascii_case_def v4_is_loopback_def v4_octet_def)

lemma sample_exposure: "validate_exposure sample_parsers sample_config = Inr ()"
  by (simp add: validate_exposure_def Let_def address_ip_def sample_config_def sample_parsers_def
      v4_is_loopback_def v4_octet_def)

lemma sample_source_valid:
  "validate_source P sample_parsers True {||} sample_source = Inr {|''files''|}"
  by (simp add: validate_source_def claim_id_def validate_id_def sample_source_def ascii_in_def
      is_ascii_alphanumeric_def validate_approval_def revision_parse_def revision_consts
      validate_transport_def path_is_absolute_def)

lemma sample_model_valid:
  "validate_model sample_parsers True {|''files''|} sample_model = Inr {|''local'', ''files''|}"
  using sample_dial validate_remote_url_Inr [of sample_parsers sample_url True "()"]
  by (simp add: validate_model_def claim_id_def validate_id_def sample_model_def ascii_in_def
      is_ascii_alphanumeric_def sample_url_def)

lemma sample_config_valid: "config_validate P sample_parsers sample_config = Inr ()"
  using sample_exposure sample_policy_compiles sample_source_valid sample_model_valid
  by (simp add: config_validate_def Let_def sample_config_def)


end
