(* ===== verification/Process_Pool.thy ===== *)
theory Process_Pool
  imports Digest
begin

text \<open>
  Models \<open>crates/gaugemesh-core/src/process_pool.rs\<close>: the keys under which upstream processes are
  shared, and the bounded pool. The code awaits three kinds of locks: the mutex of the entries, the
  semaphore of the slots and the serialization mutex of an entry. A caller of the pool is a
  \<open>worker\<close>, whose constructors are the points where it may wait; the steps of \<open>pool_step\<close> are what
  happens between two such points, in any interleaving, including dropped futures and permits that
  are dropped without \<open>release\<close>. The semaphore is never closed, so \<open>GM_POOL_CLOSED\<close> cannot occur. Instants are numbers of milliseconds.
\<close>

section \<open>Keys\<close>

datatype shareability_class =
    Stateless | WithSerialization | PrincipalIsolated | TenantIsolated | NonShareable

definition default_shareability :: shareability_class where "default_shareability = NonShareable"

record process_key =
  server_configuration_digest :: sha256_digest
  executable_identity :: string
  pk_protocol_revision :: string
  tenant_security_partition :: string
  upstream_credential_identity :: sha256_digest
  environment_digest :: sha256_digest
  shareability :: shareability_class
  principal_partition :: "string option"
  instance_nonce :: "string option"

definition process_key_validate :: "process_key \<Rightarrow> (string, unit) res" where
  "process_key_validate k =
     (if executable_identity k = [] \<or> pk_protocol_revision k = [] \<or> tenant_security_partition k = []
      then Inl ''GM_POOL_KEY_INCOMPLETE''
      else if shareability k = PrincipalIsolated \<and> (principal_partition k = None \<or> instance_nonce k \<noteq> None)
      then Inl ''GM_POOL_PRINCIPAL_PARTITION_REQUIRED''
      else if shareability k = NonShareable \<and> instance_nonce k = None
      then Inl ''GM_POOL_INSTANCE_NONCE_REQUIRED''
      else if shareability k \<in> {Stateless, WithSerialization, TenantIsolated}
              \<and> (principal_partition k \<noteq> None \<or> instance_nonce k \<noteq> None)
      then Inl ''GM_POOL_PARTITION_CONTRADICTION''
      else Inr ())"

definition needs_serialization :: "process_key \<Rightarrow> bool" where
  "needs_serialization k \<longleftrightarrow> shareability k = WithSerialization"

section \<open>The pool\<close>

text \<open>An entry owns its slot; \<open>serialization\<close> tells whether its mutex is locked.\<close>

record pool_entry =
  generation :: u64
  references :: nat
  restart_budget :: u8
  last_idle_at :: "nat option"
  serialization :: bool

record process_pool =
  entries :: "(process_key, pool_entry) fmap"
  slots :: nat
  startup_timeout :: nat
  shutdown_timeout :: nat
  idle_ttl :: nat

text \<open>\<open>assert!(max_processes > 0)\<close> is the \<open>None\<close> branch.\<close>

definition bounded :: "nat \<Rightarrow> process_pool option" where
  "bounded max_processes =
     (if 0 < max_processes
      then Some \<lparr>entries = fmempty, slots = max_processes, startup_timeout = 10000,
                 shutdown_timeout = 5000, idle_ttl = 30000\<rparr>
      else None)"

text \<open>
  Where a caller may wait: for the entries (\<open>Wants\<close>, \<open>Ready\<close>, \<open>Releasing\<close>), for a slot
  (\<open>Queued\<close>), or, with the entries locked, for the serialization of an entry (\<open>Blocked\<close>, which
  tells whether it brings a slot). \<open>Holding\<close> is a permit: its key, generation and whether it has the guard.
\<close>

datatype worker =
    Wants process_key
  | Queued process_key
  | Ready process_key
  | Blocked process_key bool
  | Holding process_key u64 bool
  | Releasing process_key
  | Refused string
  | Done

definition give_back :: "bool \<Rightarrow> process_pool \<Rightarrow> process_pool" where
  "give_back slot p = (if slot then p\<lparr>slots := slots p + 1\<rparr> else p)"

text \<open>The part after the serialization mutex has been waited for, and the wait itself.\<close>

definition admit :: "process_key \<Rightarrow> bool \<Rightarrow> pool_entry \<Rightarrow> process_pool \<Rightarrow> process_pool \<times> worker" where
  "admit k slot e p =
     (if needs_serialization k \<and> serialization e then (p, Blocked k slot)
      else (give_back slot (p\<lparr>entries :=
              fmupd k (e\<lparr>references := references e + 1, last_idle_at := None,
                         serialization := needs_serialization k\<rparr>) (entries p)\<rparr>),
            Holding k (generation e) (needs_serialization k)))"

definition acquire_existing :: "process_key \<Rightarrow> process_pool \<Rightarrow> (process_pool \<times> worker) option" where
  "acquire_existing k p =
     (case fmlookup (entries p) k of None \<Rightarrow> None | Some e \<Rightarrow> Some (admit k False e p))"

definition acquire :: "process_key \<Rightarrow> worker" where
  "acquire k = (case process_key_validate k of Inl e \<Rightarrow> Refused e | Inr _ \<Rightarrow> Wants k)"

definition acquire_lookup :: "process_key \<Rightarrow> process_pool \<Rightarrow> process_pool \<times> worker" where
  "acquire_lookup k p = (case acquire_existing k p of None \<Rightarrow> (p, Queued k) | Some r \<Rightarrow> r)"

definition fresh_entry :: "process_key \<Rightarrow> pool_entry" where
  "fresh_entry k = \<lparr>generation = 1, references = 1, restart_budget = 2, last_idle_at = None,
                    serialization = needs_serialization k\<rparr>"

definition acquire_with_slot :: "process_key \<Rightarrow> process_pool \<Rightarrow> process_pool \<times> worker" where
  "acquire_with_slot k p =
     (case fmlookup (entries p) k of
        Some e \<Rightarrow> admit k True e p
      | None \<Rightarrow> (p\<lparr>entries := fmupd k (fresh_entry k) (entries p)\<rparr>,
                 Holding k 1 (needs_serialization k)))"

text \<open>Dropping the guard of a permit unlocks the mutex of its entry.\<close>

definition drop_guard :: "process_key \<Rightarrow> bool \<Rightarrow> process_pool \<Rightarrow> process_pool" where
  "drop_guard k guard p =
     (case fmlookup (entries p) k of
        Some e \<Rightarrow> (if guard then p\<lparr>entries := fmupd k (e\<lparr>serialization := False\<rparr>) (entries p)\<rparr> else p)
      | None \<Rightarrow> p)"

definition release_entry :: "process_key \<Rightarrow> nat \<Rightarrow> process_pool \<Rightarrow> process_pool" where
  "release_entry k now p =
     (case fmlookup (entries p) k of
        None \<Rightarrow> p
      | Some e \<Rightarrow>
          let n = references e - 1 in
          p\<lparr>entries := fmupd k (e\<lparr>references := n,
              last_idle_at := (if n = 0 then Some now else last_idle_at e)\<rparr>) (entries p)\<rparr>)"

definition expired :: "nat \<Rightarrow> process_pool \<Rightarrow> process_key \<Rightarrow> bool" where
  "expired now p k =
     (case fmlookup (entries p) k of
        None \<Rightarrow> False
      | Some e \<Rightarrow> references e = 0
          \<and> (case last_idle_at e of None \<Rightarrow> False | Some idle \<Rightarrow> idle_ttl p \<le> now - idle))"

definition reap_idle :: "nat \<Rightarrow> process_pool \<Rightarrow> process_key fset \<times> process_pool" where
  "reap_idle now p =
     (let gone = ffilter (expired now p) (fmdom (entries p)) in
      (gone, p\<lparr>entries := fmdrop_fset gone (entries p), slots := slots p + fcard gone\<rparr>))"

definition process_count :: "process_pool \<Rightarrow> nat" where
  "process_count p = fcard (fmdom (entries p))"

definition record_crash :: "process_key \<Rightarrow> process_pool \<Rightarrow> (string, u64) res \<times> process_pool" where
  "record_crash k p =
     (case fmlookup (entries p) k of
        None \<Rightarrow> (Inl ''GM_POOL_PROCESS_NOT_FOUND'', p)
      | Some e \<Rightarrow>
          if restart_budget e = 0 then (Inl ''GM_POOL_RESTART_BUDGET_EXHAUSTED'', p)
          else (Inr (generation e + 1),
                p\<lparr>entries := fmupd k (e\<lparr>restart_budget := restart_budget e - 1,
                    generation := generation e + 1\<rparr>) (entries p)\<rparr>))"

section \<open>Interleavings\<close>

text \<open>The mutex of the entries is locked across a wait only by a blocked worker.\<close>

fun is_blocked :: "worker \<Rightarrow> bool" where
  "is_blocked (Blocked k slot) = True"
| "is_blocked _ = False"

fun has_slot :: "worker \<Rightarrow> bool" where
  "has_slot (Ready k) = True"
| "has_slot (Blocked k slot) = slot"
| "has_slot _ = False"

definition entries_free :: "worker list \<Rightarrow> bool" where
  "entries_free ws \<longleftrightarrow> \<not> list_ex is_blocked ws"

text \<open>\<open>acquire\<close> and \<open>release\<close>, from one point where the caller may wait to the next.\<close>

fun worker_step :: "nat \<Rightarrow> bool \<Rightarrow> process_pool \<Rightarrow> worker \<Rightarrow> (process_pool \<times> worker) option" where
  "worker_step now free p (Wants k) = (if free then Some (acquire_lookup k p) else None)"
| "worker_step now free p (Queued k) =
     (if 0 < slots p then Some (p\<lparr>slots := slots p - 1\<rparr>, Ready k) else None)"
| "worker_step now free p (Ready k) = (if free then Some (acquire_with_slot k p) else None)"
| "worker_step now free p (Blocked k slot) =
     (case fmlookup (entries p) k of
        Some e \<Rightarrow> (if serialization e then None else Some (admit k slot e p))
      | None \<Rightarrow> None)"
| "worker_step now free p (Holding k g guard) = Some (drop_guard k guard p, Releasing k)"
| "worker_step now free p (Releasing k) = (if free then Some (release_entry k now p, Done) else None)"
| "worker_step now free p _ = None"

text \<open>A dropped future or permit: what it holds is given back, except a reference.\<close>

fun abandon :: "process_pool \<Rightarrow> worker \<Rightarrow> process_pool" where
  "abandon p (Holding k g guard) = drop_guard k guard p"
| "abandon p w = give_back (has_slot w) p"

inductive pool_step :: "process_pool \<times> worker list \<Rightarrow> process_pool \<times> worker list \<Rightarrow> bool" where
  call: "pool_step (p, ws) (p, ws @ [acquire k])"
| proceed: "i < length ws \<Longrightarrow> worker_step now (entries_free ws) p (ws ! i) = Some (p', w)
    \<Longrightarrow> pool_step (p, ws) (p', ws[i := w])"
| timeout: "i < length ws \<Longrightarrow> ws ! i = Queued k
    \<Longrightarrow> pool_step (p, ws) (p, ws[i := Refused ''GM_POOL_CAPACITY_TIMEOUT''])"
| dropped: "i < length ws \<Longrightarrow> pool_step (p, ws) (abandon p (ws ! i), ws[i := Done])"
| reap: "entries_free ws \<Longrightarrow> pool_step (p, ws) (snd (reap_idle now p), ws)"
| crash: "entries_free ws \<Longrightarrow> pool_step (p, ws) (snd (record_crash k p), ws)"

inductive pool_reachable :: "nat \<Rightarrow> process_pool \<times> worker list \<Rightarrow> bool" for cap where
  init: "bounded cap = Some p \<Longrightarrow> pool_reachable cap (p, [])"
| step: "pool_reachable cap s \<Longrightarrow> pool_step s t \<Longrightarrow> pool_reachable cap t"

section \<open>The invariant\<close>

fun uses :: "process_key \<Rightarrow> worker \<Rightarrow> bool" where
  "uses k (Holding k' g guard) = (k' = k)"
| "uses k (Releasing k') = (k' = k)"
| "uses k _ = False"

fun guards :: "process_key \<Rightarrow> worker \<Rightarrow> bool" where
  "guards k (Holding k' g guard) = (k' = k \<and> guard)"
| "guards k _ = False"

text \<open>An entry against the permits (and releases under way) and the guards of its key.\<close>

definition entry_ok :: "process_key \<Rightarrow> pool_entry option \<Rightarrow> nat \<Rightarrow> nat \<Rightarrow> bool" where
  "entry_ok k entry users held \<longleftrightarrow>
     (case entry of
        None \<Rightarrow> users = 0 \<and> held = 0
      | Some e \<Rightarrow> users \<le> references e \<and> (references e = 0 \<longleftrightarrow> last_idle_at e \<noteq> None)
          \<and> held = of_bool (serialization e) \<and> (serialization e \<longrightarrow> needs_serialization k)
          \<and> 1 \<le> unat (generation e) \<and> unat (generation e) + unat (restart_budget e) = 3)"

fun worker_ok :: "process_pool \<Rightarrow> worker \<Rightarrow> bool" where
  "worker_ok p (Blocked k slot) =
     (process_key_validate k = Inr () \<and> needs_serialization k \<and> k |\<in>| fmdom (entries p))"
| "worker_ok p (Holding k g guard) =
     (process_key_validate k = Inr () \<and> guard = needs_serialization k
      \<and> (case fmlookup (entries p) k of None \<Rightarrow> False | Some e \<Rightarrow> g \<le> generation e))"
| "worker_ok p (Wants k) = (process_key_validate k = Inr ())"
| "worker_ok p (Queued k) = (process_key_validate k = Inr ())"
| "worker_ok p (Ready k) = (process_key_validate k = Inr ())"
| "worker_ok p _ = True"

definition pool_inv :: "nat \<Rightarrow> process_pool \<times> worker list \<Rightarrow> bool" where
  "pool_inv cap s \<longleftrightarrow>
     (case s of (p, ws) \<Rightarrow>
        slots p + process_count p + tally has_slot ws = cap
        \<and> tally is_blocked ws \<le> 1
        \<and> (\<forall>k. entry_ok k (fmlookup (entries p) k) (tally (uses k) ws) (tally (guards k) ws))
        \<and> list_all (worker_ok p) ws)"

text \<open>What a step of one worker may do to the pool: it touches the entry of one key.\<close>

definition touches :: "process_key \<Rightarrow> process_pool \<Rightarrow> process_pool \<Rightarrow> bool" where
  "touches k p p' \<longleftrightarrow>
     (\<forall>k'. k' \<noteq> k \<longrightarrow> fmlookup (entries p') k' = fmlookup (entries p) k')
     \<and> (\<forall>e. fmlookup (entries p) k = Some e \<longrightarrow>
          (\<exists>e'. fmlookup (entries p') k = Some e' \<and> generation e \<le> generation e'))"

lemma worker_ok_touches: "touches k p p' \<Longrightarrow> worker_ok p w \<Longrightarrow> worker_ok p' w"
proof (cases w)
  case (Holding k' g guard)
  assume "touches k p p'" "worker_ok p w"
  with Holding show ?thesis
    by (cases "k' = k") (fastforce simp: touches_def split: option.splits)+
next
  case (Blocked k' slot)
  assume "touches k p p'" "worker_ok p w"
  with Blocked show ?thesis
    by (cases "k' = k") (fastforce simp: touches_def fmdom_lookup)+
qed simp_all

lemma inv_replace:
  assumes inv: "pool_inv cap (p, ws)" and i: "i < length ws" and t: "touches k p p'"
    and own: "\<And>k'. k' \<noteq> k \<Longrightarrow> \<not> uses k' (ws ! i) \<and> \<not> uses k' w"
    and slot: "slots p' + process_count p' + of_bool (has_slot w)
      = slots p + process_count p + of_bool (has_slot (ws ! i))"
    and free: "is_blocked w \<longrightarrow> is_blocked (ws ! i) \<or> entries_free ws"
    and entry: "\<And>n m. entry_ok k (fmlookup (entries p) k) (n + of_bool (uses k (ws ! i))) (m + of_bool (guards k (ws ! i)))
      \<Longrightarrow> entry_ok k (fmlookup (entries p') k) (n + of_bool (uses k w)) (m + of_bool (guards k w))"
    and w: "worker_ok p' w"
  shows "pool_inv cap (p', ws[i := w])"
proof -
  note upd = tally_update [OF i, of _ w]
  have "\<not> is_blocked w \<or> is_blocked (ws ! i) \<or> tally is_blocked ws = 0" using free by (auto simp: entries_free_def tally_0)
  then have "tally is_blocked (ws[i := w]) \<le> 1" using inv upd [of is_blocked]
    by (cases "is_blocked w"; cases "is_blocked (ws ! i)") (auto simp: pool_inv_def)
  moreover have "entry_ok k' (fmlookup (entries p') k') (tally (uses k') (ws[i := w])) (tally (guards k') (ws[i := w]))"
    for k'
  proof (cases "k' = k")
    case True
    define n m where "n = tally (uses k) ws - of_bool (uses k (ws ! i))"
      and "m = tally (guards k) ws - of_bool (guards k (ws ! i))"
    have "tally (uses k) ws = n + of_bool (uses k (ws ! i))" "tally (guards k) ws = m + of_bool (guards k (ws ! i))"
      using tally_pos [OF i, of "uses k"] tally_pos [OF i, of "guards k"] by (auto simp: n_def m_def)
    moreover from this have "tally (uses k) (ws[i := w]) = n + of_bool (uses k w)"
        "tally (guards k) (ws[i := w]) = m + of_bool (guards k w)"
      using upd [of "uses k"] upd [of "guards k"] by linarith+
    moreover have "entry_ok k (fmlookup (entries p) k) (tally (uses k) ws) (tally (guards k) ws)"
      using inv by (simp add: pool_inv_def)
    ultimately show ?thesis using entry True by simp
  next
    case False
    have g: "\<not> guards k' v" if "\<not> uses k' v" for v using that by (cases v) auto
    from own [OF False] have "tally (uses k') (ws[i := w]) = tally (uses k') ws"
        "tally (guards k') (ws[i := w]) = tally (guards k') ws"
      using g [of w] g [of "ws ! i"] upd [of "uses k'"] upd [of "guards k'"] by simp_all
    with inv t False show ?thesis by (simp add: pool_inv_def touches_def)
  qed
  moreover have "list_all (worker_ok p') (ws[i := w])"
    using inv w worker_ok_touches [OF t] set_update_subset_insert [of ws i w]
    by (auto simp: pool_inv_def list_all_iff)
  moreover have "slots p' + process_count p' + tally has_slot (ws[i := w]) = cap"
    using inv slot upd [of has_slot] by (auto simp: pool_inv_def)
  ultimately show ?thesis by (simp add: pool_inv_def)
qed

section \<open>Every step keeps it\<close>

lemma process_count_upd [simp]:
  "process_count (p\<lparr>slots := n\<rparr>) = process_count p"
  "fmlookup (entries p) k = Some e \<Longrightarrow> process_count (p\<lparr>entries := fmupd k e' (entries p)\<rparr>) = process_count p"
  "fmlookup (entries p) k = None \<Longrightarrow>
     process_count (p\<lparr>entries := fmupd k e' (entries p)\<rparr>) = process_count p + 1"
  by (simp_all add: process_count_def finsert_absorb fmdom_lookup fcard_finsert_disjoint)

lemma touches_same [simp]: "entries p' = entries p \<Longrightarrow> touches k p p'"
  by (simp add: touches_def)

lemma touches_upd:
  "entries p' = fmupd k e' (entries p) \<Longrightarrow>
   (\<And>e. fmlookup (entries p) k = Some e \<Longrightarrow> generation e \<le> generation e') \<Longrightarrow> touches k p p'"
  by (simp add: touches_def)

lemma inv_worker: "pool_inv cap (p, ws) \<Longrightarrow> i < length ws \<Longrightarrow> worker_ok p (ws ! i)"
  by (simp add: pool_inv_def list_all_length)

lemma give_back_simps [simp]:
  "entries (give_back slot p) = entries p"
  "process_count (give_back slot p) = process_count p"
  "slots (give_back slot p) = slots p + of_bool slot"
  by (simp_all add: give_back_def process_count_def)

text \<open>A caller that waits for or takes a permit of an existing entry.\<close>

lemma admit_inv:
  assumes inv: "pool_inv cap (p, ws)" and i: "i < length ws" and e: "fmlookup (entries p) k = Some e"
    and v: "ws ! i = Wants k \<or> ws ! i = Ready k \<or> ws ! i = Blocked k slot"
    and slot: "has_slot (ws ! i) = slot" and free: "is_blocked (ws ! i) \<or> entries_free ws"
    and step: "admit k slot e p = (p', w)"
  shows "pool_inv cap (p', ws[i := w])"
proof -
  have valid: "process_key_validate k = Inr ()" using inv_worker [OF inv i] v by auto
  have none: "\<not> uses k' (ws ! i)" "\<not> guards k' (ws ! i)" for k' using v by auto
  show ?thesis
  proof (cases "needs_serialization k \<and> serialization e")
    case True
    then have eq: "p' = p" "w = Blocked k slot" using step by (simp_all add: admit_def)
    show ?thesis unfolding eq
      by (rule inv_replace [OF inv i, of k])
        (use True e valid none slot free in \<open>auto simp: fmdom_lookup\<close>)
  next
    case False
    define e' where "e' = e\<lparr>references := references e + 1, last_idle_at := None,
      serialization := needs_serialization k\<rparr>"
    have eq: "p' = give_back slot (p\<lparr>entries := fmupd k e' (entries p)\<rparr>)"
        "w = Holding k (generation e) (needs_serialization k)"
      using step False by (simp_all add: admit_def e'_def split: if_splits)
    show ?thesis unfolding eq
      by (rule inv_replace [OF inv i, of k])
        (use False e valid none slot in \<open>auto simp: entry_ok_def e'_def intro: touches_upd\<close>)
  qed
qed

lemma drop_guard_simps [simp]:
  "slots (drop_guard k guard p) = slots p"
  "process_count (drop_guard k guard p) = process_count p"
  by (auto simp: drop_guard_def split: option.split)

lemma touches_drop_guard: "touches k p (drop_guard k guard p)"
  by (auto simp: drop_guard_def intro: touches_upd split: option.split)

lemma touches_release: "touches k p (release_entry k now p)"
  by (auto simp: release_entry_def Let_def intro: touches_upd split: option.split)

lemma drop_guard_inv:
  assumes inv: "pool_inv cap (p, ws)" and i: "i < length ws" and v: "ws ! i = Holding k g guard"
    and w: "w = Releasing k \<or> w = Done"
  shows "pool_inv cap (drop_guard k guard p, ws[i := w])"
  by (rule inv_replace [OF inv i touches_drop_guard])
    (use v w in \<open>auto simp: entry_ok_def drop_guard_def split: option.splits\<close>)

lemma release_inv:
  assumes inv: "pool_inv cap (p, ws)" and i: "i < length ws" and v: "ws ! i = Releasing k"
  shows "pool_inv cap (release_entry k now p, ws[i := Done])"
  by (rule inv_replace [OF inv i touches_release])
    (use v in \<open>auto simp: entry_ok_def release_entry_def Let_def split: option.splits\<close>)

lemma worker_step_inv:
  assumes inv: "pool_inv cap (p, ws)" and i: "i < length ws"
    and step: "worker_step now (entries_free ws) p (ws ! i) = Some (p', w)"
  shows "pool_inv cap (p', ws[i := w])"
proof (cases "ws ! i")
  case (Wants k)
  show ?thesis
  proof (cases "fmlookup (entries p) k")
    case None
    with step Wants have eq: "p' = p" "w = Queued k"
      by (auto simp: acquire_lookup_def acquire_existing_def split: if_splits)
    show ?thesis unfolding eq
      by (rule inv_replace [OF inv i, of k]) (use Wants inv_worker [OF inv i] in auto)
  next
    case (Some e)
    with step Wants show ?thesis
      by (intro admit_inv [OF inv i Some, of False])
        (auto simp: acquire_lookup_def acquire_existing_def split: if_splits)
  qed
next
  case (Queued k)
  with step have eq: "p' = p\<lparr>slots := slots p - 1\<rparr>" "w = Ready k" "0 < slots p"
    by (auto split: if_splits)
  show ?thesis unfolding eq(1,2)
    by (rule inv_replace [OF inv i, of k]) (use Queued eq(3) inv_worker [OF inv i] in auto)
next
  case (Ready k)
  have valid: "process_key_validate k = Inr ()" using inv_worker [OF inv i] Ready by simp
  show ?thesis
  proof (cases "fmlookup (entries p) k")
    case None
    with step Ready have eq: "p' = p\<lparr>entries := fmupd k (fresh_entry k) (entries p)\<rparr>"
        "w = Holding k 1 (needs_serialization k)"
      by (auto simp: acquire_with_slot_def split: if_splits)
    show ?thesis unfolding eq
      by (rule inv_replace [OF inv i, of k])
        (use Ready None valid in \<open>auto simp: entry_ok_def fresh_entry_def intro: touches_upd\<close>)
  next
    case (Some e)
    with step Ready show ?thesis
      by (intro admit_inv [OF inv i Some, of True]) (auto simp: acquire_with_slot_def split: if_splits)
  qed
next
  case (Blocked k slot)
  with step obtain e where e: "fmlookup (entries p) k = Some e" "admit k slot e p = (p', w)"
    by (auto split: option.splits if_splits)
  show ?thesis using Blocked by (intro admit_inv [OF inv i e(1) _ _ _ e(2)]) auto
next
  case (Holding k g guard)
  with step drop_guard_inv [OF inv i Holding] show ?thesis by auto
next
  case (Releasing k)
  with step release_inv [OF inv i Releasing] show ?thesis by (auto split: if_splits)
qed (use step in auto)

lemma uses_one: "\<exists>k. \<forall>k'. k' \<noteq> k \<longrightarrow> \<not> uses k' w"
  by (cases w) (simp, simp, simp, simp, metis uses.simps(1), metis uses.simps(2), simp_all)

lemma abandon_inv:
  assumes inv: "pool_inv cap (p, ws)" and i: "i < length ws"
  shows "pool_inv cap (abandon p (ws ! i), ws[i := Done])"
proof (cases "\<exists>k g guard. ws ! i = Holding k g guard")
  case True
  then show ?thesis using drop_guard_inv [OF inv i] by auto
next
  case False
  then have eq: "abandon p (ws ! i) = give_back (has_slot (ws ! i)) p" by (cases "ws ! i") auto
  obtain k where k: "\<forall>k'. k' \<noteq> k \<longrightarrow> \<not> uses k' (ws ! i)" using uses_one [of "ws ! i"] by blast
  have "\<not> guards k (ws ! i)" using False by (cases "ws ! i") auto
  with k show ?thesis unfolding eq
    by (intro inv_replace [OF inv i, of k]) (use False in \<open>auto simp: entry_ok_def split: option.splits\<close>)
qed

lemma lookup_reaped:
  "fmlookup (entries (snd (reap_idle now p))) k = (if expired now p k then None else fmlookup (entries p) k)"
  by (auto simp: reap_idle_def Let_def expired_def fmdom_lookup split: option.splits)

lemma reap_counts:
  "slots (snd (reap_idle now p)) + process_count (snd (reap_idle now p)) = slots p + process_count p"
proof -
  define gone where "gone = ffilter (expired now p) (fmdom (entries p))"
  have sub: "gone |\<subseteq>| fmdom (entries p)" by (auto simp: gone_def)
  have "process_count (snd (reap_idle now p)) = fcard (fmdom (entries p) |-| gone)"
    by (simp add: reap_idle_def Let_def process_count_def gone_def)
  also have "\<dots> = fcard (fmdom (entries p)) - fcard gone" using sub by (rule fcard_funion_fsubset)
  finally show ?thesis
    using fcard_mono [OF sub] by (simp add: reap_idle_def Let_def process_count_def gone_def)
qed

lemma reap_inv:
  assumes inv: "pool_inv cap (p, ws)" and free: "entries_free ws"
  shows "pool_inv cap (snd (reap_idle now p), ws)"
proof -
  let ?p = "snd (reap_idle now p)"
  have ok: "entry_ok k (fmlookup (entries p) k) (tally (uses k) ws) (tally (guards k) ws)" for k
    using inv by (simp add: pool_inv_def)
  have gone: "tally (uses k) ws = 0 \<and> tally (guards k) ws = 0" if k: "expired now p k" for k
  proof -
    have "tally (uses k) ws = 0" using ok [of k] k by (auto simp: expired_def entry_ok_def split: option.splits)
    moreover from this have "tally (guards k) ws = 0"
    proof -
      have "guards k w \<Longrightarrow> uses k w" for w by (cases w) auto
      with \<open>tally (uses k) ws = 0\<close> show ?thesis by (auto simp: tally_0 list_ex_iff)
    qed
    ultimately show ?thesis by simp
  qed
  have "entry_ok k (fmlookup (entries ?p) k) (tally (uses k) ws) (tally (guards k) ws)" for k
    using ok [of k] gone [of k] by (simp add: lookup_reaped entry_ok_def)
  moreover have "worker_ok ?p w" if w: "w \<in> set ws" for w
  proof -
    have old: "worker_ok p w" using inv w by (simp add: pool_inv_def list_all_iff)
    show ?thesis
    proof (cases w)
      case (Holding k g guard)
      have "\<not> expired now p k"
      proof
        assume "expired now p k"
        then have "\<not> uses k w" using gone w by (auto simp: tally_0 list_ex_iff)
        with Holding show False by simp
      qed
      with old Holding show ?thesis by (simp add: lookup_reaped)
    next
      case (Blocked k slot)
      then show ?thesis using free w by (auto simp: entries_free_def list_ex_iff)
    qed (use old in simp_all)
  qed
  ultimately show ?thesis using inv reap_counts [of now p] by (simp add: pool_inv_def list_all_iff)
qed

lemma crash_lookup:
  "fmlookup (entries (snd (record_crash k p))) k' =
     (if k' = k then map_option (\<lambda>e. if restart_budget e = 0 then e
        else e\<lparr>restart_budget := restart_budget e - 1, generation := generation e + 1\<rparr>) (fmlookup (entries p) k)
      else fmlookup (entries p) k')"
  by (auto simp: record_crash_def split: option.split)

lemma crash_numbers:
  assumes "1 \<le> unat (g :: u64)" "unat g + unat (b :: u8) = 3" "b \<noteq> 0"
  shows "unat (g + 1) = unat g + 1" "unat (b - 1) = unat b - 1"
proof -
  have "0 < unat b" using assms(3) unat_gt_0 by blast
  then show "unat (g + 1) = unat g + 1" using assms by (simp add: unat_word_ariths)
  show "unat (b - 1) = unat b - 1" using assms(3) by (rule unat_minus_one)
qed

lemma crash_inv:
  assumes inv: "pool_inv cap (p, ws)"
  shows "pool_inv cap (snd (record_crash k p), ws)"
proof -
  let ?p = "snd (record_crash k p)"
  have ok: "entry_ok k (fmlookup (entries p) k) (tally (uses k) ws) (tally (guards k) ws)" for k
    using inv by (simp add: pool_inv_def)
  have "entry_ok k' (fmlookup (entries ?p) k') (tally (uses k') ws) (tally (guards k') ws)" for k'
  proof (cases "fmlookup (entries p) k")
    case None
    then show ?thesis using ok [of k'] by (auto simp: crash_lookup)
  next
    case (Some e)
    with ok [of k] have n: "1 \<le> unat (generation e)" "unat (generation e) + unat (restart_budget e) = 3"
      by (simp_all add: entry_ok_def)
    have "0 < unat (restart_budget e)" if "restart_budget e \<noteq> 0" using that unat_gt_0 by blast
    with Some ok [of k'] n crash_numbers [OF n] show ?thesis
      by (auto simp: crash_lookup entry_ok_def)
  qed
  moreover have "touches k p ?p"
  proof (cases "fmlookup (entries p) k")
    case (Some e)
    with ok [of k] have n: "1 \<le> unat (generation e)" "unat (generation e) + unat (restart_budget e) = 3"
      by (simp_all add: entry_ok_def)
    with Some crash_numbers [OF n] show ?thesis by (auto simp: touches_def crash_lookup word_le_nat_alt)
  qed (simp add: touches_def crash_lookup)
  then have "list_all (worker_ok ?p) ws"
    using inv worker_ok_touches by (auto simp: pool_inv_def list_all_iff)
  moreover have "slots ?p = slots p" "process_count ?p = process_count p"
    by (auto simp: record_crash_def split: option.split)
  ultimately show ?thesis using inv by (simp add: pool_inv_def)
qed

lemma pool_step_inv: "pool_step s t \<Longrightarrow> pool_inv cap s \<Longrightarrow> pool_inv cap t"
proof (induction rule: pool_step.induct)
  case (call p ws k)
  have "worker_ok p (acquire k)" "\<not> has_slot (acquire k)" "\<not> is_blocked (acquire k)"
      "\<not> uses k' (acquire k)" "\<not> guards k' (acquire k)" for k'
    by (auto simp: acquire_def split: sum.split)
  with call show ?case by (simp add: pool_inv_def)
next
  case (timeout i ws k p)
  then show ?case by (intro inv_replace [of cap p ws i k p]) auto
qed (auto intro: worker_step_inv abandon_inv reap_inv crash_inv)

lemma pool_reachable_inv: "pool_reachable cap s \<Longrightarrow> pool_inv cap s"
proof (induction rule: pool_reachable.induct)
  case (init p)
  then show ?case
    by (auto simp: bounded_def pool_inv_def process_count_def entry_ok_def split: if_splits)
qed (rule pool_step_inv)

section \<open>What the pool promises\<close>

fun permit_for :: "process_key \<Rightarrow> worker \<Rightarrow> bool" where
  "permit_for k (Holding k' g guard) = (k' = k)"
| "permit_for k _ = False"

lemma permits_counted:
  assumes "pool_inv cap (p, ws)"
  shows "tally (permit_for k) ws \<le> tally (uses k) ws"
    and "needs_serialization k \<Longrightarrow> tally (permit_for k) ws \<le> tally (guards k) ws"
    and "0 < tally (permit_for k) ws \<Longrightarrow> process_key_validate k = Inr ()"
proof -
  have w: "list_all (worker_ok p) ws" using assms by (simp add: pool_inv_def)
  have "permit_for k v \<Longrightarrow> uses k v" for v by (cases v) auto
  then show "tally (permit_for k) ws \<le> tally (uses k) ws" by (intro tally_mono) (auto simp: list_all_iff)
  have "needs_serialization k \<longrightarrow> permit_for k v \<longrightarrow> guards k v" if "v \<in> set ws" for v
    using w that by (cases v) (auto simp: list_all_iff)
  then show "needs_serialization k \<Longrightarrow> tally (permit_for k) ws \<le> tally (guards k) ws"
    by (intro tally_mono) (auto simp: list_all_iff)
  assume "0 < tally (permit_for k) ws"
  then have "list_ex (permit_for k) ws" using tally_0 [of "permit_for k" ws] by simp
  then obtain v where v: "v \<in> set ws" "permit_for k v" by (auto simp: list_ex_iff)
  then have "worker_ok p v" using w by (simp add: list_all_iff)
  with v(2) show "process_key_validate k = Inr ()" by (cases v) auto
qed

text \<open>
  C25: whatever callers do, and however their steps interleave: the free slots, the processes and the
  slots on their way to a process add up to the capacity; the process of a permit is in the pool, is
  counted at least once per permit and so is never reaped; its key is valid; a process whose calls
  are serialized has one permit at a time.
\<close>

theorem pool_shares_safely:
  assumes "pool_reachable cap (p, ws)"
  shows "slots p + process_count p + tally has_slot ws = cap
    \<and> (if tally (permit_for k) ws = 0 then True else process_key_validate k = Inr ())
    \<and> (case fmlookup (entries p) k of
         None \<Rightarrow> tally (permit_for k) ws = 0
       | Some e \<Rightarrow> tally (permit_for k) ws \<le> references e \<and> (if expired now p k then tally (permit_for k) ws = 0 else True)
           \<and> (if needs_serialization k then tally (permit_for k) ws \<le> 1 else True)
           \<and> unat (generation e) + unat (restart_budget e) = 3)"
proof -
  have inv: "pool_inv cap (p, ws)" using assms(1) by (rule pool_reachable_inv)
  then have "entry_ok k (fmlookup (entries p) k) (tally (uses k) ws) (tally (guards k) ws)"
      "slots p + process_count p + tally has_slot ws = cap"
    by (simp_all add: pool_inv_def)
  with permits_counted [OF inv, of k] show ?thesis
    by (cases "fmlookup (entries p) k"; cases "needs_serialization k")
      (auto simp: entry_ok_def expired_def of_bool_def split: if_splits)
qed

text \<open>
  C26: the pool does not deadlock: a caller that waits with the entries locked can go on, or one
  other caller has the guard it waits for and lets it go on by dropping it, which needs no lock.
\<close>

theorem blocked_caller_proceeds:
  assumes "pool_reachable cap (p, ws)" "i < length ws" "ws ! i = Blocked k slot"
  shows "worker_step now False p (ws ! i) \<noteq> None
    \<or> (\<exists>j g. j < length ws \<and> ws ! j = Holding k g True
          \<and> worker_step now False p (ws ! j) = Some (drop_guard k True p, Releasing k)
          \<and> worker_step later False (drop_guard k True p) (ws ! i) \<noteq> None)"
proof -
  have inv: "pool_inv cap (p, ws)" using assms(1) by (rule pool_reachable_inv)
  obtain e where e: "fmlookup (entries p) k = Some e"
    using inv_worker [OF inv assms(2)] assms(3) by (auto simp: fmdom_lookup)
  show ?thesis
  proof (cases "serialization e")
    case False
    then show ?thesis using e assms(3) by simp
  next
    case True
    have "entry_ok k (fmlookup (entries p) k) (tally (uses k) ws) (tally (guards k) ws)"
      using inv by (simp add: pool_inv_def)
    then have "list_ex (guards k) ws" using e True tally_0 [of "guards k" ws] by (auto simp: entry_ok_def)
    then obtain j where j: "j < length ws" "guards k (ws ! j)" by (auto simp: list_ex_length)
    then obtain g where "ws ! j = Holding k g True" by (cases "ws ! j") auto
    then show ?thesis using j(1) e assms(3) by (auto simp: drop_guard_def)
  qed
qed

section \<open>A concrete run\<close>

definition sample_key :: process_key where
  "sample_key =
     \<lparr>server_configuration_digest = default_digest, executable_identity = ''/reviewed/server'',
      pk_protocol_revision = ''2026-07-28'', tenant_security_partition = ''tenant-a'',
      upstream_credential_identity = default_digest, environment_digest = default_digest,
      shareability = WithSerialization, principal_partition = None, instance_nonce = None\<rparr>"

definition sample_pool :: "nat \<Rightarrow> (process_key, pool_entry) fmap \<Rightarrow> process_pool" where
  "sample_pool n m = \<lparr>entries = m, slots = n, startup_timeout = 10000, shutdown_timeout = 5000, idle_ttl = 30000\<rparr>"

lemma sample_key_facts [simp]:
  "process_key_validate sample_key = Inr ()" "needs_serialization sample_key"
  by (simp_all add: process_key_validate_def needs_serialization_def sample_key_def)

text \<open>The first caller starts the process, the second waits for its guard.\<close>

lemma sample_pool_reachable:
  "pool_reachable 1 (sample_pool 0 (fmupd sample_key (fresh_entry sample_key) fmempty),
     [Holding sample_key 1 True, Blocked sample_key False])"
proof -
  let ?k = sample_key
  let ?m = "fmupd ?k (fresh_entry ?k) fmempty"
  note go = pool_reachable.step [OF _ pool_step.proceed [of 0, where now = 0]]
  have "pool_reachable 1 (sample_pool 1 fmempty, [])"
    by (rule pool_reachable.init) (simp add: bounded_def sample_pool_def)
  then have "pool_reachable 1 (sample_pool 1 fmempty, [] @ [acquire ?k])"
    by (rule pool_reachable.step [OF _ pool_step.call])
  then have "pool_reachable 1 (sample_pool 1 fmempty, [Wants ?k])" by (simp add: acquire_def)
  then have "pool_reachable 1 (sample_pool 1 fmempty, [Wants ?k] [0 := Queued ?k])"
    by (rule go) (simp_all add: entries_free_def acquire_lookup_def acquire_existing_def sample_pool_def)
  then have "pool_reachable 1 (sample_pool 1 fmempty, [Queued ?k])" by simp
  then have "pool_reachable 1 (sample_pool 0 fmempty, [Queued ?k] [0 := Ready ?k])"
    by (rule go) (simp_all add: sample_pool_def)
  then have "pool_reachable 1 (sample_pool 0 fmempty, [Ready ?k])" by simp
  then have "pool_reachable 1 (sample_pool 0 ?m, [Ready ?k] [0 := Holding ?k 1 True])"
    by (rule go) (simp_all add: entries_free_def acquire_with_slot_def sample_pool_def)
  then have "pool_reachable 1 (sample_pool 0 ?m, [Holding ?k 1 True])" by simp
  then have "pool_reachable 1 (sample_pool 0 ?m, [Holding ?k 1 True] @ [acquire ?k])"
    by (rule pool_reachable.step [OF _ pool_step.call])
  then have "pool_reachable 1 (sample_pool 0 ?m, [Holding ?k 1 True, Wants ?k])" by (simp add: acquire_def)
  then have "pool_reachable 1 (sample_pool 0 ?m, [Holding ?k 1 True, Wants ?k] [1 := Blocked ?k False])"
    by (rule pool_reachable.step [OF _ pool_step.proceed [where now = 0]])
      (simp_all add: entries_free_def acquire_lookup_def acquire_existing_def sample_pool_def admit_def
        fresh_entry_def)
  then show ?thesis by simp
qed

theorem pool_shares_safely_witness:
  "tally (permit_for sample_key) [Holding sample_key 1 True, Blocked sample_key False] = 1
   \<and> \<not> expired 99999 (sample_pool 0 (fmupd sample_key (fresh_entry sample_key) fmempty)) sample_key"
  using pool_shares_safely [OF sample_pool_reachable, of sample_key 99999]
  by (auto simp: sample_pool_def split: if_splits)

theorem blocked_caller_proceeds_witness:
  "\<exists>j < 2. [Holding sample_key 1 True, Blocked sample_key False] ! j = Holding sample_key 1 True"
proof -
  let ?ws = "[Holding sample_key 1 True, Blocked sample_key False]"
  have "1 < length ?ws" "?ws ! 1 = Blocked sample_key False" by simp_all
  note b = blocked_caller_proceeds [OF sample_pool_reachable this, of 0 0]
  have "worker_step 0 False (sample_pool 0 (fmupd sample_key (fresh_entry sample_key) fmempty)) (?ws ! 1) = None"
    by (simp add: sample_pool_def fresh_entry_def)
  with b obtain j g where j: "j < length ?ws" "?ws ! j = Holding sample_key g True" by blast
  then have "j = 0 \<or> j = 1" by auto
  with j show ?thesis by (auto intro!: exI [of _ 0])
qed

end
