(* ===== verification/Http.thy ===== *)
theory Http
  imports Digest
begin

text \<open>
  What the components that speak HTTP share: header maps, responses, and the loop that reads a body
  chunk by chunk up to a limit (\<open>fetch_jwks\<close> of \<open>auth.rs\<close>, \<open>bounded_body\<close> of \<open>approval.rs\<close>,
  \<open>get_json\<close> of \<open>registry.rs\<close>, \<open>bounded_provider_json\<close> of \<open>model.rs\<close>). The \<open>http\<close> crate's own
  conversions are the record \<open>http_library\<close>; sending a request is a parameter of the caller.
\<close>

section \<open>Headers\<close>

text \<open>A header map: lower case names and values in the order they were added.\<close>

type_synonym headers = "(string \<times> bytes) list"

definition header_values :: "headers \<Rightarrow> string \<Rightarrow> bytes list" where
  "header_values hs name = map snd (filter (\<lambda>(n, v). n = name) hs)"

text \<open>\<open>HeaderMap::get\<close>: the first value.\<close>

definition header_get :: "headers \<Rightarrow> string \<Rightarrow> bytes option" where
  "header_get hs name = map_of hs name"

definition has_header :: "headers \<Rightarrow> string \<Rightarrow> bool" where
  "has_header hs name \<longleftrightarrow> name \<in> fst ` set hs"

text \<open>\<open>HeaderValue::to_str\<close>, and the host and port of a parsed \<open>Authority\<close>.\<close>

record http_library =
  header_to_str :: "bytes \<Rightarrow> string option"
  parse_authority :: "string \<Rightarrow> (string \<times> u16 option) option"

lemma header_values_Nil: "header_values hs name = [] \<longleftrightarrow> \<not> has_header hs name"
  by (force simp: header_values_def has_header_def filter_empty_conv)

section \<open>Responses\<close>

text \<open>The chunks of the body; \<open>None\<close> is a stream that fails.\<close>

record http_response =
  resp_status :: nat
  resp_status_text :: string
  resp_content_length :: "u64 option"
  resp_headers :: headers
  resp_chunks :: "bytes option list"

definition is_success :: "http_response \<Rightarrow> bool" where
  "is_success r \<longleftrightarrow> 200 \<le> resp_status r \<and> resp_status r < 300"

definition length_exceeds :: "http_response \<Rightarrow> nat \<Rightarrow> bool" where
  "length_exceeds r limit \<longleftrightarrow>
     (case resp_content_length r of None \<Rightarrow> False | Some n \<Rightarrow> limit < unat n)"

fun read_chunks :: "nat \<Rightarrow> 'e \<Rightarrow> 'e \<Rightarrow> bytes \<Rightarrow> bytes option list \<Rightarrow> ('e, bytes) res" where
  "read_chunks limit too_large failed body [] = Inr body"
| "read_chunks limit too_large failed body (None # cs) = Inl failed"
| "read_chunks limit too_large failed body (Some c # cs) =
     (if limit < length body + length c then Inl too_large
      else read_chunks limit too_large failed (body @ c) cs)"

text \<open>A body is read completely, or not at all; what is read is never longer than the limit.\<close>

lemma read_chunks_Inr:
  "length body \<le> limit \<Longrightarrow> read_chunks limit e f body cs = Inr b
   \<longleftrightarrow> None \<notin> set cs \<and> b = body @ concat (map the cs) \<and> length b \<le> limit"
proof (induction limit e f body cs rule: read_chunks.induct)
  case (3 limit e f body c cs)
  then show ?case by auto
qed auto

lemma read_chunks_whole:
  assumes "read_chunks limit e f [] cs = Inr b"
  shows "None \<notin> set cs" "concat (map the cs) = b" "length b \<le> limit"
  using assms read_chunks_Inr [of "[]" limit e f cs b] by auto

end
