(* ===== verification/Auth.thy ===== *)
theory Auth
  imports Config Http
begin

text \<open>
  Models \<open>crates/gaugemesh/src/auth.rs\<close>: the gate in front of the remote listener. The key set is
  fetched through a pinned origin, cached and refreshed once when a token names an unknown key; a
  request is passed on with the identity its token was signed for. The JWT and HTTP libraries, DNS
  and the parser of key sets are parameters.
\<close>

section \<open>Key sets\<close>

definition MAX_JWKS_BYTES :: nat where "MAX_JWKS_BYTES = 1024 * 1024"
definition MAX_BEARER_BYTES :: nat where "MAX_BEARER_BYTES = 16 * 1024"

record identity =
  id_principal :: string
  id_tenant :: string
  id_scopes :: "string list"

text \<open>A key set is the list of its keys with their identifiers.\<close>

type_synonym 'k jwk_set = "(string option \<times> 'k) list"

record 'k cached_keys =
  key_set :: "'k jwk_set"
  keys_expire_at :: nat

text \<open>\<open>JwkSet::find\<close>.\<close>

definition with_keys :: "'k jwt_library \<Rightarrow> 'k jwk_set \<Rightarrow> 'k jwt_library" where
  "with_keys J ks = J\<lparr>find_key := (\<lambda>i. map_option snd (find (\<lambda>(n, k). n = Some i) ks))\<rparr>"

fun bad_key_ids :: "string fset \<Rightarrow> 'k jwk_set \<Rightarrow> bool" where
  "bad_key_ids ids [] = False"
| "bad_key_ids ids ((None, k) # ks) = True"
| "bad_key_ids ids ((Some i, k) # ks) =
     (i = [] \<or> 256 < length i \<or> i |\<in>| ids \<or> bad_key_ids (finsert i ids) ks)"

text \<open>The connection goes to the addresses of the origin, without following redirects.\<close>

type_synonym http_client = "resolved_origin \<Rightarrow> full_url \<Rightarrow> http_response option"

definition fetch_jwks ::
  "dns \<Rightarrow> http_client \<Rightarrow> (bytes \<Rightarrow> 'k jwk_set option) \<Rightarrow> full_url \<Rightarrow> (string, 'k jwk_set) res" where
  "fetch_jwks lookup_host client parse u =
     rbind (map_err (\<lambda>_. ''GM_AUTH_JWKS_ORIGIN'') (resolve lookup_host (url.truncate u) False)) (\<lambda>origin.
     rbind (ok_or (client origin u) ''GM_AUTH_JWKS_FETCH'') (\<lambda>response.
     rbind (ensure (is_success response) (''GM_AUTH_JWKS_STATUS:'' @ resp_status_text response)) (\<lambda>_.
     rbind (ensure (\<not> length_exceeds response MAX_JWKS_BYTES) ''GM_AUTH_JWKS_TOO_LARGE'') (\<lambda>_.
     rbind (read_chunks MAX_JWKS_BYTES ''GM_AUTH_JWKS_TOO_LARGE'' ''GM_AUTH_JWKS_BODY'' [] (resp_chunks response)) (\<lambda>body.
     rbind (ok_or (parse body) ''GM_AUTH_JWKS_PARSE'') (\<lambda>ks.
     rbind (ensure (\<not> (ks = [] \<or> 128 < length ks \<or> bad_key_ids {||} ks)) ''GM_AUTH_JWKS_INVALID'') (\<lambda>_.
       Inr ks)))))))"

definition initialize ::
  "(string, 'k jwk_set) res \<Rightarrow> remote_config \<Rightarrow> nat \<Rightarrow> (string, 'k cached_keys) res" where
  "initialize fetched c now =
     rbind fetched (\<lambda>ks. Inr \<lparr>key_set = ks, keys_expire_at = now + unat (jwks_cache_ttl_seconds c)\<rparr>)"

definition unexpired :: "nat \<Rightarrow> 'k cached_keys \<Rightarrow> 'k jwk_set option" where
  "unexpired now c = (if now < keys_expire_at c then Some (key_set c) else None)"

text \<open>
  \<open>keys\<close>: the cache is read before and again after waiting for the refresh lock (\<open>first\<close> and
  \<open>second\<close>), unless a refresh is forced; then the set is fetched and cached.
\<close>

definition keys ::
  "remote_config \<Rightarrow> nat \<Rightarrow> bool \<Rightarrow> 'k cached_keys \<Rightarrow> 'k cached_keys \<Rightarrow> (string, 'k jwk_set) res
   \<Rightarrow> (string, 'k jwk_set) res \<times> 'k cached_keys" where
  "keys c now force first second fetched =
     (case if force then None else unexpired now first of
        Some ks \<Rightarrow> (Inr ks, first)
      | None \<Rightarrow>
          (case if force then None else unexpired now second of
             Some ks \<Rightarrow> (Inr ks, second)
           | None \<Rightarrow>
               (case fetched of
                  Inl e \<Rightarrow> (Inl e, second)
                | Inr ks \<Rightarrow> (Inr ks, \<lparr>key_set = ks, keys_expire_at = now + unat (jwks_cache_ttl_seconds c)\<rparr>))))"

section \<open>Tokens and identities\<close>

definition bearer_token :: "http_library \<Rightarrow> headers \<Rightarrow> (auth_error, string) res" where
  "bearer_token H hs =
     (case header_values hs ''authorization'' of
        [v] \<Rightarrow>
          rbind (ok_or (header_to_str H v) TokenHeader) (\<lambda>s.
          rbind (ok_or (split_once (CHR '' '') s) TokenHeader) (\<lambda>(scheme, token).
          if \<not> eq_ignore_ascii_case scheme ''bearer'' \<or> token = [] \<or> MAX_BEARER_BYTES < length token
             \<or> list_ex char_is_whitespace (utf8_chars token)
          then Inl TokenHeader else Inr token))
      | _ \<Rightarrow> Inl TokenHeader)"

definition identity_part :: "string \<Rightarrow> bool" where
  "identity_part s \<longleftrightarrow> s \<noteq> [] \<and> length s \<le> 256
     \<and> list_all (\<lambda>c. \<not> char_is_control c \<and> \<not> char_is_whitespace c) (utf8_chars s)"

definition validate_identity :: "string \<Rightarrow> string \<Rightarrow> (auth_error, unit) res" where
  "validate_identity p t =
     (if \<not> identity_part p \<or> \<not> identity_part t \<or> (p = ''local-demo'' \<and> t = ''local'')
      then Inl TokenSignature else Inr ())"

definition oidc_binding_of :: "remote_config \<Rightarrow> oidc_binding" where
  "oidc_binding_of c =
     \<lparr>oidc_issuer = url_text (issuer c), oidc_audience = rc_audience c, oidc_resource = rc_resource c,
      clock_skew_seconds = remote_config.clock_skew_seconds c\<rparr>"

text \<open>The instant and the clock are arguments, as are the two fetches that may be needed.\<close>

record 'k auth_run =
  run_now :: nat
  run_clock :: "u64 option"
  run_first :: "'k cached_keys"
  run_second :: "'k cached_keys"
  run_fetch :: "(string, 'k jwk_set) res"
  run_refresh :: "(string, 'k jwk_set) res"

definition verified_claims ::
  "'k jwt_library \<Rightarrow> remote_config \<Rightarrow> string \<Rightarrow> 'k auth_run \<Rightarrow> u64 \<Rightarrow> (auth_error, oidc_claims) res" where
  "verified_claims J c token A now =
     (let try_keys = (\<lambda>r. map_err (\<lambda>_. TokenKey) r);
          check = (\<lambda>ks. verify_oidc_token (with_keys J ks) token (oidc_binding_of c) now) in
      rbind (try_keys (fst (keys c (run_now A) False (run_first A) (run_second A) (run_fetch A)))) (\<lambda>ks.
      if check ks = Inl TokenKey
      then rbind (try_keys (fst (keys c (run_now A) True (run_first A) (run_second A) (run_refresh A)))) check
      else check ks))"

definition authenticate ::
  "http_library \<Rightarrow> 'k jwt_library \<Rightarrow> remote_config \<Rightarrow> headers \<Rightarrow> 'k auth_run \<Rightarrow> (auth_error, identity) res" where
  "authenticate H J c hs A =
     rbind (bearer_token H hs) (\<lambda>token.
     rbind (ok_or (run_clock A) TokenExpired) (\<lambda>now.
     rbind (verified_claims J c token A now) (\<lambda>claims.
     let granted = ascii_words (cl_scope claims) in
     rbind (ensure (list_all (\<lambda>r. r \<in> set granted) (required_scopes c)) ScopeDenied) (\<lambda>_.
     rbind (validate_identity (cl_sub claims) (cl_tenant claims)) (\<lambda>_.
       Inr \<lparr>id_principal = cl_sub claims, id_tenant = cl_tenant claims, id_scopes = sort_dedup granted\<rparr>)))))"

section \<open>The origin of a request\<close>

definition FORWARDED_HEADERS :: "string list" where
  "FORWARDED_HEADERS =
     [''forwarded'', ''x-forwarded-for'', ''x-forwarded-host'', ''x-forwarded-port'', ''x-forwarded-proto'']"

definition single_header :: "http_library \<Rightarrow> headers \<Rightarrow> string \<Rightarrow> (string, string option) res" where
  "single_header H hs name =
     (case header_values hs name of
        [] \<Rightarrow> Inr None
      | [v] \<Rightarrow> (case header_to_str H v of None \<Rightarrow> Inl ''GM_AUTH_INVALID_HEADER'' | Some s \<Rightarrow> Inr (Some s))
      | _ \<Rightarrow> Inl ''GM_AUTH_AMBIGUOUS_HEADER'')"

definition authority_matches :: "http_library \<Rightarrow> string \<Rightarrow> full_url \<Rightarrow> bool" where
  "authority_matches H a u \<longleftrightarrow>
     (case parse_authority H a of
        None \<Rightarrow> False
      | Some (host, port) \<Rightarrow>
          eq_ignore_ascii_case host (case url_host u of None \<Rightarrow> [] | Some h \<Rightarrow> h)
          \<and> (case port of None \<Rightarrow> 443 | Some n \<Rightarrow> n) = (case url_port u of None \<Rightarrow> 443 | Some n \<Rightarrow> n))"

definition request_authority ::
  "http_library \<Rightarrow> bool \<Rightarrow> headers \<Rightarrow> (string, string option) res" where
  "request_authority H trusted hs =
     (if trusted
      then rbind (single_header H hs ''x-forwarded-host'') (\<lambda>forwarded.
        Inr (case forwarded of
               Some a \<Rightarrow> Some a
             | None \<Rightarrow> (case single_header H hs ''host'' of Inl e \<Rightarrow> None | Inr a \<Rightarrow> a)))
      else single_header H hs ''host'')"

definition validate_request_origin ::
  "http_library \<Rightarrow> remote_config \<Rightarrow> ip_addr \<Rightarrow> headers \<Rightarrow> (string, string) res" where
  "validate_request_origin H c peer hs =
     (let trusted = list_ex (\<lambda>a. a = peer) (trusted_proxies c) in
      rbind (ensure (\<not> (list_ex (has_header hs) FORWARDED_HEADERS \<and> \<not> trusted))
               ''GM_AUTH_UNTRUSTED_PROXY_HEADERS'') (\<lambda>_.
      rbind (ensure (\<not> has_header hs ''forwarded'') ''GM_AUTH_FORWARDED_HEADER_UNSUPPORTED'') (\<lambda>_.
      rbind (if trusted
             then rbind (single_header H hs ''x-forwarded-proto'') (\<lambda>proto.
               ensure (case proto of None \<Rightarrow> True | Some s \<Rightarrow> eq_ignore_ascii_case s ''https'')
                 ''GM_AUTH_PUBLIC_ORIGIN_MISMATCH'')
             else Inr ()) (\<lambda>_.
      rbind (request_authority H trusted hs) (\<lambda>a.
      rbind (ok_or a ''GM_AUTH_PUBLIC_ORIGIN_MISMATCH'') (\<lambda>a.
      rbind (ensure (authority_matches H a (public_origin c)) ''GM_AUTH_PUBLIC_ORIGIN_MISMATCH'') (\<lambda>_.
        Inr ''ok'')))))))"

section \<open>The gate\<close>

fun auth_code :: "auth_error \<Rightarrow> string" where
  "auth_code ApiKeyInvalid = ''GM_AUTH_API_KEY_INVALID''"
| "auth_code ApiKeyRevoked = ''GM_AUTH_API_KEY_REVOKED''"
| "auth_code TenantMismatch = ''GM_AUTH_TENANT_MISMATCH''"
| "auth_code ScopeDenied = ''GM_AUTH_SCOPE_DENIED''"
| "auth_code TokenHeader = ''GM_AUTH_TOKEN_HEADER''"
| "auth_code TokenAlgorithm = ''GM_AUTH_TOKEN_ALGORITHM''"
| "auth_code TokenKey = ''GM_AUTH_TOKEN_KEY''"
| "auth_code TokenSignature = ''GM_AUTH_TOKEN_SIGNATURE''"
| "auth_code TokenIssuer = ''GM_AUTH_TOKEN_ISSUER''"
| "auth_code TokenAudience = ''GM_AUTH_TOKEN_AUDIENCE''"
| "auth_code TokenResource = ''GM_AUTH_TOKEN_RESOURCE''"
| "auth_code TokenExpired = ''GM_AUTH_TOKEN_EXPIRED''"
| "auth_code TokenNotYetValid = ''GM_AUTH_TOKEN_NOT_YET_VALID''"

text \<open>A refusal: status, code in the body, and the \<open>WWW-Authenticate\<close> header of a 401.\<close>

record refusal =
  refused_status :: nat
  refused_code :: string
  refused_authenticate :: "string option"

definition auth_response :: "nat \<Rightarrow> string \<Rightarrow> refusal" where
  "auth_response status code =
     \<lparr>refused_status = status, refused_code = code,
      refused_authenticate = (if status = 401 then Some ''Bearer'' else None)\<rparr>"

text \<open>\<open>Inr\<close>: the request goes on with the identity as an extension.\<close>

definition authorize_remote ::
  "http_library \<Rightarrow> 'k jwt_library \<Rightarrow> remote_config \<Rightarrow> ip_addr \<Rightarrow> headers \<Rightarrow> 'k auth_run \<Rightarrow> (refusal, identity) res" where
  "authorize_remote H J c peer hs A =
     (case validate_request_origin H c peer hs of
        Inl code \<Rightarrow> Inl (auth_response 400 code)
      | Inr _ \<Rightarrow>
          (case authenticate H J c hs A of
             Inr i \<Rightarrow> Inr i
           | Inl ScopeDenied \<Rightarrow> Inl (auth_response 403 ''GM_AUTH_SCOPE_DENIED'')
           | Inl e \<Rightarrow> Inl (auth_response 401 (auth_code e))))"

section \<open>What a passed request proves\<close>

lemma single_header_Inr [guard_simps]:
  "single_header H hs name = Inr x \<longleftrightarrow>
     (header_values hs name = [] \<and> x = None)
     \<or> (\<exists>v s. header_values hs name = [v] \<and> header_to_str H v = Some s \<and> x = Some s)"
  by (auto simp: single_header_def split: list.split option.split)

lemma bearer_token_Inr:
  "bearer_token H hs = Inr token \<Longrightarrow>
     \<exists>v scheme. header_values hs ''authorization'' = [v]
       \<and> header_to_str H v = Some (scheme @ '' '' @ token) \<and> eq_ignore_ascii_case scheme ''bearer''
       \<and> token \<noteq> [] \<and> length token \<le> MAX_BEARER_BYTES"
  by (auto simp: bearer_token_def guard_simps split_once_Some split: list.splits if_splits)

text \<open>The key sets a verification may have used: an unexpired cached one, or one just fetched.\<close>

definition keys_in_use :: "'k auth_run \<Rightarrow> 'k jwk_set \<Rightarrow> bool" where
  "keys_in_use A ks \<longleftrightarrow>
     unexpired (run_now A) (run_first A) = Some ks \<or> unexpired (run_now A) (run_second A) = Some ks
     \<or> run_fetch A = Inr ks \<or> run_refresh A = Inr ks"

lemma keys_Inr:
  "fst (keys c now force first second fetched) = Inr ks \<Longrightarrow>
     (\<not> force \<and> (unexpired now first = Some ks \<or> unexpired now second = Some ks)) \<or> fetched = Inr ks"
  by (auto simp: keys_def split: option.splits if_splits sum.splits)

lemma verified_claims_Inr:
  assumes "verified_claims J c token A now = Inr claims"
  shows "\<exists>ks. keys_in_use A ks
    \<and> verify_oidc_token (with_keys J ks) token (oidc_binding_of c) now = Inr claims"
  using assms
  by (auto simp: verified_claims_def Let_def guard_simps keys_in_use_def split: if_splits dest!: keys_Inr)

lemma request_origin_Inr:
  assumes "validate_request_origin H c peer hs = Inr x"
  shows "\<exists>a. authority_matches H a (public_origin c)
     \<and> (if peer \<in> set (trusted_proxies c) then True
        else single_header H hs ''host'' = Inr (Some a) \<and> list_all (\<lambda>h. \<not> has_header hs h) FORWARDED_HEADERS)"
  using assms
  by (auto simp: validate_request_origin_def Let_def request_authority_def rbind_Inr ensure_Inr ok_or_Inr
      list_ex_iff list_all_iff split: if_splits)

text \<open>
  C38: A request passes the gate only with the identity of a token that is signed by a key of an
  unexpired or freshly fetched set, bound to this gateway and valid now, and only with every required
  scope; it came to the public origin, and without forwarding headers unless a trusted proxy sent it.
  The identity of the local transport cannot be claimed.
\<close>

theorem passed_request_is_bound:
  assumes "authorize_remote H J c peer hs A = Inr i"
  shows "\<exists>token ks claims now a.
      bearer_token H hs = Inr token \<and> keys_in_use A ks \<and> run_clock A = Some now
    \<and> verify_oidc_token (with_keys J ks) token (oidc_binding_of c) now = Inr claims
    \<and> id_principal i = cl_sub claims \<and> id_tenant i = cl_tenant claims
    \<and> set (id_scopes i) = set (ascii_words (cl_scope claims))
    \<and> set (required_scopes c) \<subseteq> set (id_scopes i)
    \<and> (id_principal i, id_tenant i) \<noteq> (''local-demo'', ''local'')
    \<and> authority_matches H a (public_origin c)
    \<and> (if peer \<in> set (trusted_proxies c) then True
       else single_header H hs ''host'' = Inr (Some a) \<and> list_all (\<lambda>h. \<not> has_header hs h) FORWARDED_HEADERS)"
proof -
  have i: "authenticate H J c hs A = Inr i"
    using assms by (auto simp: authorize_remote_def split: sum.splits auth_error.splits)
  obtain x where x: "validate_request_origin H c peer hs = Inr x"
    using assms by (auto simp: authorize_remote_def split: sum.splits)
  obtain a where a: "authority_matches H a (public_origin c)"
      "if peer \<in> set (trusted_proxies c) then True
       else single_header H hs ''host'' = Inr (Some a) \<and> list_all (\<lambda>h. \<not> has_header hs h) FORWARDED_HEADERS"
    using request_origin_Inr [OF x] by blast
  from i obtain token now claims where t: "bearer_token H hs = Inr token" "run_clock A = Some now"
      "verified_claims J c token A now = Inr claims"
      "list_all (\<lambda>r. r \<in> set (ascii_words (cl_scope claims))) (required_scopes c)"
      "validate_identity (cl_sub claims) (cl_tenant claims) = Inr ()"
    and eq: "i = \<lparr>id_principal = cl_sub claims, id_tenant = cl_tenant claims,
      id_scopes = sort_dedup (ascii_words (cl_scope claims))\<rparr>"
    by (auto simp: authenticate_def Let_def rbind_Inr ensure_Inr ok_or_Inr)
  obtain ks where "keys_in_use A ks"
      "verify_oidc_token (with_keys J ks) token (oidc_binding_of c) now = Inr claims"
    using verified_claims_Inr [OF t(3)] by blast
  moreover have "id_principal i = cl_sub claims" "id_tenant i = cl_tenant claims"
      "set (id_scopes i) = set (ascii_words (cl_scope claims))"
    by (simp_all add: eq set_sort_dedup)
  moreover from this t(4) have "set (required_scopes c) \<subseteq> set (id_scopes i)" by (auto simp: list_all_iff)
  moreover have "(id_principal i, id_tenant i) \<noteq> (''local-demo'', ''local'')"
    using t(5) by (auto simp: eq validate_identity_def split: if_splits)
  ultimately show ?thesis using t(1,2) a by blast
qed

lemma bad_key_ids_iff:
  "\<not> bad_key_ids ids ks \<longleftrightarrow>
     list_all (\<lambda>(n, k). \<exists>i. n = Some i \<and> i \<noteq> [] \<and> length i \<le> 256 \<and> i |\<notin>| ids) ks \<and> distinct (map fst ks)"
proof (induction ids ks rule: bad_key_ids.induct)
  case (3 ids i k ks)
  have "list_all (\<lambda>(n, k). \<exists>i'. n = Some i' \<and> i' \<noteq> [] \<and> length i' \<le> 256 \<and> i' |\<notin>| finsert i ids) ks
      \<longleftrightarrow> list_all (\<lambda>(n, k). \<exists>i. n = Some i \<and> i \<noteq> [] \<and> length i \<le> 256 \<and> i |\<notin>| ids) ks \<and> Some i \<notin> fst ` set ks"
    by (induction ks) auto
  with 3 show ?case by auto
qed auto

text \<open>
  A fetched key set came over a successful response from the pinned origin, within the size limit,
  and its keys have distinct, named identifiers, so the key a token names is unique.
\<close>

theorem fetched_keys_unambiguous:
  assumes "fetch_jwks lookup_host client parse u = Inr ks"
  shows "\<exists>origin r. resolve lookup_host (url.truncate u) False = Inr origin \<and> client origin u = Some r
      \<and> is_success r \<and> parse (concat (map the (resp_chunks r))) = Some ks
      \<and> length (concat (map the (resp_chunks r))) \<le> MAX_JWKS_BYTES
      \<and> ks \<noteq> [] \<and> distinct (map fst ks) \<and> None \<notin> fst ` set ks"
proof -
  from assms obtain origin r body where *: "resolve lookup_host (url.truncate u) False = Inr origin"
      "client origin u = Some r" "is_success r"
      "read_chunks MAX_JWKS_BYTES ''GM_AUTH_JWKS_TOO_LARGE'' ''GM_AUTH_JWKS_BODY'' [] (resp_chunks r) = Inr body"
      "parse body = Some ks" "ks \<noteq> []" "\<not> bad_key_ids {||} ks"
    by (auto simp: fetch_jwks_def rbind_Inr ensure_Inr ok_or_Inr map_err_Inr)
  note body = read_chunks_whole(2,3) [OF *(4)]
  from *(7) have "distinct (map fst ks)" "None \<notin> fst ` set ks"
    by (auto simp: bad_key_ids_iff list_all_iff)
  with *(1-3,5,6) body show ?thesis by blast
qed

section \<open>A concrete request\<close>

definition sample_http :: http_library where
  "sample_http = \<lparr>header_to_str = Some, parse_authority = (\<lambda>s. Some (s, None))\<rparr>"

definition sample_origin :: full_url where
  "sample_origin =
     \<lparr>url_scheme = ''https'', url_username = [], url_password = None, url_host = Some ''mesh.example'',
      url_port = Some 443, url_fragment = None, url_query = None, url_path = ''/'',
      url_text = ''https://mesh.example/''\<rparr>"

definition sample_remote :: remote_config where
  "sample_remote =
     \<lparr>tls_certificate = ''/cert.pem'', tls_private_key = ''/key.pem'', public_origin = sample_origin,
      issuer = sample_origin\<lparr>url_text := ''idp''\<rparr>, rc_audience = ''mesh'', rc_resource = ''r'',
      jwks_url = sample_origin, required_scopes = [], jwks_cache_ttl_seconds = 300,
      clock_skew_seconds = 10, trusted_proxies = []\<rparr>"

definition sample_headers :: headers where
  "sample_headers = [(''host'', ''Mesh.Example''), (''authorization'', ''Bearer t'')]"

definition sample_auth_run :: "nat auth_run" where
  "sample_auth_run =
     \<lparr>run_now = 5, run_clock = Some 105, run_first = \<lparr>key_set = [(Some ''k'', 0)], keys_expire_at = 300\<rparr>,
      run_second = \<lparr>key_set = [], keys_expire_at = 0\<rparr>, run_fetch = Inl [], run_refresh = Inl []\<rparr>"

lemma sample_cases:
  "eq_ignore_ascii_case ''Bearer'' ''bearer''" "eq_ignore_ascii_case ''Mesh.Example'' ''mesh.example''"
  by code_simp+

lemma sample_request_passes:
  "authorize_remote sample_http sample_jwt sample_remote (V4 0) sample_headers sample_auth_run
   = Inr \<lparr>id_principal = ''alice'', id_tenant = ''acme'', id_scopes = []\<rparr>"
proof -
  have "bearer_token sample_http sample_headers = Inr ''t''"
    by (simp add: bearer_token_def header_values_def sample_headers_def sample_http_def MAX_BEARER_BYTES_def
        sample_cases char_is_whitespace_def)
  moreover have "validate_request_origin sample_http sample_remote (V4 0) sample_headers = Inr ''ok''"
    by (simp add: validate_request_origin_def sample_remote_def FORWARDED_HEADERS_def has_header_def
        sample_headers_def request_authority_def single_header_def header_values_def sample_http_def
        authority_matches_def sample_origin_def sample_cases)
  moreover have "verified_claims sample_jwt sample_remote ''t'' sample_auth_run 105 = Inr sample_claims"
    by (simp add: verified_claims_def keys_def unexpired_def sample_auth_run_def verify_oidc_token_def
        with_keys_def sample_jwt_def validate_claims_def sample_claims_def oidc_binding_of_def
        sample_remote_def sample_origin_def saturating_add_def)
  moreover have "validate_identity ''alice'' ''acme'' = Inr ()"
    by (simp add: validate_identity_def identity_part_def char_is_control_def char_is_whitespace_def)
  ultimately show ?thesis
    by (simp add: authorize_remote_def authenticate_def sample_auth_run_def sample_claims_def ascii_words_def
        sample_remote_def sort_dedup_Nil)
qed

theorem passed_request_is_bound_witness:
  "\<exists>token ks claims. bearer_token sample_http sample_headers = Inr token \<and> keys_in_use sample_auth_run ks
     \<and> verify_oidc_token (with_keys sample_jwt ks) token (oidc_binding_of sample_remote) 105 = Inr claims
     \<and> cl_sub claims = ''alice''"
  using passed_request_is_bound [OF sample_request_passes] by (fastforce simp: sample_auth_run_def)

end
