(* ===== verification/Admission.thy ===== *)
theory Admission
  imports Auth
begin

text \<open>
  Models \<open>crates/gaugemesh/src/admission.rs\<close>: how many requests of a tenant run and wait. A request is
  in one of the states of \<open>request\<close>; the steps of \<open>admission_step\<close> are its atomic operations on the
  shared state, in any interleaving. A request that is dropped gives back what it holds.
\<close>

section \<open>The admission control\<close>

definition MAX_TRACKED_TENANTS :: nat where "MAX_TRACKED_TENANTS = 1024"
definition MAX_GLOBAL_INFLIGHT :: nat where "MAX_GLOBAL_INFLIGHT = 256"

text \<open>The free permits of the tenant's semaphore, the counter of waiting requests, the capacity.\<close>

record tenant_admission =
  permits :: nat
  queued :: nat
  capacity :: nat

record admission_control =
  tenants :: "(string, tenant_admission) fmap"
  max_concurrent :: nat
  max_queue :: nat
  global_permits :: nat

definition new_admission :: "u16 \<Rightarrow> u16 \<Rightarrow> admission_control" where
  "new_admission concurrent queue =
     \<lparr>tenants = fmempty, max_concurrent = unat concurrent, max_queue = unat queue,
      global_permits = MAX_GLOBAL_INFLIGHT\<rparr>"

text \<open>
  A request: before the tenants are locked; with a reference to its tenant's state; after no permit was
  free; waiting with a reservation in the queue; with the tenant's permit; running.
\<close>

datatype request =
    Arriving string | Entered string | Turned string | Waiting string | Permitted string
  | Running string | Rejected string | Over

text \<open>\<open>Arc::strong_count\<close> is above one while a request keeps a reference.\<close>

fun refers_to :: "string \<Rightarrow> request \<Rightarrow> bool" where
  "refers_to t (Entered t') = (t' = t)"
| "refers_to t (Turned t') = (t' = t)"
| "refers_to t (Waiting t') = (t' = t)"
| "refers_to t (Permitted t') = (t' = t)"
| "refers_to t _ = False"

definition retained :: "request list \<Rightarrow> admission_control \<Rightarrow> string \<Rightarrow> bool" where
  "retained rs c t \<longleftrightarrow>
     (case fmlookup (tenants c) t of
        None \<Rightarrow> False
      | Some a \<Rightarrow> list_ex (refers_to t) rs \<or> 0 < queued a \<or> permits a \<noteq> capacity a)"

definition tracked :: "admission_control \<Rightarrow> nat" where
  "tracked c = fcard (fmdom (tenants c))"

definition evict :: "request list \<Rightarrow> string \<Rightarrow> admission_control \<Rightarrow> admission_control" where
  "evict rs t c =
     (if MAX_TRACKED_TENANTS \<le> tracked c \<and> t |\<notin>| fmdom (tenants c)
      then c\<lparr>tenants := fmfilter (retained rs c) (tenants c)\<rparr> else c)"

definition enter_tenant :: "request list \<Rightarrow> string \<Rightarrow> admission_control \<Rightarrow> admission_control \<times> request" where
  "enter_tenant rs t c =
     (let c = evict rs t c in
      if t |\<in>| fmdom (tenants c) then (c, Entered t)
      else if MAX_TRACKED_TENANTS \<le> tracked c then (c, Rejected ''GM_OVERLOADED_TENANT_CARDINALITY'')
      else (c\<lparr>tenants := fmupd t \<lparr>permits = max_concurrent c, queued = 0, capacity = max_concurrent c\<rparr>
                 (tenants c)\<rparr>, Entered t))"

definition update_tenant ::
  "string \<Rightarrow> (tenant_admission \<Rightarrow> tenant_admission) \<Rightarrow> admission_control \<Rightarrow> admission_control" where
  "update_tenant t f c =
     (case fmlookup (tenants c) t of
        None \<Rightarrow> c | Some a \<Rightarrow> c\<lparr>tenants := fmupd t (f a) (tenants c)\<rparr>)"

definition take_permit :: "tenant_admission \<Rightarrow> tenant_admission" where
  "take_permit a = a\<lparr>permits := permits a - 1\<rparr>"

definition give_permit :: "tenant_admission \<Rightarrow> tenant_admission" where
  "give_permit a = a\<lparr>permits := permits a + 1\<rparr>"

definition reserve :: "tenant_admission \<Rightarrow> tenant_admission" where
  "reserve a = a\<lparr>queued := queued a + 1\<rparr>"

text \<open>The drop of a \<open>QueueReservation\<close>.\<close>

definition unreserve :: "tenant_admission \<Rightarrow> tenant_admission" where
  "unreserve a = a\<lparr>queued := queued a - 1\<rparr>"

definition tenant_of :: "string \<Rightarrow> admission_control \<Rightarrow> tenant_admission" where
  "tenant_of t c =
     (case fmlookup (tenants c) t of
        Some a \<Rightarrow> a | None \<Rightarrow> \<lparr>permits = 0, queued = 0, capacity = 0\<rparr>)"

text \<open>
  One atomic operation of \<open>acquire\<close>, and the end of a running request; \<open>None\<close> while the request has to
  wait. All requests are an argument for the reference counts.
\<close>

fun request_step :: "request list \<Rightarrow> admission_control \<Rightarrow> request \<Rightarrow> (admission_control \<times> request) option" where
  "request_step rs c (Arriving t) = Some (enter_tenant rs t c)"
| "request_step rs c (Entered t) =
     (if 0 < permits (tenant_of t c) then Some (update_tenant t take_permit c, Permitted t)
      else Some (c, Turned t))"
| "request_step rs c (Turned t) =
     (if queued (tenant_of t c) < max_queue c then Some (update_tenant t reserve c, Waiting t)
      else Some (c, Rejected ''GM_OVERLOADED_TENANT_QUEUE''))"
| "request_step rs c (Waiting t) =
     (if 0 < permits (tenant_of t c)
      then Some (update_tenant t (unreserve \<circ> take_permit) c, Permitted t) else None)"
| "request_step rs c (Permitted t) =
     (if 0 < global_permits c then Some (c\<lparr>global_permits := global_permits c - 1\<rparr>, Running t)
      else Some (update_tenant t give_permit c, Rejected ''GM_OVERLOADED_GLOBAL''))"
| "request_step rs c (Running t) =
     Some ((update_tenant t give_permit c)\<lparr>global_permits := global_permits c + 1\<rparr>, Over)"
| "request_step rs c _ = None"

text \<open>What a dropped request gives back.\<close>

fun release_request :: "admission_control \<Rightarrow> request \<Rightarrow> admission_control" where
  "release_request c (Waiting t) = update_tenant t unreserve c"
| "release_request c (Permitted t) = update_tenant t give_permit c"
| "release_request c (Running t) = (update_tenant t give_permit c)\<lparr>global_permits := global_permits c + 1\<rparr>"
| "release_request c _ = c"

inductive admission_step ::
  "admission_control \<times> request list \<Rightarrow> admission_control \<times> request list \<Rightarrow> bool" where
  request: "admission_step (c, rs) (c, rs @ [Arriving t])"
| advance: "i < length rs \<Longrightarrow> request_step rs c (rs ! i) = Some (c', r)
    \<Longrightarrow> admission_step (c, rs) (c', rs[i := r])"
| queue_timeout: "i < length rs \<Longrightarrow> rs ! i = Waiting t
    \<Longrightarrow> admission_step (c, rs) (release_request c (rs ! i), rs[i := Rejected ''GM_OVERLOADED_QUEUE_TIMEOUT''])"
| drop_request: "i < length rs \<Longrightarrow> admission_step (c, rs) (release_request c (rs ! i), rs[i := Over])"

inductive admission_reachable :: "u16 \<Rightarrow> u16 \<Rightarrow> admission_control \<times> request list \<Rightarrow> bool" for m q where
  init: "admission_reachable m q (new_admission m q, [])"
| step: "admission_reachable m q s \<Longrightarrow> admission_step s t \<Longrightarrow> admission_reachable m q t"

section \<open>The middleware\<close>

definition request_tenant :: "identity option \<Rightarrow> string" where
  "request_tenant i = (case i of None \<Rightarrow> ''local'' | Some i \<Rightarrow> id_tenant i)"

text \<open>The longest wait, in milliseconds.\<close>

definition queue_wait :: "http_library \<Rightarrow> headers \<Rightarrow> nat" where
  "queue_wait H hs =
     (case Option.bind (header_get hs ''x-gaugemesh-deadline-ms'') (\<lambda>v. Option.bind (header_to_str H v) parse_u64) of
        None \<Rightarrow> 30000 | Some n \<Rightarrow> min (unat n) 30000)"

text \<open>Status, code, delay in the body and the \<open>Retry-After\<close> header.\<close>

definition overload_response :: "string \<Rightarrow> nat \<times> json \<times> string" where
  "overload_response code =
     (503, json_object [(''error'', json_object [(''code'', JStr code), (''retryAfterMs'', JNum (PosInt 100))])],
      ''1'')"

section \<open>The invariant\<close>

fun runs_for :: "string \<Rightarrow> request \<Rightarrow> bool" where
  "runs_for t (Permitted t') = (t' = t)"
| "runs_for t (Running t') = (t' = t)"
| "runs_for t _ = False"

fun waits_for :: "string \<Rightarrow> request \<Rightarrow> bool" where
  "waits_for t (Waiting t') = (t' = t)"
| "waits_for t _ = False"

fun is_running :: "request \<Rightarrow> bool" where
  "is_running (Running t) = True"
| "is_running _ = False"

text \<open>A tenant's state against its requests: referring to it, with a permit, waiting.\<close>

definition tenant_ok ::
  "admission_control \<Rightarrow> tenant_admission option \<Rightarrow> nat \<Rightarrow> nat \<Rightarrow> nat \<Rightarrow> bool" where
  "tenant_ok c entry refs running waiting \<longleftrightarrow>
     (case entry of
        None \<Rightarrow> refs = 0 \<and> running = 0 \<and> waiting = 0
      | Some a \<Rightarrow> capacity a = max_concurrent c \<and> permits a + running = capacity a
          \<and> queued a = waiting \<and> waiting \<le> max_queue c)"

definition admission_inv :: "admission_control \<times> request list \<Rightarrow> bool" where
  "admission_inv s \<longleftrightarrow>
     (case s of (c, rs) \<Rightarrow>
        global_permits c + tally is_running rs = MAX_GLOBAL_INFLIGHT
        \<and> tracked c \<le> MAX_TRACKED_TENANTS
        \<and> (\<forall>t. tenant_ok c (fmlookup (tenants c) t) (tally (refers_to t) rs) (tally (runs_for t) rs)
                 (tally (waits_for t) rs)))"

text \<open>A step of one request changes the state of one tenant only.\<close>

definition concerns :: "string \<Rightarrow> request \<Rightarrow> bool" where
  "concerns t r \<longleftrightarrow> refers_to t r \<or> runs_for t r \<or> waits_for t r"

lemma inv_request:
  assumes inv: "admission_inv (c, rs)" and i: "i < length rs"
    and same: "max_concurrent c' = max_concurrent c" "max_queue c' = max_queue c"
    and size: "tracked c' \<le> MAX_TRACKED_TENANTS"
    and others: "\<And>t'. t' \<noteq> t \<Longrightarrow> fmlookup (tenants c') t' = fmlookup (tenants c) t'
      \<and> \<not> concerns t' (rs ! i) \<and> \<not> concerns t' r"
    and global: "global_permits c' + of_bool (is_running r) = global_permits c + of_bool (is_running (rs ! i))"
    and own: "\<And>n m k. tenant_ok c (fmlookup (tenants c) t) (n + of_bool (refers_to t (rs ! i)))
        (m + of_bool (runs_for t (rs ! i))) (k + of_bool (waits_for t (rs ! i)))
      \<Longrightarrow> tenant_ok c (fmlookup (tenants c') t) (n + of_bool (refers_to t r)) (m + of_bool (runs_for t r))
        (k + of_bool (waits_for t r))"
  shows "admission_inv (c', rs[i := r])"
proof -
  note upd = tally_update [OF i, of _ r] and pos = tally_pos [OF i]
  have split: "\<exists>n. tally q rs = n + of_bool (q (rs ! i)) \<and> tally q (rs[i := r]) = n + of_bool (q r)" for q
    using upd [of q] pos [of q] by (intro exI [of _ "tally q rs - of_bool (q (rs ! i))"]) (auto simp: of_bool_def)
  have "tenant_ok c (fmlookup (tenants c') t') (tally (refers_to t') (rs[i := r])) (tally (runs_for t') (rs[i := r]))
      (tally (waits_for t') (rs[i := r]))" for t'
  proof (cases "t' = t")
    case True
    obtain n m k where
      "tally (refers_to t) rs = n + of_bool (refers_to t (rs ! i))"
      "tally (refers_to t) (rs[i := r]) = n + of_bool (refers_to t r)"
      "tally (runs_for t) rs = m + of_bool (runs_for t (rs ! i))"
      "tally (runs_for t) (rs[i := r]) = m + of_bool (runs_for t r)"
      "tally (waits_for t) rs = k + of_bool (waits_for t (rs ! i))"
      "tally (waits_for t) (rs[i := r]) = k + of_bool (waits_for t r)"
      using split [of "refers_to t"] split [of "runs_for t"] split [of "waits_for t"] by blast
    moreover have "tenant_ok c (fmlookup (tenants c) t) (tally (refers_to t) rs) (tally (runs_for t) rs)
        (tally (waits_for t) rs)"
      using inv by (simp add: admission_inv_def)
    ultimately show ?thesis using True own by simp
  next
    case False
    have "q (rs ! i) = q r \<Longrightarrow> tally q (rs[i := r]) = tally q rs" for q using upd [of q] by simp
    with others [OF False] inv show ?thesis by (simp add: admission_inv_def concerns_def)
  qed
  moreover have "tenant_ok c' = tenant_ok c" using same by (intro ext) (simp add: tenant_ok_def split: option.split)
  moreover have "global_permits c' + tally is_running (rs[i := r]) = MAX_GLOBAL_INFLIGHT"
    using inv global upd [of is_running] by (simp add: admission_inv_def)
  ultimately show ?thesis using size by (simp add: admission_inv_def)
qed

lemma update_tenant_simps [simp]:
  "max_concurrent (update_tenant t f c) = max_concurrent c"
  "max_queue (update_tenant t f c) = max_queue c"
  "global_permits (update_tenant t f c) = global_permits c"
  "tracked (update_tenant t f c) = tracked c"
  "tracked (c\<lparr>global_permits := n\<rparr>) = tracked c"
  "fmlookup (tenants (update_tenant t f c)) t' =
     (if t' = t then map_option f (fmlookup (tenants c) t) else fmlookup (tenants c) t')"
  by (auto simp: update_tenant_def tracked_def finsert_absorb fmdom_lookup split: option.split)

lemma entered_tenant:
  assumes "admission_inv (c, rs)" "concerns t (rs ! i)" "i < length rs"
  shows "fmlookup (tenants c) t = Some (tenant_of t c)"
proof -
  have "0 < tally (refers_to t) rs \<or> 0 < tally (runs_for t) rs \<or> 0 < tally (waits_for t) rs"
    using assms(2) tally_pos [OF assms(3), of "refers_to t"] tally_pos [OF assms(3), of "runs_for t"]
      tally_pos [OF assms(3), of "waits_for t"] by (auto simp: concerns_def)
  moreover have "tenant_ok c (fmlookup (tenants c) t) (tally (refers_to t) rs) (tally (runs_for t) rs)
      (tally (waits_for t) rs)"
    using assms(1) by (simp add: admission_inv_def)
  ultimately show ?thesis by (auto simp: tenant_ok_def tenant_of_def split: option.splits)
qed

text \<open>Only tenants without requests are evicted.\<close>

lemma evict_lookup:
  "fmlookup (tenants (evict rs t c)) t' = fmlookup (tenants c) t'
   \<or> fmlookup (tenants (evict rs t c)) t' = None \<and> \<not> retained rs c t' \<and> t' |\<in>| fmdom (tenants c)"
  by (auto simp: evict_def fmdom_lookup)

lemma evict_simps [simp]:
  "max_concurrent (evict rs t c) = max_concurrent c" "max_queue (evict rs t c) = max_queue c"
  "global_permits (evict rs t c) = global_permits c"
  by (simp_all add: evict_def)

lemma evict_tracked: "tracked (evict rs t c) \<le> tracked c"
proof -
  have "fmdom (tenants (evict rs t c)) |\<subseteq>| fmdom (tenants c)" by (auto simp: evict_def)
  then show ?thesis unfolding tracked_def by (rule fcard_mono)
qed

lemma evict_inv:
  assumes "admission_inv (c, rs)"
  shows "admission_inv (evict rs t c, rs)"
proof -
  have "tenant_ok c (fmlookup (tenants (evict rs t c)) t') (tally (refers_to t') rs) (tally (runs_for t') rs)
      (tally (waits_for t') rs)" for t'
  proof -
    have ok: "tenant_ok c (fmlookup (tenants c) t') (tally (refers_to t') rs) (tally (runs_for t') rs)
        (tally (waits_for t') rs)"
      using assms by (simp add: admission_inv_def)
    show ?thesis
    proof (cases "retained rs c t' \<or> fmlookup (tenants (evict rs t c)) t' = fmlookup (tenants c) t'")
      case True
      with ok evict_lookup [of rs t c t'] show ?thesis by auto
    next
      case False
      then have "tally (refers_to t') rs = 0" "fmlookup (tenants (evict rs t c)) t' = None"
        using evict_lookup [of rs t c t'] tally_0 [of "refers_to t'" rs]
        by (auto simp: retained_def fmdom_lookup split: option.splits)
      with False ok evict_lookup [of rs t c t'] show ?thesis
        by (auto simp: tenant_ok_def retained_def fmdom_lookup split: option.splits)
    qed
  qed
  moreover have "tenant_ok (evict rs t c) = tenant_ok c"
    by (intro ext) (simp add: tenant_ok_def split: option.split)
  ultimately show ?thesis using assms evict_tracked [of rs t c] by (simp add: admission_inv_def)
qed

section \<open>Every step keeps it\<close>

lemma tenant_step:
  assumes inv: "admission_inv (c, rs)" and i: "i < length rs" and here: "concerns t (rs ! i)"
    and only: "\<And>t'. t' \<noteq> t \<Longrightarrow> \<not> concerns t' (rs ! i) \<and> \<not> concerns t' r"
    and c': "tenants c' = tenants (update_tenant t f c)" "max_concurrent c' = max_concurrent c"
      "max_queue c' = max_queue c"
    and global: "global_permits c' + of_bool (is_running r) = global_permits c + of_bool (is_running (rs ! i))"
    and own: "\<And>n m k. tenant_ok c (Some (tenant_of t c)) (n + of_bool (refers_to t (rs ! i)))
        (m + of_bool (runs_for t (rs ! i))) (k + of_bool (waits_for t (rs ! i)))
      \<Longrightarrow> tenant_ok c (Some (f (tenant_of t c))) (n + of_bool (refers_to t r)) (m + of_bool (runs_for t r))
        (k + of_bool (waits_for t r))"
  shows "admission_inv (c', rs[i := r])"
proof (rule inv_request [OF inv i c'(2,3), of t])
  have "tracked c' = tracked c"
    using c'(1) update_tenant_simps(4) [of t f c] by (simp add: tracked_def)
  then show "tracked c' \<le> MAX_TRACKED_TENANTS" using inv by (simp add: admission_inv_def)
  have there: "fmlookup (tenants c) t = Some (tenant_of t c)" by (rule entered_tenant [OF inv here i])
  show "tenant_ok c (fmlookup (tenants c') t) (n + of_bool (refers_to t r)) (m + of_bool (runs_for t r))
      (k + of_bool (waits_for t r))"
    if "tenant_ok c (fmlookup (tenants c) t) (n + of_bool (refers_to t (rs ! i)))
      (m + of_bool (runs_for t (rs ! i))) (k + of_bool (waits_for t (rs ! i)))" for n m k
    using own [of n m k] that there by (simp add: c'(1))
  show "fmlookup (tenants c') t' = fmlookup (tenants c) t' \<and> \<not> concerns t' (rs ! i) \<and> \<not> concerns t' r"
    if "t' \<noteq> t" for t'
    using only [OF that] that by (simp add: c'(1))
qed (rule global)

lemma update_id: "tenants (update_tenant t (\<lambda>a. a) c) = tenants c"
  by (intro fmap_ext) (simp add: option.map_ident)

lemmas request_kinds = concerns_def tenant_ok_def take_permit_def give_permit_def reserve_def unreserve_def

lemma enter_inv:
  assumes inv: "admission_inv (c, rs)" and i: "i < length rs" and a: "rs ! i = Arriving t"
    and step: "enter_tenant rs t c = (c', r)"
  shows "admission_inv (c', rs[i := r])"
proof -
  let ?c = "evict rs t c"
  have inv: "admission_inv (?c, rs)" using inv by (rule evict_inv)
  have size: "tracked ?c \<le> MAX_TRACKED_TENANTS" using inv by (simp add: admission_inv_def)
  consider (known) "t |\<in>| fmdom (tenants ?c)" "c' = ?c" "r = Entered t"
    | (full) "c' = ?c" "r = Rejected ''GM_OVERLOADED_TENANT_CARDINALITY''"
    | (new) "fmlookup (tenants ?c) t = None" "tracked ?c < MAX_TRACKED_TENANTS" "r = Entered t"
        "c' = ?c\<lparr>tenants := fmupd t \<lparr>permits = max_concurrent ?c, queued = 0, capacity = max_concurrent ?c\<rparr>
           (tenants ?c)\<rparr>"
    using step by (auto simp: enter_tenant_def Let_def fmdom_lookup split: if_splits)
  then show ?thesis
  proof cases
    case known
    from known(1) show ?thesis unfolding known(2,3) using a size
      by (intro inv_request [OF inv i, where c' = ?c and t = t]) (auto simp: concerns_def tenant_ok_def fmdom_lookup)
  next
    case full
    show ?thesis unfolding full using a size by (intro inv_request [OF inv i, where c' = ?c and t = t]) (auto simp: concerns_def)
  next
    case new
    then have "tracked c' = tracked ?c + 1"
      by (simp add: tracked_def fcard_finsert_disjoint fmdom_lookup)
    with new a show ?thesis
      by (intro inv_request [OF inv i, where c' = c' and t = t]) (auto simp: concerns_def tenant_ok_def)
  qed
qed

lemma request_step_inv:
  assumes inv: "admission_inv (c, rs)" and i: "i < length rs"
    and step: "request_step rs c (rs ! i) = Some (c', r)"
  shows "admission_inv (c', rs[i := r])"
proof (cases "rs ! i")
  case (Arriving t)
  with step show ?thesis by (intro enter_inv [OF inv i]) auto
next
  case (Entered t)
  show ?thesis
  proof (cases "0 < permits (tenant_of t c)")
    case True
    with step Entered show ?thesis
      by (intro tenant_step [OF inv i, of t, where f = take_permit]) (auto simp: request_kinds)
  next
    case False
    with step Entered show ?thesis
      by (intro tenant_step [OF inv i, of t, where f = "\<lambda>a. a"]) (auto simp: update_id request_kinds)
  qed
next
  case (Turned t)
  show ?thesis
  proof (cases "queued (tenant_of t c) < max_queue c")
    case True
    with step Turned show ?thesis
      by (intro tenant_step [OF inv i, of t, where f = reserve]) (auto simp: request_kinds)
  next
    case False
    with step Turned show ?thesis
      by (intro tenant_step [OF inv i, of t, where f = "\<lambda>a. a"]) (auto simp: update_id request_kinds)
  qed
next
  case (Waiting t)
  with step show ?thesis
    by (intro tenant_step [OF inv i, of t, where f = "unreserve \<circ> take_permit"])
      (auto simp: request_kinds split: if_splits)
next
  case (Permitted t)
  show ?thesis
  proof (cases "0 < global_permits c")
    case True
    with step Permitted show ?thesis
      by (intro tenant_step [OF inv i, of t, where f = "\<lambda>a. a"]) (auto simp: update_id request_kinds)
  next
    case False
    with step Permitted show ?thesis
      by (intro tenant_step [OF inv i, of t, where f = give_permit]) (auto simp: request_kinds)
  qed
next
  case (Running t)
  with step show ?thesis
    by (intro tenant_step [OF inv i, of t, where f = give_permit]) (auto simp: request_kinds)
qed (use step in auto)

lemma release_permit_inv:
  assumes inv: "admission_inv (c, rs)" and i: "i < length rs"
    and r: "\<And>t. \<not> concerns t r" "\<not> is_running r"
  shows "admission_inv (release_request c (rs ! i), rs[i := r])"
proof -
  have r': "\<not> refers_to t r" "\<not> runs_for t r" "\<not> waits_for t r" for t using r(1) by (auto simp: concerns_def)
  have keep: "admission_inv (c, rs[i := r])"
    if "concerns t (rs ! i)" "\<not> is_running (rs ! i)" "\<not> runs_for t (rs ! i)" "\<not> waits_for t (rs ! i)"
      "\<And>t'. t' \<noteq> t \<Longrightarrow> \<not> concerns t' (rs ! i)" for t
    using that r r' by (intro tenant_step [OF inv i, of t, where f = "\<lambda>a. a"]) (auto simp: update_id tenant_ok_def)
  have gone: "admission_inv (c, rs[i := r])" if "\<And>t. \<not> concerns t (rs ! i)" "\<not> is_running (rs ! i)"
  proof -
    have none: "\<not> refers_to t (rs ! i)" "\<not> runs_for t (rs ! i)" "\<not> waits_for t (rs ! i)" for t
      using that(1) [of t] by (auto simp: concerns_def)
    show ?thesis using that r r' none inv
      by (intro inv_request [OF inv i, where t = "[]"]) (auto simp: admission_inv_def)
  qed
  show ?thesis
  proof (cases "rs ! i")
    case (Entered t)
    then show ?thesis using keep [of t] by (auto simp: concerns_def)
  next
    case (Turned t)
    then show ?thesis using keep [of t] by (auto simp: concerns_def)
  next
    case (Waiting t)
    then show ?thesis using r r'
      by (intro tenant_step [OF inv i, of t, where f = unreserve]) (auto simp: request_kinds)
  next
    case (Permitted t)
    then show ?thesis using r r'
      by (intro tenant_step [OF inv i, of t, where f = give_permit]) (auto simp: request_kinds)
  next
    case (Running t)
    then show ?thesis using r r'
      by (intro tenant_step [OF inv i, of t, where f = give_permit]) (auto simp: request_kinds)
  qed (use gone in \<open>auto simp: concerns_def\<close>)
qed

lemma admission_step_inv: "admission_step s s' \<Longrightarrow> admission_inv s \<Longrightarrow> admission_inv s'"
proof (induction rule: admission_step.induct)
  case (request c rs t)
  then show ?case by (simp add: admission_inv_def)
next
  case (advance i rs c c' r)
  then show ?case by (intro request_step_inv)
next
  case (queue_timeout i rs t c)
  then show ?case by (intro release_permit_inv) (simp_all add: concerns_def)
next
  case (drop_request i rs c)
  then show ?case by (intro release_permit_inv) (simp_all add: concerns_def)
qed

lemma admission_reachable_inv:
  "admission_reachable m q s \<Longrightarrow> admission_inv s \<and> max_concurrent (fst s) = unat m \<and> max_queue (fst s) = unat q"
proof (induction rule: admission_reachable.induct)
  case init
  then show ?case by (simp add: admission_inv_def new_admission_def tracked_def tenant_ok_def fcard_fempty)
next
  case (step s s')
  have "max_concurrent (fst s') = max_concurrent (fst s) \<and> max_queue (fst s') = max_queue (fst s)"
    using step.hyps(2)
  proof (induction rule: admission_step.induct)
    case (advance i rs c c' r)
    then show ?case by (cases "rs ! i") (auto simp: enter_tenant_def Let_def split: if_splits)
  next
    case (queue_timeout i rs t c)
    then show ?case by simp
  next
    case (drop_request i rs c)
    then show ?case by (cases "rs ! i") auto
  qed simp
  with step admission_step_inv show ?case by auto
qed

section \<open>What admission promises\<close>

text \<open>
  C39: In every interleaving the running requests, the tracked tenants, and the running and waiting
  requests of each tenant stay within their limits, and no permit or reservation is lost or doubled.
\<close>

theorem admission_bounded:
  assumes "admission_reachable m q (c, rs)"
  shows "global_permits c + tally is_running rs = MAX_GLOBAL_INFLIGHT \<and> tracked c \<le> MAX_TRACKED_TENANTS
    \<and> tally (runs_for t) rs \<le> unat m \<and> tally (waits_for t) rs \<le> unat q
    \<and> (case fmlookup (tenants c) t of
         None \<Rightarrow> tally (runs_for t) rs = 0 \<and> tally (waits_for t) rs = 0
       | Some a \<Rightarrow> permits a + tally (runs_for t) rs = unat m \<and> queued a = tally (waits_for t) rs)"
proof -
  have inv: "admission_inv (c, rs)" and lim: "max_concurrent c = unat m" "max_queue c = unat q"
    using admission_reachable_inv [OF assms] by simp_all
  have t: "tenant_ok c (fmlookup (tenants c) t) (tally (refers_to t) rs) (tally (runs_for t) rs)
      (tally (waits_for t) rs)"
    and g: "global_permits c + tally is_running rs = MAX_GLOBAL_INFLIGHT \<and> tracked c \<le> MAX_TRACKED_TENANTS"
    using inv by (simp_all add: admission_inv_def)
  show ?thesis using t g lim by (cases "fmlookup (tenants c) t") (auto simp: tenant_ok_def)
qed


section \<open>A concrete run\<close>

definition sample_admission :: admission_control where
  "sample_admission =
     \<lparr>tenants = fmupd ''a'' \<lparr>permits = 0, queued = 0, capacity = 1\<rparr> fmempty, max_concurrent = 1,
      max_queue = 1, global_permits = MAX_GLOBAL_INFLIGHT\<rparr>"

text \<open>One request has the only permit of its tenant, the next one is turned away.\<close>

lemma sample_admission_reachable:
  "admission_reachable 1 1 (sample_admission, [Permitted ''a'', Turned ''a''])"
proof -
  let ?c0 = "new_admission 1 1"
  let ?c1 = "?c0\<lparr>tenants := fmupd ''a'' \<lparr>permits = 1, queued = 0, capacity = 1\<rparr> fmempty\<rparr>"
  note go = admission_reachable.step [OF _ admission_step.advance]
  have "admission_reachable 1 1 (?c0, [])" by (rule admission_reachable.init)
  from admission_reachable.step [OF this admission_step.request, of "''a''"]
  have "admission_reachable 1 1 (?c0, [Arriving ''a''])" by simp
  then have "admission_reachable 1 1 (?c1, [Arriving ''a''] [0 := Entered ''a''])"
    by (rule go) (simp_all add: enter_tenant_def evict_def new_admission_def tracked_def
        MAX_TRACKED_TENANTS_def fcard_fempty)
  then have "admission_reachable 1 1 (?c1, [Entered ''a''])" by simp
  then have "admission_reachable 1 1 (sample_admission, [Entered ''a''] [0 := Permitted ''a''])"
    by (rule go) (simp_all add: tenant_of_def update_tenant_def take_permit_def sample_admission_def
        new_admission_def)
  then have "admission_reachable 1 1 (sample_admission, [Permitted ''a''])" by simp
  from admission_reachable.step [OF this admission_step.request, of "''a''"]
  have "admission_reachable 1 1 (sample_admission, [Permitted ''a'', Arriving ''a''])" by simp
  then have "admission_reachable 1 1 (sample_admission, [Permitted ''a'', Arriving ''a''] [1 := Entered ''a''])"
    by (rule go) (simp_all add: enter_tenant_def evict_def sample_admission_def tracked_def
        MAX_TRACKED_TENANTS_def)
  then have "admission_reachable 1 1 (sample_admission, [Permitted ''a'', Entered ''a''])" by simp
  then have "admission_reachable 1 1 (sample_admission, [Permitted ''a'', Entered ''a''] [1 := Turned ''a''])"
    by (rule go) (simp_all add: tenant_of_def sample_admission_def)
  then show ?thesis by simp
qed

theorem admission_bounded_witness:
  "tally (runs_for ''a'') [Permitted ''a'', Turned ''a''] \<le> unat (1 :: u16)"
  using admission_bounded [OF sample_admission_reachable, of "''a''"] by blast


end
