(* ===== verification/Discovery.thy ===== *)
theory Discovery
  imports Config Federation
begin

text \<open>
  Models the discovery half of \<open>crates/gaugemesh/src/outbound.rs\<close>: the bounded, paginated capture of what
  an upstream server offers, its registration under collision-safe names, and the connection of the
  configured sources. A peer answers requests as it likes (\<open>peer\<close>, whose answers may depend on the
  number of pages read before); what the code reads of the \<open>rmcp\<close> documents are records with the
  serialized form of the document as a field.
\<close>

section \<open>Upstream documents\<close>

record tool_doc =
  td_name :: string
  td_description :: "string option"
  td_schema :: "(string \<times> json) list"
  td_annotations :: "(bool option \<times> bool option) option"
  td_json :: json

record resource_doc =
  rd_uri :: string
  rd_name :: string
  rd_mime_type :: "string option"
  rd_json :: json

record template_doc =
  ed_uri_template :: string
  ed_name :: string
  ed_description :: "string option"
  ed_mime_type :: "string option"
  ed_json :: json

record prompt_doc =
  qd_name :: string
  qd_description :: "string option"
  qd_arguments :: "string list option"
  qd_json :: json

text \<open>The server's \<open>initialize\<close> result: name and document of its implementation, its capabilities.\<close>

record server_info =
  si_protocol :: string
  si_server :: "(string \<times> json) option"
  si_capabilities :: json
  si_tools :: bool
  si_resources :: bool
  si_prompts :: bool
  si_tasks :: bool
  si_json :: json

record 'a page =
  page_items :: "'a list"
  page_next :: "string option"
  page_json :: json

type_synonym 'a asks = "nat \<Rightarrow> string option \<Rightarrow> 'a page option"

record peer =
  peer_info :: "server_info option"
  list_tools :: "tool_doc asks"
  list_resources :: "resource_doc asks"
  list_resource_templates :: "template_doc asks"
  list_prompts :: "prompt_doc asks"

section \<open>Budget and pages\<close>

definition MAX_DISCOVERY_PAGES_PER_KIND :: nat where "MAX_DISCOVERY_PAGES_PER_KIND = 128"
definition MAX_DISCOVERY_ITEMS :: nat where "MAX_DISCOVERY_ITEMS = 4096"
definition MAX_DISCOVERY_AGGREGATE_BYTES :: nat where "MAX_DISCOVERY_AGGREGATE_BYTES = 8 * 1024 * 1024"
definition MAX_DISCOVERY_CURSOR_BYTES :: nat where "MAX_DISCOVERY_CURSOR_BYTES = 4 * 1024"

record discovery_budget =
  budget_items :: nat
  budget_bytes :: nat

text \<open>The checked additions fail above the limits too, with the same codes.\<close>

definition charge_page ::
  "platform \<Rightarrow> json \<Rightarrow> nat \<Rightarrow> discovery_budget \<Rightarrow> (string, discovery_budget) res" where
  "charge_page P document item_count b =
     (let items = budget_items b + item_count;
          bytes = budget_bytes b + length (json_to_vec P document) in
      if MAX_DISCOVERY_ITEMS < items then Inl ''GM_MCP_UPSTREAM_DISCOVERY_ITEM_LIMIT''
      else if MAX_DISCOVERY_AGGREGATE_BYTES < bytes then Inl ''GM_MCP_UPSTREAM_DISCOVERY_BYTE_LIMIT''
      else Inr \<lparr>budget_items = items, budget_bytes = bytes\<rparr>)"

record discovery_pager =
  pages :: nat
  cursor :: "string option"
  seen_cursors :: "string fset"

definition first_page :: discovery_pager where
  "first_page = \<lparr>pages = 0, cursor = None, seen_cursors = {||}\<rparr>"

definition request_params :: "discovery_pager \<Rightarrow> (string, string option) res" where
  "request_params g =
     (if MAX_DISCOVERY_PAGES_PER_KIND \<le> pages g then Inl ''GM_MCP_UPSTREAM_DISCOVERY_PAGE_LIMIT''
      else Inr (cursor g))"

text \<open>The flag tells whether another page is required.\<close>

definition accept_page ::
  "nat \<Rightarrow> string option \<Rightarrow> discovery_pager \<Rightarrow> (string, discovery_pager \<times> bool) res" where
  "accept_page item_count next_cursor g =
     (let g = g\<lparr>pages := pages g + 1\<rparr> in
      case next_cursor of
        None \<Rightarrow> Inr (g\<lparr>cursor := None\<rparr>, False)
      | Some c \<Rightarrow>
          if item_count = 0 then Inl ''GM_MCP_UPSTREAM_DISCOVERY_EMPTY_PAGE''
          else if MAX_DISCOVERY_CURSOR_BYTES < length c then Inl ''GM_MCP_UPSTREAM_DISCOVERY_CURSOR_TOO_LARGE''
          else if c |\<in>| seen_cursors g then Inl ''GM_MCP_UPSTREAM_DISCOVERY_CURSOR_REPEATED''
          else Inr (g\<lparr>seen_cursors := finsert c (seen_cursors g), cursor := Some c\<rparr>, True))"

text \<open>
  The four \<open>list_*_bounded\<close> loops differ in the request they send and the context of its failure only.
\<close>

function list_bounded ::
  "platform \<Rightarrow> 'a asks \<Rightarrow> string \<Rightarrow> discovery_budget \<Rightarrow> discovery_pager \<Rightarrow> 'a list
   \<Rightarrow> (string, 'a list \<times> discovery_budget) res" where
  "list_bounded P ask failed b g items =
     (case request_params g of
        Inl e \<Rightarrow> Inl e
      | Inr at \<Rightarrow>
          (case ask (pages g) at of
             None \<Rightarrow> Inl failed
           | Some p \<Rightarrow>
               (case charge_page P (page_json p) (length (page_items p)) b of
                  Inl e \<Rightarrow> Inl e
                | Inr b' \<Rightarrow>
                    (case accept_page (length (page_items p)) (page_next p) g of
                       Inl e \<Rightarrow> Inl e
                     | Inr (g', another) \<Rightarrow>
                         if another then list_bounded P ask failed b' g' (items @ page_items p)
                         else Inr (items @ page_items p, b')))))"
  by pat_completeness auto
termination
  by (relation "measure (\<lambda>(P, ask, failed, b, g, items). MAX_DISCOVERY_PAGES_PER_KIND - pages g)")
     (auto simp: request_params_def accept_page_def Let_def split: if_splits option.splits)

declare list_bounded.simps [simp del]

section \<open>The snapshot of a server\<close>

record upstream_snapshot =
  us_protocol_revision :: string
  us_server_name :: string
  us_supports_tasks :: bool
  us_manifest_digest :: sha256_digest
  us_tools :: "string list"
  us_resources :: "string list"
  us_resource_templates :: "string list"
  us_prompts :: "string list"

record captured_discovery =
  cd_snapshot :: upstream_snapshot
  cd_tools :: "tool_doc list"
  cd_resources :: "resource_doc list"
  cd_templates :: "template_doc list"
  cd_prompts :: "prompt_doc list"

definition manifest_json ::
  "server_info \<Rightarrow> tool_doc list \<Rightarrow> resource_doc list \<Rightarrow> template_doc list \<Rightarrow> prompt_doc list \<Rightarrow> json" where
  "manifest_json i ts rs es qs =
     json_object
       [(''protocolRevision'', JStr (si_protocol i)),
        (''serverInfo'', case si_server i of None \<Rightarrow> JNull | Some (name, doc) \<Rightarrow> doc),
        (''capabilities'', si_capabilities i), (''tools'', JArr (map td_json ts)),
        (''resources'', JArr (map rd_json rs)), (''resourceTemplates'', JArr (map ed_json es)),
        (''prompts'', JArr (map qd_json qs))]"

text \<open>A kind of capability the server does not declare is not asked for.\<close>

definition list_if ::
  "bool \<Rightarrow> platform \<Rightarrow> 'a asks \<Rightarrow> string \<Rightarrow> discovery_budget \<Rightarrow> (string, 'a list \<times> discovery_budget) res" where
  "list_if declared P ask failed b =
     (if declared then list_bounded P ask failed b first_page [] else Inr ([], b))"

definition capture_discovery :: "platform \<Rightarrow> peer \<Rightarrow> (string, captured_discovery) res" where
  "capture_discovery P p =
     rbind (ok_or (peer_info p) ''GM_MCP_UPSTREAM_MISSING_SERVER_IDENTITY'') (\<lambda>i.
     rbind (charge_page P (si_json i) 0 \<lparr>budget_items = 0, budget_bytes = 0\<rparr>) (\<lambda>b.
     rbind (list_if (si_tools i) P (list_tools p) ''GM_MCP_UPSTREAM_TOOLS_LIST'' b) (\<lambda>(ts, b).
     rbind (list_if (si_resources i) P (list_resources p) ''GM_MCP_UPSTREAM_RESOURCES_LIST'' b) (\<lambda>(rs, b).
     rbind (list_if (si_resources i) P (list_resource_templates p) ''GM_MCP_UPSTREAM_RESOURCE_TEMPLATES_LIST'' b)
       (\<lambda>(es, b).
     rbind (list_if (si_prompts i) P (list_prompts p) ''GM_MCP_UPSTREAM_PROMPTS_LIST'' b) (\<lambda>(qs, b).
     rbind (ok_or (si_server i) ''GM_MCP_UPSTREAM_MISSING_IMPLEMENTATION'') (\<lambda>(name, doc).
       Inr \<lparr>cd_snapshot =
              \<lparr>us_protocol_revision = si_protocol i, us_server_name = name,
               us_supports_tasks = (si_protocol i = MCP_2026_07_28 \<and> si_tasks i),
               us_manifest_digest = of_json P (manifest_json i ts rs es qs),
               us_tools = map td_name ts, us_resources = map rd_uri rs,
               us_resource_templates = map ed_uri_template es, us_prompts = map qd_name qs\<rparr>,
            cd_tools = ts, cd_resources = rs, cd_templates = es, cd_prompts = qs\<rparr>)))))))"

definition snapshot_json :: "platform \<Rightarrow> upstream_snapshot \<Rightarrow> json" where
  "snapshot_json P s =
     json_object
       [(''protocolRevision'', JStr (us_protocol_revision s)), (''serverName'', JStr (us_server_name s)),
        (''supportsTasks'', JBool (us_supports_tasks s)),
        (''capabilityManifestDigest'', digest_json P (us_manifest_digest s)),
        (''tools'', JArr (map JStr (us_tools s))), (''resources'', JArr (map JStr (us_resources s))),
        (''resourceTemplates'', JArr (map JStr (us_resource_templates s))),
        (''prompts'', JArr (map JStr (us_prompts s)))]"

definition source_supports_durable_tasks :: "mcp_source \<Rightarrow> upstream_snapshot \<Rightarrow> bool" where
  "source_supports_durable_tasks s sn \<longleftrightarrow>
     us_supports_tasks sn \<and> capability_snapshot_digest s = Some (us_manifest_digest sn)"

section \<open>Registration\<close>

text \<open>\<open>bounded_text\<close>: cut at the last character boundary within the limit.\<close>

definition bounded_text :: "string \<Rightarrow> nat \<Rightarrow> string" where
  "bounded_text s limit = take (boundary_below s (min (length s) limit)) s"

definition variable_char :: "char \<Rightarrow> bool" where
  "variable_char c \<longleftrightarrow> ascii_in ''_-'' c"

function template_variables :: "string \<Rightarrow> string list \<Rightarrow> string list option" where
  "template_variables remaining variables =
     (case split_once (CHR ''{'') remaining of
        None \<Rightarrow> if CHR ''}'' \<in> set remaining \<or> variables = [] \<or> 8 < length variables then None else Some variables
      | Some (before, after_open) \<Rightarrow>
          (case split_once (CHR ''}'') after_open of
             None \<Rightarrow> None
           | Some (variable, rest) \<Rightarrow>
               if variable = [] \<or> 64 < length variable \<or> \<not> list_all variable_char variable then None
               else template_variables rest (variables @ [variable])))"
  by pat_completeness auto
termination
  by (relation "measure (\<lambda>(remaining, variables). length remaining)") (auto simp: split_once_Some)

declare template_variables.simps [simp del]

definition simple_template_variables :: "string \<Rightarrow> string list option" where
  "simple_template_variables template = template_variables template []"

definition reject_oversized_metadata :: "platform \<Rightarrow> json \<Rightarrow> (string, unit) res" where
  "reject_oversized_metadata P v =
     ensure (\<not> 256 * 1024 < length (json_to_vec P v)) ''GM_MCP_UPSTREAM_METADATA_TOO_LARGE''"

text \<open>The derived serialization of a source's configuration is a parameter.\<close>

type_synonym source_json = "mcp_source \<Rightarrow> json"

definition source_digest :: "platform \<Rightarrow> source_json \<Rightarrow> mcp_source \<Rightarrow> sha256_digest" where
  "source_digest P J s = of_json P (J s)"

definition tool_side_effect :: "tool_doc \<Rightarrow> side_effect_class" where
  "tool_side_effect t =
     (case td_annotations t of
        None \<Rightarrow> NonIdempotentWrite
      | Some (read_only, idempotent) \<Rightarrow>
          if read_only = Some True then ReadOnly
          else if idempotent = Some True then IdempotentWrite
          else NonIdempotentWrite)"

definition unwrap_or :: "'a option \<Rightarrow> 'a \<Rightarrow> 'a" where
  "unwrap_or x d = (case x of None \<Rightarrow> d | Some v \<Rightarrow> v)"

text \<open>\<open>&digest.to_string()[7..31]\<close>\<close>

definition short_digest :: "platform \<Rightarrow> capability_id \<Rightarrow> string" where
  "short_digest P c = take 24 (drop 7 (digest_to_string P (native_identity_digest c)))"

fun federation_code :: "federation_error \<Rightarrow> string" where
  "federation_code FederationNotFound = ''GM_CAPABILITY_NOT_FOUND''"
| "federation_code AliasCollision = ''GM_CAPABILITY_ALIAS_COLLISION''"
| "federation_code CursorInvalid = ''GM_CURSOR_INVALID''"
| "federation_code CursorTooLarge = ''GM_CURSOR_TOO_LARGE''"

definition add_tool ::
  "platform \<Rightarrow> source_json \<Rightarrow> mcp_source \<Rightarrow> string \<Rightarrow> federation \<Rightarrow> tool_doc \<Rightarrow> (string, federation) res" where
  "add_tool P J s revision f t =
     (let schema = JObj (td_schema t);
          c = capability_new P (src_id s) Tool (td_name t) (of_json P (td_json t)) revision (source_digest P J s) in
      rbind (reject_oversized_metadata P schema) (\<lambda>_.
      map_err federation_code (insert_tool
        \<lparr>ft_identity = c, ft_native_name = td_name t, ft_alias = readable_alias c (td_name t),
         ft_description = bounded_text (unwrap_or (td_description t) []) 4096, ft_input_schema = schema,
         ft_side_effect = tool_side_effect t, ft_fixture_result = JNull\<rparr> f)))"

definition add_resource ::
  "platform \<Rightarrow> source_json \<Rightarrow> mcp_source \<Rightarrow> string \<Rightarrow> federation \<Rightarrow> resource_doc \<Rightarrow> (string, federation) res" where
  "add_resource P J s revision f r =
     (let c = capability_new P (src_id s) Resource (rd_uri r) (of_json P (rd_json r)) revision (source_digest P J s) in
      map_err federation_code (insert_resource
        \<lparr>fr_identity = c,
         fr_virtual_uri = ''gaugemesh://resource/'' @ src_id s @ ''/'' @ short_digest P c,
         fr_native_uri = rd_uri r, fr_name = bounded_text (rd_name r) 1024,
         fr_mime_type = unwrap_or (rd_mime_type r) ''application/octet-stream'', fr_contents = []\<rparr> f))"

text \<open>\<open>join("/")\<close>\<close>

fun join_slash :: "string list \<Rightarrow> string" where
  "join_slash [] = []"
| "join_slash [s] = s"
| "join_slash (s # ss) = s @ ''/'' @ join_slash ss"

definition add_template ::
  "platform \<Rightarrow> source_json \<Rightarrow> mcp_source \<Rightarrow> string \<Rightarrow> federation \<Rightarrow> template_doc \<Rightarrow> (string, federation) res" where
  "add_template P J s revision f e =
     (case simple_template_variables (ed_uri_template e) of
        None \<Rightarrow> Inr f
      | Some variables \<Rightarrow>
          let c = capability_new P (src_id s) ResourceTemplate (ed_uri_template e) (of_json P (ed_json e)) revision
                    (source_digest P J s);
              prefix = ''gaugemesh://template/'' @ src_id s @ ''/'' @ short_digest P c @ ''/'' in
          map_err federation_code (insert_template
            \<lparr>tm_identity = c,
             tm_virtual_uri_template = prefix @ join_slash (map (\<lambda>v. ''{'' @ v @ ''}'') variables),
             tm_virtual_prefix = prefix, tm_native_uri_template = ed_uri_template e,
             tm_name = bounded_text (ed_name e) 1024,
             tm_description = bounded_text (unwrap_or (ed_description e) []) 4096,
             tm_mime_type = ed_mime_type e, tm_variables = variables\<rparr> f))"

definition add_prompt ::
  "platform \<Rightarrow> source_json \<Rightarrow> mcp_source \<Rightarrow> string \<Rightarrow> federation \<Rightarrow> prompt_doc \<Rightarrow> (string, federation) res" where
  "add_prompt P J s revision f q =
     (let c = capability_new P (src_id s) Prompt (qd_name q) (of_json P (qd_json q)) revision (source_digest P J s) in
      map_err federation_code (insert_prompt
        \<lparr>fp_identity = c, fp_native_name = qd_name q, fp_alias = readable_alias c (qd_name q),
         fp_description = bounded_text (unwrap_or (qd_description q) []) 4096,
         fp_arguments = unwrap_or (qd_arguments q) [], fp_template = []\<rparr> f))"

definition add_source_capabilities ::
  "platform \<Rightarrow> source_json \<Rightarrow> mcp_source \<Rightarrow> captured_discovery \<Rightarrow> federation \<Rightarrow> (string, federation) res" where
  "add_source_capabilities P J s d f =
     (let revision = us_protocol_revision (cd_snapshot d) in
      rbind (try_fold (add_tool P J s revision) f (cd_tools d)) (\<lambda>f.
      rbind (try_fold (add_resource P J s revision) f (cd_resources d)) (\<lambda>f.
      rbind (try_fold (add_template P J s revision) f (cd_templates d)) (\<lambda>f.
      try_fold (add_prompt P J s revision) f (cd_prompts d)))))"

section \<open>Connecting the configured sources\<close>

text \<open>
  Starting a server process or an HTTP session is \<open>connect_source\<close>, which gives a peer or an error;
  \<open>discovery_timeout\<close> tells whether the time for discovery runs out.
\<close>

record world =
  connect_source :: "mcp_source \<Rightarrow> (string, peer) res"
  discovery_timeout :: "mcp_source \<Rightarrow> bool"
  source_doc :: source_json
  new_session :: "mcp_source \<Rightarrow> string"

text \<open>
  A connected source: its configuration, the current peer with its generation and session, the digest
  of the snapshot it must keep, the restarts used and whether a service is running.
\<close>

record managed_source =
  ms_config :: mcp_source
  ms_peer :: peer
  ms_generation :: u64
  ms_session :: string
  ms_expected_snapshot :: sha256_digest
  ms_supports_tasks :: bool
  ms_restarts :: u8
  ms_service :: bool
  ms_serialize_requests :: bool

record connecting =
  cn_federation :: federation
  cn_active :: "(string, managed_source) fmap"
  cn_incomplete :: "string list"

definition discover_source ::
  "platform \<Rightarrow> world \<Rightarrow> mcp_source \<Rightarrow> peer \<Rightarrow> (string, captured_discovery \<times> federation) res" where
  "discover_source P W s p =
     (if discovery_timeout W s then Inl ''GM_MCP_UPSTREAM_DISCOVERY_TIMEOUT''
      else rbind (capture_discovery P p) (\<lambda>d.
           rbind (add_source_capabilities P (source_doc W) s d federation_default) (\<lambda>f. Inr (d, f))))"

text \<open>In the degraded mode a source that fails is left out; in the strict mode it is an error.\<close>

definition leave_out ::
  "discovery_mode \<Rightarrow> mcp_source \<Rightarrow> connecting \<Rightarrow> string \<Rightarrow> (string, connecting) res" where
  "leave_out mode s c e =
     (if mode = Strict then Inl e else Inr (c\<lparr>cn_incomplete := cn_incomplete c @ [src_id s]\<rparr>))"

definition managed :: "platform \<Rightarrow> world \<Rightarrow> mcp_source \<Rightarrow> peer \<Rightarrow> upstream_snapshot \<Rightarrow> managed_source" where
  "managed P W s p sn =
     \<lparr>ms_config = s, ms_peer = p, ms_generation = 1, ms_session = new_session W s,
      ms_expected_snapshot = of_json P (snapshot_json P sn),
      ms_supports_tasks = source_supports_durable_tasks s sn, ms_restarts = 0, ms_service = True,
      ms_serialize_requests = (sharing s = ShareableWithSerialization)\<rparr>"

definition connect_one ::
  "platform \<Rightarrow> world \<Rightarrow> discovery_mode \<Rightarrow> connecting \<Rightarrow> mcp_source \<Rightarrow> (string, connecting) res" where
  "connect_one P W mode c s =
     (case connect_source W s of
        Inl e \<Rightarrow> leave_out mode s c e
      | Inr p \<Rightarrow>
          (case discover_source P W s p of
             Inl e \<Rightarrow> leave_out mode s c e
           | Inr (d, f) \<Rightarrow>
               let sn = cd_snapshot d in
               if capability_snapshot_digest s \<noteq> None
                  \<and> capability_snapshot_digest s \<noteq> Some (us_manifest_digest sn)
               then leave_out mode s c ''GM_MCP_UPSTREAM_IDENTITY_CHANGED''
               else (case fed_merge (cn_federation c) f of
                       Inl e \<Rightarrow> leave_out mode s c (federation_code e)
                     | Inr merged \<Rightarrow>
                         Inr (c\<lparr>cn_federation := merged,
                                cn_active := fmupd (src_id s) (managed P W s p sn) (cn_active c)\<rparr>))))"

definition connect_configured_sources ::
  "platform \<Rightarrow> world \<Rightarrow> mcp_source list \<Rightarrow> discovery_mode \<Rightarrow> (string, connecting) res" where
  "connect_configured_sources P W sources mode =
     rbind (try_fold (connect_one P W mode)
              \<lparr>cn_federation = federation_default, cn_active = fmempty, cn_incomplete = []\<rparr> sources) (\<lambda>c.
       Inr (c\<lparr>cn_incomplete := sort (cn_incomplete c)\<rparr>))"

section \<open>Discovery is bounded and complete\<close>

text \<open>
  What a peer serves from page \<open>n\<close> on, asked with a cursor: the items of every page up to one without
  a next cursor, and how many pages that takes.
\<close>

inductive served :: "'a asks \<Rightarrow> nat \<Rightarrow> string option \<Rightarrow> 'a list \<Rightarrow> nat \<Rightarrow> bool" for ask where
  last_page: "ask n at = Some p \<Longrightarrow> page_next p = None \<Longrightarrow> served ask n at (page_items p) 1"
| next_page: "ask n at = Some p \<Longrightarrow> page_next p = Some c \<Longrightarrow> served ask (n + 1) (Some c) rest k
    \<Longrightarrow> served ask n at (page_items p @ rest) (k + 1)"

lemma charge_page_Inr [guard_simps]:
  "charge_page P v n b = Inr b' \<longleftrightarrow>
     budget_items b + n \<le> MAX_DISCOVERY_ITEMS
     \<and> budget_bytes b + length (json_to_vec P v) \<le> MAX_DISCOVERY_AGGREGATE_BYTES
     \<and> b' = \<lparr>budget_items = budget_items b + n, budget_bytes = budget_bytes b + length (json_to_vec P v)\<rparr>"
  by (auto simp: charge_page_def Let_def)

lemma accept_page_Inr:
  "accept_page n next g = Inr (g', another) \<Longrightarrow>
     pages g' = pages g + 1 \<and> another = (next \<noteq> None) \<and> (another \<longrightarrow> cursor g' = next)"
  by (auto simp: accept_page_def Let_def split: option.splits if_splits)

lemma list_bounded_step:
  assumes "list_bounded P ask failed b g items = Inr (out, b')"
  obtains p b1 g1 another where "pages g < MAX_DISCOVERY_PAGES_PER_KIND" "ask (pages g) (cursor g) = Some p"
    "charge_page P (page_json p) (length (page_items p)) b = Inr b1"
    "accept_page (length (page_items p)) (page_next p) g = Inr (g1, another)"
    "if another then list_bounded P ask failed b1 g1 (items @ page_items p) = Inr (out, b')
     else out = items @ page_items p \<and> b' = b1"
  using assms
  by (subst (asm) list_bounded.simps)
     (auto simp: request_params_def split: sum.splits option.splits if_splits)

lemma list_bounded_Inr:
  "list_bounded P ask failed b g items = Inr (out, b') \<Longrightarrow>
   \<exists>rest k. out = items @ rest \<and> served ask (pages g) (cursor g) rest k
     \<and> pages g + k \<le> MAX_DISCOVERY_PAGES_PER_KIND
     \<and> budget_items b' = budget_items b + length rest \<and> budget_items b' \<le> MAX_DISCOVERY_ITEMS
     \<and> budget_bytes b' \<le> MAX_DISCOVERY_AGGREGATE_BYTES"
proof (induction "MAX_DISCOVERY_PAGES_PER_KIND - pages g" arbitrary: b g items rule: less_induct)
  case less
  from list_bounded_step [OF less.prems] obtain p b1 g1 another
    where *: "pages g < MAX_DISCOVERY_PAGES_PER_KIND" "ask (pages g) (cursor g) = Some p"
      "charge_page P (page_json p) (length (page_items p)) b = Inr b1"
      "accept_page (length (page_items p)) (page_next p) g = Inr (g1, another)"
      "if another then list_bounded P ask failed b1 g1 (items @ page_items p) = Inr (out, b')
       else out = items @ page_items p \<and> b' = b1" .
  have g1: "pages g1 = pages g + 1" "another = (page_next p \<noteq> None)" "another \<longrightarrow> cursor g1 = page_next p"
    using accept_page_Inr [OF *(4)] by auto
  have b1: "budget_items b1 = budget_items b + length (page_items p)" "budget_items b1 \<le> MAX_DISCOVERY_ITEMS"
      "budget_bytes b1 \<le> MAX_DISCOVERY_AGGREGATE_BYTES"
    using *(3) by (auto simp: charge_page_Inr)
  show ?case
  proof (cases another)
    case True
    then obtain c where c: "page_next p = Some c" "cursor g1 = Some c" using g1 by auto
    from True *(5) have "list_bounded P ask failed b1 g1 (items @ page_items p) = Inr (out, b')" by simp
    moreover have "MAX_DISCOVERY_PAGES_PER_KIND - pages g1 < MAX_DISCOVERY_PAGES_PER_KIND - pages g"
      using g1(1) *(1) by simp
    ultimately obtain rest k
      where r: "out = (items @ page_items p) @ rest" "served ask (pages g1) (cursor g1) rest k"
        "pages g1 + k \<le> MAX_DISCOVERY_PAGES_PER_KIND" "budget_items b' = budget_items b1 + length rest"
        "budget_items b' \<le> MAX_DISCOVERY_ITEMS" "budget_bytes b' \<le> MAX_DISCOVERY_AGGREGATE_BYTES"
      using less.hyps by blast
    have "served ask (pages g) (cursor g) (page_items p @ rest) (k + 1)"
      using *(2) c r(2) g1(1) by (intro next_page [of ask "pages g" "cursor g" p c rest k]) simp_all
    with r b1 g1(1) show ?thesis by (intro exI [of _ "page_items p @ rest"] exI [of _ "k + 1"]) simp
  next
    case False
    then have "served ask (pages g) (cursor g) (page_items p) 1" using g1(2) *(2) by (intro last_page) auto
    with False b1 *(1,5) show ?thesis by (intro exI [of _ "page_items p"] exI [of _ 1]) simp
  qed
qed

text \<open>Completely read when declared, empty otherwise.\<close>

definition read_all :: "bool \<Rightarrow> 'a asks \<Rightarrow> 'a list \<Rightarrow> bool" where
  "read_all declared ask items \<longleftrightarrow>
     (if declared then \<exists>k. k \<le> MAX_DISCOVERY_PAGES_PER_KIND \<and> served ask 0 None items k else items = [])"

lemma list_if_Inr:
  assumes "list_if declared P ask failed b = Inr (items, b')" "budget_items b \<le> MAX_DISCOVERY_ITEMS"
  shows "read_all declared ask items \<and> budget_items b' = budget_items b + length items
    \<and> budget_items b' \<le> MAX_DISCOVERY_ITEMS"
  using assms list_bounded_Inr [of P ask failed b first_page "[]" items b']
  by (auto simp: list_if_def read_all_def first_page_def split: if_splits)


section \<open>Registered capabilities belong to active, pinned sources\<close>

definition owned :: "(string \<Rightarrow> bool) \<Rightarrow> federation \<Rightarrow> bool" where
  "owned q f \<longleftrightarrow>
     fmpred (\<lambda>_ t. q (cap_source (ft_identity t))) (fed_tools f)
     \<and> fmpred (\<lambda>_ r. q (cap_source (fr_identity r))) (fed_resources f)
     \<and> fmpred (\<lambda>_ t. q (cap_source (tm_identity t))) (fed_templates f)
     \<and> fmpred (\<lambda>_ t. q (cap_source (fp_identity t))) (fed_prompts f)"

lemma owned_default: "owned q federation_default"
  by (simp add: owned_def federation_default_def)

lemma owned_mono: "owned q f \<Longrightarrow> (\<And>i. q i \<Longrightarrow> r i) \<Longrightarrow> owned r f"
  by (auto simp: owned_def fmpred_iff)

lemma owned_merge: "owned q f \<Longrightarrow> owned q g \<Longrightarrow> fed_merge f g = Inr h \<Longrightarrow> owned q h"
  by (auto simp: owned_def fed_merge_def intro!: fmpred_add split: if_splits)

lemma capability_new_source [simp]: "cap_source (capability_new P s k n d r c) = s"
  by (simp add: capability_new_def)

lemma try_fold_keeps:
  "try_fold f s xs = Inr t \<Longrightarrow> Q s \<Longrightarrow> (\<And>s x t. f s x = Inr t \<Longrightarrow> Q s \<Longrightarrow> Q t) \<Longrightarrow> Q t"
  by (induction xs arbitrary: s) (auto simp: rbind_Inr)

lemma added_owned:
  assumes "add_source_capabilities P J s d f = Inr f'" "owned q f" "q (src_id s)"
  shows "owned q f'"
proof -
  have "owned q f'" if "add_tool P J s r f t = Inr f'" "owned q f" for r f t f'
    using that assms(3)
    by (auto simp: add_tool_def Let_def rbind_Inr map_err_Inr insert_tool_def owned_def split: if_splits
        intro!: fmpred_upd)
  moreover have "owned q f'" if "add_resource P J s r f t = Inr f'" "owned q f" for r f t f'
    using that assms(3)
    by (auto simp: add_resource_def Let_def map_err_Inr insert_resource_def owned_def split: if_splits
        intro!: fmpred_upd)
  moreover have "owned q f'" if "add_template P J s r f t = Inr f'" "owned q f" for r f t f'
    using that assms(3)
    by (auto simp: add_template_def Let_def map_err_Inr insert_template_def owned_def
        split: if_splits option.splits intro!: fmpred_upd)
  moreover have "owned q f'" if "add_prompt P J s r f t = Inr f'" "owned q f" for r f t f'
    using that assms(3)
    by (auto simp: add_prompt_def Let_def map_err_Inr insert_prompt_def owned_def split: if_splits
        intro!: fmpred_upd)
  moreover obtain f1 f2 f3 r where
    "try_fold (add_tool P J s r) f (cd_tools d) = Inr f1"
    "try_fold (add_resource P J s r) f1 (cd_resources d) = Inr f2"
    "try_fold (add_template P J s r) f2 (cd_templates d) = Inr f3"
    "try_fold (add_prompt P J s r) f3 (cd_prompts d) = Inr f'"
    using assms(1) by (auto simp: add_source_capabilities_def Let_def rbind_Inr)
  ultimately show ?thesis using assms(2) try_fold_keeps [where Q = "owned q"] by metis
qed

text \<open>An active source: what it answered at startup is what it is held to.\<close>

definition pinned_source :: "platform \<Rightarrow> world \<Rightarrow> managed_source \<Rightarrow> bool" where
  "pinned_source P W m \<longleftrightarrow>
     (\<exists>p d. connect_source W (ms_config m) = Inr p \<and> capture_discovery P p = Inr d
        \<and> capability_snapshot_digest (ms_config m) \<in> {None, Some (us_manifest_digest (cd_snapshot d))}
        \<and> ms_expected_snapshot m = of_json P (snapshot_json P (cd_snapshot d))
        \<and> (ms_supports_tasks m \<longrightarrow> capability_snapshot_digest (ms_config m) \<noteq> None))"

definition connecting_ok :: "platform \<Rightarrow> world \<Rightarrow> discovery_mode \<Rightarrow> mcp_source list \<Rightarrow> connecting \<Rightarrow> bool" where
  "connecting_ok P W mode seen c \<longleftrightarrow>
     src_id ` set seen = fset (fmdom (cn_active c)) \<union> set (cn_incomplete c)
     \<and> (mode = Strict \<longrightarrow> cn_incomplete c = [])
     \<and> fmpred (\<lambda>i m. ms_config m \<in> set seen \<and> src_id (ms_config m) = i \<and> pinned_source P W m) (cn_active c)
     \<and> owned (\<lambda>i. i |\<in>| fmdom (cn_active c)) (cn_federation c)"

lemma leave_out_ok:
  assumes "connecting_ok P W mode seen c" "leave_out mode s c e = Inr c'"
  shows "connecting_ok P W mode (seen @ [s]) c'"
  using assms by (auto simp: connecting_ok_def leave_out_def fmpred_iff split: if_splits)

lemma connect_one_ok:
  assumes "connecting_ok P W mode seen c" "connect_one P W mode c s = Inr c'"
  shows "connecting_ok P W mode (seen @ [s]) c'"
proof (cases "\<exists>e. leave_out mode s c e = Inr c'")
  case True
  then show ?thesis using leave_out_ok [OF assms(1)] by blast
next
  case False
  with assms(2) obtain p d f h where
    p: "connect_source W s = Inr p" and d: "discover_source P W s p = Inr (d, f)"
    and pin: "capability_snapshot_digest s \<in> {None, Some (us_manifest_digest (cd_snapshot d))}"
    and h: "fed_merge (cn_federation c) f = Inr h"
    and c': "c' = c\<lparr>cn_federation := h, cn_active := fmupd (src_id s) (managed P W s p (cd_snapshot d)) (cn_active c)\<rparr>"
    by (auto simp: connect_one_def Let_def split: sum.splits if_splits)
  let ?q = "\<lambda>i. i |\<in>| fmdom (cn_active c')"
  have cap: "capture_discovery P p = Inr d"
    and add: "add_source_capabilities P (source_doc W) s d federation_default = Inr f"
    using d by (auto simp: discover_source_def rbind_Inr split: if_splits)
  have "owned ?q f" by (rule added_owned [OF add owned_default]) (simp add: c')
  moreover have "owned ?q (cn_federation c)"
    by (rule owned_mono [of "\<lambda>i. i |\<in>| fmdom (cn_active c)"]) (use assms(1) c' in \<open>auto simp: connecting_ok_def\<close>)
  ultimately have "owned ?q (cn_federation c')" using owned_merge [OF _ _ h] by (simp add: c')
  moreover have "pinned_source P W (managed P W s p (cd_snapshot d))"
    using p cap pin by (auto simp: pinned_source_def managed_def source_supports_durable_tasks_def)
  ultimately show ?thesis using assms(1) c'
    by (auto simp: connecting_ok_def managed_def fmpred_iff)
qed

lemma try_fold_connect:
  "try_fold (connect_one P W mode) c sources = Inr c' \<Longrightarrow> connecting_ok P W mode seen c
   \<Longrightarrow> connecting_ok P W mode (seen @ sources) c'"
proof (induction sources arbitrary: c seen)
  case (Cons s sources)
  then obtain c1 where "connect_one P W mode c s = Inr c1" "try_fold (connect_one P W mode) c1 sources = Inr c'"
    by (auto simp: rbind_Inr)
  with Cons.IH [of c1 "seen @ [s]"] Cons.prems(2) show ?case by (simp add: connect_one_ok)
qed simp

text \<open>
  After startup every configured source is active or reported incomplete (never the latter in the
  strict mode), an active source answered with the manifest it is pinned to, durable tasks need a pin,
  and every capability of the gateway belongs to an active source.
\<close>

theorem connected_sources_accounted:
  assumes "connect_configured_sources P W sources mode = Inr c"
  shows "src_id ` set sources = fset (fmdom (cn_active c)) \<union> set (cn_incomplete c)
    \<and> (if mode = Strict then cn_incomplete c = [] else sorted (cn_incomplete c))
    \<and> fmpred (\<lambda>i m. ms_config m \<in> set sources \<and> src_id (ms_config m) = i \<and> pinned_source P W m) (cn_active c)
    \<and> owned (\<lambda>i. i |\<in>| fmdom (cn_active c)) (cn_federation c)"
proof -
  let ?c0 = "\<lparr>cn_federation = federation_default, cn_active = fmempty, cn_incomplete = []\<rparr>"
  from assms obtain c1 where c1: "try_fold (connect_one P W mode) ?c0 sources = Inr c1"
    and c: "c = c1\<lparr>cn_incomplete := sort (cn_incomplete c1)\<rparr>"
    by (auto simp: connect_configured_sources_def rbind_Inr)
  have "connecting_ok P W mode [] ?c0" by (simp add: connecting_ok_def owned_default)
  from try_fold_connect [OF c1 this] show ?thesis unfolding c by (simp add: connecting_ok_def)
qed

section \<open>A concrete server\<close>

definition quiet_platform :: platform where
  "quiet_platform = sample_platform\<lparr>json_to_vec := (\<lambda>_. [])\<rparr>"

definition sample_tool_doc :: tool_doc where
  "sample_tool_doc =
     \<lparr>td_name = ''read'', td_description = None, td_schema = [], td_annotations = Some (Some True, None),
      td_json = JNull\<rparr>"

definition sample_peer :: peer where
  "sample_peer =
     \<lparr>peer_info = Some \<lparr>si_protocol = MCP_2026_07_28, si_server = Some (''files'', JNull),
        si_capabilities = JNull, si_tools = True, si_resources = False, si_prompts = False,
        si_tasks = True, si_json = JNull\<rparr>,
      list_tools = (\<lambda>n at. Some (if n = 0
         then \<lparr>page_items = [sample_tool_doc], page_next = Some ''2'', page_json = JNull\<rparr>
         else \<lparr>page_items = [], page_next = None, page_json = JNull\<rparr>)),
      list_resources = (\<lambda>_ _. None), list_resource_templates = (\<lambda>_ _. None), list_prompts = (\<lambda>_ _. None)\<rparr>"

definition sample_world :: world where
  "sample_world =
     \<lparr>connect_source = (\<lambda>_. Inr sample_peer), discovery_timeout = (\<lambda>_. False), source_doc = (\<lambda>_. JNull),
      new_session = (\<lambda>_. ''gmus_1'')\<rparr>"

lemma sample_list:
  "list_bounded quiet_platform (list_tools sample_peer) e \<lparr>budget_items = 0, budget_bytes = 0\<rparr> first_page []
   = Inr ([sample_tool_doc], \<lparr>budget_items = 1, budget_bytes = 0\<rparr>)"
  by (subst list_bounded.simps, simp add: request_params_def first_page_def MAX_DISCOVERY_PAGES_PER_KIND_def
      sample_peer_def charge_page_def MAX_DISCOVERY_ITEMS_def MAX_DISCOVERY_AGGREGATE_BYTES_def
      quiet_platform_def accept_page_def MAX_DISCOVERY_CURSOR_BYTES_def,
      subst list_bounded.simps, simp add: request_params_def MAX_DISCOVERY_PAGES_PER_KIND_def
      charge_page_def MAX_DISCOVERY_ITEMS_def MAX_DISCOVERY_AGGREGATE_BYTES_def accept_page_def)

lemma sample_capture:
  "\<exists>d. capture_discovery quiet_platform sample_peer = Inr d \<and> cd_tools d = [sample_tool_doc]
     \<and> cd_resources d = [] \<and> cd_templates d = [] \<and> cd_prompts d = []"
proof -
  have "peer_info sample_peer = Some \<lparr>si_protocol = MCP_2026_07_28, si_server = Some (''files'', JNull),
        si_capabilities = JNull, si_tools = True, si_resources = False, si_prompts = False,
        si_tasks = True, si_json = JNull\<rparr>"
    by (simp add: sample_peer_def)
  then show ?thesis
    by (simp add: capture_discovery_def charge_page_def quiet_platform_def list_if_def
        MAX_DISCOVERY_ITEMS_def MAX_DISCOVERY_AGGREGATE_BYTES_def sample_list [unfolded quiet_platform_def])
qed


lemma sample_connects:
  "\<exists>c. connect_configured_sources quiet_platform sample_world [sample_source] Strict = Inr c
     \<and> ''files'' |\<in>| fmdom (cn_active c)"
proof -
  obtain d where d: "capture_discovery quiet_platform sample_peer = Inr d" "cd_tools d = [sample_tool_doc]"
      "cd_resources d = []" "cd_templates d = []" "cd_prompts d = []"
    using sample_capture by blast
  then have "\<exists>f. add_source_capabilities quiet_platform (\<lambda>_. JNull) sample_source d federation_default = Inr f"
    by (simp add: add_source_capabilities_def Let_def add_tool_def reject_oversized_metadata_def quiet_platform_def
        insert_tool_def federation_default_def)
  then obtain f where f: "discover_source quiet_platform sample_world sample_source sample_peer = Inr (d, f)"
    using d(1) by (auto simp: discover_source_def sample_world_def)
  have "connect_source sample_world sample_source = Inr sample_peer" "capability_snapshot_digest sample_source = None" "src_id sample_source = ''files''" by (simp_all add: sample_world_def sample_source_def)
  with f show ?thesis
    by (simp add: connect_configured_sources_def connect_one_def fed_merge_def federation_default_def overlaps_def)
qed

theorem connected_sources_accounted_witness:
  "\<exists>c. connect_configured_sources quiet_platform sample_world [sample_source] Strict = Inr c
     \<and> cn_incomplete c = [] \<and> fset (fmdom (cn_active c)) = {''files''}"
proof -
  obtain c where c: "connect_configured_sources quiet_platform sample_world [sample_source] Strict = Inr c"
    using sample_connects by blast
  have "src_id sample_source = ''files''" by (simp add: sample_source_def)
  with connected_sources_accounted [OF c] have "cn_incomplete c = [] \<and> fset (fmdom (cn_active c)) = {''files''}"
    by simp
  with c show ?thesis by blast
qed

end
