(* ===== verification/Upstream.thy ===== *)
theory Upstream
  imports Discovery
begin

text \<open>
  Models the other half of \<open>crates/gaugemesh/src/outbound.rs\<close>: the running sources (\<open>UpstreamRuntime\<close>),
  the requests forwarded to them, the restart of a broken connection and the shutdown. What a peer
  answers to a request is an argument (\<open>reply\<close>); so are the connection a restart makes and its session
  identifier.
\<close>

section \<open>The runtime\<close>

record upstream =
  sources :: "(string, managed_source) fmap"
  incomplete_sources :: "string list"
  shutting_down :: bool

definition contains_source :: "upstream \<Rightarrow> string \<Rightarrow> bool" where
  "contains_source u i \<longleftrightarrow> i |\<in>| fmdom (sources u)"

definition has_task_capable_source :: "upstream \<Rightarrow> bool" where
  "has_task_capable_source u \<longleftrightarrow> fBex (fmdom (sources u)) (\<lambda>i. ms_supports_tasks (the (fmlookup (sources u) i)))"

definition source_supports_tasks :: "upstream \<Rightarrow> string \<Rightarrow> bool" where
  "source_supports_tasks u i \<longleftrightarrow> (case fmlookup (sources u) i of None \<Rightarrow> False | Some m \<Rightarrow> ms_supports_tasks m)"

definition source_snapshot_digest :: "upstream \<Rightarrow> string \<Rightarrow> sha256_digest option" where
  "source_snapshot_digest u i = map_option ms_expected_snapshot (fmlookup (sources u) i)"

definition source_configuration_digest :: "platform \<Rightarrow> source_json \<Rightarrow> upstream \<Rightarrow> string \<Rightarrow> sha256_digest option" where
  "source_configuration_digest P J u i = map_option (\<lambda>m. of_json P (J (ms_config m))) (fmlookup (sources u) i)"

definition select_peer :: "upstream \<Rightarrow> string \<Rightarrow> (string, managed_source) res" where
  "select_peer u i = ok_or (fmlookup (sources u) i) ''GM_MCP_UPSTREAM_SOURCE_UNAVAILABLE''"

definition source_session_id :: "upstream \<Rightarrow> string \<Rightarrow> string option" where
  "source_session_id u i = (case select_peer u i of Inl e \<Rightarrow> None | Inr m \<Rightarrow> Some (ms_session m))"

section \<open>Restarts\<close>

text \<open>The part of \<open>restart_after_failure\<close> before the restart lock is taken.\<close>

definition restart_check :: "upstream \<Rightarrow> string \<Rightarrow> (string, unit) res" where
  "restart_check u i =
     rbind (ensure (\<not> shutting_down u) ''GM_MCP_UPSTREAM_SHUTTING_DOWN'') (\<lambda>_.
     rbind (ok_or (fmlookup (sources u) i) ''GM_MCP_UPSTREAM_SOURCE_UNAVAILABLE'') (\<lambda>_. Inr ()))"

definition put_source :: "string \<Rightarrow> managed_source \<Rightarrow> upstream \<Rightarrow> upstream" where
  "put_source i m u = u\<lparr>sources := fmupd i m (sources u)\<rparr>"

text \<open>
  The part under the lock: \<open>attempt\<close> is the connection that \<open>connect_source\<close> makes, \<open>timed_out\<close> whether
  its discovery exceeds ten seconds, \<open>session\<close> the fresh identifier.
\<close>

definition restart_locked ::
  "platform \<Rightarrow> string \<Rightarrow> u64 \<Rightarrow> (string, peer) res \<Rightarrow> bool \<Rightarrow> string \<Rightarrow> upstream \<Rightarrow> (string, unit) res \<times> upstream" where
  "restart_locked P i observed attempt timed_out session u =
     (case fmlookup (sources u) i of
        None \<Rightarrow> (Inl ''GM_MCP_UPSTREAM_SOURCE_UNAVAILABLE'', u)
      | Some m \<Rightarrow>
          if ms_generation m \<noteq> observed then (Inr (), u)
          else if \<not> ms_restarts m < 2 then (Inl ''GM_MCP_UPSTREAM_RESTART_BUDGET_EXHAUSTED'', u)
          else
            let m = m\<lparr>ms_restarts := ms_restarts m + 1\<rparr>; u = put_source i m u in
            (case rbind attempt (\<lambda>p.
                    rbind (ensure (\<not> timed_out) ''GM_MCP_UPSTREAM_RESTART_DISCOVERY_TIMEOUT'') (\<lambda>_.
                    rbind (capture_discovery P p) (\<lambda>d.
                    rbind (ensure (of_json P (snapshot_json P (cd_snapshot d)) = ms_expected_snapshot m)
                             ''GM_MCP_UPSTREAM_IDENTITY_CHANGED'') (\<lambda>_. Inr p)))) of
               Inl e \<Rightarrow> (Inl e, u)
             | Inr p \<Rightarrow>
                 (Inr (), put_source i (m\<lparr>ms_peer := p, ms_generation := saturating_add observed 1,
                    ms_session := session, ms_service := True\<rparr>) u)))"

text \<open>\<open>shutdown\<close>: the flag first, then each source's service is taken and closed.\<close>

datatype close_outcome = Closed | CloseFailed | CloseTimedOut

definition begin_shutdown :: "upstream \<Rightarrow> upstream" where
  "begin_shutdown u = u\<lparr>shutting_down := True\<rparr>"

definition close_source ::
  "string \<Rightarrow> close_outcome \<Rightarrow> upstream \<Rightarrow> (string, unit) res \<times> upstream" where
  "close_source i outcome u =
     (case fmlookup (sources u) i of
        None \<Rightarrow> (Inr (), u)
      | Some m \<Rightarrow>
          if \<not> ms_service m then (Inr (), u)
          else
            ((case outcome of
                Closed \<Rightarrow> Inr ()
              | CloseFailed \<Rightarrow> Inl ''GM_MCP_UPSTREAM_CLEANUP''
              | CloseTimedOut \<Rightarrow> Inl ''GM_MCP_UPSTREAM_CLEANUP_TIMEOUT''),
             put_source i (m\<lparr>ms_service := False\<rparr>) u))"

fun close_all :: "(string \<Rightarrow> close_outcome) \<Rightarrow> string list \<Rightarrow> upstream \<Rightarrow> (string, unit) res \<times> upstream" where
  "close_all close [] u = (Inr (), u)"
| "close_all close (i # is) u =
     (case close_source i (close i) u of
        (Inl e, u) \<Rightarrow> (Inl e, u)
      | (Inr _, u) \<Rightarrow> close_all close is u)"

definition shutdown :: "(string \<Rightarrow> close_outcome) \<Rightarrow> upstream \<Rightarrow> (string, unit) res \<times> upstream" where
  "shutdown close u =
     (let u = begin_shutdown u in close_all close (sorted_list_of_fset (fmdom (sources u))) u)"

section \<open>Forwarded requests\<close>

text \<open>What the code distinguishes of \<open>rmcp::ServiceError\<close>.\<close>

datatype service_error = TransportSend | TransportClosed | ServiceTimeout | OtherServiceError string

datatype 'a reply = NoReplyInTime | Reply "(service_error, 'a) res"

fun restarting :: "service_error \<Rightarrow> bool" where
  "restarting (OtherServiceError e) = False"
| "restarting _ = True"

text \<open>The result and whether to restart. The text of an error is its outermost context.\<close>

definition classify_upstream_result :: "(service_error, 'a) res \<Rightarrow> string \<Rightarrow> (string, 'a) res \<times> bool" where
  "classify_upstream_result r context =
     (case r of Inr v \<Rightarrow> (Inr v, False) | Inl e \<Rightarrow> (Inl context, restarting e))"

definition received :: "'a reply \<Rightarrow> string \<Rightarrow> string \<Rightarrow> (string, 'a) res \<times> bool" where
  "received r context timeout =
     (case r of Reply x \<Rightarrow> classify_upstream_result x context | NoReplyInTime \<Rightarrow> (Inl timeout, True))"

text \<open>Responses: complete, asking for input, a created task, or a kind the code does not know.\<close>

datatype call_response =
    CallComplete json | CallInputRequired json | CallTask string json | CallUnsupported

datatype answer = AnswerComplete json | AnswerInputRequired json | AnswerUnsupported

record call_request =
  cr_name :: string
  cr_arguments :: "json option"
  cr_meta :: "(string \<times> json) list option"

datatype upstream_message =
    CallSent call_request "json option"
  | TaskGetSent string
  | TaskCancelSent string
  | ReadSent string
  | PromptSent string

text \<open>What a forwarded request leads to: its result, what was sent, and whether a restart is asked for.\<close>

record 'a forwarded =
  fw_result :: "(string, 'a) res"
  fw_sent :: "upstream_message list"
  fw_restart :: bool

definition not_sent :: "string \<Rightarrow> 'a forwarded" where
  "not_sent e = \<lparr>fw_result = Inl e, fw_sent = [], fw_restart = False\<rparr>"

definition TASK_EXECUTION_META_KEY :: string where
  "TASK_EXECUTION_META_KEY = ''dev.gaugemesh/taskExecution''"

text \<open>
  The request of \<open>call_tool_once_with_task_capability\<close>: of the caller's metadata only the execution
  context passes. The capabilities of the gateway are built by \<open>rmcp\<close>.
\<close>

definition task_call :: "(bool \<Rightarrow> json) \<Rightarrow> call_request \<Rightarrow> bool \<Rightarrow> upstream_message" where
  "task_call capabilities r supports =
     CallSent
       (r\<lparr>cr_meta :=
          (case Option.bind (cr_meta r) (\<lambda>es. map_of es TASK_EXECUTION_META_KEY) of
             None \<Rightarrow> Some []
           | Some execution \<Rightarrow> Some [(TASK_EXECUTION_META_KEY, execution)])\<rparr>)
       (Some (capabilities supports))"

definition reject_oversized_response :: "platform \<Rightarrow> json \<Rightarrow> (string, unit) res" where
  "reject_oversized_response P v =
     ensure (\<not> 1024 * 1024 < length (json_to_vec P v)) ''GM_MCP_UPSTREAM_RESPONSE_TOO_LARGE''"

fun reject_oversized_call_response :: "platform \<Rightarrow> call_response \<Rightarrow> (string, unit) res" where
  "reject_oversized_call_response P (CallComplete v) = reject_oversized_response P v"
| "reject_oversized_call_response P (CallInputRequired v) = reject_oversized_response P v"
| "reject_oversized_call_response P (CallTask i v) = reject_oversized_response P v"
| "reject_oversized_call_response P CallUnsupported = Inl ''GM_MCP_UPSTREAM_RESPONSE_UNSUPPORTED''"

fun reject_oversized_answer :: "platform \<Rightarrow> answer \<Rightarrow> (string, unit) res" where
  "reject_oversized_answer P (AnswerComplete v) = reject_oversized_response P v"
| "reject_oversized_answer P (AnswerInputRequired v) = reject_oversized_response P v"
| "reject_oversized_answer P AnswerUnsupported = Inl ''GM_MCP_UPSTREAM_RESPONSE_UNSUPPORTED''"

text \<open>The session a durable task was started in must still be the current one.\<close>

definition session_changed :: "string option \<Rightarrow> managed_source \<Rightarrow> bool" where
  "session_changed expected m \<longleftrightarrow> (case expected of None \<Rightarrow> False | Some s \<Rightarrow> s \<noteq> ms_session m)"

text \<open>What becomes of the answer: \<open>permitted\<close> says whether a task may be created, \<open>supports\<close> whether the source has tasks.\<close>

definition tool_answer ::
  "platform \<Rightarrow> bool \<Rightarrow> bool \<Rightarrow> upstream_message \<Rightarrow> (string, call_response) res \<times> bool \<Rightarrow> call_response forwarded" where
  "tool_answer P permitted supports message outcome =
     (let (result, restart) = outcome in
      case result of
        Inr (CallTask t v) \<Rightarrow>
          if \<not> permitted
          then \<lparr>fw_result = Inl ''GM_MCP_UNEXPECTED_TASK_RESPONSE'',
                fw_sent = message # (if supports then [TaskCancelSent t] else []), fw_restart = restart\<rparr>
          else \<lparr>fw_result = rbind (reject_oversized_call_response P (CallTask t v)) (\<lambda>_. Inr (CallTask t v)),
                fw_sent = [message], fw_restart = restart\<rparr>
      | Inr response \<Rightarrow>
          \<lparr>fw_result = rbind (reject_oversized_call_response P response) (\<lambda>_. Inr response),
           fw_sent = [message], fw_restart = restart\<rparr>
      | Inl e \<Rightarrow> \<lparr>fw_result = Inl e, fw_sent = [message], fw_restart = restart\<rparr>)"

definition call_tool_inner ::
  "platform \<Rightarrow> (bool \<Rightarrow> json) \<Rightarrow> upstream \<Rightarrow> string \<Rightarrow> call_request \<Rightarrow> bool \<Rightarrow> string option
   \<Rightarrow> call_response reply \<Rightarrow> call_response forwarded" where
  "call_tool_inner P capabilities u i r client_supports_tasks expected reply =
     (case select_peer u i of
        Inl e \<Rightarrow> not_sent e
      | Inr m \<Rightarrow>
          if session_changed expected m then not_sent ''GM_MCP_UPSTREAM_SESSION_CHANGED''
          else
            let current = (protocol_revision_text (ms_config m) = MCP_2026_07_28);
                message = (if current then task_call capabilities r (client_supports_tasks \<and> ms_supports_tasks m)
                           else CallSent r None) in
            tool_answer P (client_supports_tasks \<and> ms_supports_tasks m \<and> current) (ms_supports_tasks m) message
              (received reply ''GM_MCP_UPSTREAM_CALL'' ''GM_MCP_UPSTREAM_CALL_TIMEOUT''))"

definition call_tool ::
  "platform \<Rightarrow> (bool \<Rightarrow> json) \<Rightarrow> upstream \<Rightarrow> string \<Rightarrow> call_request \<Rightarrow> call_response reply \<Rightarrow> call_response forwarded" where
  "call_tool P capabilities u i r reply = call_tool_inner P capabilities u i r False None reply"

definition call_tool_for_session ::
  "platform \<Rightarrow> (bool \<Rightarrow> json) \<Rightarrow> upstream \<Rightarrow> string \<Rightarrow> call_request \<Rightarrow> bool \<Rightarrow> string \<Rightarrow> call_response reply
   \<Rightarrow> call_response forwarded" where
  "call_tool_for_session P capabilities u i r client_supports_tasks session reply =
     call_tool_inner P capabilities u i r client_supports_tasks (Some session) reply"

definition require_tasks_capability :: "managed_source \<Rightarrow> (string, unit) res" where
  "require_tasks_capability m = ensure (ms_supports_tasks m) ''GM_MCP_UPSTREAM_TASKS_UNAVAILABLE''"

text \<open>The requests that follow a task.\<close>

definition task_request ::
  "upstream \<Rightarrow> string \<Rightarrow> string option \<Rightarrow> upstream_message \<Rightarrow> (string, 'a) res \<times> bool \<Rightarrow> ('a \<Rightarrow> (string, unit) res)
   \<Rightarrow> 'a forwarded" where
  "task_request u i expected message outcome check =
     (case select_peer u i of
        Inl e \<Rightarrow> not_sent e
      | Inr m \<Rightarrow>
          if session_changed expected m then not_sent ''GM_MCP_UPSTREAM_SESSION_CHANGED''
          else
            (case require_tasks_capability m of
               Inl e \<Rightarrow> not_sent e
             | Inr _ \<Rightarrow>
                 \<lparr>fw_result = rbind (fst outcome) (\<lambda>v. rbind (check v) (\<lambda>_. Inr v)),
                  fw_sent = [message], fw_restart = snd outcome\<rparr>))"

definition get_task_inner ::
  "platform \<Rightarrow> upstream \<Rightarrow> string \<Rightarrow> string \<Rightarrow> string option \<Rightarrow> json reply \<Rightarrow> json forwarded" where
  "get_task_inner P u i task expected reply =
     task_request u i expected (TaskGetSent task)
       (received reply ''GM_MCP_UPSTREAM_TASK_GET'' ''GM_MCP_UPSTREAM_TASK_GET_TIMEOUT'')
       (reject_oversized_response P)"

definition get_task_for_session ::
  "platform \<Rightarrow> upstream \<Rightarrow> string \<Rightarrow> string \<Rightarrow> string \<Rightarrow> json reply \<Rightarrow> json forwarded" where
  "get_task_for_session P u i task session reply = get_task_inner P u i task (Some session) reply"

definition cancel_task_inner ::
  "upstream \<Rightarrow> string \<Rightarrow> string \<Rightarrow> string option \<Rightarrow> unit reply \<Rightarrow> unit forwarded" where
  "cancel_task_inner u i task expected reply =
     task_request u i expected (TaskCancelSent task)
       (received reply ''GM_MCP_UPSTREAM_TASK_CANCEL'' ''GM_MCP_UPSTREAM_TASK_CANCEL_TIMEOUT'')
       (\<lambda>_. Inr ())"

definition cancel_task_for_session ::
  "upstream \<Rightarrow> string \<Rightarrow> string \<Rightarrow> string \<Rightarrow> unit reply \<Rightarrow> unit forwarded" where
  "cancel_task_for_session u i task session reply = cancel_task_inner u i task (Some session) reply"

text \<open>Reading a resource and getting a prompt.\<close>

definition plain_request ::
  "platform \<Rightarrow> upstream \<Rightarrow> string \<Rightarrow> upstream_message \<Rightarrow> (string, answer) res \<times> bool \<Rightarrow> answer forwarded" where
  "plain_request P u i message outcome =
     (case select_peer u i of
        Inl e \<Rightarrow> not_sent e
      | Inr m \<Rightarrow>
          \<lparr>fw_result = rbind (fst outcome) (\<lambda>v. rbind (reject_oversized_answer P v) (\<lambda>_. Inr v)),
           fw_sent = [message], fw_restart = snd outcome\<rparr>)"

definition read_resource ::
  "platform \<Rightarrow> upstream \<Rightarrow> string \<Rightarrow> string \<Rightarrow> answer reply \<Rightarrow> answer forwarded" where
  "read_resource P u i uri reply =
     plain_request P u i (ReadSent uri) (received reply ''GM_MCP_UPSTREAM_READ'' ''GM_MCP_UPSTREAM_READ_TIMEOUT'')"

definition get_prompt ::
  "platform \<Rightarrow> upstream \<Rightarrow> string \<Rightarrow> string \<Rightarrow> answer reply \<Rightarrow> answer forwarded" where
  "get_prompt P u i name reply =
     plain_request P u i (PromptSent name)
       (received reply ''GM_MCP_UPSTREAM_PROMPT'' ''GM_MCP_UPSTREAM_PROMPT_TIMEOUT'')"

section \<open>Interleavings of failures, restarts and the shutdown\<close>

text \<open>Pending restarts have passed the check and wait for the lock with the generation they observed.\<close>

inductive upstream_step ::
  "platform \<Rightarrow> upstream \<times> (string \<times> u64) list \<Rightarrow> upstream \<times> (string \<times> u64) list \<Rightarrow> bool" for P where
  failure: "restart_check u i = Inr () \<Longrightarrow> upstream_step P (u, ps) (u, ps @ [(i, g)])"
| restart: "upstream_step P (u, ps @ (i, g) # qs)
     (snd (restart_locked P i g attempt timed_out session u), ps @ qs)"
| start_shutdown: "upstream_step P (u, ps) (begin_shutdown u, ps)"
| close_one: "shutting_down u \<Longrightarrow> upstream_step P (u, ps) (snd (close_source i outcome u), ps)"

definition start_runtime :: "connecting \<Rightarrow> upstream" where
  "start_runtime c = \<lparr>sources = cn_active c, incomplete_sources = cn_incomplete c, shutting_down = False\<rparr>"

inductive upstream_reachable ::
  "platform \<Rightarrow> world \<Rightarrow> upstream \<times> (string \<times> u64) list \<Rightarrow> bool" for P W where
  startup: "connect_configured_sources P W configured mode = Inr c \<Longrightarrow> upstream_reachable P W (start_runtime c, [])"
| later: "upstream_reachable P W s \<Longrightarrow> upstream_step P s t \<Longrightarrow> upstream_reachable P W t"

section \<open>Identity and budget of a source\<close>

text \<open>
  A source keeps its configuration and the snapshot of startup; whatever peer it is connected to has
  answered with that snapshot; at most two restarts are tried.
\<close>

definition source_held :: "platform \<Rightarrow> world \<Rightarrow> managed_source \<Rightarrow> bool" where
  "source_held P W m \<longleftrightarrow>
     pinned_source P W m
     \<and> (\<exists>d. capture_discovery P (ms_peer m) = Inr d
          \<and> of_json P (snapshot_json P (cd_snapshot d)) = ms_expected_snapshot m)
     \<and> unat (ms_restarts m) \<le> 2 \<and> 1 \<le> unat (ms_generation m)
     \<and> unat (ms_generation m) \<le> 1 + unat (ms_restarts m)"

definition upstream_held :: "platform \<Rightarrow> world \<Rightarrow> upstream \<Rightarrow> bool" where
  "upstream_held P W u \<longleftrightarrow> fmpred (\<lambda>i m. src_id (ms_config m) = i \<and> source_held P W m) (sources u)"

lemma put_source_held:
  "upstream_held P W u \<Longrightarrow> src_id (ms_config m) = i \<Longrightarrow> source_held P W m \<Longrightarrow> upstream_held P W (put_source i m u)"
  by (simp add: upstream_held_def put_source_def fmpred_upd)

lemma upstream_held_lookup:
  "upstream_held P W u \<Longrightarrow> fmlookup (sources u) i = Some m \<Longrightarrow> src_id (ms_config m) = i \<and> source_held P W m"
  by (auto simp: upstream_held_def fmpred_iff)

lemma restart_counts:
  assumes "(r :: u8) < 2" "unat (g :: u64) \<le> 1 + unat r" "1 \<le> unat g"
  shows "unat (r + 1) = unat r + 1" "unat (r + 1) \<le> 2" "unat (saturating_add g 1) = unat g + 1"
proof -
  have r: "unat r < 2" using assms(1) by (simp add: word_less_nat_alt)
  then show "unat (r + 1) = unat r + 1" by (simp add: unat_word_ariths)
  with r show "unat (r + 1) \<le> 2" by simp
  show "unat (saturating_add g 1) = unat g + 1"
    using r assms(2) by (simp add: unat_saturating_add)
qed

lemma restart_locked_held:
  assumes "upstream_held P W u"
  shows "upstream_held P W (snd (restart_locked P i g attempt timed_out session u))"
proof (cases "fmlookup (sources u) i")
  case None
  with assms show ?thesis by (simp add: restart_locked_def)
next
  case (Some m)
  note held = upstream_held_lookup [OF assms Some]
  show ?thesis
  proof (cases "ms_generation m = g \<and> ms_restarts m < 2")
    case False
    with assms Some show ?thesis by (auto simp: restart_locked_def)
  next
    case True
    let ?m = "m\<lparr>ms_restarts := ms_restarts m + 1\<rparr>"
    have n: "unat (ms_restarts m + 1) = unat (ms_restarts m) + 1" "unat (ms_restarts m + 1) \<le> 2"
        "unat (saturating_add g 1) = unat g + 1"
      using restart_counts [of "ms_restarts m" g] True held by (auto simp: source_held_def)
    have bound: "unat (ms_generation m) \<le> 1 + unat (ms_restarts m)" using held by (simp add: source_held_def)
    have tried: "source_held P W ?m" using held n True by (simp add: source_held_def pinned_source_def)
    then have kept: "upstream_held P W (put_source i ?m u)" using assms held by (intro put_source_held) simp_all
    have renewed: "source_held P W (?m\<lparr>ms_peer := p, ms_generation := saturating_add g 1, ms_session := session,
        ms_service := True\<rparr>)"
      if "capture_discovery P p = Inr d" "of_json P (snapshot_json P (cd_snapshot d)) = ms_expected_snapshot m" for p d
      using tried bound that n True by (auto simp: source_held_def pinned_source_def)
    show ?thesis
      using kept renewed held True Some
      by (auto simp: restart_locked_def Let_def rbind_Inr ensure_Inr intro!: put_source_held split: sum.split)
  qed
qed

lemma close_source_held:
  assumes "upstream_held P W u"
  shows "upstream_held P W (snd (close_source i outcome u))"
proof (cases "fmlookup (sources u) i")
  case (Some m)
  then have "source_held P W (m\<lparr>ms_service := False\<rparr>)"
    using upstream_held_lookup [OF assms Some] by (simp add: source_held_def pinned_source_def)
  with assms Some upstream_held_lookup [OF assms Some] show ?thesis
    by (auto simp: close_source_def intro: put_source_held)
qed (use assms in \<open>simp add: close_source_def\<close>)

lemma connect_one_peer:
  assumes "connect_one P W mode c s = Inr c'"
    and "fmpred (\<lambda>i m. src_id (ms_config m) = i \<and> source_held P W m) (cn_active c)"
  shows "fmpred (\<lambda>i m. src_id (ms_config m) = i \<and> source_held P W m) (cn_active c')"
proof -
  have held: "source_held P W (managed P W s p (cd_snapshot d))"
    if "connect_source W s = Inr p" "discover_source P W s p = Inr (d, f)"
      "capability_snapshot_digest s \<in> {None, Some (us_manifest_digest (cd_snapshot d))}" for p d f
  proof -
    have "capture_discovery P p = Inr d" using that(2) by (auto simp: discover_source_def rbind_Inr split: if_splits)
    with that(1,3) show ?thesis
      by (auto simp: source_held_def pinned_source_def managed_def source_supports_durable_tasks_def)
  qed
  have "src_id (ms_config (managed P W s p sn)) = src_id s" for p sn by (simp add: managed_def)
  with assms held show ?thesis
    by (auto simp: connect_one_def leave_out_def Let_def intro!: fmpred_upd split: sum.splits if_splits)
qed

lemma startup_held:
  assumes "connect_configured_sources P W configured mode = Inr c"
  shows "upstream_held P W (start_runtime c)"
proof -
  let ?c0 = "\<lparr>cn_federation = federation_default, cn_active = fmempty, cn_incomplete = []\<rparr>"
  from assms obtain c1 where "try_fold (connect_one P W mode) ?c0 configured = Inr c1"
    and c: "cn_active c = cn_active c1"
    by (auto simp: connect_configured_sources_def rbind_Inr)
  from try_fold_keeps [OF this(1), of "\<lambda>c. fmpred (\<lambda>i m. src_id (ms_config m) = i \<and> source_held P W m) (cn_active c)"]
  show ?thesis using connect_one_peer by (simp add: upstream_held_def start_runtime_def c)
qed

lemma upstream_reachable_held: "upstream_reachable P W s \<Longrightarrow> upstream_held P W (fst s)"
proof (induction rule: upstream_reachable.induct)
  case (startup configured mode c)
  then show ?case by (simp add: startup_held)
next
  case (later s t)
  from later.hyps(2) later.IH show ?case
  proof (induction rule: upstream_step.induct)
    case (start_shutdown u ps)
    then show ?case by (simp add: begin_shutdown_def upstream_held_def)
  qed (auto simp: restart_locked_held close_source_held)
qed

text \<open>
  C30: Through every interleaving of failures, restarts and the shutdown, a source is only ever connected
  to a peer that answered with the snapshot of startup (and so with the manifest the source is pinned
  to), and at most two restarts are spent on it.
\<close>

theorem upstream_identity_kept:
  assumes "upstream_reachable P W (u, ps)" "fmlookup (sources u) i = Some m"
  shows "src_id (ms_config m) = i \<and> pinned_source P W m
    \<and> (\<exists>d. capture_discovery P (ms_peer m) = Inr d
         \<and> of_json P (snapshot_json P (cd_snapshot d)) = ms_expected_snapshot m)
    \<and> unat (ms_generation m) \<le> 1 + unat (ms_restarts m) \<and> unat (ms_restarts m) \<le> 2"
  using upstream_reachable_held [OF assms(1)] assms(2)
  by (auto simp: upstream_held_def fmpred_iff source_held_def)

text \<open>
  The shutdown does not wait for restarts that have passed its flag: one that takes the lock after its
  source was closed connects it again, and nothing closes that connection.
\<close>

theorem restart_outlives_shutdown:
  assumes "fmlookup (sources u) i = Some m" "ms_restarts m < 2" "restart_check u i = Inr ()"
    and "capture_discovery P p = Inr d" "of_json P (snapshot_json P (cd_snapshot d)) = ms_expected_snapshot m"
  defines "closed \<equiv> snd (close_source i Closed (begin_shutdown u))"
  shows "\<exists>m'. fmlookup (sources (snd (restart_locked P i (ms_generation m) (Inr p) False session closed))) i = Some m'
    \<and> ms_service m'"
  using assms(1,2,4,5)
  by (auto simp: closed_def close_source_def begin_shutdown_def restart_locked_def put_source_def Let_def)

section \<open>Forwarding\<close>

abbreviation is_call :: "upstream_message \<Rightarrow> bool" where
  "is_call x \<equiv> (case x of CallSent q c \<Rightarrow> True | _ \<Rightarrow> False)"

text \<open>What a response may be when it is returned.\<close>

fun returnable :: "platform \<Rightarrow> bool \<Rightarrow> call_response \<Rightarrow> bool" where
  "returnable P permitted (CallTask t v) \<longleftrightarrow> permitted \<and> length (json_to_vec P v) \<le> 1024 * 1024"
| "returnable P permitted (CallComplete v) \<longleftrightarrow> length (json_to_vec P v) \<le> 1024 * 1024"
| "returnable P permitted (CallInputRequired v) \<longleftrightarrow> length (json_to_vec P v) \<le> 1024 * 1024"
| "returnable P permitted CallUnsupported \<longleftrightarrow> False"

definition answer_contained :: "platform \<Rightarrow> bool \<Rightarrow> bool \<Rightarrow> call_response reply \<Rightarrow> call_response forwarded \<Rightarrow> bool" where
  "answer_contained P permitted supports reply fw \<longleftrightarrow>
     length (filter is_call (fw_sent fw)) \<le> 1
     \<and> (case fw_result fw of Inl e \<Rightarrow> True | Inr v \<Rightarrow> returnable P permitted v)
     \<and> (case reply of
          Reply (Inr (CallTask t v)) \<Rightarrow> permitted \<or> fw_sent fw = [] \<or> \<not> supports \<or> TaskCancelSent t \<in> set (fw_sent fw)
        | _ \<Rightarrow> True)
     \<and> (\<not> fw_restart fw \<or> (case reply of Reply (Inr v) \<Rightarrow> False | Reply (Inl e) \<Rightarrow> restarting e | NoReplyInTime \<Rightarrow> True))"

lemma not_sent_contained: "answer_contained P permitted supports reply (not_sent e)"
  by (simp add: answer_contained_def not_sent_def split: reply.split sum.split call_response.split)

lemma reject_oversized_returnable:
  "reject_oversized_call_response P v = Inr () \<Longrightarrow> (case v of CallTask t x \<Rightarrow> permitted | _ \<Rightarrow> True) \<Longrightarrow> returnable P permitted v"
  by (cases v) (simp_all add: reject_oversized_response_def ensure_Inr linorder_not_less)

lemma tool_answer_contained:
  "answer_contained P permitted supports reply (tool_answer P permitted supports (CallSent q c)
     (received reply context timeout))"
proof (cases reply)
  case NoReplyInTime
  then show ?thesis by (simp add: received_def tool_answer_def answer_contained_def)
next
  case (Reply x)
  show ?thesis
  proof (cases x)
    case (Inl e)
    then show ?thesis by (simp add: Reply received_def classify_upstream_result_def tool_answer_def answer_contained_def)
  next
    case (Inr v)
    have checked: "case rbind (reject_oversized_call_response P v) (\<lambda>_. Inr v) of Inl e \<Rightarrow> True | Inr v \<Rightarrow> returnable P permitted v"
      if "case v of CallTask t x \<Rightarrow> permitted | _ \<Rightarrow> True"
      using that reject_oversized_returnable [of P v permitted] by (cases "reject_oversized_call_response P v") simp_all
    show ?thesis
    proof (cases v)
      case (CallTask t w)
      with Inr checked show ?thesis
        by (cases permitted; cases "reject_oversized_response P w") (auto simp: Reply received_def classify_upstream_result_def tool_answer_def
            answer_contained_def del: reject_oversized_call_response.simps)
    qed (use Inr checked in \<open>simp_all add: Reply received_def classify_upstream_result_def tool_answer_def
        answer_contained_def del: reject_oversized_call_response.simps\<close>)
  qed
qed

text \<open>
  C31: A forwarded tool call is sent at most once and only in the session it is meant for. A created task
  is returned only to a client and from a source that support tasks, and is cancelled upstream when it
  was not permitted; what is returned is at most a megabyte; and only a missing answer or a broken
  connection asks for a restart.
\<close>

theorem forwarded_call_contained:
  "let fw = call_tool_inner P capabilities u i r client_supports_tasks expected reply in
     (fw_sent fw = [] \<or>
        (\<exists>m. fmlookup (sources u) i = Some m \<and> (expected = None \<or> expected = Some (ms_session m))))
     \<and> (\<exists>permitted. (permitted \<longleftrightarrow> client_supports_tasks \<and> source_supports_tasks u i
            \<and> map_option (\<lambda>m. protocol_revision_text (ms_config m)) (fmlookup (sources u) i) = Some MCP_2026_07_28)
          \<and> answer_contained P permitted (source_supports_tasks u i) reply fw)"
  (is "let fw = ?call in _ fw")
proof (cases "fmlookup (sources u) i")
  case None
  then show ?thesis by (simp add: call_tool_inner_def select_peer_def Let_def not_sent_contained) (auto simp: not_sent_def)
next
  case (Some m)
  let ?current = "protocol_revision_text (ms_config m) = MCP_2026_07_28"
  let ?permitted = "client_supports_tasks \<and> ms_supports_tasks m \<and> ?current"
  show ?thesis
  proof (cases "session_changed expected m")
    case True
    with Some show ?thesis by (simp add: call_tool_inner_def select_peer_def Let_def not_sent_contained) (simp add: not_sent_def)
  next
    case False
    then have session: "expected = None \<or> expected = Some (ms_session m)"
      by (auto simp: session_changed_def split: option.splits)
    have "\<exists>q c. ?call = tool_answer P ?permitted (ms_supports_tasks m) (CallSent q c)
        (received reply ''GM_MCP_UPSTREAM_CALL'' ''GM_MCP_UPSTREAM_CALL_TIMEOUT'')"
      using Some False by (cases ?current) (auto simp: call_tool_inner_def select_peer_def Let_def task_call_def)
    then have "answer_contained P ?permitted (ms_supports_tasks m) reply ?call"
      using tool_answer_contained by metis
    with Some session show ?thesis by (simp add: source_supports_tasks_def conj_assoc Let_def)
  qed
qed

section \<open>A concrete runtime\<close>

lemma sample_runtime:
  "\<exists>(u :: upstream) m. upstream_reachable quiet_platform sample_world (u, []) \<and> fmlookup (sources u) ''files'' = Some m"
proof -
  obtain c where c: "connect_configured_sources quiet_platform sample_world [sample_source] Strict = Inr c"
      "''files'' |\<in>| fmdom (cn_active c)"
    using sample_connects by blast
  from c(2) obtain m where "fmlookup (sources (start_runtime c)) ''files'' = Some m"
    by (auto simp: start_runtime_def)
  with startup [OF c(1)] show ?thesis by blast
qed

theorem upstream_identity_kept_witness:
  "\<exists>(u :: upstream) m. fmlookup (sources u) ''files'' = Some m \<and> src_id (ms_config m) = ''files'' \<and> unat (ms_restarts m) \<le> 2"
proof -
  obtain u m where u: "upstream_reachable quiet_platform sample_world (u, [])"
      and m: "fmlookup (sources u) ''files'' = Some m"
    using sample_runtime by blast
  with upstream_identity_kept [OF u m] show ?thesis by (intro exI [of _ u] exI [of _ m]) simp
qed

end
