(* ===== verification/Approval.thy ===== *)
theory Approval
  imports Config Http Float64
begin

text \<open>
  Models \<open>crates/gaugemesh/src/approval.rs\<close>: how a request for input of an upstream server is answered
  (denied, from a reviewed static response, at the local terminal, or by a signed webhook), and the
  check of every accepted answer against the form it was asked with. HMAC, DNS, the HTTP client, the
  parsers of URLs and JSON and the derived reader of the webhook's response are parameters.
\<close>

definition MAX_FORM_BYTES :: nat where "MAX_FORM_BYTES = 16 * 1024"
definition MAX_WEBHOOK_BYTES :: nat where "MAX_WEBHOOK_BYTES = 64 * 1024"

section \<open>Text formats\<close>

definition valid_email :: "string \<Rightarrow> bool" where
  "valid_email s =
     (case rsplit_once (CHR ''@'') s of
        None \<Rightarrow> False
      | Some (l, domain) \<Rightarrow>
          l \<noteq> [] \<and> contains_text ''.'' domain \<and> \<not> starts_with ''.'' domain \<and> \<not> ends_with ''.'' domain
          \<and> \<not> list_ex char_is_whitespace (utf8_chars s))"

definition is_ascii_digit :: "char \<Rightarrow> bool" where
  "is_ascii_digit c \<longleftrightarrow> digit_value c \<noteq> None"

definition parsed_within :: "string \<Rightarrow> u8 \<Rightarrow> u8 \<Rightarrow> bool" where
  "parsed_within s a b = (case parse_u8 s of None \<Rightarrow> False | Some n \<Rightarrow> a \<le> n \<and> n \<le> b)"

definition valid_date :: "string \<Rightarrow> bool" where
  "valid_date s \<longleftrightarrow>
     length s = 10 \<and> s ! 4 = CHR ''-'' \<and> s ! 7 = CHR ''-''
     \<and> list_all (\<lambda>i. i = 4 \<or> i = 7 \<or> is_ascii_digit (s ! i)) [0..<length s]
     \<and> parsed_within (take 2 (drop 5 s)) 1 12 \<and> parsed_within (take 2 (drop 8 s)) 1 31"

definition valid_date_time :: "string \<Rightarrow> bool" where
  "valid_date_time s =
     (case split_once (CHR ''T'') s of
        None \<Rightarrow> False
      | Some (date, time) \<Rightarrow> valid_date date \<and> (ends_with ''Z'' time \<or> contains_text ''+'' time))"

section \<open>Values of a form\<close>

text \<open>\<open>schema.get(key).and_then(Value::as_u64).is_some_and(..)\<close> and its siblings.\<close>

definition some_and :: "'a option \<Rightarrow> ('a \<Rightarrow> bool) \<Rightarrow> bool" where
  "some_and x q = (case x of None \<Rightarrow> False | Some v \<Rightarrow> q v)"

definition key_u64 :: "(string \<times> json) list \<Rightarrow> string \<Rightarrow> u64 option" where
  "key_u64 es k = Option.bind (map_of es k) json_u64"

definition key_str :: "(string \<times> json) list \<Rightarrow> string \<Rightarrow> string option" where
  "key_str es k = Option.bind (map_of es k) json_str"

definition key_items :: "(string \<times> json) list \<Rightarrow> string \<Rightarrow> json list option" where
  "key_items es k = Option.bind (map_of es k) json_items"

definition key_f64 :: "(string \<times> json) list \<Rightarrow> string \<Rightarrow> f64 option" where
  "key_f64 es k = Option.bind (map_of es k) as_f64"

definition const_str :: "json \<Rightarrow> string option" where
  "const_str v = Option.bind (json_get ''const'' v) json_str"

definition f64_less :: "f64 \<Rightarrow> f64 \<Rightarrow> bool" where
  "f64_less a b \<longleftrightarrow> f64_le a b \<and> \<not> f64_le b a"

definition check_format :: "(string \<Rightarrow> bool) \<Rightarrow> string option \<Rightarrow> string \<Rightarrow> bool" where
  "check_format parses_url kind s \<longleftrightarrow>
     \<not> (kind = Some ''email'' \<and> \<not> valid_email s) \<and> \<not> (kind = Some ''uri'' \<and> \<not> parses_url s)
     \<and> \<not> (kind = Some ''date'' \<and> \<not> valid_date s) \<and> \<not> (kind = Some ''date-time'' \<and> \<not> valid_date_time s)"

definition validate_string :: "(string \<Rightarrow> bool) \<Rightarrow> (string \<times> json) list \<Rightarrow> json \<Rightarrow> (string, unit) res" where
  "validate_string parses_url schema v =
     rbind (ok_or (json_str v) ''GM_APPROVAL_RESPONSE_TYPE'') (\<lambda>s.
     let n = of_nat (length (utf8_chars s)) in
     rbind (ensure (\<not> (some_and (key_u64 schema ''minLength'') (\<lambda>m. n < m)
                      \<or> some_and (key_u64 schema ''maxLength'') (\<lambda>m. n > m)))
              ''GM_APPROVAL_RESPONSE_STRING_LENGTH'') (\<lambda>_.
     rbind (case key_items schema ''enum'' of
              None \<Rightarrow> Inr ()
            | Some cs \<Rightarrow> ensure (list_ex (\<lambda>c. json_str c = Some s) cs) ''GM_APPROVAL_RESPONSE_ENUM'') (\<lambda>_.
     rbind (case key_items schema ''oneOf'' of
              None \<Rightarrow> Inr ()
            | Some cs \<Rightarrow> ensure (list_ex (\<lambda>c. const_str c = Some s) cs) ''GM_APPROVAL_RESPONSE_ENUM'') (\<lambda>_.
       ensure (check_format parses_url (key_str schema ''format'') s) ''GM_APPROVAL_RESPONSE_FORMAT''))))"

text \<open>An integer is a number that is written as one: \<open>as_i64\<close> or \<open>as_u64\<close> reads it.\<close>

fun reads_integer :: "json \<Rightarrow> bool" where
  "reads_integer (JNum (PosInt n)) = True"
| "reads_integer (JNum (NegInt i)) = True"
| "reads_integer _ = False"

definition validate_number :: "(string \<times> json) list \<Rightarrow> json \<Rightarrow> bool \<Rightarrow> (string, unit) res" where
  "validate_number schema v integer =
     rbind (ok_or (as_f64 v) ''GM_APPROVAL_RESPONSE_TYPE'') (\<lambda>number.
     rbind (ensure (\<not> (\<not> is_finite number \<or> (integer \<and> \<not> reads_integer v))) ''GM_APPROVAL_RESPONSE_TYPE'') (\<lambda>_.
       ensure (\<not> (some_and (key_f64 schema ''minimum'') (\<lambda>m. f64_less number m)
                  \<or> some_and (key_f64 schema ''maximum'') (\<lambda>m. f64_less m number)))
         ''GM_APPROVAL_RESPONSE_RANGE''))"

text \<open>The choices of a list: \<open>enum\<close>, else the constants of \<open>anyOf\<close>, else of \<open>oneOf\<close>.\<close>

definition array_choices :: "(string \<times> json) list \<Rightarrow> string list option" where
  "array_choices items =
     (case key_items items ''enum'' of
        Some vs \<Rightarrow> Some (List.map_filter json_str vs)
      | None \<Rightarrow>
          map_option (List.map_filter const_str)
            (Option.bind (case map_of items ''anyOf'' of Some v \<Rightarrow> Some v | None \<Rightarrow> map_of items ''oneOf'') json_items))"

definition validate_string_array :: "(string \<times> json) list \<Rightarrow> json \<Rightarrow> (string, unit) res" where
  "validate_string_array schema v =
     rbind (ok_or (json_items v) ''GM_APPROVAL_RESPONSE_TYPE'') (\<lambda>vs.
     let n = of_nat (length vs) in
     rbind (ensure (\<not> (some_and (key_u64 schema ''minItems'') (\<lambda>m. n < m)
                      \<or> some_and (key_u64 schema ''maxItems'') (\<lambda>m. n > m)))
              ''GM_APPROVAL_RESPONSE_ARRAY_LENGTH'') (\<lambda>_.
     rbind (ok_or (Option.bind (map_of schema ''items'') json_entries) ''GM_APPROVAL_SCHEMA_INVALID'') (\<lambda>items.
     rbind (ok_or (array_choices items) ''GM_APPROVAL_SCHEMA_INVALID'') (\<lambda>choices.
       ensure (\<not> list_ex (\<lambda>x. case json_str x of None \<Rightarrow> True | Some s \<Rightarrow> s \<notin> set choices) vs)
         ''GM_APPROVAL_RESPONSE_ENUM''))))"

fun is_boolean :: "json \<Rightarrow> bool" where
  "is_boolean (JBool b) = True"
| "is_boolean _ = False"

definition validate_property :: "(string \<Rightarrow> bool) \<Rightarrow> (string \<times> json) list \<Rightarrow> json \<Rightarrow> (string, unit) res" where
  "validate_property parses_url schema v =
     (case key_str schema ''type'' of
        None \<Rightarrow> Inl ''GM_APPROVAL_RESPONSE_TYPE''
      | Some kind \<Rightarrow>
          if kind = ''string'' then validate_string parses_url schema v
          else if kind = ''number'' then validate_number schema v False
          else if kind = ''integer'' then validate_number schema v True
          else if kind = ''boolean'' \<and> is_boolean v then Inr ()
          else if kind = ''array'' then validate_string_array schema v
          else Inl ''GM_APPROVAL_RESPONSE_TYPE'')"

text \<open>The request is its serialized form.\<close>

definition validate_form_response :: "platform \<Rightarrow> (string \<Rightarrow> bool) \<Rightarrow> json \<Rightarrow> json \<Rightarrow> (string, unit) res" where
  "validate_form_response P parses_url request response =
     rbind (ensure (\<not> MAX_FORM_BYTES < length (json_to_vec P response)) ''GM_APPROVAL_RESPONSE_SIZE'') (\<lambda>_.
     rbind (ensure (Option.bind (json_get ''mode'' request) json_str = Some ''form'')
              ''GM_APPROVAL_URL_ELICITATION_DENIED'') (\<lambda>_.
     rbind (ok_or (Option.bind (json_get ''requestedSchema'' request) json_entries)
              ''GM_APPROVAL_SCHEMA_INVALID'') (\<lambda>schema.
     rbind (ok_or (json_entries response) ''GM_APPROVAL_RESPONSE_NOT_OBJECT'') (\<lambda>content.
     rbind (ok_or (Option.bind (map_of schema ''properties'') json_entries) ''GM_APPROVAL_SCHEMA_INVALID'') (\<lambda>properties.
     rbind (ensure (\<not> list_ex (\<lambda>(k, v). \<not> contains_key properties k) content)
              ''GM_APPROVAL_RESPONSE_UNKNOWN_PROPERTY'') (\<lambda>_.
     rbind (case key_items schema ''required'' of
              None \<Rightarrow> Inr ()
            | Some rs \<Rightarrow> ensure (\<not> list_ex (\<lambda>k. \<not> contains_key content k) (List.map_filter json_str rs))
                ''GM_APPROVAL_RESPONSE_REQUIRED_PROPERTY'') (\<lambda>_.
       try_each (\<lambda>(k, v).
         rbind (ok_or (Option.bind (map_of properties k) json_entries) ''GM_APPROVAL_SCHEMA_INVALID'') (\<lambda>property.
           validate_property parses_url property v)) content)))))))"

section \<open>Decisions\<close>

datatype elicit_action = AcceptForm | DeclineForm | CancelForm

record elicit_result =
  er_action :: elicit_action
  er_content :: "json option"

definition decision :: "elicit_action \<Rightarrow> json option \<Rightarrow> elicit_result" where
  "decision a content = \<lparr>er_action = a, er_content = content\<rparr>"

definition static_policy :: "platform \<Rightarrow> (string \<Rightarrow> bool) \<Rightarrow> json \<Rightarrow> json \<Rightarrow> (string, elicit_result) res" where
  "static_policy P parses_url request response =
     rbind (validate_form_response P parses_url request response) (\<lambda>_. Inr (decision AcceptForm (Some response)))"

text \<open>What reading one line of at most \<open>MAX_FORM_BYTES + 1\<close> bytes from the terminal gives.\<close>

datatype terminal_read = ReadTimedOut | ReadFailed | ReadLine string

record terminal =
  is_terminal :: bool
  terminal_line :: terminal_read

definition local_cli ::
  "platform \<Rightarrow> (string \<Rightarrow> bool) \<Rightarrow> (string \<Rightarrow> json option) \<Rightarrow> terminal \<Rightarrow> json \<Rightarrow> (string, elicit_result) res" where
  "local_cli P parses_url parse t request =
     (if \<not> is_terminal t then Inr (decision DeclineForm None)
      else
        (case terminal_line t of
           ReadTimedOut \<Rightarrow> Inl ''GM_APPROVAL_LOCAL_TIMEOUT''
         | ReadFailed \<Rightarrow> Inl ''GM_APPROVAL_LOCAL_READ''
         | ReadLine line \<Rightarrow>
             if length line = 0 \<or> MAX_FORM_BYTES < length line then Inl ''GM_APPROVAL_LOCAL_SIZE''
             else if str_trim line = ''decline'' then Inr (decision DeclineForm None)
             else if str_trim line = ''cancel'' then Inr (decision CancelForm None)
             else
               rbind (ok_or (parse (str_trim line)) ''GM_APPROVAL_LOCAL_JSON'') (\<lambda>content.
               rbind (validate_form_response P parses_url request content) (\<lambda>_.
                 Inr (decision AcceptForm (Some content))))))"

section \<open>The signed webhook\<close>

record webhook_response =
  wr_action :: elicit_action
  wr_content :: "json option"

definition sign :: "platform \<Rightarrow> (string \<Rightarrow> bytes \<Rightarrow> bytes) \<Rightarrow> string \<Rightarrow> bytes \<Rightarrow> string" where
  "sign P hmac secret body = ''sha256='' @ hex_encode P (hmac secret body)"

definition verify :: "platform \<Rightarrow> (string \<Rightarrow> bytes \<Rightarrow> bytes) \<Rightarrow> string \<Rightarrow> bytes \<Rightarrow> string \<Rightarrow> (string, unit) res" where
  "verify P hmac secret body supplied =
     rbind (ok_or (strip_prefix ''sha256='' supplied) ''GM_APPROVAL_WEBHOOK_SIGNATURE_INVALID'') (\<lambda>hexed.
     rbind (ok_or (hex_decode P hexed) ''GM_APPROVAL_WEBHOOK_SIGNATURE_INVALID'') (\<lambda>given.
     rbind (ok_or (Option.bind (strip_prefix ''sha256='' (sign P hmac secret body)) (hex_decode P))
              ''GM_APPROVAL_WEBHOOK_SIGNATURE_INVALID'') (\<lambda>expected.
       ensure (\<not> (length given \<noteq> length expected \<or> given \<noteq> expected)) ''GM_APPROVAL_WEBHOOK_SIGNATURE_INVALID'')))"

text \<open>The environment of one exchange, and what is posted.\<close>

record webhook_post =
  post_url :: full_url
  post_origin :: resolved_origin
  post_nonce :: string
  post_timestamp :: u64
  post_signature :: string
  post_body :: bytes

datatype exchange = ExchangeTimedOut | ExchangeFailed | Exchanged http_response

record approval_world =
  aw_secret :: "string option"
  aw_nonce :: string
  aw_clock :: "u64 option"
  aw_dns :: dns
  aw_post :: "webhook_post \<Rightarrow> exchange"
  aw_hmac :: "string \<Rightarrow> bytes \<Rightarrow> bytes"
  aw_http :: http_library
  aw_read :: "bytes \<Rightarrow> webhook_response option"
  aw_parse :: "string \<Rightarrow> json option"
  aw_parses_url :: "string \<Rightarrow> bool"
  aw_terminal :: terminal

definition response_header :: "approval_world \<Rightarrow> http_response \<Rightarrow> string \<Rightarrow> string option" where
  "response_header W r name = Option.bind (header_get (resp_headers r) name) (header_to_str (aw_http W))"

definition signed_body :: "approval_world \<Rightarrow> json \<Rightarrow> u64 \<Rightarrow> json" where
  "signed_body W request timestamp =
     json_object [(''nonce'', JStr (aw_nonce W)), (''request'', request), (''timestamp'', JNum (PosInt timestamp))]"

text \<open>What is read of the response to the post.\<close>

definition webhook_decision ::
  "platform \<Rightarrow> approval_world \<Rightarrow> json \<Rightarrow> string \<Rightarrow> http_response \<Rightarrow> (string, elicit_result) res" where
  "webhook_decision P W request secret response =
     rbind (ensure (is_success response) ''GM_APPROVAL_WEBHOOK_STATUS'') (\<lambda>_.
     rbind (ok_or (response_header W response ''x-gaugemesh-nonce'') ''GM_APPROVAL_WEBHOOK_NONCE_MISSING'') (\<lambda>response_nonce.
     rbind (ok_or (response_header W response ''x-gaugemesh-signature'') ''GM_APPROVAL_WEBHOOK_SIGNATURE_MISSING'') (\<lambda>signature.
     rbind (ensure (response_nonce = aw_nonce W) ''GM_APPROVAL_WEBHOOK_NONCE_MISMATCH'') (\<lambda>_.
     rbind (read_chunks MAX_WEBHOOK_BYTES ''GM_APPROVAL_WEBHOOK_RESPONSE_SIZE'' ''GM_APPROVAL_WEBHOOK_BODY'' []
              (resp_chunks response)) (\<lambda>body.
     rbind (verify P (aw_hmac W) secret body signature) (\<lambda>_.
     rbind (ok_or (aw_read W body) ''GM_APPROVAL_WEBHOOK_JSON'') (\<lambda>answer.
       (case wr_action answer of
          AcceptForm \<Rightarrow>
            rbind (ok_or (wr_content answer) ''GM_APPROVAL_WEBHOOK_CONTENT_MISSING'') (\<lambda>content.
            rbind (validate_form_response P (aw_parses_url W) request content) (\<lambda>_.
              Inr (decision AcceptForm (Some content))))
        | action \<Rightarrow>
            if wr_content answer = None then Inr (decision action None)
            else Inl ''GM_APPROVAL_WEBHOOK_UNEXPECTED_CONTENT''))))))))"

definition signed_webhook ::
  "platform \<Rightarrow> approval_world \<Rightarrow> json \<Rightarrow> full_url \<Rightarrow> (string, elicit_result) res" where
  "signed_webhook P W request u =
     rbind (ok_or (aw_secret W) ''GM_APPROVAL_WEBHOOK_SECRET_MISSING'') (\<lambda>secret.
     rbind (ensure (\<not> (length secret < 32 \<or> 4096 < length secret)) ''GM_APPROVAL_WEBHOOK_SECRET_INVALID'') (\<lambda>_.
     rbind (ok_or (aw_clock W) ''GM_APPROVAL_WEBHOOK_CLOCK'') (\<lambda>timestamp.
     let body = json_to_vec P (signed_body W request timestamp) in
     rbind (ensure (\<not> MAX_WEBHOOK_BYTES < length body) ''GM_APPROVAL_WEBHOOK_REQUEST_SIZE'') (\<lambda>_.
     rbind (map_err (\<lambda>_. ''GM_APPROVAL_WEBHOOK_ORIGIN'') (resolve (aw_dns W) (url.truncate u) False)) (\<lambda>orig.
       (case aw_post W \<lparr>post_url = u, post_origin = orig, post_nonce = aw_nonce W, post_timestamp = timestamp,
               post_signature = sign P (aw_hmac W) secret body, post_body = body\<rparr> of
          ExchangeTimedOut \<Rightarrow> Inl ''GM_APPROVAL_WEBHOOK_TIMEOUT''
        | ExchangeFailed \<Rightarrow> Inl ''GM_APPROVAL_WEBHOOK_SEND''
        | Exchanged response \<Rightarrow> webhook_decision P W request secret response))))))"

definition handle :: "platform \<Rightarrow> approval_world \<Rightarrow> approval_config \<Rightarrow> json \<Rightarrow> (string, elicit_result) res" where
  "handle P W approval request =
     (case approval of
        DenyApproval \<Rightarrow> Inr (decision DeclineForm None)
      | StaticPolicy response \<Rightarrow> static_policy P (aw_parses_url W) request response
      | LocalCli \<Rightarrow> local_cli P (aw_parses_url W) (aw_parse W) (aw_terminal W) request
      | SignedWebhook u env timeout \<Rightarrow> signed_webhook P W request u)"

section \<open>What an accepted answer is\<close>

text \<open>The typing of values by the schema of their property.\<close>

definition size_allowed :: "(string \<times> json) list \<Rightarrow> string \<Rightarrow> string \<Rightarrow> nat \<Rightarrow> bool" where
  "size_allowed es lo hi n \<longleftrightarrow>
     (\<forall>m. key_u64 es lo = Some m \<longrightarrow> m \<le> of_nat n) \<and> (\<forall>m. key_u64 es hi = Some m \<longrightarrow> of_nat n \<le> m)"

definition number_allowed :: "(string \<times> json) list \<Rightarrow> json_number \<Rightarrow> bool" where
  "number_allowed es n \<longleftrightarrow>
     (\<exists>x. as_f64 (JNum n) = Some x \<and> is_finite x
        \<and> (\<forall>m. key_f64 es ''minimum'' = Some m \<longrightarrow> \<not> f64_less x m)
        \<and> (\<forall>m. key_f64 es ''maximum'' = Some m \<longrightarrow> \<not> f64_less m x))"

inductive form_value :: "(string \<Rightarrow> bool) \<Rightarrow> (string \<times> json) list \<Rightarrow> json \<Rightarrow> bool" for parses_url where
  text_value: "key_str es ''type'' = Some ''string'' \<Longrightarrow>
     size_allowed es ''minLength'' ''maxLength'' (length (utf8_chars t)) \<Longrightarrow>
     (\<And>cs. key_items es ''enum'' = Some cs \<Longrightarrow> JStr t \<in> set cs) \<Longrightarrow>
     (\<And>cs. key_items es ''oneOf'' = Some cs \<Longrightarrow> \<exists>c \<in> set cs. json_get ''const'' c = Some (JStr t)) \<Longrightarrow>
     check_format parses_url (key_str es ''format'') t \<Longrightarrow> form_value parses_url es (JStr t)"
| number_value: "key_str es ''type'' = Some ''number'' \<Longrightarrow> number_allowed es n \<Longrightarrow> form_value parses_url es (JNum n)"
| integer_value: "key_str es ''type'' = Some ''integer'' \<Longrightarrow> number_allowed es n \<Longrightarrow>
     reads_integer (JNum n) \<Longrightarrow> form_value parses_url es (JNum n)"
| boolean_value: "key_str es ''type'' = Some ''boolean'' \<Longrightarrow> form_value parses_url es (JBool b)"
| choices_value: "key_str es ''type'' = Some ''array'' \<Longrightarrow> map_of es ''items'' = Some (JObj items) \<Longrightarrow>
     array_choices items = Some choices \<Longrightarrow> set ts \<subseteq> set choices \<Longrightarrow>
     size_allowed es ''minItems'' ''maxItems'' (length ts) \<Longrightarrow> form_value parses_url es (JArr (map JStr ts))"

inductive_simps form_value_simps:
  "form_value parses_url es JNull" "form_value parses_url es (JBool b)" "form_value parses_url es (JNum n)"
  "form_value parses_url es (JStr t)" "form_value parses_url es (JObj fs)" "form_value parses_url es (JArr vs)"

lemma some_and_iff: "some_and x q \<longleftrightarrow> (\<exists>v. x = Some v \<and> q v)"
  by (cases x) (simp_all add: some_and_def)

lemma texts_of_items: "k \<in> set (List.map_filter json_str rs) \<longleftrightarrow> JStr k \<in> set rs"
proof (induction rs)
  case (Cons v rs)
  then show ?case by (cases v) auto
qed simp

lemma const_str_Some: "const_str v = Some s \<longleftrightarrow> json_get ''const'' v = Some (JStr s)"
  by (simp add: const_str_def Option.bind_eq_Some_conv json_str_Some)

lemma when_present: "(case x of None \<Rightarrow> Inr () | Some v \<Rightarrow> f v) = Inr u \<longleftrightarrow> (\<forall>v. x = Some v \<longrightarrow> f v = Inr ())"
  by (cases x) auto

lemma size_allowed_ensure:
  "size_allowed es lo hi n \<longleftrightarrow>
     \<not> (some_and (key_u64 es lo) (\<lambda>m. of_nat n < m) \<or> some_and (key_u64 es hi) (\<lambda>m. of_nat n > m))"
  by (auto simp: size_allowed_def some_and_iff linorder_not_less)

lemma validate_string_iff:
  assumes "key_str es ''type'' = Some ''string''"
  shows "validate_string U es v = Inr () \<longleftrightarrow> form_value U es v"
proof (cases v)
  case (JStr t)
  have "list_ex (\<lambda>c. json_str c = Some t) cs \<longleftrightarrow> JStr t \<in> set cs" for cs
    by (auto simp: list_ex_iff json_str_Some)
  moreover have "list_ex (\<lambda>c. const_str c = Some t) cs \<longleftrightarrow> (\<exists>c \<in> set cs. json_get ''const'' c = Some (JStr t))" for cs
    by (simp add: list_ex_iff const_str_Some)
  ultimately show ?thesis
    using assms JStr
    by (simp add: validate_string_def Let_def rbind_Inr ensure_Inr when_present size_allowed_ensure form_value_simps)
qed (use assms in \<open>simp_all add: validate_string_def form_value_simps\<close>)

lemma validate_number_iff:
  assumes "key_str es ''type'' = Some (if integer then ''integer'' else ''number'')"
  shows "validate_number es v integer = Inr () \<longleftrightarrow> form_value U es v"
proof (cases "\<exists>n. v = JNum n")
  case True
  then obtain n where n: "v = JNum n" ..
  then obtain x where x: "as_f64 (JNum n) = Some x" using as_f64_number [of "JNum n"] by auto
  then show ?thesis using n assms
    by (auto simp: validate_number_def rbind_Inr ensure_Inr some_and_iff form_value_simps number_allowed_def
        split: if_splits)
next
  case False
  then have "as_f64 v = None" using as_f64_number [of v] by (cases "as_f64 v") auto
  with False assms show ?thesis by (cases v) (auto simp: validate_number_def form_value_simps split: if_splits)
qed

lemma all_choices:
  "\<not> list_ex (\<lambda>x. case json_str x of None \<Rightarrow> True | Some s \<Rightarrow> s \<notin> set choices) vs
   \<longleftrightarrow> (\<exists>ts. vs = map JStr ts \<and> set ts \<subseteq> set choices)"
proof (induction vs)
  case (Cons v vs)
  show ?case
  proof (cases v)
    case (JStr t)
    have "(\<exists>ts. JStr t # vs = map JStr ts \<and> set ts \<subseteq> set choices)
        \<longleftrightarrow> t \<in> set choices \<and> (\<exists>ts. vs = map JStr ts \<and> set ts \<subseteq> set choices)" (is "?l \<longleftrightarrow> ?r")
    proof
      assume ?r
      then obtain ts where "vs = map JStr ts" "set (t # ts) \<subseteq> set choices" by auto
      then show ?l by (intro exI [of _ "t # ts"]) simp
    qed (auto simp: Cons_eq_map_conv)
    with Cons JStr show ?thesis by simp
  qed (auto simp: Cons_eq_map_conv)
qed simp

lemma validate_string_array_iff:
  assumes "key_str es ''type'' = Some ''array''"
  shows "validate_string_array es v = Inr () \<longleftrightarrow> form_value U es v"
proof (cases v)
  case (JArr vs)
  then show ?thesis using assms
    by (auto simp: validate_string_array_def Let_def rbind_Inr ensure_Inr ok_or_Inr Option.bind_eq_Some_conv json_entries_Some
        form_value_simps all_choices size_allowed_ensure)
qed (use assms in \<open>simp_all add: validate_string_array_def form_value_simps\<close>)

lemma one_of_five: "k = a \<or> k = b \<or> k = c \<or> k = d \<or> k = e \<or> k \<notin> {a, b, c, d, e}"
  by blast

lemma validate_property_iff: "validate_property U es v = Inr () \<longleftrightarrow> form_value U es v"
proof (cases "key_str es ''type''")
  case None
  then show ?thesis by (cases v) (simp_all add: validate_property_def form_value_simps)
next
  case (Some kind)
  from one_of_five [of kind "''string''" "''number''" "''integer''" "''boolean''" "''array''"]
  show ?thesis
  proof (elim disjE)
    assume "kind = ''boolean''"
    with Some show ?thesis by (cases v) (simp_all add: validate_property_def form_value_simps)
  next
    assume "kind \<notin> {''string'', ''number'', ''integer'', ''boolean'', ''array''}"
    with Some show ?thesis by (cases v) (simp_all add: validate_property_def form_value_simps)
  qed (use Some in \<open>simp_all add: validate_property_def validate_string_iff validate_number_iff validate_string_array_iff\<close>)
qed

text \<open>
  C33: An answer is accepted exactly when it is an object of at most 16 KiB that is typed by the requested
  schema: each value has the type its property asks for, within its bounds, choices and format, no
  property is unknown and none that is required is missing; and only for a request with a form.
\<close>

theorem accepted_form_typed:
  "validate_form_response P U request response = Inr () \<longleftrightarrow>
     (\<exists>schema properties content.
        json_get ''mode'' request = Some (JStr ''form'') \<and> json_get ''requestedSchema'' request = Some (JObj schema)
        \<and> map_of schema ''properties'' = Some (JObj properties) \<and> response = JObj content
        \<and> length (json_to_vec P response) \<le> 16384
        \<and> (\<forall>(k, v) \<in> set content. \<exists>es. map_of properties k = Some (JObj es) \<and> form_value U es v)
        \<and> (\<forall>required k. map_of schema ''required'' = Some (JArr required) \<longrightarrow> JStr k \<in> set required
             \<longrightarrow> k \<in> fst ` set content))"
proof -
  have known: "\<not> list_ex (\<lambda>(k, v). \<not> contains_key ps k) content"
    if "\<forall>(k, v) \<in> set content. \<exists>es. map_of ps k = Some (JObj es) \<and> form_value U es v" for ps content :: "(string \<times> json) list"
    using that by (auto simp: list_ex_iff contains_key_def)
  have required: "\<not> list_ex (\<lambda>k. \<not> contains_key content k) (List.map_filter json_str rs)
      \<longleftrightarrow> (\<forall>k. JStr k \<in> set rs \<longrightarrow> k \<in> fst ` set content)" for content rs
    by (auto simp: list_ex_iff texts_of_items contains_key_def map_of_eq_None_iff)
  have typed: "(\<forall>e \<in> set content. (case e of (k, v) \<Rightarrow> rbind (ok_or (Option.bind (map_of ps k) json_entries) err)
        (\<lambda>property. validate_property U property v)) = Inr ())
      \<longleftrightarrow> (\<forall>(k, v) \<in> set content. \<exists>es. map_of ps k = Some (JObj es) \<and> form_value U es v)" for content ps err
    by (rule ball_cong) (auto simp: rbind_Inr ok_or_Inr Option.bind_eq_Some_conv json_entries_Some validate_property_iff)
  show ?thesis
    using known
    by (auto simp: validate_form_response_def required typed rbind_Inr ensure_Inr ok_or_Inr Option.bind_eq_Some_conv json_entries_Some
        json_str_Some json_items_Some key_items_def try_each_Inr when_present MAX_FORM_BYTES_def linorder_not_less)
qed

section \<open>Where an approval comes from\<close>

text \<open>The webhook's answer: a whole body of at most 64 KiB under the MAC of the configured secret.\<close>

definition webhook_said ::
  "platform \<Rightarrow> approval_world \<Rightarrow> full_url \<Rightarrow> elicit_action \<Rightarrow> json option \<Rightarrow> bool" where
  "webhook_said P W u action content \<longleftrightarrow>
     (\<exists>secret orig body signature.
        aw_secret W = Some secret \<and> 32 \<le> length secret
        \<and> resolve (aw_dns W) (url.truncate u) False = Inr orig
        \<and> hex_decode P signature = Some (aw_hmac W secret body)
        \<and> length body \<le> MAX_WEBHOOK_BYTES \<and> aw_read W body = Some \<lparr>wr_action = action, wr_content = content\<rparr>)"

fun approval_source :: "platform \<Rightarrow> approval_world \<Rightarrow> approval_config \<Rightarrow> json \<Rightarrow> bool" where
  "approval_source P W DenyApproval c = False"
| "approval_source P W (StaticPolicy response) c = (c = response)"
| "approval_source P W LocalCli c =
     (is_terminal (aw_terminal W)
      \<and> (\<exists>line. terminal_line (aw_terminal W) = ReadLine line \<and> length line \<le> MAX_FORM_BYTES
           \<and> aw_parse W (str_trim line) = Some c))"
| "approval_source P W (SignedWebhook u env timeout) c = webhook_said P W u AcceptForm (Some c)"

lemma verify_Inr:
  assumes "hex_roundtrip P" "verify P hmac secret body supplied = Inr x"
  shows "\<exists>hexed. supplied = ''sha256='' @ hexed \<and> hex_decode P hexed = Some (hmac secret body)"
proof -
  have "strip_prefix ''sha256='' (sign P hmac secret body) = Some (hex_encode P (hmac secret body))"
    unfolding sign_def by (rule strip_prefix_append)
  with assms show ?thesis by (auto simp: verify_def guard_simps hex_roundtrip_def dest!: strip_prefix_SomeD)
qed

lemma signed_webhook_Inr:
  assumes "hex_roundtrip P" "signed_webhook P W request u = Inr r"
  shows "webhook_said P W u (er_action r) (er_content r)
    \<and> (case er_action r of
         AcceptForm \<Rightarrow> \<exists>c. er_content r = Some c \<and> validate_form_response P (aw_parses_url W) request c = Inr ()
       | _ \<Rightarrow> er_content r = None)"
proof -
  from assms(2) obtain secret orig post
    where w: "aw_secret W = Some secret" "32 \<le> length secret" "resolve (aw_dns W) (url.truncate u) False = Inr orig"
      and x: "(case aw_post W post of
          ExchangeTimedOut \<Rightarrow> Inl ''GM_APPROVAL_WEBHOOK_TIMEOUT''
        | ExchangeFailed \<Rightarrow> Inl ''GM_APPROVAL_WEBHOOK_SEND''
        | Exchanged response \<Rightarrow> webhook_decision P W request secret response) = Inr r"
    by (auto simp: signed_webhook_def Let_def guard_simps not_less)
  from x obtain response where d: "webhook_decision P W request secret response = Inr r"
    by (cases "aw_post W post") auto
  from d obtain body signature answer
    where b: "read_chunks MAX_WEBHOOK_BYTES ''GM_APPROVAL_WEBHOOK_RESPONSE_SIZE'' ''GM_APPROVAL_WEBHOOK_BODY'' []
          (resp_chunks response) = Inr body"
      and v: "verify P (aw_hmac W) secret body signature = Inr ()" and a: "aw_read W body = Some answer"
      and r: "(case wr_action answer of
          AcceptForm \<Rightarrow>
            rbind (ok_or (wr_content answer) ''GM_APPROVAL_WEBHOOK_CONTENT_MISSING'') (\<lambda>content.
            rbind (validate_form_response P (aw_parses_url W) request content) (\<lambda>_.
              Inr (decision AcceptForm (Some content))))
        | action \<Rightarrow>
            if wr_content answer = None then Inr (decision action None)
            else Inl ''GM_APPROVAL_WEBHOOK_UNEXPECTED_CONTENT'') = Inr r"
    by (auto simp: webhook_decision_def guard_simps)
  obtain hexed where "hex_decode P hexed = Some (aw_hmac W secret body)" using verify_Inr [OF assms(1) v] by blast
  moreover have "length body \<le> MAX_WEBHOOK_BYTES" by (rule read_chunks_whole(3) [OF b])
  moreover have "answer = \<lparr>wr_action = er_action r, wr_content = er_content r\<rparr>"
    using r by (cases answer) (auto simp: decision_def guard_simps split: elicit_action.splits if_splits)
  ultimately have "webhook_said P W u (er_action r) (er_content r)" using w a by (auto simp: webhook_said_def)
  then show ?thesis using r by (auto simp: decision_def guard_simps split: elicit_action.splits if_splits)
qed


text \<open>
  The nonce of the response is a header outside the signed bytes: a signed body that answered one
  request is accepted for every other request its content fits.
\<close>

theorem signed_answer_replays:
  assumes "webhook_decision P W request secret response = Inr r"
    and "header_to_str (aw_http W) fresh = Some nonce"
    and "validate_form_response P (aw_parses_url W) other (the (er_content r)) = Inr ()"
  shows "webhook_decision P (W\<lparr>aw_nonce := nonce\<rparr>) other secret
    (response\<lparr>resp_headers := (''x-gaugemesh-nonce'', fresh) # resp_headers response\<rparr>) = Inr r"
  using assms
  by (auto simp: webhook_decision_def guard_simps response_header_def header_get_def is_success_def decision_def
      split: elicit_action.splits if_splits)

section \<open>A concrete form\<close>

definition sample_form :: json where
  "sample_form =
     JObj [(''mode'', JStr ''form''),
           (''requestedSchema'', JObj [(''properties'', JObj [(''name'', JObj [(''type'', JStr ''string''), (''minLength'', JNum (PosInt 2))])]),
                                       (''required'', JArr [JStr ''name''])])]"

definition sample_answer :: json where
  "sample_answer = JObj [(''name'', JStr ''Ada'')]"

definition sample_codec :: platform where
  "sample_codec = \<lparr>sha256 = (\<lambda>b. b), json_to_vec = (\<lambda>v. []), hex_encode = (\<lambda>b. b), hex_decode = Some, nfc = (\<lambda>s. s)\<rparr>"

definition sample_origin_url :: full_url where
  "sample_origin_url =
     \<lparr>url_scheme = ''https'', url_username = [], url_password = None, url_host = Some ''hook.test'',
      url_port = Some 443, url_fragment = None, url_query = None, url_path = ''/'', url_text = ''https://hook.test/''\<rparr>"

definition sample_approval_world :: approval_world where
  "sample_approval_world =
     \<lparr>aw_secret = Some (replicate 32 (CHR ''k'')), aw_nonce = ''n'', aw_clock = Some 0,
      aw_dns = (\<lambda>h p. Some [V4 0x08080808]),
      aw_post = (\<lambda>p. Exchanged \<lparr>resp_status = 200, resp_status_text = ''OK'', resp_content_length = None,
         resp_headers = [(''x-gaugemesh-nonce'', ''n''), (''x-gaugemesh-signature'', ''sha256=yes'')],
         resp_chunks = [Some ''yes'']\<rparr>),
      aw_hmac = (\<lambda>k b. b), aw_http = \<lparr>header_to_str = Some, parse_authority = (\<lambda>s. None)\<rparr>,
      aw_read = (\<lambda>b. Some \<lparr>wr_action = AcceptForm, wr_content = Some sample_answer\<rparr>),
      aw_parse = (\<lambda>s. None), aw_parses_url = (\<lambda>s. True),
      aw_terminal = \<lparr>is_terminal = False, terminal_line = ReadFailed\<rparr>\<rparr>"

lemma sample_form_accepts: "validate_form_response sample_codec U sample_form sample_answer = Inr ()"
  by (simp add: validate_form_response_def sample_form_def sample_answer_def sample_codec_def contains_key_def
      key_items_def validate_property_def key_str_def validate_string_def key_u64_def some_and_def Let_def check_format_def)

theorem accepted_form_typed_witness:
  "\<exists>es. map_of [(''name'', JObj [(''type'', JStr ''string''), (''minLength'', JNum (PosInt 2))])] ''name'' = Some (JObj es)
     \<and> form_value (\<lambda>s. True) es (JStr ''Ada'')"
  using iffD1 [OF accepted_form_typed sample_form_accepts [of "\<lambda>s. True"]]
  by (auto simp: sample_form_def sample_answer_def)


end
