(* ===== verification/Gateway.thy ===== *)
theory Gateway
  imports Upstream Database Task_Proxy Run_Driver
begin

text \<open>
  Models \<open>crates/gaugemesh/src/mcp.rs\<close>: the requests the gateway answers, which are composed of the
  federation, the leases, the upstream sources, the task proxy and the run driver. A tool call leads to
  an outcome: an answer, one request to an upstream source, or a call of \<open>TaskProxy::submit\<close> or
  \<open>RunDriver::call\<close>, modelled in their own theories. The clock and the identifier of a new lease are
  arguments; the types of \<open>rmcp\<close>, their schemas and annotations, and the fixture for the conformance
  suite are not modelled (\<open>conformance_fixture\<close> is false).
\<close>

section \<open>The lease store behind the gateway\<close>

record 's lease_backend =
  lb_put :: "capability_lease \<Rightarrow> 's \<Rightarrow> 's option"
  lb_get :: "string \<Rightarrow> 's \<Rightarrow> (unit, capability_lease option) res"
  lb_remove :: "string \<Rightarrow> 's \<Rightarrow> 's option"

definition memory_backend :: "lease_table lease_backend" where
  "memory_backend =
     \<lparr>lb_put = (\<lambda>l s. Some (mem_lease_put l s)), lb_get = (\<lambda>i s. Inr (mem_lease_get i s)),
      lb_remove = (\<lambda>i s. Some (mem_lease_remove i s))\<rparr>"

definition sqlite_backend :: "platform \<Rightarrow> lease_serde \<Rightarrow> lease_row list lease_backend" where
  "sqlite_backend P S =
     \<lparr>lb_put = (\<lambda>l s. Some (sql_lease_put P l s)),
      lb_get = (\<lambda>i s. map_err (\<lambda>_. ()) (sql_lease_get P S i s)),
      lb_remove = (\<lambda>i s. Some (sql_lease_remove i s))\<rparr>"

section \<open>State and outcomes\<close>

record 's gateway =
  gw_federation :: federation
  gw_leases :: 's
  gw_upstreams :: "upstream option"
  gw_mode :: capability_mode
  gw_cursor_key :: bytes
  gw_task_proxy :: bool
  gw_runs :: bool

definition configured ::
  "federation \<Rightarrow> upstream option \<Rightarrow> 's \<Rightarrow> bool \<Rightarrow> capability_mode \<Rightarrow> bytes \<Rightarrow> 's gateway" where
  "configured f ups leases task_routes mode key =
     \<lparr>gw_federation = f, gw_leases = leases, gw_upstreams = ups, gw_mode = mode, gw_cursor_key = key,
      gw_task_proxy = (task_routes \<and> (case ups of None \<Rightarrow> False | Some u \<Rightarrow> has_task_capable_source u)),
      gw_runs = False\<rparr>"

definition with_runs :: "'s gateway \<Rightarrow> 's gateway" where
  "with_runs g = g\<lparr>gw_runs := True\<rparr>"

datatype rpc_error =
    InvalidParameters string | InternalFailure string | InvalidRequest string | MethodNotFound | ResourceNotFound string

datatype tool_outcome =
    Refused rpc_error
  | ToolFailed string
  | Structured json
  | ForwardCall source_id call_request capability_id
  | SubmitToProxy federated_tool "(string \<times> json) list" json
  | RunAction "(string \<times> json) list"

text \<open>An outcome found before the end of a handler.\<close>

definition settle :: "(tool_outcome, tool_outcome) res \<Rightarrow> tool_outcome" where
  "settle r = (case r of Inl x \<Rightarrow> x | Inr x \<Rightarrow> x)"

section \<open>Pages\<close>

definition PAGE_SIZE :: nat where "PAGE_SIZE = 128"

definition page_start ::
  "platform \<Rightarrow> cursor_crypto \<Rightarrow> bytes \<Rightarrow> string \<Rightarrow> json list \<Rightarrow> string option \<Rightarrow> (rpc_error, nat) res" where
  "page_start P C key kind items request =
     (case request of
        None \<Rightarrow> Inr 0
      | Some text \<Rightarrow>
          rbind (map_err (\<lambda>e. InvalidParameters (federation_error_text e)) (open_cursor C text key)) (\<lambda>c.
          rbind (ensure (\<not> (cursor_snapshot c \<noteq> of_json P (JArr items) \<or> fcard (fmdom (source_positions c)) \<noteq> 1))
                   (InvalidParameters ''GM_CURSOR_STALE'')) (\<lambda>_.
            ok_or (case Option.bind (fmlookup (source_positions c) kind) parse_unsigned of
                     None \<Rightarrow> None
                   | Some n \<Rightarrow> if n < 2 ^ 64 \<and> n \<le> length items then Some n else None)
              (InvalidParameters ''GM_CURSOR_INVALID''))))"

definition page_cursor :: "platform \<Rightarrow> string \<Rightarrow> json list \<Rightarrow> nat \<Rightarrow> composite_cursor" where
  "page_cursor P kind items n =
     \<lparr>source_positions = fmupd kind (nat_text n) fmempty, cursor_snapshot = of_json P (JArr items)\<rparr>"

definition page ::
  "platform \<Rightarrow> cursor_crypto \<Rightarrow> bytes \<Rightarrow> string \<Rightarrow> json list \<Rightarrow> string option
   \<Rightarrow> (rpc_error, json list \<times> string option) res" where
  "page P C key kind items request =
     rbind (page_start P C key kind items request) (\<lambda>start.
     let finish = min (start + PAGE_SIZE) (length items); window = take (finish - start) (drop start items) in
     if finish < length items
     then rbind (map_err (\<lambda>e. InternalFailure (federation_error_text e))
                   (seal_cursor P C (page_cursor P kind items finish) key)) (\<lambda>text. Inr (window, Some text))
     else Inr (window, None))"

section \<open>Leases\<close>

fun effect_of_text :: "string option \<Rightarrow> side_effect_class option" where
  "effect_of_text None = None"
| "effect_of_text (Some s) =
     (if s = ''read_only'' then Some ReadOnly
      else if s = ''idempotent_write'' then Some IdempotentWrite
      else if s = ''non_idempotent_write'' then Some NonIdempotentWrite
      else None)"

fun collect_effects :: "side_effect_class fset \<Rightarrow> json list \<Rightarrow> (string, side_effect_class fset) res" where
  "collect_effects effects [] = Inr effects"
| "collect_effects effects (v # vs) =
     (case effect_of_text (json_str v) of
        None \<Rightarrow> Inl ''GM_LEASE_SIDE_EFFECT_INVALID''
      | Some e \<Rightarrow>
          if e |\<in>| effects then Inl ''GM_LEASE_SIDE_EFFECT_INVALID'' else collect_effects (finsert e effects) vs)"

definition explicit_side_effects :: "json option \<Rightarrow> (string, side_effect_class fset) res" where
  "explicit_side_effects value =
     (case value of
        None \<Rightarrow> Inr {|ReadOnly|}
      | Some v \<Rightarrow>
          rbind (ok_or (json_items v) ''GM_LEASE_SIDE_EFFECT_INVALID'') (\<lambda>vs.
          rbind (ensure (\<not> (vs = [] \<or> 3 < length vs)) ''GM_LEASE_SIDE_EFFECT_INVALID'') (\<lambda>_.
            collect_effects {||} vs)))"

definition lease_ttl :: "json option \<Rightarrow> (string, u64) res" where
  "lease_ttl value =
     (case value of
        None \<Rightarrow> Inr 60000
      | Some v \<Rightarrow>
          (case json_u64 v of
             None \<Rightarrow> Inl ''GM_LEASE_LIMIT_INVALID''
           | Some n \<Rightarrow> if 1 \<le> n \<and> n \<le> 600000 then Inr n else Inl ''GM_LEASE_LIMIT_INVALID''))"

definition named_tools :: "federation \<Rightarrow> json list \<Rightarrow> federated_tool list" where
  "named_tools f aliases =
     List.map_filter (\<lambda>a. case fed_tool a f of Inr t \<Rightarrow> Some t | Inl _ \<Rightarrow> None) (List.map_filter json_str aliases)"

definition lease_request ::
  "scoped_identity \<Rightarrow> (string \<times> json) list \<Rightarrow> federation
   \<Rightarrow> (tool_outcome, federated_tool list \<times> side_effect_class fset \<times> u64) res" where
  "lease_request identity args f =
     rbind (ok_or (Option.bind (map_of args ''aliases'') json_items) (ToolFailed ''GM_LEASE_CAPABILITY_OUTSIDE_CONE'')) (\<lambda>aliases.
     rbind (ensure (\<not> (aliases = [] \<or> 32 < length aliases)) (ToolFailed ''GM_LEASE_LIMIT_INVALID'')) (\<lambda>_.
     let tools = named_tools f aliases in
     rbind (ensure (\<not> (length tools \<noteq> length aliases \<or> tools = [])) (ToolFailed ''GM_LEASE_CAPABILITY_OUTSIDE_CONE'')) (\<lambda>_.
     rbind (map_err ToolFailed (explicit_side_effects (map_of args ''sideEffects''))) (\<lambda>effects.
     rbind (ensure (\<not> fBex effects (\<lambda>e. \<not> identity_authorizes_effect identity e))
              (ToolFailed ''GM_LEASE_SIDE_EFFECT_SCOPE_REQUIRED'')) (\<lambda>_.
     rbind (ensure (\<not> list_ex (\<lambda>t. ft_side_effect t |\<notin>| effects) tools)
              (ToolFailed ''GM_LEASE_SIDE_EFFECT_OUTSIDE_CONE'')) (\<lambda>_.
     rbind (map_err ToolFailed (lease_ttl (map_of args ''ttlMs''))) (\<lambda>ttl.
       Inr (tools, effects, ttl))))))))"

definition issued_lease ::
  "platform \<Rightarrow> string \<Rightarrow> scoped_identity \<Rightarrow> federated_tool list \<Rightarrow> side_effect_class fset \<Rightarrow> u64 \<Rightarrow> u64 \<Rightarrow> capability_lease" where
  "issued_lease P fresh identity tools effects ttl now =
     issue_with_side_effects P
       \<lparr>lease_id = fresh, lease_principal = si_principal identity, lease_tenant = si_tenant identity,
        request_identity = ''mcp-request'', capabilities = map ft_identity tools, lease_scope = {||},
        expires_at = saturating_add now ttl, lease_money = 0, lease_tokens = 4096, lease_retries = 1,
        side_effects = effects, manifest = default_digest\<rparr>"

definition lease_json_answer :: "platform \<Rightarrow> capability_lease \<Rightarrow> u64 \<Rightarrow> json" where
  "lease_json_answer P l ttl =
     json_object
       [(''leaseId'', JStr (lease_id l)), (''manifestDigest'', digest_json P (manifest l)),
        (''expiresInMs'', u64_json ttl),
        (''capabilities'', JArr (map (\<lambda>c. digest_json P (capability_digest P c)) (capabilities l)))]"

definition clock_failure :: tool_outcome where
  "clock_failure = Refused (InternalFailure ''GM_CLOCK_INVALID'')"

definition meta_lease ::
  "platform \<Rightarrow> 's lease_backend \<Rightarrow> scoped_identity \<Rightarrow> u64 option \<Rightarrow> string \<Rightarrow> (string \<times> json) list \<Rightarrow> 's gateway
   \<Rightarrow> tool_outcome \<times> 's gateway" where
  "meta_lease P B identity now fresh args g =
     (case rbind (lease_request identity args (gw_federation g)) (\<lambda>(tools, effects, ttl).
             rbind (ok_or now clock_failure) (\<lambda>now. Inr (issued_lease P fresh identity tools effects ttl now, ttl))) of
        Inl x \<Rightarrow> (x, g)
      | Inr (l, ttl) \<Rightarrow>
          (case lb_put B l (gw_leases g) of
             None \<Rightarrow> (ToolFailed ''GM_STORAGE_WRITE'', g)
           | Some s \<Rightarrow> (Structured (lease_json_answer P l ttl), g\<lparr>gw_leases := s\<rparr>)))"

text \<open>\<open>arguments.get(key).and_then(Value::as_str).unwrap_or("")\<close>\<close>

definition text_argument :: "(string \<times> json) list \<Rightarrow> string \<Rightarrow> string" where
  "text_argument args k = (case argument_str args k of None \<Rightarrow> [] | Some s \<Rightarrow> s)"

definition stored_grant :: "'s lease_backend \<Rightarrow> string \<Rightarrow> 's gateway \<Rightarrow> (tool_outcome, capability_lease option) res" where
  "stored_grant B i g = map_err (\<lambda>_. Refused (InternalFailure ''GM_STORAGE_READ'')) (lb_get B i (gw_leases g))"

definition meta_release ::
  "'s lease_backend \<Rightarrow> scoped_identity \<Rightarrow> (string \<times> json) list \<Rightarrow> 's gateway \<Rightarrow> tool_outcome \<times> 's gateway" where
  "meta_release B identity args g =
     (let i = text_argument args ''leaseId'' in
      case stored_grant B i g of
        Inl x \<Rightarrow> (x, g)
      | Inr found \<Rightarrow>
          let released = (case found of
                None \<Rightarrow> False
              | Some l \<Rightarrow> lease_principal l = si_principal identity \<and> lease_tenant l = si_tenant identity) in
          if found \<noteq> None \<and> \<not> released then (ToolFailed ''GM_LEASE_PRINCIPAL_MISMATCH'', g)
          else
            (case lb_remove B i (gw_leases g) of
               None \<Rightarrow> (Refused (InternalFailure ''GM_STORAGE_WRITE''), g)
             | Some s \<Rightarrow> (Structured (json_object [(''released'', JBool released)]), g\<lparr>gw_leases := s\<rparr>)))"

section \<open>Calls\<close>

text \<open>The answer of a tool without an upstream.\<close>

definition tool_result :: "platform \<Rightarrow> federated_tool \<Rightarrow> (string \<times> json) list option \<Rightarrow> json" where
  "tool_result P t args =
     json_object
       [(''capabilityId'', digest_json P (capability_digest P (ft_identity t))),
        (''source'', JStr (cap_source (ft_identity t))),
        (''query'', JStr (case args of None \<Rightarrow> [] | Some es \<Rightarrow> text_argument es ''query'')),
        (''value'', ft_fixture_result t)]"

definition invoke_tool :: "platform \<Rightarrow> federated_tool \<Rightarrow> (string \<times> json) list option \<Rightarrow> 's gateway \<Rightarrow> tool_outcome" where
  "invoke_tool P t args g =
     (case gw_upstreams g of
        None \<Rightarrow> Structured (tool_result P t args)
      | Some u \<Rightarrow>
          if \<not> contains_source u (cap_source (ft_identity t))
          then Refused (InternalFailure ''GM_MCP_UPSTREAM_SOURCE_UNAVAILABLE'')
          else ForwardCall (cap_source (ft_identity t))
                 \<lparr>cr_name = ft_native_name t, cr_arguments = map_option JObj args, cr_meta = None\<rparr> (ft_identity t))"

definition found_tool :: "federation \<Rightarrow> string \<Rightarrow> (tool_outcome, federated_tool) res" where
  "found_tool f a = map_err (\<lambda>e. ToolFailed (federation_error_text e)) (fed_tool a f)"

text \<open>The lease of a call, and its authority at this moment.\<close>

definition authorized_lease ::
  "platform \<Rightarrow> 's lease_backend \<Rightarrow> scoped_identity \<Rightarrow> u64 option \<Rightarrow> string \<Rightarrow> capability_id \<Rightarrow> side_effect_class \<Rightarrow> 's gateway
   \<Rightarrow> (tool_outcome, unit) res" where
  "authorized_lease P B identity now i c e g =
     rbind (stored_grant B i g) (\<lambda>found.
     rbind (ok_or found (ToolFailed ''GM_LEASE_CAPABILITY_OUTSIDE_CONE'')) (\<lambda>l.
     rbind (ok_or now clock_failure) (\<lambda>now.
       map_err ToolFailed (authorize_current_invocation P l identity c e now))))"

definition meta_invoke ::
  "platform \<Rightarrow> 's lease_backend \<Rightarrow> scoped_identity \<Rightarrow> u64 option \<Rightarrow> (string \<times> json) list \<Rightarrow> 's gateway \<Rightarrow> tool_outcome" where
  "meta_invoke P B identity now args g =
     settle
       (rbind (found_tool (gw_federation g) (text_argument args ''alias'')) (\<lambda>t.
        rbind (authorized_lease P B identity now (text_argument args ''leaseId'') (ft_identity t) (ft_side_effect t) g) (\<lambda>_.
          Inr (invoke_tool P t (Option.bind (map_of args ''arguments'') json_entries) g))))"

definition proxy_supports :: "source_id \<Rightarrow> 's gateway \<Rightarrow> bool" where
  "proxy_supports s g = (case gw_upstreams g of None \<Rightarrow> False | Some u \<Rightarrow> source_supports_tasks u s)"

definition meta_submit ::
  "platform \<Rightarrow> 's lease_backend \<Rightarrow> scoped_identity \<Rightarrow> bool \<Rightarrow> u64 option \<Rightarrow> (string \<times> json) list \<Rightarrow> 's gateway \<Rightarrow> tool_outcome" where
  "meta_submit P B identity supports_tasks now args g =
     settle
       (rbind (ensure supports_tasks (ToolFailed ''GM_TASK_CLIENT_CAPABILITY_REQUIRED'')) (\<lambda>_.
        rbind (ensure (gw_task_proxy g) (ToolFailed ''GM_TASK_DURABLE_ROUTE_UNAVAILABLE'')) (\<lambda>_.
        rbind (ok_or (Option.bind (map_of args ''arguments'') json_entries) (ToolFailed ''GM_TASK_ARGUMENTS_REQUIRED'')) (\<lambda>tool_args.
        rbind (ok_or (map_of args ''task'') (ToolFailed ''GM_TASK_SUBMISSION_REQUIRED'')) (\<lambda>task.
        rbind (found_tool (gw_federation g) (text_argument args ''alias'')) (\<lambda>t.
        rbind (ensure (proxy_supports (cap_source (ft_identity t)) g) (ToolFailed ''GM_TASK_UPSTREAM_UNSUPPORTED'')) (\<lambda>_.
        rbind (authorized_lease P B identity now (text_argument args ''leaseId'') (ft_identity t) NonIdempotentWrite g) (\<lambda>_.
          Inr (SubmitToProxy t tool_args task)))))))))"

definition meta_run :: "bool \<Rightarrow> (string \<times> json) list \<Rightarrow> 's gateway \<Rightarrow> tool_outcome" where
  "meta_run supports_tasks args g =
     (if \<not> (gw_runs g \<and> gw_task_proxy g) then ToolFailed ''GM_RUN_DURABLE_TASKS_REQUIRED''
      else if \<not> supports_tasks then ToolFailed ''GM_TASK_CLIENT_CAPABILITY_REQUIRED''
      else RunAction args)"

definition meta_search :: "platform \<Rightarrow> text_tables \<Rightarrow> (string \<times> json) list \<Rightarrow> federation \<Rightarrow> tool_outcome" where
  "meta_search P T args f =
     (let limit = (case Option.bind (map_of args ''limit'') json_u64 of None \<Rightarrow> 8 | Some n \<Rightarrow> unat n) in
      Structured (json_object [(''results'', JArr (map (\<lambda>t. json_object
        [(''alias'', JStr (ft_alias t)), (''capabilityId'', digest_json P (capability_digest P (ft_identity t))),
         (''source'', JStr (cap_source (ft_identity t))), (''description'', JStr (ft_description t))])
        (search T (text_argument args ''query'') limit f)))]))"

definition meta_describe :: "platform \<Rightarrow> (string \<times> json) list \<Rightarrow> federation \<Rightarrow> tool_outcome" where
  "meta_describe P args f =
     settle
       (rbind (found_tool f (text_argument args ''alias'')) (\<lambda>t.
          Inr (Structured (json_object
            [(''alias'', JStr (ft_alias t)), (''capabilityId'', digest_json P (capability_digest P (ft_identity t))),
             (''schemaDigest'', digest_json P (cap_schema_digest (ft_identity t))),
             (''source'', JStr (cap_source (ft_identity t))), (''sideEffect'', JStr (side_effect_name (ft_side_effect t))),
             (''inputSchema'', ft_input_schema t)]))))"

text \<open>What a request carries: the identity, whether the client supports tasks, the clock, a fresh identifier.\<close>

record call_context =
  cc_identity :: scoped_identity
  cc_supports_tasks :: bool
  cc_now :: "u64 option"
  cc_fresh :: string

definition call_meta_tool ::
  "platform \<Rightarrow> text_tables \<Rightarrow> 's lease_backend \<Rightarrow> call_context \<Rightarrow> string \<Rightarrow> (string \<times> json) list option \<Rightarrow> 's gateway
   \<Rightarrow> tool_outcome \<times> 's gateway" where
  "call_meta_tool P T B c name arguments g =
     (let args = (case arguments of None \<Rightarrow> [] | Some es \<Rightarrow> es); identity = cc_identity c; f = gw_federation g in
      if name = ''gaugemesh_run'' then (meta_run (cc_supports_tasks c) args g, g)
      else if name = ''gaugemesh_search'' then (meta_search P T args f, g)
      else if name = ''gaugemesh_describe'' then (meta_describe P args f, g)
      else if name = ''gaugemesh_lease'' then meta_lease P B identity (cc_now c) (cc_fresh c) args g
      else if name = ''gaugemesh_invoke'' then (meta_invoke P B identity (cc_now c) args g, g)
      else if name = ''gaugemesh_submit'' then (meta_submit P B identity (cc_supports_tasks c) (cc_now c) args g, g)
      else if name = ''gaugemesh_release'' then meta_release B identity args g
      else (ToolFailed ''GM_CAPABILITY_NOT_FOUND'', g))"

text \<open>\<open>ServerHandler::call_tool\<close>\<close>

definition direct_call ::
  "platform \<Rightarrow> string \<Rightarrow> (string \<times> json) list option \<Rightarrow> (string \<times> json) list option \<Rightarrow> 's gateway \<Rightarrow> tool_outcome" where
  "direct_call P name arguments meta g =
     (if gw_mode g = LeaseMode then Refused (InvalidRequest ''GM_CAPABILITY_LEASE_REQUIRED'')
      else
        (case fed_tool name (gw_federation g) of
           Inl e \<Rightarrow> Refused (InvalidParameters (federation_error_text e))
         | Inr t \<Rightarrow>
             (case gw_upstreams g of
                None \<Rightarrow> Structured (tool_result P t arguments)
              | Some u \<Rightarrow>
                  if contains_source u (cap_source (ft_identity t))
                  then ForwardCall (cap_source (ft_identity t))
                         \<lparr>cr_name = ft_native_name t, cr_arguments = map_option JObj arguments, cr_meta = meta\<rparr> (ft_identity t)
                  else Structured (tool_result P t arguments))))"

definition gateway_call ::
  "platform \<Rightarrow> text_tables \<Rightarrow> 's lease_backend \<Rightarrow> call_context \<Rightarrow> string \<Rightarrow> (string \<times> json) list option
   \<Rightarrow> (string \<times> json) list option \<Rightarrow> 's gateway \<Rightarrow> tool_outcome \<times> 's gateway" where
  "gateway_call P T B c name arguments meta g =
     (if starts_with ''gaugemesh_'' name then call_meta_tool P T B c name arguments g
      else (direct_call P name arguments meta g, g))"

section \<open>Requests, resources and prompts\<close>

definition local_identity :: scoped_identity where
  "local_identity = \<lparr>si_principal = ''local-demo'', si_tenant = ''local'', si_scopes = []\<rparr>"

text \<open>The identity the authentication attached to the HTTP request, if any.\<close>

definition identity_from_context :: "scoped_identity option \<Rightarrow> scoped_identity" where
  "identity_from_context i = (case i of None \<Rightarrow> local_identity | Some x \<Rightarrow> x)"

definition context_supports_tasks :: "bool option \<Rightarrow> string option \<Rightarrow> bool" where
  "context_supports_tasks client_tasks negotiated \<longleftrightarrow> client_tasks = Some True \<and> negotiated = Some ''2026-07-28''"

definition expose_task_submission :: "bool \<Rightarrow> 's gateway \<Rightarrow> bool" where
  "expose_task_submission supports_tasks g \<longleftrightarrow> gw_task_proxy g \<and> supports_tasks"

definition meta_tool_names :: "string list" where
  "meta_tool_names =
     [''gaugemesh_search'', ''gaugemesh_describe'', ''gaugemesh_lease'', ''gaugemesh_invoke'', ''gaugemesh_submit'',
      ''gaugemesh_release'', ''gaugemesh_run'']"

definition listed_meta_tools :: "bool \<Rightarrow> 's gateway \<Rightarrow> string list" where
  "listed_meta_tools supports_tasks g =
     (let expose = expose_task_submission supports_tasks g in
      filter (\<lambda>n. (expose \<or> n \<noteq> ''gaugemesh_submit'') \<and> (expose \<and> gw_runs g \<or> n \<noteq> ''gaugemesh_run'')) meta_tool_names)"

text \<open>The documents of the tools are built by \<open>rmcp\<close>: \<open>tool_doc\<close> and \<open>meta_doc\<close>.\<close>

definition list_tools ::
  "platform \<Rightarrow> cursor_crypto \<Rightarrow> (federated_tool \<Rightarrow> json) \<Rightarrow> (string \<Rightarrow> json) \<Rightarrow> bool \<Rightarrow> string option \<Rightarrow> 's gateway
   \<Rightarrow> (rpc_error, json list \<times> string option) res" where
  "list_tools P C tool_doc meta_doc supports_tasks request g =
     page P C (gw_cursor_key g) ''tools''
       ((if gw_mode g = Transparent then map tool_doc (btree_values (fed_tools (gw_federation g))) else [])
        @ map meta_doc (listed_meta_tools supports_tasks g)) request"

definition list_resources ::
  "platform \<Rightarrow> cursor_crypto \<Rightarrow> (federated_resource \<Rightarrow> json) \<Rightarrow> string option \<Rightarrow> 's gateway
   \<Rightarrow> (rpc_error, json list \<times> string option) res" where
  "list_resources P C doc request g =
     page P C (gw_cursor_key g) ''resources'' (map doc (btree_values (fed_resources (gw_federation g)))) request"

definition list_resource_templates ::
  "platform \<Rightarrow> cursor_crypto \<Rightarrow> (federated_template \<Rightarrow> json) \<Rightarrow> string option \<Rightarrow> 's gateway
   \<Rightarrow> (rpc_error, json list \<times> string option) res" where
  "list_resource_templates P C doc request g =
     page P C (gw_cursor_key g) ''resource_templates'' (map doc (btree_values (fed_templates (gw_federation g)))) request"

definition list_prompts ::
  "platform \<Rightarrow> cursor_crypto \<Rightarrow> (federated_prompt \<Rightarrow> json) \<Rightarrow> string option \<Rightarrow> 's gateway
   \<Rightarrow> (rpc_error, json list \<times> string option) res" where
  "list_prompts P C doc request g =
     page P C (gw_cursor_key g) ''prompts'' (map doc (btree_values (fed_prompts (gw_federation g)))) request"

text \<open>Which sources a listing could not include.\<close>

definition discovery_meta :: "'s gateway \<Rightarrow> json option" where
  "discovery_meta g =
     (let incomplete = (case gw_upstreams g of None \<Rightarrow> [] | Some u \<Rightarrow> incomplete_sources u) in
      if incomplete = [] then None
      else Some (json_object [(''dev.gaugemesh/discovery'', json_object
             [(''complete'', JBool False), (''unavailableSources'', JArr (map JStr incomplete))])]))"

text \<open>The operations on tasks need the client's support and the proxy.\<close>

definition task_guard :: "bool \<Rightarrow> 's gateway \<Rightarrow> (rpc_error, unit) res" where
  "task_guard supports_tasks g =
     rbind (ensure supports_tasks MethodNotFound) (\<lambda>_. ensure (gw_task_proxy g) MethodNotFound)"

definition gateway_get_task ::
  "proxy \<Rightarrow> bool \<Rightarrow> string \<Rightarrow> identity \<Rightarrow> 's gateway \<Rightarrow> (rpc_error, get_task_result prog) res" where
  "gateway_get_task X supports_tasks task i g = rbind (task_guard supports_tasks g) (\<lambda>_. Inr (Task_Proxy.get_task X task i))"

definition gateway_update_task ::
  "proxy \<Rightarrow> bool \<Rightarrow> string \<Rightarrow> identity \<Rightarrow> 's gateway \<Rightarrow> (rpc_error, unit prog) res" where
  "gateway_update_task X supports_tasks task i g = rbind (task_guard supports_tasks g) (\<lambda>_. Inr (Task_Proxy.update_task X task i))"

definition gateway_cancel_task ::
  "proxy \<Rightarrow> bool \<Rightarrow> string \<Rightarrow> identity \<Rightarrow> 's gateway \<Rightarrow> (rpc_error, unit prog) res" where
  "gateway_cancel_task X supports_tasks task i g = rbind (task_guard supports_tasks g) (\<lambda>_. Inr (Task_Proxy.cancel_task X task i))"

datatype read_outcome =
    ReadRefused rpc_error
  | ReadHere string string
  | ReadForward source_id string string capability_id

definition read_local :: "string \<Rightarrow> federation \<Rightarrow> read_outcome" where
  "read_local uri f =
     (case fed_resource uri f of
        Inl e \<Rightarrow> ReadRefused (ResourceNotFound ''GM_RESOURCE_NOT_FOUND'')
      | Inr r \<Rightarrow> ReadHere (fr_contents r) (fr_virtual_uri r))"

definition gateway_read :: "string \<Rightarrow> 's gateway \<Rightarrow> read_outcome" where
  "gateway_read uri g =
     (let f = gw_federation g in
      case gw_upstreams g of
        None \<Rightarrow> read_local uri f
      | Some u \<Rightarrow>
          (case fed_resource uri f of
             Inr r \<Rightarrow> ReadForward (cap_source (fr_identity r)) (fr_native_uri r) uri (fr_identity r)
           | Inl _ \<Rightarrow>
               (case resolve_template uri f of
                  Some (t, native) \<Rightarrow> ReadForward (cap_source (tm_identity t)) native uri (tm_identity t)
                | None \<Rightarrow> read_local uri f)))"

datatype prompt_outcome =
    PromptRefused rpc_error
  | PromptText string string
  | PromptForward source_id string capability_id

fun render_prompt :: "(string \<times> json) list option \<Rightarrow> string list \<Rightarrow> string \<Rightarrow> (rpc_error, string) res" where
  "render_prompt args [] rendered = Inr rendered"
| "render_prompt args (a # as) rendered =
     rbind (ok_or (Option.bind args (\<lambda>es. argument_str es a)) (InvalidParameters ''GM_PROMPT_ARGUMENT_REQUIRED'')) (\<lambda>v.
       render_prompt args as (str_replace (''{{'' @ a @ ''}}'') v rendered))"

definition gateway_prompt :: "string \<Rightarrow> (string \<times> json) list option \<Rightarrow> 's gateway \<Rightarrow> prompt_outcome" where
  "gateway_prompt name args g =
     (case fed_prompt name (gw_federation g) of
        Inl e \<Rightarrow> PromptRefused (InvalidParameters ''GM_PROMPT_NOT_FOUND'')
      | Inr p \<Rightarrow>
          if (case gw_upstreams g of None \<Rightarrow> False | Some u \<Rightarrow> contains_source u (cap_source (fp_identity p)))
          then PromptForward (cap_source (fp_identity p)) (fp_native_name p) (fp_identity p)
          else
            (case render_prompt args (fp_arguments p) (fp_template p) of
               Inl e \<Rightarrow> PromptRefused e
             | Inr rendered \<Rightarrow> PromptText rendered (fp_description p)))"

section \<open>Answers from upstream\<close>

text \<open>The conservation entry that a forwarded result carries in its metadata.\<close>

definition bind_result_meta ::
  "platform \<Rightarrow> (string \<times> json) list option \<Rightarrow> capability_id \<Rightarrow> bool \<Rightarrow> bool \<Rightarrow> bool \<Rightarrow> (string \<times> json) list" where
  "bind_result_meta P meta c result_type ttl cache_scope =
     btree_insert ''dev.gaugemesh/conservation''
       (json_object
         [(''capabilityId'', digest_json P (capability_digest P c)), (''source'', JStr (cap_source c)),
          (''schemaDigest'', digest_json P (cap_schema_digest c)), (''resultTypePreserved'', JBool result_type),
          (''ttlMsPreserved'', JBool ttl), (''cacheScopePreserved'', JBool cache_scope),
          (''requiredSemanticLosses'', JArr [])])
       (case meta of None \<Rightarrow> [] | Some es \<Rightarrow> es)"

datatype resource_contents = TextContents string string | BlobContents string string | OtherContents json

record read_result =
  rr_contents :: "resource_contents list"
  rr_meta :: "(string \<times> json) list option"
  rr_result_type :: "string option"
  rr_ttl_ms :: "u64 option"
  rr_cache_scope :: "string option"

fun virtualize_contents :: "string \<Rightarrow> resource_contents \<Rightarrow> resource_contents" where
  "virtualize_contents uri (TextContents u t) = TextContents uri t"
| "virtualize_contents uri (BlobContents u b) = BlobContents uri b"
| "virtualize_contents uri (OtherContents v) = OtherContents v"

definition virtualize_resource_response :: "platform \<Rightarrow> string \<Rightarrow> capability_id \<Rightarrow> read_result \<Rightarrow> read_result" where
  "virtualize_resource_response P uri c r =
     r\<lparr>rr_contents := map (virtualize_contents uri) (rr_contents r),
       rr_meta := Some (bind_result_meta P (rr_meta r) c (rr_result_type r \<noteq> None) (rr_ttl_ms r \<noteq> None) (rr_cache_scope r \<noteq> None))\<rparr>"

section \<open>Authority of a call\<close>

text \<open>
  A stored lease covers an effect on a capability for the caller at this moment, and the caller's present
  scopes allow the effect.
\<close>

definition covered ::
  "platform \<Rightarrow> 's lease_backend \<Rightarrow> call_context \<Rightarrow> 's gateway \<Rightarrow> capability_id \<Rightarrow> side_effect_class \<Rightarrow> bool" where
  "covered P B c g cap e \<longleftrightarrow>
     (\<exists>i l t. lb_get B i (gw_leases g) = Inr (Some l) \<and> cc_now c = Some t \<and> t < expires_at l
        \<and> lease_principal l = si_principal (cc_identity c) \<and> lease_tenant l = si_tenant (cc_identity c)
        \<and> manifest l = manifest_digest P l \<and> cap \<in> set (capabilities l) \<and> e |\<in>| side_effects l
        \<and> identity_authorizes_effect (cc_identity c) e)"

lemma authorized_covered:
  assumes "authorized_lease P B (cc_identity c) (cc_now c) i cap e g = Inr u"
  shows "covered P B c g cap e"
proof -
  from assms obtain l t where "lb_get B i (gw_leases g) = Inr (Some l)" "cc_now c = Some t"
      "authorize_current_invocation P l (cc_identity c) cap e t = Inr ()"
    by (auto simp: authorized_lease_def stored_grant_def guard_simps)
  moreover from this(3) have "authorize_invocation P l (si_principal (cc_identity c)) (si_tenant (cc_identity c)) cap e t = Inr ()"
      "identity_authorizes_effect (cc_identity c) e"
    by (auto simp: authorize_current_invocation_def guard_simps)
  moreover from this(1) have "find (\<lambda>c. same_native c cap) (capabilities l) = Some cap" "t < expires_at l"
      "lease_principal l = si_principal (cc_identity c)" "lease_tenant l = si_tenant (cc_identity c)"
      "manifest l = manifest_digest P l" "e |\<in>| side_effects l"
    by (auto simp: authorize_invocation_def guard_simps split: if_splits)
  moreover have "cap \<in> set (capabilities l)" using find_Some_first [OF \<open>find _ _ = Some cap\<close>] by simp
  ultimately show ?thesis unfolding covered_def by blast
qed

lemma map_err_Inl: "map_err f r = Inl x \<longleftrightarrow> (\<exists>e. r = Inl e \<and> x = f e)"
  by (cases r) auto

lemma ok_or_Inl: "ok_or v e = Inl x \<longleftrightarrow> v = None \<and> x = e"
  by (cases v) auto

lemma settle_simps [simp]: "settle (Inl x) = x" "settle (Inr x) = x"
  by (simp_all add: settle_def)

text \<open>An outcome that leaves the gateway.\<close>

fun leaves :: "tool_outcome \<Rightarrow> bool" where
  "leaves (ForwardCall s q i) = True"
| "leaves (SubmitToProxy t a v) = True"
| "leaves (RunAction a) = True"
| "leaves _ = False"

text \<open>What such an outcome may be.\<close>

fun permitted_call :: "platform \<Rightarrow> 's lease_backend \<Rightarrow> call_context \<Rightarrow> bool \<Rightarrow> 's gateway \<Rightarrow> tool_outcome \<Rightarrow> bool" where
  "permitted_call P B c leased g (ForwardCall s q i) \<longleftrightarrow>
     (\<exists>a t u. fed_tool a (gw_federation g) = Inr t \<and> i = ft_identity t \<and> s = cap_source i \<and> cr_name q = ft_native_name t
        \<and> gw_upstreams g = Some u \<and> contains_source u s \<and> (leased \<longrightarrow> covered P B c g i (ft_side_effect t)))"
| "permitted_call P B c leased g (SubmitToProxy t a v) \<longleftrightarrow>
     (\<exists>x. fed_tool x (gw_federation g) = Inr t) \<and> cc_supports_tasks c \<and> gw_task_proxy g
     \<and> proxy_supports (cap_source (ft_identity t)) g \<and> covered P B c g (ft_identity t) NonIdempotentWrite"
| "permitted_call P B c leased g (RunAction a) \<longleftrightarrow> cc_supports_tasks c \<and> gw_task_proxy g \<and> gw_runs g"
| "permitted_call P B c leased g _ \<longleftrightarrow> True"

lemma early_permitted [simp]:
  "permitted_call P B c leased g (ToolFailed e)" "permitted_call P B c leased g (Refused r)"
  "permitted_call P B c leased g clock_failure" "permitted_call P B c leased g (Structured v)"
  by (simp_all add: clock_failure_def)

lemma authorized_early:
  "authorized_lease P B i n l cap e g = Inl x \<Longrightarrow> \<not> leaves x"
  by (auto simp: authorized_lease_def stored_grant_def rbind_Inl clock_failure_def map_err_Inl ok_or_Inl)

lemma found_tool_early: "found_tool f a = Inl x \<Longrightarrow> \<not> leaves x"
  by (auto simp: found_tool_def map_err_def split: sum.splits)

lemma not_leaving_permitted: "\<not> leaves x \<Longrightarrow> permitted_call P B c leased g x"
  by (cases x) simp_all

lemma meta_invoke_permitted:
  "permitted_call P B c leased g (meta_invoke P B (cc_identity c) (cc_now c) args g)"
proof (cases "found_tool (gw_federation g) (text_argument args ''alias'')")
  case (Inl x)
  then show ?thesis by (simp add: meta_invoke_def found_tool_early not_leaving_permitted)
next
  case (Inr t)
  let ?auth = "authorized_lease P B (cc_identity c) (cc_now c) (text_argument args ''leaseId'') (ft_identity t) (ft_side_effect t) g"
  show ?thesis
  proof (cases ?auth)
    case (Inl x)
    with Inr show ?thesis by (simp add: meta_invoke_def authorized_early not_leaving_permitted)
  next
    case (Inr u)
    then have "covered P B c g (ft_identity t) (ft_side_effect t)" by (rule authorized_covered)
    moreover have "fed_tool (text_argument args ''alias'') (gw_federation g) = Inr t"
      using \<open>found_tool _ _ = Inr t\<close> by (simp add: found_tool_def map_err_Inr)
    ultimately show ?thesis
      using Inr \<open>found_tool _ _ = Inr t\<close> by (auto simp: meta_invoke_def invoke_tool_def split: option.splits)
  qed
qed

lemma meta_submit_permitted:
  "permitted_call P B c leased g (meta_submit P B (cc_identity c) (cc_supports_tasks c) (cc_now c) args g)"
  (is "permitted_call P B c leased g ?x")
proof (cases "leaves ?x")
  case True
  then obtain t where "found_tool (gw_federation g) (text_argument args ''alias'') = Inr t"
      "cc_supports_tasks c" "gw_task_proxy g" "proxy_supports (cap_source (ft_identity t)) g"
      "authorized_lease P B (cc_identity c) (cc_now c) (text_argument args ''leaseId'') (ft_identity t) NonIdempotentWrite g = Inr ()"
      "\<exists>a v. ?x = SubmitToProxy t a v"
    by (auto simp: meta_submit_def settle_def rbind_def ensure_def ok_or_def dest: authorized_early found_tool_early
        split: sum.splits option.splits if_splits)
  then show ?thesis using authorized_covered by (fastforce simp: found_tool_def map_err_Inr)
qed (rule not_leaving_permitted)

lemma meta_run_permitted: "permitted_call P B c leased g (meta_run (cc_supports_tasks c) args g)"
  by (simp add: meta_run_def)

lemma meta_describe_permitted: "permitted_call P B c leased g (meta_describe P args f)"
  by (auto simp: meta_describe_def settle_def rbind_def dest: found_tool_early intro: not_leaving_permitted split: sum.splits)

lemma lease_request_early: "lease_request i args f = Inl x \<Longrightarrow> \<not> leaves x"
  by (auto simp: lease_request_def Let_def rbind_Inl ok_or_Inl ensure_Inl map_err_Inl)

lemma meta_lease_stays: "meta_lease P B i n fresh args g = (x, g') \<Longrightarrow> \<not> leaves x"
  by (auto simp: meta_lease_def rbind_Inl ok_or_Inl clock_failure_def dest: lease_request_early
      split: sum.splits option.splits)

lemma meta_release_stays: "meta_release B i args g = (x, g') \<Longrightarrow> \<not> leaves x"
  by (auto simp: meta_release_def stored_grant_def Let_def map_err_def split: sum.splits option.splits if_splits)

lemma meta_search_permitted: "permitted_call P B c leased g (meta_search P T args f)"
  by (simp add: meta_search_def Let_def)

lemma call_meta_tool_permitted: "permitted_call P B c leased g (fst (call_meta_tool P T B c name args g))"
proof -
  obtain x g' where l: "meta_lease P B (cc_identity c) (cc_now c) (cc_fresh c) (case args of None \<Rightarrow> [] | Some es \<Rightarrow> es) g = (x, g')"
    by fastforce
  obtain y h where r: "meta_release B (cc_identity c) (case args of None \<Rightarrow> [] | Some es \<Rightarrow> es) g = (y, h)" by fastforce
  from meta_lease_stays [OF l] meta_release_stays [OF r]
  have "permitted_call P B c leased g x" "permitted_call P B c leased g y" by (simp_all add: not_leaving_permitted)
  then show ?thesis
    by (simp add: call_meta_tool_def Let_def l r meta_run_permitted meta_search_permitted meta_describe_permitted
        meta_invoke_permitted meta_submit_permitted)
qed

lemma direct_call_permitted:
  "permitted_call P B c (gw_mode g = LeaseMode) g (direct_call P name args meta g)"
  by (auto simp: direct_call_def fed_tool_def ok_or_def split: option.split)

lemma meta_tool_keeps:
  "leaves (fst (call_meta_tool P T B c name args g)) \<Longrightarrow> snd (call_meta_tool P T B c name args g) = g"
  by (auto simp: call_meta_tool_def Let_def meta_lease_stays [OF prod.collapse [symmetric]]
      meta_release_stays [OF prod.collapse [symmetric]] split: if_splits)

text \<open>
  C27: Whatever a client asks, a tool is only called through the gateway at its own source and under its
  own name, and, when leases are required or the call is made through one, only under a stored, intact,
  unexpired lease of the caller's principal and tenant that covers the capability and its effect, and
  only while the caller's present scopes allow that effect. Durable tasks need such a lease for a
  non-idempotent write. Whatever leaves the gateway changes no lease.
\<close>

theorem gateway_call_authorized:
  assumes "gateway_call P T B c name args meta g = (x, g')"
  shows "permitted_call P B c (gw_mode g = LeaseMode \<or> starts_with ''gaugemesh_'' name) g x
    \<and> (if leaves x then g' = g else True)"
proof (cases "starts_with ''gaugemesh_'' name")
  case True
  with assms have "call_meta_tool P T B c name args g = (x, g')" by (simp add: gateway_call_def)
  with True call_meta_tool_permitted [of P B c True g T name args] meta_tool_keeps [of P T B c name args g]
  show ?thesis by simp
next
  case False
  with assms direct_call_permitted [of P B c g name args meta] show ?thesis by (auto simp: gateway_call_def)
qed

section \<open>The leases of the gateway\<close>

text \<open>A lease that the caller may be granted: its own terms, effects its scopes allow, a bounded life.\<close>

definition grants :: "platform \<Rightarrow> federation \<Rightarrow> scoped_identity \<Rightarrow> capability_lease \<Rightarrow> bool" where
  "grants P f identity l \<longleftrightarrow>
     (\<exists>fresh tools effects ttl now. l = issued_lease P fresh identity tools effects ttl now
        \<and> length tools \<le> 32 \<and> 1 \<le> ttl \<and> ttl \<le> 600000
        \<and> (\<forall>t \<in> set tools. (\<exists>a. fed_tool a f = Inr t) \<and> ft_side_effect t |\<in>| effects)
        \<and> fBall effects (identity_authorizes_effect identity))"

lemma named_tools_registered: "t \<in> set (named_tools f aliases) \<Longrightarrow> \<exists>a. fed_tool a f = Inr t"
  by (auto simp: named_tools_def List.map_filter_def split: sum.splits)

lemma lease_ttl_Inr: "lease_ttl v = Inr n \<Longrightarrow> 1 \<le> n \<and> n \<le> 600000"
  by (auto simp: lease_ttl_def split: option.splits if_splits)

lemma lease_request_grants:
  assumes "lease_request identity args f = Inr (tools, effects, ttl)"
  shows "grants P f identity (issued_lease P fresh identity tools effects ttl now)"
proof -
  from assms obtain aliases where "tools = named_tools f aliases" "length tools \<le> 32" "lease_ttl (map_of args ''ttlMs'') = Inr ttl"
      "fBall effects (identity_authorizes_effect identity)" "\<forall>t \<in> set tools. ft_side_effect t |\<in>| effects"
    by (auto simp: lease_request_def Let_def guard_simps list_ex_iff)
  then show ?thesis using named_tools_registered lease_ttl_Inr unfolding grants_def by blast
qed

locale gateway_leases =
  fixes B :: "'s lease_backend"
    and look :: "string \<Rightarrow> 's \<Rightarrow> capability_lease option"
    and storable :: "capability_lease \<Rightarrow> bool"
  assumes put_law: "lb_put B l s = Some s' \<Longrightarrow> storable l \<Longrightarrow> look i s' = (if i = lease_id l then Some l else look i s)"
    and get_law: "lb_get B i s = Inr x \<Longrightarrow> x = look i s"
    and remove_law: "lb_remove B j s = Some s' \<Longrightarrow> look i s' = (if i = j then None else look i s)"
begin

definition own :: "call_context \<Rightarrow> capability_lease \<Rightarrow> bool" where
  "own c l \<longleftrightarrow> lease_principal l = si_principal (cc_identity c) \<and> lease_tenant l = si_tenant (cc_identity c)"

definition step_of :: "platform \<Rightarrow> call_context \<Rightarrow> 's gateway \<Rightarrow> 's gateway \<Rightarrow> bool" where
  "step_of P c g g' \<longleftrightarrow> gw_federation g' = gw_federation g \<and>
     ((\<forall>i. look i (gw_leases g') = look i (gw_leases g))
      \<or> (\<exists>l. grants P (gw_federation g) (cc_identity c) l \<and> lease_id l = cc_fresh c
           \<and> (\<forall>i. look i (gw_leases g') = (if i = lease_id l then Some l else look i (gw_leases g))))
      \<or> (\<exists>j. pred_option (own c) (look j (gw_leases g))
           \<and> (\<forall>i. look i (gw_leases g') = (if i = j then None else look i (gw_leases g)))))"

lemma step_of_same: "step_of P c g g"
  by (simp add: step_of_def)

lemma lease_step:
  assumes "meta_lease P B (cc_identity c) n (cc_fresh c) args g = (x, g')"
    and "\<And>l. grants P (gw_federation g) (cc_identity c) l \<Longrightarrow> storable l"
  shows "step_of P c g g'"
proof (cases "g' = g")
  case False
  with assms(1) obtain tools effects ttl t s
    where r: "lease_request (cc_identity c) args (gw_federation g) = Inr (tools, effects, ttl)"
      and s: "lb_put B (issued_lease P (cc_fresh c) (cc_identity c) tools effects ttl t) (gw_leases g) = Some s"
      and g: "g' = g\<lparr>gw_leases := s\<rparr>"
    by (auto simp: meta_lease_def rbind_Inr ok_or_Inr split: sum.splits option.splits)
  let ?l = "issued_lease P (cc_fresh c) (cc_identity c) tools effects ttl t"
  have granted: "grants P (gw_federation g) (cc_identity c) ?l" by (rule lease_request_grants [OF r])
  have "lease_id ?l = cc_fresh c" by (simp add: issued_lease_def issue_with_side_effects_def Let_def)
  with granted put_law [OF s assms(2) [OF granted]] show ?thesis by (auto simp: step_of_def g)
qed (simp add: step_of_same)

lemma release_step:
  assumes "meta_release B (cc_identity c) args g = (x, g')"
  shows "step_of P c g g'"
proof (cases "g' = g")
  case False
  with assms obtain found s where f: "lb_get B (text_argument args ''leaseId'') (gw_leases g) = Inr found"
      and "pred_option (own c) found" and s: "lb_remove B (text_argument args ''leaseId'') (gw_leases g) = Some s"
      and g: "g' = g\<lparr>gw_leases := s\<rparr>"
    by (auto simp: meta_release_def stored_grant_def Let_def own_def map_err_Inr
        split: sum.splits option.splits if_splits)
  with get_law [OF f] remove_law [OF s] show ?thesis by (auto simp: step_of_def)
qed (simp add: step_of_same)

lemma call_step:
  assumes "gateway_call P T B c name args meta g = (x, g')"
    and "\<And>l. grants P (gw_federation g) (cc_identity c) l \<Longrightarrow> storable l"
  shows "step_of P c g g'"
proof (cases "g' = g")
  case False
  let ?args = "case args of None \<Rightarrow> [] | Some es \<Rightarrow> es"
  from assms(1) False consider
      "meta_lease P B (cc_identity c) (cc_now c) (cc_fresh c) ?args g = (x, g')"
    | "meta_release B (cc_identity c) ?args g = (x, g')"
    by (auto simp: gateway_call_def call_meta_tool_def Let_def split: if_splits)
  then show ?thesis by cases (auto intro: lease_step release_step assms(2))
qed (simp add: step_of_same)

end

interpretation memory_gateway: gateway_leases memory_backend mem_lease_get "\<lambda>_. True"
  by unfold_locales (auto simp: memory_backend_def memory_leases.get_put memory_leases.get_remove)

lemma stored_lease_Inr: "sql_lease_get P S i db = Inr x \<Longrightarrow> stored_lease P S i db = x"
  by (simp add: stored_lease_def)

interpretation sqlite_gateway: gateway_leases "sqlite_backend P S" "stored_lease P S" "\<lambda>l. lease_laws P S \<and> lease_storable l" for P S
  by unfold_locales
    (auto simp: sqlite_backend_def sqlite_leases.get_put sqlite_leases.get_remove map_err_Inr stored_lease_Inr)

lemma change_own:
  assumes "gateway_call P T memory_backend c name args meta g = (x, g')"
    and "mem_lease_get i (gw_leases g') \<noteq> mem_lease_get i (gw_leases g)"
  shows "(case mem_lease_get i (gw_leases g') of
      Some l \<Rightarrow> i = cc_fresh c \<and> grants P (gw_federation g) (cc_identity c) l
    | None \<Rightarrow> \<exists>l. mem_lease_get i (gw_leases g) = Some l
        \<and> lease_principal l = si_principal (cc_identity c) \<and> lease_tenant l = si_tenant (cc_identity c))"
proof -
  have "memory_gateway.step_of P c g g'" by (rule memory_gateway.call_step [OF assms(1)]) simp
  then consider "mem_lease_get i (gw_leases g') = mem_lease_get i (gw_leases g)"
    | l where "grants P (gw_federation g) (cc_identity c) l" "lease_id l = cc_fresh c"
        "mem_lease_get i (gw_leases g') = (if i = lease_id l then Some l else mem_lease_get i (gw_leases g))"
    | j where "pred_option (memory_gateway.own c) (mem_lease_get j (gw_leases g))"
        "mem_lease_get i (gw_leases g') = (if i = j then None else mem_lease_get i (gw_leases g))"
    unfolding memory_gateway.step_of_def by blast
  then show ?thesis
  proof cases
    case 3
    then have j: "i = j" "mem_lease_get i (gw_leases g') = None" using assms(2) by (auto split: if_splits)
    with assms(2) obtain l where "mem_lease_get i (gw_leases g) = Some l" by (cases "mem_lease_get i (gw_leases g)") auto
    with 3(1) j show ?thesis by (simp add: memory_gateway.own_def)
  qed (use assms(2) in \<open>simp_all split: if_splits\<close>)
qed

text \<open>
  A call changes the leases in memory only by granting one to its own caller under the fresh
  identifier, with effects the caller's scopes allow, capabilities of the federation and at most ten
  minutes to live, or by removing one lease of its own caller.
\<close>

theorem lease_changes_own:
  assumes "gateway_call P T memory_backend c name args meta g = (x, g')"
    and "mem_lease_get i (gw_leases g') \<noteq> mem_lease_get i (gw_leases g)"
  shows "(case mem_lease_get i (gw_leases g') of
      Some l \<Rightarrow> i = cc_fresh c \<and> grants P (gw_federation g) (cc_identity c) l
    | None \<Rightarrow> \<exists>l. mem_lease_get i (gw_leases g) = Some l
        \<and> lease_principal l = si_principal (cc_identity c) \<and> lease_tenant l = si_tenant (cc_identity c))"
  using assms by (rule change_own)

section \<open>Every stored lease was granted\<close>

inductive gateway_reachable :: "platform \<Rightarrow> text_tables \<Rightarrow> 's lease_backend \<Rightarrow> 's gateway \<Rightarrow> 's gateway \<Rightarrow> bool"
  for P T B g0 where
  at_start: "gateway_reachable P T B g0 g0"
| after_call: "gateway_reachable P T B g0 g \<Longrightarrow> gateway_call P T B c name args meta g = (x, g')
     \<Longrightarrow> gateway_reachable P T B g0 g'"

lemma reachable_grants:
  assumes "gateway_reachable P T memory_backend g0 g" "gw_leases g0 = fmempty"
  shows "gw_federation g = gw_federation g0
    \<and> (\<forall>i l. mem_lease_get i (gw_leases g) = Some l \<longrightarrow> (\<exists>identity. grants P (gw_federation g0) identity l))"
  using assms
proof (induction rule: gateway_reachable.induct)
  case at_start
  then show ?case by (simp add: mem_lease_get_def)
next
  case (after_call g c name args meta x g')
  have "memory_gateway.step_of P c g g'" by (rule memory_gateway.call_step [OF after_call.hyps(2)]) simp
  then have same: "gw_federation g' = gw_federation g" by (simp add: memory_gateway.step_of_def)
  have "\<exists>identity. grants P (gw_federation g0) identity l" if "mem_lease_get i (gw_leases g') = Some l" for i l
  proof (cases "mem_lease_get i (gw_leases g') = mem_lease_get i (gw_leases g)")
    case True
    with that after_call show ?thesis by auto
  next
    case False
    from change_own [OF after_call.hyps(2) False] that after_call show ?thesis by auto
  qed
  with same after_call show ?case by auto
qed


section \<open>Listing everything, page by page\<close>

fun read_pages :: "nat \<Rightarrow> platform \<Rightarrow> cursor_crypto \<Rightarrow> bytes \<Rightarrow> string \<Rightarrow> json list \<Rightarrow> string option \<Rightarrow> json list list option" where
  "read_pages 0 P C key kind items request = None"
| "read_pages (Suc k) P C key kind items request =
     (case page P C key kind items request of
        Inl e \<Rightarrow> None
      | Inr (window, None) \<Rightarrow> Some [window]
      | Inr (window, Some t) \<Rightarrow> map_option (\<lambda>ws. window # ws) (read_pages k P C key kind items (Some t)))"

text \<open>What the pages rely on: every cursor into the items can be sealed, and opens again.\<close>

definition pages_open :: "platform \<Rightarrow> cursor_crypto \<Rightarrow> bytes \<Rightarrow> string \<Rightarrow> json list \<Rightarrow> bool" where
  "pages_open P C key kind items \<longleftrightarrow> length items < 2 ^ 64 \<and>
     (\<forall>n < length items. 0 < n \<and> 128 dvd n \<longrightarrow> (\<exists>t. seal_cursor P C (page_cursor P kind items n) key = Inr t
        \<and> open_cursor C t key = Inr (page_cursor P kind items n)))"

lemma page_start_sealed:
  assumes "n \<le> length items" "length items < 2 ^ 64" "open_cursor C t key = Inr (page_cursor P kind items n)"
  shows "page_start P C key kind items (Some t) = Inr n"
  using assms by (simp add: page_start_def page_cursor_def parse_nat_text fcard.rep_eq)

lemma page_start_stale:
  assumes "open_cursor C t key = Inr (page_cursor P kind other n)" "of_json P (JArr other) \<noteq> of_json P (JArr items)"
  shows "page_start P C key kind items (Some t) = Inl (InvalidParameters ''GM_CURSOR_STALE'')"
  using assms by (simp add: page_start_def page_cursor_def)

lemma read_pages_from:
  assumes "pages_open P C key kind items" "start \<le> length items" "128 dvd start" "page_start P C key kind items request = Inr start"
    and "length items - start < k * 128"
  shows "\<exists>ws. read_pages k P C key kind items request = Some ws \<and> concat ws = drop start items
    \<and> list_all (\<lambda>w. length w \<le> 128) ws"
  using assms(2-5)
proof (induction k arbitrary: start request)
  case (Suc k)
  let ?finish = "min (start + PAGE_SIZE) (length items)"
  let ?window = "take (?finish - start) (drop start items)"
  show ?case
  proof (cases "?finish < length items")
    case False
    with Suc.prems show ?thesis by (simp add: page_def PAGE_SIZE_def Let_def)
  next
    case True
    moreover from True Suc.prems(2) have next_page: "128 dvd ?finish" by (auto simp: min_def PAGE_SIZE_def)
    moreover from True have "0 < ?finish" by (simp add: PAGE_SIZE_def)
    ultimately obtain t where t: "seal_cursor P C (page_cursor P kind items ?finish) key = Inr t"
        and o: "open_cursor C t key = Inr (page_cursor P kind items ?finish)"
      using assms(1) unfolding pages_open_def by blast
    have "page_start P C key kind items (Some t) = Inr ?finish"
      using assms(1) o by (intro page_start_sealed) (simp_all add: pages_open_def)
    moreover have "length items - ?finish < k * 128" using Suc.prems True by (simp add: PAGE_SIZE_def)
    ultimately obtain ws where ws: "read_pages k P C key kind items (Some t) = Some ws" "concat ws = drop ?finish items"
        "list_all (\<lambda>w. length w \<le> 128) ws"
      using next_page Suc.IH [of ?finish "Some t"] by auto
    have "page P C key kind items request = Inr (?window, Some t)"
      using Suc.prems(3) True t by (simp add: page_def Let_def)
    moreover have "?window @ drop ?finish items = drop start items"
      using Suc.prems(1) by (simp add: min_def drop_drop [symmetric] del: drop_drop)
        (metis append_take_drop_id le_add_diff_inverse drop_drop add.commute)
    ultimately show ?thesis using ws by (simp add: PAGE_SIZE_def)
  qed
qed simp

text \<open>
  C29: Following the cursors from the first page reads every item once and in order, at most 128 to a
  page, and ends; a cursor of another listing is refused as stale.
\<close>

theorem listing_complete:
  assumes "pages_open P C key kind items"
  shows "(\<exists>ws. read_pages (Suc (length items)) P C key kind items None = Some ws \<and> concat ws = items
      \<and> list_all (\<lambda>w. length w \<le> 128) ws)
    \<and> (\<forall>t other n. open_cursor C t key = Inr (page_cursor P kind other n)
         \<longrightarrow> of_json P (JArr other) = of_json P (JArr items)
           \<or> page P C key kind items (Some t) = Inl (InvalidParameters ''GM_CURSOR_STALE''))"
proof -
  have "page_start P C key kind items None = Inr 0" by (simp add: page_start_def)
  from read_pages_from [OF assms _ _ this, of "Suc (length items)"] have
    "\<exists>ws. read_pages (Suc (length items)) P C key kind items None = Some ws \<and> concat ws = items
      \<and> list_all (\<lambda>w. length w \<le> 128) ws" by simp
  moreover have "page P C key kind items (Some t) = Inl (InvalidParameters ''GM_CURSOR_STALE'')"
    if "open_cursor C t key = Inr (page_cursor P kind other n)" "of_json P (JArr other) \<noteq> of_json P (JArr items)" for t other n
    using page_start_stale [OF that] by (simp add: page_def)
  ultimately show ?thesis by blast
qed

section \<open>Reads\<close>

text \<open>
  A read that leaves the gateway names a resource of the federation, or an instance of one of its
  templates, and goes to the source of that capability; whatever comes back is shown under the URI that
  was asked for.
\<close>

theorem reads_stay_virtual:
  "(case gateway_read uri g of
      ReadForward s native shown c \<Rightarrow> shown = uri \<and> s = cap_source c \<and> gw_upstreams g \<noteq> None
        \<and> ((\<exists>r. fed_resource uri (gw_federation g) = Inr r \<and> c = fr_identity r \<and> native = fr_native_uri r)
           \<or> (\<exists>t. resolve_template uri (gw_federation g) = Some (t, native) \<and> c = tm_identity t))
    | ReadHere text shown \<Rightarrow> \<exists>r. fed_resource uri (gw_federation g) = Inr r \<and> text = fr_contents r \<and> shown = fr_virtual_uri r
    | ReadRefused e \<Rightarrow> fed_resource uri (gw_federation g) = Inl FederationNotFound)
   \<and> rr_contents (virtualize_resource_response P uri c r) = map (virtualize_contents uri) (rr_contents r)
   \<and> {u. \<exists>t. TextContents u t \<in> set (rr_contents (virtualize_resource_response P uri c r))} \<subseteq> {uri}
   \<and> {u. \<exists>b. BlobContents u b \<in> set (rr_contents (virtualize_resource_response P uri c r))} \<subseteq> {uri}"
proof -
  have shown: "TextContents u t = virtualize_contents uri x \<Longrightarrow> u = uri" for u t x by (cases x) simp_all
  have blob: "BlobContents u t = virtualize_contents uri x \<Longrightarrow> u = uri" for u t x by (cases x) simp_all
  have "fed_resource uri f = Inl e \<Longrightarrow> e = FederationNotFound" for f e by (simp add: fed_resource_def ok_or_Inl)
  then show ?thesis
    by (auto simp: gateway_read_def read_local_def Let_def virtualize_resource_response_def
        dest: shown blob split: option.split sum.split)
qed

section \<open>A concrete gateway\<close>

definition docs_tool :: federated_tool where
  "docs_tool =
     \<lparr>ft_identity = \<lparr>cap_source = ''files'', cap_kind = Tool, native_identity_digest = default_digest,
                     cap_schema_digest = default_digest, cap_revision = ''1'',
                     source_configuration_digest = default_digest\<rparr>,
      ft_native_name = ''read'', ft_alias = ''docs'', ft_description = ''reads'', ft_input_schema = JNull,
      ft_side_effect = ReadOnly, ft_fixture_result = JNull\<rparr>"

definition docs_federation :: federation where
  "docs_federation = federation_default\<lparr>fed_tools := fmupd ''docs'' docs_tool fmempty\<rparr>"

definition docs_context :: call_context where
  "docs_context = \<lparr>cc_identity = \<lparr>si_principal = ''ada'', si_tenant = ''acme'', si_scopes = []\<rparr>, cc_supports_tasks = False,
     cc_now = Some 1000, cc_fresh = ''lease-1''\<rparr>"

definition docs_gateway :: "upstream option \<Rightarrow> lease_table gateway" where
  "docs_gateway ups = configured docs_federation ups fmempty False LeaseMode []"

definition docs_lease :: capability_lease where
  "docs_lease = issued_lease quiet_platform ''lease-1'' (cc_identity docs_context) [docs_tool] {|ReadOnly|} 60000 1000"

definition docs_tables :: text_tables where
  "docs_tables = \<lparr>split_words = (\<lambda>s. [s]), to_lowercase = id\<rparr>"

lemma docs_alias [simp]: "fed_tool ''docs'' docs_federation = Inr docs_tool"
  by (simp add: fed_tool_def docs_federation_def)

lemma docs_gateway_parts [simp]:
  "gw_federation (docs_gateway ups) = docs_federation" "gw_leases (docs_gateway ups) = fmempty"
  "gw_upstreams (docs_gateway ups) = ups" "gw_mode (docs_gateway ups) = LeaseMode"
  by (simp_all add: docs_gateway_def configured_def)

lemma docs_lease_request:
  "lease_request (cc_identity docs_context) [(''aliases'', JArr [JStr ''docs''])] docs_federation = Inr ([docs_tool], {|ReadOnly|}, 60000)"
  by (simp add: lease_request_def named_tools_def Let_def explicit_side_effects_def identity_authorizes_effect_def lease_ttl_def)
    (simp add: docs_tool_def)

lemma docs_lease_call:
  "gateway_call quiet_platform docs_tables memory_backend docs_context ''gaugemesh_lease'' (Some [(''aliases'', JArr [JStr ''docs''])]) None (docs_gateway ups)
   = (Structured (lease_json_answer quiet_platform docs_lease 60000), (docs_gateway ups)\<lparr>gw_leases := fmupd ''lease-1'' docs_lease fmempty\<rparr>)"
proof -
  have "lease_id docs_lease = ''lease-1''" by (simp add: docs_lease_def issued_lease_def issue_with_side_effects_def Let_def)
  then show ?thesis
    using docs_lease_request
    by (simp add: gateway_call_def starts_with_def call_meta_tool_def meta_lease_def memory_backend_def mem_lease_put_def
        docs_lease_def) (simp add: docs_context_def)
qed

lemma docs_grant: "grants quiet_platform docs_federation (cc_identity docs_context) docs_lease"
  unfolding docs_lease_def by (rule lease_request_grants [OF docs_lease_request])

theorem lease_changes_own_witness:
  "mem_lease_get ''lease-1'' (gw_leases (snd (gateway_call quiet_platform docs_tables memory_backend docs_context ''gaugemesh_lease''
       (Some [(''aliases'', JArr [JStr ''docs''])]) None (docs_gateway None)))) = Some docs_lease
   \<and> grants quiet_platform docs_federation (cc_identity docs_context) docs_lease"
  using lease_changes_own [OF docs_lease_call [of None], of "''lease-1''"] docs_lease_call [of None]
  by (simp add: mem_lease_get_def)


theorem gateway_call_authorized_witness:
  "\<exists>u. let g = (docs_gateway (Some u))\<lparr>gw_leases := fmupd ''lease-1'' docs_lease fmempty\<rparr> in
     leaves (fst (gateway_call quiet_platform docs_tables memory_backend docs_context ''gaugemesh_invoke''
       (Some [(''leaseId'', JStr ''lease-1''), (''alias'', JStr ''docs'')]) None g))
     \<and> covered quiet_platform memory_backend docs_context g (ft_identity docs_tool) ReadOnly"
proof -
  obtain u :: upstream and m where "fmlookup (sources u) ''files'' = Some m" using sample_runtime by blast
  then have u: "contains_source (u :: upstream) ''files''" by (auto simp: contains_source_def fmlookup_dom_iff)
  define g where "g = (docs_gateway (Some u))\<lparr>gw_leases := fmupd ''lease-1'' docs_lease fmempty\<rparr>"
  have tool: "cap_source (ft_identity docs_tool) = ''files''" "ft_side_effect docs_tool = ReadOnly" by (simp_all add: docs_tool_def)
  have "authorized_lease quiet_platform memory_backend (cc_identity docs_context) (cc_now docs_context) ''lease-1''
      (ft_identity docs_tool) ReadOnly g = Inr ()"
    by (simp add: authorized_lease_def stored_grant_def g_def memory_backend_def mem_lease_get_def docs_lease_def issued_lease_def
        docs_context_def authorize_current_invocation_def authorize_invocation_def authorize_def issued_manifest [symmetric]
        same_native_def sort_capabilities_def identity_authorizes_effect_def)
      (simp add: saturating_add_def)
  then have call: "gateway_call quiet_platform docs_tables memory_backend docs_context ''gaugemesh_invoke''
      (Some [(''leaseId'', JStr ''lease-1''), (''alias'', JStr ''docs'')]) None g
      = (ForwardCall ''files'' \<lparr>cr_name = ft_native_name docs_tool, cr_arguments = None, cr_meta = None\<rparr> (ft_identity docs_tool), g)"
    using u tool
    by (simp add: gateway_call_def starts_with_def call_meta_tool_def meta_invoke_def text_argument_def argument_str_def
        found_tool_def invoke_tool_def g_def)
  have only: "t = docs_tool" if "fed_tool a (gw_federation g) = Inr t" for a t
    using that by (auto simp: g_def fed_tool_def docs_federation_def ok_or_Inr split: if_splits)
  from gateway_call_authorized [OF call] obtain a t where t: "fed_tool a (gw_federation g) = Inr t"
      and "ft_identity docs_tool = ft_identity t"
      and "covered quiet_platform memory_backend docs_context g (ft_identity t) (ft_side_effect t)"
    by (auto simp: starts_with_def)
  then have "covered quiet_platform memory_backend docs_context g (ft_identity docs_tool) ReadOnly"
    using only [OF t] tool(2) by simp
  with call show ?thesis unfolding g_def by (intro exI [of _ u]) (simp add: Let_def)
qed

definition page_platform :: platform where
  "page_platform = \<lparr>sha256 = (\<lambda>b. b), json_to_vec = (\<lambda>v. []), hex_encode = (\<lambda>b. b), hex_decode = Some, nfc = (\<lambda>s. s)\<rparr>"

definition page_crypto :: "json list \<Rightarrow> cursor_crypto" where
  "page_crypto items =
     \<lparr>hmac_tag = (\<lambda>k b. Some []), b64_encode = (\<lambda>b. b), b64_decode = Some,
      parse_cursor = (\<lambda>b. Some (page_cursor page_platform ''tools'' items 128))\<rparr>"

theorem listing_complete_witness:
  "\<exists>ws. read_pages 201 page_platform (page_crypto (replicate 200 JNull)) [] ''tools'' (replicate 200 JNull) None = Some ws
     \<and> concat ws = replicate 200 JNull"
proof -
  let ?items = "replicate 200 JNull"
  have only: "n = 128" if "n < 200" "0 < n" "128 dvd n" for n :: nat using that by presburger
  have "seal_cursor page_platform (page_crypto ?items) (page_cursor page_platform ''tools'' ?items 128) [] = Inr ''.''"
    by (simp add: seal_cursor_def cursor_body_def page_platform_def page_crypto_def)
  moreover have "open_cursor (page_crypto ?items) ''.'' [] = Inr (page_cursor page_platform ''tools'' ?items 128)"
    by (simp add: open_cursor_def page_crypto_def)
  ultimately have "pages_open page_platform (page_crypto ?items) [] ''tools'' ?items"
    using only by (auto simp: pages_open_def)
  from listing_complete [OF this] show ?thesis by auto
qed

end
