(* ===== verification/Broker.thy ===== *)
theory Broker
  imports Auth Federation Lease Route Model_Cost
begin

text \<open>
  Models \<open>crates/gaugemesh/src/model.rs\<close>: the endpoint that offers configured model providers under
  the protocol of OpenAI. A request is priced and checked against its budget for every provider, routed,
  may run one read-only tool, and is completed by the selected provider within its deadline. The HTTP
  client, URL joining, the environment, derived deserializers and DNS are fields of \<open>broker_library\<close> and
  arguments; the clock and the identifier of a lease are arguments.
\<close>

definition MAX_TOOL_PAYLOAD_BYTES :: nat where "MAX_TOOL_PAYLOAD_BYTES = 16 * 1024"
definition MAX_TOOL_OUTPUT_BYTES :: nat where "MAX_TOOL_OUTPUT_BYTES = 64 * 1024"
definition MAX_PROVIDER_RESPONSE_BYTES :: nat where "MAX_PROVIDER_RESPONSE_BYTES = 1024 * 1024"
definition COST_TABLE_VERSION :: string where "COST_TABLE_VERSION = ''fixture-2026-08-30''"

section \<open>Messages and outputs\<close>

datatype role = RoleSystem | RoleUser | RoleAssistant | RoleTool

record message =
  msg_role :: role
  msg_content :: string

record chat_request =
  cr_model :: string
  cr_messages :: "message list"
  cr_stream :: bool
  cr_max_tokens :: u64

record responses_request =
  rr_model :: string
  rr_input :: string
  rr_stream :: bool
  rr_max_output_tokens :: u64

record provider_output =
  po_text :: string
  po_input_tokens :: u64
  po_output_tokens :: u64
  po_observed_cost :: "u64 option"

fun role_name :: "role \<Rightarrow> string" where
  "role_name RoleSystem = ''system''"
| "role_name RoleUser = ''user''"
| "role_name RoleAssistant = ''assistant''"
| "role_name RoleTool = ''tool''"

definition message_json :: "message \<Rightarrow> json" where
  "message_json m = JObj [(''role'', JStr (role_name (msg_role m))), (''content'', JStr (msg_content m))]"

text \<open>\<open>usize\<close> lengths are converted to \<open>u64\<close>; the sum saturates.\<close>

definition approximate_tokens :: "string list \<Rightarrow> u64" where
  "approximate_tokens texts =
     saturating_add (fold (\<lambda>t sum. saturating_add sum (of_nat (length t))) texts 0) 3 div 4"

definition last_user_message :: "message list \<Rightarrow> message option" where
  "last_user_message ms = find (\<lambda>m. msg_role m = RoleUser) (rev ms)"

section \<open>Providers\<close>

text \<open>
  \<open>complete\<close> gives the milliseconds until it is done, \<open>None\<close> when it never is, with its result.
\<close>

type_synonym completion = "message list \<Rightarrow> u64 \<Rightarrow> nat option \<times> (string, provider_output) res"

record model_route =
  mr_alias :: string
  mr_identity :: model_identity
  mr_complete :: completion
  mr_cost_table :: cost_table
  mr_max_output_tokens :: u64

record broker =
  br_providers :: "model_route list"
  br_federation :: federation

definition deterministic_identity :: "platform \<Rightarrow> model_identity" where
  "deterministic_identity P =
     \<lparr>provider = ''fixture'',
      endpoint_identity = of_bytes P ''in-process-deterministic-provider'',
      provider_model_id = ''gaugemesh-deterministic'',
      capability_set = [''chat'', ''responses'', ''streaming''],
      context_limit = 4096, tool_call_support = True, structured_output_support = False,
      streaming_support = True, cost_table_version = COST_TABLE_VERSION,
      policy_digest = of_bytes P ''local-fixture-policy''\<rparr>"

definition deterministic_complete :: completion where
  "deterministic_complete ms max_tokens =
     (let input = (case last_user_message ms of None \<Rightarrow> [] | Some m \<Rightarrow> msg_content m);
          whole = ''fixture: '' @ input;
          shown = take (boundary_below whole (min (unat (saturating_mul max_tokens 4)) (length whole))) whole in
      (Some 0, Inr \<lparr>po_text = shown, po_input_tokens = approximate_tokens (map msg_content ms),
                    po_output_tokens = approximate_tokens [shown], po_observed_cost = Some 0\<rparr>))"

definition fixture_broker :: "platform \<Rightarrow> federation \<Rightarrow> broker" where
  "fixture_broker P demo =
     \<lparr>br_providers = [\<lparr>mr_alias = ''local'', mr_identity = deterministic_identity P,
        mr_complete = deterministic_complete,
        mr_cost_table = \<lparr>cost_version = COST_TABLE_VERSION, input_micros_per_million_tokens = 0,
                        output_micros_per_million_tokens = 0\<rparr>,
        mr_max_output_tokens = 1024\<rparr>],
      br_federation = demo\<rparr>"

section \<open>Compatible providers\<close>

text \<open>A connection to the local host, or to the addresses a resolution checked; redirects are not followed.\<close>

datatype provider_client = LocalClient | PinnedClient resolved_origin

record provider_request =
  pr_post :: bool
  pr_url :: full_url
  pr_authorization :: "bytes option"
  pr_body :: "json option"

text \<open>\<open>bl_send\<close> also gives the milliseconds until the exchange is over, \<open>None\<close> when it never is.\<close>

record broker_library =
  bl_http :: http_library
  bl_env :: "string \<Rightarrow> string option"
  bl_header_value :: "string \<Rightarrow> bytes option"
  bl_join :: "full_url \<Rightarrow> string \<Rightarrow> full_url option"
  bl_builds :: "provider_client \<Rightarrow> bool"
  bl_send :: "provider_client \<Rightarrow> provider_request \<Rightarrow> nat option \<times> http_response option"
  bl_parse_json :: "bytes \<Rightarrow> json option"
  bl_chat_request :: "json \<Rightarrow> (string, chat_request) res"
  bl_responses_request :: "json \<Rightarrow> (string, responses_request) res"

record openai_provider =
  oa_identity :: model_identity
  oa_base_url :: full_url
  oa_client :: provider_client
  oa_authorization :: "bytes option"

definition safe_provider_client ::
  "net_parsers \<Rightarrow> dns \<Rightarrow> broker_library \<Rightarrow> full_url \<Rightarrow> (string, provider_client) res" where
  "safe_provider_client N lookup_host L u =
     rbind (ok_or (url_host u) ''GM_MODEL_PROVIDER_URL_INVALID'') (\<lambda>host.
     let loc = loopback_host N host in
     rbind (ensure (\<not> (url_scheme u \<notin> {''http'', ''https''} \<or> (url_scheme u = ''http'' \<and> \<not> loc)))
              ''GM_MODEL_PROVIDER_SCHEME_DENIED'') (\<lambda>_.
     rbind (if loc then Inr LocalClient
            else rbind (map_err (\<lambda>_. ''GM_MODEL_PROVIDER_ORIGIN'') (resolve lookup_host (url.truncate u) False))
                   (\<lambda>origin. Inr (PinnedClient origin))) (\<lambda>client.
     rbind (ensure (bl_builds L client) ''GM_MODEL_PROVIDER_CLIENT'') (\<lambda>_. Inr client))))"

definition openai_new ::
  "platform \<Rightarrow> net_parsers \<Rightarrow> dns \<Rightarrow> broker_library \<Rightarrow> full_url \<Rightarrow> string \<Rightarrow> bytes option
   \<Rightarrow> (string, openai_provider) res" where
  "openai_new P N lookup_host L u model authorization =
     rbind (ensure (url_scheme u \<in> {''http'', ''https''}) ''GM_MODEL_PROVIDER_SCHEME_DENIED'') (\<lambda>_.
     rbind (safe_provider_client N lookup_host L u) (\<lambda>client.
       Inr \<lparr>oa_identity =
              \<lparr>provider = ''openai-compatible'', endpoint_identity = of_bytes P (url_text u),
               provider_model_id = model, capability_set = [''chat''], context_limit = 128000,
               tool_call_support = False, structured_output_support = False, streaming_support = False,
               cost_table_version = ''user-supplied'', policy_digest = of_bytes P ''configured-provider-policy''\<rparr>,
            oa_base_url = u, oa_client = client, oa_authorization = authorization\<rparr>))"

definition cost_config_json :: "model_cost_config \<Rightarrow> json" where
  "cost_config_json c =
     JObj [(''version'', JStr (model_cost_config.cost_version c)),
           (''input_micros_per_million_tokens'', u64_json (cost_input_micros c)),
           (''output_micros_per_million_tokens'', u64_json (cost_output_micros c))]"

definition openai_configured ::
  "platform \<Rightarrow> net_parsers \<Rightarrow> dns \<Rightarrow> broker_library \<Rightarrow> model_config \<Rightarrow> bytes option
   \<Rightarrow> (string, openai_provider) res" where
  "openai_configured P N lookup_host L c authorization =
     rbind (openai_new P N lookup_host L (base_url c) (model_config.provider_model_id c) authorization) (\<lambda>p.
       Inr (p\<lparr>oa_identity := (oa_identity p)
              \<lparr>context_limit := model_config.context_limit c,
               cost_table_version := model_cost_config.cost_version (model_config.cost_table c),
               policy_digest := of_json P
                 (JObj [(''route'', JStr (mdl_id c)), (''provider'', JStr (model_config.provider_model_id c)),
                        (''costTable'', cost_config_json (model_config.cost_table c))])\<rparr>\<rparr>))"

definition bounded_provider_json :: "broker_library \<Rightarrow> http_response \<Rightarrow> (string, json) res" where
  "bounded_provider_json L response =
     rbind (ensure (\<not> length_exceeds response MAX_PROVIDER_RESPONSE_BYTES)
              ''GM_MODEL_PROVIDER_RESPONSE_TOO_LARGE'') (\<lambda>_.
     rbind (read_chunks MAX_PROVIDER_RESPONSE_BYTES ''GM_MODEL_PROVIDER_RESPONSE_TOO_LARGE''
              ''GM_MODEL_PROVIDER_BODY'' [] (resp_chunks response)) (\<lambda>body.
       ok_or (bl_parse_json L body) ''GM_MODEL_PROVIDER_JSON''))"

definition checked_response :: "string \<Rightarrow> http_response option \<Rightarrow> (string, http_response) res" where
  "checked_response failed reply =
     rbind (ok_or reply failed) (\<lambda>response.
     rbind (ensure (is_success response) (''GM_MODEL_PROVIDER_STATUS:'' @ nat_text (resp_status response)))
       (\<lambda>_. Inr response))"

definition openai_output :: "json \<Rightarrow> (string, provider_output) res" where
  "openai_output body =
     (let count = (\<lambda>k. case Option.bind (value_pointer (''/usage/'' @ k) body) json_u64 of
                         None \<Rightarrow> 0 | Some n \<Rightarrow> n) in
      rbind (ok_or (Option.bind (value_pointer ''/choices/0/message/content'' body) json_str)
               ''GM_MODEL_PROVIDER_RESPONSE_SHAPE'') (\<lambda>shown.
        Inr \<lparr>po_text = shown, po_input_tokens = count ''prompt_tokens'',
             po_output_tokens = count ''completion_tokens'', po_observed_cost = None\<rparr>))"

definition openai_complete :: "broker_library \<Rightarrow> openai_provider \<Rightarrow> completion" where
  "openai_complete L p ms max_tokens =
     (case bl_join L (oa_base_url p) ''chat/completions'' of
        None \<Rightarrow> (Some 0, Inl ''GM_MODEL_PROVIDER_URL'')
      | Some u \<Rightarrow>
          (let (time, reply) = bl_send L (oa_client p)
                 \<lparr>pr_post = True, pr_url = u, pr_authorization = oa_authorization p,
                  pr_body = Some (JObj [(''model'', JStr (provider_model_id (oa_identity p))),
                    (''messages'', JArr (map message_json ms)), (''max_tokens'', u64_json max_tokens),
                    (''stream'', JBool False)])\<rparr> in
           (time, rbind (checked_response ''GM_MODEL_PROVIDER_REQUEST'' reply) (\<lambda>response.
                  rbind (bounded_provider_json L response) openai_output))))"

text \<open>The credential of a provider, read from the environment.\<close>

definition credential :: "broker_library \<Rightarrow> string option \<Rightarrow> (string, bytes option) res" where
  "credential L name =
     (case name of
        None \<Rightarrow> Inr None
      | Some n \<Rightarrow>
          rbind (ok_or (bl_env L n) ''GM_MODEL_CREDENTIAL_ENV_MISSING'') (\<lambda>v.
          rbind (ok_or (bl_header_value L (''Bearer '' @ v)) ''GM_MODEL_CREDENTIAL_INVALID'') (\<lambda>h.
            Inr (Some h))))"

definition inspect_openai_provider ::
  "platform \<Rightarrow> net_parsers \<Rightarrow> dns \<Rightarrow> broker_library \<Rightarrow> full_url \<Rightarrow> string \<Rightarrow> string option
   \<Rightarrow> (string, sha256_digest) res" where
  "inspect_openai_provider P N lookup_host L u model name =
     rbind (credential L name) (\<lambda>authorization.
     rbind (openai_new P N lookup_host L u model authorization) (\<lambda>p.
     rbind (ok_or (bl_join L (oa_base_url p) ''models'') ''GM_MODEL_PROVIDER_URL'') (\<lambda>v.
     rbind (checked_response ''GM_MODEL_PROVIDER_DISCOVERY''
              (snd (bl_send L (oa_client p) \<lparr>pr_post = False, pr_url = v,
                      pr_authorization = oa_authorization p, pr_body = None\<rparr>))) (\<lambda>response.
     rbind (bounded_provider_json L response) (\<lambda>body.
     rbind (ensure (case Option.bind (json_get ''data'' body) json_items of
                      None \<Rightarrow> False
                    | Some ms \<Rightarrow> list_ex (\<lambda>m. Option.bind (json_get ''id'' m) json_str = Some model) ms)
              ''GM_MODEL_NOT_FOUND'') (\<lambda>_.
       Inr (model_identity_digest P (oa_identity p))))))))"

definition configured_route ::
  "platform \<Rightarrow> net_parsers \<Rightarrow> dns \<Rightarrow> broker_library \<Rightarrow> model_config \<Rightarrow> (string, model_route) res" where
  "configured_route P N lookup_host L c =
     rbind (credential L (credential_env c)) (\<lambda>authorization.
     rbind (openai_configured P N lookup_host L c authorization) (\<lambda>p.
       Inr \<lparr>mr_alias = mdl_id c, mr_identity = oa_identity p, mr_complete = openai_complete L p,
            mr_cost_table =
              \<lparr>cost_version = model_cost_config.cost_version (model_config.cost_table c),
               input_micros_per_million_tokens = cost_input_micros (model_config.cost_table c),
               output_micros_per_million_tokens = cost_output_micros (model_config.cost_table c)\<rparr>,
            mr_max_output_tokens = mdl_max_output_tokens c\<rparr>))"

definition configured_broker ::
  "platform \<Rightarrow> net_parsers \<Rightarrow> dns \<Rightarrow> broker_library \<Rightarrow> model_config list \<Rightarrow> federation \<Rightarrow> (string, broker) res" where
  "configured_broker P N lookup_host L ms f =
     rbind (try_map (configured_route P N lookup_host L) ms) (\<lambda>routes.
     rbind (ensure (routes \<noteq> []) ''GM_MODEL_NO_CONFIGURED_PROVIDER'') (\<lambda>_.
       Inr \<lparr>br_providers = routes, br_federation = f\<rparr>))"

section \<open>Requests and budgets\<close>

definition header_u64 :: "broker_library \<Rightarrow> headers \<Rightarrow> string \<Rightarrow> (string, u64 option) res" where
  "header_u64 L hs name =
     (case header_get hs name of
        None \<Rightarrow> Inr None
      | Some v \<Rightarrow>
          (case Option.bind (header_to_str (bl_http L) v) parse_u64 of
             None \<Rightarrow> Inl (''GM_HEADER_INVALID:'' @ name)
           | Some n \<Rightarrow> Inr (Some n)))"

definition header_list :: "broker_library \<Rightarrow> headers \<Rightarrow> string \<Rightarrow> (string, string list) res" where
  "header_list L hs name =
     (case header_get hs name of
        None \<Rightarrow> Inr []
      | Some v \<Rightarrow>
          rbind (ok_or (header_to_str (bl_http L) v) (''GM_HEADER_INVALID:'' @ name)) (\<lambda>s.
          let entries = filter (\<lambda>e. e \<noteq> []) (map str_trim (split_on (CHR '','') s)) in
          rbind (ensure (\<not> (32 < length entries \<or> list_ex (\<lambda>e. 128 < length e) entries))
                   (''GM_HEADER_INVALID:'' @ name)) (\<lambda>_. Inr entries)))"

definition tool_mode_of :: "broker_library \<Rightarrow> headers \<Rightarrow> (string, tool_mode) res" where
  "tool_mode_of L hs =
     rbind (case header_get hs ''x-gaugemesh-tool-mode'' of
              None \<Rightarrow> Inr ''off''
            | Some v \<Rightarrow> ok_or (header_to_str (bl_http L) v) ''GM_TOOL_MODE_INVALID'') (\<lambda>s.
       if s = ''off'' then Inr ToolOff
       else if s = ''transparent'' then Inr ToolTransparent
       else if s = ''lease'' then Inr ToolLease
       else Inl ''GM_TOOL_MODE_INVALID'')"

definition as_u16 :: "u64 \<Rightarrow> u16 option" where
  "as_u16 n = (if unat n < 2 ^ 16 then Some (ucast n) else None)"

definition header_or :: "broker_library \<Rightarrow> headers \<Rightarrow> string \<Rightarrow> u64 \<Rightarrow> (string, u64) res" where
  "header_or L hs name d =
     rbind (header_u64 L hs name) (\<lambda>v. Inr (case v of None \<Rightarrow> d | Some n \<Rightarrow> n))"

definition request_budget :: "broker_library \<Rightarrow> headers \<Rightarrow> u64 \<Rightarrow> (string, model_budget) res" where
  "request_budget L hs max_output =
     rbind (header_or L hs ''x-gaugemesh-max-input-tokens'' 4096) (\<lambda>input_limit.
     rbind (header_or L hs ''x-gaugemesh-max-output-tokens'' 1024) (\<lambda>output_limit.
     rbind (header_or L hs ''x-gaugemesh-money-budget-micros'' 0) (\<lambda>money.
     rbind (header_or L hs ''x-gaugemesh-deadline-ms'' 30000) (\<lambda>deadline.
     rbind (header_or L hs ''x-gaugemesh-max-tool-rounds'' 1) (\<lambda>rounds.
     rbind (ok_or (as_u16 rounds) ''GM_MODEL_TOOL_ROUNDS_INVALID'') (\<lambda>rounds.
     rbind (header_or L hs ''x-gaugemesh-retry-limit'' 0) (\<lambda>retries.
     rbind (ok_or (as_u16 retries) ''GM_MODEL_RETRY_LIMIT_INVALID'') (\<lambda>retries.
     rbind (header_list L hs ''x-gaugemesh-provider-allowlist'') (\<lambda>providers.
     rbind (header_list L hs ''x-gaugemesh-model-allowlist'') (\<lambda>allowed_models.
     rbind (ensure (max_output \<noteq> 0) ''GM_MODEL_OUTPUT_TOKEN_BUDGET'') (\<lambda>_.
       Inr \<lparr>max_input_tokens = input_limit, max_output_tokens = output_limit, model_money_micros = money,
            deadline_remaining_ms = deadline, tool_loop_limit = rounds, retry_limit = retries,
            provider_allowlist = providers, model_allowlist = allowed_models\<rparr>)))))))))))"

definition budget_json :: "model_budget \<Rightarrow> json" where
  "budget_json b =
     JObj [(''max_input_tokens'', u64_json (max_input_tokens b)),
           (''max_output_tokens'', u64_json (max_output_tokens b)),
           (''money_micros'', u64_json (model_money_micros b)),
           (''deadline_remaining_ms'', u64_json (deadline_remaining_ms b)),
           (''tool_loop_limit'', u16_json (tool_loop_limit b)), (''retry_limit'', u16_json (retry_limit b)),
           (''provider_allowlist'', JArr (map JStr (provider_allowlist b))),
           (''model_allowlist'', JArr (map JStr (model_allowlist b)))]"

definition cost_table_json :: "cost_table \<Rightarrow> json" where
  "cost_table_json c =
     JObj [(''version'', JStr (cost_version c)),
           (''input_micros_per_million_tokens'', u64_json (input_micros_per_million_tokens c)),
           (''output_micros_per_million_tokens'', u64_json (output_micros_per_million_tokens c))]"

fun tool_mode_name :: "tool_mode \<Rightarrow> string" where
  "tool_mode_name ToolOff = ''off''"
| "tool_mode_name ToolTransparent = ''transparent''"
| "tool_mode_name ToolLease = ''lease''"

fun route_error_text :: "model_route_error \<Rightarrow> string" where
  "route_error_text ModelNotAllowed = ''GM_MODEL_NOT_ALLOWED''"
| "route_error_text ProviderNotAllowed = ''GM_PROVIDER_NOT_ALLOWED''"
| "route_error_text InputTokens = ''GM_MODEL_INPUT_TOKEN_BUDGET''"
| "route_error_text OutputTokens = ''GM_MODEL_OUTPUT_TOKEN_BUDGET''"
| "route_error_text ModelMoney = ''GM_MODEL_MONEY_BUDGET''"
| "route_error_text ModelDeadline = ''GM_MODEL_DEADLINE_EXHAUSTED''"
| "route_error_text ToolLoop = ''GM_MODEL_TOOL_LOOP_DISABLED''"

section \<open>Tools\<close>

record tool_execution =
  tx_capability_id :: string
  tx_alias :: string
  tx_causal_child :: string
  tx_result :: json

definition tool_command :: "message list \<Rightarrow> string option" where
  "tool_command ms = Option.bind (last_user_message ms) (\<lambda>m. strip_prefix ''tool:'' (msg_content m))"

text \<open>The lease of one call: one second, one capability, no money; the clock may be invalid.\<close>

definition lease_one_call ::
  "platform \<Rightarrow> string \<Rightarrow> sha256_digest \<Rightarrow> identity option \<Rightarrow> u64 option \<Rightarrow> federated_tool \<Rightarrow> (string, unit) res" where
  "lease_one_call P fresh parent who clock tool =
     (let principal = (case who of None \<Rightarrow> ''local-model-client'' | Some i \<Rightarrow> id_principal i);
          tenant = (case who of None \<Rightarrow> ''local'' | Some i \<Rightarrow> id_tenant i) in
      rbind (ok_or clock ''GM_CLOCK_INVALID'') (\<lambda>now.
        map_err lease_error_code
          (authorize_invocation P
             (issue P \<lparr>lease_id = fresh, lease_principal = principal, lease_tenant = tenant,
                       request_identity = digest_to_string P parent, capabilities = [ft_identity tool],
                       lease_scope = {||}, expires_at = saturating_add now 1000, lease_money = 0,
                       lease_tokens = 4096, lease_retries = 0, side_effects = {||},
                       manifest = default_digest\<rparr>)
             principal tenant (ft_identity tool) (ft_side_effect tool) now)))"

definition maybe_execute_tool ::
  "platform \<Rightarrow> string \<Rightarrow> federation \<Rightarrow> message list \<Rightarrow> tool_mode \<Rightarrow> sha256_digest \<Rightarrow> identity option
   \<Rightarrow> u64 option \<Rightarrow> (string, tool_execution option) res" where
  "maybe_execute_tool P fresh f ms mode parent who clock =
     (if mode = ToolOff then Inr None
      else case tool_command ms of
        None \<Rightarrow> Inr None
      | Some command \<Rightarrow>
          rbind (ensure (\<not> MAX_TOOL_PAYLOAD_BYTES < length command) ''GM_TOOL_PAYLOAD_TOO_LARGE'') (\<lambda>_.
          let (alias, query) = (case split_once (CHR '' '') command of None \<Rightarrow> (command, []) | Some s \<Rightarrow> s) in
          rbind (map_err federation_error_text (fed_tool alias f)) (\<lambda>tool.
          rbind (ensure (ft_side_effect tool = ReadOnly) ''GM_TOOL_SIDE_EFFECT_DENIED'') (\<lambda>_.
          rbind (if mode = ToolLease then lease_one_call P fresh parent who clock tool else Inr ()) (\<lambda>_.
          let result = json_object [(''query'', JStr query), (''fixture'', ft_fixture_result tool)];
              capability = capability_digest P (ft_identity tool) in
          rbind (ensure (\<not> MAX_TOOL_OUTPUT_BYTES < length (json_to_vec P result)) ''GM_TOOL_RESULT_TOO_LARGE'') (\<lambda>_.
            Inr (Some
              \<lparr>tx_capability_id = digest_to_string P capability, tx_alias = alias,
               tx_causal_child = digest_to_string P (of_json P
                 (JObj [(''parent'', digest_json P parent), (''capability'', digest_json P capability),
                        (''arguments'', JObj [(''query'', JStr query)])])),
               tx_result = result\<rparr>)))))))"

section \<open>Executing a request\<close>

definition name_matches :: "string \<Rightarrow> model_route \<Rightarrow> bool" where
  "name_matches model r \<longleftrightarrow>
     model = ''auto'' \<or> model = mr_alias r \<or> model = provider_model_id (mr_identity r)"

text \<open>The estimated cost of a request at one provider, or why the provider may not answer it.\<close>

definition route_cost ::
  "string \<Rightarrow> u64 \<Rightarrow> model_budget \<Rightarrow> u64 \<Rightarrow> tool_mode \<Rightarrow> model_route \<Rightarrow> (model_route_error, u64) res" where
  "route_cost model max_output b estimated_input mode r =
     (if \<not> name_matches model r then Inl ModelNotAllowed
      else if max_output > mr_max_output_tokens r then Inl OutputTokens
      else enforce_budget (mr_identity r) (mr_cost_table r) b estimated_input max_output mode)"

definition cost_metric :: "cost_table \<Rightarrow> u32" where
  "cost_metric c =
     ucast (min (saturating_add (input_micros_per_million_tokens c) (output_micros_per_million_tokens c)) 10000)"

definition candidate_of ::
  "platform \<Rightarrow> string \<Rightarrow> u64 \<Rightarrow> model_budget \<Rightarrow> u64 \<Rightarrow> tool_mode \<Rightarrow> model_route \<Rightarrow> route_candidate" where
  "candidate_of P model max_output b estimated_input mode r =
     (let refused = (case route_cost model max_output b estimated_input mode r of
                       Inl e \<Rightarrow> [route_error_text e] | Inr _ \<Rightarrow> []) in
      \<lparr>route_id = mr_alias r, endpoint_id = digest_to_string P (endpoint_identity (mr_identity r)),
       hard_constraints = \<lparr>allowed = (refused = []), rejections = refused\<rparr>,
       metrics = \<lparr>m_latency = 0, m_cost = cost_metric (mr_cost_table r), m_failure = 0, m_pressure = 0,
                  m_exposure = (if provider (mr_identity r) \<noteq> ''fixture'' then 1 else 0), m_switching = 0\<rparr>,
       semantic_loss = 0\<rparr>)"

definition estimated_costs ::
  "string \<Rightarrow> u64 \<Rightarrow> model_budget \<Rightarrow> u64 \<Rightarrow> tool_mode \<Rightarrow> model_route list \<Rightarrow> (string \<times> u64) list" where
  "estimated_costs model max_output b estimated_input mode rs =
     btree_collect (List.map_filter
       (\<lambda>r. case route_cost model max_output b estimated_input mode r of
              Inl _ \<Rightarrow> None | Inr cost \<Rightarrow> Some (mr_alias r, cost)) rs)"

definition first_rejection :: "route_candidate list \<Rightarrow> string" where
  "first_rejection cs =
     (case sort_dedup (concat (map (\<lambda>c. rejections (hard_constraints c)) cs)) of
        [] \<Rightarrow> ''GM_MODEL_NOT_FOUND_OR_BUDGET_REJECTED'' | e # _ \<Rightarrow> e)"

definition broker_weights :: route_weights where
  "broker_weights =
     \<lparr>w_latency = 10, w_cost = 30, w_failure = 30, w_semantic_loss = 1000, w_pressure = 20, w_exposure = 50,
      w_switching = 10\<rparr>"

record execution =
  ex_id :: string
  ex_output :: provider_output
  ex_route_digest :: sha256_digest
  ex_estimated_cost :: u64
  ex_tool :: "tool_execution option"
  ex_model_alias :: string
  ex_cost_table_version :: string

definition request_document ::
  "platform \<Rightarrow> model_identity \<Rightarrow> message list \<Rightarrow> u64 \<Rightarrow> tool_mode \<Rightarrow> model_budget \<Rightarrow> identity option \<Rightarrow> json" where
  "request_document P m ms max_output mode b who =
     JObj [(''modelIdentity'', digest_json P (model_identity_digest P m)),
           (''messages'', JArr (map message_json ms)), (''maxOutput'', u64_json max_output),
           (''toolMode'', JStr (tool_mode_name mode)), (''budget'', budget_json b),
           (''principal'', opt_json (\<lambda>i. JStr (id_principal i)) who),
           (''tenant'', opt_json (\<lambda>i. JStr (id_tenant i)) who),
           (''authScopes'', opt_json (\<lambda>i. JArr (map JStr (id_scopes i))) who)]"

definition route_document ::
  "platform \<Rightarrow> route_plan \<Rightarrow> model_route \<Rightarrow> u64 \<Rightarrow> u64 \<Rightarrow> tool_mode \<Rightarrow> json" where
  "route_document P p r estimated_input max_output mode =
     JObj [(''plan'', plan_json P p), (''model'', model_identity_json P (mr_identity r)),
           (''costTable'', cost_table_json (mr_cost_table r)), (''estimatedInput'', u64_json estimated_input),
           (''maxOutput'', u64_json max_output), (''toolMode'', JStr (tool_mode_name mode))]"

text \<open>\<open>tokio::time::timeout\<close>: the result of what is done within the deadline.\<close>

definition within_deadline :: "u64 \<Rightarrow> nat option \<times> (string, 'a) res \<Rightarrow> (string, 'a) res" where
  "within_deadline limit reply =
     (case fst reply of
        None \<Rightarrow> Inl ''GM_MODEL_PROVIDER_TIMEOUT''
      | Some ms \<Rightarrow> if ms \<le> unat limit then snd reply else Inl ''GM_MODEL_PROVIDER_TIMEOUT'')"

text \<open>The provider a request is routed to, with the plan and the estimated cost.\<close>

definition select_route ::
  "platform \<Rightarrow> broker \<Rightarrow> string \<Rightarrow> u64 \<Rightarrow> model_budget \<Rightarrow> u64 \<Rightarrow> tool_mode
   \<Rightarrow> (string, route_plan \<times> model_route \<times> u64) res" where
  "select_route P B model max_output b estimated_input mode =
     (let costs = estimated_costs model max_output b estimated_input mode (br_providers B);
          candidates = map (candidate_of P model max_output b estimated_input mode) (br_providers B) in
      rbind (ensure (costs \<noteq> []) (first_rejection candidates)) (\<lambda>_.
      rbind (map_err (\<lambda>_. ''GM_MODEL_NOT_FOUND_OR_BUDGET_REJECTED'') (plan P candidates broker_weights)) (\<lambda>p.
      rbind (ok_or (find (\<lambda>r. mr_alias r = selected p) (br_providers B)) ''GM_MODEL_ROUTE_IDENTITY_LOST'') (\<lambda>r.
      rbind (ok_or (map_of costs (mr_alias r)) ''GM_MODEL_ROUTE_BUDGET_LOST'') (\<lambda>cost.
        Inr (p, r, cost))))))"

definition execute ::
  "platform \<Rightarrow> broker_library \<Rightarrow> string \<Rightarrow> broker \<Rightarrow> headers \<Rightarrow> string \<Rightarrow> message list \<Rightarrow> u64
   \<Rightarrow> identity option \<Rightarrow> u64 option \<Rightarrow> (string, execution) res" where
  "execute P L fresh B hs model ms max_output who clock =
     rbind (tool_mode_of L hs) (\<lambda>mode.
     let estimated_input = approximate_tokens (map msg_content ms) in
     rbind (request_budget L hs max_output) (\<lambda>b.
     rbind (select_route P B model max_output b estimated_input mode) (\<lambda>(p, r, cost).
     let request_digest = of_json P (request_document P (mr_identity r) ms max_output mode b who) in
     rbind (maybe_execute_tool P fresh (br_federation B) ms mode request_digest who clock) (\<lambda>tool.
     let provider_messages = ms @ (case tool of
           None \<Rightarrow> [] | Some t \<Rightarrow> [\<lparr>msg_role = RoleTool, msg_content = json_to_vec P (tx_result t)\<rparr>]) in
     rbind (within_deadline (deadline_remaining_ms b) (mr_complete r provider_messages max_output)) (\<lambda>answer.
       Inr \<lparr>ex_id = ''gm-'' @ take 16 (drop 7 (digest_to_string P request_digest)), ex_output = answer,
            ex_route_digest = of_json P (route_document P p r estimated_input max_output mode),
            ex_estimated_cost = cost, ex_tool = tool, ex_model_alias = mr_alias r,
            ex_cost_table_version = cost_version (mr_cost_table r)\<rparr>)))))"

section \<open>The endpoint\<close>

datatype api_body = JsonBody json | EventBody "string list"

record api_response =
  ar_status :: nat
  ar_headers :: "(string \<times> string) list"
  ar_body :: api_body

definition api_error :: "nat \<Rightarrow> string \<Rightarrow> string \<Rightarrow> api_response" where
  "api_error status code message =
     \<lparr>ar_status = status, ar_headers = [],
      ar_body = JsonBody (json_object [(''error'',
        json_object [(''type'', JStr ''invalid_request_error''), (''code'', JStr code), (''message'', JStr message)])])\<rparr>"

definition model_error :: "string \<Rightarrow> api_response" where
  "model_error message = api_error 400 ''GM_MODEL_REQUEST_REJECTED'' message"

definition tool_execution_json :: "tool_execution \<Rightarrow> json" where
  "tool_execution_json t =
     json_object [(''capabilityId'', JStr (tx_capability_id t)), (''alias'', JStr (tx_alias t)),
                  (''causalChild'', JStr (tx_causal_child t)), (''result'', tx_result t)]"

definition metadata :: "platform \<Rightarrow> execution \<Rightarrow> json" where
  "metadata P x =
     json_object [(''routeDigest'', JStr (digest_to_string P (ex_route_digest x))),
                  (''costTableVersion'', JStr (ex_cost_table_version x)),
                  (''estimatedCostMicros'', u64_json (ex_estimated_cost x)),
                  (''observedCostMicros'', opt_json u64_json (po_observed_cost (ex_output x))),
                  (''tool'', opt_json tool_execution_json (ex_tool x))]"

definition response_with_route :: "platform \<Rightarrow> execution \<Rightarrow> api_body \<Rightarrow> api_response" where
  "response_with_route P x body =
     \<lparr>ar_status = 200, ar_headers = [(''x-gaugemesh-route-digest'', digest_to_string P (ex_route_digest x))],
      ar_body = body\<rparr>"

text \<open>The token counts are added as \<open>u64\<close>; a release build wraps around.\<close>

definition usage_json :: "string \<Rightarrow> string \<Rightarrow> provider_output \<Rightarrow> json" where
  "usage_json input_name output_name out =
     json_object [(input_name, u64_json (po_input_tokens out)), (output_name, u64_json (po_output_tokens out)),
                  (''total_tokens'', u64_json (po_input_tokens out + po_output_tokens out))]"

definition json_chat :: "platform \<Rightarrow> execution \<Rightarrow> api_response" where
  "json_chat P x = response_with_route P x (JsonBody (json_object
     [(''id'', JStr (ex_id x)), (''object'', JStr ''chat.completion''), (''created'', u64_json 0),
      (''model'', JStr (ex_model_alias x)),
      (''choices'', JArr [json_object [(''index'', u64_json 0),
         (''message'', json_object [(''role'', JStr ''assistant''), (''content'', JStr (po_text (ex_output x)))]),
         (''finish_reason'', JStr ''stop'')]]),
      (''usage'', usage_json ''prompt_tokens'' ''completion_tokens'' (ex_output x)),
      (''gaugemesh'', metadata P x)]))"

definition json_response :: "platform \<Rightarrow> execution \<Rightarrow> api_response" where
  "json_response P x = response_with_route P x (JsonBody (json_object
     [(''id'', JStr (ex_id x)), (''object'', JStr ''response''), (''created_at'', u64_json 0),
      (''model'', JStr (ex_model_alias x)), (''status'', JStr ''completed''),
      (''output'', JArr [json_object [(''type'', JStr ''message''), (''role'', JStr ''assistant''),
         (''content'', JArr [json_object [(''type'', JStr ''output_text''), (''text'', JStr (po_text (ex_output x)))]])]]),
      (''usage'', usage_json ''input_tokens'' ''output_tokens'' (ex_output x)),
      (''gaugemesh'', metadata P x)]))"

definition sse_response :: "platform \<Rightarrow> execution \<Rightarrow> json \<Rightarrow> api_response" where
  "sse_response P x payload = response_with_route P x (EventBody [json_to_vec P payload, ''[DONE]''])"

definition stream_chat :: "platform \<Rightarrow> execution \<Rightarrow> api_response" where
  "stream_chat P x = sse_response P x (json_object
     [(''id'', JStr (ex_id x)), (''object'', JStr ''chat.completion.chunk''), (''created'', u64_json 0),
      (''model'', JStr (ex_model_alias x)),
      (''choices'', JArr [json_object [(''index'', u64_json 0),
         (''delta'', json_object [(''content'', JStr (po_text (ex_output x)))]), (''finish_reason'', JStr ''stop'')]])])"

definition stream_response :: "platform \<Rightarrow> execution \<Rightarrow> api_response" where
  "stream_response P x = sse_response P x (json_object
     [(''type'', JStr ''response.output_text.delta''), (''item_id'', JStr (ex_id x)),
      (''delta'', JStr (po_text (ex_output x)))])"

definition answer_request ::
  "platform \<Rightarrow> bool \<Rightarrow> (platform \<Rightarrow> execution \<Rightarrow> api_response) \<Rightarrow> (platform \<Rightarrow> execution \<Rightarrow> api_response)
   \<Rightarrow> (string, execution) res \<Rightarrow> api_response" where
  "answer_request P streamed as_stream as_json result =
     (case result of
        Inl e \<Rightarrow> model_error e
      | Inr x \<Rightarrow> if streamed then as_stream P x else as_json P x)"

definition chat_completions ::
  "platform \<Rightarrow> broker_library \<Rightarrow> string \<Rightarrow> broker \<Rightarrow> identity option \<Rightarrow> headers \<Rightarrow> u64 option \<Rightarrow> json \<Rightarrow> api_response" where
  "chat_completions P L fresh B who hs clock v =
     (case bl_chat_request L v of
        Inl e \<Rightarrow> api_error 400 ''GM_OPENAI_UNSUPPORTED_OR_INVALID_FIELD'' e
      | Inr q \<Rightarrow> answer_request P (cr_stream q) stream_chat json_chat
                   (execute P L fresh B hs (cr_model q) (cr_messages q) (cr_max_tokens q) who clock))"

definition responses ::
  "platform \<Rightarrow> broker_library \<Rightarrow> string \<Rightarrow> broker \<Rightarrow> identity option \<Rightarrow> headers \<Rightarrow> u64 option \<Rightarrow> json \<Rightarrow> api_response" where
  "responses P L fresh B who hs clock v =
     (case bl_responses_request L v of
        Inl e \<Rightarrow> api_error 400 ''GM_OPENAI_UNSUPPORTED_OR_INVALID_FIELD'' e
      | Inr q \<Rightarrow> answer_request P (rr_stream q) stream_response json_response
                   (execute P L fresh B hs (rr_model q) [\<lparr>msg_role = RoleUser, msg_content = rr_input q\<rparr>]
                      (rr_max_output_tokens q) who clock))"

definition list_models :: "platform \<Rightarrow> broker \<Rightarrow> json" where
  "list_models P B = json_object
     [(''object'', JStr ''list''),
      (''data'', JArr (map (\<lambda>r. json_object
         [(''id'', JStr (mr_alias r)), (''object'', JStr ''model''), (''owned_by'', JStr (provider (mr_identity r))),
          (''gaugemesh'', json_object
             [(''identity'', JStr (digest_to_string P (model_identity_digest P (mr_identity r)))),
              (''providerModelId'', JStr (provider_model_id (mr_identity r))),
              (''capabilities'', JArr (map JStr (capability_set (mr_identity r)))),
              (''costTableVersion'', JStr (cost_version (mr_cost_table r)))])]) (br_providers B)))]"

section \<open>What a route costs and how it ranks\<close>

text \<open>A provider that may answer a request, and its price class: 50 for an external provider.\<close>

definition offers :: "string \<Rightarrow> u64 \<Rightarrow> model_budget \<Rightarrow> u64 \<Rightarrow> tool_mode \<Rightarrow> model_route \<Rightarrow> bool" where
  "offers model max_output b estimated_input mode r \<longleftrightarrow>
     name_matches model r \<and> max_output \<le> mr_max_output_tokens r
     \<and> (provider_allowlist b = [] \<or> provider (mr_identity r) \<in> set (provider_allowlist b))
     \<and> (model_allowlist b = [] \<or> provider_model_id (mr_identity r) \<in> set (model_allowlist b))
     \<and> estimated_input \<le> max_input_tokens b \<and> estimated_input \<le> context_limit (mr_identity r)
     \<and> max_output \<le> max_output_tokens b \<and> 0 < deadline_remaining_ms b
     \<and> (mode = ToolOff \<or> 0 < tool_loop_limit b)
     \<and> estimate_cost_micros estimated_input max_output (mr_cost_table r) \<le> model_money_micros b"

definition price_class :: "model_route \<Rightarrow> nat" where
  "price_class r =
     30 * min (unat (input_micros_per_million_tokens (mr_cost_table r))
               + unat (output_micros_per_million_tokens (mr_cost_table r))) 10000
     + (if provider (mr_identity r) = ''fixture'' then 0 else 50)"

lemma route_cost_Inr:
  "route_cost model m b est mode r = Inr cost \<longleftrightarrow>
     offers model m b est mode r \<and> cost = estimate_cost_micros est m (mr_cost_table r)"
  by (auto simp: route_cost_def enforce_budget_def offers_def Let_def not_less word_neq_0_conv
      split: if_splits)

lemma route_cost_case:
  "(case route_cost model m b est mode r of Inl _ \<Rightarrow> None | Inr cost \<Rightarrow> Some (f cost))
   = (if offers model m b est mode r then Some (f (estimate_cost_micros est m (mr_cost_table r))) else None)"
proof (cases "route_cost model m b est mode r")
  case (Inl e)
  with route_cost_Inr [of model m b est mode r "estimate_cost_micros est m (mr_cost_table r)"]
  show ?thesis by simp
next
  case (Inr c)
  with route_cost_Inr [of model m b est mode r c] show ?thesis by simp
qed

lemma unat_cost_metric:
  "unat (cost_metric c)
     = min (unat (input_micros_per_million_tokens c) + unat (output_micros_per_million_tokens c)) 10000"
proof -
  let ?s = "saturating_add (input_micros_per_million_tokens c) (output_micros_per_million_tokens c)"
  have "unat (min ?s 10000) = min (unat ?s) 10000"
    by (simp add: min_def word_le_nat_alt)
  moreover have "unat (min ?s 10000) < 2 ^ 32"
    using calculation by simp
  then have "unat (cost_metric c) = unat (min ?s 10000)"
    by (simp add: cost_metric_def unsigned_ucast_eq take_bit_nat_eq_self)
  ultimately show ?thesis by (simp add: unat_saturating_add)
qed

lemma candidate_of_simps:
  "route_id (candidate_of P model m b est mode r) = mr_alias r"
  "semantic_loss (candidate_of P model m b est mode r) = 0"
  "metrics_in_range (metrics (candidate_of P model m b est mode r))"
  "exact_score broker_weights (candidate_of P model m b est mode r) = price_class r"
proof -
  have "cost_metric (mr_cost_table r) \<le> 10000" by (simp add: word_le_nat_alt unat_cost_metric)
  then show "metrics_in_range (metrics (candidate_of P model m b est mode r))"
    by (simp add: candidate_of_def metrics_in_range_def Let_def)
qed (simp_all add: candidate_of_def exact_score_def broker_weights_def price_class_def unat_cost_metric Let_def)

lemma candidate_allowed:
  "allowed (hard_constraints (candidate_of P model m b est mode r)) = offers model m b est mode r"
  using route_cost_Inr [of model m b est mode r]
  by (cases "route_cost model m b est mode r") (auto simp: candidate_of_def)

lemma readable_text: "\<not> blank (CHR ''G'' # s)"
  by (simp add: blank_def char_is_whitespace_def)

lemma route_error_text_readable: "\<not> blank (route_error_text e)"
  by (cases e) (simp_all only: route_error_text.simps readable_text not_False_eq_True)

definition aliases_distinct :: "broker \<Rightarrow> bool" where
  "aliases_distinct B \<longleftrightarrow>
     distinct (map mr_alias (br_providers B)) \<and> list_all (\<lambda>r. mr_alias r \<noteq> []) (br_providers B)"

lemma candidates_valid:
  "valid_input (map (candidate_of P model m b est mode) (br_providers B)) broker_weights
   \<longleftrightarrow> aliases_distinct B"
proof -
  have w: "weights_in_range broker_weights"
    by (simp add: weights_in_range_def weight_list_def broker_weights_def)
  have "candidate_valid (candidate_of P model m b est mode r) \<longleftrightarrow> mr_alias r \<noteq> []" for r
  proof (cases "route_cost model m b est mode r")
    case (Inl e)
    then show ?thesis
      by (simp add: candidate_valid_def candidate_of_simps)
         (simp add: candidate_of_def Let_def route_error_text_readable)
  next
    case (Inr c)
    then have "offers model m b est mode r" by (simp add: route_cost_Inr)
    then show ?thesis by (simp add: candidate_valid_def candidate_of_simps candidate_allowed)
  qed
  with w show ?thesis
    by (auto simp: valid_input_def aliases_distinct_def list_all_iff comp_def candidate_of_simps)
qed

lemma map_of_estimated:
  assumes "distinct (map mr_alias rs)" "r \<in> set rs"
  shows "map_of (estimated_costs model m b est mode rs) (mr_alias r)
       = (if offers model m b est mode r then Some (estimate_cost_micros est m (mr_cost_table r)) else None)"
proof -
  let ?row = "\<lambda>r. case route_cost model m b est mode r of Inl _ \<Rightarrow> None | Inr cost \<Rightarrow> Some (mr_alias r, cost)"
  have row: "?row r = Some e \<longleftrightarrow> offers model m b est mode r
      \<and> e = (mr_alias r, estimate_cost_micros est m (mr_cost_table r))" for r e
    by (auto simp: route_cost_case)
  have "distinct (map mr_alias rs) \<Longrightarrow> distinct (map fst (List.map_filter ?row rs))
      \<and> fst ` set (List.map_filter ?row rs) \<subseteq> mr_alias ` set rs" for rs
    by (induction rs) (auto simp: List.map_filter_def route_cost_case)
  then have d: "distinct (map fst (List.map_filter ?row rs))" using assms(1) by blast
  then have "map_of (estimated_costs model m b est mode rs) = map_of (List.map_filter ?row rs)"
    by (simp add: estimated_costs_def map_of_btree_collect map_of_inject_set rev_map [symmetric])
  moreover have found: "map_of (List.map_filter ?row rs) (mr_alias r) = Some c
      \<longleftrightarrow> offers model m b est mode r \<and> c = estimate_cost_micros est m (mr_cost_table r)" for c
  proof -
    have "map_of (List.map_filter ?row rs) (mr_alias r) = Some c
        \<longleftrightarrow> (mr_alias r, c) \<in> set (List.map_filter ?row rs)"
      by (rule map_of_eq_Some_iff [OF d])
    also have "\<dots> \<longleftrightarrow> (\<exists>s \<in> set rs. ?row s = Some (mr_alias r, c))"
      by (auto simp: List.map_filter_def image_iff)
    also have "\<dots> \<longleftrightarrow> ?row r = Some (mr_alias r, c)"
    proof
      assume "\<exists>s \<in> set rs. ?row s = Some (mr_alias r, c)"
      then obtain s where s: "s \<in> set rs" "?row s = Some (mr_alias r, c)" ..
      from s(2) have "mr_alias s = mr_alias r" unfolding row by simp
      with assms s(1) have "s = r" by (auto simp: distinct_map dest: inj_onD)
      with s(2) show "?row r = Some (mr_alias r, c)" by (simp only:)
    qed (use assms(2) in blast)
    finally show ?thesis unfolding row by simp
  qed
  moreover have "map_of (List.map_filter ?row rs) (mr_alias r) = None" if "\<not> offers model m b est mode r"
  proof (cases "map_of (List.map_filter ?row rs) (mr_alias r)")
    case (Some c)
    with found [of c] that show ?thesis by blast
  qed
  ultimately show ?thesis by simp
qed

lemma estimated_costs_Nil:
  "estimated_costs model m b est mode rs = [] \<longleftrightarrow> (\<forall>r \<in> set rs. \<not> offers model m b est mode r)"
proof -
  have collect: "btree_collect xs = [] \<longleftrightarrow> xs = []" for xs :: "(string \<times> u64) list"
  proof
    assume "btree_collect xs = []"
    then have "map_of (rev xs) = Map.empty" using map_of_btree_collect [of xs] by simp
    then show "xs = []" by simp
  qed (simp add: btree_collect_def)
  have "(case route_cost model m b est mode r of Inl _ \<Rightarrow> None | Inr cost \<Rightarrow> Some (mr_alias r, cost)) = None
      \<longleftrightarrow> \<not> offers model m b est mode r" for r
    by (simp add: route_cost_case)
  then show ?thesis
    unfolding estimated_costs_def collect
    by (auto simp: List.map_filter_def filter_empty_conv)
qed

section \<open>Selecting a provider\<close>

lemma plan_Inr: "plan P cs w = Inr p \<longleftrightarrow> (\<exists>v g. decide P cs w = Inr (Selected v g p))"
proof -
  have "(\<exists>d. decide P cs w = Inr d \<and> (case d of Selected _ _ p \<Rightarrow> Inr p | Denied _ _ _ \<Rightarrow> Inl NoEligibleCandidate) = Inr p)
      \<longleftrightarrow> (\<exists>v g. decide P cs w = Inr (Selected v g p))"
  proof
    assume "\<exists>d. decide P cs w = Inr d \<and> (case d of Selected _ _ p \<Rightarrow> Inr p | Denied _ _ _ \<Rightarrow> Inl NoEligibleCandidate) = Inr p"
    then obtain d where "decide P cs w = Inr d"
      "(case d of Selected _ _ p \<Rightarrow> Inr p | Denied _ _ _ \<Rightarrow> Inl NoEligibleCandidate) = Inr p" by blast
    then show "\<exists>v g. decide P cs w = Inr (Selected v g p)" by (cases d) auto
  qed auto
  then show ?thesis by (simp add: plan_def rbind_Inr)
qed

lemma select_route_ok:
  assumes "select_route P B model m b est mode = Inr (p, r, cost)"
  shows "r \<in> set (br_providers B) \<and> offers model m b est mode r
     \<and> cost = estimate_cost_micros est m (mr_cost_table r)
     \<and> (\<forall>s \<in> set (br_providers B). offers model m b est mode s \<longrightarrow>
          (price_class r, mr_alias r) \<le> (price_class s, mr_alias s))"
proof -
  let ?c = "candidate_of P model m b est mode"
  obtain v g where d: "decide P (map ?c (br_providers B)) broker_weights = Inr (Selected v g p)"
    and f: "find (\<lambda>r. mr_alias r = selected p) (br_providers B) = Some r"
    and cost: "map_of (estimated_costs model m b est mode (br_providers B)) (mr_alias r) = Some cost"
    using assms by (auto simp: select_route_def plan_Inr guard_simps Let_def)
  from d have ds: "distinct (map mr_alias (br_providers B))"
    using decide_guards candidates_valid aliases_distinct_def by blast
  have r: "r \<in> set (br_providers B)" "mr_alias r = selected p" using find_Some_first [OF f] by auto
  obtain s where s: "s \<in> set (br_providers B)" "offers model m b est mode s" "mr_alias s = selected p"
    and least: "\<And>t. t \<in> set (br_providers B) \<Longrightarrow> offers model m b est mode t \<Longrightarrow>
      (price_class s, mr_alias s) \<le> (price_class t, mr_alias t)"
    using selected_least [OF d] by (auto simp: candidate_of_simps candidate_allowed)
  have "s = r" using ds r s(1,3) by (metis distinct_map inj_onD)
  with r s least cost map_of_estimated [OF ds r(1), of model m b est mode] show ?thesis by simp
qed

lemma select_route_total:
  assumes "aliases_distinct B" "r \<in> set (br_providers B)" "offers model m b est mode r"
  shows "\<exists>y. select_route P B model m b est mode = Inr y"
proof -
  let ?c = "candidate_of P model m b est mode"
  have v: "valid_input (map ?c (br_providers B)) broker_weights" using assms(1) by (simp add: candidates_valid)
  have "decide P (map ?c (br_providers B)) broker_weights \<noteq> Inr (Denied v g d)" for v g d
    using denied_none [of P "map ?c (br_providers B)" broker_weights v g d] assms(2,3)
    by (auto simp: candidate_allowed)
  moreover obtain x where x: "decide P (map ?c (br_providers B)) broker_weights = Inr x"
    using decide_valid [OF v] by blast
  ultimately obtain v g p where d: "decide P (map ?c (br_providers B)) broker_weights = Inr (Selected v g p)"
    by (cases x) auto
  obtain s where s: "s \<in> set (br_providers B)" "offers model m b est mode s" "mr_alias s = selected p"
    using selected_least [OF d] by (auto simp: candidate_of_simps candidate_allowed)
  have ds: "distinct (map mr_alias (br_providers B))" using assms(1) by (simp add: aliases_distinct_def)
  have "find (\<lambda>r. mr_alias r = mr_alias s) (br_providers B) = Some s"
    by (rule find_key [OF ds s(1)])
  moreover have "estimated_costs model m b est mode (br_providers B) \<noteq> []"
    using assms(2,3) by (auto simp: estimated_costs_Nil)
  moreover have "plan P (map ?c (br_providers B)) broker_weights = Inr p" using d by (auto simp: plan_Inr)
  moreover note map_of_estimated [OF ds s(1), of model m b est mode] s(2)
  ultimately show ?thesis by (simp add: select_route_def Let_def s(3) [symmetric])
qed

section \<open>What an execution guarantees\<close>

lemma request_budget_Inr: "request_budget L hs m = Inr b \<Longrightarrow> 0 < m"
  by (auto simp: request_budget_def guard_simps word_neq_0_conv)

lemma within_deadline_Inr:
  "within_deadline d reply = Inr y \<longleftrightarrow> (\<exists>t. fst reply = Some t \<and> t \<le> unat d) \<and> snd reply = Inr y"
  by (auto simp: within_deadline_def split: option.splits)

lemma execute_Inr:
  assumes "execute P L fresh B hs model ms m who clock = Inr x"
  obtains mode b p r cost tool extra where "tool_mode_of L hs = Inr mode" "request_budget L hs m = Inr b"
    "select_route P B model m b (approximate_tokens (map msg_content ms)) mode = Inr (p, r, cost)"
    "maybe_execute_tool P fresh (br_federation B) ms mode
       (of_json P (request_document P (mr_identity r) ms m mode b who)) who clock = Inr tool"
    "within_deadline (deadline_remaining_ms b) (mr_complete r (ms @ extra) m) = Inr (ex_output x)"
    "ex_estimated_cost x = cost" "ex_tool x = tool" "ex_model_alias x = mr_alias r"
  using assms by (auto simp: execute_def guard_simps Let_def)

lemma maybe_execute_tool_Some:
  assumes "maybe_execute_tool P fresh f ms mode parent who clock = Inr (Some t)"
  obtains command query tool where "mode \<noteq> ToolOff" "tool_command ms = Some command"
    "length command \<le> MAX_TOOL_PAYLOAD_BYTES"
    "command = tx_alias t @ CHR '' '' # query \<or> command = tx_alias t \<and> query = []"
    "fed_tool (tx_alias t) f = Inr tool" "ft_side_effect tool = ReadOnly"
    "mode = ToolLease \<Longrightarrow> lease_one_call P fresh parent who clock tool = Inr ()"
    "tx_result t = json_object [(''query'', JStr query), (''fixture'', ft_fixture_result tool)]"
    "length (json_to_vec P (tx_result t)) \<le> MAX_TOOL_OUTPUT_BYTES"
  using assms
  by (auto simp: maybe_execute_tool_def guard_simps Let_def not_less split_once_Some
      split: if_splits option.splits prod.splits)

text \<open>The lease issued for one call admits that call: it is read-only and the clock is before its end.\<close>

lemma lease_one_call_Inr:
  "lease_one_call P fresh parent who clock tool = Inr ()
   \<longleftrightarrow> ft_side_effect tool = ReadOnly \<and> (\<exists>now. clock = Some now \<and> now < - 1)"
proof (cases clock)
  case (Some now)
  have "now < saturating_add now 1000 \<longleftrightarrow> now < - 1"
    by (auto simp: word_less_nat_alt unat_saturating_add unat_max_word)
  moreover have "native_distinct (issue_with_side_effects P t)" if "capabilities t = [c]" for t c
    using that by (simp add: native_distinct_def sort_capabilities_def)
  ultimately show ?thesis
    using Some by (simp add: lease_one_call_def issue_def guard_simps authorize_issued Let_def conj_commute)
qed (simp add: lease_one_call_def)

text \<open>
  A provider is selected exactly when the aliases are distinct and not empty and some provider qualifies.
\<close>

theorem route_selected_iff:
  "(\<exists>y. select_route P B model m b est mode = Inr y)
   = (aliases_distinct B \<and> (\<exists>r \<in> set (br_providers B). offers model m b est mode r))"
proof
  assume "\<exists>y. select_route P B model m b est mode = Inr y"
  then obtain p r cost where s: "select_route P B model m b est mode = Inr (p, r, cost)" by (metis prod_cases3)
  then obtain d where "decide P (map (candidate_of P model m b est mode) (br_providers B)) broker_weights = Inr d"
    by (auto simp: select_route_def plan_Inr guard_simps Let_def)
  then have "aliases_distinct B" using decide_guards candidates_valid by blast
  with select_route_ok [OF s] show "aliases_distinct B \<and> (\<exists>r \<in> set (br_providers B). offers model m b est mode r)"
    by blast
qed (use select_route_total in blast)

text \<open>
  A connection to a provider stays on the local host, or goes by TLS to addresses that a resolution of
  its host returned and that are not denied.
\<close>

theorem provider_client_pinned:
  assumes "safe_provider_client N lookup_host L u = Inr client"
  shows "\<exists>host. url_host u = Some host \<and>
     (case client of
        LocalClient \<Rightarrow> loopback_host N host
      | PinnedClient orig \<Rightarrow> url_scheme u = ''https'' \<and> (\<forall>a \<in> set (o_addresses orig). \<not> address_denied a False)
          \<and> (\<exists>found. lookup_host (o_host orig) (o_port orig) = Some found \<and> set (o_addresses orig) = set found))"
  using assms
  by (auto simp: safe_provider_client_def guard_simps Let_def dest!: resolve_Inr split: if_splits)

text \<open>
  An answer of a provider is taken from a successful response whose whole body was read, at most one
  mebibyte of it.
\<close>

theorem provider_answer_bounded:
  assumes "openai_complete L p ms m = (took, Inr answer)"
  shows "\<exists>q response body v. bl_send L (oa_client p) q = (took, Some response)
     \<and> pr_authorization q = oa_authorization p \<and> is_success response
     \<and> None \<notin> set (resp_chunks response) \<and> body = concat (map the (resp_chunks response))
     \<and> length body \<le> 1048576 \<and> bl_parse_json L body = Some v \<and> openai_output v = Inr answer"
proof -
  obtain u where u: "bl_join L (oa_base_url p) ''chat/completions'' = Some u"
    using assms by (auto simp: openai_complete_def split: option.splits)
  let ?q = "\<lparr>pr_post = True, pr_url = u, pr_authorization = oa_authorization p,
     pr_body = Some (JObj [(''model'', JStr (provider_model_id (oa_identity p))),
       (''messages'', JArr (map message_json ms)), (''max_tokens'', u64_json m), (''stream'', JBool False)])\<rparr>"
  obtain time reply where s: "bl_send L (oa_client p) ?q = (time, reply)" by fastforce
  with assms u have "took = time"
    and r: "rbind (checked_response ''GM_MODEL_PROVIDER_REQUEST'' reply) (\<lambda>response.
        rbind (bounded_provider_json L response) openai_output) = Inr answer"
    by (simp_all add: openai_complete_def)
  from r obtain response v where v: "reply = Some response" "is_success response"
    "bounded_provider_json L response = Inr v" "openai_output v = Inr answer"
    by (auto simp: checked_response_def guard_simps)
  from v(3) obtain body where b: "read_chunks MAX_PROVIDER_RESPONSE_BYTES ''GM_MODEL_PROVIDER_RESPONSE_TOO_LARGE''
      ''GM_MODEL_PROVIDER_BODY'' [] (resp_chunks response) = Inr body" "bl_parse_json L body = Some v"
    by (auto simp: bounded_provider_json_def guard_simps)
  have "None \<notin> set (resp_chunks response)" "body = concat (map the (resp_chunks response))" "length body \<le> 1048576"
    using read_chunks_whole [OF b(1)] by (simp_all add: MAX_PROVIDER_RESPONSE_BYTES_def)
  with s \<open>took = time\<close> v b(2) show ?thesis by (intro exI [of _ ?q]) auto
qed

text \<open>
  The in-process provider cuts its text at a character boundary, and never reports more output tokens
  than were requested.
\<close>

theorem deterministic_output_bounded:
  "\<exists>answer input. deterministic_complete ms m = (Some 0, Inr answer)
     \<and> (\<exists>i. char_boundary (''fixture: '' @ input) i \<and> po_text answer = take i (''fixture: '' @ input))
     \<and> po_output_tokens answer \<le> m"
proof -
  define input where "input = (case last_user_message ms of None \<Rightarrow> [] | Some m \<Rightarrow> msg_content m)"
  define whole where "whole = ''fixture: '' @ input"
  define i where "i = boundary_below whole (min (unat (saturating_mul m 4)) (length whole))"
  have i: "i \<le> min (unat (saturating_mul m 4)) (length whole)" by (simp only: i_def boundary_below_le)
  then have le: "i \<le> 4 * unat m" "i < 2 ^ 64"
    using unat_bound [of "saturating_mul m 4"] by (simp_all add: unat_saturating_mul)
  have "length (take i whole) = i" using i by simp
  then have "unat (approximate_tokens [take i whole]) \<le> (i + 3) div 4"
    using le(2) by (simp add: approximate_tokens_def unat_div unat_saturating_add unat_of_nat)
  also have "\<dots> \<le> unat m" using le(1) by linarith
  finally have "approximate_tokens [take i whole] \<le> m" by (simp add: word_le_nat_alt)
  moreover have "char_boundary whole i" by (simp only: i_def boundary_below_boundary)
  ultimately show ?thesis
    by (intro exI [of _ "\<lparr>po_text = take i whole, po_input_tokens = approximate_tokens (map msg_content ms),
          po_output_tokens = approximate_tokens [take i whole], po_observed_cost = Some 0\<rparr>"] exI [of _ input])
       (auto simp: deterministic_complete_def Let_def i_def whole_def input_def)
qed


text \<open>
  C36: An execution runs a tool only when the request enabled tools, for the last message of the user, on a
  registered read-only tool; the command and the result keep their size limits, and in lease mode the clock
  is valid.
\<close>

theorem broker_tool_contained:
  assumes "execute P L fresh B hs model ms m who clock = Inr x" "ex_tool x = Some t"
  shows "\<exists>mode command query tool.
       tool_mode_of L hs = Inr mode \<and> mode \<noteq> ToolOff \<and> tool_command ms = Some command
     \<and> length command \<le> 16384
     \<and> (command = tx_alias t @ CHR '' '' # query \<or> command = tx_alias t \<and> query = [])
     \<and> fed_tool (tx_alias t) (br_federation B) = Inr tool \<and> ft_side_effect tool = ReadOnly
     \<and> (mode = ToolLease \<longrightarrow> (\<exists>now. clock = Some now \<and> now < - 1))
     \<and> tx_result t = json_object [(''query'', JStr query), (''fixture'', ft_fixture_result tool)]
     \<and> length (json_to_vec P (tx_result t)) \<le> 65536"
proof (rule execute_Inr [OF assms(1)])
  fix mode b p r cost tool extra
  assume mode: "tool_mode_of L hs = Inr mode" and "ex_tool x = tool"
    "maybe_execute_tool P fresh (br_federation B) ms mode
       (of_json P (request_document P (mr_identity r) ms m mode b who)) who clock = Inr tool"
  with assms(2) have "maybe_execute_tool P fresh (br_federation B) ms mode
       (of_json P (request_document P (mr_identity r) ms m mode b who)) who clock = Inr (Some t)" by simp
  then show ?thesis
    by (rule maybe_execute_tool_Some)
       (use mode in \<open>fastforce simp: lease_one_call_Inr MAX_TOOL_PAYLOAD_BYTES_def MAX_TOOL_OUTPUT_BYTES_def\<close>)
qed

section \<open>A concrete execution\<close>

definition sample_reader :: federated_tool where
  "sample_reader =
     \<lparr>ft_identity = sample_capability ''docs'' ''read'', ft_native_name = ''read'', ft_alias = ''t'',
      ft_description = [], ft_input_schema = JNull, ft_side_effect = ReadOnly, ft_fixture_result = JStr ''found''\<rparr>"

definition sample_broker :: broker where
  "sample_broker =
     fixture_broker sample_platform (federation_default\<lparr>fed_tools := fmupd ''t'' sample_reader fmempty\<rparr>)"

definition sample_library :: broker_library where
  "sample_library =
     \<lparr>bl_http = sample_http, bl_env = (\<lambda>_. None), bl_header_value = Some, bl_join = (\<lambda>u s. Some u),
      bl_builds = (\<lambda>_. True), bl_send = (\<lambda>_ _. (None, None)), bl_parse_json = (\<lambda>_. None),
      bl_chat_request = (\<lambda>_. Inl ''missing field''), bl_responses_request = (\<lambda>_. Inl ''missing field'')\<rparr>"

definition tool_headers :: headers where
  "tool_headers = [(''x-gaugemesh-tool-mode'', ''lease''), (''x-gaugemesh-max-input-tokens'', ''2'')]"

definition tool_messages :: "message list" where
  "tool_messages = [\<lparr>msg_role = RoleUser, msg_content = ''tool:t''\<rparr>]"

definition sample_budget :: model_budget where
  "sample_budget =
     \<lparr>max_input_tokens = 2, max_output_tokens = 1024, model_money_micros = 0, deadline_remaining_ms = 30000,
      tool_loop_limit = 1, retry_limit = 0, provider_allowlist = [], model_allowlist = []\<rparr>"

lemma sample_request:
  "tool_mode_of sample_library tool_headers = Inr ToolLease"
  "request_budget sample_library tool_headers 64 = Inr sample_budget"
  by (simp_all add: tool_mode_of_def request_budget_def header_or_def header_u64_def header_list_def
      header_get_def tool_headers_def sample_library_def sample_http_def sample_budget_def parse_u64_def
      parse_unsigned_def starts_with_def digit_value_def as_u16_def)

lemma sample_tokens: "approximate_tokens (map msg_content tool_messages) = 2"
  by (simp add: approximate_tokens_def tool_messages_def saturating_add_def)

lemma sample_offers:
  assumes "r \<in> set (br_providers sample_broker)"
  shows "offers ''auto'' 64 sample_budget 2 ToolLease r"
  using assms
  by (simp add: offers_def name_matches_def sample_broker_def fixture_broker_def sample_budget_def
      deterministic_identity_def estimate_cost_micros_def saturating_mul_def saturating_add_def)

lemma sample_tool_run:
  "\<exists>t. maybe_execute_tool sample_platform ''l'' (br_federation sample_broker) tool_messages ToolLease parent
          None (Some 5) = Inr (Some t)
     \<and> tx_result t = json_object [(''query'', JStr []), (''fixture'', JStr ''found'')]"
proof -
  have "lease_one_call sample_platform ''l'' parent None (Some 5) sample_reader = Inr ()"
    by (simp add: lease_one_call_Inr sample_reader_def)
  then show ?thesis
    by (simp add: maybe_execute_tool_def tool_command_def last_user_message_def tool_messages_def
        strip_prefix_def MAX_TOOL_PAYLOAD_BYTES_def MAX_TOOL_OUTPUT_BYTES_def sample_broker_def
        fixture_broker_def fed_tool_def federation_default_def Let_def)
       (simp add: sample_reader_def json_object_def btree_collect_def sample_platform_def less_char_def)
qed

lemma sample_answer_tokens:
  "r \<in> set (br_providers sample_broker) \<Longrightarrow>
     \<exists>answer. mr_complete r (tool_messages @ [\<lparr>msg_role = RoleTool, msg_content =
         json_to_vec sample_platform (json_object [(''query'', JStr []), (''fixture'', JStr ''found'')])\<rparr>]) 64
       = (Some 0, Inr answer) \<and> 2 < po_input_tokens answer"
  by (simp add: sample_broker_def fixture_broker_def deterministic_complete_def Let_def
      approximate_tokens_def tool_messages_def json_object_def btree_collect_def sample_platform_def
      less_char_def saturating_add_def)

lemma sample_execution:
  "\<exists>x t. execute sample_platform sample_library ''l'' sample_broker tool_headers ''auto'' tool_messages 64
            None (Some 5) = Inr x \<and> ex_tool x = Some t \<and> 2 < po_input_tokens (ex_output x)"
proof -
  have "aliases_distinct sample_broker" by (simp add: aliases_distinct_def sample_broker_def fixture_broker_def)
  moreover obtain r0 where "r0 \<in> set (br_providers sample_broker)"
    by (auto simp: sample_broker_def fixture_broker_def)
  ultimately obtain p r cost where
    s: "select_route sample_platform sample_broker ''auto'' 64 sample_budget 2 ToolLease = Inr (p, r, cost)"
    using select_route_total [of sample_broker r0 "''auto''" 64 sample_budget 2 ToolLease sample_platform]
      sample_offers by auto
  obtain t where "maybe_execute_tool sample_platform ''l'' (br_federation sample_broker) tool_messages ToolLease
       (of_json sample_platform (request_document sample_platform (mr_identity r) tool_messages 64 ToolLease
          sample_budget None)) None (Some 5) = Inr (Some t)"
    "tx_result t = json_object [(''query'', JStr []), (''fixture'', JStr ''found'')]"
    using sample_tool_run by blast
  moreover obtain answer where "mr_complete r (tool_messages @ [\<lparr>msg_role = RoleTool, msg_content =
         json_to_vec sample_platform (json_object [(''query'', JStr []), (''fixture'', JStr ''found'')])\<rparr>]) 64
       = (Some 0, Inr answer)" "2 < po_input_tokens answer"
    using sample_answer_tokens [of r] select_route_ok [OF s] by blast
  ultimately show ?thesis
    using s by (simp add: execute_def sample_request sample_tokens Let_def within_deadline_def)
qed

text \<open>
  The budget is checked before the tool has run, and the result of the tool is sent to the provider
  unchecked: with a limit of two input tokens a provider is sent, and reports, more.
\<close>

theorem tool_result_escapes_budget:
  "\<exists>b x. request_budget sample_library tool_headers 64 = Inr b
     \<and> execute sample_platform sample_library ''l'' sample_broker tool_headers ''auto'' tool_messages 64
          None (Some 5) = Inr x
     \<and> max_input_tokens b < po_input_tokens (ex_output x)"
  using sample_execution sample_request(2) by (auto simp: sample_budget_def)


theorem broker_tool_contained_witness:
  "\<exists>x t tool. execute sample_platform sample_library ''l'' sample_broker tool_headers ''auto'' tool_messages 64
                None (Some 5) = Inr x
     \<and> ex_tool x = Some t \<and> fed_tool (tx_alias t) (br_federation sample_broker) = Inr tool
     \<and> ft_side_effect tool = ReadOnly"
proof -
  obtain x t where x: "execute sample_platform sample_library ''l'' sample_broker tool_headers ''auto''
      tool_messages 64 None (Some 5) = Inr x" "ex_tool x = Some t"
    using sample_execution by blast
  from broker_tool_contained [OF x] x show ?thesis by blast
qed

end
