(* ===== verification/Registry.thy ===== *)
theory Registry
  imports Config Http
begin

text \<open>
  Models \<open>crates/gaugemesh/src/registry.rs\<close>: the commands that query the public registry of servers and
  the approval files they write. Every request goes to the pinned addresses of the one registry; an
  approval names a version, carries a digest of itself and is never overwritten. The HTTP client, URL
  building and the derived deserializer are fields of \<open>registry_library\<close>; the file system is a map from
  paths to contents.
\<close>

definition OFFICIAL_REGISTRY :: string where
  "OFFICIAL_REGISTRY = ''https://registry.modelcontextprotocol.io''"

definition API_VERSION :: string where "API_VERSION = ''v0.1''"
definition MAX_REGISTRY_BYTES :: nat where "MAX_REGISTRY_BYTES = 2 * 1024 * 1024"

section \<open>Records\<close>

datatype approved_transport = StreamableHttp (approved_url: full_url)

record approval_record =
  ap_version :: u16
  ap_registry :: string
  ap_registry_api :: string
  ap_server_name :: string
  ap_server_version :: string
  ap_record_digest :: sha256_digest
  ap_transport :: approved_transport
  ap_digest :: sha256_digest

type_synonym files = "string \<rightharpoonup> bytes"

record registry_library =
  rg_parse_url :: "string \<Rightarrow> full_url option"
  rg_query :: "full_url \<Rightarrow> (string \<times> string) list \<Rightarrow> full_url"
  rg_segments :: "full_url \<Rightarrow> string list \<Rightarrow> full_url option"
  rg_builds :: "resolved_origin \<Rightarrow> bool"
  rg_send :: "resolved_origin \<Rightarrow> full_url \<Rightarrow> http_response option"
  rg_parse_json :: "bytes \<Rightarrow> json option"
  rg_write_approval :: "approval_record \<Rightarrow> bytes"
  rg_parse_approval :: "bytes \<Rightarrow> approval_record option"

section \<open>Queries\<close>

definition registry_client :: "dns \<Rightarrow> registry_library \<Rightarrow> (string, resolved_origin) res" where
  "registry_client lookup_host R =
     rbind (ok_or (rg_parse_url R OFFICIAL_REGISTRY) ''url'') (\<lambda>u.
     rbind (map_err (\<lambda>_. ''GM_REGISTRY_ORIGIN_RESOLUTION'') (resolve lookup_host (url.truncate u) False)) (\<lambda>origin.
     rbind (ensure (rg_builds R origin) ''client'') (\<lambda>_. Inr origin)))"

definition get_json :: "registry_library \<Rightarrow> resolved_origin \<Rightarrow> full_url \<Rightarrow> (string, json) res" where
  "get_json R client u =
     rbind (ensure (\<not> (url_scheme u \<noteq> ''https'' \<or> url_host u \<noteq> Some ''registry.modelcontextprotocol.io''))
              ''GM_REGISTRY_ORIGIN_DENIED'') (\<lambda>_.
     rbind (ok_or (rg_send R client u) ''GM_REGISTRY_REQUEST'') (\<lambda>response.
     rbind (ensure (is_success response) (''GM_REGISTRY_STATUS:'' @ nat_text (resp_status response))) (\<lambda>_.
     rbind (ensure (\<not> length_exceeds response MAX_REGISTRY_BYTES) ''GM_REGISTRY_RESPONSE_TOO_LARGE'') (\<lambda>_.
     rbind (read_chunks MAX_REGISTRY_BYTES ''GM_REGISTRY_RESPONSE_TOO_LARGE'' ''GM_REGISTRY_BODY'' []
              (resp_chunks response)) (\<lambda>body.
       ok_or (rg_parse_json R body) ''GM_REGISTRY_JSON'')))))"

definition inspect :: "dns \<Rightarrow> registry_library \<Rightarrow> string \<Rightarrow> string \<Rightarrow> (string, json) res" where
  "inspect lookup_host R name version =
     rbind (registry_client lookup_host R) (\<lambda>client.
     rbind (ok_or (rg_parse_url R (OFFICIAL_REGISTRY @ ''/'' @ API_VERSION @ ''/'')) ''url'') (\<lambda>u.
     rbind (ok_or (rg_segments R u [''servers'', name, ''versions'', version]) ''GM_REGISTRY_URL'') (\<lambda>v.
       get_json R client v)))"

definition search_registry :: "dns \<Rightarrow> registry_library \<Rightarrow> string \<Rightarrow> nat \<Rightarrow> (string, json) res" where
  "search_registry lookup_host R query limit =
     rbind (registry_client lookup_host R) (\<lambda>client.
     rbind (ok_or (rg_parse_url R (OFFICIAL_REGISTRY @ ''/'' @ API_VERSION @ ''/servers'')) ''url'') (\<lambda>u.
       get_json R client
         (rg_query R u [(''search'', query), (''version'', ''latest''), (''limit'', nat_text (max 1 (min 100 limit)))])))"

section \<open>Approvals\<close>

definition approval_base_json :: "platform \<Rightarrow> approval_record \<Rightarrow> json" where
  "approval_base_json P a =
     JObj [(''version'', u16_json (ap_version a)), (''registry'', JStr (ap_registry a)),
           (''registryApi'', JStr (ap_registry_api a)), (''serverName'', JStr (ap_server_name a)),
           (''serverVersion'', JStr (ap_server_version a)),
           (''recordDigest'', digest_json P (ap_record_digest a)),
           (''transport'', JObj [(''type'', JStr ''streamable-http''),
                                 (''url'', JStr (url_text (approved_url (ap_transport a))))])]"

text \<open>Every character outside \<open>[A-Za-z0-9._-]\<close> becomes an underscore.\<close>

fun safe_character :: "string \<Rightarrow> char" where
  "safe_character [c] = (if ascii_in ''-_.'' c then c else CHR ''_'')"
| "safe_character p = CHR ''_''"

definition default_approval_path :: "string \<Rightarrow> string \<Rightarrow> string" where
  "default_approval_path name version =
     ''.gaugemesh/approvals/'' @ map safe_character (utf8_pieces (name @ ''-'' @ version)) @ ''.json''"

text \<open>The approval of a record the registry returned.\<close>

definition approval_of :: "platform \<Rightarrow> registry_library \<Rightarrow> string \<Rightarrow> json \<Rightarrow> (string, approval_record) res" where
  "approval_of P R name value =
     rbind (ok_or (json_get ''server'' value) ''GM_REGISTRY_RECORD_SHAPE'') (\<lambda>server.
     rbind (ok_or (Option.bind (json_get ''name'' server) json_str) ''GM_REGISTRY_NAME_MISSING'') (\<lambda>actual_name.
     rbind (ok_or (Option.bind (json_get ''version'' server) json_str) ''GM_REGISTRY_VERSION_MISSING'') (\<lambda>actual_version.
     rbind (ensure (actual_name = name) ''GM_REGISTRY_NAME_MISMATCH'') (\<lambda>_.
     rbind (ok_or (Option.bind (Option.bind (json_get ''remotes'' server) json_items)
                     (find (\<lambda>r. Option.bind (json_get ''type'' r) json_str = Some ''streamable-http'')))
              ''GM_REGISTRY_NO_STREAMABLE_HTTP_REMOTE'') (\<lambda>rem.
     rbind (ok_or (Option.bind (json_get ''url'' rem) json_str) ''GM_REGISTRY_REMOTE_URL_MISSING'') (\<lambda>shown.
     rbind (ok_or (rg_parse_url R shown) ''url'') (\<lambda>u.
     rbind (ensure (url_scheme u = ''https'') ''GM_REGISTRY_REMOTE_REQUIRES_HTTPS'') (\<lambda>_.
     let a = \<lparr>ap_version = 1, ap_registry = OFFICIAL_REGISTRY, ap_registry_api = API_VERSION,
              ap_server_name = actual_name, ap_server_version = actual_version,
              ap_record_digest = of_json P value, ap_transport = StreamableHttp u,
              ap_digest = default_digest\<rparr> in
       Inr (a\<lparr>ap_digest := of_json P (approval_base_json P a)\<rparr>)))))))))"

text \<open>\<open>create_new\<close> refuses a path that exists.\<close>

definition create_new :: "string \<Rightarrow> bytes \<Rightarrow> files \<Rightarrow> (string, files) res" where
  "create_new path body fs =
     (if fs path \<noteq> None then Inl (''GM_REGISTRY_APPROVAL_CREATE:'' @ path) else Inr (fs(path \<mapsto> body)))"

definition approve ::
  "platform \<Rightarrow> dns \<Rightarrow> registry_library \<Rightarrow> string \<Rightarrow> string \<Rightarrow> string option \<Rightarrow> files
   \<Rightarrow> (string, string \<times> approval_record \<times> files) res" where
  "approve P lookup_host R name version target fs =
     rbind (inspect lookup_host R name version) (\<lambda>value.
     rbind (approval_of P R name value) (\<lambda>a.
     let path = (case target of
                   None \<Rightarrow> default_approval_path (ap_server_name a) (ap_server_version a) | Some p \<Rightarrow> p) in
     rbind (create_new path (rg_write_approval R a) fs) (\<lambda>fs'. Inr (path, a, fs'))))"

definition approved_streamable_http ::
  "platform \<Rightarrow> registry_library \<Rightarrow> files \<Rightarrow> string \<Rightarrow> (string, full_url) res" where
  "approved_streamable_http P R fs path =
     rbind (ok_or (fs path) (''GM_REGISTRY_APPROVAL_READ:'' @ path)) (\<lambda>contents.
     rbind (ok_or (rg_parse_approval R contents) (''GM_REGISTRY_APPROVAL_PARSE:'' @ path)) (\<lambda>a.
     rbind (ensure (of_json P (approval_base_json P a) = ap_digest a) ''GM_REGISTRY_APPROVAL_TAMPERED'') (\<lambda>_.
       if url_scheme (approved_url (ap_transport a)) = ''https'' then Inr (approved_url (ap_transport a))
       else Inl ''GM_REGISTRY_APPROVED_TRANSPORT_DENIED'')))"

section \<open>What an approval is worth\<close>

lemma approval_base_digest [simp]: "approval_base_json P (a\<lparr>ap_digest := d\<rparr>) = approval_base_json P a"
  by (simp add: approval_base_json_def)

lemma canonical_approval_base:
  "canonical_json (approval_base_json P a) =
     JObj [(''recordDigest'', digest_json P (ap_record_digest a)), (''registry'', JStr (ap_registry a)),
           (''registryApi'', JStr (ap_registry_api a)), (''serverName'', JStr (ap_server_name a)),
           (''serverVersion'', JStr (ap_server_version a)),
           (''transport'', JObj [(''type'', JStr ''streamable-http''),
                                 (''url'', JStr (url_text (approved_url (ap_transport a))))]),
           (''version'', u16_json (ap_version a))]"
  by (simp add: approval_base_json_def btree_collect_def less_char_def)

lemma approval_of_Inr:
  "approval_of P R name value = Inr a \<Longrightarrow>
     ap_server_name a = name \<and> ap_record_digest a = of_json P value \<and> ap_registry a = OFFICIAL_REGISTRY
     \<and> ap_digest a = of_json P (approval_base_json P a)
     \<and> url_scheme (approved_url (ap_transport a)) = ''https''"
  by (auto simp: approval_of_def approval_base_json_def guard_simps Let_def)

lemma get_json_Inr:
  assumes "get_json R client u = Inr v"
  shows "\<exists>response body. url_scheme u = ''https'' \<and> url_host u = Some ''registry.modelcontextprotocol.io''
     \<and> rg_send R client u = Some response \<and> is_success response \<and> None \<notin> set (resp_chunks response)
     \<and> body = concat (map the (resp_chunks response)) \<and> length body \<le> 2097152 \<and> rg_parse_json R body = Some v"
proof -
  obtain response body where r: "url_scheme u = ''https''" "url_host u = Some ''registry.modelcontextprotocol.io''"
    "rg_send R client u = Some response" "is_success response" "rg_parse_json R body = Some v"
    "read_chunks MAX_REGISTRY_BYTES ''GM_REGISTRY_RESPONSE_TOO_LARGE'' ''GM_REGISTRY_BODY'' []
       (resp_chunks response) = Inr body"
    using assms by (auto simp: get_json_def guard_simps)
  from read_chunks_whole [OF r(6)] r(1-5) show ?thesis by (auto simp: MAX_REGISTRY_BYTES_def)
qed

text \<open>
  C37: A server is approved only from a record that the registry itself returned, over the addresses checked
  for the registry's name, under the name that was asked for; the approval is written to a path that did
  not exist, changes no other file, and is what the gateway later reads as the address to connect to, an
  address with TLS.
\<close>

theorem approval_reads_back:
  assumes "approve P lookup_host R name version target fs = Inr (path, a, fs')"
    and "rg_parse_approval R (rg_write_approval R a) = Some a"
  shows "fs path = None \<and> fs' = fs(path \<mapsto> rg_write_approval R a) \<and> ap_server_name a = name
     \<and> (\<exists>client u response v. resolve lookup_host (url.truncate u) False = Inr client
          \<and> rg_parse_url R OFFICIAL_REGISTRY = Some u
          \<and> (\<exists>w. url_scheme w = ''https'' \<and> url_host w = Some ''registry.modelcontextprotocol.io''
                 \<and> rg_send R client w = Some response \<and> is_success response)
          \<and> rg_parse_json R (concat (map the (resp_chunks response))) = Some v
          \<and> ap_record_digest a = of_json P v)
     \<and> approved_streamable_http P R fs' path = Inr (approved_url (ap_transport a))
     \<and> url_scheme (approved_url (ap_transport a)) = ''https''"
proof -
  obtain v client w u where i: "approval_of P R name v = Inr a" "get_json R client w = Inr v"
      "resolve lookup_host (url.truncate u) False = Inr client" "rg_parse_url R OFFICIAL_REGISTRY = Some u"
    and fs: "fs path = None" "fs' = fs(path \<mapsto> rg_write_approval R a)"
    using assms(1)
    by (auto simp: approve_def inspect_def registry_client_def create_new_def guard_simps Let_def
        split: if_splits)
  note a = approval_of_Inr [OF i(1)]
  have "approved_streamable_http P R fs' path = Inr (approved_url (ap_transport a))"
    using assms(2) a fs(2) by (simp add: approved_streamable_http_def)
  with a fs i(3,4) get_json_Inr [OF i(2)] show ?thesis by blast
qed

text \<open>
  An approval file that is accepted with the digest of another approval names the same server, version,
  record and address, unless the two are an explicit hash collision.
\<close>

theorem tampered_approval_rejected:
  assumes "hex_roundtrip P" "fs path = Some contents" "rg_parse_approval R contents = Some a"
    and "approved_streamable_http P R fs path = Inr u" "ap_digest a = of_json P (approval_base_json P b)"
  shows "(ap_server_name a = ap_server_name b \<and> ap_server_version a = ap_server_version b
       \<and> ap_record_digest a = ap_record_digest b
       \<and> url_text u = url_text (approved_url (ap_transport b)))
     \<or> doc_collision P (approval_base_json P a) (approval_base_json P b)"
proof -
  have eq: "of_json P (approval_base_json P a) = of_json P (approval_base_json P b)"
    and u: "u = approved_url (ap_transport a)"
    using assms(2-5) by (auto simp: approved_streamable_http_def guard_simps split: if_splits)
  have d: "digest_json P x = digest_json P y \<Longrightarrow> x = y" for x y
    using digest_to_string_inject [OF assms(1)] by (auto simp: digest_json_def)
  from of_json_eq [OF eq] d u show ?thesis by (auto simp: canonical_approval_base)
qed

text \<open>The default path of an approval is a file of the approvals directory, whatever the names are.\<close>

theorem default_path_stays_inside:
  "\<exists>f. default_approval_path name version = ''.gaugemesh/approvals/'' @ f
     \<and> CHR ''/'' \<notin> set f \<and> f \<noteq> ''.'' \<and> f \<noteq> ''..'' \<and> CHR 0x00 \<notin> set f"
proof -
  have "safe_character p \<noteq> CHR ''/'' \<and> safe_character p \<noteq> CHR 0x00" for p
    by (cases p rule: safe_character.cases) (auto simp: ascii_in_def is_ascii_alphanumeric_def)
  then have safe: "CHR ''/'' \<notin> safe_character ` A" "CHR 0x00 \<notin> safe_character ` A" for A
    by (metis imageE)+
  show ?thesis
    by (intro exI [of _ "map safe_character (utf8_pieces (name @ ''-'' @ version)) @ ''.json''"])
       (auto simp: default_approval_path_def append_eq_Cons_conv safe)
qed

section \<open>A concrete approval\<close>

definition registry_url :: full_url where
  "registry_url =
     \<lparr>url_scheme = ''https'', url_username = [], url_password = None,
      url_host = Some ''registry.modelcontextprotocol.io'', url_port = Some 443, url_fragment = None,
      url_query = None, url_path = ''/'', url_text = ''https://registry.modelcontextprotocol.io/''\<rparr>"

definition sample_record :: json where
  "sample_record =
     JObj [(''server'', JObj [(''name'', JStr ''acme/docs''), (''version'', JStr ''1.0''),
       (''remotes'', JArr [JObj [(''type'', JStr ''streamable-http''), (''url'', JStr ''https://docs.example/'')]])])]"

definition sample_approval :: approval_record where
  "sample_approval =
     (let a = \<lparr>ap_version = 1, ap_registry = OFFICIAL_REGISTRY, ap_registry_api = API_VERSION,
        ap_server_name = ''acme/docs'', ap_server_version = ''1.0'',
        ap_record_digest = of_json sample_platform sample_record, ap_transport = StreamableHttp registry_url,
        ap_digest = default_digest\<rparr> in
      a\<lparr>ap_digest := of_json sample_platform (approval_base_json sample_platform a)\<rparr>)"

definition sample_registry :: registry_library where
  "sample_registry =
     \<lparr>rg_parse_url = (\<lambda>_. Some registry_url), rg_query = (\<lambda>u _. u), rg_segments = (\<lambda>u _. Some u),
      rg_builds = (\<lambda>_. True),
      rg_send = (\<lambda>_ _. Some \<lparr>resp_status = 200, resp_status_text = ''200 OK'', resp_content_length = None,
                             resp_headers = [], resp_chunks = [Some ''record'']\<rparr>),
      rg_parse_json = (\<lambda>_. Some sample_record), rg_write_approval = (\<lambda>_. ''approval''),
      rg_parse_approval = (\<lambda>_. Some sample_approval)\<rparr>"

lemma sample_approved:
  "approve sample_platform (\<lambda>_ _. Some [V4 134744072]) sample_registry ''acme/docs'' ''latest'' (Some ''docs.json'')
     Map.empty = Inr (''docs.json'', sample_approval, [''docs.json'' \<mapsto> ''approval''])"
proof -
  have "resolve (\<lambda>_ _. Some [V4 134744072]) (url.truncate registry_url) False
      = Inr \<lparr>o_scheme = ''https'', o_host = ''registry.modelcontextprotocol.io'', o_port = 443,
             o_addresses = [V4 134744072]\<rparr>"
    by (simp add: resolve_def registry_url_def url.defs sort_addresses_def Let_def denied_v4 denied_ipv4_def ipv4_def)
  moreover have "get_json sample_registry client registry_url = Inr sample_record" for client
    by (simp add: get_json_def sample_registry_def registry_url_def is_success_def length_exceeds_def
        MAX_REGISTRY_BYTES_def)
  moreover have "approval_of sample_platform sample_registry ''acme/docs'' sample_record = Inr sample_approval"
    by (simp add: approval_of_def sample_record_def)
       (simp add: sample_registry_def sample_approval_def sample_record_def registry_url_def Let_def)
  ultimately show ?thesis
    by (simp add: approve_def inspect_def registry_client_def create_new_def)
       (simp add: sample_registry_def Let_def)
qed

theorem approval_reads_back_witness:
  "approved_streamable_http sample_platform sample_registry [''docs.json'' \<mapsto> ''approval''] ''docs.json''
     = Inr (approved_url (ap_transport sample_approval))"
proof -
  have "rg_parse_approval sample_registry (rg_write_approval sample_registry sample_approval) = Some sample_approval"
    by (simp add: sample_registry_def)
  from approval_reads_back [OF sample_approved this] show ?thesis by blast
qed

end
