(* ===== verification/Spec2Isabelle.thy ===== *)
theory Spec2Isabelle
  imports Digest Protocol Capability Context Invariant Budget Translation Causal Lease Model_Cost Route
    Policy Runtime Task Storage Security Federation Codec Run Sqlite Database
    Proxy_System Run_System Artifact Config Process_Pool Auth Admission Upstream Approval Gateway Broker Registry
begin

text \<open>
  A model of GaugeMesh in Isabelle/HOL.
\<close>

end
